(* ===== verification/Prelude.thy ===== *)
theory Prelude
  imports Complex_Main "HOL-Library.Word" "HOL-Library.Code_Target_Nat"
begin

text \<open>
  The vocabulary the components share: Go errors as values, computations that thread the client's
  state and may fail, the byte-string functions of the Go standard library that the SDK calls,
  printing and reading of integers in a base, and rounding of rationals to a number of decimal
  places.  The generic lemmas are declared \<open>[simp]\<close>, \<open>[intro]\<close> or into the collections
  \<open>go_run\<close> (running a fallible computation) and \<open>go_split\<close>.
\<close>

named_theorems go_run \<open>how a fallible, state-passing computation runs\<close>

section \<open>Errors\<close>

text \<open>
  A Go error is a value.  \<open>Msg\<close> is an error made by \<open>fmt.Errorf\<close> or \<open>errors.New\<close> without a
  wrapped cause: the fixed text of its format string (interpolated values are left out).
  \<open>Sentinel\<close> is a package-level error variable that callers compare with \<open>errors.Is\<close>.
  \<open>Wrap\<close> is \<open>fmt.Errorf\<close> with a \<open>%w\<close> verb.  \<open>ApiError\<close> is a \<open>*polyhttp.APIError\<close> with its status,
  code and message, \<open>Typed\<close> a pointer to another error struct of the SDK, by its type name and its string fields, \<open>Remote\<close> any other error of the network, of a signer or of a third-party package.
\<close>

datatype go_error =
    Msg string
  | Sentinel string
  | Wrap string go_error
  | CtxCanceled
  | CtxDeadlineExceeded
  | ApiError int "string option" string
  | Typed string "string list"
  | Remote nat

type_synonym 'a result = "go_error + 'a"

fun errors_is :: "go_error \<Rightarrow> go_error \<Rightarrow> bool" where
  "errors_is e target =
     (e = target \<or> (case e of Wrap _ cause \<Rightarrow> errors_is cause target | _ \<Rightarrow> False))"

declare errors_is.simps [simp del]

lemma errors_is_refl [simp]: "errors_is e e"
  by (subst errors_is.simps) simp

lemma errors_is_Wrap [simp]:
  "errors_is (Wrap m c) t \<longleftrightarrow> Wrap m c = t \<or> errors_is c t"
  by (subst errors_is.simps) simp

lemma errors_is_leaf [simp]:
  "errors_is (Msg m) t \<longleftrightarrow> Msg m = t"
  "errors_is (Sentinel m) t \<longleftrightarrow> Sentinel m = t"
  "errors_is CtxCanceled t \<longleftrightarrow> CtxCanceled = t"
  "errors_is CtxDeadlineExceeded t \<longleftrightarrow> CtxDeadlineExceeded = t"
  "errors_is (ApiError n k m) t \<longleftrightarrow> ApiError n k m = t"
  "errors_is (Typed s fs) t \<longleftrightarrow> Typed s fs = t"
  "errors_is (Remote r) t \<longleftrightarrow> Remote r = t"
  by (subst errors_is.simps; simp)+

section \<open>Fallible computations that thread a state\<close>

type_synonym ('s, 'a) act = "'s \<Rightarrow> 'a result \<times> 's"

definition ret :: "'a \<Rightarrow> ('s, 'a) act" where
  "ret x = (\<lambda>s. (Inr x, s))"

definition fail :: "go_error \<Rightarrow> ('s, 'a) act" where
  "fail e = (\<lambda>s. (Inl e, s))"

definition bindE :: "('s, 'a) act \<Rightarrow> ('a \<Rightarrow> ('s, 'b) act) \<Rightarrow> ('s, 'b) act" where
  "bindE m f = (\<lambda>s. case m s of (Inl e, s') \<Rightarrow> (Inl e, s') | (Inr x, s') \<Rightarrow> f x s')"

text \<open>The error of a pure result, lifted; \<open>wrapE\<close> is \<open>if err != nil { return ..., Errorf("...%w", err) }\<close>.\<close>

definition lift :: "'a result \<Rightarrow> ('s, 'a) act" where
  "lift r = (\<lambda>s. (r, s))"

definition wrap_err :: "string \<Rightarrow> 'a result \<Rightarrow> 'a result" where
  "wrap_err m r = (case r of Inl e \<Rightarrow> Inl (Wrap m e) | Inr x \<Rightarrow> Inr x)"

definition wrapE :: "string \<Rightarrow> ('s, 'a) act \<Rightarrow> ('s, 'a) act" where
  "wrapE m a = (\<lambda>s. case a s of (r, s') \<Rightarrow> (wrap_err m r, s'))"

definition rbind :: "'a result \<Rightarrow> ('a \<Rightarrow> 'b result) \<Rightarrow> 'b result" where
  "rbind r f = (case r of Inl e \<Rightarrow> Inl e | Inr x \<Rightarrow> f x)"

definition guardE :: "bool \<Rightarrow> go_error \<Rightarrow> unit result" where
  "guardE ok e = (if ok then Inr () else Inl e)"

lemma run_simps [simp]:
  "ret x s = (Inr x, s)"
  "fail e s = (Inl e, s)"
  "lift r s = (r, s)"
  by (simp_all add: ret_def fail_def lift_def)

lemma bindE_ret [simp]: "bindE (ret x) f = f x"
  by (simp add: bindE_def ret_def)

lemma bindE_Inr [go_run]:
  "bindE m f s = (Inr y, t) \<longleftrightarrow> (\<exists>x s'. m s = (Inr x, s') \<and> f x s' = (Inr y, t))"
  by (auto simp: bindE_def split: prod.splits sum.splits)

lemma bindE_Inr_val [go_run]:
  "fst (bindE m f s) = Inr y \<longleftrightarrow> (\<exists>x s'. m s = (Inr x, s') \<and> fst (f x s') = Inr y)"
  by (auto simp: bindE_def split: prod.splits sum.splits)

lemma bindE_step:
  "m s = (Inr x, s') \<Longrightarrow> bindE m f s = f x s'"
  "m s = (Inl e, s') \<Longrightarrow> bindE m f s = (Inl e, s')"
  by (simp_all add: bindE_def)

lemma lift_Inr [go_run]: "lift r s = (Inr x, s') \<longleftrightarrow> r = Inr x \<and> s' = s"
  by auto

lemma wrap_err_simps [simp]:
  "wrap_err m (Inl e) = Inl (Wrap m e)" "wrap_err m (Inr x) = Inr x"
  by (simp_all add: wrap_err_def)

lemma wrap_err_Inr [simp]: "wrap_err m r = Inr x \<longleftrightarrow> r = Inr x"
  by (cases r) auto

lemma wrapE_Inr [go_run]: "wrapE m a s = (Inr x, t) \<longleftrightarrow> a s = (Inr x, t)"
  by (auto simp: wrapE_def split: prod.splits)

lemma rbind_simps [simp]: "rbind (Inl e) f = Inl e" "rbind (Inr x) f = f x"
  by (simp_all add: rbind_def)

lemma rbind_Inr [go_run]: "rbind r f = Inr y \<longleftrightarrow> (\<exists>x. r = Inr x \<and> f x = Inr y)"
  by (cases r) auto

lemma guardE_Inr [simp]: "guardE ok e = Inr u \<longleftrightarrow> ok"
  by (simp add: guardE_def)

lemma guardE_simps [simp]: "guardE True e = Inr ()" "guardE False e = Inl e"
  by (simp_all add: guardE_def)

section \<open>Byte strings\<close>

text \<open>
  A Go string is a sequence of bytes, here a \<open>string\<close>.  \<open>strings.TrimSpace\<close> removes every leading and
  trailing code point with the Unicode White_Space property; \<open>space_runes\<close> lists their UTF-8 encodings.
\<close>

definition space_runes :: "string list" where
  "space_runes = map (map (\<lambda>n::nat. char_of n))
     ([[9], [10], [11], [12], [13], [32], [194, 133], [194, 160], [225, 154, 128]]
      @ map (\<lambda>k. [226, 128, k]) [128, 129, 130, 131, 132, 133, 134, 135, 136, 137, 138, 168, 169, 175]
      @ [[226, 129, 159], [227, 128, 128]])"

definition has_prefix :: "string \<Rightarrow> string \<Rightarrow> bool" where
  "has_prefix s p \<longleftrightarrow> take (length p) s = p"

definition trim_prefix :: "string \<Rightarrow> string \<Rightarrow> string" where
  "trim_prefix s p = (if has_prefix s p then drop (length p) s else s)"

function trim_left_any :: "string list \<Rightarrow> string \<Rightarrow> string" where
  "trim_left_any rs s =
     (case find (\<lambda>r. r \<noteq> [] \<and> has_prefix s r) rs of
        None \<Rightarrow> s
      | Some r \<Rightarrow> trim_left_any rs (drop (length r) s))"
  by pat_completeness auto
termination
proof (relation "measure (\<lambda>(rs, s). length s)", goal_cases)
  case (2 rs s r)
  then have r: "r \<noteq> []" "take (length r) s = r"
    by (auto simp: find_Some_iff has_prefix_def)
  then have "length r \<le> length s"
    by (metis length_take min.cobounded1)
  then have "length (drop (length r) s) < length s"
    using r by (cases s) auto
  then show ?case by simp
qed simp

declare trim_left_any.simps [simp del]

definition trim_space :: "string \<Rightarrow> string" where
  "trim_space s = rev (trim_left_any (map rev space_runes) (rev (trim_left_any space_runes s)))"

text \<open>
  \<open>strings.ToUpper\<close>, exact for results that are compared with ASCII words: besides the ASCII letters only
  U+0131 and U+017F have an ASCII upper case; every other byte sequence stays outside ASCII.
\<close>

definition upper_char :: "char \<Rightarrow> char" where
  "upper_char c = (let n = of_char c :: nat in if 97 \<le> n \<and> n \<le> 122 then char_of (n - 32) else c)"

fun to_upper :: "string \<Rightarrow> string" where
  "to_upper [] = []"
| "to_upper [c] = [upper_char c]"
| "to_upper (c # d # s) =
     (if of_char c = (196::nat) \<and> of_char d = (177::nat) then CHR ''I'' # to_upper s
      else if of_char c = (197::nat) \<and> of_char d = (191::nat) then CHR ''S'' # to_upper s
      else upper_char c # to_upper (d # s))"

section \<open>Integers in a base\<close>

definition digit_char :: "nat \<Rightarrow> char" where
  "digit_char d = (if d < 10 then char_of (48 + d) else char_of (87 + d))"

definition digit_value :: "char \<Rightarrow> nat option" where
  "digit_value c =
     (let n = of_char c in
      if 48 \<le> n \<and> n \<le> 57 then Some (n - 48)
      else if 97 \<le> n \<and> n \<le> 122 then Some (n - 87)
      else if 65 \<le> n \<and> n \<le> 90 then Some (n - 55)
      else None)"

fun show_base :: "nat \<Rightarrow> nat \<Rightarrow> string" where
  "show_base b n =
     (if b < 2 \<or> n < b then [digit_char n]
      else show_base b (n div b) @ [digit_char (n mod b)])"

declare show_base.simps [simp del]

fun read_digits :: "nat \<Rightarrow> nat \<Rightarrow> string \<Rightarrow> nat option" where
  "read_digits b acc [] = Some acc"
| "read_digits b acc (c # s) =
     (case digit_value c of
        None \<Rightarrow> None
      | Some d \<Rightarrow> if d < b then read_digits b (acc * b + d) s else None)"

definition read_base :: "nat \<Rightarrow> string \<Rightarrow> nat option" where
  "read_base b s = (if s = [] then None else read_digits b 0 s)"

text \<open>\<open>strconv.FormatUint\<close>, \<open>strconv.FormatInt\<close> and \<open>(*big.Int).String\<close> in base ten.\<close>

definition show_nat :: "nat \<Rightarrow> string" where
  "show_nat n = show_base 10 n"

definition show_int :: "int \<Rightarrow> string" where
  "show_int i = (if i < 0 then CHR ''-'' # show_nat (nat (- i)) else show_nat (nat i))"

text \<open>\<open>(*big.Int).SetString(s, base)\<close> for an explicit base: an optional sign and then digits.\<close>

definition big_int_set_string :: "string \<Rightarrow> nat \<Rightarrow> int option" where
  "big_int_set_string s b =
     (case s of
        [] \<Rightarrow> None
      | c # t \<Rightarrow>
          (if c = CHR ''-'' then map_option (\<lambda>n. - int n) (read_base b t)
           else if c = CHR ''+'' then map_option int (read_base b t)
           else map_option int (read_base b s)))"

lemma of_char_char_of_small: "n < 256 \<Longrightarrow> of_char (char_of n) = (n::nat)"
  by (simp add: of_char_of)

lemma digit_value_digit_char [simp]: "d < 16 \<Longrightarrow> digit_value (digit_char d) = Some d"
  by (auto simp: digit_value_def digit_char_def Let_def of_char_char_of_small)

lemma digit_char_not_sign:
  "d < 16 \<Longrightarrow> digit_char d \<noteq> CHR ''-''" "d < 16 \<Longrightarrow> digit_char d \<noteq> CHR ''+''"
proof -
  have "digit_value (CHR ''-'') = None" "digit_value (CHR ''+'') = None"
    by (simp_all add: digit_value_def)
  then show "d < 16 \<Longrightarrow> digit_char d \<noteq> CHR ''-''" "d < 16 \<Longrightarrow> digit_char d \<noteq> CHR ''+''"
    by (metis digit_value_digit_char option.distinct(1))+
qed

lemma read_digits_append:
  "read_digits b acc (s @ t) = Option.bind (read_digits b acc s) (\<lambda>a. read_digits b a t)"
  by (induction s arbitrary: acc) (auto split: option.splits)

lemma read_digits_zeros: "0 < b \<Longrightarrow> read_digits b 0 (replicate k (CHR ''0'') @ s) = read_digits b 0 s"
  by (induction k) (simp_all add: digit_value_def)

lemma show_base_nonempty [simp]: "show_base b n \<noteq> []"
  by (subst show_base.simps) simp

lemma read_show_digits:
  "2 \<le> b \<Longrightarrow> b \<le> 16 \<Longrightarrow> read_digits b 0 (show_base b n) = Some n"
proof (induction b n rule: show_base.induct)
  case (1 b n)
  show ?case
  proof (cases "n < b")
    case True
    with 1 show ?thesis by (subst show_base.simps) simp
  next
    case False
    with 1 have IH: "read_digits b 0 (show_base b (n div b)) = Some (n div b)" by simp
    have "n mod b < b" "n mod b < 16" using 1 by (auto intro: less_le_trans [of _ b])
    then have "read_digits b (n div b) [digit_char (n mod b)] = Some n"
      by simp
    with False IH 1 show ?thesis
      by (subst show_base.simps) (simp add: read_digits_append)
  qed
qed

lemma read_show_base [simp]:
  "2 \<le> b \<Longrightarrow> b \<le> 16 \<Longrightarrow> read_base b (show_base b n) = Some n"
  by (simp add: read_base_def read_show_digits)

lemma hd_show_base: "2 \<le> b \<Longrightarrow> b \<le> 16 \<Longrightarrow> \<exists>d < 16. hd (show_base b n) = digit_char d"
proof (induction b n rule: show_base.induct)
  case (1 b n)
  show ?case
  proof (cases "n < b")
    case True
    then have "n < 16" using 1 by simp
    with True show ?thesis by (subst show_base.simps) auto
  next
    case False
    with 1 show ?thesis by (subst show_base.simps) (auto simp: hd_append)
  qed
qed

lemma show_base_length:
  "2 \<le> b \<Longrightarrow> n < b ^ Suc k \<Longrightarrow> length (show_base b n) \<le> Suc k"
proof (induction k arbitrary: n)
  case 0
  then show ?case by (subst show_base.simps) simp
next
  case (Suc k)
  show ?case
  proof (cases "n < b")
    case False
    have "n div b < b ^ Suc k" using Suc.prems by (simp add: div_less_iff_less_mult mult.commute)
    from Suc.IH [OF Suc.prems(1) this] False Suc.prems(1) show ?thesis by (subst show_base.simps) simp
  qed (use Suc.prems in \<open>subst show_base.simps, simp\<close>)
qed

lemma show_base_digits: "2 \<le> b \<Longrightarrow> set (show_base b n) \<subseteq> digit_char ` {..<b}"
proof (induction b n rule: show_base.induct)
  case (1 b n)
  show ?case
  proof (cases "n < b")
    case False
    have "n mod b < b" using 1 by simp
    then show ?thesis using 1 False by (subst show_base.simps) auto
  qed (use 1 in \<open>subst show_base.simps, auto\<close>)
qed

lemma show_nat_not_sign: "hd (show_nat n) \<noteq> CHR ''-''" "hd (show_nat n) \<noteq> CHR ''+''"
proof -
  have "\<exists>d < 16. hd (show_base 10 n) = digit_char d" by (rule hd_show_base) simp_all
  then show "hd (show_nat n) \<noteq> CHR ''-''" "hd (show_nat n) \<noteq> CHR ''+''"
    unfolding show_nat_def by (metis digit_char_not_sign)+
qed

lemma big_int_set_string_show_int [simp]:
  "big_int_set_string (show_int i) 10 = Some i"
proof (cases "i < 0")
  case True
  then show ?thesis by (simp add: big_int_set_string_def show_int_def show_nat_def)
next
  case False
  have "show_nat (nat i) = hd (show_nat (nat i)) # tl (show_nat (nat i))"
    by (simp add: show_nat_def)
  moreover have "read_base 10 (show_nat (nat i)) = Some (nat i)"
    by (simp add: show_nat_def)
  ultimately show ?thesis
    using False show_nat_not_sign [of "nat i"]
    by (auto simp: big_int_set_string_def show_int_def split: list.splits)
qed

lemma show_int_inj: "show_int i = show_int j \<longleftrightarrow> i = j"
  by (metis big_int_set_string_show_int option.inject)

section \<open>Rounding rationals to decimal places\<close>

text \<open>
  \<open>quantize rnd p x\<close> rounds the magnitude of \<open>x\<close> to a multiple of \<open>10^-p\<close> with \<open>rnd\<close> and keeps its sign.
\<close>

definition quantize :: "(rat \<Rightarrow> int) \<Rightarrow> nat \<Rightarrow> rat \<Rightarrow> rat" where
  "quantize rnd p x = sgn x * of_int (rnd (\<bar>x\<bar> * 10 ^ p)) / 10 ^ p"

definition trunc_to :: "nat \<Rightarrow> rat \<Rightarrow> rat" where
  "trunc_to = quantize floor"

definition away_to :: "nat \<Rightarrow> rat \<Rightarrow> rat" where
  "away_to = quantize ceiling"

definition haz_to :: "nat \<Rightarrow> rat \<Rightarrow> rat" where
  "haz_to = quantize (\<lambda>y. \<lfloor>y + 1 / 2\<rfloor>)"

text \<open>\<open>on_grid p x\<close>: \<open>x\<close> has at most \<open>p\<close> decimal places.\<close>

definition on_grid :: "nat \<Rightarrow> rat \<Rightarrow> bool" where
  "on_grid p x \<longleftrightarrow> x * 10 ^ p \<in> \<int>"

lemma on_grid_mono: "on_grid p x \<Longrightarrow> p \<le> q \<Longrightarrow> on_grid q x"
proof -
  assume "on_grid p x" "p \<le> q"
  then obtain k where "q = p + k" by (auto simp: le_iff_add)
  moreover have "x * 10 ^ p * 10 ^ k \<in> \<int>"
    using \<open>on_grid p x\<close> unfolding on_grid_def by (rule Ints_mult) simp
  ultimately show ?thesis by (simp add: on_grid_def power_add mult.assoc)
qed

lemma on_grid_mult: "on_grid p x \<Longrightarrow> on_grid q y \<Longrightarrow> on_grid (p + q) (x * y)"
proof -
  assume "on_grid p x" "on_grid q y"
  then have "(x * 10 ^ p) * (y * 10 ^ q) \<in> \<int>" unfolding on_grid_def by (rule Ints_mult)
  then show ?thesis by (simp add: on_grid_def power_add mult_ac)
qed

lemma on_grid_0_iff: "on_grid 0 x \<longleftrightarrow> x \<in> \<int>"
  by (simp add: on_grid_def)

lemma abs_on_grid: "on_grid p x \<Longrightarrow> \<exists>k. \<bar>x\<bar> * 10 ^ p = of_int k"
proof -
  assume "on_grid p x"
  then obtain k :: int where "x * 10 ^ p = of_int k" by (auto simp: on_grid_def Ints_def)
  then have "\<bar>x\<bar> * 10 ^ p = of_int \<bar>k\<bar>"
    by (metis abs_mult abs_of_nonneg of_int_abs zero_le_numeral zero_le_power)
  then show ?thesis by blast
qed

lemma quantize_on_grid:
  assumes "on_grid p x" and "\<And>k. rnd (of_int k) = k"
  shows "quantize rnd p x = x"
proof -
  obtain k where k: "\<bar>x\<bar> * 10 ^ p = of_int k" using abs_on_grid [OF assms(1)] by blast
  then have "quantize rnd p x = sgn x * (\<bar>x\<bar> * 10 ^ p) / 10 ^ p"
    by (simp add: quantize_def assms(2))
  then show ?thesis by (simp add: sgn_mult_abs mult.assoc [symmetric])
qed

lemma on_grid_quantize: "on_grid p (quantize rnd p x)"
proof -
  have "sgn x \<in> \<int>" by (auto simp: sgn_if)
  then show ?thesis by (simp add: on_grid_def quantize_def)
qed

lemma trunc_to_on_grid [simp]: "on_grid p x \<Longrightarrow> trunc_to p x = x"
  and away_to_on_grid [simp]: "on_grid p x \<Longrightarrow> away_to p x = x"
  and haz_to_on_grid [simp]: "on_grid p x \<Longrightarrow> haz_to p x = x"
proof -
  have half: "\<lfloor>of_int k + 1 / 2 :: rat\<rfloor> = k" for k
    by (metis add.commute add.right_neutral floor_add_int floor_divide_of_int_eq
        floor_of_int div_pos_pos_trivial less_numeral_extra(1) of_int_1 of_int_numeral
        one_less_numeral_iff semiring_norm(76) zero_le_one)
  show "on_grid p x \<Longrightarrow> trunc_to p x = x" "on_grid p x \<Longrightarrow> away_to p x = x"
    "on_grid p x \<Longrightarrow> haz_to p x = x"
    by (simp_all add: trunc_to_def away_to_def haz_to_def quantize_on_grid half)
qed

lemma on_grid_trunc_to [simp]: "on_grid p (trunc_to p x)"
  and on_grid_away_to [simp]: "on_grid p (away_to p x)"
  and on_grid_haz_to [simp]: "on_grid p (haz_to p x)"
  by (simp_all add: trunc_to_def away_to_def haz_to_def on_grid_quantize)

lemma trunc_to_bounds:
  assumes "0 \<le> x"
  shows "0 \<le> trunc_to p x" "trunc_to p x \<le> x" "x < trunc_to p x + 1 / 10 ^ p"
proof -
  have t: "trunc_to p x = of_int \<lfloor>x * 10 ^ p\<rfloor> / 10 ^ p"
    using assms by (cases "x = 0") (auto simp: trunc_to_def quantize_def sgn_if)
  show "0 \<le> trunc_to p x" using assms by (simp add: t)
  have "of_int \<lfloor>x * 10 ^ p\<rfloor> \<le> x * 10 ^ p" by (rule of_int_floor_le)
  then show "trunc_to p x \<le> x" by (simp add: t pos_divide_le_eq)
  have "x * 10 ^ p < of_int \<lfloor>x * 10 ^ p\<rfloor> + 1" by linarith
  then have "x * 10 ^ p / 10 ^ p < (of_int \<lfloor>x * 10 ^ p\<rfloor> + 1) / 10 ^ p"
    by (rule divide_strict_right_mono) simp
  then show "x < trunc_to p x + 1 / 10 ^ p" by (simp add: t add_divide_distrib)
qed

lemma trunc_to_nonneg [simp]: "0 \<le> x \<Longrightarrow> 0 \<le> trunc_to p x"
  by (rule trunc_to_bounds)

lemma away_to_bounds:
  assumes "0 \<le> x"
  shows "x \<le> away_to p x" "away_to p x < x + 1 / 10 ^ p"
proof -
  have t: "away_to p x = of_int \<lceil>x * 10 ^ p\<rceil> / 10 ^ p"
    using assms by (cases "x = 0") (auto simp: away_to_def quantize_def sgn_if)
  have "x * 10 ^ p \<le> of_int \<lceil>x * 10 ^ p\<rceil>" by (rule le_of_int_ceiling)
  then show "x \<le> away_to p x" by (simp add: t pos_le_divide_eq)
  have "of_int \<lceil>x * 10 ^ p\<rceil> < x * 10 ^ p + 1" by linarith
  then have "of_int \<lceil>x * 10 ^ p\<rceil> / 10 ^ p < (x * 10 ^ p + 1) / 10 ^ p"
    by (rule divide_strict_right_mono) simp
  then show "away_to p x < x + 1 / 10 ^ p" by (simp add: t add_divide_distrib)
qed

lemma trunc_to_0_floor: "0 \<le> x \<Longrightarrow> trunc_to 0 x = of_int \<lfloor>x\<rfloor>"
  by (cases "x = 0") (auto simp: trunc_to_def quantize_def sgn_if)

lemma on_grid_mult_int: "on_grid p x \<Longrightarrow> on_grid p (x * of_int k)"
  using on_grid_mult [of p x 0 "of_int k"] by (simp add: on_grid_0_iff)

end
