(* ===== verification/Decimals.thy ===== *)
theory Decimals
  imports Prelude
begin

text \<open>
  The order code computes with \<open>udecimal.Decimal\<close>, a third-party fixed-point decimal.  Its operations are
  a parameter of the model: the record \<open>udecimal_ops\<close>, an argument of every definition that calls
  them.  The locale \<open>udecimal\<close> states the documented behaviour the SDK relies on over the rational value
  of a decimal: at most 19 decimal places, exact addition and subtraction, products and quotients cut off after
  19 places, the three rounding modes, comparison, parsing and printing.  The theory \<open>Dec19\<close>
  shows that these laws have a model, on which witnesses are evaluated.
\<close>

section \<open>Decimal numerals\<close>

text \<open>
  An optional minus sign, digits, and an optional fraction: the value and the number of fraction digits.
\<close>

definition unsigned_numeral :: "string \<Rightarrow> (nat \<times> nat) option" where
  "unsigned_numeral s =
     (let ip = takeWhile (\<lambda>c. c \<noteq> CHR ''.'') s; rest = dropWhile (\<lambda>c. c \<noteq> CHR ''.'') s
      in case rest of
           [] \<Rightarrow> map_option (\<lambda>n. (n, 0)) (read_base 10 ip)
         | _ # fp \<Rightarrow>
             (if ip = [] \<or> fp = [] then None
              else map_option (\<lambda>n. (n, length fp)) (read_base 10 (ip @ fp))))"

definition decimal_numeral :: "string \<Rightarrow> (rat \<times> nat) option" where
  "decimal_numeral s =
     (case s of
        [] \<Rightarrow> None
      | c # t \<Rightarrow>
          if c = CHR ''-''
          then map_option (\<lambda>(n, k). (- (of_nat n / 10 ^ k), k)) (unsigned_numeral t)
          else map_option (\<lambda>(n, k). (of_nat n / 10 ^ k, k)) (unsigned_numeral s))"

text \<open>
  \<open>(*big.Rat).SetString\<close> on decimal numerals, the only strings \<open>Decimal.String\<close> produces; on other
  strings (fractions, exponents) the model is undefined.
\<close>

definition big_rat_set_string :: "string \<Rightarrow> rat option" where
  "big_rat_set_string s = map_option fst (decimal_numeral s)"

text \<open>One unit in the last of the 19 decimal places.\<close>

definition ulp :: rat where
  "ulp = 1 / 10 ^ 19"

lemma ulp_pos [simp]: "0 < ulp" "0 \<le> ulp"
  by (simp_all add: ulp_def)

lemma trunc_to_19_bounds:
  assumes "0 \<le> x"
  shows "0 \<le> trunc_to 19 x" "trunc_to 19 x \<le> x" "x < trunc_to 19 x + ulp"
  using trunc_to_bounds [OF assms, of 19] by (simp_all add: ulp_def)

section \<open>The parameter and its laws\<close>

record 'd udecimal_ops =
  u_zero :: 'd
  u_from_int64 :: "int \<Rightarrow> nat \<Rightarrow> 'd"
  u_parse :: "string \<Rightarrow> 'd result"
  u_add :: "'d \<Rightarrow> 'd \<Rightarrow> 'd"
  u_sub :: "'d \<Rightarrow> 'd \<Rightarrow> 'd"
  u_mul :: "'d \<Rightarrow> 'd \<Rightarrow> 'd"
  u_div :: "'d \<Rightarrow> 'd \<Rightarrow> 'd result"
  u_mod :: "'d \<Rightarrow> 'd \<Rightarrow> 'd result"
  u_pow_int :: "'d \<Rightarrow> int \<Rightarrow> 'd"
  u_trunc :: "'d \<Rightarrow> nat \<Rightarrow> 'd"
  u_round_haz :: "'d \<Rightarrow> nat \<Rightarrow> 'd"
  u_round_away :: "'d \<Rightarrow> nat \<Rightarrow> 'd"
  u_cmp :: "'d \<Rightarrow> 'd \<Rightarrow> int"
  u_is_zero :: "'d \<Rightarrow> bool"
  u_prec :: "'d \<Rightarrow> nat"
  u_string :: "'d \<Rightarrow> string"
  u_string_fixed :: "'d \<Rightarrow> nat \<Rightarrow> string"

locale udecimal =
  fixes U :: "'d udecimal_ops" and val :: "'d \<Rightarrow> rat"
  assumes val_zero [simp]: "val (u_zero U) = 0"
    and val_from_int64: "p \<le> 19 \<Longrightarrow> val (u_from_int64 U v p) = of_int v / 10 ^ p"
    and val_add [simp]: "val (u_add U a b) = val a + val b"
    and val_sub [simp]: "val (u_sub U a b) = val a - val b"
    and val_mul: "val (u_mul U a b) = trunc_to 19 (val a * val b)"
    and div_zero: "val b = 0 \<Longrightarrow> \<exists>e. u_div U a b = Inl e"
    and div_ok: "val b \<noteq> 0 \<Longrightarrow> \<exists>q. u_div U a b = Inr q \<and> val q = trunc_to 19 (val a / val b)"
    and mod_zero: "val b = 0 \<Longrightarrow> \<exists>e. u_mod U a b = Inl e"
    and mod_ok: "val b \<noteq> 0 \<Longrightarrow>
      \<exists>r. u_mod U a b = Inr r \<and> val r = val a - val b * trunc_to 0 (val a / val b)"
    and pow_nonneg: "0 \<le> val a \<Longrightarrow> 0 \<le> n \<Longrightarrow> 0 \<le> val (u_pow_int U a n)"
    and val_trunc [simp]: "val (u_trunc U a p) = trunc_to p (val a)"
    and val_round_haz [simp]: "val (u_round_haz U a p) = haz_to p (val a)"
    and val_round_away [simp]: "val (u_round_away U a p) = away_to p (val a)"
    and cmp_eq: "u_cmp U a b = (if val a < val b then -1 else if val a = val b then 0 else 1)"
    and is_zero_iff [simp]: "u_is_zero U a \<longleftrightarrow> val a = 0"
    and prec_le: "u_prec U a \<le> 19"
    and prec_grid: "on_grid (u_prec U a) (val a)"
    and prec_from_int64: "p \<le> 19 \<Longrightarrow> u_prec U (u_from_int64 U v p) \<le> p"
    and prec_mul: "u_prec U (u_mul U a b) \<le> u_prec U a + u_prec U b"
    and prec_trunc: "u_prec U (u_trunc U a p) \<le> p"
    and prec_round_haz: "u_prec U (u_round_haz U a p) \<le> p"
    and prec_round_away: "u_prec U (u_round_away U a p) \<le> p"
    and parse_numeral: "decimal_numeral s = Some (x, k) \<Longrightarrow> k \<le> 19 \<Longrightarrow> length s \<le> 200 \<Longrightarrow>
      \<exists>d. u_parse U s = Inr d \<and> val d = x \<and> u_prec U d \<le> k"
    and string_numeral: "\<exists>k. decimal_numeral (u_string U a) = Some (val a, k)"
    and string_fixed_0: "val a = of_int n \<Longrightarrow> u_string_fixed U a 0 = show_int n"
begin

lemma cmp_simps [simp]:
  "u_cmp U a b \<le> 0 \<longleftrightarrow> val a \<le> val b"
  "u_cmp U a b < 0 \<longleftrightarrow> val a < val b"
  "0 < u_cmp U a b \<longleftrightarrow> val b < val a"
  "0 \<le> u_cmp U a b \<longleftrightarrow> val b \<le> val a"
  by (auto simp: cmp_eq)

lemma grid19: "on_grid 19 (val a)"
  using prec_grid prec_le by (rule on_grid_mono)

lemma mul_exact:
  assumes "on_grid p (val a)" "on_grid q (val b)" "p + q \<le> 19"
  shows "val (u_mul U a b) = val a * val b"
  using on_grid_mono [OF on_grid_mult [OF assms(1,2)] assms(3)] by (simp add: val_mul)

lemma div_Inr:
  assumes "u_div U a b = Inr q"
  shows "val b \<noteq> 0" "val q = trunc_to 19 (val a / val b)"
  using assms div_zero [of b a] div_ok [of b a] by (cases "val b = 0"; auto)+

lemma mod_Inr:
  assumes "u_mod U a b = Inr r"
  shows "val b \<noteq> 0" "val r = val a - val b * trunc_to 0 (val a / val b)"
  using assms mod_zero [of b a] mod_ok [of b a] by (cases "val b = 0"; auto)+

lemma rat_of_string [simp]: "big_rat_set_string (u_string U a) = Some (val a)"
  using string_numeral [of a] by (auto simp: big_rat_set_string_def)

lemma mul_nonneg: "0 \<le> val a \<Longrightarrow> 0 \<le> val b \<Longrightarrow> 0 \<le> val (u_mul U a b)"
  by (simp add: val_mul)

text \<open>A remainder of zero means that the dividend is an integer multiple of the divisor.\<close>

lemma mod_zero_multiple:
  assumes "u_mod U a b = Inr r" "val r = 0"
  shows "\<exists>k::int. val a = of_int k * val b"
proof -
  have "val a = val b * trunc_to 0 (val a / val b)" using mod_Inr(2) [OF assms(1)] assms(2) by simp
  moreover have "trunc_to 0 (val a / val b) \<in> \<int>"
    using on_grid_trunc_to [of 0 "val a / val b"] unfolding on_grid_0_iff .
  then obtain k :: int where "trunc_to 0 (val a / val b) = of_int k" by (auto elim: Ints_cases)
  ultimately show ?thesis by (auto simp: mult.commute)
qed

end

end
