(* ===== verification/OrderTypes.thy ===== *)
theory OrderTypes
  imports Decimals
begin

text \<open>
  The data of the order pipeline (\<open>clob/order_types.go\<close>, \<open>clob/market_types.go\<close>, \<open>clob/config.go\<close>,
  \<open>clob/contracts.go\<close>): Go structs as records, string-typed enums as strings with the named constants, pointers as
  \<open>option\<close>.  JSON decoding of the responses is not modelled here: a response is the decoded value.
\<close>

section \<open>Enumerations kept as strings\<close>

type_synonym Side = string

definition SideBuy :: Side where "SideBuy = ''BUY''"
definition SideSell :: Side where "SideSell = ''SELL''"

type_synonym OrderType = string

definition OrderTypeGTC :: OrderType where "OrderTypeGTC = ''GTC''"
definition OrderTypeFOK :: OrderType where "OrderTypeFOK = ''FOK''"
definition OrderTypeGTD :: OrderType where "OrderTypeGTD = ''GTD''"
definition OrderTypeFAK :: OrderType where "OrderTypeFAK = ''FAK''"

lemmas order_enum_defs = SideBuy_def SideSell_def OrderTypeGTC_def OrderTypeFOK_def OrderTypeGTD_def
  OrderTypeFAK_def

lemma side_distinct [simp]: "SideBuy \<noteq> SideSell" "SideSell \<noteq> SideBuy"
  by (simp_all add: order_enum_defs)

lemma order_type_distinct [simp]: "OrderTypeFOK \<noteq> OrderTypeFAK" "OrderTypeFOK \<noteq> []" "OrderTypeFAK \<noteq> []"
  by (simp_all add: order_enum_defs)

type_synonym TickSize = string

definition TickSizeTenth :: TickSize where "TickSizeTenth = ''0.1''"
definition TickSizeHundredth :: TickSize where "TickSizeHundredth = ''0.01''"
definition TickSizeHalfCent :: TickSize where "TickSizeHalfCent = ''0.005''"
definition TickSizeQuarterCent :: TickSize where "TickSizeQuarterCent = ''0.0025''"
definition TickSizeThousandth :: TickSize where "TickSizeThousandth = ''0.001''"
definition TickSizeTenThousand :: TickSize where "TickSizeTenThousand = ''0.0001''"

lemmas tick_size_defs = TickSizeTenth_def TickSizeHundredth_def TickSizeHalfCent_def
  TickSizeQuarterCent_def TickSizeThousandth_def TickSizeTenThousand_def

text \<open>\<open>type SignatureType int\<close> with its \<open>iota\<close> constants.\<close>

type_synonym SignatureType = int

definition SignatureTypeEOA :: SignatureType where "SignatureTypeEOA = 0"
definition SignatureTypePolyProxy :: SignatureType where "SignatureTypePolyProxy = 1"
definition SignatureTypePolyGnosisSafe :: SignatureType where "SignatureTypePolyGnosisSafe = 2"
definition SignatureTypePoly1271 :: SignatureType where "SignatureTypePoly1271 = 3"

section \<open>Requests\<close>

record roundConfig =
  rc_Price :: nat
  rc_Size :: nat
  rc_Amount :: nat

record CreateOrderOptions =
  opt_TickSize :: TickSize
  opt_NegRisk :: "bool option"

record 'd OrderArgs =
  oa_TokenID :: string
  oa_PositionID :: string
  oa_Price :: 'd
  oa_Size :: 'd
  oa_Side :: Side
  oa_Expiration :: "64 word"
  oa_MaxSpend :: "'d option"
  oa_Taker :: string
  oa_Nonce :: "64 word"
  oa_FeeRateBps :: "32 word option"
  oa_Metadata :: string
  oa_BuilderCode :: string
  oa_DeferExec :: bool

record 'd MarketOrderArgs =
  mo_TokenID :: string
  mo_PositionID :: string
  mo_Amount :: 'd
  mo_Side :: Side
  mo_Price :: 'd
  mo_MaxSpend :: "'d option"
  mo_MaxPrice :: "'d option"
  mo_MinPrice :: "'d option"
  mo_Taker :: string
  mo_Nonce :: "64 word"
  mo_FeeRateBps :: "32 word option"
  mo_OrderType :: OrderType
  mo_Metadata :: string
  mo_BuilderCode :: string
  mo_DeferExec :: bool

text \<open>\<open>*big.Int\<close> fields are \<open>int option\<close>: \<open>None\<close> is the nil pointer.\<close>

record OrderAmountsArgs =
  am_TokenID :: string
  am_PositionID :: string
  am_MakerAmount :: "int option"
  am_TakerAmount :: "int option"
  am_Side :: Side
  am_Expiration :: "64 word"
  am_Metadata :: string
  am_BuilderCode :: string

record orderBuildInput =
  in_TokenID :: string
  in_PositionID :: string
  in_MakerAmount :: "int option"
  in_TakerAmount :: "int option"
  in_Side :: Side
  in_Expiration :: "64 word"
  in_NegRisk :: bool
  in_SignatureType :: SignatureType
  in_Metadata :: string
  in_BuilderCode :: string
  in_Taker :: string
  in_Nonce :: "64 word"
  in_FeeRateBps :: "32 word option"

section \<open>Signed orders\<close>

record Order =
  o_Salt :: string
  o_Maker :: string
  o_Signer :: string
  o_TokenID :: string
  o_MakerAmount :: string
  o_TakerAmount :: string
  o_Side :: Side
  o_SignatureType :: SignatureType
  o_Timestamp :: string
  o_Metadata :: string
  o_Builder :: string

record LegacyOrderFields =
  lg_Taker :: string
  lg_Nonce :: string
  lg_FeeRateBps :: string

record SignedOrder =
  so_Order :: Order
  so_Expiration :: string
  so_Signature :: string
  so_Legacy :: "LegacyOrderFields option"

record PostOrderRequest =
  pr_Order :: SignedOrder
  pr_Owner :: string
  pr_OrderType :: OrderType
  pr_PostOnly :: bool
  pr_DeferExec :: bool

record PostOrderResponse =
  ps_Success :: bool
  ps_ErrorMsg :: string
  ps_OrderID :: string
  ps_TransactionsHashes :: "string list"
  ps_Status :: string
  ps_TakingAmount :: string
  ps_MakingAmount :: string
  ps_TradeIDs :: "string list"
  ps_RebateEstimated :: string

section \<open>Typed data\<close>

text \<open>
  The EIP-712 structure handed to a wallet (\<open>apitypes.TypedData\<close>).  A message maps field names to values; a
  value is text or, in a nested structure, a message.  Types and messages are Go maps and are kept as association lists.
\<close>

type_synonym byte = "8 word"

datatype message_value = Text string | Nested "(string \<times> string) list"

record TypedDataDomain =
  dm_Name :: string
  dm_Version :: string
  dm_ChainId :: int
  dm_VerifyingContract :: string

record TypedData =
  td_Types :: "(string \<times> (string \<times> string) list) list"
  td_PrimaryType :: string
  td_Domain :: TypedDataDomain
  td_Message :: "(string \<times> message_value) list"

section \<open>Market data\<close>

record OrderSummary =
  lv_Price :: string
  lv_Size :: string

record OrderBookSummary =
  ob_Market :: string
  ob_AssetID :: string
  ob_Timestamp :: string
  ob_Bids :: "OrderSummary list"
  ob_Asks :: "OrderSummary list"
  ob_MinOrderSize :: string
  ob_TickSize :: string
  ob_NegRisk :: bool
  ob_LastTradePrice :: string
  ob_Hash :: string

record 'd FeeInfo =
  fi_Rate :: 'd
  fi_Exponent :: "32 word"

record FeeDetails =
  fd_Rate :: string
  fd_Exponent :: "32 word"
  fd_TakerOnly :: bool

record ClobMarketRewards =
  cr_MinSize :: "string option"
  cr_MaxSpread :: "string option"
  cr_Enabled :: "bool option"
  cr_SkipMinOrderAge :: "bool option"
  cr_MinOrderAgeSeconds :: "int option"

record ClobMarketToken =
  ct_TokenID :: string
  ct_Outcome :: string

record ClobMarketInfoResponse =
  cm_ConditionID :: string
  cm_MinTickSize :: string
  cm_MinOrderSize :: string
  cm_NegRisk :: bool
  cm_FeeDetails :: "FeeDetails option"
  cm_Tokens :: "ClobMarketToken option list"
  cm_MakerBaseFee :: "string option"
  cm_TakerBaseFee :: "string option"
  cm_RFQEnabled :: bool
  cm_Rewards :: "ClobMarketRewards option"
  cm_AcceptingOrders :: "bool option"
  cm_SecondsDelay :: "int option"
  cm_GameStartTime :: "string option"
  cm_ClearBookOnStart :: "bool option"
  cm_AcceptingOrderTime :: "string option"
  cm_TakerOrderDelayEnabled :: "bool option"
  cm_BlockaidCheckEnabled :: "bool option"

record MarketByTokenResponse =
  mt_ConditionID :: string
  mt_PrimaryTokenID :: string
  mt_SecondaryTokenID :: string

record BuilderFeeRateResponse =
  bf_BuilderMakerFeeRateBps :: "32 word"
  bf_BuilderTakerFeeRateBps :: "32 word"

record MakerOrder =
  mk_OrderID :: string
  mk_Owner :: string
  mk_MakerAddress :: string
  mk_MatchedAmount :: string
  mk_Price :: string
  mk_FeeRateBps :: string
  mk_AssetID :: string
  mk_Outcome :: string
  mk_Side :: Side
  mk_BuilderFee :: "string option"
  mk_BuilderCode :: "string option"

record Trade =
  tr_ID :: string
  tr_TakerOrderID :: string
  tr_Market :: string
  tr_AssetID :: string
  tr_Side :: Side
  tr_Size :: string
  tr_FeeRateBps :: string
  tr_Price :: string
  tr_Status :: string
  tr_MatchTime :: string
  tr_MatchTimeNano :: string
  tr_LastUpdate :: string
  tr_Outcome :: string
  tr_BucketIndex :: int
  tr_Owner :: string
  tr_MakerAddress :: string
  tr_MakerOrders :: "MakerOrder list"
  tr_TransactionHash :: string
  tr_TraderSide :: string
  tr_ErrorMsg :: string
  tr_RebateEstimated :: string

section \<open>Contracts\<close>

text \<open>An address the chain does not have is the empty string.\<close>

record contractConfig =
  cc_Exchange :: string
  cc_NegRiskExchange :: string
  cc_NegRiskAdapter :: string
  cc_Collateral :: string
  cc_Conditional :: string
  cc_CollateralAdapter :: string
  cc_NegRiskCollateralAdapter :: string
  cc_ExchangeV3 :: string
  cc_ProtocolV2Router :: string
  cc_CombinatorialModule :: string
  cc_PositionManager :: string
  cc_AutoRedeemOperator :: string
  cc_PerpsDepositContract :: string

definition zeroAddress :: string where
  "zeroAddress = ''0x0000000000000000000000000000000000000000''"

definition contractConfigs :: "int \<Rightarrow> contractConfig option" where
  "contractConfigs chain =
     (if chain = 137 then
        Some \<lparr>cc_Exchange = ''0xE111180000d2663C0091e4f400237545B87B996B'',
              cc_NegRiskExchange = ''0xe2222d279d744050d28e00520010520000310F59'',
              cc_NegRiskAdapter = ''0xd91E80cF2E7be2e162c6513ceD06f1dD0dA35296'',
              cc_Collateral = ''0xC011a7E12a19f7B1f670d46F03B03f3342E82DFB'',
              cc_Conditional = ''0x4D97DCd97eC945f40cF65F87097ACe5EA0476045'',
              cc_CollateralAdapter = ''0xAdA100Db00Ca00073811820692005400218FcE1f'',
              cc_NegRiskCollateralAdapter = ''0xadA2005600Dec949baf300f4C6120000bDB6eAab'',
              cc_ExchangeV3 = ''0xe3333700cA9d93003F00f0F71f8515005F6c00Aa'',
              cc_ProtocolV2Router = ''0x12121212006e4CD160D18e3f00711DA5c3372600'',
              cc_CombinatorialModule = ''0x30000034706c7d8e12009dab006be20000c031a8'',
              cc_PositionManager = ''0x006F54F7f9A22e0000CC2AB60031000000ae9fEF'',
              cc_AutoRedeemOperator = ''0xa1200000d0002264C9a1698e001292D00E1b00af'',
              cc_PerpsDepositContract = ''0xDCa4af75705dbB50f62437045afF9921947917d2''\<rparr>
      else if chain = 80002 then
        Some \<lparr>cc_Exchange = ''0xE111180000d2663C0091e4f400237545B87B996B'',
              cc_NegRiskExchange = ''0xe2222d279d744050d28e00520010520000310F59'',
              cc_NegRiskAdapter = ''0xd91E80cF2E7be2e162c6513ceD06f1dD0dA35296'',
              cc_Collateral = ''0xC011a7E12a19f7B1f670d46F03B03f3342E82DFB'',
              cc_Conditional = ''0x69308FB512518e39F9b16112fA8d994F4e2Bf8bB'',
              cc_CollateralAdapter = [], cc_NegRiskCollateralAdapter = [],
              cc_ExchangeV3 = ''0x9fE6e61422AdB6F610d8597F9684b16912D50C3D'',
              cc_ProtocolV2Router = [], cc_CombinatorialModule = [], cc_PositionManager = [],
              cc_AutoRedeemOperator = [], cc_PerpsDepositContract = []\<rparr>
      else None)"

definition getContractConfig :: "int \<Rightarrow> contractConfig result" where
  "getContractConfig chain =
     (case contractConfigs chain of None \<Rightarrow> Inl (Msg ''unsupported chain id'') | Some c \<Rightarrow> Inr c)"

end
