(* ===== verification/OrderMath.thy ===== *)
theory OrderMath
  imports OrderTypes
begin

text \<open>
  \<open>clob/order_math.go\<close>, \<open>clob/order_amounts.go\<close> and \<open>clob/order_validation.go\<close>: rounding to the
  precision of a tick size, conversion to base units, the fee-aware shrinking of a buy amount, and the validation of
  order arguments and prices.  Every definition takes the decimal operations \<open>U\<close>.  The locale context proves
  what these functions do to the rational values.
\<close>

section \<open>Rounding\<close>

definition roundingConfig :: "TickSize \<Rightarrow> roundConfig option" where
  "roundingConfig =
     [TickSizeTenth \<mapsto> \<lparr>rc_Price = 1, rc_Size = 2, rc_Amount = 3\<rparr>,
      TickSizeHundredth \<mapsto> \<lparr>rc_Price = 2, rc_Size = 2, rc_Amount = 4\<rparr>,
      TickSizeHalfCent \<mapsto> \<lparr>rc_Price = 3, rc_Size = 2, rc_Amount = 5\<rparr>,
      TickSizeQuarterCent \<mapsto> \<lparr>rc_Price = 4, rc_Size = 2, rc_Amount = 6\<rparr>,
      TickSizeThousandth \<mapsto> \<lparr>rc_Price = 3, rc_Size = 2, rc_Amount = 5\<rparr>,
      TickSizeTenThousand \<mapsto> \<lparr>rc_Price = 4, rc_Size = 2, rc_Amount = 6\<rparr>]"

definition tokenScaleFactor :: "'d udecimal_ops \<Rightarrow> 'd" where
  "tokenScaleFactor U = u_from_int64 U 1000000 0"

definition roundDown :: "'d udecimal_ops \<Rightarrow> 'd \<Rightarrow> nat \<Rightarrow> 'd" where
  "roundDown U v places = u_trunc U v places"

definition roundNormal :: "'d udecimal_ops \<Rightarrow> 'd \<Rightarrow> nat \<Rightarrow> 'd" where
  "roundNormal U v places = u_round_haz U v places"

definition roundUp :: "'d udecimal_ops \<Rightarrow> 'd \<Rightarrow> nat \<Rightarrow> 'd" where
  "roundUp U v places = u_round_away U v places"

definition decimalPlaces :: "'d udecimal_ops \<Rightarrow> 'd \<Rightarrow> nat" where
  "decimalPlaces U v = u_prec U v"

definition roundToAmount :: "'d udecimal_ops \<Rightarrow> 'd \<Rightarrow> roundConfig \<Rightarrow> 'd" where
  "roundToAmount U value cfg =
     (if decimalPlaces U value \<le> rc_Amount cfg then value
      else let v = roundUp U value (rc_Amount cfg + 4)
           in if decimalPlaces U v > rc_Amount cfg then roundDown U v (rc_Amount cfg) else v)"

definition toTokenDecimals :: "'d udecimal_ops \<Rightarrow> 'd \<Rightarrow> 'd" where
  "toTokenDecimals U v = u_trunc U (u_mul U v (tokenScaleFactor U)) 0"

definition decimalInteger :: "'d udecimal_ops \<Rightarrow> 'd \<Rightarrow> int option" where
  "decimalInteger U v = big_int_set_string (u_string_fixed U v 0) 10"

definition decimalBaseUnits :: "'d udecimal_ops \<Rightarrow> 'd \<Rightarrow> int option" where
  "decimalBaseUnits U v = decimalInteger U (toTokenDecimals U v)"

definition orderAssetID :: "string \<Rightarrow> string \<Rightarrow> string" where
  "orderAssetID tokenID positionID = (if positionID \<noteq> [] then positionID else tokenID)"

text \<open>\<open>amount == nil || amount.Sign() <= 0 || amount.BitLen() > 256\<close>, for each amount in turn.\<close>

definition validateOrderAmounts :: "int option \<Rightarrow> int option \<Rightarrow> unit result" where
  "validateOrderAmounts maker taker =
     (let ok = (\<lambda>a. case a of None \<Rightarrow> False | Some n \<Rightarrow> 0 < n \<and> n < 2 ^ 256)
      in guardE (ok maker \<and> ok taker) (Msg ''order amounts must be positive uint256 values''))"

definition adjustMarketBuyAmount ::
  "'d udecimal_ops \<Rightarrow> 'd \<Rightarrow> 'd \<Rightarrow> 'd \<Rightarrow> 'd \<Rightarrow> 32 word \<Rightarrow> 'd \<Rightarrow> 'd result" where
  "adjustMarketBuyAmount U amount userBalance price feeRate feeExponent builderTakerFeeRate =
     (let one = u_from_int64 U 1 0;
          base = u_mul U price (u_sub U one price);
          platformFeeRate = u_mul U feeRate (u_pow_int U base (uint feeExponent))
      in rbind (u_div U amount price) (\<lambda>amountDivPrice.
         let platformFee = u_mul U amountDivPrice platformFeeRate;
             builderFee = u_mul U amount builderTakerFeeRate;
             totalCost = u_add U (u_add U amount platformFee) builderFee
         in rbind
              (if u_cmp U userBalance totalCost \<le> 0
               then rbind (u_div U platformFeeRate price) (\<lambda>feeRateDivPrice.
                    let divisor = u_add U (u_add U one feeRateDivPrice) builderTakerFeeRate
                    in u_div U userBalance divisor)
               else Inr amount)
            (\<lambda>raw.
              let adjusted = u_trunc U raw 6
              in if u_is_zero U adjusted
                 then Inl (Msg ''user balance too small to cover fees'')
                 else Inr adjusted)))"

section \<open>Validation\<close>

definition parseTickSize :: "'d udecimal_ops \<Rightarrow> TickSize \<Rightarrow> 'd result" where
  "parseTickSize U v = wrap_err ''parse tick size'' (u_parse U v)"

definition minGTDExpirationSeconds :: "64 word" where
  "minGTDExpirationSeconds = 180"

text \<open>\<open>now\<close> is the Unix time in seconds; \<open>uint64(now) + 180\<close> is computed modulo \<open>2^64\<close>.\<close>

definition validateGTDExpiration :: "64 word \<Rightarrow> int \<Rightarrow> unit result" where
  "validateGTDExpiration expiration now =
     (if expiration = 0 then Inr ()
      else let minimum = word_of_int now + minGTDExpirationSeconds
           in if expiration < minimum then Inl (Msg ''GTD expiration must be in the future'') else Inr ())"

definition validateLimitOrderArgs :: "'d udecimal_ops \<Rightarrow> 'd OrderArgs \<Rightarrow> int \<Rightarrow> unit result" where
  "validateLimitOrderArgs U ord now =
     (if oa_TokenID ord = [] \<and> oa_PositionID ord = []
        then Inl (Msg ''order requires exactly one of TokenID or PositionID'')
      else if oa_TokenID ord \<noteq> [] \<and> oa_PositionID ord \<noteq> []
        then Inl (Msg ''order must not set both TokenID and PositionID'')
      else if u_cmp U (oa_Size ord) (u_zero U) \<le> 0 then Inl (Msg ''size must be positive'')
      else if u_cmp U (oa_Price ord) (u_zero U) \<le> 0 then Inl (Msg ''price must be positive'')
      else if oa_Side ord \<noteq> SideBuy \<and> oa_Side ord \<noteq> SideSell then Inl (Msg ''invalid side'')
      else if (case oa_MaxSpend ord of None \<Rightarrow> False
               | Some m \<Rightarrow> oa_Side ord \<noteq> SideBuy \<or> u_cmp U m (u_zero U) \<le> 0)
        then Inl (Msg ''MaxSpend must be positive and is only valid for BUY orders'')
      else validateGTDExpiration (oa_Expiration ord) now)"

definition validatePrice :: "'d udecimal_ops \<Rightarrow> 'd \<Rightarrow> TickSize \<Rightarrow> unit result" where
  "validatePrice U price tickSize =
     rbind (parseTickSize U tickSize) (\<lambda>minimum.
       let maximum = u_sub U (u_from_int64 U 1 0) minimum
       in guardE (0 \<le> u_cmp U price minimum \<and> u_cmp U price maximum \<le> 0) (Msg ''invalid price''))"

definition validateLimitPricePrecision :: "'d udecimal_ops \<Rightarrow> 'd \<Rightarrow> TickSize \<Rightarrow> unit result" where
  "validateLimitPricePrecision U price tickSize =
     rbind (parseTickSize U tickSize) (\<lambda>minimum.
       guardE (decimalPlaces U price \<le> decimalPlaces U minimum)
         (Msg ''price exceeds maximum decimal places for tick size''))"

definition sideValue :: "Side \<Rightarrow> int" where
  "sideValue side = (if side = SideSell then 1 else 0)"

definition normalizeTaker :: "string \<Rightarrow> string" where
  "normalizeTaker taker = (if taker = [] then zeroAddress else taker)"

definition validateTickAlignment :: "'d udecimal_ops \<Rightarrow> 'd \<Rightarrow> TickSize \<Rightarrow> unit result" where
  "validateTickAlignment U price tickSize =
     rbind (parseTickSize U tickSize) (\<lambda>minimum.
     rbind (wrap_err ''tick alignment check'' (u_mod U price minimum)) (\<lambda>rem.
       guardE (u_is_zero U rem) (Msg ''price is not aligned to the minimum tick size'')))"

definition isTickSizeSmaller :: "'d udecimal_ops \<Rightarrow> TickSize \<Rightarrow> TickSize \<Rightarrow> bool result" where
  "isTickSizeSmaller U a b =
     rbind (wrap_err ''parse tick size'' (u_parse U a)) (\<lambda>aParsed.
     rbind (wrap_err ''parse tick size'' (u_parse U b)) (\<lambda>bParsed.
       Inr (u_cmp U aParsed bParsed < 0)))"

definition validateMarketPriceBound :: "'d udecimal_ops \<Rightarrow> 'd \<Rightarrow> TickSize \<Rightarrow> unit result" where
  "validateMarketPriceBound U price tick =
     rbind (validatePrice U price tick) (\<lambda>_. validateTickAlignment U price tick)"

section \<open>What rounding and conversion do to values\<close>

lemma roundingConfig_cases:
  assumes "roundingConfig t = Some cfg"
  obtains
    "t = ''0.1''" "cfg = \<lparr>rc_Price = 1, rc_Size = 2, rc_Amount = 3\<rparr>"
  | "t = ''0.01''" "cfg = \<lparr>rc_Price = 2, rc_Size = 2, rc_Amount = 4\<rparr>"
  | "t = ''0.005''" "cfg = \<lparr>rc_Price = 3, rc_Size = 2, rc_Amount = 5\<rparr>"
  | "t = ''0.0025''" "cfg = \<lparr>rc_Price = 4, rc_Size = 2, rc_Amount = 6\<rparr>"
  | "t = ''0.001''" "cfg = \<lparr>rc_Price = 3, rc_Size = 2, rc_Amount = 5\<rparr>"
  | "t = ''0.0001''" "cfg = \<lparr>rc_Price = 4, rc_Size = 2, rc_Amount = 6\<rparr>"
  using assms unfolding roundingConfig_def tick_size_defs by (auto split: if_splits)

lemma roundingConfig_facts:
  assumes "roundingConfig t = Some cfg"
  shows "rc_Size cfg = 2" "rc_Amount cfg = rc_Price cfg + 2" "rc_Price cfg \<le> 4"
  using assms by (auto elim!: roundingConfig_cases)

lemma tick_numerals:
  "decimal_numeral ''0.1'' = Some (1 / 10, 1)"
  "decimal_numeral ''0.01'' = Some (1 / 100, 2)"
  "decimal_numeral ''0.005'' = Some (5 / 1000, 3)"
  "decimal_numeral ''0.0025'' = Some (25 / 10000, 4)"
  "decimal_numeral ''0.001'' = Some (1 / 1000, 3)"
  "decimal_numeral ''0.0001'' = Some (1 / 10000, 4)"
  by (simp_all add: decimal_numeral_def unsigned_numeral_def Let_def read_base_def digit_value_def)

context udecimal
begin

lemma tick_parse:
  assumes "roundingConfig t = Some cfg"
  shows "\<exists>m. u_parse U t = Inr m \<and> u_prec U m \<le> rc_Price cfg \<and> 0 < val m"
proof -
  have "\<exists>x. decimal_numeral t = Some (x, rc_Price cfg) \<and> 0 < x"
    using assms by (elim roundingConfig_cases) (force simp only: tick_numerals roundConfig.simps)+
  moreover have "length t \<le> 200" using assms by (elim roundingConfig_cases) simp_all
  ultimately show ?thesis
    using parse_numeral [of t] roundingConfig_facts(3) [OF assms] by fastforce
qed

lemma roundToAmount_same:
  "u_prec U v \<le> rc_Amount cfg \<Longrightarrow> roundToAmount U v cfg = v"
  by (simp add: roundToAmount_def decimalPlaces_def)

lemma roundToAmount_grid: "on_grid (rc_Amount cfg) (val (roundToAmount U v cfg))"
proof -
  let ?w = "u_round_away U v (rc_Amount cfg + 4)"
  have "u_prec U ?w \<le> rc_Amount cfg \<Longrightarrow> on_grid (rc_Amount cfg) (val ?w)"
    by (rule on_grid_mono [OF prec_grid])
  then show ?thesis
    unfolding roundToAmount_def decimalPlaces_def roundUp_def roundDown_def Let_def
    by (auto intro: on_grid_mono [OF prec_grid] simp: not_le)
qed

lemma roundToAmount_bounds:
  assumes "0 \<le> val v"
  shows "val v - 1 / 10 ^ rc_Amount cfg < val (roundToAmount U v cfg)"
    "val (roundToAmount U v cfg) < val v + 1 / 10 ^ (rc_Amount cfg + 4)"
proof -
  let ?a = "away_to (rc_Amount cfg + 4) (val v)"
  have "0 \<le> ?a" using away_to_bounds(1) [OF assms] assms by (rule order_trans [rotated])
  note t = trunc_to_bounds [OF this, of "rc_Amount cfg"]
  have "(0::rat) < 1 / 10 ^ rc_Amount cfg" "(0::rat) < 1 / 10 ^ (rc_Amount cfg + 4)" by simp_all
  then show "val v - 1 / 10 ^ rc_Amount cfg < val (roundToAmount U v cfg)"
    "val (roundToAmount U v cfg) < val v + 1 / 10 ^ (rc_Amount cfg + 4)"
    using t away_to_bounds [OF assms, of "rc_Amount cfg + 4"]
    unfolding roundToAmount_def decimalPlaces_def roundUp_def roundDown_def Let_def
    by (auto simp del: power_Suc simp: val_trunc)
qed

lemma toTokenDecimals_floor:
  assumes "0 \<le> val v"
  shows "val (toTokenDecimals U v) = of_int \<lfloor>val v * 10 ^ 6\<rfloor>"
proof -
  have s: "val (tokenScaleFactor U) = of_int 1000000"
    by (simp add: tokenScaleFactor_def val_from_int64)
  have "on_grid 19 (val v * of_int 1000000)" using grid19 by (rule on_grid_mult_int)
  then have "val (u_mul U v (tokenScaleFactor U)) = val v * 1000000"
    unfolding val_mul s by simp
  then show ?thesis using assms by (simp add: toTokenDecimals_def trunc_to_0_floor)
qed

lemma decimalInteger_of_int: "val v = of_int n \<Longrightarrow> decimalInteger U v = Some n"
  by (simp add: decimalInteger_def string_fixed_0)

lemma decimalBaseUnits_floor:
  "0 \<le> val v \<Longrightarrow> decimalBaseUnits U v = Some \<lfloor>val v * 10 ^ 6\<rfloor>"
  by (simp add: decimalBaseUnits_def decimalInteger_of_int toTokenDecimals_floor del: power_numeral)

lemma decimalBaseUnits_exact:
  assumes "0 \<le> val v" "on_grid p (val v)" "p \<le> 6"
  shows "\<exists>n. decimalBaseUnits U v = Some n \<and> of_int n = val v * 10 ^ 6"
proof -
  have "val v * 10 ^ 6 \<in> \<int>" using on_grid_mono [OF assms(2,3)] unfolding on_grid_def .
  then show ?thesis
    using decimalBaseUnits_floor [OF assms(1)] by (auto elim!: Ints_cases)
qed

text \<open>The platform fee rate of an order at a price, as the code computes it.\<close>

lemma fee_rate_nonneg:
  assumes "0 \<le> val price" "val price \<le> 1" "0 \<le> val feeRate"
  shows "0 \<le> val (u_mul U feeRate (u_pow_int U (u_mul U price (u_sub U (u_from_int64 U 1 0) price)) (uint e)))"
  using assms by (intro mul_nonneg pow_nonneg) (simp_all add: val_from_int64)

lemma shrunk_amount_bound:
  fixes B pfr b p :: rat
  assumes "0 \<le> B" "0 < p" "0 \<le> pfr" "0 \<le> b"
  defines "D \<equiv> 1 + trunc_to 19 (pfr / p) + b"
  shows "trunc_to 6 (trunc_to 19 (B / D)) * (1 + pfr / p + b) \<le> B + B * ulp"
proof -
  define adj where "adj = trunc_to 6 (trunc_to 19 (B / D))"
  have t: "0 \<le> trunc_to 19 (pfr / p)" "pfr / p < trunc_to 19 (pfr / p) + ulp"
    using assms by (auto intro: trunc_to_19_bounds)
  have D1: "1 \<le> D" using t assms by (simp add: D_def)
  then have q: "0 \<le> B / D" using assms by simp
  have "adj \<le> B / D" "0 \<le> adj"
    using trunc_to_19_bounds [OF q] trunc_to_bounds [OF trunc_to_nonneg [OF q], of 6 19]
    by (auto simp: adj_def)
  then have aD: "adj * D \<le> B" using D1 by (simp add: pos_le_divide_eq)
  have "adj * 1 \<le> adj * D" using D1 \<open>0 \<le> adj\<close> by (intro mult_left_mono)
  then have aB: "adj \<le> B" using aD by simp
  have "1 + pfr / p + b \<le> D + ulp" using t by (simp add: D_def)
  then have "adj * (1 + pfr / p + b) \<le> adj * (D + ulp)"
    using \<open>0 \<le> adj\<close> by (rule mult_left_mono)
  also have "\<dots> = adj * D + adj * ulp" by (simp add: distrib_left)
  also have "\<dots> \<le> B + B * ulp"
    using aD aB by (intro add_mono mult_right_mono) simp_all
  finally show ?thesis by (simp add: adj_def)
qed

lemma unshrunk_amount_bound:
  fixes B amt pfr b p :: rat
  assumes "0 \<le> amt" "0 < p" "0 \<le> pfr" "0 \<le> b"
    and "amt + trunc_to 19 (trunc_to 19 (amt / p) * pfr) + trunc_to 19 (amt * b) < B"
  shows "trunc_to 6 amt * (1 + pfr / p + b) \<le> B + (2 + pfr) * ulp"
proof -
  let ?e = ulp and ?t = "trunc_to 19 (amt / p)"
  have t: "0 \<le> ?t" "amt / p \<le> ?t + ?e"
    using trunc_to_19_bounds [of "amt / p"] assms by auto
  have u: "?t * pfr \<le> trunc_to 19 (?t * pfr) + ?e" "amt * b \<le> trunc_to 19 (amt * b) + ?e"
    using trunc_to_19_bounds(3) [of "?t * pfr"] trunc_to_19_bounds(3) [of "amt * b"] t assms by auto
  have "amt / p * pfr \<le> (?t + ?e) * pfr" using t(2) assms(3) by (rule mult_right_mono)
  also have "\<dots> = ?t * pfr + pfr * ?e" by (simp add: algebra_simps)
  finally have f: "amt / p * pfr \<le> trunc_to 19 (?t * pfr) + ?e + pfr * ?e" using u(1) by linarith
  have "trunc_to 6 amt * (1 + pfr / p + b) \<le> amt * (1 + pfr / p + b)"
    using assms by (intro mult_right_mono trunc_to_bounds) (auto intro: add_nonneg_nonneg)
  also have "\<dots> = amt + amt / p * pfr + amt * b" by (simp add: algebra_simps)
  also have "\<dots> \<le> B + (2 * ?e + pfr * ?e)" using f u(2) assms(5) by linarith
  also have "\<dots> = B + (2 + pfr) * ulp" by (simp add: algebra_simps)
  finally show ?thesis .
qed

lemma adjust_bound:
  assumes adj: "adjustMarketBuyAmount U amount budget price feeRate e builder = Inr adjusted"
    and "0 \<le> val amount" "0 \<le> val budget" "0 < val price" "val price \<le> 1"
    and "0 \<le> val feeRate" "0 \<le> val builder"
  defines "pfr \<equiv> val (u_mul U feeRate (u_pow_int U
      (u_mul U price (u_sub U (u_from_int64 U 1 0) price)) (uint e)))"
  shows "val adjusted * (1 + pfr / val price + val builder)
      \<le> val budget + (val budget + 2 + pfr) * ulp"
    and "0 < val adjusted" and "on_grid 6 (val adjusted)"
proof -
  let ?one = "u_from_int64 U 1 0"
  let ?P = "u_mul U feeRate (u_pow_int U (u_mul U price (u_sub U ?one price)) (uint e))"
  have pfr: "0 \<le> pfr" unfolding pfr_def using assms by (intro fee_rate_nonneg) auto
  obtain q where q: "u_div U amount price = Inr q" "val q = trunc_to 19 (val amount / val price)"
    using div_ok [of price amount] assms by auto
  obtain f where f: "u_div U ?P price = Inr f" "val f = trunc_to 19 (pfr / val price)"
    using div_ok [of price ?P] assms by (auto simp: pfr_def)
  let ?tot = "u_add U (u_add U amount (u_mul U q ?P)) (u_mul U amount builder)"
  have D: "val (u_add U (u_add U ?one f) builder) = 1 + trunc_to 19 (pfr / val price) + val builder"
    using f by (simp add: val_from_int64)
  have D0: "val (u_add U (u_add U ?one f) builder) \<noteq> 0"
  proof -
    have "0 \<le> pfr / val price" using pfr assms by simp
    then have "0 \<le> trunc_to 19 (pfr / val price)" by (rule trunc_to_nonneg)
    then show ?thesis using D assms by linarith
  qed
  have tot: "val ?tot = val amount + trunc_to 19 (trunc_to 19 (val amount / val price) * pfr)
      + trunc_to 19 (val amount * val builder)"
    using q by (simp add: val_mul pfr_def)
  obtain r where r: "adjusted = u_trunc U r 6" "val adjusted \<noteq> 0"
    and br: "(val budget \<le> val ?tot \<and> u_div U budget (u_add U (u_add U ?one f) builder) = Inr r)
      \<or> (val ?tot < val budget \<and> r = amount)"
    using adj q f unfolding adjustMarketBuyAmount_def Let_def
    by (auto split: if_splits simp: go_run not_le)
  have nn: "0 \<le> val r"
    using br assms D D0 div_Inr(2) [of budget _ r] pfr
    by (auto intro!: trunc_to_nonneg divide_nonneg_nonneg add_nonneg_nonneg)
  then show "0 < val adjusted" using r by (metis order_le_less trunc_to_nonneg val_trunc)
  show "on_grid 6 (val adjusted)" using r by simp
  have slack: "0 \<le> val budget * ulp" "0 \<le> (2 + pfr) * ulp" using assms pfr by simp_all
  have "val adjusted * (1 + pfr / val price + val builder)
      \<le> val budget + (val budget * ulp + (2 + pfr) * ulp)"
    using br
  proof (elim disjE conjE)
    assume "u_div U budget (u_add U (u_add U ?one f) builder) = Inr r"
    then have "val r = trunc_to 19 (val budget / (1 + trunc_to 19 (pfr / val price) + val builder))"
      using div_Inr(2) D by metis
    then have "val adjusted * (1 + pfr / val price + val builder) \<le> val budget + val budget * ulp"
      using shrunk_amount_bound [of "val budget" "val price" pfr "val builder"] assms(2-7) pfr r(1)
      by simp
    then show ?thesis using slack by linarith
  next
    assume "val ?tot < val budget" "r = amount"
    then have "val adjusted * (1 + pfr / val price + val builder) \<le> val budget + (2 + pfr) * ulp"
      using unshrunk_amount_bound [of "val amount" "val price" pfr "val builder" "val budget"]
        assms(2-7) pfr r(1) tot
      by simp
    then show ?thesis using slack by linarith
  qed
  then show "val adjusted * (1 + pfr / val price + val builder)
      \<le> val budget + (val budget + 2 + pfr) * ulp"
    by (simp add: algebra_simps)
qed

end

end
