(* ===== verification/RestDecimal.thy ===== *)
theory RestDecimal
  imports Decimals
begin

text \<open>
  \<open>DecimalString\<close> (\<open>clob/rest_decimal.go\<close>, \<open>internal/polyjson/decimal.go\<close>): the decimals of REST
  responses are kept as text, possibly in scientific notation, and converted to order-math decimals on demand.  The
  conversion is claimed never to round or truncate; \<open>DecimalString_Decimal_exact\<close> proves it.
\<close>

section \<open>The recogniser of decimalPattern\<close>

definition is_digit :: "char \<Rightarrow> bool" where
  "is_digit c \<longleftrightarrow> 48 \<le> (of_char c :: nat) \<and> (of_char c :: nat) \<le> 57"

definition is_exp_char :: "char \<Rightarrow> bool" where
  "is_exp_char c \<longleftrightarrow> c = CHR ''e'' \<or> c = CHR ''E''"

definition drop_sign :: "string \<Rightarrow> string" where
  "drop_sign s =
     (case s of [] \<Rightarrow> [] | c # t \<Rightarrow> if c = CHR ''-'' \<or> c = CHR ''+'' then t else s)"

definition valid_mantissa :: "string \<Rightarrow> bool" where
  "valid_mantissa m =
     (let ip = takeWhile is_digit m; r = dropWhile is_digit m
      in case r of
           [] \<Rightarrow> ip \<noteq> []
         | c # fp \<Rightarrow> c = CHR ''.'' \<and> list_all is_digit fp \<and> (ip \<noteq> [] \<or> fp \<noteq> []))"

definition valid_exponent :: "string \<Rightarrow> bool" where
  "valid_exponent r =
     (case r of [] \<Rightarrow> True | _ # x \<Rightarrow> drop_sign x \<noteq> [] \<and> list_all is_digit (drop_sign x))"

text \<open>The language of \<open>^[+-]?(?:[0-9]+(?:\.[0-9]*)?|\.[0-9]+)(?:[eE][+-]?[0-9]+)?$\<close>.\<close>

definition ValidDecimal :: "string \<Rightarrow> bool" where
  "ValidDecimal s =
     (let t = drop_sign s
      in valid_mantissa (takeWhile (\<lambda>c. \<not> is_exp_char c) t) \<and>
         valid_exponent (dropWhile (\<lambda>c. \<not> is_exp_char c) t))"

section \<open>The conversion\<close>

text \<open>\<open>strconv.ParseInt(s, 10, 64)\<close>.\<close>

definition parse_int64 :: "string \<Rightarrow> int result" where
  "parse_int64 s =
     (case big_int_set_string s 10 of
        None \<Rightarrow> Inl (Msg ''invalid syntax'')
      | Some n \<Rightarrow> if - (2 ^ 63) \<le> n \<and> n < 2 ^ 63 then Inr n else Inl (Msg ''value out of range''))"

definition trim_left_zeros :: "string \<Rightarrow> string" where
  "trim_left_zeros = dropWhile (\<lambda>c. c = CHR ''0'')"

definition trim_right_zeros :: "string \<Rightarrow> string" where
  "trim_right_zeros s = rev (trim_left_zeros (rev s))"

text \<open>Placing the point: digits \<open>t\<close> shifted right by \<open>scale\<close> decimal places.\<close>

definition place_point :: "string \<Rightarrow> int \<Rightarrow> string" where
  "place_point t scale =
     (if scale \<le> 0 then t @ replicate (nat (- scale)) (CHR ''0'')
      else if int (length t) \<le> scale then ''0.'' @ replicate (nat scale - length t) (CHR ''0'') @ t
      else let index = length t - nat scale in take index t @ ''.'' @ drop index t)"

definition DecimalString_Decimal :: "'d udecimal_ops \<Rightarrow> string \<Rightarrow> 'd result" where
  "DecimalString_Decimal U d =
     (if d = [] then Inr (u_zero U)
      else if \<not> ValidDecimal d then Inl (Msg ''invalid decimal'')
      else
        let sign = (if hd d = CHR ''-'' then ''-'' else '''');
            text0 = drop_sign d;
            text1 = takeWhile (\<lambda>c. \<not> is_exp_char c) text0;
            ex = dropWhile (\<lambda>c. \<not> is_exp_char c) text0
        in rbind
             (if ex = [] then Inr 0
              else wrap_err ''decimal exponent outside order-math range'' (parse_int64 (tl ex)))
           (\<lambda>exponent.
             let fr = dropWhile (\<lambda>c. c \<noteq> CHR ''.'') text1;
                 fraction = (if fr = [] then 0 else int (length fr) - 1);
                 text2 = takeWhile (\<lambda>c. c \<noteq> CHR ''.'') text1 @ tl fr;
                 text3 = trim_left_zeros text2
             in if text3 = [] then Inr (u_zero U)
                else
                  let trimmed = trim_right_zeros text3;
                      zeros = int (length text3) - int (length trimmed);
                      len = int (length d)
                  in if exponent < - len - 19 \<or> exponent > len + 39
                     then Inl (Msg ''decimal outside order-math range'')
                     else
                       let scale = fraction - exponent - zeros
                       in if scale > 19 \<or> int (length trimmed) - scale > 39
                          then Inl (Msg ''decimal outside order-math range'')
                          else wrap_err ''decimal outside order-math range''
                                 (u_parse U (sign @ place_point trimmed scale))))"

section \<open>The value of the text\<close>

text \<open>
  The specification: the number a decimal literal denotes, read off its parts: sign, digits, number of
  fraction digits and exponent.
\<close>

definition digits_value :: "string \<Rightarrow> nat" where
  "digits_value s = foldl (\<lambda>a c. a * 10 + (of_char c - 48)) 0 s"

definition literal_exponent :: "string \<Rightarrow> int" where
  "literal_exponent s =
     (let x = dropWhile (\<lambda>c. \<not> is_exp_char c) s
      in if x = [] then 0
         else let y = tl x; n = int (digits_value (drop_sign y))
              in if y \<noteq> [] \<and> hd y = CHR ''-'' then - n else n)"

definition literal_value :: "string \<Rightarrow> rat" where
  "literal_value s =
     (let t = drop_sign s; m = takeWhile (\<lambda>c. \<not> is_exp_char c) t;
          ip = takeWhile (\<lambda>c. c \<noteq> CHR ''.'') m; fp = tl (dropWhile (\<lambda>c. c \<noteq> CHR ''.'') m);
          mag = of_nat (digits_value (ip @ fp)) * 10 powi (literal_exponent t - int (length fp))
      in if s \<noteq> [] \<and> hd s = CHR ''-'' then - mag else mag)"

section \<open>Digits\<close>

lemma digit_value_is_digit: "is_digit c \<Longrightarrow> digit_value c = Some (of_char c - 48)"
  by (simp add: is_digit_def digit_value_def Let_def)

lemma foldl_digits:
  "foldl (\<lambda>a c. a * 10 + (of_char c - 48)) (k::nat) s =
     k * 10 ^ length s + digits_value s"
proof (induction s arbitrary: k)
  case (Cons c s)
  from Cons [of "k * 10 + (of_char c - 48)"] Cons [of "of_char c - 48"] show ?case
    by (simp add: digits_value_def algebra_simps)
qed (simp add: digits_value_def)

lemma digits_value_append:
  "digits_value (s @ t) = digits_value s * 10 ^ length t + digits_value t"
  unfolding digits_value_def [of "s @ t"] foldl_append
  by (subst foldl_digits) (simp add: digits_value_def)

lemma digits_value_zeros [simp]: "digits_value (replicate k (CHR ''0'')) = 0"
  by (induction k) (simp_all add: digits_value_def)

lemma read_digits_value:
  "list_all is_digit s \<Longrightarrow> read_digits 10 k s = Some (k * 10 ^ length s + digits_value s)"
proof (induction s arbitrary: k)
  case Nil
  then show ?case by (simp add: digits_value_def)
next
  case (Cons c s)
  then have c: "digit_value c = Some (of_char c - 48)" "of_char c - 48 < (10::nat)"
    by (auto simp: digit_value_is_digit is_digit_def)
  have "digits_value (c # s) = (of_char c - 48) * 10 ^ length s + digits_value s"
    using digits_value_append [of "[c]" s] by (simp add: digits_value_def)
  then show ?case using Cons c by (simp add: algebra_simps)
qed

lemma read_base_value:
  "list_all is_digit s \<Longrightarrow> s \<noteq> [] \<Longrightarrow> read_base 10 s = Some (digits_value s)"
  by (simp add: read_base_def read_digits_value)

lemma is_digit_zero [simp]: "is_digit (CHR ''0'')"
  by (simp add: is_digit_def)

lemma is_digit_not_point: "list_all is_digit s \<Longrightarrow> CHR ''.'' \<notin> set s"
  by (auto simp: list_all_iff is_digit_def)

lemma trim_left_zeros_split:
  "\<exists>k. s = replicate k (CHR ''0'') @ trim_left_zeros s"
  unfolding trim_left_zeros_def
proof (induction s)
  case (Cons c s)
  then obtain k where k: "s = replicate k (CHR ''0'') @ dropWhile (\<lambda>c. c = CHR ''0'') s" by blast
  show ?case
  proof (cases "c = CHR ''0''")
    case True
    then have "c # s = replicate (Suc k) (CHR ''0'') @ dropWhile (\<lambda>c. c = CHR ''0'') (c # s)"
      using k by simp
    then show ?thesis by blast
  qed (auto intro: exI [of _ 0])
qed simp

lemma trim_right_zeros_split:
  "\<exists>k. s = trim_right_zeros s @ replicate k (CHR ''0'')"
proof -
  obtain k where "rev s = replicate k (CHR ''0'') @ trim_left_zeros (rev s)"
    using trim_left_zeros_split by blast
  then have "s = rev (replicate k (CHR ''0'') @ trim_left_zeros (rev s))" by (metis rev_rev_ident)
  then show ?thesis by (auto simp: trim_right_zeros_def)
qed

lemma trim_left_zeros_value: "digits_value (trim_left_zeros s) = digits_value s"
proof -
  obtain k where "s = replicate k (CHR ''0'') @ trim_left_zeros s"
    using trim_left_zeros_split by blast
  then have "digits_value s = digits_value (replicate k (CHR ''0'') @ trim_left_zeros s)" by simp
  then show ?thesis by (simp add: digits_value_append)
qed

lemma trim_right_zeros_value:
  "digits_value s = digits_value (trim_right_zeros s) * 10 ^ (length s - length (trim_right_zeros s))"
  "length (trim_right_zeros s) \<le> length s"
proof -
  obtain k where k: "s = trim_right_zeros s @ replicate k (CHR ''0'')"
    using trim_right_zeros_split by blast
  then have l: "length s = length (trim_right_zeros s) + k" by (metis length_append length_replicate)
  then show "length (trim_right_zeros s) \<le> length s" by simp
  have "digits_value s = digits_value (trim_right_zeros s @ replicate k (CHR ''0''))" using k by simp
  then show "digits_value s = digits_value (trim_right_zeros s) * 10 ^ (length s - length (trim_right_zeros s))"
    using l by (simp add: digits_value_append)
qed

lemma trim_zeros_digits:
  assumes "list_all is_digit s"
  shows "list_all is_digit (trim_left_zeros s)" "list_all is_digit (trim_right_zeros s)"
  using assms trim_left_zeros_split [of s] trim_right_zeros_split [of s] by (metis list_all_append)+

lemma trim_right_zeros_nonempty: "trim_left_zeros s \<noteq> [] \<Longrightarrow> trim_right_zeros (trim_left_zeros s) \<noteq> []"
proof
  assume ne: "trim_left_zeros s \<noteq> []" and "trim_right_zeros (trim_left_zeros s) = []"
  then obtain k where "trim_left_zeros s = replicate k (CHR ''0'')"
    using trim_right_zeros_split [of "trim_left_zeros s"] by auto
  then have "hd (trim_left_zeros s) = CHR ''0''" using ne by (cases k) auto
  then show False using hd_dropWhile [of "\<lambda>c. c = CHR ''0''" s] ne by (simp add: trim_left_zeros_def)
qed

section \<open>Placing the point\<close>

lemma unsigned_numeral_no_point:
  assumes "list_all is_digit s" "s \<noteq> []"
  shows "unsigned_numeral s = Some (digits_value s, 0)"
proof -
  have "takeWhile (\<lambda>c. c \<noteq> CHR ''.'') s = s" "dropWhile (\<lambda>c. c \<noteq> CHR ''.'') s = []"
    using is_digit_not_point [OF assms(1)] by (auto simp: takeWhile_eq_all_conv)
  with assms show ?thesis
    unfolding unsigned_numeral_def Let_def by (simp only: read_base_value [OF assms] list.case option.map)
qed

lemma unsigned_numeral_point:
  assumes "list_all is_digit ip" "list_all is_digit fp" "ip \<noteq> []" "fp \<noteq> []"
  shows "unsigned_numeral (ip @ CHR ''.'' # fp) = Some (digits_value (ip @ fp), length fp)"
proof -
  have "\<forall>c \<in> set ip. c \<noteq> CHR ''.''" using is_digit_not_point [OF assms(1)] by auto
  then have "takeWhile (\<lambda>c. c \<noteq> CHR ''.'') (ip @ CHR ''.'' # fp) = ip"
    "dropWhile (\<lambda>c. c \<noteq> CHR ''.'') (ip @ CHR ''.'' # fp) = CHR ''.'' # fp"
    by (simp_all add: takeWhile_append2 dropWhile_append2)
  moreover have "list_all is_digit (ip @ fp)" using assms by simp
  ultimately show ?thesis using assms by (simp add: unsigned_numeral_def Let_def read_base_value)
qed

lemma place_point_numeral:
  assumes t: "list_all is_digit t" "t \<noteq> []" and s: "scale \<le> 19"
  shows "\<exists>n k. unsigned_numeral (place_point t scale) = Some (n, k) \<and> k \<le> 19 \<and>
    (of_nat n / 10 ^ k :: rat) = of_nat (digits_value t) * 10 powi (- scale)"
proof -
  consider "scale \<le> 0" | "0 < scale" "int (length t) \<le> scale" | "0 < scale" "scale < int (length t)"
    by linarith
  then show ?thesis
  proof cases
    case 1
    have "unsigned_numeral (t @ replicate (nat (- scale)) (CHR ''0'')) =
        Some (digits_value (t @ replicate (nat (- scale)) (CHR ''0'')), 0)"
      by (rule unsigned_numeral_no_point) (use t in \<open>auto simp: list_all_iff\<close>)
    then have "unsigned_numeral (place_point t scale) = Some (digits_value t * 10 ^ nat (- scale), 0)"
      using 1 by (simp add: place_point_def digits_value_append)
    moreover have "(10::rat) powi (- scale) = 10 ^ nat (- scale)" using 1 by (simp add: power_int_def)
    ultimately show ?thesis by simp
  next
    case 2
    let ?z = "replicate (nat scale - length t) (CHR ''0'')"
    have "place_point t scale = ''0'' @ CHR ''.'' # (?z @ t)" using 2 by (simp add: place_point_def)
    moreover have "unsigned_numeral (''0'' @ CHR ''.'' # (?z @ t)) =
        Some (digits_value (''0'' @ (?z @ t)), length (?z @ t))"
      by (rule unsigned_numeral_point) (use t in \<open>auto simp: list_all_iff\<close>)
    moreover have "digits_value (''0'' @ (?z @ t)) = digits_value t"
      by (simp only: digits_value_append digits_value_zeros) (simp add: digits_value_def)
    moreover have "length (?z @ t) = nat scale" using 2 by simp
    moreover have "(10::rat) powi (- scale) = 1 / 10 ^ nat scale"
      using 2 by (simp add: power_int_def field_simps)
    ultimately show ?thesis using 2 s by (auto simp: field_simps)
  next
    case 3
    let ?i = "length t - nat scale"
    have p: "place_point t scale = take ?i t @ CHR ''.'' # drop ?i t"
      using 3 by (simp add: place_point_def Let_def)
    have "unsigned_numeral (take ?i t @ CHR ''.'' # drop ?i t) =
        Some (digits_value (take ?i t @ drop ?i t), length (drop ?i t))"
      by (rule unsigned_numeral_point)
        (use t 3 in \<open>auto simp: list_all_iff dest: in_set_takeD in_set_dropD\<close>)
    then have "unsigned_numeral (place_point t scale) = Some (digits_value t, nat scale)"
      using p 3 by simp
    moreover have "(10::rat) powi (- scale) = 1 / 10 ^ nat scale"
      using 3 by (simp add: power_int_def field_simps)
    ultimately show ?thesis using s by (auto simp: field_simps)
  qed
qed

lemma place_point_length:
  assumes "scale \<le> 19" "int (length t) - scale \<le> 39"
  shows "length (place_point t scale) \<le> 60"
  using assms by (auto simp: place_point_def Let_def split: if_splits)

lemma place_point_hd: "list_all is_digit t \<Longrightarrow> t \<noteq> [] \<Longrightarrow>
    \<exists>c u. place_point t scale = c # u \<and> c \<noteq> CHR ''-''"
  by (cases t) (auto simp: place_point_def Let_def is_digit_def split: if_splits nat.splits
      simp: take_Cons')

lemma signed_place_point:
  assumes "list_all is_digit t" "t \<noteq> []" "scale \<le> 19"
  shows "\<exists>k \<le> 19. decimal_numeral ((if neg then ''-'' else '''') @ place_point t scale) =
     Some ((if neg then -1 else 1) * (of_nat (digits_value t) * 10 powi (- scale)), k)"
proof -
  obtain n k where nk: "unsigned_numeral (place_point t scale) = Some (n, k)" "k \<le> 19"
    "(of_nat n / 10 ^ k :: rat) = of_nat (digits_value t) * 10 powi (- scale)"
    using place_point_numeral [OF assms] by blast
  moreover obtain c u where "place_point t scale = c # u" "c \<noteq> CHR ''-''"
    using place_point_hd [OF assms(1,2)] by blast
  ultimately show ?thesis by (cases neg) (auto simp: decimal_numeral_def)
qed

section \<open>Exactness\<close>

lemma parse_int64_value:
  assumes "parse_int64 y = Inr e" "drop_sign y \<noteq> []" "list_all is_digit (drop_sign y)"
  shows "e = (if hd y = CHR ''-'' then - int (digits_value (drop_sign y))
      else int (digits_value (drop_sign y)))"
proof -
  obtain c t where y: "y = c # t" using assms(2) by (cases y) (auto simp: drop_sign_def)
  have "big_int_set_string y 10 = Some e"
    using assms(1) by (auto simp: parse_int64_def split: option.splits if_splits)
  then show ?thesis
    using assms(2,3) y read_base_value [of t] read_base_value [of y]
    by (auto simp: big_int_set_string_def drop_sign_def split: if_splits)
qed

lemma mantissa_digits:
  assumes "valid_mantissa m"
  shows "list_all is_digit (takeWhile (\<lambda>c. c \<noteq> CHR ''.'') m @ tl (dropWhile (\<lambda>c. c \<noteq> CHR ''.'') m))"
proof -
  let ?ip = "takeWhile is_digit m" and ?r = "dropWhile is_digit m"
  have m: "m = ?ip @ ?r" by simp
  have ip: "list_all is_digit ?ip" by (auto simp: list_all_iff dest: set_takeWhileD)
  then have np: "\<forall>c \<in> set ?ip. c \<noteq> CHR ''.''" using is_digit_not_point by blast
  show ?thesis
  proof (cases ?r)
    case Nil
    then have "list_all is_digit m" using ip m by (metis append_Nil2)
    moreover from this have "takeWhile (\<lambda>c. c \<noteq> CHR ''.'') m = m" "dropWhile (\<lambda>c. c \<noteq> CHR ''.'') m = []"
      using is_digit_not_point by (auto simp: takeWhile_eq_all_conv)
    ultimately show ?thesis by (simp only: append_Nil2 list.sel)
  next
    case (Cons c fp)
    with assms have c: "c = CHR ''.''" "list_all is_digit fp" by (auto simp: valid_mantissa_def Let_def)
    then have "takeWhile (\<lambda>c. c \<noteq> CHR ''.'') (?ip @ c # fp) = ?ip"
      "dropWhile (\<lambda>c. c \<noteq> CHR ''.'') (?ip @ c # fp) = c # fp"
      using np by (simp_all add: takeWhile_append2 dropWhile_append2)
    moreover have "m = ?ip @ c # fp" using m Cons by simp
    ultimately show ?thesis using c ip by (metis list.sel(3) list_all_append)
  qed
qed

context udecimal
begin

lemma DecimalString_Decimal_value:
  assumes "DecimalString_Decimal U s = Inr d" "s \<noteq> []"
  shows "val d = literal_value s"
proof -
  define sg where "sg = (if hd s = CHR ''-'' then ''-'' else '''')"
  let ?t = "drop_sign s"
  let ?m = "takeWhile (\<lambda>c. \<not> is_exp_char c) ?t" and ?x = "dropWhile (\<lambda>c. \<not> is_exp_char c) ?t"
  let ?fr = "dropWhile (\<lambda>c. c \<noteq> CHR ''.'') ?m"
  let ?ds = "takeWhile (\<lambda>c. c \<noteq> CHR ''.'') ?m @ tl ?fr"
  let ?t3 = "trim_left_zeros ?ds" let ?tr = "trim_right_zeros ?t3"
  have valid: "valid_mantissa ?m" "valid_exponent ?x"
    using assms by (auto simp: DecimalString_Decimal_def ValidDecimal_def Let_def split: if_splits)
  then obtain ex where ex: "(if ?x = [] then Inr 0 else wrap_err
      ''decimal exponent outside order-math range'' (parse_int64 (tl ?x))) = Inr ex"
    using assms by (auto simp: DecimalString_Decimal_def Let_def go_run split: if_splits)
  have ex_val: "ex = literal_exponent ?t"
  proof (cases ?x)
    case Nil
    then show ?thesis using ex by (simp add: literal_exponent_def Let_def)
  next
    case (Cons e y)
    then have y: "drop_sign y \<noteq> []" "list_all is_digit (drop_sign y)" "parse_int64 y = Inr ex"
      using valid(2) ex by (simp_all add: valid_exponent_def)
    then have "y \<noteq> []" by (auto simp: drop_sign_def)
    then show ?thesis
      unfolding literal_exponent_def Let_def Cons parse_int64_value [OF y(3,1,2)] by simp
  qed
  have dig: "list_all is_digit ?ds" using valid(1) by (rule mantissa_digits)
  have fr: "(if r = [] then 0 else int (length r) - 1) = int (length (tl r))" for r :: string
    by (cases r) auto
  show ?thesis
  proof (cases "?t3 = []")
    case True
    then have "digits_value ?ds = 0" using trim_left_zeros_value [of ?ds] by (simp add: digits_value_def)
    moreover have "d = u_zero U"
      using assms True ex by (auto simp: DecimalString_Decimal_def Let_def go_run split: if_splits)
    ultimately show ?thesis by (simp add: literal_value_def Let_def)
  next
    case False
    define sc where "sc = int (length (tl ?fr)) - ex - (int (length ?t3) - int (length ?tr))"
    have "rbind (Inr ex) (\<lambda>exponent. if exponent < - int (length s) - 19 \<or> exponent > int (length s) + 39
        then Inl (Msg ''decimal outside order-math range'')
        else if sc > 19 \<or> int (length ?tr) - sc > 39 then Inl (Msg ''decimal outside order-math range'')
        else wrap_err ''decimal outside order-math range'' (u_parse U (sg @ place_point ?tr sc))) = Inr d"
      using assms False valid unfolding DecimalString_Decimal_def ValidDecimal_def Let_def fr ex sg_def [symmetric] sc_def
      by simp
    then have p: "u_parse U (sg @ place_point ?tr sc) = Inr d" "sc \<le> 19" "int (length ?tr) - sc \<le> 39"
      by (simp_all split: if_splits)
    have tr: "list_all is_digit ?tr" "?tr \<noteq> []"
      using trim_zeros_digits dig trim_right_zeros_nonempty [OF False] by blast+
    obtain k where k: "k \<le> 19" "decimal_numeral (sg @ place_point ?tr sc)
        = Some ((if hd s = CHR ''-'' then -1 else 1) * (of_nat (digits_value ?tr) * 10 powi (- sc)), k)"
      using signed_place_point [OF tr p(2), of "hd s = CHR ''-''"] unfolding sg_def by blast
    have "length (sg @ place_point ?tr sc) \<le> 200"
      using place_point_length [OF p(2,3)] by (simp add: sg_def)
    then have "val d = (if hd s = CHR ''-'' then -1 else 1) * (of_nat (digits_value ?tr) * 10 powi (- sc))"
      using parse_numeral [OF k(2) k(1)] p(1) by auto
    moreover have "of_nat (digits_value ?tr) * 10 powi (- sc)
        = (of_nat (digits_value ?ds) * 10 powi (ex - int (length (tl ?fr))) :: rat)"
    proof -
      let ?z = "length ?t3 - length ?tr"
      have "- sc = int ?z + (ex - int (length (tl ?fr)))"
        using trim_right_zeros_value(2) [of ?t3] by (simp add: sc_def)
      then have "(10::rat) powi (- sc) = 10 ^ ?z * 10 powi (ex - int (length (tl ?fr)))"
        by (simp add: power_int_add)
      moreover have "digits_value ?ds = digits_value ?tr * 10 ^ ?z"
        using trim_left_zeros_value [of ?ds] trim_right_zeros_value(1) [of ?t3] by simp
      ultimately show ?thesis by (simp only: of_nat_mult of_nat_power of_nat_numeral mult.assoc)
    qed
    ultimately show ?thesis using assms(2) ex_val by (simp add: literal_value_def Let_def)
  qed
qed

end

end
