(* ===== verification/ClientState.thy ===== *)
theory ClientState
  imports OrderMath RestDecimal
begin

text \<open>
  The state of a client (\<open>clob/cache_state.go\<close>, \<open>clob/client.go\<close>) and its environment.  The record
  \<open>clientCacheState\<close> has the fields of the Go struct; \<open>client\<close> extends it with the configuration and with
  the objects the cache maps point to.  Everything outside the process (the clock, cancellation of the caller's
  context, the CLOB service, the signer, the source of randomness) is the record \<open>env\<close>, a parameter.  Each field
  of \<open>env\<close> is indexed by the number of interactions made so far, so that two calls may give different answers;
  \<open>ticks\<close> counts them.  \<open>e_timer\<close> resolves a \<open>select\<close> between a timer and a context when both are ready.
\<close>

section \<open>State\<close>

record 'd orderMarketMetadata =
  md_ConditionID :: string
  md_TickSize :: TickSize
  md_NegRisk :: bool
  md_FeeInfo :: "'d FeeInfo"
  md_TokenIDs :: "string list"

text \<open>Times are nanoseconds since the Unix epoch, durations nanoseconds.\<close>

record 'd orderMetadataEntry =
  me_value :: "'d orderMarketMetadata"
  me_expiresAt :: int

record builderFeeEntry =
  be_value :: BuilderFeeRateResponse
  be_expiresAt :: int

text \<open>
  A load in flight (\<open>orderConditionLoad\<close>, \<open>orderMetadataLoad\<close>, \<open>builderFeeLoad\<close>): \<open>ld_result\<close> is
  \<open>None\<close> until the channel \<open>done\<close> is closed, and then holds the value or the error.
\<close>

record 'v load =
  ld_result :: "'v result option"
  ld_generation :: "64 word"

record 'd clientCacheState =
  feeRateGeneration :: "64 word"
  feeRateCache :: "string \<rightharpoonup> 32 word"
  tickSizeGeneration :: "64 word"
  tickSizeCache :: "string \<rightharpoonup> TickSize"
  tickSizeTimestamps :: "string \<rightharpoonup> int"
  negRiskGeneration :: "64 word"
  negRiskCache :: "string \<rightharpoonup> bool"
  negRiskTimestamps :: "string \<rightharpoonup> int"
  orderMetadataGeneration :: "64 word"
  orderConditionCache :: "string \<rightharpoonup> string"
  orderConditionLoads :: "string \<rightharpoonup> nat"
  orderMetadataCache :: "string \<rightharpoonup> 'd orderMetadataEntry"
  orderMetadataLoads :: "string \<rightharpoonup> nat"
  builderFeeCache :: "string \<rightharpoonup> builderFeeEntry"
  builderFeeLoads :: "string \<rightharpoonup> nat"
  cachedVersion :: "32 word"

text \<open>
  Pointers to loads are numbers; the three heaps hold the objects, \<open>nextLoad\<close> is the next unused number.
\<close>

record 'd client = "'d clientCacheState" +
  conditionHeap :: "nat \<rightharpoonup> string load"
  metadataHeap :: "nat \<rightharpoonup> 'd orderMarketMetadata load"
  builderHeap :: "nat \<rightharpoonup> BuilderFeeRateResponse load"
  nextLoad :: nat
  cacheTTL :: int
  chainID :: int
  signerAddress :: string
  funderAddress :: string
  signatureType :: SignatureType
  credentialsKey :: "string option"
  ticks :: nat

section \<open>Environment\<close>

record 'd env =
  e_U :: "'d udecimal_ops"
  e_clock :: "nat \<Rightarrow> int"
  e_ctxErr :: "nat \<Rightarrow> go_error option"
  e_GetMarketByToken :: "nat \<Rightarrow> string \<Rightarrow> MarketByTokenResponse result"
  e_GetClobMarket :: "nat \<Rightarrow> string \<Rightarrow> ClobMarketInfoResponse result"
  e_GetTickSize :: "nat \<Rightarrow> string \<Rightarrow> TickSize result"
  e_GetNegRisk :: "nat \<Rightarrow> string \<Rightarrow> bool result"
  e_GetOrderBook :: "nat \<Rightarrow> string \<Rightarrow> OrderBookSummary result"
  e_GetBuilderFeeRate :: "nat \<Rightarrow> string \<Rightarrow> BuilderFeeRateResponse option result"
  e_GetFeeRate :: "nat \<Rightarrow> string \<Rightarrow> 32 word result"
  e_GetVersion :: "nat \<Rightarrow> 32 word result"
  e_salt :: "nat \<Rightarrow> 64 word result"
  e_signTypedData :: "nat \<Rightarrow> TypedData \<Rightarrow> byte list result"
  e_hashStruct :: "TypedData \<Rightarrow> string \<Rightarrow> byte list result"
  e_wrapDepositWalletSignature :: "nat \<Rightarrow> string \<Rightarrow> string result"
  e_postOrder :: "nat \<Rightarrow> PostOrderRequest \<Rightarrow> PostOrderResponse result"
  e_postOrders :: "nat \<Rightarrow> PostOrderRequest list \<Rightarrow> PostOrderResponse list result"
  e_getTrades :: "nat \<Rightarrow> string \<Rightarrow> Trade list result"
  e_timer :: "nat \<Rightarrow> int \<Rightarrow> bool"

definition tick :: "('d, 'z) client_scheme \<Rightarrow> ('d, 'z) client_scheme" where
  "tick c = c\<lparr>ticks := Suc (ticks c)\<rparr>"

definition interact :: "(nat \<Rightarrow> 'a result) \<Rightarrow> ('d client, 'a) act" where
  "interact f = (\<lambda>c. (f (ticks c), tick c))"

definition time_now :: "'d env \<Rightarrow> ('d client, int) act" where
  "time_now E = (\<lambda>c. (Inr (e_clock E (ticks c)), tick c))"

text \<open>\<open>if err := ctx.Err(); err != nil { return err }\<close>\<close>

definition ctx_check :: "'d env \<Rightarrow> ('d client, unit) act" where
  "ctx_check E = (\<lambda>c. (case e_ctxErr E (ticks c) of None \<Rightarrow> Inr () | Some e \<Rightarrow> Inl e, tick c))"

lemma tick_same [simp]:
  "feeRateGeneration (tick c) = feeRateGeneration c" "feeRateCache (tick c) = feeRateCache c"
  "tickSizeGeneration (tick c) = tickSizeGeneration c" "tickSizeCache (tick c) = tickSizeCache c"
  "tickSizeTimestamps (tick c) = tickSizeTimestamps c" "negRiskGeneration (tick c) = negRiskGeneration c"
  "negRiskCache (tick c) = negRiskCache c" "negRiskTimestamps (tick c) = negRiskTimestamps c"
  "orderMetadataGeneration (tick c) = orderMetadataGeneration c"
  "orderConditionCache (tick c) = orderConditionCache c" "orderConditionLoads (tick c) = orderConditionLoads c"
  "orderMetadataCache (tick c) = orderMetadataCache c" "orderMetadataLoads (tick c) = orderMetadataLoads c"
  "builderFeeCache (tick c) = builderFeeCache c" "builderFeeLoads (tick c) = builderFeeLoads c"
  "cachedVersion (tick c) = cachedVersion c" "conditionHeap (tick c) = conditionHeap c"
  "metadataHeap (tick c) = metadataHeap c" "builderHeap (tick c) = builderHeap c"
  "nextLoad (tick c) = nextLoad c" "cacheTTL (tick c) = cacheTTL c" "chainID (tick c) = chainID c"
  "signerAddress (tick c) = signerAddress c" "funderAddress (tick c) = funderAddress c"
  "signatureType (tick c) = signatureType c" "credentialsKey (tick c) = credentialsKey c"
  "ticks (tick c) = Suc (ticks c)"
  by (simp_all add: tick_def)

section \<open>Scalar caches\<close>

definition newClientCacheState :: "'d clientCacheState" where
  "newClientCacheState =
     \<lparr>feeRateGeneration = 0, feeRateCache = Map.empty,
      tickSizeGeneration = 0, tickSizeCache = Map.empty, tickSizeTimestamps = Map.empty,
      negRiskGeneration = 0, negRiskCache = Map.empty, negRiskTimestamps = Map.empty,
      orderMetadataGeneration = 0, orderConditionCache = Map.empty, orderConditionLoads = Map.empty,
      orderMetadataCache = Map.empty, orderMetadataLoads = Map.empty,
      builderFeeCache = Map.empty, builderFeeLoads = Map.empty, cachedVersion = 0\<rparr>"

definition SetTickSize :: "'d env \<Rightarrow> string \<Rightarrow> TickSize \<Rightarrow> 'd client \<Rightarrow> 'd client" where
  "SetTickSize E tokenID sz c =
     (let now = e_clock E (ticks c)
      in (tick c)\<lparr>tickSizeGeneration := tickSizeGeneration c + 1,
                  tickSizeCache := (tickSizeCache c)(tokenID \<mapsto> sz),
                  tickSizeTimestamps := (tickSizeTimestamps c)(tokenID \<mapsto> now)\<rparr>)"

definition SetNegRisk :: "'d env \<Rightarrow> string \<Rightarrow> bool \<Rightarrow> 'd client \<Rightarrow> 'd client" where
  "SetNegRisk E tokenID negRisk c =
     (let now = e_clock E (ticks c)
      in (tick c)\<lparr>negRiskGeneration := negRiskGeneration c + 1,
                  negRiskCache := (negRiskCache c)(tokenID \<mapsto> negRisk),
                  negRiskTimestamps := (negRiskTimestamps c)(tokenID \<mapsto> now)\<rparr>)"

definition SetFeeRate :: "string \<Rightarrow> 32 word \<Rightarrow> 'd client \<Rightarrow> 'd client" where
  "SetFeeRate tokenID fee c =
     c\<lparr>feeRateGeneration := feeRateGeneration c + 1, feeRateCache := (feeRateCache c)(tokenID \<mapsto> fee)\<rparr>"

definition clearOrderMetadata :: "string \<Rightarrow> 'd client \<Rightarrow> 'd client" where
  "clearOrderMetadata tokenID c =
     (let conditionID = (case orderConditionCache c tokenID of None \<Rightarrow> [] | Some k \<Rightarrow> k);
          c1 = c\<lparr>orderMetadataGeneration := orderMetadataGeneration c + 1,
                 orderConditionCache := (orderConditionCache c)(tokenID := None)\<rparr>
      in if conditionID \<noteq> []
         then c1\<lparr>orderMetadataCache := (orderMetadataCache c1)(conditionID := None)\<rparr>
         else c1)"

definition clearAllOrderMetadata :: "'d client \<Rightarrow> 'd client" where
  "clearAllOrderMetadata c =
     c\<lparr>orderMetadataGeneration := orderMetadataGeneration c + 1,
       orderConditionCache := Map.empty, orderMetadataCache := Map.empty, builderFeeCache := Map.empty\<rparr>"

definition ClearNegRiskCache :: "string \<Rightarrow> 'd client \<Rightarrow> 'd client" where
  "ClearNegRiskCache tokenID c =
     clearOrderMetadata tokenID
       (c\<lparr>negRiskGeneration := negRiskGeneration c + 1,
          negRiskCache := (negRiskCache c)(tokenID := None),
          negRiskTimestamps := (negRiskTimestamps c)(tokenID := None)\<rparr>)"

definition ClearTickSizeCache :: "string \<Rightarrow> 'd client \<Rightarrow> 'd client" where
  "ClearTickSizeCache tokenID c =
     (let c1 = c\<lparr>tickSizeGeneration := tickSizeGeneration c + 1,
                 tickSizeCache := (tickSizeCache c)(tokenID := None),
                 tickSizeTimestamps := (tickSizeTimestamps c)(tokenID := None)\<rparr>;
          c2 = c1\<lparr>negRiskGeneration := negRiskGeneration c1 + 1,
                  negRiskCache := (negRiskCache c1)(tokenID := None),
                  negRiskTimestamps := (negRiskTimestamps c1)(tokenID := None)\<rparr>
      in clearOrderMetadata tokenID c2)"

definition invalidateServerVersion :: "'d client \<Rightarrow> 'd client" where
  "invalidateServerVersion c = c\<lparr>cachedVersion := 0\<rparr>"

definition InvalidateCaches :: "'d client \<Rightarrow> 'd client" where
  "InvalidateCaches c =
     (let c1 = c\<lparr>feeRateGeneration := feeRateGeneration c + 1, feeRateCache := Map.empty\<rparr>;
          c2 = c1\<lparr>tickSizeGeneration := tickSizeGeneration c1 + 1, tickSizeCache := Map.empty,
                  tickSizeTimestamps := Map.empty\<rparr>;
          c3 = c2\<lparr>negRiskGeneration := negRiskGeneration c2 + 1, negRiskCache := Map.empty,
                  negRiskTimestamps := Map.empty\<rparr>
      in invalidateServerVersion (clearAllOrderMetadata c3))"

definition resolveServerVersion :: "'d env \<Rightarrow> bool \<Rightarrow> ('d client, 32 word) act" where
  "resolveServerVersion E force = (\<lambda>c.
     if \<not> force \<and> cachedVersion c \<noteq> 0 then (Inr (cachedVersion c), c)
     else bindE (interact (e_GetVersion E)) (\<lambda>version c'.
            (Inr version, c'\<lparr>cachedVersion := version\<rparr>)) c)"

definition GetFeeRate :: "'d env \<Rightarrow> string \<Rightarrow> ('d client, 32 word) act" where
  "GetFeeRate E tokenID =
     bindE (ctx_check E) (\<lambda>_ c.
       let generation = feeRateGeneration c
       in case feeRateCache c tokenID of
            Some cached \<Rightarrow> (Inr cached, c)
          | None \<Rightarrow>
              bindE (interact (\<lambda>n. e_GetFeeRate E n tokenID)) (\<lambda>out c'.
                (Inr out,
                 if generation = feeRateGeneration c'
                 then c'\<lparr>feeRateCache := (feeRateCache c')(tokenID \<mapsto> out)\<rparr> else c')) c)"

text \<open>\<open>time.Time{}\<close>, the time a missing map entry reads as: 1 January of year 1.\<close>

definition zeroTime :: int where
  "zeroTime = - 62135596800000000000"

text \<open>\<open>c.cacheTTL == 0 || time.Since(ts) < c.cacheTTL\<close>\<close>

definition fresh :: "'d env \<Rightarrow> int \<Rightarrow> 'd client \<Rightarrow> bool \<times> 'd client" where
  "fresh E ts c =
     (if cacheTTL c = 0 then (True, c) else (e_clock E (ticks c) - ts < cacheTTL c, tick c))"

definition cachedTickSize :: "'d env \<Rightarrow> string \<Rightarrow> 'd client \<Rightarrow> TickSize option \<times> 'd client" where
  "cachedTickSize E tokenID c =
     (case tickSizeCache c tokenID of
        None \<Rightarrow> (None, c)
      | Some cached \<Rightarrow>
          (let ts = (case tickSizeTimestamps c tokenID of None \<Rightarrow> zeroTime | Some t \<Rightarrow> t);
               (ok, c') = fresh E ts c
           in (if ok then Some cached else None, c')))"

definition cachedNegRisk :: "'d env \<Rightarrow> string \<Rightarrow> 'd client \<Rightarrow> bool option \<times> 'd client" where
  "cachedNegRisk E tokenID c =
     (case negRiskCache c tokenID of
        None \<Rightarrow> (None, c)
      | Some cached \<Rightarrow>
          (let ts = (case negRiskTimestamps c tokenID of None \<Rightarrow> zeroTime | Some t \<Rightarrow> t);
               (ok, c') = fresh E ts c
           in (if ok then Some cached else None, c')))"

text \<open>
  \<open>resolveTickSize\<close> and \<open>resolveNegRisk\<close> look the cache up with the same test as \<open>cachedTickSize\<close> and
  \<open>cachedNegRisk\<close>, having read the generation in the same critical section; the fetched value is stored only if
  the generation is still current.
\<close>

definition checkTickOption ::
  "'d udecimal_ops \<Rightarrow> CreateOrderOptions option \<Rightarrow> TickSize \<Rightarrow> TickSize result" where
  "checkTickOption U options marketTickSize =
     (case options of
        None \<Rightarrow> Inr marketTickSize
      | Some o' \<Rightarrow>
          if opt_TickSize o' = [] then Inr marketTickSize
          else rbind (wrap_err ''invalid tick size option'' (isTickSizeSmaller U (opt_TickSize o') marketTickSize))
                 (\<lambda>smaller. if smaller then Inl (Msg ''invalid tick size'') else Inr (opt_TickSize o')))"

definition resolveTickSize ::
  "'d env \<Rightarrow> string \<Rightarrow> CreateOrderOptions option \<Rightarrow> ('d client, TickSize) act" where
  "resolveTickSize E tokenID options = (\<lambda>c.
     let generation = tickSizeGeneration c;
         (hit, c1) = cachedTickSize E tokenID c
     in bindE
          (case hit of
             Some t \<Rightarrow> ret t
           | None \<Rightarrow>
               bindE (interact (\<lambda>n. e_GetTickSize E n tokenID)) (\<lambda>marketTickSize c2.
                 (Inr marketTickSize,
                  if generation = tickSizeGeneration c2
                  then (tick c2)\<lparr>tickSizeCache := (tickSizeCache c2)(tokenID \<mapsto> marketTickSize),
                           tickSizeTimestamps := (tickSizeTimestamps c2)(tokenID \<mapsto> e_clock E (ticks c2))\<rparr>
                  else c2)))
          (\<lambda>marketTickSize. lift (checkTickOption (e_U E) options marketTickSize)) c1)"

definition resolveNegRisk ::
  "'d env \<Rightarrow> string \<Rightarrow> CreateOrderOptions option \<Rightarrow> ('d client, bool) act" where
  "resolveNegRisk E tokenID options =
     (case Option.bind options opt_NegRisk of
        Some b \<Rightarrow> ret b
      | None \<Rightarrow> (\<lambda>c.
          let generation = negRiskGeneration c;
              (hit, c1) = cachedNegRisk E tokenID c
          in (case hit of
                Some b \<Rightarrow> ret b
              | None \<Rightarrow>
                  bindE (interact (\<lambda>n. e_GetNegRisk E n tokenID)) (\<lambda>negRisk c2.
                    (Inr negRisk,
                     if generation = negRiskGeneration c2
                     then (tick c2)\<lparr>negRiskCache := (negRiskCache c2)(tokenID \<mapsto> negRisk),
                              negRiskTimestamps := (negRiskTimestamps c2)(tokenID \<mapsto> e_clock E (ticks c2))\<rparr>
                     else c2))) c1))"

end
