(* ===== verification/SingleFlight.thy ===== *)
theory SingleFlight
  imports ClientState
begin

text \<open>
  The three metadata resolvers of the client share one protocol: under the lock, return a cached value, join a
  load that another goroutine has in flight, or register a new load and become its leader; the leader fetches without
  the lock and then, under the lock again, publishes the result, unregisters the load and stores the value if
  the cache generation has not moved.  This theory models that protocol for any number of goroutines as a step
  relation over the two critical sections, states what the sections promise as the locale
  \<open>single_flight\<close>, and proves the consequences once.  \<open>OrderMetadata\<close> interprets the locale on the three
  resolvers.
\<close>

section \<open>The protocol\<close>

datatype 'v flight = Hit 'v | Join nat bool | Lead nat "64 word"

text \<open>
  The interface: the key of a request, the generation counter, the stored values, the registered loads, the load objects, the next
  unused load number and the two critical sections.
\<close>

record ('s, 'q, 'k, 'v) flight_ops =
  fo_key :: "'q \<Rightarrow> 'k"
  fo_gen :: "'s \<Rightarrow> 64 word"
  fo_stored :: "'s \<Rightarrow> 'k \<rightharpoonup> 'v"
  fo_loads :: "'s \<Rightarrow> 'k \<rightharpoonup> nat"
  fo_heap :: "'s \<Rightarrow> nat \<rightharpoonup> 'v load"
  fo_next :: "'s \<Rightarrow> nat"
  fo_begin :: "'q \<Rightarrow> bool \<Rightarrow> 's \<Rightarrow> 'v flight \<times> 's"
  fo_finish :: "'q \<Rightarrow> nat \<Rightarrow> 64 word \<Rightarrow> 'v result \<Rightarrow> 's \<Rightarrow> 's"

text \<open>
  A goroutine: not in the call, at the head of the loop, waiting for a load (with the outcome of the generation
  comparison), fetching as leader, or back with a result.  \<open>Fetching\<close> also records the number of clearing
  operations before the fetch began; it has no effect on the protocol.
\<close>

datatype ('q, 'v) goroutine =
    Idle
  | AtLoop 'q bool
  | Waiting 'q bool nat bool
  | Fetching 'q nat "64 word" nat
  | Returned 'q "'v result"

text \<open>\<open>errors.Is(err, context.Canceled) || errors.Is(err, context.DeadlineExceeded)\<close>\<close>

definition ctx_failure :: "go_error \<Rightarrow> bool" where
  "ctx_failure e \<longleftrightarrow> errors_is e CtxCanceled \<or> errors_is e CtxDeadlineExceeded"

text \<open>
  The system: the shared state, the goroutines, and two ghost histories, the number of clearing operations so
  far and, per key, the fetch that produced the stored value and the last clearing operation that dropped it.
\<close>

record ('s, 'q, 'k, 'v) flight_sys =
  fs_shared :: 's
  fs_threads :: "nat \<Rightarrow> ('q, 'v) goroutine"
  fs_clears :: nat
  fs_origin :: "'k \<Rightarrow> nat"
  fs_cleared :: "'k \<Rightarrow> nat"

inductive flight_step ::
  "('s, 'q, 'k, 'v) flight_ops \<Rightarrow> ('k set \<Rightarrow> 's \<Rightarrow> 's \<Rightarrow> bool) \<Rightarrow>
   ('s, 'q, 'k, 'v) flight_sys \<Rightarrow> ('s, 'q, 'k, 'v) flight_sys \<Rightarrow> bool"
  for F clr where
  call: "fs_threads s i = Idle \<Longrightarrow>
     flight_step F clr s (s\<lparr>fs_threads := (fs_threads s)(i := AtLoop k force)\<rparr>)"
| hit: "fs_threads s i = AtLoop k force \<Longrightarrow> fo_begin F k force (fs_shared s) = (Hit v, sh) \<Longrightarrow>
     flight_step F clr s (s\<lparr>fs_shared := sh, fs_threads := (fs_threads s)(i := Returned k (Inr v))\<rparr>)"
| join: "fs_threads s i = AtLoop k force \<Longrightarrow> fo_begin F k force (fs_shared s) = (Join l same, sh) \<Longrightarrow>
     flight_step F clr s (s\<lparr>fs_shared := sh, fs_threads := (fs_threads s)(i := Waiting k force l same)\<rparr>)"
| lead: "fs_threads s i = AtLoop k force \<Longrightarrow> fo_begin F k force (fs_shared s) = (Lead l g, sh) \<Longrightarrow>
     flight_step F clr s
       (s\<lparr>fs_shared := sh, fs_threads := (fs_threads s)(i := Fetching k l g (fs_clears s))\<rparr>)"
| wait_retry: "fs_threads s i = Waiting k force l same \<Longrightarrow> fo_heap F (fs_shared s) l = Some ld \<Longrightarrow>
     ld_result ld = Some r \<Longrightarrow> \<not> same \<or> (\<exists>e. r = Inl e \<and> ctx_failure e) \<Longrightarrow>
     flight_step F clr s (s\<lparr>fs_threads := (fs_threads s)(i := AtLoop k force)\<rparr>)"
| wait_done: "fs_threads s i = Waiting k force l True \<Longrightarrow> fo_heap F (fs_shared s) l = Some ld \<Longrightarrow>
     ld_result ld = Some r \<Longrightarrow>
     flight_step F clr s (s\<lparr>fs_threads := (fs_threads s)(i := Returned k r)\<rparr>)"
| wait_cancelled: "fs_threads s i = Waiting k force l same \<Longrightarrow> ctx_failure e \<Longrightarrow>
     flight_step F clr s (s\<lparr>fs_threads := (fs_threads s)(i := Returned k (Inl e))\<rparr>)"
| complete: "fs_threads s i = Fetching k l g b \<Longrightarrow>
     flight_step F clr s
       (s\<lparr>fs_shared := fo_finish F k l g r (fs_shared s),
          fs_threads := (fs_threads s)(i := Returned k r),
          fs_origin := (if (\<exists>v. r = Inr v) \<and> g = fo_gen F (fs_shared s)
                        then (fs_origin s)(fo_key F k := b) else fs_origin s)\<rparr>)"
| clear: "clr K (fs_shared s) sh \<Longrightarrow>
     flight_step F clr s
       (s\<lparr>fs_shared := sh, fs_clears := Suc (fs_clears s),
          fs_cleared := (\<lambda>k. if k \<in> K then Suc (fs_clears s) else fs_cleared s k)\<rparr>)"
| foreign: "fo_gen F sh = fo_gen F (fs_shared s) \<Longrightarrow> fo_loads F sh = fo_loads F (fs_shared s) \<Longrightarrow>
     fo_heap F sh = fo_heap F (fs_shared s) \<Longrightarrow> fo_next F (fs_shared s) \<le> fo_next F sh \<Longrightarrow>
     (\<And>k. k \<notin> K \<Longrightarrow> fo_stored F sh k \<noteq> None \<Longrightarrow> fo_stored F sh k = fo_stored F (fs_shared s) k) \<Longrightarrow>
     b \<le> fs_clears s \<Longrightarrow> of_nat b = fo_gen F (fs_shared s) \<Longrightarrow>
     flight_step F clr s
       (s\<lparr>fs_shared := sh, fs_origin := (\<lambda>k. if k \<in> K then b else fs_origin s k)\<rparr>)"

inductive_cases flight_stepE: "flight_step F clr s t"

text \<open>Runs start with no goroutine in the call, no load registered, nothing stored and generation zero.\<close>

definition flight_init :: "('s, 'q, 'k, 'v) flight_ops \<Rightarrow> ('s, 'q, 'k, 'v) flight_sys \<Rightarrow> bool" where
  "flight_init F s \<longleftrightarrow>
     (\<forall>i. fs_threads s i = Idle) \<and> (\<forall>k. fo_loads F (fs_shared s) k = None) \<and>
     (\<forall>l. fo_heap F (fs_shared s) l = None) \<and> (\<forall>k. fo_stored F (fs_shared s) k = None) \<and>
     fo_gen F (fs_shared s) = 0 \<and> fs_clears s = 0 \<and> (\<forall>k. fs_cleared s k = 0)"

inductive flight_reachable ::
  "('s, 'q, 'k, 'v) flight_ops \<Rightarrow> ('k set \<Rightarrow> 's \<Rightarrow> 's \<Rightarrow> bool) \<Rightarrow> ('s, 'q, 'k, 'v) flight_sys \<Rightarrow> bool"
  for F clr where
  init: "flight_init F s \<Longrightarrow> flight_reachable F clr s"
| step: "flight_reachable F clr s \<Longrightarrow> flight_step F clr s t \<Longrightarrow> flight_reachable F clr t"

section \<open>The contract of the critical sections\<close>

locale single_flight =
  fixes F :: "('s, 'q, 'k, 'v) flight_ops" and clr :: "'k set \<Rightarrow> 's \<Rightarrow> 's \<Rightarrow> bool"
  assumes begin_hit: "fo_begin F k force s = (Hit v, s') \<Longrightarrow>
      fo_stored F s (fo_key F k) = Some v \<and> \<not> force \<and> fo_stored F s' = fo_stored F s \<and>
      fo_loads F s' = fo_loads F s \<and> fo_heap F s' = fo_heap F s \<and> fo_gen F s' = fo_gen F s \<and>
      fo_next F s' = fo_next F s"
    and begin_join: "fo_begin F k force s = (Join l same, s') \<Longrightarrow>
      fo_loads F s (fo_key F k) = Some l \<and>
      (\<forall>ld. fo_heap F s l = Some ld \<longrightarrow> same = (ld_generation ld = fo_gen F s)) \<and>
      fo_stored F s' = fo_stored F s \<and> fo_loads F s' = fo_loads F s \<and> fo_heap F s' = fo_heap F s \<and>
      fo_gen F s' = fo_gen F s \<and> fo_next F s' = fo_next F s"
    and begin_lead: "fo_begin F k force s = (Lead l g, s') \<Longrightarrow>
      fo_loads F s (fo_key F k) = None \<and> l = fo_next F s \<and> g = fo_gen F s \<and>
      fo_loads F s' = (fo_loads F s)(fo_key F k \<mapsto> l) \<and>
      fo_heap F s' = (fo_heap F s)(l \<mapsto> \<lparr>ld_result = None, ld_generation = g\<rparr>) \<and>
      fo_stored F s' = fo_stored F s \<and> fo_gen F s' = fo_gen F s \<and> fo_next F s' = Suc l"
    and finish_loads: "fo_loads F (fo_finish F k l g r s) =
      (if fo_loads F s (fo_key F k) = Some l then (fo_loads F s)(fo_key F k := None) else fo_loads F s)"
    and finish_heap: "fo_heap F (fo_finish F k l g r s) =
      (case fo_heap F s l of None \<Rightarrow> fo_heap F s
       | Some ld \<Rightarrow> (fo_heap F s)(l \<mapsto> ld\<lparr>ld_result := Some r\<rparr>))"
    and finish_stored: "fo_stored F (fo_finish F k l g r s) =
      (case r of Inr v \<Rightarrow> if g = fo_gen F s then (fo_stored F s)(fo_key F k \<mapsto> v) else fo_stored F s
       | Inl _ \<Rightarrow> fo_stored F s)"
    and finish_gen: "fo_gen F (fo_finish F k l g r s) = fo_gen F s"
    and finish_next: "fo_next F (fo_finish F k l g r s) = fo_next F s"
    and clear_law: "clr K s s' \<Longrightarrow>
      fo_gen F s' = fo_gen F s + 1 \<and> fo_loads F s' = fo_loads F s \<and> fo_heap F s' = fo_heap F s \<and>
      fo_stored F s' = (fo_stored F s) |` (- K) \<and> fo_next F s' = fo_next F s"
begin

lemmas finish_laws = finish_loads finish_heap finish_stored finish_gen finish_next

text \<open>
  The registered load of a key and its leader determine each other; a goroutine waits only for a load that is
  finished or still registered.
\<close>

definition flight_inv :: "('s, 'q, 'k, 'v) flight_sys \<Rightarrow> bool" where
  "flight_inv s \<longleftrightarrow>
     (\<forall>l. fo_heap F (fs_shared s) l \<noteq> None \<longrightarrow> l < fo_next F (fs_shared s)) \<and>
     (\<forall>i k l g b. fs_threads s i = Fetching k l g b \<longrightarrow>
        fo_loads F (fs_shared s) (fo_key F k) = Some l \<and>
        fo_heap F (fs_shared s) l = Some \<lparr>ld_result = None, ld_generation = g\<rparr>) \<and>
     (\<forall>i j k k' l g g' b b'. fs_threads s i = Fetching k l g b \<longrightarrow>
        fs_threads s j = Fetching k' l g' b' \<longrightarrow> i = j) \<and>
     (\<forall>k l. fo_loads F (fs_shared s) k = Some l \<longrightarrow>
        (\<exists>i q g b. fs_threads s i = Fetching q l g b \<and> fo_key F q = k)) \<and>
     (\<forall>i k force l same. fs_threads s i = Waiting k force l same \<longrightarrow>
        (\<exists>ld. fo_heap F (fs_shared s) l = Some ld \<and>
           (ld_result ld = None \<longrightarrow> fo_loads F (fs_shared s) (fo_key F k) = Some l)))"

lemma inv_heap: "flight_inv s \<Longrightarrow> fo_heap F (fs_shared s) l \<noteq> None \<Longrightarrow> l < fo_next F (fs_shared s)"
  and inv_reg: "flight_inv s \<Longrightarrow> fs_threads s i = Fetching k l g b \<Longrightarrow>
        fo_loads F (fs_shared s) (fo_key F k) = Some l"
  and inv_obj: "flight_inv s \<Longrightarrow> fs_threads s i = Fetching k l g b \<Longrightarrow>
        fo_heap F (fs_shared s) l = Some \<lparr>ld_result = None, ld_generation = g\<rparr>"
  and inv_uniq: "flight_inv s \<Longrightarrow> fs_threads s i = Fetching k l g b \<Longrightarrow>
        fs_threads s j = Fetching k' l g' b' \<Longrightarrow> i = j"
  and inv_leader: "flight_inv s \<Longrightarrow> fo_loads F (fs_shared s) key = Some l \<Longrightarrow>
        \<exists>i q g b. fs_threads s i = Fetching q l g b \<and> fo_key F q = key"
  and inv_wait: "flight_inv s \<Longrightarrow> fs_threads s i = Waiting k force l same \<Longrightarrow>
        \<exists>ld. fo_heap F (fs_shared s) l = Some ld \<and>
           (ld_result ld = None \<longrightarrow> fo_loads F (fs_shared s) (fo_key F k) = Some l)"
  unfolding flight_inv_def by simp_all blast+

text \<open>A step that keeps the registered loads, the load objects and the leaders keeps the invariant.\<close>

lemma flight_inv_frame:
  assumes inv: "flight_inv s"
    and sh: "fo_loads F (fs_shared t) = fo_loads F (fs_shared s)" "fo_heap F (fs_shared t) = fo_heap F (fs_shared s)"
      "fo_next F (fs_shared s) \<le> fo_next F (fs_shared t)"
    and th: "\<And>i k l g b. fs_threads t i = Fetching k l g b \<longleftrightarrow> fs_threads s i = Fetching k l g b"
    and wt: "\<And>i k force l same. fs_threads t i = Waiting k force l same \<Longrightarrow>
        fs_threads s i = Waiting k force l same \<or> fo_loads F (fs_shared s) (fo_key F k) = Some l"
  shows "flight_inv t"
  unfolding flight_inv_def
proof (intro conjI allI impI)
  fix i k force l same assume "fs_threads t i = Waiting k force l same"
  from wt [OF this] show "\<exists>ld. fo_heap F (fs_shared t) l = Some ld \<and>
      (ld_result ld = None \<longrightarrow> fo_loads F (fs_shared t) (fo_key F k) = Some l)"
  proof
    assume "fs_threads s i = Waiting k force l same"
    then show ?thesis using inv_wait [OF inv] sh by simp
  next
    assume l: "fo_loads F (fs_shared s) (fo_key F k) = Some l"
    then obtain j q g b where "fs_threads s j = Fetching q l g b" using inv_leader [OF inv] by blast
    then show ?thesis using inv_obj [OF inv] l sh by simp
  qed
next
  show "fo_loads F (fs_shared t) k = Some l \<Longrightarrow>
      \<exists>i q g b. fs_threads t i = Fetching q l g b \<and> fo_key F q = k" for k l
    using inv_leader [OF inv] sh th by simp
next
  show "fs_threads t i = Fetching k l g b \<Longrightarrow> fs_threads t j = Fetching k' l g' b' \<Longrightarrow> i = j"
    for i j k k' l g g' b b'
    using inv_uniq [OF inv] th by blast
next
  fix l assume "fo_heap F (fs_shared t) l \<noteq> None"
  then show "l < fo_next F (fs_shared t)" using inv_heap [OF inv] sh by (metis less_le_trans)
qed (use inv_reg [OF inv] inv_obj [OF inv] sh th in simp_all)

lemma flight_inv_lead:
  assumes inv: "flight_inv s" and i: "fs_threads s i = AtLoop k force"
    and b: "fo_begin F k force (fs_shared s) = (Lead l g, sh)"
  shows "flight_inv (s\<lparr>fs_shared := sh, fs_threads := (fs_threads s)(i := Fetching k l g n)\<rparr>)"
proof -
  note B = begin_lead [OF b]
  have new: "fo_heap F (fs_shared s) l = None" using inv_heap [OF inv, of l] B by (metis less_irrefl)
  have l': "fs_threads s j = Fetching k' l' g' b' \<Longrightarrow> l' \<noteq> l \<and> fo_key F k' \<noteq> fo_key F k" for j k' l' g' b'
    using inv_reg [OF inv, of j] inv_obj [OF inv, of j] new B by auto
  show ?thesis
    unfolding flight_inv_def
  proof (intro conjI allI impI, goal_cases)
    case (1 l')
    then show ?case using inv_heap [OF inv, of l'] B by (auto split: if_splits)
  next
    case (2 j k' l' g' b')
    then show ?case using inv_reg [OF inv, of j] l' [of j] B by (auto split: if_splits)
  next
    case (3 j k' l' g' b')
    then show ?case using inv_obj [OF inv, of j] l' [of j] B by (auto split: if_splits)
  next
    case (4 j j' k1 k2 l' g1 g2 b1 b2)
    then show ?case by (auto split: if_splits dest: l' inv_uniq [OF inv])
  next
    case (5 k' l')
    then have reg: "((fo_loads F (fs_shared s))(fo_key F k \<mapsto> l)) k' = Some l'" using B by simp
    show ?case
    proof (cases "k' = fo_key F k")
      case True
      then show ?thesis using reg by (intro exI [of _ i]) simp
    next
      case False
      then obtain j q g' b' where "fs_threads s j = Fetching q l' g' b'" "fo_key F q = k'"
        using reg inv_leader [OF inv, of k' l'] by auto
      moreover from this(1) have "j \<noteq> i" using i by auto
      ultimately show ?thesis by (intro exI [of _ j]) simp
    qed
  next
    case (6 j k' f' l' same)
    then have "fs_threads s j = Waiting k' f' l' same" by (auto split: if_splits)
    from inv_wait [OF inv this] obtain ld where "fo_heap F (fs_shared s) l' = Some ld"
      "ld_result ld = None \<longrightarrow> fo_loads F (fs_shared s) (fo_key F k') = Some l'" by (elim exE conjE)
    then show ?case using B new by auto
  qed
qed

lemma flight_inv_complete:
  assumes inv: "flight_inv s" and i: "fs_threads s i = Fetching k l g b"
  shows "flight_inv (s\<lparr>fs_shared := fo_finish F k l g r (fs_shared s),
      fs_threads := (fs_threads s)(i := Returned k r), fs_origin := org\<rparr>)"
proof -
  have reg: "fo_loads F (fs_shared s) (fo_key F k) = Some l"
    "fo_heap F (fs_shared s) l = Some \<lparr>ld_result = None, ld_generation = g\<rparr>"
    using inv_reg [OF inv i] inv_obj [OF inv i] by auto
  have l': "fs_threads s j = Fetching k' l' g' b' \<Longrightarrow> j \<noteq> i \<Longrightarrow> l' \<noteq> l \<and> fo_key F k' \<noteq> fo_key F k" for j k' l' g' b'
    using inv_uniq [OF inv i, of j] inv_reg [OF inv, of j] reg(1) by fastforce
  show ?thesis
    unfolding flight_inv_def
  proof (intro conjI allI impI, goal_cases)
    case (1 l')
    then show ?case using inv_heap [OF inv] reg by (auto simp: finish_laws split: if_splits)
  next
    case (2 j k' l' g' b')
    then show ?case
      using inv_reg [OF inv, of j] l' [of j] reg by (auto simp: finish_laws split: if_splits)
  next
    case (3 j k' l' g' b')
    then show ?case
      using inv_obj [OF inv, of j] l' [of j] reg by (auto simp: finish_laws split: if_splits)
  next
    case (4 j j' k1 k2 l' g1 g2 b1 b2)
    then show ?case using inv_uniq [OF inv] by (auto split: if_splits)
  next
    case (5 k' l')
    then have "fo_loads F (fs_shared s) k' = Some l'" "k' \<noteq> fo_key F k"
      using reg by (auto simp: finish_laws split: if_splits)
    then obtain j q g' b' where j: "fs_threads s j = Fetching q l' g' b'" "fo_key F q = k'" and "j \<noteq> i"
      using inv_leader [OF inv, of k' l'] i by force
    then show ?case by (intro exI [of _ j]) simp
  next
    case (6 j k' f' l' same)
    then have "fs_threads s j = Waiting k' f' l' same" by (auto split: if_splits)
    from inv_wait [OF inv this] obtain ld where "fo_heap F (fs_shared s) l' = Some ld"
      "ld_result ld = None \<longrightarrow> fo_loads F (fs_shared s) (fo_key F k') = Some l'" by (elim exE conjE)
    then show ?case using reg by (auto simp: finish_laws)
  qed
qed

lemma flight_step_inv:
  assumes "flight_step F clr s t" "flight_inv s"
  shows "flight_inv t"
  using assms
proof (cases rule: flight_step.cases)
  case (lead i k force l g sh)
  then show ?thesis using flight_inv_lead assms(2) by simp
next
  case (complete i k l g b r)
  then show ?thesis using flight_inv_complete assms(2) by simp
qed (use assms(2) in \<open>auto intro!: flight_inv_frame [OF assms(2)] dest: begin_hit begin_join clear_law
      split: if_splits\<close>)

lemma flight_reachable_inv: "flight_reachable F clr s \<Longrightarrow> flight_inv s"
proof (induction rule: flight_reachable.induct)
  case (init s)
  then show ?case by (auto simp: flight_init_def flight_inv_def)
next
  case (step s t)
  then show ?case using flight_step_inv by blast
qed

lemma one_leader:
  assumes "flight_reachable F clr s"
    and "fs_threads s i = Fetching k l g b" "fs_threads s j = Fetching k' l' g' b'"
    and "fo_key F k = fo_key F k'"
  shows "i = j"
proof -
  note inv = flight_reachable_inv [OF assms(1)]
  have "l = l'" using inv_reg [OF inv assms(2)] inv_reg [OF inv assms(3)] assms(4) by simp
  then show ?thesis using inv_uniq [OF inv] assms(2,3) by blast
qed

lemma waiter_has_leader:
  assumes "flight_reachable F clr s" "fs_threads s i = Waiting k force l same"
  shows "(\<exists>ld r. fo_heap F (fs_shared s) l = Some ld \<and> ld_result ld = Some r) \<or>
    (\<exists>j q g b. fs_threads s j = Fetching q l g b \<and> fo_key F q = fo_key F k)"
proof -
  note inv = flight_reachable_inv [OF assms(1)]
  obtain ld where "fo_heap F (fs_shared s) l = Some ld"
    "ld_result ld = None \<longrightarrow> fo_loads F (fs_shared s) (fo_key F k) = Some l"
    using inv_wait [OF inv assms(2)] by (elim exE conjE)
  then show ?thesis using inv_leader [OF inv, of "fo_key F k" l] by (cases "ld_result ld") auto
qed

text \<open>Clearing and staleness: below \<open>2^64\<close> clearing operations, the generation counts them.\<close>

definition clear_inv :: "('s, 'q, 'k, 'v) flight_sys \<Rightarrow> bool" where
  "clear_inv s \<longleftrightarrow>
     fo_gen F (fs_shared s) = of_nat (fs_clears s) \<and> (\<forall>k. fs_cleared s k \<le> fs_clears s) \<and>
     (\<forall>i k l g b. fs_threads s i = Fetching k l g b \<longrightarrow> b \<le> fs_clears s \<and> g = of_nat b) \<and>
     (\<forall>k. fs_clears s < 2 ^ 64 \<longrightarrow> fo_stored F (fs_shared s) k \<noteq> None \<longrightarrow>
        fs_cleared s k \<le> fs_origin s k)"

lemma of_nat_word64_inj:
  assumes "of_nat a = (of_nat b :: 64 word)" "a \<le> b" "b < 2 ^ 64"
  shows "a = b"
proof -
  have lt: "a < 2 ^ LENGTH(64)" "b < 2 ^ LENGTH(64)" using assms(2,3) by simp_all
  have "a = unat (of_nat a :: 64 word)" by (rule of_nat_inverse [OF refl lt(1), symmetric])
  also have "\<dots> = unat (of_nat b :: 64 word)" by (rule arg_cong [OF assms(1)])
  also have "\<dots> = b" by (rule of_nat_inverse [OF refl lt(2)])
  finally show ?thesis .
qed

lemma flight_step_clear_inv:
  assumes st: "flight_step F clr s t" and inv: "clear_inv s"
  shows "clear_inv t"
  using st
proof (cases rule: flight_step.cases)
  case (hit i k force v sh)
  then show ?thesis using inv begin_hit [of k force "fs_shared s" v sh]
    by (auto simp: clear_inv_def split: if_splits)
next
  case (join i k force l same sh)
  then show ?thesis using inv begin_join [of k force "fs_shared s" l same sh]
    by (auto simp: clear_inv_def split: if_splits)
next
  case (lead i k force l g sh)
  then show ?thesis using inv begin_lead [of k force "fs_shared s" l g sh]
    by (auto simp: clear_inv_def split: if_splits)
next
  case (complete i k l g b r)
  have b: "b \<le> fs_clears s" "g = of_nat b" using inv complete(2) unfolding clear_inv_def by blast+
  have c: "fs_cleared s (fo_key F k) \<le> b" if "g = fo_gen F (fs_shared s)" "fs_clears s < 2 ^ 64"
  proof -
    have "of_nat b = (of_nat (fs_clears s) :: 64 word)" "fs_cleared s (fo_key F k) \<le> fs_clears s"
      using that(1) b(2) inv unfolding clear_inv_def by auto
    moreover from this(1) have "b = fs_clears s" using b(1) that(2) by (rule of_nat_word64_inj)
    ultimately show ?thesis by simp
  qed
  show ?thesis
    unfolding clear_inv_def complete
  proof (intro conjI allI impI, goal_cases)
    case (5 k')
    then show ?case using c inv by (cases r) (auto simp: clear_inv_def finish_laws split: if_splits)
  qed (use inv in \<open>auto simp: clear_inv_def finish_laws split: if_splits\<close>)
next
  case (clear K sh)
  then show ?thesis using inv clear_law [OF clear(2)]
    by (auto simp: clear_inv_def restrict_map_def le_Suc_eq split: if_splits)
next
  case (foreign sh K b)
  have "fs_cleared s k \<le> b" if "fs_clears s < 2 ^ 64" for k
  proof -
    have "of_nat b = (of_nat (fs_clears s) :: 64 word)" "fs_cleared s k \<le> fs_clears s"
      using foreign inv unfolding clear_inv_def by auto
    moreover from this(1) have "b = fs_clears s" using foreign that by (intro of_nat_word64_inj)
    ultimately show ?thesis by simp
  qed
  then show ?thesis using inv foreign by (auto simp: clear_inv_def)
qed (use inv in \<open>auto simp: clear_inv_def split: if_splits\<close>)

lemma stored_after_clear:
  assumes "flight_reachable F clr s" "fs_clears s < 2 ^ 64" "fo_stored F (fs_shared s) k = Some v"
  shows "fs_cleared s k \<le> fs_origin s k"
proof -
  from assms(1) have "clear_inv s"
  proof (induction rule: flight_reachable.induct)
    case (init s)
    then show ?case by (simp add: flight_init_def clear_inv_def)
  next
    case (step s t)
    then show ?case using flight_step_clear_inv by blast
  qed
  then show ?thesis using assms(2,3) by (auto simp: clear_inv_def)
qed

end

end
