(* ===== verification/Dec19.thy ===== *)
theory Dec19
  imports Decimals
begin

text \<open>
  A model of the decimal laws: an integer number of \<open>10^-19\<close>, whose precision is the number of decimal
  places left after removing trailing zeros.  The interpretation \<open>dec19\<close> discharges the laws; witnesses run the
  order code on it.
\<close>

datatype dec = Dec int

fun units :: "dec \<Rightarrow> int" where
  "units (Dec c) = c"

definition dscale :: int where
  "dscale = 10 ^ 19"

definition dval :: "dec \<Rightarrow> rat" where
  "dval d = of_int (units d) / of_int dscale"

definition sdiv :: "int \<Rightarrow> int \<Rightarrow> int" where
  "sdiv a b = sgn a * sgn b * (\<bar>a\<bar> div \<bar>b\<bar>)"

definition dprec :: "dec \<Rightarrow> nat" where
  "dprec d = hd (filter (\<lambda>p. 10 ^ (19 - p) dvd units d) [0..<20])"

definition dround :: "(int \<Rightarrow> int \<Rightarrow> int) \<Rightarrow> dec \<Rightarrow> nat \<Rightarrow> dec" where
  "dround rnd d p =
     (if 19 \<le> p then d
      else Dec (sgn (units d) * (rnd \<bar>units d\<bar> (10 ^ (19 - p))) * 10 ^ (19 - p)))"

definition dmul :: "dec \<Rightarrow> dec \<Rightarrow> dec" where
  "dmul a b = Dec (sdiv (units a * units b) dscale)"

definition dparse :: "string \<Rightarrow> dec result" where
  "dparse s =
     (case decimal_numeral s of
        None \<Rightarrow> Inl (Remote 0)
      | Some (x, k) \<Rightarrow> if k \<le> 19 then Inr (Dec \<lfloor>x * of_int dscale\<rfloor>) else Inl (Remote 1))"

definition dstring :: "dec \<Rightarrow> string" where
  "dstring d =
     (let t = show_nat (nat \<bar>units d\<bar>); ds = replicate (20 - length t) (CHR ''0'') @ t;
          n = length ds - 19; body = take n ds @ CHR ''.'' # drop n ds
      in if units d < 0 then CHR ''-'' # body else body)"

definition dec19_ops :: "dec udecimal_ops" where
  "dec19_ops =
     \<lparr>u_zero = Dec 0,
      u_from_int64 = (\<lambda>v p. Dec (v * 10 ^ (19 - p))),
      u_parse = dparse,
      u_add = (\<lambda>a b. Dec (units a + units b)),
      u_sub = (\<lambda>a b. Dec (units a - units b)),
      u_mul = dmul,
      u_div = (\<lambda>a b. if units b = 0 then Inl (Remote 2)
                      else Inr (Dec (sdiv (units a * dscale) (units b)))),
      u_mod = (\<lambda>a b. if units b = 0 then Inl (Remote 2)
                      else Inr (Dec (units a - units b * sdiv (units a) (units b)))),
      u_pow_int = (\<lambda>a n. (dmul a ^^ nat n) (Dec dscale)),
      u_trunc = dround (\<lambda>x m. x div m),
      u_round_haz = dround (\<lambda>x m. (2 * x + m) div (2 * m)),
      u_round_away = dround (\<lambda>x m. - (- x div m)),
      u_cmp = (\<lambda>a b. sgn (units a - units b)),
      u_is_zero = (\<lambda>a. units a = 0),
      u_prec = dprec,
      u_string = dstring,
      u_string_fixed = (\<lambda>a p. show_int (units a div dscale))\<rparr>"

section \<open>Rounding in units\<close>

lemma dscale_pos [simp]: "0 < dscale" "dscale \<noteq> 0"
  by (simp_all add: dscale_def)

lemma dscale_pow: "(10::rat) ^ 19 = of_int dscale"
  by (simp add: dscale_def)

lemma dscale_split: "p \<le> 19 \<Longrightarrow> (of_int dscale :: rat) = 10 ^ (19 - p) * 10 ^ p"
  by (metis dscale_pow le_add_diff_inverse2 power_add)

lemma trunc_to_shift: "trunc_to p x = trunc_to 0 (x * 10 ^ p) / 10 ^ p"
  by (simp add: trunc_to_def quantize_def sgn_mult abs_mult)

lemma trunc_to_19: "trunc_to 19 x = trunc_to 0 (x * of_int dscale) / of_int dscale"
  by (subst trunc_to_shift) (simp only: dscale_pow)

lemma on_grid_19: "on_grid 19 x \<longleftrightarrow> x * of_int dscale \<in> \<int>"
  by (simp only: on_grid_def dscale_pow)

lemma dval_on_grid_19 [simp]: "on_grid 19 (dval d)"
  by (simp add: on_grid_19 dval_def)

lemma trunc_to_quotient:
  assumes "b \<noteq> 0"
  shows "trunc_to 0 (of_int a / of_int b) = of_int (sdiv a b)"
proof -
  have "\<lfloor>\<bar>of_int a / of_int b :: rat\<bar>\<rfloor> = \<bar>a\<bar> div \<bar>b\<bar>"
    by (metis abs_divide floor_divide_of_int_eq of_int_abs)
  moreover have "sgn (of_int a / of_int b :: rat) = of_int (sgn a * sgn b)"
    by (auto simp: sgn_if zero_less_divide_iff divide_less_0_iff)
  ultimately show ?thesis by (simp add: trunc_to_def quantize_def sdiv_def)
qed

lemma dval_dround:
  assumes "\<And>x m. 0 < m \<Longrightarrow> rnd x m = f (of_int x / of_int m)" "\<And>k. f (of_int k) = k"
  shows "dval (dround rnd d p) = quantize f p (dval d)"
proof (cases "19 \<le> p")
  case True
  have "on_grid p (dval d)" using dval_on_grid_19 True by (rule on_grid_mono)
  then have "quantize f p (dval d) = dval d" using assms(2) by (rule quantize_on_grid)
  with True show ?thesis by (simp add: dround_def)
next
  case False
  define q where "q = 19 - p"
  have e: "(of_int dscale :: rat) = 10 ^ q * 10 ^ p" using False by (simp add: q_def dscale_split)
  have "\<bar>dval d\<bar> * 10 ^ p = of_int \<bar>units d\<bar> / of_int (10 ^ q)"
    by (simp add: dval_def e)
  then have "f (\<bar>dval d\<bar> * 10 ^ p) = rnd \<bar>units d\<bar> (10 ^ q)" by (simp add: assms(1))
  moreover have "sgn (dval d) = of_int (sgn (units d))"
    by (simp add: dval_def sgn_divide) (simp add: sgn_if)
  moreover have "dround rnd d p = Dec (sgn (units d) * rnd \<bar>units d\<bar> (10 ^ q) * 10 ^ q)"
    using False by (simp add: dround_def q_def)
  ultimately show ?thesis by (simp add: dval_def quantize_def e)
qed

lemma dprec_grid: "on_grid (dprec d) (dval d)" and dprec_le: "dprec d \<le> 19"
  and dprec_least: "on_grid p (dval d) \<Longrightarrow> dprec d \<le> p"
proof -
  let ?ok = "\<lambda>p. 10 ^ (19 - p) dvd units d"
  have in19: "19 \<in> set (filter ?ok [0..<20])" by simp
  have grid: "on_grid p (dval d) \<longleftrightarrow> ?ok p" if "p \<le> 19" for p
  proof -
    have e: "(of_int dscale :: rat) = 10 ^ (19 - p) * 10 ^ p" using that by (rule dscale_split)
    have "dval d * 10 ^ p = of_int (units d) / of_int (10 ^ (19 - p))" by (simp add: dval_def e)
    then show ?thesis
      by (metis on_grid_def of_int_div_of_int_in_Ints_iff power_not_zero zero_neq_numeral)
  qed
  have mem: "dprec d \<in> set (filter ?ok [0..<20])"
    unfolding dprec_def by (rule hd_in_set) (use in19 in force)
  then show le: "dprec d \<le> 19" and "on_grid (dprec d) (dval d)" by (auto simp: grid)
  assume "on_grid p (dval d)"
  then show "dprec d \<le> p"
  proof (cases "p \<le> 19")
    case True
    with \<open>on_grid p (dval d)\<close> have p: "p \<in> set (filter ?ok [0..<20])" by (simp add: grid)
    have "sorted (filter ?ok [0..<20])" by (rule sorted_wrt_filter) simp
    then have "\<forall>x \<in> set (filter ?ok [0..<20]). hd (filter ?ok [0..<20]) \<le> x"
      by (cases "filter ?ok [0..<20]") auto
    with p show ?thesis unfolding dprec_def by blast
  qed (use le in simp)
qed

section \<open>Printing\<close>

lemma read_digits_all:
  "read_digits b acc s = Some n \<Longrightarrow> list_all (\<lambda>c. digit_value c \<noteq> None \<and> the (digit_value c) < b) s"
  by (induction s arbitrary: acc) (auto split: option.splits if_splits)

lemma dot_not_digit: "list_all (\<lambda>c. digit_value c \<noteq> None \<and> the (digit_value c) < b) s \<Longrightarrow>
    CHR ''.'' \<notin> set s"
  by (auto simp: list_all_iff digit_value_def)

lemma numeral_of_digits:
  assumes "read_digits 10 0 ds = Some n" "20 \<le> length ds"
  defines "m \<equiv> length ds - 19"
  shows "unsigned_numeral (take m ds @ CHR ''.'' # drop m ds) = Some (n, 19)"
proof -
  have "CHR ''.'' \<notin> set ds" using read_digits_all [OF assms(1)] by (rule dot_not_digit)
  then have "\<forall>c \<in> set (take m ds). c \<noteq> CHR ''.''" by (auto dest: in_set_takeD)
  then have "takeWhile (\<lambda>c. c \<noteq> CHR ''.'') (take m ds @ CHR ''.'' # drop m ds) = take m ds"
    and "dropWhile (\<lambda>c. c \<noteq> CHR ''.'') (take m ds @ CHR ''.'' # drop m ds) = CHR ''.'' # drop m ds"
    by (simp_all add: takeWhile_append2 dropWhile_append2)
  moreover have "take m ds \<noteq> []" "drop m ds \<noteq> []" "ds \<noteq> []" "length (drop m ds) = 19"
    using assms(2) by (auto simp: m_def)
  ultimately show ?thesis
    using assms(1) by (simp add: unsigned_numeral_def Let_def read_base_def)
qed

lemma hd_dstring_body:
  assumes "read_digits 10 0 ds = Some n" "0 < m" "ds \<noteq> []"
  shows "\<exists>c t. take m ds @ u = c # t \<and> c \<noteq> CHR ''-''"
proof -
  obtain c t where ds: "ds = c # t" using assms(3) by (cases ds) auto
  with read_digits_all [OF assms(1)] have "digit_value c \<noteq> None" by simp
  then have "c \<noteq> CHR ''-''" by (auto simp: digit_value_def)
  with ds assms(2) show ?thesis by (cases m) auto
qed

lemma dstring_numeral: "decimal_numeral (dstring d) = Some (dval d, 19)"
proof -
  define t where "t = show_nat (nat \<bar>units d\<bar>)"
  define ds where "ds = replicate (20 - length t) (CHR ''0'') @ t"
  define m where "m = length ds - 19"
  have rd: "read_digits 10 0 ds = Some (nat \<bar>units d\<bar>)"
    by (simp add: ds_def read_digits_zeros t_def show_nat_def read_show_digits)
  have len: "20 \<le> length ds" by (simp add: ds_def)
  have un: "unsigned_numeral (take m ds @ CHR ''.'' # drop m ds) = Some (nat \<bar>units d\<bar>, 19)"
    unfolding m_def by (rule numeral_of_digits [OF rd len])
  have "0 < m" "ds \<noteq> []" using len by (auto simp: m_def)
  with hd_dstring_body [OF rd] obtain c u
    where cu: "take m ds @ CHR ''.'' # drop m ds = c # u" "c \<noteq> CHR ''-''" by blast
  have str: "dstring d = (if units d < 0 then CHR ''-'' # (take m ds @ CHR ''.'' # drop m ds)
      else take m ds @ CHR ''.'' # drop m ds)"
    by (simp add: dstring_def Let_def t_def ds_def m_def)
  show ?thesis
  proof (cases "units d < 0")
    case True
    then show ?thesis using un by (simp add: str decimal_numeral_def dval_def dscale_def)
  next
    case False
    then show ?thesis using un cu by (simp add: str decimal_numeral_def dval_def dscale_def)
  qed
qed

section \<open>The laws hold\<close>

lemma ceiling_div: "0 < m \<Longrightarrow> - (- x div m) = \<lceil>of_int x / of_int m :: rat\<rceil>" for x m :: int
  by (simp add: ceiling_divide_eq_div)

lemma half_div: "0 < m \<Longrightarrow> (2 * x + m) div (2 * m) = \<lfloor>of_int x / of_int m + 1 / 2 :: rat\<rfloor>" for x m :: int
proof -
  assume m: "0 < m"
  have "(of_int x / of_int m + 1 / 2 :: rat) = of_int (2 * x + m) / of_int (2 * m)"
    using m by (simp add: field_simps)
  then show ?thesis by (simp only: floor_divide_of_int_eq)
qed

lemma half_of_int: "\<lfloor>of_int k + 1 / 2 :: rat\<rfloor> = k"
  using half_div [of 1 k] by simp

lemma dround_vals:
  "dval (dround (\<lambda>x m. x div m) d p) = trunc_to p (dval d)"
  "dval (dround (\<lambda>x m. (2 * x + m) div (2 * m)) d p) = haz_to p (dval d)"
  "dval (dround (\<lambda>x m. - (- x div m)) d p) = away_to p (dval d)"
  by (simp_all add: trunc_to_def haz_to_def away_to_def dval_dround floor_divide_of_int_eq
      ceiling_div half_div half_of_int)

lemma dval_dmul: "dval (dmul a b) = trunc_to 19 (dval a * dval b)"
proof -
  have "dval a * dval b * of_int dscale = of_int (units a * units b) / of_int dscale"
    by (simp add: dval_def)
  then show ?thesis
    by (simp add: trunc_to_19 trunc_to_quotient dmul_def del: of_int_mult) (simp add: dval_def)
qed

lemma dval_quotient:
  assumes "units b \<noteq> 0"
  shows "dval (Dec (sdiv (units a * dscale) (units b))) = trunc_to 19 (dval a / dval b)"
proof -
  have "dval a / dval b * of_int dscale = of_int (units a * dscale) / of_int (units b)"
    using assms by (simp add: dval_def)
  then show ?thesis
    using assms by (simp add: trunc_to_19 trunc_to_quotient del: of_int_mult) (simp add: dval_def)
qed

lemma dval_remainder:
  assumes "units b \<noteq> 0"
  shows "dval (Dec (units a - units b * sdiv (units a) (units b))) =
    dval a - dval b * trunc_to 0 (dval a / dval b)"
proof -
  have "dval a / dval b = of_int (units a) / of_int (units b)"
    using assms by (simp add: dval_def)
  then show ?thesis
    using assms by (simp add: trunc_to_quotient) (simp add: dval_def diff_divide_distrib)
qed

lemma dmul_pow_nonneg: "0 \<le> dval a \<Longrightarrow> 0 \<le> dval ((dmul a ^^ n) (Dec dscale))"
  by (induction n) (simp_all add: dval_dmul, simp add: dval_def)

lemma dparse_ok:
  assumes "decimal_numeral s = Some (x, k)" "k \<le> 19"
  shows "\<exists>d. dparse s = Inr d \<and> dval d = x \<and> dprec d \<le> k"
proof -
  have "\<exists>n::int. x = of_int n / 10 ^ k"
    using assms(1) unfolding decimal_numeral_def
    by (auto split: list.splits if_splits)
      (metis of_int_minus of_int_of_nat_eq minus_divide_left, metis of_int_of_nat_eq)
  then have g: "on_grid k x" by (auto simp: on_grid_def)
  then have "on_grid 19 x" using assms(2) by (rule on_grid_mono)
  then obtain n :: int where "x * of_int dscale = of_int n" by (auto simp: on_grid_19 Ints_def)
  then have v: "dval (Dec \<lfloor>x * of_int dscale\<rfloor>) = x" by (simp add: dval_def field_simps)
  moreover have "dprec (Dec \<lfloor>x * of_int dscale\<rfloor>) \<le> k" by (rule dprec_least) (use g v in simp)
  ultimately show ?thesis using assms by (simp add: dparse_def)
qed

interpretation dec19: udecimal dec19_ops dval
proof (unfold_locales, goal_cases)
  case (2 p v)
  have "(of_int dscale::rat) = 10 ^ (19 - p) * 10 ^ p" using 2 by (rule dscale_split)
  then show ?case by (simp add: dec19_ops_def dval_def)
next
  case (6 b a)
  then show ?case by (simp add: dec19_ops_def dval_def)
next
  case (7 b a)
  then have "units b \<noteq> 0" by (simp add: dval_def)
  then show ?case using dval_quotient [of b a] by (simp add: dec19_ops_def)
next
  case (8 b a)
  then show ?case by (simp add: dec19_ops_def dval_def)
next
  case (9 b a)
  then have "units b \<noteq> 0" by (simp add: dval_def)
  then show ?case using dval_remainder [of b a] by (simp add: dec19_ops_def)
next
  case (14 a b)
  have "dval a < dval b \<longleftrightarrow> units a < units b" "dval a = dval b \<longleftrightarrow> units a = units b"
    by (auto simp: dval_def divide_less_cancel) (simp add: dscale_def)
  then show ?case by (simp add: dec19_ops_def sgn_if)
next
  case (18 p v)
  have "(of_int dscale::rat) = 10 ^ (19 - p) * 10 ^ p" using 18 by (rule dscale_split)
  then have "dval (Dec (v * 10 ^ (19 - p))) = of_int v / 10 ^ p" by (simp add: dval_def)
  then show ?case using dprec_least [of p "Dec (v * 10 ^ (19 - p))"]
    by (simp add: dec19_ops_def on_grid_def)
next
  case (19 a b)
  have "on_grid (dprec a + dprec b) (dval (dmul a b))" if "dprec a + dprec b \<le> 19"
    using on_grid_mult [OF dprec_grid dprec_grid, of a b] that
    by (simp add: dval_dmul on_grid_mono)
  then have "dprec (dmul a b) \<le> dprec a + dprec b"
    using dprec_least dprec_le [of "dmul a b"] by (meson le_trans nat_le_linear)
  then show ?case by (simp add: dec19_ops_def)
next
  case (23 s x k)
  then show ?case using dparse_ok by (simp add: dec19_ops_def)
next
  case (25 a n)
  then have "units a div dscale = n"
    by (metis dval_def floor_divide_of_int_eq floor_of_int)
  then show ?case by (simp add: dec19_ops_def)
qed (auto simp: dec19_ops_def dval_def sgn_if add_divide_distrib diff_divide_distrib
    dval_dmul [unfolded dval_def] dmul_pow_nonneg [unfolded dval_def]
    dround_vals [unfolded dval_def] dprec_le dprec_grid [unfolded dval_def]
    dstring_numeral [unfolded dval_def] divide_strict_right_mono
    intro!: dprec_least)

end
