(* ===== verification/Fixtures.thy ===== *)
theory Fixtures
  imports ClientState Dec19
begin

text \<open>
  A concrete client and a concrete environment (decimals of \<open>Dec19\<close>, a market of two tokens with tick
  size 0.01 and a platform fee, a server of protocol version 2), on which the theorems with hypotheses are applied.
\<close>

definition demo_time :: int where
  "demo_time = 1700000000000000000"

definition demo_market :: ClobMarketInfoResponse where
  "demo_market = \<lparr>cm_ConditionID = ''0xc0'', cm_MinTickSize = ''0.01'', cm_MinOrderSize = ''5'', cm_NegRisk = False,
     cm_FeeDetails = Some \<lparr>fd_Rate = ''0.02'', fd_Exponent = 1, fd_TakerOnly = True\<rparr>,
     cm_Tokens = [Some \<lparr>ct_TokenID = ''111'', ct_Outcome = ''Yes''\<rparr>, None, Some \<lparr>ct_TokenID = ''222'', ct_Outcome = ''No''\<rparr>],
     cm_MakerBaseFee = None, cm_TakerBaseFee = None, cm_RFQEnabled = False, cm_Rewards = None,
     cm_AcceptingOrders = Some True, cm_SecondsDelay = None, cm_GameStartTime = None, cm_ClearBookOnStart = None,
     cm_AcceptingOrderTime = None, cm_TakerOrderDelayEnabled = None, cm_BlockaidCheckEnabled = None\<rparr>"

definition demo_book :: OrderBookSummary where
  "demo_book = \<lparr>ob_Market = ''0xc0'', ob_AssetID = ''111'', ob_Timestamp = ''0'',
     ob_Bids = [\<lparr>lv_Price = ''0.40'', lv_Size = ''100''\<rparr>, \<lparr>lv_Price = ''0.45'', lv_Size = ''20''\<rparr>],
     ob_Asks = [\<lparr>lv_Price = ''0.60'', lv_Size = ''100''\<rparr>, \<lparr>lv_Price = ''0.50'', lv_Size = ''20''\<rparr>],
     ob_MinOrderSize = ''5'', ob_TickSize = ''0.01'', ob_NegRisk = False, ob_LastTradePrice = ''0.5'',
     ob_Hash = ''''\<rparr>"

definition demo_response :: PostOrderResponse where
  "demo_response = \<lparr>ps_Success = True, ps_ErrorMsg = '''', ps_OrderID = ''0x01'', ps_TransactionsHashes = [],
     ps_Status = ''live'', ps_TakingAmount = '''', ps_MakingAmount = '''', ps_TradeIDs = [],
     ps_RebateEstimated = ''''\<rparr>"

definition demo_env :: "dec env" where
  "demo_env = \<lparr>e_U = dec19_ops, e_clock = (\<lambda>n. demo_time + int n), e_ctxErr = (\<lambda>_. None),
     e_GetMarketByToken = (\<lambda>_ _. Inr \<lparr>mt_ConditionID = ''0xc0'', mt_PrimaryTokenID = ''111'',
        mt_SecondaryTokenID = ''222''\<rparr>),
     e_GetClobMarket = (\<lambda>_ _. Inr demo_market),
     e_GetTickSize = (\<lambda>_ _. Inr ''0.01''), e_GetNegRisk = (\<lambda>_ _. Inr False),
     e_GetOrderBook = (\<lambda>_ _. Inr demo_book),
     e_GetBuilderFeeRate = (\<lambda>_ _. Inr (Some \<lparr>bf_BuilderMakerFeeRateBps = 0, bf_BuilderTakerFeeRateBps = 50\<rparr>)),
     e_GetFeeRate = (\<lambda>_ _. Inr 0), e_GetVersion = (\<lambda>_. Inr 2), e_salt = (\<lambda>_. Inr 12345),
     e_signTypedData = (\<lambda>_ _. Inr [1, 171]), e_hashStruct = (\<lambda>_ _. Inr [202, 254]),
     e_wrapDepositWalletSignature = (\<lambda>_ s. Inr s),
     e_postOrder = (\<lambda>_ _. Inr demo_response), e_postOrders = (\<lambda>_ rs. Inr (map (\<lambda>_. demo_response) rs)),
     e_getTrades = (\<lambda>_ _. Inr []), e_timer = (\<lambda>_ _. False)\<rparr>"

definition demo_client :: "dec client" where
  "demo_client = clientCacheState.extend newClientCacheState
     \<lparr>conditionHeap = Map.empty, metadataHeap = Map.empty, builderHeap = Map.empty, nextLoad = 0,
      cacheTTL = 0, chainID = 137, signerAddress = ''0xaa00000000000000000000000000000000000001'',
      funderAddress = '''', signatureType = 0, credentialsKey = Some ''key'', ticks = 0\<rparr>"

end
