(* ===== verification/OrderMetadata.thy ===== *)
theory OrderMetadata
  imports SingleFlight Fixtures
begin

text \<open>
  \<open>clob/order_metadata_cache.go\<close> and \<open>clob/builder_fee_cache.go\<close>: the resolvers of a token's condition,
  of a condition's market metadata and of a builder's fee rate.  Each resolver is split where the code releases
  and retakes the lock: \<open>...Begin\<close> is the first critical section, \<open>...Finish\<close> the second.  The
  sequential functions \<open>resolve...\<close> run them in one goroutine; the interpretations at the end put them under
  the concurrent protocol of \<open>SingleFlight\<close>.
\<close>

section \<open>Fetching and checking\<close>

definition orderMetadataCacheTTL :: int where
  "orderMetadataCacheTTL = 10 * 60 * 1000000000"

definition orderMetadataTTL :: "'d client \<Rightarrow> int" where
  "orderMetadataTTL c = (if 0 < cacheTTL c then cacheTTL c else orderMetadataCacheTTL)"

definition zeroMetadata :: "'d udecimal_ops \<Rightarrow> 'd orderMarketMetadata" where
  "zeroMetadata U = \<lparr>md_ConditionID = [], md_TickSize = [], md_NegRisk = False,
     md_FeeInfo = \<lparr>fi_Rate = u_zero U, fi_Exponent = 0\<rparr>, md_TokenIDs = []\<rparr>"

definition validateOrderMarketToken ::
  "'d orderMarketMetadata \<Rightarrow> string \<Rightarrow> 'd orderMarketMetadata result" where
  "validateOrderMarketToken value tokenID =
     (if md_TokenIDs value \<noteq> [] \<and> tokenID \<notin> set (md_TokenIDs value)
      then Inl (Msg ''market does not contain token'') else Inr value)"

definition feeInfoFromMarket :: "'d udecimal_ops \<Rightarrow> ClobMarketInfoResponse \<Rightarrow> 'd FeeInfo result" where
  "feeInfoFromMarket U market =
     (case cm_FeeDetails market of
        None \<Rightarrow> Inr \<lparr>fi_Rate = u_zero U, fi_Exponent = 0\<rparr>
      | Some d \<Rightarrow> rbind (DecimalString_Decimal U (fd_Rate d))
          (\<lambda>rate. Inr \<lparr>fi_Rate = rate, fi_Exponent = fd_Exponent d\<rparr>))"

text \<open>The token set is kept as a list without repetitions; nil entries are skipped.\<close>

definition fetchOrderMarketMetadata ::
  "'d env \<Rightarrow> string \<Rightarrow> string \<Rightarrow> ('d client, 'd orderMarketMetadata) act" where
  "fetchOrderMarketMetadata E tokenID conditionID =
     bindE (wrapE ''fetch market for token'' (interact (\<lambda>n. e_GetClobMarket E n conditionID))) (\<lambda>market.
       let tokenIDs = remdups (List.map_filter (map_option ct_TokenID) (cm_Tokens market))
       in lift (rbind (wrap_err ''market fee'' (feeInfoFromMarket (e_U E) market)) (\<lambda>feeInfo.
            Inr \<lparr>md_ConditionID = conditionID, md_TickSize = cm_MinTickSize market,
                 md_NegRisk = cm_NegRisk market, md_FeeInfo = feeInfo, md_TokenIDs = tokenIDs\<rparr>)))"

definition fetchOrderCondition :: "'d env \<Rightarrow> string \<Rightarrow> ('d client, string) act" where
  "fetchOrderCondition E tokenID =
     wrapE ''resolve token to market''
       (bindE (interact (\<lambda>n. e_GetMarketByToken E n tokenID)) (\<lambda>market.
          if mt_ConditionID market = [] then fail (Msg ''resolve token to market: missing condition ID'')
          else ret (mt_ConditionID market)))"

section \<open>Critical sections\<close>

text \<open>\<open>existing.generation != currentGeneration\<close>, negated, for the load object \<open>l\<close>.\<close>

definition load_current :: "(nat \<rightharpoonup> 'v load) \<Rightarrow> nat \<Rightarrow> 64 word \<Rightarrow> bool" where
  "load_current heap l g = (case heap l of None \<Rightarrow> False | Some ld \<Rightarrow> ld_generation ld = g)"

text \<open>\<open>load.value = value; load.err = err; close(load.done)\<close>\<close>

definition close_load :: "(nat \<rightharpoonup> 'v load) \<Rightarrow> nat \<Rightarrow> 'v result \<Rightarrow> (nat \<rightharpoonup> 'v load)" where
  "close_load heap l r =
     (case heap l of None \<Rightarrow> heap | Some ld \<Rightarrow> heap(l \<mapsto> ld\<lparr>ld_result := Some r\<rparr>))"

text \<open>\<open>if existing, ok := loads[k]; ok && existing == load { delete(loads, k) }\<close>\<close>

definition drop_load :: "('k \<rightharpoonup> nat) \<Rightarrow> 'k \<Rightarrow> nat \<Rightarrow> ('k \<rightharpoonup> nat)" where
  "drop_load loads k l = (if loads k = Some l then loads(k := None) else loads)"

definition new_load :: "64 word \<Rightarrow> 'v load" where
  "new_load g = \<lparr>ld_result = None, ld_generation = g\<rparr>"

definition conditionBegin :: "string \<Rightarrow> bool \<Rightarrow> 'd client \<Rightarrow> string flight \<times> 'd client" where
  "conditionBegin tokenID force c =
     (case (if force then None else orderConditionCache c tokenID) of
        Some conditionID \<Rightarrow> (Hit conditionID, c)
      | None \<Rightarrow>
          (case orderConditionLoads c tokenID of
             Some l \<Rightarrow> (Join l (load_current (conditionHeap c) l (orderMetadataGeneration c)), c)
           | None \<Rightarrow>
               let l = nextLoad c; g = orderMetadataGeneration c
               in (Lead l g,
                   c\<lparr>orderConditionLoads := (orderConditionLoads c)(tokenID \<mapsto> l),
                     conditionHeap := (conditionHeap c)(l \<mapsto> new_load g), nextLoad := Suc l\<rparr>)))"

definition conditionFinish ::
  "string \<Rightarrow> nat \<Rightarrow> 64 word \<Rightarrow> string result \<Rightarrow> 'd client \<Rightarrow> 'd client" where
  "conditionFinish tokenID l generation r c =
     (let c1 = c\<lparr>orderConditionLoads := drop_load (orderConditionLoads c) tokenID l\<rparr>;
          c2 = (case r of
                  Inr conditionID \<Rightarrow>
                    if generation = orderMetadataGeneration c1
                    then c1\<lparr>orderConditionCache := (orderConditionCache c1)(tokenID \<mapsto> conditionID)\<rparr> else c1
                | Inl _ \<Rightarrow> c1)
      in c2\<lparr>conditionHeap := close_load (conditionHeap c2) l r\<rparr>)"

definition metadataBegin ::
  "'d env \<Rightarrow> string \<Rightarrow> bool \<Rightarrow> 'd client \<Rightarrow> 'd orderMarketMetadata flight \<times> 'd client" where
  "metadataBegin E conditionID force c =
     (let (hit, c1) =
            (case (if force then None else orderMetadataCache c conditionID) of
               None \<Rightarrow> (None, c)
             | Some entry \<Rightarrow>
                 (if e_clock E (ticks c) < me_expiresAt entry then Some (me_value entry) else None, tick c))
      in case hit of
           Some value \<Rightarrow> (Hit value, c1)
         | None \<Rightarrow>
             (case orderMetadataLoads c1 conditionID of
                Some l \<Rightarrow> (Join l (load_current (metadataHeap c1) l (orderMetadataGeneration c1)), c1)
              | None \<Rightarrow>
                  let l = nextLoad c1; g = orderMetadataGeneration c1
                  in (Lead l g,
                      c1\<lparr>orderMetadataLoads := (orderMetadataLoads c1)(conditionID \<mapsto> l),
                         metadataHeap := (metadataHeap c1)(l \<mapsto> new_load g), nextLoad := Suc l\<rparr>)))"

text \<open>
  Publishing a fetched snapshot: the entry, the condition of every sibling token, and the tick size and negative-risk
  flag of the requested token and then of its siblings.  Go visits the siblings in an unspecified order;
  the order affects only the time stamps.
\<close>

definition setTickAndRisk :: "'d env \<Rightarrow> 'd orderMarketMetadata \<Rightarrow> string \<Rightarrow> 'd client \<Rightarrow> 'd client" where
  "setTickAndRisk E value tokenID c =
     SetNegRisk E tokenID (md_NegRisk value)
       (if md_TickSize value \<noteq> [] then SetTickSize E tokenID (md_TickSize value) c else c)"

definition publishMetadata ::
  "'d env \<Rightarrow> string \<Rightarrow> string \<Rightarrow> 'd orderMarketMetadata \<Rightarrow> 'd client \<Rightarrow> 'd client" where
  "publishMetadata E tokenID conditionID value c =
     (let c1 = (tick c)\<lparr>orderMetadataCache := (orderMetadataCache c)(conditionID \<mapsto>
                 \<lparr>me_value = value, me_expiresAt = e_clock E (ticks c) + orderMetadataTTL c\<rparr>)\<rparr>;
          c2 = fold (\<lambda>sibling c. c\<lparr>orderConditionCache := (orderConditionCache c)(sibling \<mapsto> conditionID)\<rparr>)
                 (md_TokenIDs value) c1;
          c3 = setTickAndRisk E value tokenID c2
      in fold (setTickAndRisk E value) (filter (\<lambda>t. t \<noteq> tokenID) (md_TokenIDs value)) c3)"

definition metadataFinish ::
  "'d env \<Rightarrow> string \<times> string \<Rightarrow> nat \<Rightarrow> 64 word \<Rightarrow> 'd orderMarketMetadata result \<Rightarrow> 'd client \<Rightarrow> 'd client" where
  "metadataFinish E key l generation r c =
     (let (tokenID, conditionID) = key;
          value = (case r of Inl _ \<Rightarrow> zeroMetadata (e_U E) | Inr v \<Rightarrow> v);
          failed = (case r of Inl _ \<Rightarrow> True | Inr _ \<Rightarrow> False);
          c1 = c\<lparr>orderMetadataLoads := drop_load (orderMetadataLoads c) conditionID l\<rparr>;
          c2 = (if failed \<and> md_TokenIDs value \<noteq> [] \<and> tokenID \<notin> set (md_TokenIDs value)
                then c1\<lparr>orderConditionCache := (orderConditionCache c1)(tokenID := None),
                        orderMetadataCache := (orderMetadataCache c1)(conditionID := None)\<rparr>
                else c1);
          c3 = (if \<not> failed \<and> generation = orderMetadataGeneration c2
                then publishMetadata E tokenID conditionID value c2 else c2)
      in c3\<lparr>metadataHeap := close_load (metadataHeap c3) l r\<rparr>)"

definition builderBegin ::
  "'d env \<Rightarrow> string \<Rightarrow> bool \<Rightarrow> 'd client \<Rightarrow> BuilderFeeRateResponse flight \<times> 'd client" where
  "builderBegin E builderCode force c =
     (let (hit, c1) =
            (case (if force then None else builderFeeCache c builderCode) of
               None \<Rightarrow> (None, c)
             | Some entry \<Rightarrow>
                 (if e_clock E (ticks c) < be_expiresAt entry then Some (be_value entry) else None, tick c))
      in case hit of
           Some value \<Rightarrow> (Hit value, c1)
         | None \<Rightarrow>
             (case builderFeeLoads c1 builderCode of
                Some l \<Rightarrow> (Join l (load_current (builderHeap c1) l (orderMetadataGeneration c1)), c1)
              | None \<Rightarrow>
                  let l = nextLoad c1; g = orderMetadataGeneration c1
                  in (Lead l g,
                      c1\<lparr>builderFeeLoads := (builderFeeLoads c1)(builderCode \<mapsto> l),
                         builderHeap := (builderHeap c1)(l \<mapsto> new_load g), nextLoad := Suc l\<rparr>)))"

definition builderFinish ::
  "'d env \<Rightarrow> string \<Rightarrow> nat \<Rightarrow> 64 word \<Rightarrow> BuilderFeeRateResponse result \<Rightarrow> 'd client \<Rightarrow> 'd client" where
  "builderFinish E builderCode l generation r c =
     (let c1 = (case r of
                  Inr value \<Rightarrow>
                    if generation = orderMetadataGeneration c
                    then (tick c)\<lparr>builderFeeCache := (builderFeeCache c)(builderCode \<mapsto>
                            \<lparr>be_value = value, be_expiresAt = e_clock E (ticks c) + orderMetadataTTL c\<rparr>)\<rparr>
                    else c
                | Inl _ \<Rightarrow> c);
          c2 = c1\<lparr>builderFeeLoads := drop_load (builderFeeLoads c1) builderCode l\<rparr>
      in c2\<lparr>builderHeap := close_load (builderHeap c2) l r\<rparr>)"

section \<open>The resolvers in one goroutine\<close>

text \<open>
  A goroutine that finds a load of another goroutine waits.  In a run of one goroutine nobody closes the load, so
  only the end of the caller's context wakes it; without it the call never returns, here the error
  \<open>blocked\<close>.  The lemmas below show that the sequential functions never get there.
\<close>

definition blocked :: go_error where
  "blocked = Sentinel ''blocked''"

definition wait_alone :: "'d env \<Rightarrow> ('d client, 'a) act" where
  "wait_alone E = (\<lambda>c. (case e_ctxErr E (ticks c) of Some e \<Rightarrow> Inl e | None \<Rightarrow> Inl blocked, tick c))"

definition resolveOrderCondition :: "'d env \<Rightarrow> string \<Rightarrow> ('d client, string) act" where
  "resolveOrderCondition E tokenID = (\<lambda>c.
     case conditionBegin tokenID False c of
       (Hit conditionID, c1) \<Rightarrow> (Inr conditionID, c1)
     | (Join l same, c1) \<Rightarrow> wait_alone E c1
     | (Lead l g, c1) \<Rightarrow>
         (case fetchOrderCondition E tokenID c1 of
            (r, c2) \<Rightarrow> (r, conditionFinish tokenID l g r c2)))"

text \<open>\<open>resolveOrderMarketMetadata\<close>, first the part after the condition is known.\<close>

definition resolveMetadataOf ::
  "'d env \<Rightarrow> string \<Rightarrow> bool \<Rightarrow> string \<Rightarrow> ('d client, 'd orderMarketMetadata) act" where
  "resolveMetadataOf E tokenID force conditionID = (\<lambda>c.
     case metadataBegin E conditionID force c of
         (Hit value, c1) \<Rightarrow> (validateOrderMarketToken value tokenID, c1)
       | (Join l same, c1) \<Rightarrow> wait_alone E c1
       | (Lead l g, c1) \<Rightarrow>
           (case bindE (fetchOrderMarketMetadata E tokenID conditionID)
                   (\<lambda>value. lift (validateOrderMarketToken value tokenID)) c1 of
              (r, c2) \<Rightarrow> (r, metadataFinish E (tokenID, conditionID) l g r c2)))"

definition resolveOrderMarketMetadata ::
  "'d env \<Rightarrow> string \<Rightarrow> bool \<Rightarrow> ('d client, 'd orderMarketMetadata) act" where
  "resolveOrderMarketMetadata E tokenID force =
     bindE (resolveOrderCondition E tokenID) (resolveMetadataOf E tokenID force)"

definition zeroBytes32 :: string where
  "zeroBytes32 = ''0x0000000000000000000000000000000000000000000000000000000000000000''"

definition fetchBuilderFeeRate :: "'d env \<Rightarrow> string \<Rightarrow> ('d client, BuilderFeeRateResponse) act" where
  "fetchBuilderFeeRate E builderCode =
     bindE (interact (\<lambda>n. e_GetBuilderFeeRate E n builderCode)) (\<lambda>value.
       case value of None \<Rightarrow> fail (Msg ''builder fee rate response is empty'') | Some v \<Rightarrow> ret v)"

definition resolveBuilderFeeRateCached ::
  "'d env \<Rightarrow> string \<Rightarrow> ('d client, BuilderFeeRateResponse) act" where
  "resolveBuilderFeeRateCached E builderCode =
     (if builderCode = [] \<or> builderCode = zeroBytes32
      then ret \<lparr>bf_BuilderMakerFeeRateBps = 0, bf_BuilderTakerFeeRateBps = 0\<rparr>
      else (\<lambda>c.
        case builderBegin E builderCode False c of
          (Hit value, c1) \<Rightarrow> (Inr value, c1)
        | (Join l same, c1) \<Rightarrow> wait_alone E c1
        | (Lead l g, c1) \<Rightarrow>
            (case fetchBuilderFeeRate E builderCode c1 of
               (r, c2) \<Rightarrow> (r, builderFinish E builderCode l g r c2))))"

section \<open>What publishing changes\<close>

lemma setTickAndRisk_frame:
  "orderMetadataGeneration (setTickAndRisk E v t c) = orderMetadataGeneration c"
  "orderConditionCache (setTickAndRisk E v t c) = orderConditionCache c"
  "orderConditionLoads (setTickAndRisk E v t c) = orderConditionLoads c"
  "orderMetadataCache (setTickAndRisk E v t c) = orderMetadataCache c"
  "orderMetadataLoads (setTickAndRisk E v t c) = orderMetadataLoads c"
  "builderFeeCache (setTickAndRisk E v t c) = builderFeeCache c"
  "builderFeeLoads (setTickAndRisk E v t c) = builderFeeLoads c"
  "conditionHeap (setTickAndRisk E v t c) = conditionHeap c"
  "metadataHeap (setTickAndRisk E v t c) = metadataHeap c"
  "builderHeap (setTickAndRisk E v t c) = builderHeap c"
  "nextLoad (setTickAndRisk E v t c) = nextLoad c"
  by (simp_all add: setTickAndRisk_def SetTickSize_def SetNegRisk_def Let_def)

lemma setTickAndRisk_set:
  "negRiskCache (setTickAndRisk E v t c) = (negRiskCache c)(t \<mapsto> md_NegRisk v)"
  "tickSizeCache (setTickAndRisk E v t c) =
     (if md_TickSize v = [] then tickSizeCache c else (tickSizeCache c)(t \<mapsto> md_TickSize v))"
  by (simp_all add: setTickAndRisk_def SetTickSize_def SetNegRisk_def Let_def)

lemma fold_setTickAndRisk_frame:
  "orderMetadataGeneration (fold (setTickAndRisk E v) ts c) = orderMetadataGeneration c"
  "orderConditionCache (fold (setTickAndRisk E v) ts c) = orderConditionCache c"
  "orderConditionLoads (fold (setTickAndRisk E v) ts c) = orderConditionLoads c"
  "orderMetadataCache (fold (setTickAndRisk E v) ts c) = orderMetadataCache c"
  "orderMetadataLoads (fold (setTickAndRisk E v) ts c) = orderMetadataLoads c"
  "builderFeeCache (fold (setTickAndRisk E v) ts c) = builderFeeCache c"
  "builderFeeLoads (fold (setTickAndRisk E v) ts c) = builderFeeLoads c"
  "conditionHeap (fold (setTickAndRisk E v) ts c) = conditionHeap c"
  "metadataHeap (fold (setTickAndRisk E v) ts c) = metadataHeap c"
  "builderHeap (fold (setTickAndRisk E v) ts c) = builderHeap c"
  "nextLoad (fold (setTickAndRisk E v) ts c) = nextLoad c"
  by (induction ts arbitrary: c) (simp_all add: setTickAndRisk_frame)

lemma fold_setTickAndRisk_set:
  "negRiskCache (fold (setTickAndRisk E v) ts c) t =
     (if t \<in> set ts then Some (md_NegRisk v) else negRiskCache c t)"
  "tickSizeCache (fold (setTickAndRisk E v) ts c) t =
     (if t \<in> set ts \<and> md_TickSize v \<noteq> [] then Some (md_TickSize v) else tickSizeCache c t)"
  by (induction ts arbitrary: c) (simp_all add: setTickAndRisk_set)

lemma fold_condition:
  fixes c :: "'d client" and k :: string
  defines "put \<equiv> \<lambda>t (c :: 'd client). c\<lparr>orderConditionCache := (orderConditionCache c)(t \<mapsto> k)\<rparr>"
  shows "fold put ts c = c\<lparr>orderConditionCache := (\<lambda>t. if t \<in> set ts then Some k else orderConditionCache c t)\<rparr>"
proof (induction ts arbitrary: c)
  case Nil
  then show ?case by simp
next
  case (Cons a ts)
  have "(\<lambda>t. if t \<in> set ts then Some k else ((orderConditionCache c)(a \<mapsto> k)) t) =
      (\<lambda>t. if t \<in> set (a # ts) then Some k else orderConditionCache c t)" by auto
  moreover have "fold put (a # ts) c = fold put ts (put a c)" by simp
  ultimately show ?case by (simp add: Cons.IH [unfolded put_def] put_def cong: if_cong)
qed

lemmas publish_simps = publishMetadata_def fold_condition fold_setTickAndRisk_frame setTickAndRisk_frame

lemma publishMetadata_caches:
  "orderMetadataCache (publishMetadata E tok k v c) = (orderMetadataCache c)(k \<mapsto>
     \<lparr>me_value = v, me_expiresAt = e_clock E (ticks c) + orderMetadataTTL c\<rparr>)"
  "orderConditionCache (publishMetadata E tok k v c) =
     (\<lambda>t. if t \<in> set (md_TokenIDs v) then Some k else orderConditionCache c t)"
  "orderMetadataGeneration (publishMetadata E tok k v c) = orderMetadataGeneration c"
  by (simp_all add: publish_simps Let_def cong: if_cong)

lemma publishMetadata_frame:
  "orderConditionLoads (publishMetadata E tok k v c) = orderConditionLoads c"
  "orderMetadataLoads (publishMetadata E tok k v c) = orderMetadataLoads c"
  "builderFeeCache (publishMetadata E tok k v c) = builderFeeCache c"
  "builderFeeLoads (publishMetadata E tok k v c) = builderFeeLoads c"
  "conditionHeap (publishMetadata E tok k v c) = conditionHeap c"
  "metadataHeap (publishMetadata E tok k v c) = metadataHeap c"
  "builderHeap (publishMetadata E tok k v c) = builderHeap c"
  "nextLoad (publishMetadata E tok k v c) = nextLoad c"
  by (simp_all add: publish_simps Let_def)

lemma publishMetadata_tick_and_risk:
  "tickSizeCache (publishMetadata E tok k v c) t =
     (if (t = tok \<or> t \<in> set (md_TokenIDs v)) \<and> md_TickSize v \<noteq> [] then Some (md_TickSize v)
      else tickSizeCache c t)"
  "negRiskCache (publishMetadata E tok k v c) t =
     (if t = tok \<or> t \<in> set (md_TokenIDs v) then Some (md_NegRisk v) else negRiskCache c t)"
  by (simp_all add: publishMetadata_def fold_condition fold_setTickAndRisk_set setTickAndRisk_set Let_def)

section \<open>The resolvers follow the protocol\<close>

definition conditionFlight :: "('d client, string, string, string) flight_ops" where
  "conditionFlight = \<lparr>fo_key = id, fo_gen = orderMetadataGeneration, fo_stored = orderConditionCache,
     fo_loads = orderConditionLoads, fo_heap = conditionHeap, fo_next = nextLoad,
     fo_begin = conditionBegin, fo_finish = conditionFinish\<rparr>"

definition metadataFlight ::
  "'d env \<Rightarrow> ('d client, string \<times> string, string, 'd orderMarketMetadata) flight_ops" where
  "metadataFlight E = \<lparr>fo_key = snd, fo_gen = orderMetadataGeneration,
     fo_stored = (\<lambda>c. map_option me_value \<circ> orderMetadataCache c),
     fo_loads = orderMetadataLoads, fo_heap = metadataHeap, fo_next = nextLoad,
     fo_begin = (\<lambda>q. metadataBegin E (snd q)), fo_finish = metadataFinish E\<rparr>"

definition builderFlight ::
  "'d env \<Rightarrow> ('d client, string, string, BuilderFeeRateResponse) flight_ops" where
  "builderFlight E = \<lparr>fo_key = id, fo_gen = orderMetadataGeneration,
     fo_stored = (\<lambda>c. map_option be_value \<circ> builderFeeCache c),
     fo_loads = builderFeeLoads, fo_heap = builderHeap, fo_next = nextLoad,
     fo_begin = builderBegin E, fo_finish = builderFinish E\<rparr>"

lemma conditionFlight_sel [simp]:
  "fo_key conditionFlight = id" "fo_gen conditionFlight = orderMetadataGeneration"
  "fo_stored conditionFlight = orderConditionCache" "fo_loads conditionFlight = orderConditionLoads"
  "fo_heap conditionFlight = conditionHeap" "fo_next conditionFlight = nextLoad"
  "fo_begin conditionFlight = conditionBegin" "fo_finish conditionFlight = conditionFinish"
  by (simp_all add: conditionFlight_def)

lemma metadataFlight_sel [simp]:
  "fo_key (metadataFlight E) = snd" "fo_gen (metadataFlight E) = orderMetadataGeneration"
  "fo_stored (metadataFlight E) = (\<lambda>c. map_option me_value \<circ> orderMetadataCache c)"
  "fo_loads (metadataFlight E) = orderMetadataLoads"
  "fo_heap (metadataFlight E) = metadataHeap" "fo_next (metadataFlight E) = nextLoad"
  "fo_begin (metadataFlight E) = (\<lambda>q. metadataBegin E (snd q))" "fo_finish (metadataFlight E) = metadataFinish E"
  by (simp_all add: metadataFlight_def)

lemma builderFlight_sel [simp]:
  "fo_key (builderFlight E) = id" "fo_gen (builderFlight E) = orderMetadataGeneration"
  "fo_stored (builderFlight E) = (\<lambda>c. map_option be_value \<circ> builderFeeCache c)"
  "fo_loads (builderFlight E) = builderFeeLoads"
  "fo_heap (builderFlight E) = builderHeap" "fo_next (builderFlight E) = nextLoad"
  "fo_begin (builderFlight E) = builderBegin E" "fo_finish (builderFlight E) = builderFinish E"
  by (simp_all add: builderFlight_def)

text \<open>
  The two operations that clear the metadata, with the keys each of the three caches loses.
\<close>

definition conditionClears :: "string set \<Rightarrow> 'd client \<Rightarrow> 'd client \<Rightarrow> bool" where
  "conditionClears K c c' \<longleftrightarrow>
     (\<exists>tokenID. c' = clearOrderMetadata tokenID c \<and> K = {tokenID}) \<or> (c' = clearAllOrderMetadata c \<and> K = UNIV)"

definition metadataClears :: "string set \<Rightarrow> 'd client \<Rightarrow> 'd client \<Rightarrow> bool" where
  "metadataClears K c c' \<longleftrightarrow>
     (\<exists>tokenID. c' = clearOrderMetadata tokenID c \<and> K = set_option (orderConditionCache c tokenID) - {[]}) \<or>
     (c' = clearAllOrderMetadata c \<and> K = UNIV)"

definition builderClears :: "string set \<Rightarrow> 'd client \<Rightarrow> 'd client \<Rightarrow> bool" where
  "builderClears K c c' \<longleftrightarrow>
     (\<exists>tokenID. c' = clearOrderMetadata tokenID c \<and> K = {}) \<or> (c' = clearAllOrderMetadata c \<and> K = UNIV)"

lemma clearOrderMetadata_fields:
  "orderMetadataGeneration (clearOrderMetadata t c) = orderMetadataGeneration c + 1"
  "orderConditionCache (clearOrderMetadata t c) = (orderConditionCache c)(t := None)"
  "orderMetadataCache (clearOrderMetadata t c) =
     orderMetadataCache c |` (- (set_option (orderConditionCache c t) - {[]}))"
  "orderConditionLoads (clearOrderMetadata t c) = orderConditionLoads c"
  "orderMetadataLoads (clearOrderMetadata t c) = orderMetadataLoads c"
  "builderFeeLoads (clearOrderMetadata t c) = builderFeeLoads c"
  "builderFeeCache (clearOrderMetadata t c) = builderFeeCache c"
  "conditionHeap (clearOrderMetadata t c) = conditionHeap c"
  "metadataHeap (clearOrderMetadata t c) = metadataHeap c"
  "builderHeap (clearOrderMetadata t c) = builderHeap c"
  "nextLoad (clearOrderMetadata t c) = nextLoad c"
  by (cases "orderConditionCache c t"; auto simp: clearOrderMetadata_def Let_def restrict_map_def fun_eq_iff)+

lemma clearAllOrderMetadata_fields:
  "orderMetadataGeneration (clearAllOrderMetadata c) = orderMetadataGeneration c + 1"
  "orderConditionCache (clearAllOrderMetadata c) = Map.empty"
  "orderMetadataCache (clearAllOrderMetadata c) = Map.empty"
  "orderConditionLoads (clearAllOrderMetadata c) = orderConditionLoads c"
  "orderMetadataLoads (clearAllOrderMetadata c) = orderMetadataLoads c"
  "builderFeeLoads (clearAllOrderMetadata c) = builderFeeLoads c"
  "builderFeeCache (clearAllOrderMetadata c) = Map.empty"
  "conditionHeap (clearAllOrderMetadata c) = conditionHeap c"
  "metadataHeap (clearAllOrderMetadata c) = metadataHeap c"
  "builderHeap (clearAllOrderMetadata c) = builderHeap c"
  "nextLoad (clearAllOrderMetadata c) = nextLoad c"
  by (simp_all add: clearAllOrderMetadata_def)

lemmas clears_defs = conditionClears_def metadataClears_def builderClears_def clearOrderMetadata_fields
  clearAllOrderMetadata_fields

lemma load_current_Some: "heap l = Some ld \<Longrightarrow> load_current heap l g = (ld_generation ld = g)"
  by (simp add: load_current_def)

lemma map_option_upd: "map_option f \<circ> m(k \<mapsto> x) = (map_option f \<circ> m)(k \<mapsto> f x)"
  by auto

lemma metadataFinish_fields:
  "orderMetadataGeneration (metadataFinish E q l g r c) = orderMetadataGeneration c"
  "orderMetadataLoads (metadataFinish E q l g r c) = drop_load (orderMetadataLoads c) (snd q) l"
  "metadataHeap (metadataFinish E q l g r c) = close_load (metadataHeap c) l r"
  "nextLoad (metadataFinish E q l g r c) = nextLoad c"
  "builderFeeCache (metadataFinish E q l g r c) = builderFeeCache c"
  "map_option me_value \<circ> orderMetadataCache (metadataFinish E q l g r c) =
     (case r of Inl _ \<Rightarrow> map_option me_value \<circ> orderMetadataCache c
      | Inr v \<Rightarrow> if g = orderMetadataGeneration c
                then (map_option me_value \<circ> orderMetadataCache c)(snd q \<mapsto> v)
                else map_option me_value \<circ> orderMetadataCache c)"
  by (cases q; cases r; auto simp: metadataFinish_def Let_def zeroMetadata_def publishMetadata_caches
      publishMetadata_frame map_option_upd)+

lemma conditionFinish_fields:
  "orderMetadataGeneration (conditionFinish t l g r c) = orderMetadataGeneration c"
  "orderConditionLoads (conditionFinish t l g r c) = drop_load (orderConditionLoads c) t l"
  "conditionHeap (conditionFinish t l g r c) = close_load (conditionHeap c) l r"
  "nextLoad (conditionFinish t l g r c) = nextLoad c"
  "orderMetadataLoads (conditionFinish t l g r c) = orderMetadataLoads c"
  "builderFeeLoads (conditionFinish t l g r c) = builderFeeLoads c"
  "orderMetadataCache (conditionFinish t l g r c) = orderMetadataCache c"
  "cacheTTL (conditionFinish t l g r c) = cacheTTL c" "ticks (conditionFinish t l g r c) = ticks c"
  "orderConditionCache (conditionFinish t l g r c) =
     (case r of Inl _ \<Rightarrow> orderConditionCache c
      | Inr v \<Rightarrow> if g = orderMetadataGeneration c then (orderConditionCache c)(t \<mapsto> v) else orderConditionCache c)"
  by (cases r; simp add: conditionFinish_def Let_def)+

lemma builderFinish_fields:
  "orderMetadataGeneration (builderFinish E t l g r c) = orderMetadataGeneration c"
  "builderFeeLoads (builderFinish E t l g r c) = drop_load (builderFeeLoads c) t l"
  "builderHeap (builderFinish E t l g r c) = close_load (builderHeap c) l r"
  "nextLoad (builderFinish E t l g r c) = nextLoad c"
  "map_option be_value \<circ> builderFeeCache (builderFinish E t l g r c) =
     (case r of Inl _ \<Rightarrow> map_option be_value \<circ> builderFeeCache c
      | Inr v \<Rightarrow> if g = orderMetadataGeneration c
                then (map_option be_value \<circ> builderFeeCache c)(t \<mapsto> v)
                else map_option be_value \<circ> builderFeeCache c)"
  by (cases r; simp add: builderFinish_def Let_def map_option_upd)+

lemma builderFinish_frame:
  "orderConditionLoads (builderFinish E t l g r c) = orderConditionLoads c"
  "orderMetadataLoads (builderFinish E t l g r c) = orderMetadataLoads c"
  by (cases r; simp add: builderFinish_def Let_def)+

lemmas begin_defs = conditionBegin_def metadataBegin_def builderBegin_def Let_def new_load_def

text \<open>
  The laws on the second critical section and on clearing are immediate from the field lemmas; those on the first
  need its case distinction.
\<close>

interpretation condition_flight: single_flight conditionFlight conditionClears
proof (unfold_locales, goal_cases)
  case (1 k force s v s')
  then show ?case by (auto simp: begin_defs split: option.splits if_splits)
next
  case (2 k force s l same s')
  then show ?case by (auto simp: begin_defs load_current_Some split: option.splits if_splits)
next
  case (3 k force s l g s')
  then show ?case by (auto simp: begin_defs split: option.splits if_splits)
next
  case (9 K s s')
  then show ?case by (auto simp: clears_defs)
qed (simp_all add: conditionFinish_fields drop_load_def close_load_def split: sum.split option.split)

interpretation metadata_flight: single_flight "metadataFlight E" metadataClears for E
proof (unfold_locales, goal_cases)
  case (1 k force s v s')
  then show ?case by (auto simp: begin_defs split: option.splits if_splits)
next
  case (2 k force s l same s')
  then show ?case by (auto simp: begin_defs load_current_Some split: option.splits if_splits)
next
  case (3 k force s l g s')
  then show ?case by (auto simp: begin_defs split: option.splits if_splits)
next
  case (9 K s s')
  then show ?case by (auto simp: clears_defs restrict_map_def fun_eq_iff)
qed (simp_all add: metadataFinish_fields drop_load_def close_load_def split: sum.split option.split)

interpretation builder_flight: single_flight "builderFlight E" builderClears for E
proof (unfold_locales, goal_cases)
  case (1 k force s v s')
  then show ?case by (auto simp: begin_defs split: option.splits if_splits)
next
  case (2 k force s l same s')
  then show ?case by (auto simp: begin_defs load_current_Some split: option.splits if_splits)
next
  case (3 k force s l g s')
  then show ?case by (auto simp: begin_defs split: option.splits if_splits)
next
  case (9 K s s')
  then show ?case by (auto simp: clears_defs)
qed (simp_all add: builderFinish_fields drop_load_def close_load_def split: sum.split option.split)

section \<open>The resolvers alone\<close>

text \<open>No load is registered: the state between calls of a client used by one goroutine.\<close>

definition no_loads :: "'d client \<Rightarrow> bool" where
  "no_loads c \<longleftrightarrow> orderConditionLoads c = Map.empty \<and> orderMetadataLoads c = Map.empty \<and>
     builderFeeLoads c = Map.empty"

lemma interact_run [simp]: "interact f c = (f (ticks c), tick c)"
  by (simp add: interact_def)

lemma fetchOrderCondition_state [simp]: "snd (fetchOrderCondition E t c) = tick c"
  by (auto simp: fetchOrderCondition_def wrapE_def bindE_def split: sum.splits)

lemma fetchOrderMarketMetadata_state [simp]: "snd (fetchOrderMarketMetadata E t k c) = tick c"
  by (auto simp: fetchOrderMarketMetadata_def wrapE_def bindE_def wrap_err_def Let_def split: sum.splits)

lemma fetchBuilderFeeRate_state [simp]: "snd (fetchBuilderFeeRate E code c) = tick c"
  by (auto simp: fetchBuilderFeeRate_def bindE_def split: sum.splits option.splits)

lemma bindE_lift: "bindE m (\<lambda>x. lift (f x)) c = (rbind (fst (m c)) f, snd (m c))"
  by (auto simp: bindE_def rbind_def split: prod.splits sum.splits)

lemma metadataFinish_error:
  "metadataFinish E q l g (Inl e) c =
     c\<lparr>orderMetadataLoads := drop_load (orderMetadataLoads c) (snd q) l,
       metadataHeap := close_load (metadataHeap c) l (Inl e)\<rparr>"
  by (cases q) (simp add: metadataFinish_def zeroMetadata_def)

lemma drop_load_new: "loads k = None \<Longrightarrow> drop_load (loads(k \<mapsto> l)) k l = loads"
  by (auto simp: drop_load_def)

text \<open>The resolvers when nobody else is loading: a hit, or a fetch between the two critical sections.\<close>

lemma resolveOrderCondition_alone:
  assumes "orderConditionLoads c t = None"
  obtains k where "orderConditionCache c t = Some k" "resolveOrderCondition E t c = (Inr k, c)"
  | r c1 where "orderConditionCache c t = None" "conditionBegin t False c = (Lead (nextLoad c) (orderMetadataGeneration c), c1)"
      "r = fst (fetchOrderCondition E t c1)"
      "resolveOrderCondition E t c =
        (r, conditionFinish t (nextLoad c) (orderMetadataGeneration c) r (tick c1))"
proof (cases "orderConditionCache c t")
  case None
  define c1 where "c1 = snd (conditionBegin t False c)"
  have b: "conditionBegin t False c = (Lead (nextLoad c) (orderMetadataGeneration c), c1)"
    unfolding c1_def by (simp add: conditionBegin_def Let_def None assms)
  have "fetchOrderCondition E t c1 = (fst (fetchOrderCondition E t c1), tick c1)"
    by (metis fetchOrderCondition_state prod.collapse)
  then show ?thesis using that(2) [OF None b refl] b by (simp add: resolveOrderCondition_def case_prod_unfold)
qed (use that(1) in \<open>simp add: resolveOrderCondition_def conditionBegin_def\<close>)

lemma resolveOrderCondition_run:
  assumes "orderConditionLoads c t = None" "resolveOrderCondition E t c = (r, c')"
  shows "orderConditionLoads c' = orderConditionLoads c \<and> orderMetadataLoads c' = orderMetadataLoads c \<and>
    builderFeeLoads c' = builderFeeLoads c \<and> orderMetadataCache c' = orderMetadataCache c \<and>
    orderMetadataGeneration c' = orderMetadataGeneration c \<and> cacheTTL c' = cacheTTL c \<and> ticks c \<le> ticks c' \<and>
    (\<forall>k. r = Inr k \<longrightarrow> orderConditionCache c' t = Some k) \<and>
    (\<forall>k. orderConditionCache c t = Some k \<longrightarrow> r = Inr k \<and> c' = c)"
  using resolveOrderCondition_alone [OF assms(1), of E]
proof cases
  case (2 r' c1)
  note L = condition_flight.begin_lead [of t False c _ _ c1, simplified, OF 2(2)]
  have "orderMetadataLoads c1 = orderMetadataLoads c" "builderFeeLoads c1 = builderFeeLoads c"
    "orderMetadataCache c1 = orderMetadataCache c" "cacheTTL c1 = cacheTTL c" "ticks c1 = ticks c"
    using 2(1,2) assms(1) by (auto simp: conditionBegin_def Let_def)
  then show ?thesis
    using 2(1,4) assms L by (auto simp: conditionFinish_fields drop_load_new)
qed (use assms in auto)

lemma metadataBegin_alone:
  assumes "orderMetadataLoads c k = None"
  obtains v where "metadataBegin E k force c = (Hit v, tick c)" "\<not> force"
      "\<exists>entry. orderMetadataCache c k = Some entry \<and> v = me_value entry \<and> e_clock E (ticks c) < me_expiresAt entry"
  | c1 where "metadataBegin E k force c = (Lead (nextLoad c) (orderMetadataGeneration c), c1)"
      "orderConditionLoads c1 = orderConditionLoads c" "builderFeeLoads c1 = builderFeeLoads c"
      "orderConditionCache c1 = orderConditionCache c" "orderMetadataCache c1 = orderMetadataCache c"
      "cacheTTL c1 = cacheTTL c" "ticks c \<le> ticks c1"
proof (cases "if force then None else orderMetadataCache c k")
  case None
  then show ?thesis using assms that(2) by (simp add: metadataBegin_def Let_def)
next
  case (Some entry)
  then have e: "\<not> force" "orderMetadataCache c k = Some entry" by (auto split: if_splits)
  show ?thesis
  proof (cases "e_clock E (ticks c) < me_expiresAt entry")
    case True
    then show ?thesis using e that(1) [of "me_value entry"] by (simp add: metadataBegin_def)
  next
    case False
    then show ?thesis using e assms that(2) by (simp add: metadataBegin_def Let_def)
  qed
qed

lemma metadataFinish_frame:
  "orderConditionLoads (metadataFinish E q l g r c) = orderConditionLoads c"
  "builderFeeLoads (metadataFinish E q l g r c) = builderFeeLoads c"
  by (cases q; cases r; simp add: metadataFinish_def Let_def publishMetadata_frame)+

lemma metadataFinish_ok:
  assumes "g = orderMetadataGeneration c"
  shows "orderMetadataCache (metadataFinish E (t, k) l g (Inr v) c) =
      (orderMetadataCache c)(k \<mapsto> \<lparr>me_value = v, me_expiresAt = e_clock E (ticks c) + orderMetadataTTL c\<rparr>)"
    "orderConditionCache (metadataFinish E (t, k) l g (Inr v) c) =
      (\<lambda>t. if t \<in> set (md_TokenIDs v) then Some k else orderConditionCache c t)"
    "tickSizeCache (metadataFinish E (t, k) l g (Inr v) c) s =
      (if (s = t \<or> s \<in> set (md_TokenIDs v)) \<and> md_TickSize v \<noteq> [] then Some (md_TickSize v) else tickSizeCache c s)"
    "negRiskCache (metadataFinish E (t, k) l g (Inr v) c) s =
      (if s = t \<or> s \<in> set (md_TokenIDs v) then Some (md_NegRisk v) else negRiskCache c s)"
  using assms
  by (simp_all add: metadataFinish_def Let_def publishMetadata_caches publishMetadata_tick_and_risk orderMetadataTTL_def
      cong: if_cong)

lemma resolveMetadataOf_alone:
  assumes "orderMetadataLoads c k = None"
  obtains v where "resolveMetadataOf E t force k c = (validateOrderMarketToken v t, tick c)" "\<not> force"
      "\<exists>entry. orderMetadataCache c k = Some entry \<and> v = me_value entry \<and> e_clock E (ticks c) < me_expiresAt entry"
  | r c1 where "metadataBegin E k force c = (Lead (nextLoad c) (orderMetadataGeneration c), c1)"
      "orderConditionLoads c1 = orderConditionLoads c" "builderFeeLoads c1 = builderFeeLoads c"
      "orderConditionCache c1 = orderConditionCache c" "orderMetadataCache c1 = orderMetadataCache c"
      "cacheTTL c1 = cacheTTL c" "ticks c \<le> ticks c1"
      "r = rbind (fst (fetchOrderMarketMetadata E t k c1)) (\<lambda>v. validateOrderMarketToken v t)"
      "resolveMetadataOf E t force k c =
        (r, metadataFinish E (t, k) (nextLoad c) (orderMetadataGeneration c) r (tick c1))"
  using metadataBegin_alone [OF assms, of E force]
proof cases
  case (1 v)
  then show ?thesis using that(1) by (simp add: resolveMetadataOf_def)
next
  case (2 c1)
  show ?thesis by (rule that(2) [OF 2 refl]) (simp add: resolveMetadataOf_def 2(1) bindE_lift)
qed

lemma validateOrderMarketToken_Inr:
  "validateOrderMarketToken w t = Inr v \<longleftrightarrow> w = v \<and> (md_TokenIDs v = [] \<or> t \<in> set (md_TokenIDs v))"
  by (auto simp: validateOrderMarketToken_def)

lemma resolveMetadataOf_no_loads:
  assumes "no_loads c"
  shows "no_loads (snd (resolveMetadataOf E t force k c))"
proof -
  have "orderMetadataLoads c k = None" using assms by (simp add: no_loads_def)
  from resolveMetadataOf_alone [OF this, of E t force] show ?thesis
  proof cases
    case (2 r c1)
    have "orderMetadataLoads c1 = (orderMetadataLoads c)(k \<mapsto> nextLoad c)"
      using metadata_flight.begin_lead [of E "(t, k)" force c] 2(1) by simp
    then show ?thesis
      using 2 assms by (simp add: no_loads_def metadataFinish_fields metadataFinish_frame drop_load_new)
  qed (use assms in \<open>simp add: no_loads_def\<close>)
qed

lemma resolveOrderCondition_no_loads:
  assumes "no_loads c"
  shows "no_loads (snd (resolveOrderCondition E t c))"
  using resolveOrderCondition_run [of c t E "fst (resolveOrderCondition E t c)"] assms
  by (simp add: no_loads_def)

lemma resolveOrderMarketMetadata_no_loads:
  assumes "no_loads c"
  shows "no_loads (snd (resolveOrderMarketMetadata E t force c))"
  using resolveOrderCondition_no_loads [OF assms, of E t] resolveMetadataOf_no_loads
  by (auto simp: resolveOrderMarketMetadata_def bindE_def split: prod.splits sum.splits)

lemma resolveBuilderFeeRateCached_no_loads:
  assumes "no_loads c"
  shows "no_loads (snd (resolveBuilderFeeRateCached E code c))"
proof (cases "builderBegin E code False c")
  case (Pair fl c1)
  have none: "builderFeeLoads c code = None" using assms by (simp add: no_loads_def)
  show ?thesis
  proof (cases fl)
    case (Hit v)
    then show ?thesis using Pair assms none
      by (auto simp: resolveBuilderFeeRateCached_def builderBegin_def no_loads_def Let_def
          split: option.splits if_splits)
  next
    case (Join l same)
    then show ?thesis using builder_flight.begin_join [of E code False c l same c1] Pair none by simp
  next
    case (Lead l g)
    then have L: "l = nextLoad c" "builderFeeLoads c1 = (builderFeeLoads c)(code \<mapsto> l)"
      using builder_flight.begin_lead [of E code False c l g c1] Pair by auto
    have "orderConditionLoads c1 = orderConditionLoads c" "orderMetadataLoads c1 = orderMetadataLoads c"
      using Pair Lead by (auto simp: builderBegin_def Let_def split: option.splits if_splits)
    then show ?thesis using Pair Lead L assms
      by (simp add: resolveBuilderFeeRateCached_def no_loads_def builderFinish_fields drop_load_new
          builderFinish_frame case_prod_unfold)
  qed
qed

lemma resolve_forced:
  assumes "no_loads c" "resolveOrderMarketMetadata E t True c = (Inr v, c')"
  obtains k entry n where "orderConditionCache c' t = Some k" "orderMetadataCache c' k = Some entry"
    "me_value entry = v" "me_expiresAt entry = e_clock E n + orderMetadataTTL c" "ticks c < n"
    "md_TokenIDs v = [] \<or> t \<in> set (md_TokenIDs v)"
    "\<forall>s \<in> set (md_TokenIDs v). orderConditionCache c' s = Some k"
    "\<forall>s \<in> insert t (set (md_TokenIDs v)). negRiskCache c' s = Some (md_NegRisk v) \<and>
       (md_TickSize v \<noteq> [] \<longrightarrow> tickSizeCache c' s = Some (md_TickSize v))"
proof -
  obtain k c0 where k: "resolveOrderCondition E t c = (Inr k, c0)"
    and m: "resolveMetadataOf E t True k c0 = (Inr v, c')"
    using assms(2) by (auto simp: resolveOrderMarketMetadata_def go_run)
  have "orderConditionLoads c t = None" using assms(1) by (simp add: no_loads_def)
  note C = resolveOrderCondition_run [OF this k]
  have "orderMetadataLoads c0 k = None" using C assms(1) by (simp add: no_loads_def)
  from resolveMetadataOf_alone [OF this, of E t True] show ?thesis
  proof cases
    case (2 r c1)
    have r: "r = Inr v" "c' = metadataFinish E (t, k) (nextLoad c0) (orderMetadataGeneration c0) (Inr v) (tick c1)"
      using 2 m by auto
    have g: "orderMetadataGeneration c0 = orderMetadataGeneration (tick c1)"
      using metadata_flight.begin_lead [of E "(t, k)" True c0] 2(1) by simp
    have "validateOrderMarketToken v t = Inr v"
      using 2(8) [symmetric] unfolding r(1) by (auto simp: go_run validateOrderMarketToken_Inr)
    then have tok: "md_TokenIDs v = [] \<or> t \<in> set (md_TokenIDs v)" by (simp add: validateOrderMarketToken_Inr)
    note F = metadataFinish_ok [OF g, of E t k "nextLoad c0" v, folded r(2)]
    show ?thesis
    proof (rule that [of k _ "Suc (ticks c1)"])
      show "orderMetadataCache c' k =
          Some \<lparr>me_value = v, me_expiresAt = e_clock E (Suc (ticks c1)) + orderMetadataTTL (tick c1)\<rparr>"
        using F by simp
    qed (use F(2-4) tok 2(4,6,7) C in \<open>auto simp: orderMetadataTTL_def\<close>)
  qed simp
qed

lemma resolve_hit:
  assumes "orderConditionCache c t = Some k" "orderMetadataCache c k = Some entry"
    "e_clock E (ticks c) < me_expiresAt entry" "validateOrderMarketToken (me_value entry) t = Inr v"
  shows "resolveOrderMarketMetadata E t False c = (Inr v, tick c)"
  using assms
  by (simp add: resolveOrderMarketMetadata_def resolveOrderCondition_def resolveMetadataOf_def
      conditionBegin_def metadataBegin_def bindE_def)

section \<open>Properties\<close>

text \<open>
  A forced refresh that succeeds leaves a consistent snapshot.  The fetched market contains the token (or
  lists no tokens); its entry is stored under the token's condition and expires one TTL after it was stored; every token of
  the market maps to that condition and reads the new tick size and negative-risk flag from the scalar
  caches; and until the entry expires, a lookup of any of these tokens returns the same snapshot without a request.
\<close>

theorem forced_refresh_publishes:
  assumes "no_loads c" "resolveOrderMarketMetadata E t True c = (Inr v, c')"
  shows "(md_TokenIDs v = [] \<or> t \<in> set (md_TokenIDs v)) \<and>
    (\<forall>s \<in> insert t (set (md_TokenIDs v)). negRiskCache c' s = Some (md_NegRisk v) \<and>
       (md_TickSize v \<noteq> [] \<longrightarrow> tickSizeCache c' s = Some (md_TickSize v))) \<and>
    (\<exists>k entry n. orderMetadataCache c' k = Some entry \<and> me_value entry = v \<and>
       me_expiresAt entry = e_clock E n + orderMetadataTTL c \<and> ticks c < n \<and>
       (\<forall>s \<in> insert t (set (md_TokenIDs v)). orderConditionCache c' s = Some k \<and>
          (e_clock E (ticks c') < me_expiresAt entry \<longrightarrow>
             resolveOrderMarketMetadata E s False c' = (Inr v, tick c'))))"
proof -
  obtain k entry n where R: "orderConditionCache c' t = Some k" "orderMetadataCache c' k = Some entry"
    "me_value entry = v" "me_expiresAt entry = e_clock E n + orderMetadataTTL c" "ticks c < n"
    "md_TokenIDs v = [] \<or> t \<in> set (md_TokenIDs v)"
    "\<forall>s \<in> set (md_TokenIDs v). orderConditionCache c' s = Some k"
    "\<forall>s \<in> insert t (set (md_TokenIDs v)). negRiskCache c' s = Some (md_NegRisk v) \<and>
       (md_TickSize v \<noteq> [] \<longrightarrow> tickSizeCache c' s = Some (md_TickSize v))"
    using resolve_forced [OF assms] .
  have hit: "resolveOrderMarketMetadata E s False c' = (Inr v, tick c')"
    if "s \<in> insert t (set (md_TokenIDs v))" "e_clock E (ticks c') < me_expiresAt entry" for s
    using that R(1-3,6,7) by (intro resolve_hit) (auto simp: validateOrderMarketToken_Inr)
  show ?thesis
    using R hit by (intro conjI exI [of _ k] exI [of _ entry] exI [of _ n] ballI impI) auto
qed

lemma isr_witness: "\<not> isl (fst p) \<Longrightarrow> p = (Inr (projr (fst p)), snd p)"
  by (cases "fst p") (auto intro: prod_eqI)

theorem forced_refresh_publishes_witness:
  "\<exists>v c'. resolveOrderMarketMetadata demo_env ''111'' True demo_client = (Inr v, c') \<and>
     tickSizeCache c' ''222'' = Some ''0.01''"
proof -
  let ?p = "resolveOrderMarketMetadata demo_env ''111'' True demo_client"
  have n: "no_loads demo_client" by (simp add: no_loads_def demo_client_def newClientCacheState_def clientCacheState.defs)
  have ok: "\<not> isl (fst ?p)" by code_simp
  have v: "md_TickSize (projr (fst ?p)) = ''0.01''" "''222'' \<in> set (md_TokenIDs (projr (fst ?p)))"
    by code_simp+
  show ?thesis
    using forced_refresh_publishes [OF n isr_witness [OF ok]] v isr_witness [OF ok] by (metis insertCI list.distinct(1))
qed

text \<open>
  The resolvers release every load they register, whether the fetch succeeds or fails, so a later
  caller never waits for a load that has no leader.
\<close>

theorem loads_released:
  assumes "no_loads c"
  shows "no_loads (snd (resolveOrderMarketMetadata E t force c)) \<and>
    no_loads (snd (resolveBuilderFeeRateCached E code c))"
  using resolveOrderMarketMetadata_no_loads [OF assms] resolveBuilderFeeRateCached_no_loads [OF assms] by blast

theorem loads_released_witness:
  "no_loads demo_client \<and> no_loads (snd (resolveOrderMarketMetadata demo_env ''111'' False demo_client))"
  using loads_released [of demo_client demo_env "''111''" False]
  by (simp add: no_loads_def demo_client_def newClientCacheState_def clientCacheState.defs)

text \<open>
  The eviction of a stale condition does not happen.  When the market of a cached condition turns out not to
  list the token, the second critical section means to delete the condition and the metadata entry, but the failed
  validation has already replaced the value by the zero value, whose token set is empty: a forced lookup fails, and
  the stale condition and the metadata stay cached.
\<close>

theorem stale_condition_survives:
  assumes "no_loads c" "orderConditionCache c t = Some k"
    and "e_GetClobMarket E (ticks c) k = Inr market" "t \<notin> set (List.map_filter (map_option ct_TokenID) (cm_Tokens market))"
    and "List.map_filter (map_option ct_TokenID) (cm_Tokens market) \<noteq> []" "feeInfoFromMarket (e_U E) market = Inr fee"
  shows "\<exists>e c'. resolveOrderMarketMetadata E t True c = (Inl e, c') \<and> orderConditionCache c' t = Some k \<and>
    orderMetadataCache c' = orderMetadataCache c"
proof -
  have "orderMetadataLoads c k = None" using assms(1) by (simp add: no_loads_def)
  from resolveMetadataOf_alone [OF this, of E t True] show ?thesis
  proof cases
    case (2 r c1)
    have "ticks c1 = ticks c" using 2(1) assms(1) by (auto simp: metadataBegin_def no_loads_def Let_def)
    then have "\<exists>e. r = Inl e"
      using 2(8) assms(3-6)
      by (auto simp: fetchOrderMarketMetadata_def wrapE_def bindE_def validateOrderMarketToken_def Let_def)
    moreover have "resolveOrderCondition E t c = (Inr k, c)"
      using assms(2) by (simp add: resolveOrderCondition_def conditionBegin_def)
    ultimately show ?thesis
      using 2(4,5,9) assms(2) by (auto simp: resolveOrderMarketMetadata_def bindE_def metadataFinish_error)
  qed simp
qed

theorem stale_condition_survives_witness:
  "\<exists>e c'. resolveOrderMarketMetadata demo_env ''999'' True
       (demo_client\<lparr>orderConditionCache := [''999'' \<mapsto> ''0xc0'']\<rparr>) = (Inl e, c') \<and>
     orderConditionCache c' ''999'' = Some ''0xc0''"
proof -
  let ?c = "demo_client\<lparr>orderConditionCache := [''999'' \<mapsto> ''0xc0'']\<rparr>"
  have "no_loads ?c" by (simp add: no_loads_def demo_client_def newClientCacheState_def clientCacheState.defs)
  moreover have "e_GetClobMarket demo_env (ticks ?c) ''0xc0'' = Inr demo_market" by (simp add: demo_env_def)
  moreover have "''999'' \<notin> set (List.map_filter (map_option ct_TokenID) (cm_Tokens demo_market))"
    "List.map_filter (map_option ct_TokenID) (cm_Tokens demo_market) \<noteq> []" by code_simp+
  moreover have "\<not> isl (feeInfoFromMarket (e_U demo_env) demo_market)" by code_simp
  then obtain fee where "feeInfoFromMarket (e_U demo_env) demo_market = Inr fee"
    by (cases "feeInfoFromMarket (e_U demo_env) demo_market") auto
  ultimately show ?thesis
    using stale_condition_survives [of ?c "''999''" "''0xc0''" demo_env demo_market fee] by auto
qed

text \<open>
  C5: in every reachable state of any number of goroutines, at most one goroutine fetches the metadata of a
  condition, and a goroutine that waits for a load waits for one that is finished or that some goroutine is still fetching.
\<close>

theorem metadata_single_flight:
  assumes "flight_reachable (metadataFlight E) metadataClears s"
  shows "(\<forall>i j t t' k l l' g g' b b'. fs_threads s i = Fetching (t, k) l g b \<longrightarrow>
      fs_threads s j = Fetching (t', k) l' g' b' \<longrightarrow> i = j) \<and>
    (\<forall>i t k force l same. fs_threads s i = Waiting (t, k) force l same \<longrightarrow>
      (\<exists>ld r. metadataHeap (fs_shared s) l = Some ld \<and> ld_result ld = Some r) \<or>
      (\<exists>j t' g b. fs_threads s j = Fetching (t', k) l g b))"
proof (intro conjI allI impI)
  fix i j t t' k l l' g g' b b'
  assume "fs_threads s i = Fetching (t, k) l g b" "fs_threads s j = Fetching (t', k) l' g' b'"
  then show "i = j" by (rule metadata_flight.one_leader [OF assms]) simp
next
  fix i t k force l same
  assume "fs_threads s i = Waiting (t, k) force l same"
  from metadata_flight.waiter_has_leader [OF assms this]
  show "(\<exists>ld r. metadataHeap (fs_shared s) l = Some ld \<and> ld_result ld = Some r) \<or>
      (\<exists>j t' g b. fs_threads s j = Fetching (t', k) l g b)" by (metis metadataFlight_sel(1,5) snd_conv surj_pair)
qed

text \<open>
  C6: below \<open>2^64\<close> clearing operations, a metadata entry in the cache was fetched after the last operation that
  cleared its condition: a fetch that was in flight during a clear never stores what it read.
\<close>

theorem metadata_never_stale:
  assumes "flight_reachable (metadataFlight E) metadataClears s" "fs_clears s < 2 ^ 64"
    and "orderMetadataCache (fs_shared s) k = Some entry"
  shows "fs_cleared s k \<le> fs_origin s k"
  using metadata_flight.stored_after_clear [OF assms(1,2), of k "me_value entry"] assms(3) by simp

text \<open>
  The builder fee cache has the same two guarantees, a single fetch per builder code and no stale entry.
\<close>

theorem builder_single_flight_fresh:
  assumes "flight_reachable (builderFlight E) builderClears s"
  shows "(\<forall>i j code l l' g g' b b'. fs_threads s i = Fetching code l g b \<longrightarrow>
      fs_threads s j = Fetching code l' g' b' \<longrightarrow> i = j) \<and>
    (\<forall>code entry. fs_clears s < 2 ^ 64 \<longrightarrow> builderFeeCache (fs_shared s) code = Some entry \<longrightarrow>
      fs_cleared s code \<le> fs_origin s code)"
  using builder_flight.one_leader [OF assms] builder_flight.stored_after_clear [OF assms]
  by (auto simp: comp_def)

text \<open>A run in which one goroutine fetches while another waits, and one in which the fetch is stored.\<close>

definition demo_sys :: "(dec client, 'q, 'k, 'v) flight_sys" where
  "demo_sys = \<lparr>fs_shared = demo_client, fs_threads = (\<lambda>_. Idle), fs_clears = 0, fs_origin = (\<lambda>_. 0),
     fs_cleared = (\<lambda>_. 0)\<rparr>"

lemma demo_client_fields [simp]:
  "orderMetadataGeneration demo_client = 0" "orderConditionCache demo_client = Map.empty"
  "orderConditionLoads demo_client = Map.empty" "orderMetadataCache demo_client = Map.empty"
  "orderMetadataLoads demo_client = Map.empty" "builderFeeCache demo_client = Map.empty"
  "builderFeeLoads demo_client = Map.empty" "conditionHeap demo_client = Map.empty"
  "metadataHeap demo_client = Map.empty" "builderHeap demo_client = Map.empty" "nextLoad demo_client = 0"
  by (simp_all add: demo_client_def newClientCacheState_def clientCacheState.defs)

lemma demo_sys_init:
  "flight_init (metadataFlight demo_env) demo_sys" "flight_init (builderFlight demo_env) demo_sys"
  by (simp_all add: flight_init_def demo_sys_def)

lemma demo_leader:
  fixes F :: "(dec client, 'q, 'k, 'v) flight_ops"
  assumes "flight_init F demo_sys" "fo_begin F q False demo_client = (Lead l g, sh)"
  shows "\<exists>s. flight_reachable F clr s \<and> fs_shared s = sh \<and> fs_threads s 0 = Fetching q l g 0 \<and>
    fs_threads s 1 = Idle \<and> fs_clears s = 0"
proof -
  let ?s = "(demo_sys :: (dec client, 'q, 'k, 'v) flight_sys)\<lparr>fs_threads := (fs_threads (demo_sys :: (dec client, 'q, 'k, 'v) flight_sys))(0 := AtLoop q False)\<rparr>"
  let ?t = "?s\<lparr>fs_shared := sh, fs_threads := (fs_threads ?s)(0 := Fetching q l g (fs_clears ?s))\<rparr>"
  have "flight_step F clr demo_sys ?s" by (rule flight_step.call) (simp add: demo_sys_def)
  moreover have "flight_step F clr ?s ?t"
    by (rule flight_step.lead [where force = False]) (simp_all add: demo_sys_def assms(2))
  ultimately have "flight_reachable F clr ?t" by (meson assms(1) flight_reachable.intros)
  then show ?thesis by (intro exI [of _ ?t]) (simp add: demo_sys_def)
qed

lemma demo_stored:
  fixes F :: "(dec client, 'q, 'k, 'v) flight_ops"
  assumes "flight_init F demo_sys" "fo_begin F q False demo_client = (Lead l g, sh)"
  shows "\<exists>s. flight_reachable F clr s \<and> fs_shared s = fo_finish F q l g r sh \<and> fs_clears s = 0"
proof -
  obtain s where s: "flight_reachable F clr s" "fs_shared s = sh" "fs_threads s 0 = Fetching q l g 0" "fs_clears s = 0"
    using demo_leader [OF assms] by blast
  note t = flight_reachable.step [OF s(1) flight_step.complete [OF s(3), of F clr r]]
  show ?thesis by (rule exI, rule conjI, rule t) (simp add: s)
qed

lemma demo_metadata_begin:
  "metadataBegin demo_env ''0xc0'' False demo_client =
     (Lead 0 0, demo_client\<lparr>orderMetadataLoads := [''0xc0'' \<mapsto> 0], metadataHeap := [0 \<mapsto> new_load 0], nextLoad := 1\<rparr>)"
  by (simp add: metadataBegin_def)

theorem metadata_single_flight_witness:
  "\<exists>s :: (dec client, string \<times> string, string, dec orderMarketMetadata) flight_sys.
     flight_reachable (metadataFlight demo_env) metadataClears s \<and>
     fs_threads s 0 = Fetching (''111'', ''0xc0'') 0 0 0 \<and>
     (\<forall>j l g b. fs_threads s j = Fetching (''222'', ''0xc0'') l g b \<longrightarrow> 0 = j)"
proof -
  obtain s :: "(dec client, string \<times> string, string, dec orderMarketMetadata) flight_sys"
    where s: "flight_reachable (metadataFlight demo_env) metadataClears s"
      "fs_threads s 0 = Fetching (''111'', ''0xc0'') 0 0 0"
    using demo_leader [OF demo_sys_init(1), of "(''111'', ''0xc0'')" 0 0 _ metadataClears] demo_metadata_begin
    by fastforce
  show ?thesis
  proof (intro exI [of _ s] conjI allI impI s)
    fix j l g b assume "fs_threads s j = Fetching (''222'', ''0xc0'') l g b"
    with conjunct1 [OF metadata_single_flight [OF s(1)]] s(2) show "0 = j" by (elim allE impE)
  qed
qed

theorem metadata_never_stale_witness:
  "\<exists>s :: (dec client, string \<times> string, string, dec orderMarketMetadata) flight_sys.
     flight_reachable (metadataFlight demo_env) metadataClears s \<and>
     orderMetadataCache (fs_shared s) ''0xc0'' \<noteq> None \<and> fs_cleared s ''0xc0'' \<le> fs_origin s ''0xc0''"
proof -
  obtain s :: "(dec client, string \<times> string, string, dec orderMarketMetadata) flight_sys"
    where s: "flight_reachable (metadataFlight demo_env) metadataClears s" "fs_clears s = 0"
      "fs_shared s = metadataFinish demo_env (''111'', ''0xc0'') 0 0 (Inr (zeroMetadata dec19_ops))
         (demo_client\<lparr>orderMetadataLoads := [''0xc0'' \<mapsto> 0], metadataHeap := [0 \<mapsto> new_load 0], nextLoad := 1\<rparr>)"
    using demo_stored [OF demo_sys_init(1), of "(''111'', ''0xc0'')" 0 0 _ metadataClears] demo_metadata_begin
    by fastforce
  then have "\<exists>e. orderMetadataCache (fs_shared s) ''0xc0'' = Some e" by (simp add: metadataFinish_ok)
  then show ?thesis using metadata_never_stale [OF s(1)] s by auto
qed

theorem builder_single_flight_fresh_witness:
  "\<exists>s :: (dec client, string, string, BuilderFeeRateResponse) flight_sys.
     flight_reachable (builderFlight demo_env) builderClears s \<and>
     fs_threads s 0 = Fetching ''b'' 0 0 0 \<and>
     (\<forall>j l g b. fs_threads s j = Fetching ''b'' l g b \<longrightarrow> 0 = j)"
proof -
  have "fo_begin (builderFlight demo_env) ''b'' False demo_client =
      (Lead 0 0, demo_client\<lparr>builderFeeLoads := [''b'' \<mapsto> 0], builderHeap := [0 \<mapsto> new_load 0], nextLoad := 1\<rparr>)"
    by (simp add: builderBegin_def)
  from demo_leader [OF demo_sys_init(2) this, of builderClears] show ?thesis
    using builder_single_flight_fresh [of demo_env] by blast
qed

end
