(* ===== verification/CoreProperties.thy ===== *)
theory CoreProperties
  imports OrderMetadata
begin

text \<open>
  Properties of the order arithmetic, of decimal literals and of the scalar caches of a client, stated over the decimals'
  rational values and the client's state.
\<close>

section \<open>Arithmetic\<close>

text \<open>
  \<open>roundToAmount\<close> returns a number with at most the configured number of decimal places.  It leaves numbers that already fit
  alone; otherwise the result is less than one unit in the last kept place below and less than one ten-thousandth of that unit above.
\<close>

theorem roundToAmount_correct:
  assumes "udecimal U val" "0 \<le> val v"
  shows "on_grid (rc_Amount cfg) (val (roundToAmount U v cfg)) \<and>
    (u_prec U v \<le> rc_Amount cfg \<longrightarrow> roundToAmount U v cfg = v) \<and>
    val v - 1 / 10 ^ rc_Amount cfg < val (roundToAmount U v cfg) \<and>
    val (roundToAmount U v cfg) < val v + 1 / 10 ^ (rc_Amount cfg + 4)"
  using udecimal.roundToAmount_grid [OF assms(1)] udecimal.roundToAmount_same [OF assms(1)]
    udecimal.roundToAmount_bounds [OF assms] by simp

theorem roundToAmount_correct_witness:
  "dval (Dec 12345678000000000000) - 1 / 10 ^ 3
     < dval (roundToAmount dec19_ops (Dec 12345678000000000000) \<lparr>rc_Price = 1, rc_Size = 2, rc_Amount = 3\<rparr>)"
proof -
  have "0 \<le> dval (Dec 12345678000000000000)" by (simp add: dval_def dscale_def)
  from roundToAmount_correct [OF dec19.udecimal_axioms this, of "\<lparr>rc_Price = 1, rc_Size = 2, rc_Amount = 3\<rparr>"]
  show ?thesis by simp
qed

text \<open>
  The base units of a nonnegative decimal are the whole millionths it contains; converting a decimal with at most six places
  loses nothing.
\<close>

theorem base_units_correct:
  assumes "udecimal U val" "0 \<le> val v"
  shows "decimalBaseUnits U v = Some \<lfloor>val v * 10 ^ 6\<rfloor> \<and>
    (on_grid 6 (val v) \<longrightarrow> (\<exists>n. decimalBaseUnits U v = Some n \<and> of_int n = val v * 10 ^ 6))"
  using udecimal.decimalBaseUnits_floor [OF assms] udecimal.decimalBaseUnits_exact [OF assms, of 6] by blast

theorem base_units_correct_witness: "decimalBaseUnits dec19_ops (Dec 12345678000000000000) = Some 1234567"
proof -
  have "0 \<le> dval (Dec 12345678000000000000)" by (simp add: dval_def dscale_def)
  moreover have "\<lfloor>dval (Dec 12345678000000000000) * 10 ^ 6\<rfloor> = 1234567"
    by (simp add: dval_def dscale_def floor_eq_iff)
  ultimately show ?thesis using base_units_correct [OF dec19.udecimal_axioms, of "Dec 12345678000000000000"] by simp
qed

text \<open>
  A decimal literal of a REST response (sign, fraction, exponent) is converted to a decimal of exactly its mathematical value, or
  refused.
\<close>

theorem decimal_string_exact:
  assumes "udecimal U val" "DecimalString_Decimal U s = Inr d" "s \<noteq> []"
  shows "val d = literal_value s"
  using udecimal.DecimalString_Decimal_value [OF assms] .

theorem decimal_string_exact_witness:
  "\<exists>d. DecimalString_Decimal dec19_ops ''-12.50e-3'' = Inr d \<and> dval d = literal_value ''-12.50e-3''"
proof -
  have "DecimalString_Decimal dec19_ops ''-12.50e-3'' = Inr (Dec (-125000000000000000))" by code_simp
  with decimal_string_exact [OF dec19.udecimal_axioms this] show ?thesis by blast
qed

text \<open>
  An expiration passes exactly when it is zero or at least three minutes ahead of the clock.  The comparison is made on 64-bit
  unsigned seconds and is exact as long as the clock plus three minutes fits.
\<close>

theorem gtd_expiration_exact:
  assumes "0 \<le> now" "now + 180 < 2 ^ 64"
  shows "validateGTDExpiration expiration now = Inr () \<longleftrightarrow> expiration = 0 \<or> now + 180 \<le> uint expiration"
proof -
  have "uint (word_of_int now + minGTDExpirationSeconds :: 64 word) = now + 180"
    using assms by (simp add: minGTDExpirationSeconds_def uint_word_ariths uint_word_of_int)
  then show ?thesis
    by (auto simp: validateGTDExpiration_def Let_def word_less_def split: if_splits)
qed

theorem gtd_expiration_exact_witness:
  "validateGTDExpiration 1700000200 1700000000 = Inr () \<and> validateGTDExpiration 1700000100 1700000000 \<noteq> Inr ()"
  using gtd_expiration_exact [of 1700000000 1700000200] gtd_expiration_exact [of 1700000000 1700000100] by simp

section \<open>Scalar caches\<close>

text \<open>
  A tick size that was set is read back for its token until it expires (never, without a time to live), no other token is
  affected, and after clearing the token the cache has neither a tick size nor a neg-risk flag nor a condition for it.
\<close>

theorem tick_cache_round_trip:
  assumes "cacheTTL c = 0 \<or> e_clock E (Suc (ticks c)) - e_clock E (ticks c) < cacheTTL c"
  shows "fst (cachedTickSize E t (SetTickSize E t sz c)) = Some sz \<and>
    (t' \<noteq> t \<longrightarrow> tickSizeCache (SetTickSize E t sz c) t' = tickSizeCache c t') \<and>
    fst (cachedTickSize E t (ClearTickSizeCache t c)) = None \<and>
    fst (cachedNegRisk E t (ClearTickSizeCache t c)) = None \<and>
    orderConditionCache (ClearTickSizeCache t c) t = None"
  using assms
  by (auto simp: cachedTickSize_def cachedNegRisk_def SetTickSize_def ClearTickSizeCache_def clearOrderMetadata_def fresh_def
      Let_def split: option.splits)

theorem tick_cache_round_trip_witness:
  "fst (cachedTickSize demo_env ''111'' (SetTickSize demo_env ''111'' ''0.001'' demo_client)) = Some ''0.001''"
proof -
  have "cacheTTL demo_client = 0" by code_simp
  then show ?thesis using tick_cache_round_trip [of demo_client demo_env "''111''" "''0.001''"] by simp
qed

text \<open>
  Invalidating all caches leaves every cache empty and the server version unknown, moves every generation on, so that a
  fetch in flight cannot repopulate them, and leaves the loads in flight registered.
\<close>

theorem invalidate_empties:
  "feeRateCache (InvalidateCaches c) = Map.empty \<and> tickSizeCache (InvalidateCaches c) = Map.empty \<and>
   negRiskCache (InvalidateCaches c) = Map.empty \<and> orderConditionCache (InvalidateCaches c) = Map.empty \<and>
   orderMetadataCache (InvalidateCaches c) = Map.empty \<and> builderFeeCache (InvalidateCaches c) = Map.empty \<and>
   cachedVersion (InvalidateCaches c) = 0 \<and>
   feeRateGeneration (InvalidateCaches c) \<noteq> feeRateGeneration c \<and>
   tickSizeGeneration (InvalidateCaches c) \<noteq> tickSizeGeneration c \<and>
   negRiskGeneration (InvalidateCaches c) \<noteq> negRiskGeneration c \<and>
   orderMetadataGeneration (InvalidateCaches c) \<noteq> orderMetadataGeneration c \<and>
   orderMetadataLoads (InvalidateCaches c) = orderMetadataLoads c"
  by (simp add: InvalidateCaches_def clearAllOrderMetadata_def invalidateServerVersion_def Let_def)

text \<open>
  A caller's tick size is accepted only if it is not finer than the market's.  The market tick size is the cached one or the one
  fetched now; without an option it is returned as it is.
\<close>

theorem tick_option_not_finer:
  assumes "udecimal (e_U E) val" "resolveTickSize E tokenID options c = (Inr t, c')"
  shows "\<exists>market. (tickSizeCache c tokenID = Some market \<or> (\<exists>n. e_GetTickSize E n tokenID = Inr market)) \<and>
    (case options of
       None \<Rightarrow> t = market
     | Some o' \<Rightarrow>
         if opt_TickSize o' = [] then t = market
         else t = opt_TickSize o' \<and>
           (\<exists>a b. u_parse (e_U E) t = Inr a \<and> u_parse (e_U E) market = Inr b \<and> val b \<le> val a))"
proof -
  obtain hit c1 where h: "cachedTickSize E tokenID c = (hit, c1)" by fastforce
  then have hit: "hit = Some m \<Longrightarrow> tickSizeCache c tokenID = Some m" for m
    by (auto simp: cachedTickSize_def Let_def split: option.splits prod.splits if_splits)
  obtain market where m: "tickSizeCache c tokenID = Some market \<or> (\<exists>n. e_GetTickSize E n tokenID = Inr market)"
    "checkTickOption (e_U E) options market = Inr t"
    using assms(2) h hit by (auto simp: resolveTickSize_def go_run split: option.splits)
  then show ?thesis
    using udecimal.cmp_simps(2) [OF assms(1)]
    by (intro exI [of _ market])
      (auto simp: checkTickOption_def isTickSizeSmaller_def go_run not_less split: option.splits if_splits)
qed

theorem tick_option_not_finer_witness:
  "\<exists>c'. resolveTickSize demo_env ''111'' (Some \<lparr>opt_TickSize = ''0.1'', opt_NegRisk = None\<rparr>) demo_client = (Inr ''0.1'', c') \<and>
     (\<exists>market a b. u_parse dec19_ops ''0.1'' = Inr a \<and> u_parse dec19_ops market = Inr b \<and> dval b \<le> dval a)"
proof -
  let ?p = "resolveTickSize demo_env ''111'' (Some \<lparr>opt_TickSize = ''0.1'', opt_NegRisk = None\<rparr>) demo_client"
  have "\<not> isl (fst ?p)" "projr (fst ?p) = ''0.1''" by code_simp+
  then have p: "?p = (Inr ''0.1'', snd ?p)" using isr_witness [of ?p] by simp
  have "udecimal (e_U demo_env) dval" "e_U demo_env = dec19_ops" by (simp_all add: demo_env_def dec19.udecimal_axioms)
  with tick_option_not_finer [OF this(1) p] p show ?thesis by auto
qed

end
