(* ===== verification/OrderContext.thy ===== *)
theory OrderContext
  imports OrderMetadata
begin

text \<open>
  \<open>clob/order_context.go\<close>, \<open>clob/order_fees.go\<close> and \<open>clob/order_pricing.go\<close>: checking a price against the
  tick size with one refresh of the market snapshot, the fee-aware budget of a buy order, and the price that
  crosses enough of the order book.
\<close>

section \<open>Price validation with refresh\<close>

text \<open>The closure \<open>validate\<close> of \<open>validateLimitPriceWithRefresh\<close>.\<close>

definition validateLimitPrice :: "'d udecimal_ops \<Rightarrow> 'd \<Rightarrow> TickSize \<Rightarrow> unit result" where
  "validateLimitPrice U price sz =
     rbind (validatePrice U price sz) (\<lambda>_.
     rbind (validateLimitPricePrecision U price sz) (\<lambda>_.
       validateTickAlignment U price sz))"

definition tickSizeOption :: "CreateOrderOptions option \<Rightarrow> bool" where
  "tickSizeOption options = (case options of None \<Rightarrow> False | Some o' \<Rightarrow> opt_TickSize o' \<noteq> [])"

definition validateLimitPriceWithRefresh ::
  "'d env \<Rightarrow> string \<Rightarrow> 'd \<Rightarrow> TickSize \<Rightarrow> CreateOrderOptions option \<Rightarrow> ('d client, TickSize) act" where
  "validateLimitPriceWithRefresh E tokenID price tickSize options =
     (case validateLimitPrice (e_U E) price tickSize of
        Inr _ \<Rightarrow> ret tickSize
      | Inl err \<Rightarrow>
          if tickSizeOption options then fail err
          else (\<lambda>c. case resolveOrderMarketMetadata E tokenID True c of
                 (Inr metadata, c') \<Rightarrow>
                   if md_TickSize metadata \<noteq> []
                   then (rbind (validateLimitPrice (e_U E) price (md_TickSize metadata))
                           (\<lambda>_. Inr (md_TickSize metadata)), c')
                   else (Inl err, c')
               | (Inl _, c') \<Rightarrow> (Inl err, c')))"

section \<open>Fee-aware budget\<close>

definition adjustOrderBuyAmount ::
  "'d env \<Rightarrow> string \<Rightarrow> 'd \<Rightarrow> 'd \<Rightarrow> 'd \<Rightarrow> string \<Rightarrow> ('d client, 'd) act" where
  "adjustOrderBuyAmount E assetID amount price budget builderCode =
     bindE (wrapE ''resolve order fee metadata'' (resolveOrderMarketMetadata E assetID False)) (\<lambda>metadata.
     bindE (wrapE ''resolve builder fee rate'' (resolveBuilderFeeRateCached E builderCode)) (\<lambda>builderFee.
       lift (adjustMarketBuyAmount (e_U E) amount budget price
               (fi_Rate (md_FeeInfo metadata)) (fi_Exponent (md_FeeInfo metadata))
               (u_from_int64 (e_U E) (uint (bf_BuilderTakerFeeRateBps builderFee)) 4))))"

section \<open>Market price\<close>

fun parseLevels :: "'d udecimal_ops \<Rightarrow> OrderSummary list \<Rightarrow> ('d \<times> 'd) list result" where
  "parseLevels U [] = Inr []"
| "parseLevels U (l # ls) =
     rbind (wrap_err ''parse price'' (u_parse U (lv_Price l))) (\<lambda>p.
     rbind (wrap_err ''parse size'' (u_parse U (lv_Size l))) (\<lambda>s.
     rbind (parseLevels U ls) (\<lambda>rest. Inr ((p, s) # rest))))"

text \<open>The loop over the parsed levels, best level first; \<open>None\<close> when it ends without reaching the amount.\<close>

fun walkBook :: "'d udecimal_ops \<Rightarrow> Side \<Rightarrow> 'd \<Rightarrow> 'd \<Rightarrow> ('d \<times> 'd) list \<Rightarrow> 'd option" where
  "walkBook U side amount acc [] = None"
| "walkBook U side amount acc ((price, sz) # levels) =
     (let acc' = (if side = SideBuy then u_add U acc (u_mul U sz price) else u_add U acc sz)
      in if 0 \<le> u_cmp U acc' amount then Some price else walkBook U side amount acc' levels)"

definition bookLevels :: "Side \<Rightarrow> OrderBookSummary \<Rightarrow> OrderSummary list result" where
  "bookLevels side book =
     (if side = SideBuy then Inr (ob_Asks book)
      else if side = SideSell then Inr (ob_Bids book)
      else Inl (Msg ''invalid side''))"

definition CalculateMarketPrice ::
  "'d env \<Rightarrow> string \<Rightarrow> Side \<Rightarrow> 'd \<Rightarrow> OrderType \<Rightarrow> ('d client, 'd) act" where
  "CalculateMarketPrice E tokenID side amount orderType =
     (if u_cmp (e_U E) amount (u_zero (e_U E)) \<le> 0 then fail (Msg ''amount must be positive'')
      else
        let orderType = (if orderType = [] then OrderTypeFOK else orderType)
        in bindE (interact (\<lambda>n. e_GetOrderBook E n tokenID)) (\<lambda>book. lift (
             rbind (bookLevels side book) (\<lambda>levels.
             if levels = [] then Inl (Msg ''no opposing orders for token'')
             else rbind (parseLevels (e_U E) levels) (\<lambda>parsedLevels.
               case walkBook (e_U E) side amount (u_zero (e_U E)) (rev parsedLevels) of
                 Some price \<Rightarrow> Inr price
               | None \<Rightarrow>
                   if orderType = OrderTypeFOK then Inl (Msg ''insufficient liquidity to fill amount'')
                   else Inr (fst (parsedLevels ! 0)))))))"

section \<open>What validation and pricing establish\<close>

text \<open>
  The platform fee rate of a share at a price, \<open>rate * (price * (1 - price))^exponent\<close> in the decimals of the code, and the
  cost of a maker amount with the platform and builder fees it incurs.
\<close>

definition platformFeeRate :: "'d udecimal_ops \<Rightarrow> 'd FeeInfo \<Rightarrow> 'd \<Rightarrow> 'd" where
  "platformFeeRate U fee price =
     u_mul U (fi_Rate fee)
       (u_pow_int U (u_mul U price (u_sub U (u_from_int64 U 1 0) price)) (uint (fi_Exponent fee)))"

definition costWithFees :: "rat \<Rightarrow> rat \<Rightarrow> rat \<Rightarrow> rat \<Rightarrow> rat" where
  "costWithFees maker price platformRate builderRate =
     maker + maker / price * platformRate + maker * builderRate"

lemma costWithFees_factor: "costWithFees m p f b = m * (1 + f / p + b)"
  by (simp add: costWithFees_def algebra_simps)

text \<open>A price that fits a tick size: within one tick of the ends, no finer than the tick, a multiple of it.\<close>

definition fits_tick :: "'d udecimal_ops \<Rightarrow> ('d \<Rightarrow> rat) \<Rightarrow> 'd \<Rightarrow> TickSize \<Rightarrow> bool" where
  "fits_tick U val price t \<longleftrightarrow>
     (\<exists>m. u_parse U t = Inr m \<and> val m \<le> val price \<and> val price \<le> 1 - val m \<and>
        u_prec U price \<le> u_prec U m \<and> (\<exists>k::int. val price = of_int k * val m))"

text \<open>The liquidity of book levels: notional for a buy, shares for a sell.\<close>

definition liquidity :: "'d udecimal_ops \<Rightarrow> ('d \<Rightarrow> rat) \<Rightarrow> Side \<Rightarrow> ('d \<times> 'd) list \<Rightarrow> rat" where
  "liquidity U val side levels =
     sum_list (map (\<lambda>(price, sz). if side = SideBuy then val (u_mul U sz price) else val sz) levels)"

lemma liquidity_simps [simp]:
  "liquidity U val side [] = 0"
  "liquidity U val side ((p, s) # ls) =
     (if side = SideBuy then val (u_mul U s p) else val s) + liquidity U val side ls"
  by (simp_all add: liquidity_def)

lemma parseLevels_length: "parseLevels U ls = Inr ps \<Longrightarrow> length ps = length ls"
  by (induction ls arbitrary: ps) (auto simp: go_run)

context udecimal
begin

lemma validateTickAlignment_multiple:
  assumes "validateTickAlignment U price t = Inr u"
  shows "\<exists>m. u_parse U t = Inr m \<and> (\<exists>k::int. val price = of_int k * val m)"
  using assms mod_zero_multiple unfolding validateTickAlignment_def parseTickSize_def
  by (fastforce simp: go_run)

lemma validateLimitPrice_fits: "validateLimitPrice U price t = Inr u \<Longrightarrow> fits_tick U val price t"
  using validateTickAlignment_multiple [of price t]
  unfolding validateLimitPrice_def validatePrice_def validateLimitPricePrecision_def parseTickSize_def
    fits_tick_def decimalPlaces_def Let_def
  by (fastforce simp: go_run val_from_int64)

lemma walkBook_Some:
  "walkBook U side amount acc ls = Some p \<Longrightarrow>
     \<exists>i < length ls. p = fst (ls ! i) \<and> val amount \<le> val acc + liquidity U val side (take (Suc i) ls) \<and>
       (\<forall>j. 0 < j \<and> j \<le> i \<longrightarrow> val acc + liquidity U val side (take j ls) < val amount)"
proof (induction ls arbitrary: acc)
  case (Cons l ls)
  obtain price sz where l: "l = (price, sz)" by (cases l)
  let ?a = "if side = SideBuy then u_add U acc (u_mul U sz price) else u_add U acc sz"
  have a: "val ?a = val acc + (if side = SideBuy then val (u_mul U sz price) else val sz)" by simp
  show ?case
  proof (cases "val amount \<le> val ?a")
    case True
    then have "p = price" using Cons.prems l by (simp add: Let_def)
    then show ?thesis using True a l by (intro exI [of _ 0]) simp
  next
    case False
    then have "walkBook U side amount ?a ls = Some p" using Cons.prems l by (simp add: Let_def split: if_splits)
    from Cons.IH [OF this] obtain i where i: "i < length ls" "p = fst (ls ! i)"
      "val amount \<le> val ?a + liquidity U val side (take (Suc i) ls)"
      "\<forall>j. 0 < j \<and> j \<le> i \<longrightarrow> val ?a + liquidity U val side (take j ls) < val amount" by blast
    have "val acc + liquidity U val side (take j (l # ls)) < val amount" if "0 < j" "j \<le> Suc i" for j
    proof (cases "j = 1")
      case True
      then show ?thesis using False a l by simp
    next
      case j: False
      then obtain j' where "j = Suc j'" "0 < j'" "j' \<le> i" using \<open>0 < j\<close> \<open>j \<le> Suc i\<close> by (cases j) auto
      then show ?thesis using i(4) a l by (simp add: add.assoc)
    qed
    then show ?thesis using i(1-3) a l by (intro exI [of _ "Suc i"]) (simp add: add.assoc)
  qed
qed simp

lemma walkBook_None:
  "walkBook U side amount acc ls = None \<Longrightarrow> 0 < j \<Longrightarrow> j \<le> length ls \<Longrightarrow>
     val acc + liquidity U val side (take j ls) < val amount"
proof (induction ls arbitrary: acc j)
  case (Cons l ls)
  obtain price sz where l: "l = (price, sz)" by (cases l)
  let ?a = "if side = SideBuy then u_add U acc (u_mul U sz price) else u_add U acc sz"
  have w: "walkBook U side amount ?a ls = None" "\<not> val amount \<le> val ?a"
    using Cons.prems(1) l by (simp_all add: Let_def split: if_splits)
  obtain j' where j: "j = Suc j'" "j' \<le> length ls" using Cons.prems(2,3) by (cases j) auto
  show ?case
  proof (cases "j' = 0")
    case True
    then show ?thesis using w(2) l j by (simp split: if_splits)
  next
    case False
    then show ?thesis using Cons.IH [OF w(1) _ j(2)] l j by (simp add: add.assoc split: if_splits)
  qed
qed simp

lemma validateLimitPriceWithRefresh_fits:
  assumes "e_U E = U" "validateLimitPriceWithRefresh E tokenID price tickSize options c = (Inr t, c')"
  shows "fits_tick U val price t" "tickSizeOption options \<Longrightarrow> t = tickSize"
  using assms validateLimitPrice_fits
  by (auto simp: validateLimitPriceWithRefresh_def go_run split: sum.splits if_splits prod.splits)

text \<open>
  The amount that \<open>adjustOrderBuyAmount\<close> returns costs, with the fees of the metadata it read, no more than the budget,
  up to the rounding of the decimals.
\<close>

lemma adjustOrderBuyAmount_bound:
  assumes "e_U E = U" "adjustOrderBuyAmount E assetID amount price budget code c = (Inr adjusted, c')"
    and "0 \<le> val amount" "0 \<le> val budget" "0 < val price" "val price \<le> 1"
  obtains md bf c1 c2 where "resolveOrderMarketMetadata E assetID False c = (Inr md, c1)"
    "resolveBuilderFeeRateCached E code c1 = (Inr bf, c2)"
    "0 \<le> val (fi_Rate (md_FeeInfo md)) \<longrightarrow> 0 < val adjusted \<and> on_grid 6 (val adjusted) \<and>
       (let f = val (platformFeeRate U (md_FeeInfo md) price) in
        0 \<le> f \<and> costWithFees (val adjusted) (val price) f (of_int (uint (bf_BuilderTakerFeeRateBps bf)) / 10000)
          \<le> val budget + (val budget + 2 + f) * ulp)"
proof -
  obtain md c1 bf c2 where r: "resolveOrderMarketMetadata E assetID False c = (Inr md, c1)"
    "resolveBuilderFeeRateCached E code c1 = (Inr bf, c2)"
    and a: "adjustMarketBuyAmount U amount budget price (fi_Rate (md_FeeInfo md)) (fi_Exponent (md_FeeInfo md))
      (u_from_int64 U (uint (bf_BuilderTakerFeeRateBps bf)) 4) = Inr adjusted"
    using assms(1,2) by (auto simp: adjustOrderBuyAmount_def go_run)
  let ?b = "u_from_int64 U (uint (bf_BuilderTakerFeeRateBps bf)) 4"
  have b1: "val ?b = of_int (uint (bf_BuilderTakerFeeRateBps bf)) / 10000" by (simp add: val_from_int64)
  have "(0::int) \<le> uint (bf_BuilderTakerFeeRateBps bf)" by simp
  then have "(0::rat) \<le> of_int (uint (bf_BuilderTakerFeeRateBps bf))" by (simp only: of_int_0_le_iff)
  then have b2: "0 \<le> val ?b" unfolding b1 by (simp only: divide_nonneg_pos zero_less_numeral)
  show ?thesis
  proof (rule that [OF r], rule impI)
    assume f: "0 \<le> val (fi_Rate (md_FeeInfo md))"
    note ab = adjust_bound [OF a assms(3-6) f b2, folded platformFeeRate_def]
    have "0 \<le> val (platformFeeRate U (md_FeeInfo md) price)"
      unfolding platformFeeRate_def using assms(5,6) f by (intro fee_rate_nonneg) auto
    then show "0 < val adjusted \<and> on_grid 6 (val adjusted) \<and>
       (let f = val (platformFeeRate U (md_FeeInfo md) price) in
        0 \<le> f \<and> costWithFees (val adjusted) (val price) f (of_int (uint (bf_BuilderTakerFeeRateBps bf)) / 10000)
          \<le> val budget + (val budget + 2 + f) * ulp)"
      using ab b1 by (simp add: costWithFees_factor Let_def)
  qed
qed

lemma CalculateMarketPrice_run:
  assumes "e_U E = U" "0 < val amount" "e_GetOrderBook E (ticks c) tokenID = Inr book"
    and "bookLevels side book = Inr levels" "levels \<noteq> []" "parseLevels U levels = Inr parsed"
  shows "fst (CalculateMarketPrice E tokenID side amount orderType c) =
    (case walkBook U side amount (u_zero U) (rev parsed) of Some price \<Rightarrow> Inr price
     | None \<Rightarrow> if orderType = OrderTypeFOK \<or> orderType = []
               then Inl (Msg ''insufficient liquidity to fill amount'') else Inr (fst (parsed ! 0)))"
  using assms by (auto simp: CalculateMarketPrice_def bindE_def Let_def split: option.splits)

end

section \<open>Properties\<close>

text \<open>
  A tick size returned by \<open>validateLimitPriceWithRefresh\<close> fits the price: the price lies between one tick and one
  minus one tick, has no more decimal places than the tick and is a multiple of it.  With a caller-supplied tick
  size no other tick size is ever returned.
\<close>

theorem refreshed_tick_fits:
  assumes "udecimal (e_U E) val"
    and "validateLimitPriceWithRefresh E tokenID price tickSize options c = (Inr t, c')"
  shows "fits_tick (e_U E) val price t \<and> (tickSizeOption options \<longrightarrow> t = tickSize)"
  using udecimal.validateLimitPriceWithRefresh_fits [OF assms(1) refl assms(2)] by blast

theorem refreshed_tick_fits_witness:
  "\<exists>t c'. validateLimitPriceWithRefresh demo_env ''111'' (Dec 5600000000000000000) ''0.1'' None demo_client =
      (Inr t, c') \<and> t = ''0.01'' \<and> fits_tick dec19_ops dval (Dec 5600000000000000000) t"
proof -
  let ?p = "validateLimitPriceWithRefresh demo_env ''111'' (Dec 5600000000000000000) ''0.1'' None demo_client"
  have "\<not> isl (fst ?p)" "projr (fst ?p) = ''0.01''" by code_simp+
  then have p: "?p = (Inr ''0.01'', snd ?p)" using isr_witness [of ?p] by simp
  have "udecimal (e_U demo_env) dval" by (simp add: demo_env_def dec19.udecimal_axioms)
  from refreshed_tick_fits [OF this p] show ?thesis
    by (intro exI [of _ "''0.01''"] exI [of _ "snd ?p"] conjI p) (simp_all add: demo_env_def)
qed

text \<open>
  C12: the market price is that of the first level, counted from the best, up to which the book holds the amount
  (notional for a buy, shares for a sell).  If even the whole book does not, a fill-or-kill order is refused and any
  other order gets the price of the worst level.
\<close>

theorem market_price_correct:
  fixes orderType :: OrderType
  assumes "udecimal (e_U E) val" "0 < val amount" "e_GetOrderBook E (ticks c) tokenID = Inr book"
    and "bookLevels side book = Inr levels" "levels \<noteq> []" "parseLevels (e_U E) levels = Inr parsed"
  defines "price \<equiv> fst (CalculateMarketPrice E tokenID side amount orderType c)"
    and "filled \<equiv> \<lambda>i. liquidity (e_U E) val side (take i (rev parsed))"
  shows "(\<exists>i < length parsed. price = Inr (fst (rev parsed ! i)) \<and> val amount \<le> filled (Suc i) \<and>
      (\<forall>j. 0 < j \<and> j \<le> i \<longrightarrow> filled j < val amount)) \<or>
    (\<forall>j. 0 < j \<and> j \<le> length parsed \<longrightarrow> filled j < val amount) \<and>
      price = (if orderType = OrderTypeFOK \<or> orderType = []
               then Inl (Msg ''insufficient liquidity to fill amount'') else Inr (fst (hd parsed)))"
proof (cases "walkBook (e_U E) side amount (u_zero (e_U E)) (rev parsed)")
  case None
  have "parsed \<noteq> []" using parseLevels_length [OF assms(6)] assms(5) by auto
  then show ?thesis
    using udecimal.walkBook_None [OF assms(1) None] udecimal.CalculateMarketPrice_run [OF assms(1) refl assms(2-6)]
    by (auto simp: price_def filled_def None hd_conv_nth udecimal.val_zero [OF assms(1)])
next
  case (Some p)
  then have "price = Inr p"
    using udecimal.CalculateMarketPrice_run [OF assms(1) refl assms(2-6)] by (simp add: price_def)
  then show ?thesis
    using udecimal.walkBook_Some [OF assms(1) Some] by (auto simp: filled_def udecimal.val_zero [OF assms(1)])
qed

theorem market_price_correct_witness:
  "fst (CalculateMarketPrice demo_env ''111'' SideBuy (Dec 300000000000000000000) [] demo_client) =
     Inr (Dec 6000000000000000000)"
proof -
  define ls where "ls = [(Dec 6000000000000000000, Dec 1000000000000000000000),
    (Dec 5000000000000000000, Dec 200000000000000000000)]"
  define a where "a = Dec 300000000000000000000"
  have U: "udecimal (e_U demo_env) dval" by (simp add: demo_env_def dec19.udecimal_axioms)
  have a: "0 < dval a" unfolding a_def by code_simp
  have book: "e_GetOrderBook demo_env (ticks demo_client) ''111'' = Inr demo_book" by (simp add: demo_env_def)
  have levels: "bookLevels SideBuy demo_book = Inr (ob_Asks demo_book)" by (simp add: bookLevels_def)
  have ne: "ob_Asks demo_book \<noteq> []" by (simp add: demo_book_def)
  have parsed: "parseLevels (e_U demo_env) (ob_Asks demo_book) = Inr ls" unfolding ls_def by code_simp
  have one: "\<not> dval a \<le> liquidity (e_U demo_env) dval SideBuy (take (Suc 0) (rev ls))"
    and two: "\<not> liquidity (e_U demo_env) dval SideBuy (take 2 (rev ls)) < dval a"
    unfolding ls_def a_def by code_simp+
  from market_price_correct [OF U a book levels ne parsed, of "[]"]
  show ?thesis unfolding a_def [symmetric]
  proof (elim disjE exE conjE)
    fix i
    assume i: "i < length ls"
      "fst (CalculateMarketPrice demo_env ''111'' SideBuy a [] demo_client) = Inr (fst (rev ls ! i))"
      "dval a \<le> liquidity (e_U demo_env) dval SideBuy (take (Suc i) (rev ls))"
    have "i \<noteq> 0" using one i(3) by (intro notI) simp
    then show "fst (CalculateMarketPrice demo_env ''111'' SideBuy a [] demo_client) = Inr (Dec 6000000000000000000)"
      using i(1,2) by (cases i) (auto simp: ls_def)
  next
    assume "\<forall>j. 0 < j \<and> j \<le> length ls \<longrightarrow> liquidity (e_U demo_env) dval SideBuy (take j (rev ls)) < dval a"
    then show "fst (CalculateMarketPrice demo_env ''111'' SideBuy a [] demo_client) = Inr (Dec 6000000000000000000)"
      using two by (auto simp: ls_def dest!: spec [of _ 2])
  qed
qed

end
