(* ===== verification/OrderSigning.thy ===== *)
theory OrderSigning
  imports OrderMetadata
begin

text \<open>
  \<open>clob/order_signing.go\<close> and \<open>clob/legacy_order.go\<close>: the choice of the exchange contract, the typed data of an
  order, the deposit-wallet signature and the signing of legacy orders.  The wallet that signs typed data, the EIP-712 struct
  hash of go-ethereum and the envelope for session keys are parameters (\<open>e_signTypedData\<close>,
  \<open>e_hashStruct\<close>, \<open>e_wrapDepositWalletSignature\<close>).
\<close>

section \<open>Constants and bytes\<close>

definition protocolName :: string where "protocolName = ''Polymarket CTF Exchange''"
definition depositWalletName :: string where "depositWalletName = ''DepositWallet''"
definition depositWalletVersion :: string where "depositWalletVersion = ''1''"

definition orderTypeString :: string where
  "orderTypeString = ''Order(uint256 salt,address maker,address signer,uint256 tokenId,'' @
     ''uint256 makerAmount,uint256 takerAmount,uint8 side,uint8 signatureType,'' @
     ''uint256 timestamp,bytes32 metadata,bytes32 builder)''"

definition hexChar :: "byte \<Rightarrow> char" where
  "hexChar b = ''0123456789abcdef'' ! unat b"

fun appendHex :: "string \<Rightarrow> byte list \<Rightarrow> string" where
  "appendHex dst [] = dst"
| "appendHex dst (b # data) = appendHex (dst @ [hexChar (drop_bit 4 b), hexChar (and b 0x0f)]) data"

text \<open>\<open>hex.EncodeToString\<close> and \<open>[]byte(s)\<close>.\<close>

definition hex_encode :: "byte list \<Rightarrow> string" where
  "hex_encode data = appendHex [] data"

definition bytes_of :: "string \<Rightarrow> byte list" where
  "bytes_of s = map (\<lambda>c. of_nat (of_char c)) s"

text \<open>
  \<open>binary.BigEndian.Uint64\<close> of eight bytes; \<open>generateSalt\<close> of what \<open>rand.Read\<close> returned.
\<close>

definition big_endian_uint64 :: "byte list \<Rightarrow> 64 word" where
  "big_endian_uint64 bs = fold (\<lambda>b w. or (push_bit 8 w) (ucast b)) bs 0"

definition generateSalt :: "byte list result \<Rightarrow> 64 word result" where
  "generateSalt raw = rbind raw (\<lambda>bs. Inr (and (big_endian_uint64 bs) (push_bit 53 1 - 1)))"

definition derefBool :: "bool option \<Rightarrow> bool" where
  "derefBool v = (v = Some True)"

section \<open>Typed data\<close>

definition domainFields :: "(string \<times> string) list" where
  "domainFields = [(''name'', ''string''), (''version'', ''string''), (''chainId'', ''uint256''),
     (''verifyingContract'', ''address'')]"

definition buildOrderTypedData :: "int \<Rightarrow> string \<Rightarrow> string \<Rightarrow> SignedOrder \<Rightarrow> TypedData" where
  "buildOrderTypedData chain version verifyingContract so =
     (let ord = so_Order so in
      \<lparr>td_Types = [(''EIP712Domain'', domainFields),
         (''Order'', [(''salt'', ''uint256''), (''maker'', ''address''), (''signer'', ''address''),
            (''tokenId'', ''uint256''), (''makerAmount'', ''uint256''), (''takerAmount'', ''uint256''),
            (''side'', ''uint8''), (''signatureType'', ''uint8''), (''timestamp'', ''uint256''),
            (''metadata'', ''bytes32''), (''builder'', ''bytes32'')])],
       td_PrimaryType = ''Order'',
       td_Domain = \<lparr>dm_Name = protocolName, dm_Version = version, dm_ChainId = chain,
                    dm_VerifyingContract = verifyingContract\<rparr>,
       td_Message = [(''salt'', Text (o_Salt ord)), (''maker'', Text (o_Maker ord)),
          (''signer'', Text (o_Signer ord)), (''tokenId'', Text (o_TokenID ord)),
          (''makerAmount'', Text (o_MakerAmount ord)), (''takerAmount'', Text (o_TakerAmount ord)),
          (''side'', Text (show_int (sideValue (o_Side ord)))),
          (''signatureType'', Text (show_int (o_SignatureType ord))),
          (''timestamp'', Text (o_Timestamp ord)), (''metadata'', Text (o_Metadata ord)),
          (''builder'', Text (o_Builder ord))]\<rparr>)"

definition buildLegacyOrderTypedData :: "int \<Rightarrow> string \<Rightarrow> SignedOrder \<Rightarrow> LegacyOrderFields \<Rightarrow> TypedData" where
  "buildLegacyOrderTypedData chain exchange so legacy =
     (let ord = so_Order so in
      \<lparr>td_Types = [(''EIP712Domain'', domainFields),
         (''Order'', [(''salt'', ''uint256''), (''maker'', ''address''), (''signer'', ''address''),
            (''taker'', ''address''), (''tokenId'', ''uint256''), (''makerAmount'', ''uint256''),
            (''takerAmount'', ''uint256''), (''expiration'', ''uint256''), (''nonce'', ''uint256''),
            (''feeRateBps'', ''uint256''), (''side'', ''uint8''), (''signatureType'', ''uint8'')])],
       td_PrimaryType = ''Order'',
       td_Domain = \<lparr>dm_Name = protocolName, dm_Version = ''1'', dm_ChainId = chain,
                    dm_VerifyingContract = exchange\<rparr>,
       td_Message = [(''salt'', Text (o_Salt ord)), (''maker'', Text (o_Maker ord)),
          (''signer'', Text (o_Signer ord)), (''taker'', Text (lg_Taker legacy)),
          (''tokenId'', Text (o_TokenID ord)), (''makerAmount'', Text (o_MakerAmount ord)),
          (''takerAmount'', Text (o_TakerAmount ord)), (''expiration'', Text (so_Expiration so)),
          (''nonce'', Text (lg_Nonce legacy)), (''feeRateBps'', Text (lg_FeeRateBps legacy)),
          (''side'', Text (show_int (sideValue (o_Side ord)))),
          (''signatureType'', Text (show_int (o_SignatureType ord)))]\<rparr>)"

section \<open>The exchange contract\<close>

record orderExchange =
  ex_VerifyingContract :: string
  ex_Version :: string

definition legacyExchangeAddress :: "int \<Rightarrow> bool \<Rightarrow> string result" where
  "legacyExchangeAddress chain negRisk =
     (if chain = 137 then
        Inr (if negRisk then ''0xC5d563A36AE78145C45a50134d48A1215220f80a''
             else ''0x4bFb41d5B3570DeFd03C39a9A4D8dE6Bd8B8982E'')
      else if chain = 80002 then
        Inr (if negRisk then ''0xC5d563A36AE78145C45a50134d48A1215220f80a''
             else ''0xdFE02Eb6733538f8Ea35D585af8DE5958AD99E40'')
      else Inl (Msg ''V1 exchange unsupported on chain''))"

definition exchangeForVersion ::
  "int \<Rightarrow> orderBuildInput \<Rightarrow> contractConfig \<Rightarrow> 32 word \<Rightarrow> orderExchange result" where
  "exchangeForVersion chain input contracts version =
     (if version = 1 then
        if in_SignatureType input = SignatureTypePoly1271
        then Inl (Msg ''Poly1271 is not supported for V1 orders'')
        else rbind (legacyExchangeAddress chain (in_NegRisk input))
               (\<lambda>address. Inr \<lparr>ex_VerifyingContract = address, ex_Version = ''1''\<rparr>)
      else if version = 2 then
        (let address = (if in_NegRisk input then cc_NegRiskExchange contracts else cc_Exchange contracts)
         in if address = [] then Inl (Msg ''V2 exchange not configured for chain'')
            else Inr \<lparr>ex_VerifyingContract = address, ex_Version = ''2''\<rparr>)
      else if version = 3 then
        if cc_ExchangeV3 contracts = [] then Inl (Msg ''V3 exchange not configured for chain'')
        else Inr \<lparr>ex_VerifyingContract = cc_ExchangeV3 contracts, ex_Version = ''3''\<rparr>
      else Inl (Msg ''unsupported CLOB protocol version''))"

definition resolveOrderExchange ::
  "'d env \<Rightarrow> orderBuildInput \<Rightarrow> contractConfig \<Rightarrow> ('d client, orderExchange) act" where
  "resolveOrderExchange E input contracts =
     bindE (if in_PositionID input = [] then resolveServerVersion E False else ret 3) (\<lambda>version c.
       (exchangeForVersion (chainID c) input contracts version, c))"

section \<open>Signing\<close>

definition textMessage :: "(string \<times> message_value) list \<Rightarrow> (string \<times> string) list" where
  "textMessage m = List.map_filter (\<lambda>(k, v). case v of Text s \<Rightarrow> Some (k, s) | Nested _ \<Rightarrow> None) m"

definition messageField :: "(string \<times> message_value) list \<Rightarrow> string \<Rightarrow> message_value" where
  "messageField m k = (case map_of m k of Some v \<Rightarrow> v | None \<Rightarrow> Text [])"

definition nestedTypedData :: "TypedData \<Rightarrow> int \<Rightarrow> TypedData" where
  "nestedTypedData td chain =
     \<lparr>td_Types = td_Types td @ [(''TypedDataSign'', [(''contents'', ''Order''), (''name'', ''string''),
        (''version'', ''string''), (''chainId'', ''uint256''), (''verifyingContract'', ''address''),
        (''salt'', ''bytes32'')])],
      td_PrimaryType = ''TypedDataSign'', td_Domain = td_Domain td,
      td_Message = [(''contents'', Nested (textMessage (td_Message td))), (''name'', Text depositWalletName),
        (''version'', Text depositWalletVersion), (''chainId'', Text (show_int chain)),
        (''verifyingContract'', messageField (td_Message td) ''signer''), (''salt'', Text zeroBytes32)]\<rparr>"

definition wrapPoly1271 :: "byte list \<Rightarrow> byte list \<Rightarrow> byte list \<Rightarrow> string" where
  "wrapPoly1271 sig domainSeparator contentsHash =
     (let orderTypeBytes = bytes_of orderTypeString;
          typeLen = of_nat (length orderTypeBytes) :: 16 word
      in appendHex (appendHex (appendHex (appendHex (appendHex ''0x'' sig) domainSeparator) contentsHash)
           orderTypeBytes) [ucast (drop_bit 8 typeLen), ucast typeLen])"

definition signPoly1271Order :: "'d env \<Rightarrow> TypedData \<Rightarrow> int \<Rightarrow> ('d client, string) act" where
  "signPoly1271Order E td chain =
     bindE (lift (wrap_err ''hash domain separator'' (e_hashStruct E td ''EIP712Domain''))) (\<lambda>domainSeparator.
     bindE (lift (wrap_err ''hash order contents'' (e_hashStruct E td ''Order''))) (\<lambda>contentsHash.
     bindE (wrapE ''sign poly1271 typed data'' (interact (\<lambda>n. e_signTypedData E n (nestedTypedData td chain)))) (\<lambda>sig.
       ret (wrapPoly1271 sig domainSeparator contentsHash))))"

definition signLegacyOrder ::
  "'d env \<Rightarrow> orderBuildInput \<Rightarrow> orderExchange \<Rightarrow> SignedOrder \<Rightarrow> ('d client, SignedOrder) act" where
  "signLegacyOrder E input exchange ord =
     bindE (GetFeeRate E (o_TokenID (so_Order ord))) (\<lambda>fee.
     bindE (lift (guardE (\<not> (case in_FeeRateBps input of None \<Rightarrow> False | Some f \<Rightarrow> 0 < fee \<and> f \<noteq> fee))
                    (Msg ''user fee rate does not match market fee rate''))) (\<lambda>_ c.
       let legacy = \<lparr>lg_Taker = normalizeTaker (in_Taker input), lg_Nonce = show_nat (unat (in_Nonce input)),
                     lg_FeeRateBps = show_nat (unat fee)\<rparr>;
           ord1 = ord\<lparr>so_Legacy := Some legacy,
                      so_Order := (so_Order ord)\<lparr>o_Timestamp := [], o_Metadata := [], o_Builder := []\<rparr>\<rparr>
       in bindE (interact (\<lambda>n. e_signTypedData E n
                   (buildLegacyOrderTypedData (chainID c) (ex_VerifyingContract exchange) ord1 legacy))) (\<lambda>signature.
            ret (ord1\<lparr>so_Signature := ''0x'' @ hex_encode signature\<rparr>)) c))"

text \<open>The two ways \<open>signOrder\<close> signs typed data, and the session envelope of the second.\<close>

definition signTyped :: "'d env \<Rightarrow> SignatureType \<Rightarrow> TypedData \<Rightarrow> int \<Rightarrow> ('d client, string) act" where
  "signTyped E sigType td chain =
     (if sigType = SignatureTypePoly1271
      then bindE (signPoly1271Order E td chain) (\<lambda>s. interact (\<lambda>n. e_wrapDepositWalletSignature E n s))
      else bindE (interact (\<lambda>n. e_signTypedData E n td)) (\<lambda>sig. ret (''0x'' @ hex_encode sig)))"

text \<open>\<open>strconv.FormatInt(time.Now().UnixMilli(), 10)\<close> and the order before it is signed.\<close>

definition unsignedOrder ::
  "orderBuildInput \<Rightarrow> string \<Rightarrow> string \<Rightarrow> 64 word \<Rightarrow> int \<Rightarrow> int \<Rightarrow> int \<Rightarrow> SignedOrder" where
  "unsignedOrder input maker signer salt makerAmount takerAmount now =
     \<lparr>so_Order =
        \<lparr>o_Salt = show_nat (unat salt), o_Maker = maker, o_Signer = signer,
         o_TokenID = (if in_TokenID input = [] then in_PositionID input else in_TokenID input),
         o_MakerAmount = show_int makerAmount, o_TakerAmount = show_int takerAmount,
         o_Side = in_Side input, o_SignatureType = in_SignatureType input,
         o_Timestamp = show_int (now div 1000000),
         o_Metadata = (if in_Metadata input = [] then zeroBytes32 else in_Metadata input),
         o_Builder = (if in_BuilderCode input = [] then zeroBytes32 else in_BuilderCode input)\<rparr>,
      so_Expiration = show_nat (unat (in_Expiration input)), so_Signature = [], so_Legacy = None\<rparr>"

text \<open>Maker and signer of an order: the funder if there is one; a deposit wallet signs as the maker.\<close>

definition orderMaker :: "'d client \<Rightarrow> string" where
  "orderMaker c = (if funderAddress c \<noteq> [] then funderAddress c else signerAddress c)"

definition orderSigner :: "'d client \<Rightarrow> SignatureType \<Rightarrow> string" where
  "orderSigner c sigType = (if sigType = SignatureTypePoly1271 then orderMaker c else signerAddress c)"

definition signBuilt ::
  "'d env \<Rightarrow> orderBuildInput \<Rightarrow> orderExchange \<Rightarrow> int \<Rightarrow> SignedOrder \<Rightarrow> ('d client, SignedOrder) act" where
  "signBuilt E input exchange chain ord =
     (if ex_Version exchange = ''1'' then signLegacyOrder E input exchange ord
      else bindE (signTyped E (in_SignatureType input)
                    (buildOrderTypedData chain (ex_Version exchange) (ex_VerifyingContract exchange) ord) chain)
             (\<lambda>signature. ret (ord\<lparr>so_Signature := signature\<rparr>)))"

definition signOrder :: "'d env \<Rightarrow> orderBuildInput \<Rightarrow> ('d client, SignedOrder) act" where
  "signOrder E input = (\<lambda>c.
     bindE (lift (getContractConfig (chainID c))) (\<lambda>contracts.
     bindE (lift (guardE (\<not> (in_TokenID input = [] \<and> in_PositionID input = []))
                    (Msg ''order requires exactly one of TokenID or PositionID''))) (\<lambda>_.
     bindE (lift (guardE (\<not> (in_TokenID input \<noteq> [] \<and> in_PositionID input \<noteq> []))
                    (Msg ''order must not set both TokenID and PositionID''))) (\<lambda>_.
     bindE (lift (validateOrderAmounts (in_MakerAmount input) (in_TakerAmount input))) (\<lambda>_.
     bindE (ctx_check E) (\<lambda>_.
     bindE (wrapE ''generate order salt'' (interact (e_salt E))) (\<lambda>salt.
     bindE (resolveOrderExchange E input contracts) (\<lambda>exchange.
     bindE (time_now E) (\<lambda>now.
       signBuilt E input exchange (chainID c)
         (unsignedOrder input (orderMaker c) (orderSigner c (in_SignatureType input)) salt
            (the (in_MakerAmount input)) (the (in_TakerAmount input)) now))))))))) c)"

section \<open>Hexadecimal round trip\<close>

text \<open>The reading of a hexadecimal string as bytes, the specification of \<open>appendHex\<close>.\<close>

fun unhex :: "string \<Rightarrow> byte list option" where
  "unhex [] = Some []"
| "unhex [_] = None"
| "unhex (a # b # s) =
     (case (digit_value a, digit_value b) of
        (Some x, Some y) \<Rightarrow>
          if x < 16 \<and> y < 16 then map_option (Cons (of_nat (16 * x + y))) (unhex s) else None
      | _ \<Rightarrow> None)"

lemma appendHex_append: "appendHex dst data = dst @ hex_encode data"
proof (induction data arbitrary: dst)
  case (Cons b data)
  show ?case
    unfolding hex_encode_def appendHex.simps Cons.IH [of "dst @ _"] Cons.IH [of "[] @ _"] by simp
qed (simp add: hex_encode_def)

lemma hex_encode_Cons:
  "hex_encode (b # data) = hexChar (drop_bit 4 b) # hexChar (and b 0x0f) # hex_encode data"
  using appendHex_append [of "[hexChar (drop_bit 4 b), hexChar (and b 0x0f)]" data]
  by (simp add: hex_encode_def)

lemma hexChar_digit: "unat n < 16 \<Longrightarrow> hexChar n = digit_char (unat n)"
proof -
  have "\<forall>k < 16. ''0123456789abcdef'' ! k = digit_char k" by code_simp
  then show "unat n < 16 \<Longrightarrow> hexChar n = digit_char (unat n)" by (simp add: hexChar_def)
qed

lemma unat_low_nibble: "unat (and b 0x0f :: byte) = unat b mod 16"
proof -
  have "and b 0x0f = take_bit 4 b" by (simp add: take_bit_eq_mask mask_eq_exp_minus_1)
  then show ?thesis by (simp add: take_bit_eq_mod unat_mod)
qed

lemma unat_high_nibble: "unat (drop_bit 4 b :: byte) = unat b div 16"
  by (simp add: drop_bit_eq_div unat_div)

lemma unhex_encode [simp]: "unhex (hex_encode bs) = Some bs"
proof (induction bs)
  case (Cons b bs)
  have "unat b < 256" using unsigned_less [of b, where ?'a = nat] by simp
  then have hi: "unat (drop_bit 4 b) < 16" "unat (and b 0x0f) < 16"
    by (auto simp: unat_high_nibble unat_low_nibble)
  have "16 * unat (drop_bit 4 b) + unat (and b 0x0f) = unat b"
    by (simp add: unat_high_nibble unat_low_nibble)
  then have "of_nat (16 * unat (drop_bit 4 b) + unat (and b 0x0f)) = b" by (metis of_nat_unat ucast_id)
  then show ?case using Cons hi by (simp add: hex_encode_Cons hexChar_digit del: of_nat_add of_nat_mult)
qed (simp add: hex_encode_def)

lemma hex_encode_append: "hex_encode (xs @ ys) = hex_encode xs @ hex_encode ys"
  by (induction xs) (simp_all add: hex_encode_Cons, simp add: hex_encode_def)

lemma wrapPoly1271_eq:
  "wrapPoly1271 sig separator contents = ''0x'' @ hex_encode (sig @ separator @ contents @ bytes_of orderTypeString @
     [of_nat (length orderTypeString div 256), of_nat (length orderTypeString mod 256)])"
proof -
  have "length orderTypeString = 186" by code_simp
  then show ?thesis
    by (simp add: wrapPoly1271_def appendHex_append hex_encode_append bytes_of_def Let_def)
qed

section \<open>What a signed order contains\<close>

lemma ctx_check_run: "ctx_check E c = (Inr u, c') \<longleftrightarrow> e_ctxErr E (ticks c) = None \<and> c' = tick c"
  by (auto simp: ctx_check_def split: option.splits)

lemma time_now_run: "time_now E c = (Inr t, c') \<longleftrightarrow> t = e_clock E (ticks c) \<and> c' = tick c"
  by (auto simp: time_now_def)

lemma resolveServerVersion_run:
  assumes "resolveServerVersion E False c = (Inr v, c')"
  shows "chainID c' = chainID c"
    "if cachedVersion c \<noteq> 0 then v = cachedVersion c else \<exists>n. e_GetVersion E n = Inr v"
  using assms by (auto simp: resolveServerVersion_def go_run split: if_splits)

lemma resolveOrderExchange_run:
  assumes "resolveOrderExchange E input contracts c = (Inr ex, c')"
  obtains version where "exchangeForVersion (chainID c) input contracts version = Inr ex" "chainID c' = chainID c"
    "in_PositionID input \<noteq> [] \<longrightarrow> version = 3"
    "in_PositionID input = [] \<longrightarrow>
       (if cachedVersion c \<noteq> 0 then version = cachedVersion c else \<exists>n. e_GetVersion E n = Inr version)"
proof (cases "in_PositionID input = []")
  case True
  then obtain version where v: "resolveServerVersion E False c = (Inr version, c')"
    "exchangeForVersion (chainID c') input contracts version = Inr ex"
    using assms by (auto simp: resolveOrderExchange_def go_run)
  from resolveServerVersion_run [OF v(1)] v(2) True show ?thesis by (intro that [of version]) auto
next
  case False
  then show ?thesis using assms by (intro that [of 3]) (auto simp: resolveOrderExchange_def go_run)
qed

lemma exchange_version:
  "exchangeForVersion chain input contracts version = Inr ex \<Longrightarrow> ex_Version ex = ''1'' \<longleftrightarrow> version = 1"
  by (auto simp: exchangeForVersion_def Let_def go_run split: if_splits)

lemma GetFeeRate_chainID: "GetFeeRate E t c = (r, c') \<Longrightarrow> chainID c' = chainID c"
  by (cases "e_ctxErr E (ticks c)"; cases "feeRateCache c t"; cases "e_GetFeeRate E (Suc (ticks c)) t")
    (auto simp: GetFeeRate_def bindE_def ctx_check_def Let_def)

lemma signLegacyOrder_run:
  assumes "signLegacyOrder E input ex ord c = (Inr so, c')"
  obtains fee n sig legacy where "so_Legacy so = Some legacy"
    "e_signTypedData E n (buildLegacyOrderTypedData (chainID c) (ex_VerifyingContract ex) so legacy) = Inr sig"
    "so_Signature so = ''0x'' @ hex_encode sig"
    "so_Order so = (so_Order ord)\<lparr>o_Timestamp := [], o_Metadata := [], o_Builder := []\<rparr>"
    "so_Expiration so = so_Expiration ord"
    "legacy = \<lparr>lg_Taker = normalizeTaker (in_Taker input), lg_Nonce = show_nat (unat (in_Nonce input)),
       lg_FeeRateBps = show_nat (unat fee)\<rparr>"
    "\<And>f. in_FeeRateBps input = Some f \<Longrightarrow> fee = 0 \<or> f = fee"
proof -
  obtain fee c1 where fee: "GetFeeRate E (o_TokenID (so_Order ord)) c = (Inr fee, c1)"
    "\<not> (case in_FeeRateBps input of None \<Rightarrow> False | Some f \<Rightarrow> 0 < fee \<and> f \<noteq> fee)"
    "\<exists>sig. e_signTypedData E (ticks c1) (buildLegacyOrderTypedData (chainID c1) (ex_VerifyingContract ex)
         (ord\<lparr>so_Legacy := Some \<lparr>lg_Taker = normalizeTaker (in_Taker input),
             lg_Nonce = show_nat (unat (in_Nonce input)), lg_FeeRateBps = show_nat (unat fee)\<rparr>,
           so_Order := (so_Order ord)\<lparr>o_Timestamp := [], o_Metadata := [], o_Builder := []\<rparr>\<rparr>)
         \<lparr>lg_Taker = normalizeTaker (in_Taker input),
             lg_Nonce = show_nat (unat (in_Nonce input)), lg_FeeRateBps = show_nat (unat fee)\<rparr>) = Inr sig \<and>
      so = ord\<lparr>so_Legacy := Some \<lparr>lg_Taker = normalizeTaker (in_Taker input),
             lg_Nonce = show_nat (unat (in_Nonce input)), lg_FeeRateBps = show_nat (unat fee)\<rparr>,
           so_Order := (so_Order ord)\<lparr>o_Timestamp := [], o_Metadata := [], o_Builder := []\<rparr>,
           so_Signature := ''0x'' @ hex_encode sig\<rparr>"
    using assms by (auto simp: signLegacyOrder_def go_run Let_def)
  have fr: "f = fee" if "in_FeeRateBps input = Some f" "fee \<noteq> 0" for f
    using fee(2) that by (auto simp: word_gt_0)
  from fee(3) GetFeeRate_chainID [OF fee(1)] fr show ?thesis
    by (elim exE conjE) (rule that [where fee = fee and n = "ticks c1"], auto simp: buildLegacyOrderTypedData_def Let_def)
qed

lemma signTyped_run:
  assumes "signTyped E sigType td chain c = (Inr s, c')"
  shows "sigType \<noteq> SignatureTypePoly1271 \<Longrightarrow> \<exists>n sig. e_signTypedData E n td = Inr sig \<and> s = ''0x'' @ hex_encode sig"
    "sigType = SignatureTypePoly1271 \<Longrightarrow> \<exists>n m sig separator contents.
       e_signTypedData E n (nestedTypedData td chain) = Inr sig \<and>
       e_hashStruct E td ''EIP712Domain'' = Inr separator \<and> e_hashStruct E td ''Order'' = Inr contents \<and>
       e_wrapDepositWalletSignature E m (wrapPoly1271 sig separator contents) = Inr s"
  using assms by (auto simp: signTyped_def signPoly1271Order_def go_run) blast

lemma signOrder_run:
  assumes "signOrder E input c = (Inr so, c')"
  obtains contracts maker taker salt ex c1 now where "getContractConfig (chainID c) = Inr contracts"
    "(in_TokenID input = []) \<noteq> (in_PositionID input = [])"
    "in_MakerAmount input = Some maker" "0 < maker" "maker < 2 ^ 256"
    "in_TakerAmount input = Some taker" "0 < taker" "taker < 2 ^ 256"
    "resolveOrderExchange E input contracts (tick (tick c)) = (Inr ex, c1)"
    "signBuilt E input ex (chainID c) (unsignedOrder input (orderMaker c)
       (orderSigner c (in_SignatureType input)) salt maker taker now) (tick c1) = (Inr so, c')"
proof -
  from assms obtain contracts salt ex c1 now where
    g: "getContractConfig (chainID c) = Inr contracts"
    "\<not> (in_TokenID input = [] \<and> in_PositionID input = [])" "\<not> (in_TokenID input \<noteq> [] \<and> in_PositionID input \<noteq> [])"
    "validateOrderAmounts (in_MakerAmount input) (in_TakerAmount input) = Inr ()"
    "resolveOrderExchange E input contracts (tick (tick c)) = (Inr ex, c1)" and
    tail: "signBuilt E input ex (chainID c) (unsignedOrder input (orderMaker c)
       (orderSigner c (in_SignatureType input)) salt (the (in_MakerAmount input)) (the (in_TakerAmount input)) now)
       (tick c1) = (Inr so, c')"
    unfolding signOrder_def by (auto simp: go_run ctx_check_run time_now_run)
  obtain maker taker where a: "in_MakerAmount input = Some maker" "0 < maker" "maker < 2 ^ 256"
    "in_TakerAmount input = Some taker" "0 < taker" "taker < 2 ^ 256"
    using g(4) unfolding validateOrderAmounts_def Let_def guardE_Inr by (auto split: option.splits)
  show ?thesis
    by (rule that [OF g(1) _ a g(5), of salt now]) (use g tail a in auto)
qed

lemma signOrder_body:
  assumes "signOrder E input c = (Inr so, c')"
  shows "\<exists>maker taker. in_MakerAmount input = Some maker \<and> 0 < maker \<and> maker < 2 ^ 256 \<and>
      in_TakerAmount input = Some taker \<and> 0 < taker \<and> taker < 2 ^ 256 \<and>
      big_int_set_string (o_MakerAmount (so_Order so)) 10 = Some maker \<and>
      big_int_set_string (o_TakerAmount (so_Order so)) 10 = Some taker \<and>
      (in_TokenID input = []) \<noteq> (in_PositionID input = []) \<and>
      o_TokenID (so_Order so) = orderAssetID (in_TokenID input) (in_PositionID input) \<and>
      o_Side (so_Order so) = in_Side input \<and> o_SignatureType (so_Order so) = in_SignatureType input \<and>
      o_Maker (so_Order so) = orderMaker c \<and>
      o_Signer (so_Order so) =
        (if in_SignatureType input = SignatureTypePoly1271 then o_Maker (so_Order so) else signerAddress c) \<and>
      read_base 10 (so_Expiration so) = Some (unat (in_Expiration input))"
proof -
  obtain contracts maker taker salt ex c1 now where b:
    "(in_TokenID input = []) \<noteq> (in_PositionID input = [])"
    "in_MakerAmount input = Some maker" "0 < maker" "maker < 2 ^ 256"
    "in_TakerAmount input = Some taker" "0 < taker" "taker < 2 ^ 256"
    "signBuilt E input ex (chainID c) (unsignedOrder input (orderMaker c)
       (orderSigner c (in_SignatureType input)) salt maker taker now) (tick c1) = (Inr so, c')"
    using signOrder_run [OF assms] by metis
  let ?u = "unsignedOrder input (orderMaker c) (orderSigner c (in_SignatureType input)) salt maker taker now"
  have "so_Expiration so = so_Expiration ?u \<and> (so_Order so = so_Order ?u \<or>
      so_Order so = (so_Order ?u)\<lparr>o_Timestamp := [], o_Metadata := [], o_Builder := []\<rparr>)"
  proof (cases "ex_Version ex = ''1''")
    case True
    then show ?thesis using b(8) by (auto simp: signBuilt_def elim!: signLegacyOrder_run)
  next
    case False
    then show ?thesis using b(8) by (auto simp: signBuilt_def go_run)
  qed
  then show ?thesis
    using b(1-7)
    by (intro exI [of _ maker] exI [of _ taker])
      (auto simp: unsignedOrder_def orderSigner_def orderAssetID_def show_nat_def)
qed

text \<open>The signature of an order is that of its own typed data, for the exchange of a protocol version.\<close>

definition signed_for :: "'d env \<Rightarrow> int \<Rightarrow> orderBuildInput \<Rightarrow> 32 word \<Rightarrow> SignedOrder \<Rightarrow> bool" where
  "signed_for E chain input version so \<longleftrightarrow> (\<exists>contracts ex. getContractConfig chain = Inr contracts \<and>
      exchangeForVersion chain input contracts version = Inr ex \<and>
      (let td = buildOrderTypedData chain (ex_Version ex) (ex_VerifyingContract ex) so in
       if version = 1 then
         \<exists>n sig legacy. so_Legacy so = Some legacy \<and> so_Signature so = ''0x'' @ hex_encode sig \<and>
           e_signTypedData E n (buildLegacyOrderTypedData chain (ex_VerifyingContract ex) so legacy) = Inr sig
       else if in_SignatureType input = SignatureTypePoly1271 then
         \<exists>n m sig separator contents. e_signTypedData E n (nestedTypedData td chain) = Inr sig \<and>
           e_hashStruct E td ''EIP712Domain'' = Inr separator \<and> e_hashStruct E td ''Order'' = Inr contents \<and>
           e_wrapDepositWalletSignature E m (wrapPoly1271 sig separator contents) = Inr (so_Signature so)
       else \<exists>n sig. e_signTypedData E n td = Inr sig \<and> so_Signature so = ''0x'' @ hex_encode sig))"

lemma signOrder_signed:
  assumes "signOrder E input c = (Inr so, c')"
  shows "\<exists>version. signed_for E (chainID c) input version so \<and> (in_PositionID input \<noteq> [] \<longrightarrow> version = 3) \<and>
      (in_PositionID input = [] \<longrightarrow>
         (if cachedVersion c \<noteq> 0 then version = cachedVersion c else \<exists>n. e_GetVersion E n = Inr version))"
proof -
  obtain contracts maker taker salt ex c1 now where b: "getContractConfig (chainID c) = Inr contracts"
    "resolveOrderExchange E input contracts (tick (tick c)) = (Inr ex, c1)"
    "signBuilt E input ex (chainID c) (unsignedOrder input (orderMaker c)
       (orderSigner c (in_SignatureType input)) salt maker taker now) (tick c1) = (Inr so, c')"
    using signOrder_run [OF assms] by metis
  let ?u = "unsignedOrder input (orderMaker c) (orderSigner c (in_SignatureType input)) salt maker taker now"
  let ?td = "buildOrderTypedData (chainID c) (ex_Version ex) (ex_VerifyingContract ex)"
  obtain version where v: "exchangeForVersion (chainID c) input contracts version = Inr ex" "chainID c1 = chainID c"
    "in_PositionID input \<noteq> [] \<longrightarrow> version = 3"
    "in_PositionID input = [] \<longrightarrow>
       (if cachedVersion c \<noteq> 0 then version = cachedVersion c else \<exists>n. e_GetVersion E n = Inr version)"
    using resolveOrderExchange_run [OF b(2), unfolded tick_same] by blast
  have sig: "let td = ?td so in
       if version = 1 then
         \<exists>n sig legacy. so_Legacy so = Some legacy \<and> so_Signature so = ''0x'' @ hex_encode sig \<and>
           e_signTypedData E n (buildLegacyOrderTypedData (chainID c) (ex_VerifyingContract ex) so legacy) = Inr sig
       else if in_SignatureType input = SignatureTypePoly1271 then
         \<exists>n m sig separator contents. e_signTypedData E n (nestedTypedData td (chainID c)) = Inr sig \<and>
           e_hashStruct E td ''EIP712Domain'' = Inr separator \<and> e_hashStruct E td ''Order'' = Inr contents \<and>
           e_wrapDepositWalletSignature E m (wrapPoly1271 sig separator contents) = Inr (so_Signature so)
       else \<exists>n sig. e_signTypedData E n td = Inr sig \<and> so_Signature so = ''0x'' @ hex_encode sig"
  proof (cases "version = 1")
    case True
    then have "signLegacyOrder E input ex ?u (tick c1) = (Inr so, c')"
      using b(3) exchange_version [OF v(1)] by (simp add: signBuilt_def)
    then show ?thesis using True v(2) by (elim signLegacyOrder_run) (auto simp: Let_def)
  next
    case False
    then obtain sg where s: "signTyped E (in_SignatureType input) (?td ?u) (chainID c) (tick c1) = (Inr sg, c')"
      "so = ?u\<lparr>so_Signature := sg\<rparr>"
      using b(3) exchange_version [OF v(1)] by (auto simp: signBuilt_def go_run)
    have "?td so = ?td ?u" by (simp add: s(2) buildOrderTypedData_def)
    then show ?thesis using signTyped_run [OF s(1)] False s(2) by (simp add: Let_def)
  qed
  show ?thesis
    unfolding signed_for_def
    by (intro exI [of _ version] conjI v(3,4) exI [of _ contracts] exI [of _ ex] b(1) v(1) sig)
qed

section \<open>Properties\<close>

text \<open>
  C10: the body of a signed order is the one asked for.  Its amounts read back as the positive uint256 amounts of
  the input, its token is the one of token and position that is set, its maker is the funder, or the signer's
  address without one, its signer is the maker for deposit wallets and the signer's address for every other type, and a missing expiration is zero.
\<close>

theorem signed_order_body:
  assumes "signOrder E input c = (Inr so, c')"
  shows "\<exists>maker taker. in_MakerAmount input = Some maker \<and> 0 < maker \<and> maker < 2 ^ 256 \<and>
      in_TakerAmount input = Some taker \<and> 0 < taker \<and> taker < 2 ^ 256 \<and>
      big_int_set_string (o_MakerAmount (so_Order so)) 10 = Some maker \<and>
      big_int_set_string (o_TakerAmount (so_Order so)) 10 = Some taker \<and>
      (in_TokenID input = []) \<noteq> (in_PositionID input = []) \<and>
      o_TokenID (so_Order so) = orderAssetID (in_TokenID input) (in_PositionID input) \<and>
      o_Side (so_Order so) = in_Side input \<and> o_SignatureType (so_Order so) = in_SignatureType input \<and>
      o_Maker (so_Order so) = (if funderAddress c \<noteq> [] then funderAddress c else signerAddress c) \<and>
      o_Signer (so_Order so) =
        (if in_SignatureType input = SignatureTypePoly1271 then o_Maker (so_Order so) else signerAddress c) \<and>
      read_base 10 (so_Expiration so) = Some (unat (in_Expiration input))"
  using signOrder_body [OF assms] unfolding orderMaker_def by simp

text \<open>
  C11: the signature covers the order that is returned, on the right contract.  A position-backed order is
  signed for Exchange V3 whatever the server runs; a token-backed one for the exchange of the server's protocol version
  (the cached one, else the one just fetched).  The typed data that was signed is the one computed from the returned order,
  in the legacy form for version 1, nested in the deposit-wallet structure for wallet signatures.
\<close>

theorem signature_covers_order:
  assumes "signOrder E input c = (Inr so, c')"
  shows "\<exists>contracts version ex. getContractConfig (chainID c) = Inr contracts \<and>
      exchangeForVersion (chainID c) input contracts version = Inr ex \<and>
      (in_PositionID input \<noteq> [] \<longrightarrow> version = 3) \<and>
      (in_PositionID input = [] \<longrightarrow>
         (if cachedVersion c \<noteq> 0 then version = cachedVersion c else \<exists>n. e_GetVersion E n = Inr version)) \<and>
      (let td = buildOrderTypedData (chainID c) (ex_Version ex) (ex_VerifyingContract ex) so in
       if version = 1 then
         \<exists>n sig legacy. so_Legacy so = Some legacy \<and> so_Signature so = ''0x'' @ hex_encode sig \<and>
           e_signTypedData E n (buildLegacyOrderTypedData (chainID c) (ex_VerifyingContract ex) so legacy) = Inr sig
       else if in_SignatureType input = SignatureTypePoly1271 then
         \<exists>n m sig separator contents. e_signTypedData E n (nestedTypedData td (chainID c)) = Inr sig \<and>
           e_hashStruct E td ''EIP712Domain'' = Inr separator \<and> e_hashStruct E td ''Order'' = Inr contents \<and>
           e_wrapDepositWalletSignature E m (wrapPoly1271 sig separator contents) = Inr (so_Signature so)
       else \<exists>n sig. e_signTypedData E n td = Inr sig \<and> so_Signature so = ''0x'' @ hex_encode sig)"
  using signOrder_signed [OF assms] unfolding signed_for_def by blast

text \<open>
  A deposit-wallet signature unpacks to its parts.  After the prefix the bytes are the inner signature, the domain separator,
  the contents hash, the type string and, in the last two bytes, the length of the type string in big-endian order.
\<close>

theorem poly1271_unpacks:
  "\<exists>hi lo. take 2 (wrapPoly1271 sig separator contents) = ''0x'' \<and>
     unhex (drop 2 (wrapPoly1271 sig separator contents)) =
       Some (sig @ separator @ contents @ bytes_of orderTypeString @ [hi, lo]) \<and>
     256 * unat hi + unat lo = length orderTypeString"
proof -
  have "length orderTypeString = 186" by code_simp
  then show ?thesis by (simp add: wrapPoly1271_eq)
qed

text \<open>
  An order salt is below \<open>2^53\<close>, so it survives being read as a JavaScript number, and it consists of the low 53 bits
  of the random bytes.
\<close>

theorem salt_fits_double:
  assumes "generateSalt (Inr raw) = Inr salt"
  shows "unat salt < 2 ^ 53 \<and> salt = take_bit 53 (big_endian_uint64 raw)"
proof -
  have m: "salt = take_bit 53 (big_endian_uint64 raw)"
    using assms by (simp add: generateSalt_def take_bit_eq_mask mask_eq_exp_minus_1 push_bit_eq_mult)
  have "unat (take_bit 53 (big_endian_uint64 raw)) = unat (big_endian_uint64 raw) mod 2 ^ 53"
    by (simp add: take_bit_eq_mod unat_mod)
  then show ?thesis using m by simp
qed

theorem salt_fits_double_witness:
  "generateSalt (Inr [255, 255, 255, 255, 255, 255, 255, 255]) = Inr 9007199254740991 \<and>
     unat (9007199254740991 :: 64 word) < 2 ^ 53"
proof -
  have "generateSalt (Inr [255, 255, 255, 255, 255, 255, 255, 255]) = Inr 9007199254740991" by code_simp
  with salt_fits_double [OF this] show ?thesis by blast
qed

text \<open>A signed order on the concrete client.\<close>

definition demo_input :: "SignatureType \<Rightarrow> orderBuildInput" where
  "demo_input sigType = \<lparr>in_TokenID = ''111'', in_PositionID = [], in_MakerAmount = Some 5000000,
     in_TakerAmount = Some 10000000, in_Side = SideBuy, in_Expiration = 0, in_NegRisk = False,
     in_SignatureType = sigType, in_Metadata = [], in_BuilderCode = [], in_Taker = [], in_Nonce = 0,
     in_FeeRateBps = None\<rparr>"

text \<open>On the concrete environment every order with a token and valid amounts is signed.\<close>

lemma demo_sign_ok:
  assumes "chainID c = 137" "cachedVersion c = 0" "in_TokenID input \<noteq> []" "in_PositionID input = []"
    and "in_SignatureType input = 0" "in_MakerAmount input = Some m" "in_TakerAmount input = Some t"
    and "0 < m" "m < 2 ^ 256" "0 < t" "t < 2 ^ 256"
  shows "\<not> isl (fst (signOrder demo_env input c))"
  using assms
  by (simp add: signOrder_def getContractConfig_def contractConfigs_def validateOrderAmounts_def
      ctx_check_def time_now_def resolveOrderExchange_def exchangeForVersion_def resolveServerVersion_def
      signBuilt_def signTyped_def SignatureTypePoly1271_def bindE_def wrapE_def demo_env_def)

lemma demo_signed: "signOrder demo_env (demo_input 0) demo_client =
    (Inr (projr (fst (signOrder demo_env (demo_input 0) demo_client))), snd (signOrder demo_env (demo_input 0) demo_client))"
proof (rule isr_witness, rule demo_sign_ok [where m = 5000000 and t = 10000000])
  show "chainID demo_client = 137" "cachedVersion demo_client = 0" by code_simp+
qed (simp_all add: demo_input_def)

theorem signed_order_body_witness:
  "\<exists>so c'. signOrder demo_env (demo_input 0) demo_client = (Inr so, c') \<and>
     big_int_set_string (o_TakerAmount (so_Order so)) 10 = Some 10000000"
proof -
  define p where "p = signOrder demo_env (demo_input 0) demo_client"
  have "in_TakerAmount (demo_input 0) = Some 10000000" by (simp add: demo_input_def)
  then have "big_int_set_string (o_TakerAmount (so_Order (projr (fst p)))) 10 = Some 10000000"
    using signed_order_body [OF demo_signed, folded p_def] by (elim exE conjE) simp
  then show ?thesis using demo_signed [folded p_def] unfolding p_def [symmetric] by blast
qed

theorem signature_covers_order_witness:
  "\<exists>so c'. signOrder demo_env (demo_input 0) demo_client = (Inr so, c') \<and> so_Signature so = ''0x01ab''"
proof -
  have c: "cachedVersion demo_client = 0" "hex_encode [1, 171] = ''01ab''" by code_simp+
  have d: "e_GetVersion demo_env n = Inr v \<longleftrightarrow> v = 2" "e_signTypedData demo_env n td = Inr sig \<longleftrightarrow> sig = [1, 171]"
    for n td v sig by (auto simp: demo_env_def)
  have i: "in_PositionID (demo_input 0) = []" "in_SignatureType (demo_input 0) \<noteq> SignatureTypePoly1271"
    by (simp_all add: demo_input_def SignatureTypePoly1271_def)
  define p where "p = signOrder demo_env (demo_input 0) demo_client"
  have "so_Signature (projr (fst p)) = ''0x01ab''"
    using signature_covers_order [OF demo_signed, folded p_def]
    by (elim exE conjE) (simp add: c d i Let_def)
  then show ?thesis using demo_signed [folded p_def] unfolding p_def [symmetric] by blast
qed

end
