(* ===== verification/LimitOrder.thy ===== *)
theory LimitOrder
  imports OrderContext OrderSigning
begin

text \<open>
  \<open>clob/limit_order.go\<close> and \<open>CreateExchangeV3OrderFromAmounts\<close> of \<open>clob/order_amounts.go\<close>: the construction of a
  limit order from its arguments, through the tick size, the neg-risk flag, the amounts and the signature.
\<close>

section \<open>Construction\<close>

definition unixSeconds :: "int \<Rightarrow> int" where
  "unixSeconds ns = ns div 1000000000"

text \<open>The choice of the tick size in \<open>CreateOrder\<close>, after the caches and perhaps the metadata were read.\<close>

definition limitTickSize ::
  "'d env \<Rightarrow> string \<Rightarrow> CreateOrderOptions option \<Rightarrow> TickSize \<Rightarrow> bool \<Rightarrow> bool \<Rightarrow> ('d client, TickSize) act" where
  "limitTickSize E assetID options marketTickSize tickCached metadataLoaded =
     (if tickSizeOption options then
        bindE (if marketTickSize = [] then resolveTickSize E assetID None else ret marketTickSize) (\<lambda>market.
          lift (checkTickOption (e_U E) options market))
      else if tickCached \<or> metadataLoaded then
        (if marketTickSize = [] then resolveTickSize E assetID None else ret marketTickSize)
      else resolveTickSize E assetID options)"

definition limitNegRisk ::
  "'d env \<Rightarrow> string \<Rightarrow> string \<Rightarrow> CreateOrderOptions option \<Rightarrow> bool option \<Rightarrow> ('d client, bool) act" where
  "limitNegRisk E assetID positionID options risk =
     (if positionID \<noteq> [] then ret False
      else case Option.bind options opt_NegRisk of
             Some b \<Rightarrow> ret b
           | None \<Rightarrow> (case risk of Some b \<Rightarrow> ret b | None \<Rightarrow> resolveNegRisk E assetID options))"

text \<open>The maker and taker amounts of \<open>buildSignedLimitOrder\<close>, in units of the two assets.\<close>

definition limitAmounts ::
  "'d env \<Rightarrow> 'd OrderArgs \<Rightarrow> roundConfig \<Rightarrow> ('d client, 'd \<times> 'd) act" where
  "limitAmounts E ord cfg =
     (let U = e_U E;
          sz = oa_Size ord;
          rawPrice = roundNormal U (oa_Price ord) (rc_Price cfg)
      in if oa_Side ord = SideBuy then
           (let rawTaker = roundDown U sz (rc_Size cfg);
                rawMaker = roundToAmount U (u_mul U rawTaker rawPrice) cfg
            in case oa_MaxSpend ord of
                 None \<Rightarrow> ret (rawMaker, rawTaker)
               | Some maxSpend \<Rightarrow>
                   bindE (adjustOrderBuyAmount E (orderAssetID (oa_TokenID ord) (oa_PositionID ord)) rawMaker rawPrice
                            maxSpend (oa_BuilderCode ord)) (\<lambda>adjusted.
                   bindE (lift (u_div U adjusted rawPrice)) (\<lambda>shares.
                     let rawTaker = roundDown U shares (rc_Size cfg)
                     in ret (roundToAmount U (u_mul U rawTaker rawPrice) cfg, rawTaker))))
         else if oa_Side ord = SideSell then
           (let rawMaker = roundDown U sz (rc_Size cfg)
            in ret (rawMaker, roundToAmount U (u_mul U rawMaker rawPrice) cfg))
         else fail (Msg ''invalid side''))"

definition buildSignedLimitOrder ::
  "'d env \<Rightarrow> 'd OrderArgs \<Rightarrow> CreateOrderOptions \<Rightarrow> ('d client, SignedOrder) act" where
  "buildSignedLimitOrder E ord options =
     (case roundingConfig (opt_TickSize options) of
        None \<Rightarrow> fail (Msg ''unsupported tick size'')
      | Some cfg \<Rightarrow>
          if decimalPlaces (e_U E) (oa_Size ord) > rc_Size cfg
          then fail (Msg ''size exceeds maximum decimal places for tick size'')
          else bindE (limitAmounts E ord cfg) (\<lambda>(rawMaker, rawTaker) c.
            signOrder E
              \<lparr>in_TokenID = oa_TokenID ord, in_PositionID = oa_PositionID ord,
               in_MakerAmount = decimalBaseUnits (e_U E) rawMaker, in_TakerAmount = decimalBaseUnits (e_U E) rawTaker,
               in_Side = oa_Side ord, in_Expiration = oa_Expiration ord,
               in_NegRisk = derefBool (opt_NegRisk options), in_SignatureType = signatureType c,
               in_Metadata = oa_Metadata ord, in_BuilderCode = oa_BuilderCode ord, in_Taker = oa_Taker ord,
               in_Nonce = oa_Nonce ord, in_FeeRateBps = oa_FeeRateBps ord\<rparr> c))"

text \<open>The options \<open>CreateOrder\<close> builds with, once the market's tick size and neg-risk flag were looked up.\<close>

definition limitOrderOptions ::
  "'d env \<Rightarrow> 'd OrderArgs \<Rightarrow> CreateOrderOptions option \<Rightarrow> bool \<Rightarrow> bool \<Rightarrow> TickSize \<times> bool option \<Rightarrow>
   ('d client, CreateOrderOptions) act" where
  "limitOrderOptions E userOrder options tickCached metadataLoaded found =
     (let assetID = orderAssetID (oa_TokenID userOrder) (oa_PositionID userOrder)
      in bindE (limitTickSize E assetID options (fst found) tickCached metadataLoaded) (\<lambda>tickSize0.
         bindE (validateLimitPriceWithRefresh E assetID (oa_Price userOrder) tickSize0 options) (\<lambda>tickSize.
         bindE (limitNegRisk E assetID (oa_PositionID userOrder) options (snd found)) (\<lambda>isNegRisk.
           ret \<lparr>opt_TickSize = tickSize, opt_NegRisk = Some isNegRisk\<rparr>))))"

text \<open>\<open>CreateOrder\<close> up to the call of \<open>buildSignedLimitOrder\<close>.\<close>

definition prepareLimitOrder ::
  "'d env \<Rightarrow> 'd OrderArgs \<Rightarrow> CreateOrderOptions option \<Rightarrow> ('d client, CreateOrderOptions) act" where
  "prepareLimitOrder E userOrder options =
     bindE (time_now E) (\<lambda>now.
     bindE (lift (validateLimitOrderArgs (e_U E) userOrder (unixSeconds now))) (\<lambda>_ c0.
       let assetID = orderAssetID (oa_TokenID userOrder) (oa_PositionID userOrder);
           negRiskOption = (oa_PositionID userOrder \<noteq> [] \<or> Option.bind options opt_NegRisk \<noteq> None);
           (cachedTick, c1) = cachedTickSize E assetID c0;
           (cachedRisk, c2) = cachedNegRisk E assetID c1;
           tickCached = (cachedTick \<noteq> None);
           metadataLoaded = ((\<not> tickCached \<and> \<not> tickSizeOption options) \<or> (cachedRisk = None \<and> \<not> negRiskOption))
       in bindE
            (if metadataLoaded
             then bindE (resolveOrderMarketMetadata E assetID False) (\<lambda>metadata.
                    ret (case cachedTick of None \<Rightarrow> md_TickSize metadata | Some t \<Rightarrow> t,
                         case cachedRisk of None \<Rightarrow> Some (md_NegRisk metadata) | Some b \<Rightarrow> Some b))
             else ret (case cachedTick of None \<Rightarrow> [] | Some t \<Rightarrow> t, cachedRisk))
            (limitOrderOptions E userOrder options tickCached metadataLoaded) c2))"

definition CreateOrder ::
  "'d env \<Rightarrow> 'd OrderArgs \<Rightarrow> CreateOrderOptions option \<Rightarrow> ('d client, SignedOrder) act" where
  "CreateOrder E userOrder options = bindE (prepareLimitOrder E userOrder options) (buildSignedLimitOrder E userOrder)"

definition CreateExchangeV3OrderFromAmounts ::
  "'d env \<Rightarrow> OrderAmountsArgs \<Rightarrow> ('d client, SignedOrder) act" where
  "CreateExchangeV3OrderFromAmounts E args =
     (if (am_TokenID args = []) = (am_PositionID args = [])
      then fail (Msg ''order requires exactly one of TokenID or PositionID'')
      else if am_Side args \<noteq> SideBuy \<and> am_Side args \<noteq> SideSell then fail (Msg ''invalid side'')
      else
        bindE (time_now E) (\<lambda>now.
        bindE (lift (validateGTDExpiration (am_Expiration args) (unixSeconds now))) (\<lambda>_ c.
          signOrder E
            \<lparr>in_TokenID = [], in_PositionID = orderAssetID (am_TokenID args) (am_PositionID args),
             in_MakerAmount = am_MakerAmount args, in_TakerAmount = am_TakerAmount args,
             in_Side = am_Side args, in_Expiration = am_Expiration args, in_NegRisk = False,
             in_SignatureType = signatureType c, in_Metadata = am_Metadata args,
             in_BuilderCode = am_BuilderCode args, in_Taker = [], in_Nonce = 0, in_FeeRateBps = None\<rparr> c)))"

section \<open>Amounts are exact\<close>

context udecimal
begin

lemma fits_tick_grid:
  assumes "fits_tick U val price t" "roundingConfig t = Some cfg"
  shows "on_grid (rc_Price cfg) (val price)" "0 < val price" "val price \<le> 1"
proof -
  obtain m where m: "u_parse U t = Inr m" "val m \<le> val price" "val price \<le> 1 - val m" "u_prec U price \<le> u_prec U m"
    using assms(1) unfolding fits_tick_def by blast
  have t: "u_prec U m \<le> rc_Price cfg" "0 < val m" using tick_parse [OF assms(2)] m(1) by auto
  then show "on_grid (rc_Price cfg) (val price)" using m(4) prec_grid on_grid_mono order_trans by blast
  show "0 < val price" "val price \<le> 1" using t m by linarith+
qed

lemma exact_product:
  assumes "roundingConfig t = Some cfg" "on_grid (rc_Price cfg) (val price)" "u_prec U q \<le> 2"
  defines "p \<equiv> roundNormal U price (rc_Price cfg)"
  shows "val p = val price" "val (roundToAmount U (u_mul U q p) cfg) = val q * val price"
    "on_grid 6 (val q * val price)"
proof -
  note c = roundingConfig_facts [OF assms(1)]
  show p: "val p = val price" using assms(2) by (simp add: p_def roundNormal_def)
  have "u_prec U p \<le> rc_Price cfg" by (simp add: p_def roundNormal_def prec_round_haz)
  then have "u_prec U (u_mul U q p) \<le> rc_Amount cfg"
    using prec_mul [of q p] assms(3) c(2) by linarith
  then have "roundToAmount U (u_mul U q p) cfg = u_mul U q p" by (rule roundToAmount_same)
  moreover have q: "on_grid 2 (val q)" using prec_grid assms(3) by (rule on_grid_mono)
  then have "val (u_mul U q p) = val q * val p"
    by (rule mul_exact [where q = "rc_Price cfg"]) (use assms(2) p c in auto)
  ultimately show "val (roundToAmount U (u_mul U q p) cfg) = val q * val price" using p by simp
  show "on_grid 6 (val q * val price)" using on_grid_mult [OF q assms(2)] by (rule on_grid_mono) (use c in simp)
qed

lemma size_exact: "u_prec U sz \<le> 2 \<Longrightarrow> val (roundDown U sz 2) = val sz"
  using on_grid_mono [OF prec_grid, of sz 2] by (simp add: roundDown_def)

lemma base_units:
  assumes "decimalBaseUnits U v = Some n" "0 \<le> val v" "on_grid p (val v)" "p \<le> 6"
  shows "of_int n = val v * 10 ^ 6"
  using decimalBaseUnits_exact [OF assms(2-4)] assms(1) by auto

end

text \<open>What a successful \<open>buildSignedLimitOrder\<close> signed.\<close>

lemma buildSignedLimitOrder_run:
  assumes "buildSignedLimitOrder E ord options c = (Inr so, c')"
  obtains cfg rawMaker rawTaker c1 input where "roundingConfig (opt_TickSize options) = Some cfg"
    "u_prec (e_U E) (oa_Size ord) \<le> 2" "limitAmounts E ord cfg c = (Inr (rawMaker, rawTaker), c1)"
    "in_MakerAmount input = decimalBaseUnits (e_U E) rawMaker" "in_TakerAmount input = decimalBaseUnits (e_U E) rawTaker"
    "in_Side input = oa_Side ord" "signOrder E input c1 = (Inr so, c')"
proof (cases "roundingConfig (opt_TickSize options)")
  case None
  then show ?thesis using assms by (simp add: buildSignedLimitOrder_def)
next
  case (Some cfg)
  have "rc_Size cfg = 2" using Some by (rule roundingConfig_facts)
  then show ?thesis
    using assms Some
    by (auto simp: buildSignedLimitOrder_def decimalPlaces_def go_run not_less split: if_splits intro!: that [of cfg])
qed

lemma prepareLimitOrder_run:
  assumes "prepareLimitOrder E ord options c = (Inr opts, c')"
  obtains now cached loaded found c2 where "validateLimitOrderArgs (e_U E) ord (unixSeconds now) = Inr ()"
    "limitOrderOptions E ord options cached loaded found c2 = (Inr opts, c')"
  using assms unfolding prepareLimitOrder_def Let_def case_prod_unfold
  by (simp only: go_run) (elim exE conjE, rule that, simp_all)

lemma limitOrderOptions_run:
  assumes "limitOrderOptions E ord options cached loaded found c = (Inr opts, c')"
  obtains t0 c1 c2 where
    "validateLimitPriceWithRefresh E (orderAssetID (oa_TokenID ord) (oa_PositionID ord)) (oa_Price ord) t0 options c1 =
       (Inr (opt_TickSize opts), c2)"
    "tickSizeOption options \<longrightarrow> (\<exists>market. checkTickOption (e_U E) options market = Inr t0)"
proof -
  obtain t0 c1 where t0: "limitTickSize E (orderAssetID (oa_TokenID ord) (oa_PositionID ord)) options (fst found)
      cached loaded c = (Inr t0, c1)"
    and rest: "\<exists>c2. validateLimitPriceWithRefresh E (orderAssetID (oa_TokenID ord) (oa_PositionID ord))
      (oa_Price ord) t0 options c1 = (Inr (opt_TickSize opts), c2)"
    using assms unfolding limitOrderOptions_def Let_def by (auto simp: go_run)
  have "tickSizeOption options \<longrightarrow> (\<exists>market. checkTickOption (e_U E) options market = Inr t0)"
    using t0 by (auto simp: limitTickSize_def go_run)
  with rest that show ?thesis by blast
qed

lemma validateLimitOrderArgs_facts:
  assumes "validateLimitOrderArgs U ord now = Inr ()"
  shows "\<not> u_cmp U (oa_Size ord) (u_zero U) \<le> 0" "\<not> u_cmp U (oa_Price ord) (u_zero U) \<le> 0"
    "oa_Side ord = SideBuy \<or> oa_Side ord = SideSell"
    "oa_MaxSpend ord = Some m \<Longrightarrow> oa_Side ord = SideBuy \<and> \<not> u_cmp U m (u_zero U) \<le> 0"
  using assms by (auto simp: validateLimitOrderArgs_def split: if_splits)

text \<open>A created limit order, from its arguments to what was signed.\<close>

lemma CreateOrder_signed:
  assumes "udecimal (e_U E) val" "CreateOrder E ord options c = (Inr so, c')"
  obtains opts cfg rawMaker rawTaker c3 c4 input where "prepareLimitOrder E ord options c = (Inr opts, c3)"
    "roundingConfig (opt_TickSize opts) = Some cfg"
    "fits_tick (e_U E) val (oa_Price ord) (opt_TickSize opts)" "u_prec (e_U E) (oa_Size ord) \<le> 2" "0 < val (oa_Size ord)"
    "oa_Side ord = SideBuy \<or> oa_Side ord = SideSell"
    "\<forall>m. oa_MaxSpend ord = Some m \<longrightarrow> oa_Side ord = SideBuy \<and> 0 < val m"
    "tickSizeOption options \<longrightarrow> opt_TickSize opts = opt_TickSize (the options)"
    "limitAmounts E ord cfg c3 = (Inr (rawMaker, rawTaker), c4)"
    "in_MakerAmount input = decimalBaseUnits (e_U E) rawMaker" "in_TakerAmount input = decimalBaseUnits (e_U E) rawTaker"
    "in_Side input = oa_Side ord" "signOrder E input c4 = (Inr so, c')"
proof -
  note U = assms(1) and cmp = udecimal.cmp_simps [OF assms(1)]
  obtain opts c3 where p: "prepareLimitOrder E ord options c = (Inr opts, c3)" and bs: "buildSignedLimitOrder E ord opts c3 = (Inr so, c')"
    using assms(2) by (auto simp: CreateOrder_def go_run)
  obtain now cached loaded found c2 where v: "validateLimitOrderArgs (e_U E) ord (unixSeconds now) = Inr ()"
    and f: "limitOrderOptions E ord options cached loaded found c2 = (Inr opts, c3)"
    using prepareLimitOrder_run [OF p] .
  obtain t0 c1 c2' where t:
    "validateLimitPriceWithRefresh E (orderAssetID (oa_TokenID ord) (oa_PositionID ord)) (oa_Price ord) t0 options c1 =
       (Inr (opt_TickSize opts), c2')"
    "tickSizeOption options \<longrightarrow> (\<exists>market. checkTickOption (e_U E) options market = Inr t0)"
    using limitOrderOptions_run [OF f] .
  obtain cfg rawMaker rawTaker c4 input where s: "roundingConfig (opt_TickSize opts) = Some cfg"
    "u_prec (e_U E) (oa_Size ord) \<le> 2" "limitAmounts E ord cfg c3 = (Inr (rawMaker, rawTaker), c4)"
    "in_MakerAmount input = decimalBaseUnits (e_U E) rawMaker" "in_TakerAmount input = decimalBaseUnits (e_U E) rawTaker"
    "in_Side input = oa_Side ord" "signOrder E input c4 = (Inr so, c')"
    using buildSignedLimitOrder_run [OF bs] .
  have "tickSizeOption options \<longrightarrow> opt_TickSize opts = opt_TickSize (the options)"
    using t(2) udecimal.validateLimitPriceWithRefresh_fits(2) [OF U refl t(1)]
    by (auto simp: tickSizeOption_def checkTickOption_def go_run split: option.splits if_splits)
  moreover have "\<forall>m. oa_MaxSpend ord = Some m \<longrightarrow> oa_Side ord = SideBuy \<and> 0 < val m"
    using validateLimitOrderArgs_facts(4) [OF v] by (simp add: cmp udecimal.val_zero [OF U] not_le)
  ultimately show ?thesis
    using that [OF p s(1) udecimal.validateLimitPriceWithRefresh_fits(1) [OF U refl t(1)] s(2) _ _ _ _ s(3-7)]
      validateLimitOrderArgs_facts(1,3) [OF v]
    by (simp add: cmp udecimal.val_zero [OF U] not_le)
qed

context udecimal
begin

lemma limitAmounts_exact:
  assumes "limitAmounts E ord cfg c = (Inr (maker, taker), c')" "e_U E = U" "oa_MaxSpend ord = None"
    and "roundingConfig t = Some cfg" "fits_tick U val (oa_Price ord) t" "u_prec U (oa_Size ord) \<le> 2"
  defines "cost \<equiv> val (oa_Price ord) * val (oa_Size ord)"
  shows "if oa_Side ord = SideBuy then val maker = cost \<and> val taker = val (oa_Size ord)
    else val maker = val (oa_Size ord) \<and> val taker = cost"
    "on_grid 6 cost" "on_grid 6 (val (oa_Size ord))"
proof -
  note c = roundingConfig_facts [OF assms(4)]
  let ?q = "roundDown U (oa_Size ord) 2"
  have "u_prec U ?q \<le> 2" by (simp add: roundDown_def prec_trunc)
  note e = exact_product [OF assms(4) fits_tick_grid(1) [OF assms(5,4)] this] and q = size_exact [OF assms(6)]
  show "if oa_Side ord = SideBuy then val maker = cost \<and> val taker = val (oa_Size ord)
    else val maker = val (oa_Size ord) \<and> val taker = cost"
    using assms(1-3) e(2) q by (auto simp: limitAmounts_def Let_def cost_def c split: if_splits)
  show "on_grid 6 cost" using e(3) q by (simp add: cost_def mult.commute)
  show "on_grid 6 (val (oa_Size ord))" using on_grid_mono [OF prec_grid, of "oa_Size ord" 6] assms(6) by simp
qed

lemma limitAmounts_capped:
  assumes "limitAmounts E ord cfg c = (Inr (maker, taker), c')" "e_U E = U" "oa_MaxSpend ord = Some budget"
    and "oa_Side ord = SideBuy" "0 < val budget" "0 < val (oa_Size ord)"
    and "roundingConfig t = Some cfg" "fits_tick U val (oa_Price ord) t" "u_prec U (oa_Size ord) \<le> 2"
  defines "p \<equiv> roundNormal U (oa_Price ord) (rc_Price cfg)"
  obtains md bf c1 c2 where
    "resolveOrderMarketMetadata E (orderAssetID (oa_TokenID ord) (oa_PositionID ord)) False c = (Inr md, c1)"
    "resolveBuilderFeeRateCached E (oa_BuilderCode ord) c1 = (Inr bf, c2)"
    "0 \<le> val (fi_Rate (md_FeeInfo md)) \<longrightarrow>
       on_grid 6 (val maker) \<and> 0 \<le> val maker \<and> on_grid 6 (val taker) \<and> 0 \<le> val taker \<and> val maker = val taker * val (oa_Price ord) \<and>
       (let f = val (platformFeeRate U (md_FeeInfo md) p) in
        costWithFees (val maker) (val (oa_Price ord)) f (of_int (uint (bf_BuilderTakerFeeRateBps bf)) / 10000)
          \<le> val budget + (val budget + 2 + f) * ulp)"
proof -
  note c = roundingConfig_facts [OF assms(7)] and g = fits_tick_grid [OF assms(8,7)]
  let ?raw = "roundToAmount U (u_mul U (roundDown U (oa_Size ord) 2) p) cfg"
  obtain adjusted shares c1 where a:
    "adjustOrderBuyAmount E (orderAssetID (oa_TokenID ord) (oa_PositionID ord)) ?raw p budget (oa_BuilderCode ord) c =
       (Inr adjusted, c1)"
    "u_div U adjusted p = Inr shares" "taker = roundDown U shares 2" "maker = roundToAmount U (u_mul U taker p) cfg"
    using assms(1-4) by (auto simp: limitAmounts_def Let_def go_run p_def c)
  have t2: "u_prec U taker \<le> 2" "u_prec U (roundDown U (oa_Size ord) 2) \<le> 2"
    using a(3) by (simp_all add: roundDown_def prec_trunc)
  note e = exact_product [OF assms(7) g(1) t2(1), folded p_def] and r = exact_product [OF assms(7) g(1) t2(2), folded p_def]
  have raw: "0 \<le> val ?raw" using r(2) size_exact [OF assms(9)] assms(6) g(2) by simp
  have pv: "0 < val p" "val p \<le> 1" using e(1) g by simp_all
  obtain md bf c2 c3 where m:
    "resolveOrderMarketMetadata E (orderAssetID (oa_TokenID ord) (oa_PositionID ord)) False c = (Inr md, c2)"
    "resolveBuilderFeeRateCached E (oa_BuilderCode ord) c2 = (Inr bf, c3)"
    "0 \<le> val (fi_Rate (md_FeeInfo md)) \<longrightarrow> 0 < val adjusted \<and> on_grid 6 (val adjusted) \<and>
       (let f = val (platformFeeRate U (md_FeeInfo md) p) in
        0 \<le> f \<and> costWithFees (val adjusted) (val p) f (of_int (uint (bf_BuilderTakerFeeRateBps bf)) / 10000)
          \<le> val budget + (val budget + 2 + f) * ulp)"
    by (rule adjustOrderBuyAmount_bound [OF assms(2) a(1) raw less_imp_le [OF assms(5)] pv]) blast
  have g6: "on_grid 6 (val taker)" by (rule on_grid_mono [OF prec_grid]) (use t2(1) in simp)
  have "on_grid 6 (val maker) \<and> 0 \<le> val maker \<and> on_grid 6 (val taker) \<and> 0 \<le> val taker \<and> val maker = val taker * val (oa_Price ord) \<and>
       (let f = val (platformFeeRate U (md_FeeInfo md) p) in
        costWithFees (val maker) (val (oa_Price ord)) f (of_int (uint (bf_BuilderTakerFeeRateBps bf)) / 10000)
          \<le> val budget + (val budget + 2 + f) * ulp)"
    if fee: "0 \<le> val (fi_Rate (md_FeeInfo md))"
  proof -
    let ?f = "val (platformFeeRate U (md_FeeInfo md) p)" and ?b = "of_int (uint (bf_BuilderTakerFeeRateBps bf)) / 10000 :: rat"
    have adj: "0 < val adjusted" "0 \<le> ?f"
      "costWithFees (val adjusted) (val p) ?f ?b \<le> val budget + (val budget + 2 + ?f) * ulp"
      using m(3) fee by (auto simp: Let_def)
    have sh: "val shares = trunc_to 19 (val adjusted / val p)" using div_Inr(2) [OF a(2)] .
    have q: "0 \<le> val adjusted / val p" using adj(1) pv by simp
    have s0: "0 \<le> val shares" "val shares \<le> val adjusted / val p"
      unfolding sh using trunc_to_bounds [OF q] by auto
    have tk: "0 \<le> val taker" "val taker \<le> val adjusted / val p"
      using a(3) s0 trunc_to_bounds(1,2) [OF s0(1), of 2] by (auto simp: roundDown_def)
    have mk: "val maker = val taker * val p" using e(1,2) a(4) by simp
    have le: "val maker \<le> val adjusted" using mk tk(2) pv(1) by (simp add: pos_le_divide_eq)
    have "(0::int) \<le> uint (bf_BuilderTakerFeeRateBps bf)" by simp
    then have "(0::rat) \<le> of_int (uint (bf_BuilderTakerFeeRateBps bf))" by (simp only: of_int_0_le_iff)
    then have "0 \<le> ?b" by (simp only: divide_nonneg_pos zero_less_numeral)
    then have "0 \<le> 1 + ?f / val p + ?b" using adj(2) pv(1) by (intro add_nonneg_nonneg divide_nonneg_pos) auto
    then have "costWithFees (val maker) (val p) ?f ?b \<le> costWithFees (val adjusted) (val p) ?f ?b"
      using le unfolding costWithFees_factor by (intro mult_right_mono)
    then show ?thesis using adj(3) mk tk(1) pv e g6 by (simp add: Let_def a(4))
  qed
  then show ?thesis using that [OF m(1,2)] by blast
qed

end

section \<open>Properties\<close>

text \<open>
  C1: a limit order without a spending cap is signed for exactly the amounts it asks for.  With price \<open>p\<close> and size \<open>q\<close>
  a buy gives \<open>p * q\<close> of collateral for \<open>q\<close> shares and a sell the reverse, in millionths and with no rounding at all.
\<close>

theorem limit_order_exact:
  assumes "udecimal (e_U E) val" "CreateOrder E ord options c = (Inr so, c')" "oa_MaxSpend ord = None"
  shows "\<exists>maker taker. big_int_set_string (o_MakerAmount (so_Order so)) 10 = Some maker \<and>
    big_int_set_string (o_TakerAmount (so_Order so)) 10 = Some taker \<and> o_Side (so_Order so) = oa_Side ord \<and>
    (if oa_Side ord = SideBuy
     then of_int maker = val (oa_Price ord) * val (oa_Size ord) * 10 ^ 6 \<and> of_int taker = val (oa_Size ord) * 10 ^ 6
     else of_int maker = val (oa_Size ord) * 10 ^ 6 \<and> of_int taker = val (oa_Price ord) * val (oa_Size ord) * 10 ^ 6)"
proof -
  obtain t cfg rawMaker rawTaker c3 c4 input where s: "roundingConfig t = Some cfg"
    "fits_tick (e_U E) val (oa_Price ord) t" "u_prec (e_U E) (oa_Size ord) \<le> 2" "0 < val (oa_Size ord)"
    "limitAmounts E ord cfg c3 = (Inr (rawMaker, rawTaker), c4)"
    "in_MakerAmount input = decimalBaseUnits (e_U E) rawMaker" "in_TakerAmount input = decimalBaseUnits (e_U E) rawTaker"
    "in_Side input = oa_Side ord" "signOrder E input c4 = (Inr so, c')"
    by (rule CreateOrder_signed [OF assms(1,2)]) blast
  obtain maker taker where b: "in_MakerAmount input = Some maker" "in_TakerAmount input = Some taker"
    "big_int_set_string (o_MakerAmount (so_Order so)) 10 = Some maker"
    "big_int_set_string (o_TakerAmount (so_Order so)) 10 = Some taker" "o_Side (so_Order so) = oa_Side ord"
    using signOrder_body [OF s(9)] s(8) by metis
  note a = udecimal.limitAmounts_exact [OF assms(1) s(5) refl assms(3) s(1-3)]
  have p: "0 < val (oa_Price ord)" using udecimal.fits_tick_grid(2) [OF assms(1) s(2,1)] .
  have u: "decimalBaseUnits (e_U E) rawMaker = Some maker" "decimalBaseUnits (e_U E) rawTaker = Some taker"
    using b(1,2) s(6,7) by simp_all
  have "of_int maker = val rawMaker * 10 ^ 6" "of_int taker = val rawTaker * 10 ^ 6"
    by (rule udecimal.base_units [OF assms(1) u(1), where p = 6]; use a p s(4) in \<open>auto split: if_splits\<close>)
      (rule udecimal.base_units [OF assms(1) u(2), where p = 6]; use a p s(4) in \<open>auto split: if_splits\<close>)
  then show ?thesis using a(1) b(3-5) by (auto split: if_splits)
qed

text \<open>
  C7: an order is signed only for a price that fits a supported tick size (within one tick of the ends, a multiple of the tick) and
  for a positive size of at most two decimal places; a tick size given by the caller is the one used.
\<close>

theorem limit_order_price_safe:
  assumes "udecimal (e_U E) val" "CreateOrder E ord options c = (Inr so, c')"
  shows "\<exists>t cfg. roundingConfig t = Some cfg \<and> fits_tick (e_U E) val (oa_Price ord) t \<and>
    0 < val (oa_Price ord) \<and> val (oa_Price ord) < 1 \<and> 0 < val (oa_Size ord) \<and> on_grid 2 (val (oa_Size ord)) \<and>
    (tickSizeOption options \<longrightarrow> t = opt_TickSize (the options))"
proof -
  obtain t cfg where s: "roundingConfig t = Some cfg"
    "fits_tick (e_U E) val (oa_Price ord) t" "u_prec (e_U E) (oa_Size ord) \<le> 2" "0 < val (oa_Size ord)"
    "tickSizeOption options \<longrightarrow> t = opt_TickSize (the options)"
    by (rule CreateOrder_signed [OF assms]) blast
  obtain m where m: "u_parse (e_U E) t = Inr m" "0 < val m" using udecimal.tick_parse [OF assms(1) s(1)] by blast
  have "val m \<le> val (oa_Price ord)" "val (oa_Price ord) \<le> 1 - val m" using s(2) m(1) by (auto simp: fits_tick_def)
  moreover have "on_grid 2 (val (oa_Size ord))" using udecimal.prec_grid [OF assms(1)] s(3) by (rule on_grid_mono)
  ultimately show ?thesis using s m(2) by (intro exI [of _ t] exI [of _ cfg]) auto
qed

text \<open>
  C8: a spending cap holds with the fees.  For a buy with \<open>MaxSpend\<close>, take the market metadata and the builder's fee rate that the construction reads, in the state in which
  \<open>CreateOrder\<close> starts to build.  If the market's fee rate is not negative, the signed collateral plus the platform and builder fees at these rates is at
  most the cap, up to the 19-digit precision of the decimals (\<open>ulp\<close>), and the collateral is exactly price times shares.
\<close>

theorem limit_order_max_spend:
  assumes "udecimal (e_U E) val" "CreateOrder E ord options c = (Inr so, c')" "oa_MaxSpend ord = Some budget"
  shows "\<exists>opts c1 cfg md c2 bf c3 maker taker.
    prepareLimitOrder E ord options c = (Inr opts, c1) \<and> roundingConfig (opt_TickSize opts) = Some cfg \<and>
    resolveOrderMarketMetadata E (orderAssetID (oa_TokenID ord) (oa_PositionID ord)) False c1 = (Inr md, c2) \<and>
    resolveBuilderFeeRateCached E (oa_BuilderCode ord) c2 = (Inr bf, c3) \<and>
    big_int_set_string (o_MakerAmount (so_Order so)) 10 = Some maker \<and>
    big_int_set_string (o_TakerAmount (so_Order so)) 10 = Some taker \<and> o_Side (so_Order so) = SideBuy \<and>
    (0 \<le> val (fi_Rate (md_FeeInfo md)) \<longrightarrow> of_int maker = of_int taker * val (oa_Price ord) \<and>
       (let f = val (platformFeeRate (e_U E) (md_FeeInfo md) (roundNormal (e_U E) (oa_Price ord) (rc_Price cfg))) in
        costWithFees (of_int maker / 10 ^ 6) (val (oa_Price ord)) f (of_int (uint (bf_BuilderTakerFeeRateBps bf)) / 10000)
          \<le> val budget + (val budget + 2 + f) * ulp))"
proof -
  obtain opts cfg rawMaker rawTaker c3 c4 input where s: "roundingConfig (opt_TickSize opts) = Some cfg"
    "fits_tick (e_U E) val (oa_Price ord) (opt_TickSize opts)" "u_prec (e_U E) (oa_Size ord) \<le> 2" "0 < val (oa_Size ord)"
    "\<forall>m. oa_MaxSpend ord = Some m \<longrightarrow> oa_Side ord = SideBuy \<and> 0 < val m"
    "limitAmounts E ord cfg c3 = (Inr (rawMaker, rawTaker), c4)"
    "in_MakerAmount input = decimalBaseUnits (e_U E) rawMaker" "in_TakerAmount input = decimalBaseUnits (e_U E) rawTaker"
    "in_Side input = oa_Side ord" "signOrder E input c4 = (Inr so, c')" "prepareLimitOrder E ord options c = (Inr opts, c3)"
    by (rule CreateOrder_signed [OF assms(1,2)]) blast
  have side: "oa_Side ord = SideBuy" "0 < val budget" using s(5) assms(3) by auto
  obtain maker taker where b: "in_MakerAmount input = Some maker" "in_TakerAmount input = Some taker"
    "big_int_set_string (o_MakerAmount (so_Order so)) 10 = Some maker"
    "big_int_set_string (o_TakerAmount (so_Order so)) 10 = Some taker" "o_Side (so_Order so) = SideBuy"
    using signOrder_body [OF s(10)] s(9) side(1) by metis
  obtain md bf c1 c2 where m:
    "resolveOrderMarketMetadata E (orderAssetID (oa_TokenID ord) (oa_PositionID ord)) False c3 = (Inr md, c1)"
    "resolveBuilderFeeRateCached E (oa_BuilderCode ord) c1 = (Inr bf, c2)"
    "0 \<le> val (fi_Rate (md_FeeInfo md)) \<longrightarrow> on_grid 6 (val rawMaker) \<and> 0 \<le> val rawMaker \<and> on_grid 6 (val rawTaker) \<and> 0 \<le> val rawTaker \<and>
       val rawMaker = val rawTaker * val (oa_Price ord) \<and>
       (let f = val (platformFeeRate (e_U E) (md_FeeInfo md) (roundNormal (e_U E) (oa_Price ord) (rc_Price cfg))) in
        costWithFees (val rawMaker) (val (oa_Price ord)) f (of_int (uint (bf_BuilderTakerFeeRateBps bf)) / 10000)
          \<le> val budget + (val budget + 2 + f) * ulp)"
    by (rule udecimal.limitAmounts_capped [OF assms(1) s(6) refl assms(3) side s(4) s(1-3)]) blast
  have "of_int maker = val rawMaker * 10 ^ 6" "of_int taker = val rawTaker * 10 ^ 6" if "0 \<le> val (fi_Rate (md_FeeInfo md))"
  proof -
    have g: "on_grid 6 (val rawMaker)" "0 \<le> val rawMaker" "on_grid 6 (val rawTaker)" "0 \<le> val rawTaker" using m(3) that by blast+
    show "of_int maker = val rawMaker * 10 ^ 6" by (rule udecimal.base_units [OF assms(1) _ g(2,1)]) (use b(1) s(7) in auto)
    show "of_int taker = val rawTaker * 10 ^ 6" by (rule udecimal.base_units [OF assms(1) _ g(4,3)]) (use b(2) s(8) in auto)
  qed
  then show ?thesis using m b(3-5) s(1,11) by (auto simp: Let_def)
qed

text \<open>
  A buy of 100 shares at 0.56 on the concrete client, whose tick size and neg-risk flag are cached, without a cap and with a cap
  of 50.
\<close>

definition demo_order :: "dec option \<Rightarrow> dec OrderArgs" where
  "demo_order cap = \<lparr>oa_TokenID = ''111'', oa_PositionID = [], oa_Price = Dec 5600000000000000000,
     oa_Size = Dec 1000000000000000000000, oa_Side = SideBuy, oa_Expiration = 0, oa_MaxSpend = cap,
     oa_Taker = [], oa_Nonce = 0, oa_FeeRateBps = None, oa_Metadata = [], oa_BuilderCode = ''0xb'',
     oa_DeferExec = False\<rparr>"

definition demo_cached :: "dec client" where
  "demo_cached = demo_client\<lparr>tickSizeCache := [''111'' \<mapsto> ''0.01''], negRiskCache := [''111'' \<mapsto> False]\<rparr>"

lemma demo_cached_lookup:
  "cachedTickSize demo_env ''111'' (tick demo_cached) = (Some ''0.01'', tick demo_cached)"
  "cachedNegRisk demo_env ''111'' (tick demo_cached) = (Some False, tick demo_cached)"
  by (simp_all add: cachedTickSize_def cachedNegRisk_def fresh_def demo_cached_def demo_client_def
      newClientCacheState_def clientCacheState.defs)

lemma demo_order_price: "validateLimitPrice dec19_ops (Dec 5600000000000000000) ''0.01'' = Inr ()"
  by code_simp

lemma demo_order_valid:
  "cap = None \<or> cap = Some (Dec 500000000000000000000) \<Longrightarrow>
     validateLimitOrderArgs dec19_ops (demo_order cap) now = Inr ()"
proof -
  have "u_cmp dec19_ops (Dec 1000000000000000000000) (u_zero dec19_ops) = 1"
    "u_cmp dec19_ops (Dec 5600000000000000000) (u_zero dec19_ops) = 1"
    "u_cmp dec19_ops (Dec 500000000000000000000) (u_zero dec19_ops) = 1" by code_simp+
  then show "cap = None \<or> cap = Some (Dec 500000000000000000000) \<Longrightarrow>
     validateLimitOrderArgs dec19_ops (demo_order cap) now = Inr ()"
    by (auto simp: validateLimitOrderArgs_def demo_order_def validateGTDExpiration_def)
qed

definition demo_config :: roundConfig where
  "demo_config = \<lparr>rc_Price = 2, rc_Size = 2, rc_Amount = 4\<rparr>"

lemma bindE_time_now: "bindE (time_now E) f c = f (e_clock E (ticks c)) (tick c)"
  by (simp add: bindE_def time_now_def)

lemma bindE_lift_Inr: "bindE (lift (Inr x)) f = f x"
  by (simp add: bindE_def lift_def)

lemma demo_created:
  assumes "cap = None \<or> cap = Some (Dec 500000000000000000000)"
    and a: "case limitAmounts demo_env (demo_order cap) demo_config (tick demo_cached) of
      (r, c) \<Rightarrow> r = Inr (rawMaker, rawTaker) \<and> chainID c = 137 \<and> cachedVersion c = 0 \<and> signatureType c = 0"
    and m: "decimalBaseUnits dec19_ops rawMaker = Some m" "0 < m" "m < 2 ^ 256"
    and t: "decimalBaseUnits dec19_ops rawTaker = Some t" "0 < t" "t < 2 ^ 256"
  shows "\<not> isl (fst (CreateOrder demo_env (demo_order cap) None demo_cached))"
proof -
  have U: "e_U demo_env = dec19_ops" by (simp add: demo_env_def)
  have o: "oa_TokenID (demo_order cap) = ''111''" "oa_PositionID (demo_order cap) = []"
    "oa_Price (demo_order cap) = Dec 5600000000000000000" by (simp_all add: demo_order_def)
  have prec: "\<not> decimalPlaces dec19_ops (oa_Size (demo_order cap)) > 2" unfolding demo_order_def by simp code_simp
  have cfg: "roundingConfig ''0.01'' = Some demo_config" by (simp add: roundingConfig_def tick_size_defs demo_config_def)
  obtain c4 where c4: "limitAmounts demo_env (demo_order cap) demo_config (tick demo_cached) = (Inr (rawMaker, rawTaker), c4)"
    and ch: "chainID c4 = 137" "cachedVersion c4 = 0" "signatureType c4 = 0"
    using a by (auto split: prod.splits)
  have fin: "limitOrderOptions demo_env (demo_order cap) None True False (''0.01'', Some False) (tick demo_cached) =
      (Inr \<lparr>opt_TickSize = ''0.01'', opt_NegRisk = Some False\<rparr>, tick demo_cached)"
    by (simp add: limitOrderOptions_def limitTickSize_def validateLimitPriceWithRefresh_def limitNegRisk_def
        orderAssetID_def o U demo_order_price tickSizeOption_def)
  have "\<not> isl (fst (buildSignedLimitOrder demo_env (demo_order cap)
      \<lparr>opt_TickSize = ''0.01'', opt_NegRisk = Some False\<rparr> (tick demo_cached)))"
    using ch prec m t c4
    by (simp add: buildSignedLimitOrder_def cfg U bindE_def o demo_config_def [symmetric] demo_sign_ok
        del: power_numeral) (simp add: demo_config_def demo_sign_ok o)
  then show ?thesis
    using demo_order_valid [OF assms(1)]
    by (simp add: CreateOrder_def prepareLimitOrder_def bindE_def [of _ "buildSignedLimitOrder _ _"] bindE_time_now bindE_lift_Inr U o orderAssetID_def
        demo_cached_lookup tickSizeOption_def fin)
qed

lemma demo_created_exact:
  "\<not> isl (fst (CreateOrder demo_env (demo_order None) None demo_cached))"
proof (rule demo_created)
  show "case limitAmounts demo_env (demo_order None) demo_config (tick demo_cached) of (r, c) \<Rightarrow>
      r = Inr (Dec 560000000000000000000, Dec 1000000000000000000000) \<and>
      chainID c = 137 \<and> cachedVersion c = 0 \<and> signatureType c = 0"
    "decimalBaseUnits dec19_ops (Dec 560000000000000000000) = Some 56000000"
    "decimalBaseUnits dec19_ops (Dec 1000000000000000000000) = Some 100000000"
    by code_simp+
qed simp_all

lemma demo_created_capped:
  "\<not> isl (fst (CreateOrder demo_env (demo_order (Some (Dec 500000000000000000000))) None demo_cached))"
proof (rule demo_created)
  show "case limitAmounts demo_env (demo_order (Some (Dec 500000000000000000000))) demo_config (tick demo_cached) of (r, c) \<Rightarrow>
      r = Inr (Dec 493192000000000000000, Dec 880700000000000000000) \<and>
      chainID c = 137 \<and> cachedVersion c = 0 \<and> signatureType c = 0"
    "decimalBaseUnits dec19_ops (Dec 493192000000000000000) = Some 49319200"
    "decimalBaseUnits dec19_ops (Dec 880700000000000000000) = Some 88070000"
    by code_simp+
qed simp_all

lemma demo_U: "udecimal (e_U demo_env) dval"
  by (simp add: demo_env_def dec19.udecimal_axioms)

theorem limit_order_exact_witness:
  "\<exists>so c'. CreateOrder demo_env (demo_order None) None demo_cached = (Inr so, c') \<and>
     (\<exists>maker. big_int_set_string (o_MakerAmount (so_Order so)) 10 = Some maker \<and>
        of_int maker = dval (Dec 5600000000000000000) * dval (Dec 1000000000000000000000) * 10 ^ 6)"
proof -
  note ok = isr_witness [OF demo_created_exact]
  have "oa_MaxSpend (demo_order None) = None" by (simp add: demo_order_def)
  from limit_order_exact [OF demo_U ok this] ok show ?thesis
    by (metis (no_types, lifting) demo_order_def OrderArgs.select_convs(3,4,5))
qed

theorem limit_order_price_safe_witness:
  "\<exists>so c'. CreateOrder demo_env (demo_order None) None demo_cached = (Inr so, c') \<and>
     (\<exists>t. fits_tick (e_U demo_env) dval (oa_Price (demo_order None)) t)"
  using limit_order_price_safe [OF demo_U isr_witness [OF demo_created_exact]] isr_witness [OF demo_created_exact]
  by blast

theorem limit_order_max_spend_witness:
  "\<exists>so c' opts c1 md c2 maker taker. CreateOrder demo_env (demo_order (Some (Dec 500000000000000000000))) None demo_cached = (Inr so, c') \<and>
     prepareLimitOrder demo_env (demo_order (Some (Dec 500000000000000000000))) None demo_cached = (Inr opts, c1) \<and>
     resolveOrderMarketMetadata demo_env ''111'' False c1 = (Inr md, c2) \<and>
     big_int_set_string (o_MakerAmount (so_Order so)) 10 = Some maker \<and> big_int_set_string (o_TakerAmount (so_Order so)) 10 = Some taker \<and>
     (0 \<le> dval (fi_Rate (md_FeeInfo md)) \<longrightarrow> of_int maker = of_int taker * dval (Dec 5600000000000000000))"
proof -
  let ?o = "demo_order (Some (Dec 500000000000000000000))"
  have o: "oa_MaxSpend ?o = Some (Dec 500000000000000000000)" "orderAssetID (oa_TokenID ?o) (oa_PositionID ?o) = ''111''" "oa_Price ?o = Dec 5600000000000000000"
    by (simp_all add: demo_order_def orderAssetID_def)
  from limit_order_max_spend [OF demo_U isr_witness [OF demo_created_capped] o(1), unfolded o] isr_witness [OF demo_created_capped]
  show ?thesis by blast
qed

end
