(* ===== verification/MarketOrder.thy ===== *)
theory MarketOrder
  imports LimitOrder
begin

text \<open>
  \<open>clob/market_order.go\<close>: market orders with optional price protection (\<open>MaxPrice\<close>, \<open>MinPrice\<close>) and
  spending cap (\<open>MaxSpend\<close>), and the one rebuild after a refresh of the market snapshot.
\<close>

section \<open>Construction\<close>

definition errProtectedMarketAmounts :: go_error where
  "errProtectedMarketAmounts = Sentinel ''unsafe protected market order amounts''"

text \<open>A nil pointer was dereferenced.\<close>

definition panic :: go_error where
  "panic = Sentinel ''panic''"

definition validateMarketOrderArgs :: "'d udecimal_ops \<Rightarrow> 'd MarketOrderArgs \<Rightarrow> unit result" where
  "validateMarketOrderArgs U ord =
     (let nonpositive = (\<lambda>b. case b of None \<Rightarrow> False | Some v \<Rightarrow> u_cmp U v (u_zero U) \<le> 0)
      in if mo_TokenID ord = [] \<and> mo_PositionID ord = []
           then Inl (Msg ''order requires exactly one of TokenID or PositionID'')
         else if mo_TokenID ord \<noteq> [] \<and> mo_PositionID ord \<noteq> []
           then Inl (Msg ''order must not set both TokenID and PositionID'')
         else if u_cmp U (mo_Amount ord) (u_zero U) \<le> 0 then Inl (Msg ''amount must be positive'')
         else if u_cmp U (mo_Price ord) (u_zero U) < 0 then Inl (Msg ''price cannot be negative'')
         else if mo_Side ord \<noteq> SideBuy \<and> mo_Side ord \<noteq> SideSell then Inl (Msg ''invalid side'')
         else if mo_Side ord = SideBuy \<and> mo_MinPrice ord \<noteq> None
           then Inl (Msg ''MinPrice is only valid for SELL market orders'')
         else if mo_Side ord = SideSell \<and> (mo_MaxPrice ord \<noteq> None \<or> mo_MaxSpend ord \<noteq> None)
           then Inl (Msg ''MaxPrice and MaxSpend are only valid for BUY market orders'')
         else if nonpositive (mo_MaxPrice ord) then Inl (Msg ''MaxPrice must be positive'')
         else if nonpositive (mo_MinPrice ord) then Inl (Msg ''MinPrice must be positive'')
         else if nonpositive (mo_MaxSpend ord) then Inl (Msg ''MaxSpend must be positive'')
         else Inr ())"

definition marketOrderPriceBound :: "'d MarketOrderArgs \<Rightarrow> 'd option" where
  "marketOrderPriceBound ord = (if mo_Side ord = SideBuy then mo_MaxPrice ord else mo_MinPrice ord)"

definition validateProtectedMarketAmounts ::
  "'d udecimal_ops \<Rightarrow> 'd \<Rightarrow> 'd \<Rightarrow> Side \<Rightarrow> 'd \<Rightarrow> unit result" where
  "validateProtectedMarketAmounts U maker taker side price =
     (if u_is_zero U maker \<or> u_is_zero U taker
      then Inl (Wrap ''amount rounds to zero'' errProtectedMarketAmounts)
      else case (big_rat_set_string (u_string U maker), big_rat_set_string (u_string U taker),
                 big_rat_set_string (u_string U price)) of
        (Some makerRatio, Some takerRatio, Some limit) \<Rightarrow>
          if side = SideSell then
            guardE (\<not> takerRatio / makerRatio < limit)
              (Wrap ''cannot preserve MinPrice with this SELL amount and tick precision'' errProtectedMarketAmounts)
          else
            (let encoded = makerRatio / takerRatio; nextAsk = limit + 1 / 10000
             in guardE (\<not> (encoded < limit \<or> encoded \<ge> nextAsk))
                  (Wrap ''cannot preserve MaxPrice with this BUY amount and tick precision''
                     errProtectedMarketAmounts))
      | _ \<Rightarrow> Inl panic)"

text \<open>The maker and taker amounts of \<open>buildSignedMarketOrder\<close> at the rounded price.\<close>

definition marketAmounts ::
  "'d env \<Rightarrow> 'd MarketOrderArgs \<Rightarrow> roundConfig \<Rightarrow> 'd \<Rightarrow> ('d client, 'd \<times> 'd) act" where
  "marketAmounts E ord cfg price =
     (let U = e_U E; amount = mo_Amount ord
      in if mo_Side ord = SideBuy then
           bindE (case mo_MaxSpend ord of
                    None \<Rightarrow> ret amount
                  | Some maxSpend \<Rightarrow>
                      adjustOrderBuyAmount E (orderAssetID (mo_TokenID ord) (mo_PositionID ord)) amount price maxSpend
                        (mo_BuilderCode ord)) (\<lambda>adjustedAmount.
             let rawMaker = (if mo_MaxPrice ord \<noteq> None then roundDown U adjustedAmount 6 else adjustedAmount)
             in bindE (lift (wrap_err ''calculation error'' (u_div U rawMaker price))) (\<lambda>v.
                  ret (rawMaker, if mo_MaxPrice ord \<noteq> None then roundDown U v (rc_Amount cfg)
                                 else roundToAmount U v cfg)))
         else if mo_Side ord = SideSell then
           (let rawMaker = roundDown U amount (rc_Size cfg)
            in ret (rawMaker, roundToAmount U (u_mul U rawMaker price) cfg))
         else fail (Msg ''invalid side''))"

definition buildSignedMarketOrder ::
  "'d env \<Rightarrow> 'd MarketOrderArgs \<Rightarrow> CreateOrderOptions \<Rightarrow> ('d client, SignedOrder) act" where
  "buildSignedMarketOrder E ord options =
     (case roundingConfig (opt_TickSize options) of
        None \<Rightarrow> fail (Msg ''unsupported tick size'')
      | Some cfg \<Rightarrow>
          let U = e_U E; price = roundDown U (mo_Price ord) (rc_Price cfg)
          in bindE (marketAmounts E ord cfg price) (\<lambda>(rawMaker, rawTaker).
               let makerAmount = toTokenDecimals U rawMaker; takerAmount = toTokenDecimals U rawTaker
               in bindE (lift (if marketOrderPriceBound ord \<noteq> None
                               then validateProtectedMarketAmounts U makerAmount takerAmount (mo_Side ord) price
                               else Inr ())) (\<lambda>_ c.
                  signOrder E
                    \<lparr>in_TokenID = mo_TokenID ord, in_PositionID = mo_PositionID ord,
                     in_MakerAmount = decimalInteger U makerAmount, in_TakerAmount = decimalInteger U takerAmount,
                     in_Side = mo_Side ord, in_Expiration = 0, in_NegRisk = derefBool (opt_NegRisk options),
                     in_SignatureType = signatureType c, in_Metadata = mo_Metadata ord,
                     in_BuilderCode = mo_BuilderCode ord, in_Taker = mo_Taker ord, in_Nonce = mo_Nonce ord,
                     in_FeeRateBps = mo_FeeRateBps ord\<rparr> c)))"

text \<open>Explicit prices may be stricter than the protection, never weaker.\<close>

definition clampToBound :: "'d udecimal_ops \<Rightarrow> 'd MarketOrderArgs \<Rightarrow> 'd MarketOrderArgs" where
  "clampToBound U ord =
     (case marketOrderPriceBound ord of
        None \<Rightarrow> ord
      | Some bound \<Rightarrow>
          if u_is_zero U (mo_Price ord) \<or>
             (mo_Side ord = SideBuy \<and> u_cmp U (mo_Price ord) bound > 0) \<or>
             (mo_Side ord = SideSell \<and> u_cmp U (mo_Price ord) bound < 0)
          then ord\<lparr>mo_Price := bound\<rparr> else ord)"

text \<open>The options of the second build of \<open>CreateMarketOrder\<close>, from a refreshed snapshot.\<close>

definition refreshedMarketOptions ::
  "'d env \<Rightarrow> 'd MarketOrderArgs \<Rightarrow> 'd option \<Rightarrow> CreateOrderOptions option \<Rightarrow> ('d client, CreateOrderOptions) act" where
  "refreshedMarketOptions E ord protectedPrice options =
     bindE (wrapE ''refresh protected order metadata''
              (resolveOrderMarketMetadata E (orderAssetID (mo_TokenID ord) (mo_PositionID ord)) True)) (\<lambda>metadata.
     bindE (lift (case protectedPrice of None \<Rightarrow> Inl panic
              | Some p \<Rightarrow> rbind (validateMarketPriceBound (e_U E) p (md_TickSize metadata)) (\<lambda>_.
                           validateMarketPriceBound (e_U E) (mo_Price ord) (md_TickSize metadata)))) (\<lambda>_.
       let isNegRisk = (if mo_PositionID ord \<noteq> [] then False
                        else case Option.bind options opt_NegRisk of Some b \<Rightarrow> b | None \<Rightarrow> md_NegRisk metadata)
       in ret \<lparr>opt_TickSize = md_TickSize metadata, opt_NegRisk = Some isNegRisk\<rparr>))"

text \<open>
  The options with which \<open>CreateMarketOrder\<close> builds the order that it returns: the first ones, unless that build fails for its amounts.  The state is the one in which that build
  starts.
\<close>

definition marketOrderOptions ::
  "'d env \<Rightarrow> 'd MarketOrderArgs \<Rightarrow> 'd option \<Rightarrow> CreateOrderOptions option \<Rightarrow> TickSize \<Rightarrow> ('d client, CreateOrderOptions) act" where
  "marketOrderOptions E ord protectedPrice options tickSize =
     (let assetID = orderAssetID (mo_TokenID ord) (mo_PositionID ord)
      in bindE (if mo_PositionID ord = [] then resolveNegRisk E assetID options else ret False) (\<lambda>isNegRisk c.
           let first = \<lparr>opt_TickSize = tickSize, opt_NegRisk = Some isNegRisk\<rparr> in
           case buildSignedMarketOrder E ord first c of
             (Inr so, c') \<Rightarrow> (Inr first, c)
           | (Inl err, c') \<Rightarrow>
               if \<not> errors_is err errProtectedMarketAmounts \<or> tickSizeOption options then (Inl err, c')
               else refreshedMarketOptions E ord protectedPrice options c'))"

text \<open>\<open>CreateMarketOrder\<close> from the priced order on.\<close>

definition buildMarketOrder ::
  "'d env \<Rightarrow> 'd MarketOrderArgs \<Rightarrow> 'd option \<Rightarrow> CreateOrderOptions option \<Rightarrow> TickSize \<Rightarrow> ('d client, SignedOrder) act" where
  "buildMarketOrder E ord protectedPrice options tickSize =
     (let assetID = orderAssetID (mo_TokenID ord) (mo_PositionID ord)
      in bindE (if mo_PositionID ord = [] then resolveNegRisk E assetID options else ret False) (\<lambda>isNegRisk c.
           case buildSignedMarketOrder E ord \<lparr>opt_TickSize = tickSize, opt_NegRisk = Some isNegRisk\<rparr> c of
             (Inr so, c') \<Rightarrow> (Inr so, c')
           | (Inl err, c') \<Rightarrow>
               if \<not> errors_is err errProtectedMarketAmounts \<or> tickSizeOption options then (Inl err, c')
               else bindE (refreshedMarketOptions E ord protectedPrice options) (buildSignedMarketOrder E ord) c'))"

text \<open>\<open>CreateMarketOrder\<close> up to the priced order, with its tick size.\<close>

definition prepareMarketOrder ::
  "'d env \<Rightarrow> 'd MarketOrderArgs \<Rightarrow> CreateOrderOptions option \<Rightarrow> ('d client, 'd MarketOrderArgs \<times> TickSize) act" where
  "prepareMarketOrder E userOrder options =
     (let U = e_U E;
          protectedPrice = marketOrderPriceBound userOrder;
          ord1 = clampToBound U userOrder;
          ord2 = (if mo_OrderType ord1 = [] then ord1\<lparr>mo_OrderType := OrderTypeFOK\<rparr> else ord1);
          assetID = orderAssetID (mo_TokenID userOrder) (mo_PositionID userOrder)
      in bindE (lift (validateMarketOrderArgs U userOrder)) (\<lambda>_.
         bindE (lift (guardE (mo_OrderType ord2 = OrderTypeFOK \<or> mo_OrderType ord2 = OrderTypeFAK)
                  (Msg ''market orders only support FOK or FAK order types''))) (\<lambda>_.
         bindE (resolveTickSize E assetID options) (\<lambda>tick0.
         bindE (case protectedPrice of None \<Rightarrow> ret tick0
                | Some p \<Rightarrow> validateLimitPriceWithRefresh E assetID p tick0 options) (\<lambda>tick1.
         bindE (if u_is_zero U (mo_Price ord2)
                then CalculateMarketPrice E assetID (mo_Side ord2) (mo_Amount ord2) (mo_OrderType ord2)
                else ret (mo_Price ord2)) (\<lambda>price.
         bindE (validateLimitPriceWithRefresh E assetID price tick1 options) (\<lambda>tick2.
           ret (ord2\<lparr>mo_Price := price\<rparr>, tick2))))))))"

definition CreateMarketOrder ::
  "'d env \<Rightarrow> 'd MarketOrderArgs \<Rightarrow> CreateOrderOptions option \<Rightarrow> ('d client, SignedOrder) act" where
  "CreateMarketOrder E userOrder options =
     bindE (prepareMarketOrder E userOrder options) (\<lambda>(ord, tickSize). buildMarketOrder E ord (marketOrderPriceBound userOrder) options tickSize)"

section \<open>What a market order is signed for\<close>

definition aligned_tick :: "'d udecimal_ops \<Rightarrow> ('d \<Rightarrow> rat) \<Rightarrow> 'd \<Rightarrow> TickSize \<Rightarrow> bool" where
  "aligned_tick U val price t \<longleftrightarrow>
     (\<exists>m. u_parse U t = Inr m \<and> val m \<le> val price \<and> val price \<le> 1 - val m \<and> (\<exists>k::int. val price = of_int k * val m))"

lemma fits_tick_aligned: "fits_tick U val price t \<Longrightarrow> aligned_tick U val price t"
  by (auto simp: fits_tick_def aligned_tick_def)

context udecimal
begin

lemma validateMarketPriceBound_aligned:
  "validateMarketPriceBound U price t = Inr u \<Longrightarrow> aligned_tick U val price t"
  using validateTickAlignment_multiple [of price t]
  unfolding validateMarketPriceBound_def validatePrice_def parseTickSize_def aligned_tick_def Let_def
  by (fastforce simp: go_run val_from_int64)

lemma aligned_grid:
  assumes "aligned_tick U val price t" "roundingConfig t = Some cfg"
  shows "on_grid (rc_Price cfg) (val price)" "0 < val price" "val price \<le> 1"
proof -
  obtain m k where m: "u_parse U t = Inr m" "val m \<le> val price" "val price \<le> 1 - val m"
    "val price = of_int k * val m" using assms(1) unfolding aligned_tick_def by blast
  have t: "u_prec U m \<le> rc_Price cfg" "0 < val m" using tick_parse [OF assms(2)] m(1) by auto
  then have "on_grid (rc_Price cfg) (val m)" using prec_grid on_grid_mono by blast
  then show "on_grid (rc_Price cfg) (val price)" using on_grid_mult_int [of "rc_Price cfg" "val m" k] m(4) by (simp add: mult.commute)
  show "0 < val price" "val price \<le> 1" using t m by linarith+
qed

lemma tokenInteger:
  "\<exists>n. decimalInteger U (toTokenDecimals U v) = Some n \<and> val (toTokenDecimals U v) = of_int n"
proof -
  have "on_grid 0 (val (toTokenDecimals U v))" by (simp add: toTokenDecimals_def)
  then obtain n where "val (toTokenDecimals U v) = of_int n" by (auto simp: on_grid_0_iff elim: Ints_cases)
  then show ?thesis using decimalInteger_of_int by blast
qed

lemma protected_amounts:
  assumes "validateProtectedMarketAmounts U maker taker side price = Inr u"
  shows "side = SideSell \<Longrightarrow> val price \<le> val taker / val maker"
    "side \<noteq> SideSell \<Longrightarrow> val price \<le> val maker / val taker \<and> val maker / val taker < val price + 1 / 10000"
  using assms by (auto simp: validateProtectedMarketAmounts_def Let_def split: if_splits)

lemma clampToBound_price:
  assumes "validateMarketOrderArgs U ord = Inr ()" "marketOrderPriceBound ord = Some bound"
  defines "p \<equiv> val (mo_Price (clampToBound U ord))"
  shows "0 < p" "mo_Side ord = SideBuy \<Longrightarrow> p \<le> val bound \<and> (val (mo_Price ord) \<noteq> 0 \<longrightarrow> p \<le> val (mo_Price ord))"
    "mo_Side ord = SideSell \<Longrightarrow> val bound \<le> p \<and> val (mo_Price ord) \<le> p"
    "mo_Side ord = SideBuy \<Longrightarrow> p = (if val (mo_Price ord) = 0 then val bound else min (val (mo_Price ord)) (val bound))"
proof -
  have v: "0 < val bound" "0 \<le> val (mo_Price ord)" "mo_Side ord = SideBuy \<or> mo_Side ord = SideSell"
    using assms(1,2) by (auto simp: validateMarketOrderArgs_def marketOrderPriceBound_def Let_def split: if_splits)
  show "0 < p" "mo_Side ord = SideBuy \<Longrightarrow> p \<le> val bound \<and> (val (mo_Price ord) \<noteq> 0 \<longrightarrow> p \<le> val (mo_Price ord))"
    "mo_Side ord = SideSell \<Longrightarrow> val bound \<le> p \<and> val (mo_Price ord) \<le> p"
    "mo_Side ord = SideBuy \<Longrightarrow> p = (if val (mo_Price ord) = 0 then val bound else min (val (mo_Price ord)) (val bound))"
    using v by (auto simp: p_def clampToBound_def assms(2))
qed

end

lemma clampToBound_fields:
  "mo_Side (clampToBound U ord) = mo_Side ord" "mo_MaxPrice (clampToBound U ord) = mo_MaxPrice ord"
  "mo_MinPrice (clampToBound U ord) = mo_MinPrice ord" "mo_MaxSpend (clampToBound U ord) = mo_MaxSpend ord"
  "mo_Amount (clampToBound U ord) = mo_Amount ord" "mo_TokenID (clampToBound U ord) = mo_TokenID ord"
  "mo_PositionID (clampToBound U ord) = mo_PositionID ord" "mo_BuilderCode (clampToBound U ord) = mo_BuilderCode ord"
  by (auto simp: clampToBound_def split: option.splits)

lemma buildSignedMarketOrder_run:
  assumes "buildSignedMarketOrder E ord options c = (Inr so, c')"
  obtains cfg rawMaker rawTaker c1 input where "roundingConfig (opt_TickSize options) = Some cfg"
    "marketAmounts E ord cfg (roundDown (e_U E) (mo_Price ord) (rc_Price cfg)) c = (Inr (rawMaker, rawTaker), c1)"
    "marketOrderPriceBound ord \<noteq> None \<longrightarrow>
       validateProtectedMarketAmounts (e_U E) (toTokenDecimals (e_U E) rawMaker) (toTokenDecimals (e_U E) rawTaker)
         (mo_Side ord) (roundDown (e_U E) (mo_Price ord) (rc_Price cfg)) = Inr ()"
    "in_MakerAmount input = decimalInteger (e_U E) (toTokenDecimals (e_U E) rawMaker)"
    "in_TakerAmount input = decimalInteger (e_U E) (toTokenDecimals (e_U E) rawTaker)"
    "in_Side input = mo_Side ord" "signOrder E input c1 = (Inr so, c')"
proof (cases "roundingConfig (opt_TickSize options)")
  case None
  then show ?thesis using assms by (simp add: buildSignedMarketOrder_def)
next
  case (Some cfg)
  show ?thesis
    using assms Some
    by (auto simp: buildSignedMarketOrder_def Let_def go_run split: if_splits intro!: that [of cfg])
qed

lemma buildMarketOrder_run:
  assumes "udecimal (e_U E) val" "buildMarketOrder E ord protectedPrice options t c = (Inr so, c')"
    and "fits_tick (e_U E) val (mo_Price ord) t"
  obtains opts c1 where "marketOrderOptions E ord protectedPrice options t c = (Inr opts, c1)"
    "aligned_tick (e_U E) val (mo_Price ord) (opt_TickSize opts)" "buildSignedMarketOrder E ord opts c1 = (Inr so, c')"
proof -
  let ?risk = "if mo_PositionID ord = [] then resolveNegRisk E (orderAssetID (mo_TokenID ord) (mo_PositionID ord)) options else ret False"
  obtain b c1 where b: "?risk c = (Inr b, c1)" using assms(2) unfolding buildMarketOrder_def Let_def by (simp only: go_run) blast
  let ?first = "\<lparr>opt_TickSize = t, opt_NegRisk = Some b\<rparr>"
  obtain r c2 where f: "buildSignedMarketOrder E ord ?first c1 = (r, c2)" by fastforce
  note run = assms(2) [unfolded buildMarketOrder_def Let_def bindE_step(1) [of ?risk, OF b] f]
  show ?thesis
  proof (cases r)
    case (Inr so')
    then show ?thesis using run f fits_tick_aligned [OF assms(3)]
      by (intro that [of ?first c1]) (simp_all add: marketOrderOptions_def bindE_step(1) [of ?risk, OF b])
  next
    case (Inl err)
    then obtain opts c3 where o: "refreshedMarketOptions E ord protectedPrice options c2 = (Inr opts, c3)" "buildSignedMarketOrder E ord opts c3 = (Inr so, c')"
      "errors_is err errProtectedMarketAmounts" "\<not> tickSizeOption options"
      using run by (auto simp: go_run split: if_splits)
    have "aligned_tick (e_U E) val (mo_Price ord) (opt_TickSize opts)"
      using o(1) udecimal.validateMarketPriceBound_aligned [OF assms(1)] unfolding refreshedMarketOptions_def Let_def
      by (auto simp: go_run split: option.splits)
    then show ?thesis using o f Inl by (intro that [of opts c3]) (simp_all add: marketOrderOptions_def bindE_step(1) [of ?risk, OF b])
  qed
qed

lemma CreateMarketOrder_run:
  assumes "udecimal (e_U E) val" "CreateMarketOrder E ord options c = (Inr so, c')"
  obtains ord' t c0 opts c1 where "validateMarketOrderArgs (e_U E) ord = Inr ()"
    "prepareMarketOrder E ord options c = (Inr (ord', t), c0)"
    "marketOrderOptions E ord' (marketOrderPriceBound ord) options t c0 = (Inr opts, c1)"
    "aligned_tick (e_U E) val (mo_Price ord') (opt_TickSize opts)"
    "buildSignedMarketOrder E ord' opts c1 = (Inr so, c')"
    "mo_Side ord' = mo_Side ord" "mo_MaxPrice ord' = mo_MaxPrice ord"
    "mo_MinPrice ord' = mo_MinPrice ord" "mo_MaxSpend ord' = mo_MaxSpend ord" "mo_Amount ord' = mo_Amount ord"
    "orderAssetID (mo_TokenID ord') (mo_PositionID ord') = orderAssetID (mo_TokenID ord) (mo_PositionID ord)"
    "mo_BuilderCode ord' = mo_BuilderCode ord"
    "marketOrderPriceBound ord \<noteq> None \<longrightarrow> mo_Price ord' = mo_Price (clampToBound (e_U E) ord)"
    "val (mo_Price (clampToBound (e_U E) ord)) \<noteq> 0 \<longrightarrow> mo_Price ord' = mo_Price (clampToBound (e_U E) ord)"
proof -
  let ?U = "e_U E"
  let ?o1 = "clampToBound ?U ord"
  define o2 where "o2 = (if mo_OrderType ?o1 = [] then ?o1\<lparr>mo_OrderType := OrderTypeFOK\<rparr> else ?o1)"
  have f: "mo_Side o2 = mo_Side ord" "mo_MaxPrice o2 = mo_MaxPrice ord" "mo_MinPrice o2 = mo_MinPrice ord"
    "mo_MaxSpend o2 = mo_MaxSpend ord" "mo_Amount o2 = mo_Amount ord" "mo_TokenID o2 = mo_TokenID ord"
    "mo_PositionID o2 = mo_PositionID ord" "mo_BuilderCode o2 = mo_BuilderCode ord" "mo_Price o2 = mo_Price ?o1"
    by (simp_all add: o2_def clampToBound_fields)
  obtain ord' t c0 where pr: "prepareMarketOrder E ord options c = (Inr (ord', t), c0)" "buildMarketOrder E ord' (marketOrderPriceBound ord) options t c0 = (Inr so, c')"
    using assms(2) by (auto simp: CreateMarketOrder_def go_run)
  obtain tick1 price c1 c2 c3 where r: "validateMarketOrderArgs ?U ord = Inr ()"
    "(if u_is_zero ?U (mo_Price o2)
      then CalculateMarketPrice E (orderAssetID (mo_TokenID ord) (mo_PositionID ord)) (mo_Side o2) (mo_Amount o2) (mo_OrderType o2)
      else ret (mo_Price o2)) c1 = (Inr price, c2)"
    "validateLimitPriceWithRefresh E (orderAssetID (mo_TokenID ord) (mo_PositionID ord)) price tick1 options c3 = (Inr t, c0)"
    "o2\<lparr>mo_Price := price\<rparr> = ord'"
    using pr(1) unfolding prepareMarketOrder_def Let_def o2_def [symmetric]
    by (simp only: go_run) (elim exE conjE, rule that, simp_all)
  have fit: "fits_tick ?U val (mo_Price ord') t"
    using udecimal.validateLimitPriceWithRefresh_fits(1) [OF assms(1) refl r(3)] by (simp add: r(4) [symmetric])
  obtain opts c5 where t: "marketOrderOptions E ord' (marketOrderPriceBound ord) options t c0 = (Inr opts, c5)"
    "aligned_tick ?U val (mo_Price ord') (opt_TickSize opts)" "buildSignedMarketOrder E ord' opts c5 = (Inr so, c')"
    using buildMarketOrder_run [OF assms(1) pr(2) fit] .
  have p: "price = mo_Price ?o1" if "val (mo_Price ?o1) \<noteq> 0"
    using r(2) f(9) udecimal.is_zero_iff [OF assms(1)] that by simp
  have "val (mo_Price ?o1) \<noteq> 0" if "marketOrderPriceBound ord \<noteq> None"
    using udecimal.clampToBound_price(1) [OF assms(1) r(1)] that by fastforce
  then show ?thesis
    by (intro that [OF r(1) pr(1) t]) (simp_all add: f p r(4) [symmetric])
qed

text \<open>The amounts of a protected market order against its effective price.\<close>

lemma protected_order:
  assumes "udecimal (e_U E) val" "CreateMarketOrder E ord options c = (Inr so, c')"
    and bound: "marketOrderPriceBound ord = Some bound"
  obtains maker taker where "big_int_set_string (o_MakerAmount (so_Order so)) 10 = Some maker" "0 < maker"
    "big_int_set_string (o_TakerAmount (so_Order so)) 10 = Some taker" "0 < taker"
    "validateMarketOrderArgs (e_U E) ord = Inr ()"
    "mo_Side ord = SideSell \<Longrightarrow> val (mo_Price (clampToBound (e_U E) ord)) \<le> of_int taker / of_int maker"
    "mo_Side ord \<noteq> SideSell \<Longrightarrow> val (mo_Price (clampToBound (e_U E) ord)) \<le> of_int maker / of_int taker \<and>
       of_int maker / of_int taker < val (mo_Price (clampToBound (e_U E) ord)) + 1 / 10000"
proof -
  let ?U = "e_U E"
  let ?p = "mo_Price (clampToBound ?U ord)"
  obtain ord' opts c1 where r0: "validateMarketOrderArgs ?U ord = Inr ()" "aligned_tick ?U val (mo_Price ord') (opt_TickSize opts)"
    "buildSignedMarketOrder E ord' opts c1 = (Inr so, c')" "mo_Side ord' = mo_Side ord" "mo_MaxPrice ord' = mo_MaxPrice ord"
    "mo_MinPrice ord' = mo_MinPrice ord" "marketOrderPriceBound ord \<noteq> None \<longrightarrow> mo_Price ord' = ?p"
    by (rule CreateMarketOrder_run [OF assms(1,2)]) blast
  define t where "t = opt_TickSize opts"
  have r: "validateMarketOrderArgs ?U ord = Inr ()" "aligned_tick ?U val ?p t"
    "buildSignedMarketOrder E ord' opts c1 = (Inr so, c')"
    "mo_Price ord' = ?p" "mo_Side ord' = mo_Side ord" "marketOrderPriceBound ord' = Some bound"
    using r0 bound by (auto simp: marketOrderPriceBound_def t_def)
  obtain cfg rawMaker rawTaker c2 input where s0: "roundingConfig t = Some cfg"
    "marketOrderPriceBound ord' \<noteq> None \<longrightarrow>
       validateProtectedMarketAmounts ?U (toTokenDecimals ?U rawMaker) (toTokenDecimals ?U rawTaker)
         (mo_Side ord') (roundDown ?U (mo_Price ord') (rc_Price cfg)) = Inr ()"
    "in_MakerAmount input = decimalInteger ?U (toTokenDecimals ?U rawMaker)"
    "in_TakerAmount input = decimalInteger ?U (toTokenDecimals ?U rawTaker)" "signOrder E input c2 = (Inr so, c')"
    by (rule buildSignedMarketOrder_run [OF r(3), folded t_def]) blast
  have s: "roundingConfig t = Some cfg"
    "validateProtectedMarketAmounts ?U (toTokenDecimals ?U rawMaker) (toTokenDecimals ?U rawTaker)
       (mo_Side ord) (roundDown ?U ?p (rc_Price cfg)) = Inr ()"
    "in_MakerAmount input = decimalInteger ?U (toTokenDecimals ?U rawMaker)"
    "in_TakerAmount input = decimalInteger ?U (toTokenDecimals ?U rawTaker)" "signOrder E input c2 = (Inr so, c')"
    using s0 r(4-6) by auto
  obtain maker taker where m: "decimalInteger ?U (toTokenDecimals ?U rawMaker) = Some maker"
    "val (toTokenDecimals ?U rawMaker) = of_int maker" "decimalInteger ?U (toTokenDecimals ?U rawTaker) = Some taker"
    "val (toTokenDecimals ?U rawTaker) = of_int taker"
    using udecimal.tokenInteger [OF assms(1)] by metis
  have b: "0 < maker" "0 < taker" "big_int_set_string (o_MakerAmount (so_Order so)) 10 = Some maker"
    "big_int_set_string (o_TakerAmount (so_Order so)) 10 = Some taker"
    using signOrder_body [OF s(5)] s(3,4) m(1,3) by auto
  have p: "val (roundDown ?U ?p (rc_Price cfg)) = val ?p"
    using udecimal.aligned_grid(1) [OF assms(1) r(2) s(1)] by (simp add: roundDown_def udecimal.val_trunc [OF assms(1)])
  show ?thesis
    using udecimal.protected_amounts [OF assms(1) s(2)] m(2,4) p
    by (intro that [OF b(3,1,4,2) r(1)]) simp_all
qed

context udecimal
begin

lemma marketAmounts_capped:
  assumes "marketAmounts E ord cfg p c = (Inr (maker, taker), c')" "e_U E = U" "mo_MaxSpend ord = Some budget"
    and "mo_Side ord = SideBuy" "0 < val budget" "0 < val (mo_Amount ord)" "0 < val p" "val p \<le> 1"
  obtains md bf c1 c2 where
    "resolveOrderMarketMetadata E (orderAssetID (mo_TokenID ord) (mo_PositionID ord)) False c = (Inr md, c1)"
    "resolveBuilderFeeRateCached E (mo_BuilderCode ord) c1 = (Inr bf, c2)"
    "0 \<le> val (fi_Rate (md_FeeInfo md)) \<longrightarrow> on_grid 6 (val maker) \<and> 0 \<le> val maker \<and>
       (let f = val (platformFeeRate U (md_FeeInfo md) p) in
        costWithFees (val maker) (val p) f (of_int (uint (bf_BuilderTakerFeeRateBps bf)) / 10000)
          \<le> val budget + (val budget + 2 + f) * ulp)"
proof -
  obtain adjusted c1 where a:
    "adjustOrderBuyAmount E (orderAssetID (mo_TokenID ord) (mo_PositionID ord)) (mo_Amount ord) p budget
       (mo_BuilderCode ord) c = (Inr adjusted, c1)"
    "maker = (if mo_MaxPrice ord \<noteq> None then roundDown U adjusted 6 else adjusted)"
    using assms(1-4) by (auto simp: marketAmounts_def Let_def go_run)
  obtain md bf c2 c3 where m:
    "resolveOrderMarketMetadata E (orderAssetID (mo_TokenID ord) (mo_PositionID ord)) False c = (Inr md, c2)"
    "resolveBuilderFeeRateCached E (mo_BuilderCode ord) c2 = (Inr bf, c3)"
    "0 \<le> val (fi_Rate (md_FeeInfo md)) \<longrightarrow> 0 < val adjusted \<and> on_grid 6 (val adjusted) \<and>
       (let f = val (platformFeeRate U (md_FeeInfo md) p) in
        0 \<le> f \<and> costWithFees (val adjusted) (val p) f (of_int (uint (bf_BuilderTakerFeeRateBps bf)) / 10000)
          \<le> val budget + (val budget + 2 + f) * ulp)"
    by (rule adjustOrderBuyAmount_bound [OF assms(2) a(1) less_imp_le [OF assms(6)] less_imp_le [OF assms(5)] assms(7,8)])
      blast
  have "val maker = val adjusted" if "on_grid 6 (val adjusted)" using a(2) that by (simp add: roundDown_def)
  then show ?thesis using that [OF m(1,2)] m(3) by (auto simp: Let_def)
qed

end

section \<open>Properties\<close>

text \<open>
  C2: a protected market buy never encodes a price that could take an ask above the protection.  The effective limit is the explicit price where it is lower than \<open>MaxPrice\<close>, and
  \<open>MaxPrice\<close> otherwise.  The price of the signed amounts, maker over taker, is at least this limit and exceeds it by less than the smallest tick, 0.0001.
\<close>

theorem protected_buy:
  assumes "udecimal (e_U E) val" "CreateMarketOrder E ord options c = (Inr so, c')"
    and "mo_Side ord = SideBuy" "mo_MaxPrice ord = Some maxPrice"
  defines "limit \<equiv> if val (mo_Price ord) = 0 then val maxPrice else min (val (mo_Price ord)) (val maxPrice)"
  shows "\<exists>maker taker. big_int_set_string (o_MakerAmount (so_Order so)) 10 = Some maker \<and>
    big_int_set_string (o_TakerAmount (so_Order so)) 10 = Some taker \<and> 0 < maker \<and> 0 < taker \<and> 0 < limit \<and>
    limit \<le> of_int maker / of_int taker \<and> of_int maker / of_int taker < limit + 1 / 10000"
proof -
  have b: "marketOrderPriceBound ord = Some maxPrice" using assms(3,4) by (simp add: marketOrderPriceBound_def)
  obtain maker taker where m: "big_int_set_string (o_MakerAmount (so_Order so)) 10 = Some maker" "0 < maker"
    "big_int_set_string (o_TakerAmount (so_Order so)) 10 = Some taker" "0 < taker"
    "validateMarketOrderArgs (e_U E) ord = Inr ()"
    "mo_Side ord \<noteq> SideSell \<Longrightarrow> val (mo_Price (clampToBound (e_U E) ord)) \<le> of_int maker / of_int taker \<and>
       of_int maker / of_int taker < val (mo_Price (clampToBound (e_U E) ord)) + 1 / 10000"
    by (rule protected_order [OF assms(1,2) b]) metis
  have "mo_Side ord \<noteq> SideSell" using assms(3) by simp
  moreover have "val (mo_Price (clampToBound (e_U E) ord)) = limit" "0 < limit"
    using udecimal.clampToBound_price(1,4) [OF assms(1) m(5) b] assms(3) by (simp_all add: limit_def)
  ultimately show ?thesis using m by (intro exI [of _ maker] exI [of _ taker]) simp
qed

text \<open>
  C3: a protected market sell never encodes a price below the protection: taker over maker is at least \<open>MinPrice\<close> and at least any
  explicit price.
\<close>

theorem protected_sell:
  assumes "udecimal (e_U E) val" "CreateMarketOrder E ord options c = (Inr so, c')"
    and "mo_Side ord = SideSell" "mo_MinPrice ord = Some minPrice"
  shows "\<exists>maker taker. big_int_set_string (o_MakerAmount (so_Order so)) 10 = Some maker \<and>
    big_int_set_string (o_TakerAmount (so_Order so)) 10 = Some taker \<and> 0 < maker \<and> 0 < taker \<and>
    val minPrice \<le> of_int taker / of_int maker \<and> val (mo_Price ord) \<le> of_int taker / of_int maker"
proof -
  have "mo_Side ord \<noteq> SideBuy" using assms(3) by simp
  then have b: "marketOrderPriceBound ord = Some minPrice" using assms(4) by (simp add: marketOrderPriceBound_def)
  obtain maker taker where m: "big_int_set_string (o_MakerAmount (so_Order so)) 10 = Some maker" "0 < maker"
    "big_int_set_string (o_TakerAmount (so_Order so)) 10 = Some taker" "0 < taker"
    "validateMarketOrderArgs (e_U E) ord = Inr ()"
    "mo_Side ord = SideSell \<Longrightarrow> val (mo_Price (clampToBound (e_U E) ord)) \<le> of_int taker / of_int maker"
    by (rule protected_order [OF assms(1,2) b]) metis
  from m(6) [OF assms(3)] udecimal.clampToBound_price(3) [OF assms(1) m(5) b assms(3)] show ?thesis
    using m(1-4) by (intro exI [of _ maker] exI [of _ taker]) auto
qed

text \<open>
  C9: the spending cap of a market buy holds with the fees.  Take the order as priced, the options of the build that is returned, and the market metadata and the builder's fee rate
  that this build reads.  If the market's fee rate is not negative, the signed collateral plus the platform and builder fees at these rates is at most \<open>MaxSpend\<close>, up to
  the precision of the decimals (\<open>ulp\<close>).  The order is priced at the clamped explicit price, if there is one.
\<close>

theorem market_order_max_spend:
  assumes "udecimal (e_U E) val" "CreateMarketOrder E ord options c = (Inr so, c')"
    and "mo_Side ord = SideBuy" "mo_MaxSpend ord = Some budget"
  shows "\<exists>ord' t c0 opts c1 cfg md c2 bf c3 maker.
    prepareMarketOrder E ord options c = (Inr (ord', t), c0) \<and>
    marketOrderOptions E ord' (marketOrderPriceBound ord) options t c0 = (Inr opts, c1) \<and> roundingConfig (opt_TickSize opts) = Some cfg \<and>
    resolveOrderMarketMetadata E (orderAssetID (mo_TokenID ord) (mo_PositionID ord)) False c1 = (Inr md, c2) \<and>
    resolveBuilderFeeRateCached E (mo_BuilderCode ord) c2 = (Inr bf, c3) \<and>
    big_int_set_string (o_MakerAmount (so_Order so)) 10 = Some maker \<and> 0 < maker \<and> 0 < val (mo_Price ord') \<and> val (mo_Price ord') \<le> 1 \<and>
    (val (mo_Price (clampToBound (e_U E) ord)) \<noteq> 0 \<longrightarrow> mo_Price ord' = mo_Price (clampToBound (e_U E) ord)) \<and>
    (0 \<le> val (fi_Rate (md_FeeInfo md)) \<longrightarrow>
       (let f = val (platformFeeRate (e_U E) (md_FeeInfo md) (roundDown (e_U E) (mo_Price ord') (rc_Price cfg))) in
        costWithFees (of_int maker / 10 ^ 6) (val (mo_Price ord')) f (of_int (uint (bf_BuilderTakerFeeRateBps bf)) / 10000)
          \<le> val budget + (val budget + 2 + f) * ulp))"
proof -
  let ?U = "e_U E"
  obtain ord' t c0 opts c1 where r: "validateMarketOrderArgs ?U ord = Inr ()"
    "prepareMarketOrder E ord options c = (Inr (ord', t), c0)"
    "marketOrderOptions E ord' (marketOrderPriceBound ord) options t c0 = (Inr opts, c1)" "aligned_tick ?U val (mo_Price ord') (opt_TickSize opts)"
    "buildSignedMarketOrder E ord' opts c1 = (Inr so, c')"
    "mo_Side ord' = mo_Side ord" "mo_MaxSpend ord' = mo_MaxSpend ord" "mo_Amount ord' = mo_Amount ord"
    "orderAssetID (mo_TokenID ord') (mo_PositionID ord') = orderAssetID (mo_TokenID ord) (mo_PositionID ord)"
    "mo_BuilderCode ord' = mo_BuilderCode ord"
    "val (mo_Price (clampToBound ?U ord)) \<noteq> 0 \<longrightarrow> mo_Price ord' = mo_Price (clampToBound ?U ord)"
    by (rule CreateMarketOrder_run [OF assms(1,2)]) blast
  obtain cfg rawMaker rawTaker c2 input where s: "roundingConfig (opt_TickSize opts) = Some cfg"
    "marketAmounts E ord' cfg (roundDown ?U (mo_Price ord') (rc_Price cfg)) c1 = (Inr (rawMaker, rawTaker), c2)"
    "in_MakerAmount input = decimalInteger ?U (toTokenDecimals ?U rawMaker)" "signOrder E input c2 = (Inr so, c')"
    by (rule buildSignedMarketOrder_run [OF r(5)]) blast
  let ?p = "roundDown ?U (mo_Price ord') (rc_Price cfg)"
  have p: "val ?p = val (mo_Price ord')"
    using udecimal.aligned_grid(1) [OF assms(1) r(4) s(1)] by (simp add: roundDown_def udecimal.val_trunc [OF assms(1)])
  have pos: "0 < val ?p" "val ?p \<le> 1" using udecimal.aligned_grid(2,3) [OF assms(1) r(4) s(1)] p by simp_all
  have amt: "0 < val (mo_Amount ord')" "0 < val budget"
    using r(1,8) assms(4) udecimal.cmp_simps [OF assms(1)] udecimal.val_zero [OF assms(1)]
    by (auto simp: validateMarketOrderArgs_def Let_def split: if_splits)
  have o: "mo_MaxSpend ord' = Some budget" "mo_Side ord' = SideBuy" using r(6,7) assms(3,4) by simp_all
  obtain md bf c3 c4 where m:
    "resolveOrderMarketMetadata E (orderAssetID (mo_TokenID ord') (mo_PositionID ord')) False c1 = (Inr md, c3)"
    "resolveBuilderFeeRateCached E (mo_BuilderCode ord') c3 = (Inr bf, c4)"
    "0 \<le> val (fi_Rate (md_FeeInfo md)) \<longrightarrow> on_grid 6 (val rawMaker) \<and> 0 \<le> val rawMaker \<and>
       (let f = val (platformFeeRate ?U (md_FeeInfo md) ?p) in
        costWithFees (val rawMaker) (val ?p) f (of_int (uint (bf_BuilderTakerFeeRateBps bf)) / 10000)
          \<le> val budget + (val budget + 2 + f) * ulp)"
    by (rule udecimal.marketAmounts_capped [OF assms(1) s(2) refl o amt(2,1) pos]) blast
  obtain maker where k: "in_MakerAmount input = Some maker" "0 < maker"
    "big_int_set_string (o_MakerAmount (so_Order so)) 10 = Some maker"
    using signOrder_body [OF s(4)] by metis
  have "of_int maker / 10 ^ 6 = val rawMaker" if "0 \<le> val (fi_Rate (md_FeeInfo md))"
  proof -
    have "of_int maker = val rawMaker * 10 ^ 6"
      by (rule udecimal.base_units [OF assms(1), where p = 6]) (use k(1) s(3) m(3) that in \<open>auto simp: decimalBaseUnits_def\<close>)
    then show ?thesis by simp
  qed
  then show ?thesis using m [unfolded r(9,10)] k(2,3) pos p r(2,3,11) s(1) by (auto simp: Let_def)
qed

text \<open>A protected buy for 50, a protected sell of 100 shares and a capped buy on the concrete client.\<close>

definition demo_market_order :: "Side \<Rightarrow> dec \<Rightarrow> dec option \<Rightarrow> dec option \<Rightarrow> dec option \<Rightarrow> dec MarketOrderArgs" where
  "demo_market_order side amount maxSpend maxPrice minPrice =
     \<lparr>mo_TokenID = ''111'', mo_PositionID = [], mo_Amount = amount, mo_Side = side, mo_Price = Dec 0,
      mo_MaxSpend = maxSpend, mo_MaxPrice = maxPrice, mo_MinPrice = minPrice, mo_Taker = [], mo_Nonce = 0,
      mo_FeeRateBps = None, mo_OrderType = [], mo_Metadata = [], mo_BuilderCode = ''0xb'', mo_DeferExec = False\<rparr>"

lemma demo_cached_resolve:
  "resolveTickSize demo_env ''111'' None demo_cached = (Inr ''0.01'', demo_cached)"
  "resolveNegRisk demo_env ''111'' None demo_cached = (Inr False, demo_cached)"
  by (simp_all add: resolveTickSize_def resolveNegRisk_def cachedTickSize_def cachedNegRisk_def fresh_def demo_cached_def
      demo_client_def newClientCacheState_def clientCacheState.defs checkTickOption_def)

lemma demo_market_created:
  fixes ord :: "dec MarketOrderArgs"
  assumes v: "validateMarketOrderArgs dec19_ops ord = Inr ()"
    and o: "mo_TokenID ord = ''111''" "mo_PositionID ord = []" "mo_OrderType ord = []" "mo_Price ord = Dec 0"
    and b: "marketOrderPriceBound ord = Some bound"
    and p: "validateLimitPrice dec19_ops bound ''0.01'' = Inr ()" "\<not> u_is_zero dec19_ops bound" "roundDown dec19_ops bound 2 = bound"
    and a: "case marketAmounts demo_env (ord\<lparr>mo_OrderType := OrderTypeFOK, mo_Price := bound\<rparr>) demo_config bound demo_cached of
      (r, c) \<Rightarrow> r = Inr (rawMaker, rawTaker) \<and> chainID c = 137 \<and> cachedVersion c = 0 \<and> signatureType c = 0"
    and pr: "validateProtectedMarketAmounts dec19_ops (toTokenDecimals dec19_ops rawMaker) (toTokenDecimals dec19_ops rawTaker)
      (mo_Side ord) bound = Inr ()"
    and m: "decimalInteger dec19_ops (toTokenDecimals dec19_ops rawMaker) = Some m" "0 < m" "m < 2 ^ 256"
    and t: "decimalInteger dec19_ops (toTokenDecimals dec19_ops rawTaker) = Some t" "0 < t" "t < 2 ^ 256"
  shows "\<not> isl (fst (CreateMarketOrder demo_env ord None demo_cached))"
proof -
  have U: "e_U demo_env = dec19_ops" by (simp add: demo_env_def)
  have cfg: "roundingConfig ''0.01'' = Some demo_config" by (simp add: roundingConfig_def tick_size_defs demo_config_def)
  have z: "dval (Dec 0) = 0" by code_simp
  let ?o = "ord\<lparr>mo_OrderType := OrderTypeFOK, mo_Price := bound\<rparr>"
  obtain c4 where c4: "marketAmounts demo_env ?o demo_config bound demo_cached = (Inr (rawMaker, rawTaker), c4)"
    and ch: "chainID c4 = 137" "cachedVersion c4 = 0" "signatureType c4 = 0"
    using a by (auto split: prod.splits)
  have clamp: "clampToBound dec19_ops ord = ord\<lparr>mo_Price := bound\<rparr>" by (simp add: clampToBound_def b o z)
  have lim: "validateLimitPriceWithRefresh demo_env ''111'' bound ''0.01'' None = ret ''0.01''"
    by (simp add: validateLimitPriceWithRefresh_def U p)
  have nz: "dval bound \<noteq> 0" using p(2) by simp
  have rc: "rc_Price demo_config = 2" by (simp add: demo_config_def)
  have bnd: "marketOrderPriceBound ?o = Some bound" using b by (auto simp: marketOrderPriceBound_def split: if_splits)
  have "\<not> isl (fst (buildSignedMarketOrder demo_env ?o \<lparr>opt_TickSize = ''0.01'', opt_NegRisk = Some False\<rparr> demo_cached))"
    using ch m t by (simp add: buildSignedMarketOrder_def cfg U Let_def rc p(3) bindE_step(1) [of "marketAmounts demo_env ?o demo_config bound", OF c4] bnd pr bindE_lift_Inr)
      (rule demo_sign_ok [where m = m and t = t], simp_all add: o)
  then obtain so c5 where "buildSignedMarketOrder demo_env ?o \<lparr>opt_TickSize = ''0.01'', opt_NegRisk = Some False\<rparr> demo_cached = (Inr so, c5)"
    by (metis isr_witness)
  moreover have "prepareMarketOrder demo_env ord None demo_cached = (Inr (?o, ''0.01''), demo_cached)"
    by (simp add: prepareMarketOrder_def U v bindE_lift_Inr clamp o orderAssetID_def bindE_step(1) [of "resolveTickSize demo_env ''111'' None", OF demo_cached_resolve(1)]
        b lim nz Let_def)
  ultimately show ?thesis
    by (simp add: CreateMarketOrder_def bindE_step(1) [of "prepareMarketOrder demo_env ord None"] o orderAssetID_def b
        Let_def buildMarketOrder_def bindE_step(1) [of "resolveNegRisk demo_env ''111'' None", OF demo_cached_resolve(2)])
qed

lemma demo_protected_buy:
  "\<not> isl (fst (CreateMarketOrder demo_env (demo_market_order SideBuy (Dec 500000000000000000000)
     (Some (Dec 400000000000000000000)) (Some (Dec 5600000000000000000)) None) None demo_cached))"
proof (rule demo_market_created)
  let ?o = "demo_market_order SideBuy (Dec 500000000000000000000)
     (Some (Dec 400000000000000000000)) (Some (Dec 5600000000000000000)) None"
  show "validateMarketOrderArgs dec19_ops ?o = Inr ()"
    "validateLimitPrice dec19_ops (Dec 5600000000000000000) ''0.01'' = Inr ()"
    "\<not> u_is_zero dec19_ops (Dec 5600000000000000000)"
    "roundDown dec19_ops (Dec 5600000000000000000) 2 = Dec 5600000000000000000"
    "case marketAmounts demo_env (?o\<lparr>mo_OrderType := OrderTypeFOK, mo_Price := Dec 5600000000000000000\<rparr>) demo_config
        (Dec 5600000000000000000) demo_cached of (r, c) \<Rightarrow>
      r = Inr (Dec 394555130000000000000, Dec 704562000000000000000) \<and>
      chainID c = 137 \<and> cachedVersion c = 0 \<and> signatureType c = 0"
    "decimalInteger dec19_ops (toTokenDecimals dec19_ops (Dec 394555130000000000000)) = Some 39455513"
    "decimalInteger dec19_ops (toTokenDecimals dec19_ops (Dec 704562000000000000000)) = Some 70456200"
    by code_simp+
  have "toTokenDecimals dec19_ops (Dec 394555130000000000000) = Dec 394555130000000000000000000"
    "toTokenDecimals dec19_ops (Dec 704562000000000000000) = Dec 704562000000000000000000000" by code_simp+
  then show "validateProtectedMarketAmounts dec19_ops (toTokenDecimals dec19_ops (Dec 394555130000000000000))
       (toTokenDecimals dec19_ops (Dec 704562000000000000000)) (mo_Side ?o) (Dec 5600000000000000000) = Inr ()"
    by (simp add: validateProtectedMarketAmounts_def Let_def dval_def dscale_def demo_market_order_def)
qed (simp_all add: demo_market_order_def marketOrderPriceBound_def)

lemma demo_protected_sell:
  "\<not> isl (fst (CreateMarketOrder demo_env (demo_market_order SideSell (Dec 1000000000000000000000)
     None None (Some (Dec 4500000000000000000))) None demo_cached))"
proof (rule demo_market_created)
  let ?o = "demo_market_order SideSell (Dec 1000000000000000000000) None None (Some (Dec 4500000000000000000))"
  show "validateMarketOrderArgs dec19_ops ?o = Inr ()"
    "validateLimitPrice dec19_ops (Dec 4500000000000000000) ''0.01'' = Inr ()"
    "\<not> u_is_zero dec19_ops (Dec 4500000000000000000)"
    "roundDown dec19_ops (Dec 4500000000000000000) 2 = Dec 4500000000000000000"
    "case marketAmounts demo_env (?o\<lparr>mo_OrderType := OrderTypeFOK, mo_Price := Dec 4500000000000000000\<rparr>) demo_config
        (Dec 4500000000000000000) demo_cached of (r, c) \<Rightarrow>
      r = Inr (Dec 1000000000000000000000, Dec 450000000000000000000) \<and>
      chainID c = 137 \<and> cachedVersion c = 0 \<and> signatureType c = 0"
    "decimalInteger dec19_ops (toTokenDecimals dec19_ops (Dec 1000000000000000000000)) = Some 100000000"
    "decimalInteger dec19_ops (toTokenDecimals dec19_ops (Dec 450000000000000000000)) = Some 45000000"
    by code_simp+
  have "toTokenDecimals dec19_ops (Dec 1000000000000000000000) = Dec 1000000000000000000000000000"
    "toTokenDecimals dec19_ops (Dec 450000000000000000000) = Dec 450000000000000000000000000" by code_simp+
  then show "validateProtectedMarketAmounts dec19_ops (toTokenDecimals dec19_ops (Dec 1000000000000000000000))
       (toTokenDecimals dec19_ops (Dec 450000000000000000000)) (mo_Side ?o) (Dec 4500000000000000000) = Inr ()"
    by (simp add: validateProtectedMarketAmounts_def Let_def dval_def dscale_def demo_market_order_def)
qed (simp_all add: demo_market_order_def marketOrderPriceBound_def)

theorem protected_buy_witness:
  "\<exists>so c' maker taker. CreateMarketOrder demo_env (demo_market_order SideBuy (Dec 500000000000000000000)
       (Some (Dec 400000000000000000000)) (Some (Dec 5600000000000000000)) None) None demo_cached = (Inr so, c') \<and>
     big_int_set_string (o_MakerAmount (so_Order so)) 10 = Some maker \<and>
     big_int_set_string (o_TakerAmount (so_Order so)) 10 = Some taker \<and>
     dval (Dec 5600000000000000000) \<le> of_int maker / of_int taker \<and> of_int maker / of_int taker < dval (Dec 5600000000000000000) + 1 / 10000"
proof -
  let ?o = "demo_market_order SideBuy (Dec 500000000000000000000)
       (Some (Dec 400000000000000000000)) (Some (Dec 5600000000000000000)) None"
  note ok = isr_witness [OF demo_protected_buy]
  have o: "mo_Side ?o = SideBuy" "mo_MaxPrice ?o = Some (Dec 5600000000000000000)" "dval (mo_Price ?o) = 0"
    by (simp_all add: demo_market_order_def dval_def)
  from protected_buy [OF demo_U ok o(1,2)] o(3) ok show ?thesis by auto
qed

theorem protected_sell_witness:
  "\<exists>so c' maker taker. CreateMarketOrder demo_env (demo_market_order SideSell (Dec 1000000000000000000000)
       None None (Some (Dec 4500000000000000000))) None demo_cached = (Inr so, c') \<and>
     big_int_set_string (o_MakerAmount (so_Order so)) 10 = Some maker \<and>
     big_int_set_string (o_TakerAmount (so_Order so)) 10 = Some taker \<and>
     dval (Dec 4500000000000000000) \<le> of_int taker / of_int maker"
proof -
  let ?o = "demo_market_order SideSell (Dec 1000000000000000000000) None None (Some (Dec 4500000000000000000))"
  note ok = isr_witness [OF demo_protected_sell]
  have "mo_Side ?o = SideSell" "mo_MinPrice ?o = Some (Dec 4500000000000000000)" by (simp_all add: demo_market_order_def)
  from protected_sell [OF demo_U ok this] ok show ?thesis by blast
qed

theorem market_order_max_spend_witness:
  "\<exists>so c' ord' t c0 maker. CreateMarketOrder demo_env (demo_market_order SideBuy (Dec 500000000000000000000)
       (Some (Dec 400000000000000000000)) (Some (Dec 5600000000000000000)) None) None demo_cached = (Inr so, c') \<and>
     prepareMarketOrder demo_env (demo_market_order SideBuy (Dec 500000000000000000000)
       (Some (Dec 400000000000000000000)) (Some (Dec 5600000000000000000)) None) None demo_cached = (Inr (ord', t), c0) \<and> dval (mo_Price ord') \<le> 1 \<and>
     big_int_set_string (o_MakerAmount (so_Order so)) 10 = Some maker \<and> 0 < maker"
proof -
  let ?o = "demo_market_order SideBuy (Dec 500000000000000000000)
       (Some (Dec 400000000000000000000)) (Some (Dec 5600000000000000000)) None"
  note ok = isr_witness [OF demo_protected_buy]
  have "mo_Side ?o = SideBuy" "mo_MaxSpend ?o = Some (Dec 400000000000000000000)" by (simp_all add: demo_market_order_def)
  from market_order_max_spend [OF demo_U ok this] ok show ?thesis by blast
qed

end
