(* ===== verification/Settlement.thy ===== *)
theory Settlement
  imports Fixtures
begin

text \<open>
  \<open>clob/order_resolution.go\<close>: waiting for the settlement of the fills of a posted order.  The trades endpoint is
  \<open>e_getTrades\<close>.  A poll context is its deadline: it has ended when the caller's context has or when the clock has reached the
  deadline.  The polling loops take fuel, one unit per round; \<open>None\<close> means that it ran out.  The \<open>select\<close> of a
  round takes the timer while the context is alive; when the context has ended, \<open>e_timer\<close> says which of the two ready
  branches runs.
\<close>

section \<open>Trades\<close>

definition normalizedTradeStatus :: "string \<Rightarrow> string" where
  "normalizedTradeStatus status = trim_prefix (to_upper (trim_space status)) ''TRADE_STATUS_''"

definition tradeIsFailed :: "Trade \<Rightarrow> bool" where
  "tradeIsFailed trade \<longleftrightarrow> normalizedTradeStatus (tr_Status trade) = ''FAILED''"

definition tradeIsResolved :: "Trade \<Rightarrow> bool" where
  "tradeIsResolved trade \<longleftrightarrow> normalizedTradeStatus (tr_Status trade) \<in> {''CONFIRMED'', ''FAILED''}"

definition shouldResolvePostOrder :: "PostOrderRequest \<Rightarrow> PostOrderResponse \<Rightarrow> bool" where
  "shouldResolvePostOrder request response \<longleftrightarrow>
     \<not> pr_DeferExec request \<and> ps_TransactionsHashes response = [] \<and> ps_TradeIDs response \<noteq> []"

text \<open>\<open>strings.Join(ids, ", ")\<close>\<close>

definition join_comma :: "string list \<Rightarrow> string" where
  "join_comma ids = concat (case ids of [] \<Rightarrow> [] | i # is \<Rightarrow> i # map (\<lambda>j. '', '' @ j) is)"

text \<open>The loop of \<open>uniqueNonEmptyStrings\<close> with the values seen so far.\<close>

fun uniqueNonEmpty :: "string list \<Rightarrow> string list \<Rightarrow> string list" where
  "uniqueNonEmpty seen [] = []"
| "uniqueNonEmpty seen (v # vs) =
     (let value = trim_space v
      in if value = [] \<or> value \<in> set seen then uniqueNonEmpty seen vs
         else value # uniqueNonEmpty (value # seen) vs)"

definition uniqueNonEmptyStrings :: "string list \<Rightarrow> string list" where
  "uniqueNonEmptyStrings vs = uniqueNonEmpty [] vs"

text \<open>\<open>byID\<close>: later trades replace earlier ones with the same ID.\<close>

definition tradesByID :: "Trade list \<Rightarrow> string \<rightharpoonup> Trade" where
  "tradesByID trades = fold (\<lambda>t m. m(tr_ID t \<mapsto> t)) trades Map.empty"

definition transactionHashesForTradeIDs :: "string list \<Rightarrow> Trade list \<Rightarrow> string list" where
  "transactionHashesForTradeIDs tradeIDs trades =
     (let byID = tradesByID trades
      in List.map_filter (\<lambda>tradeID.
           case byID tradeID of
             None \<Rightarrow> None
           | Some trade \<Rightarrow>
               if tradeIsFailed trade then None
               else let hash = trim_space (tr_TransactionHash trade) in if hash \<noteq> [] then Some hash else None) tradeIDs)"

fun settledHashes :: "(string \<rightharpoonup> Trade) \<Rightarrow> string list \<Rightarrow> string list \<Rightarrow> string list" where
  "settledHashes byID seen [] = []"
| "settledHashes byID seen (tradeID # ids) =
     (case byID tradeID of
        None \<Rightarrow> settledHashes byID seen ids
      | Some trade \<Rightarrow>
          let hash = trim_space (tr_TransactionHash trade)
          in if tradeIsFailed trade \<or> hash = [] \<or> hash \<in> set seen then settledHashes byID seen ids
             else hash # settledHashes byID (hash # seen) ids)"

definition transactionHashesForSettledTrades :: "string list \<Rightarrow> Trade list \<Rightarrow> string list" where
  "transactionHashesForSettledTrades tradeIDs trades = settledHashes (tradesByID trades) [] tradeIDs"

section \<open>Options and errors\<close>

definition ErrInvalidSettlementOptions :: go_error where
  "ErrInvalidSettlementOptions = Sentinel ''invalid settlement options''"
definition ErrSettlementTimeout :: go_error where
  "ErrSettlementTimeout = Sentinel ''order fill settlement timed out''"
definition ErrSettlementFailed :: go_error where
  "ErrSettlementFailed = Sentinel ''every order fill failed execution''"

record OrderSettlementOptions =
  st_Timeout :: int
  st_PollInterval :: int

definition postOrderTradeResolutionTimeout :: int where
  "postOrderTradeResolutionTimeout = 30000000000"

definition postOrderTradeResolutionInterval :: int where
  "postOrderTradeResolutionInterval = 250000000"

definition normalized :: "OrderSettlementOptions \<Rightarrow> (int \<times> int) result" where
  "normalized o' =
     (if st_Timeout o' < 0 \<or> st_PollInterval o' < 0
      then Inl (Wrap ''timeout and poll interval must not be negative'' ErrInvalidSettlementOptions)
      else Inr (if st_Timeout o' = 0 then postOrderTradeResolutionTimeout else st_Timeout o',
                if st_PollInterval o' = 0 then postOrderTradeResolutionInterval else st_PollInterval o'))"

section \<open>Polling\<close>

text \<open>\<open>resolved\<close> maps each resolved ID to its trade; it is kept as a list of pairs, one per ID.\<close>

type_synonym resolved = "(string \<times> Trade) list"

definition unresolvedTradeIDs :: "string list \<Rightarrow> resolved \<Rightarrow> string list" where
  "unresolvedTradeIDs tradeIDs resolved = filter (\<lambda>t. map_of resolved t = None) tradeIDs"

text \<open>\<open>ctx.Err()\<close> of the caller and \<open>pollCtx.Err()\<close>.\<close>

definition ctxErr :: "'d env \<Rightarrow> 'd client \<Rightarrow> go_error option" where
  "ctxErr E c = e_ctxErr E (ticks c)"

definition pollErr :: "'d env \<Rightarrow> int \<Rightarrow> 'd client \<Rightarrow> go_error option" where
  "pollErr E deadline c =
     (case ctxErr E c of Some e \<Rightarrow> Some e
      | None \<Rightarrow> if deadline \<le> e_clock E (ticks c) then Some CtxDeadlineExceeded else None)"

definition timerFires :: "'d env \<Rightarrow> int \<Rightarrow> int \<Rightarrow> 'd client \<Rightarrow> bool" where
  "timerFires E deadline interval c \<longleftrightarrow> pollErr E deadline c = None \<or> e_timer E (ticks c) interval"

definition addResolved :: "string \<Rightarrow> Trade list \<Rightarrow> resolved \<Rightarrow> resolved" where
  "addResolved tradeID page resolved =
     (case find (\<lambda>t. tr_ID t = tradeID \<and> tradeIsResolved t) page of
        Some t \<Rightarrow> (tradeID, t) # resolved | None \<Rightarrow> resolved)"

text \<open>One round over the IDs that are not resolved, strict and best-effort.\<close>

definition timeoutError :: "string list \<Rightarrow> resolved \<Rightarrow> go_error" where
  "timeoutError tradeIDs resolved = Wrap (join_comma (unresolvedTradeIDs tradeIDs resolved)) ErrSettlementTimeout"

fun strictRound ::
  "'d env \<Rightarrow> int \<Rightarrow> string list \<Rightarrow> string list \<Rightarrow> resolved \<Rightarrow> ('d client, resolved) act" where
  "strictRound E deadline tradeIDs [] resolved = ret resolved"
| "strictRound E deadline tradeIDs (tradeID # ids) resolved = (\<lambda>c.
     if map_of resolved tradeID \<noteq> None then strictRound E deadline tradeIDs ids resolved c
     else case e_getTrades E (ticks c) tradeID of
            Inl err \<Rightarrow>
              (case ctxErr E (tick c) of
                 Some e \<Rightarrow> (Inl e, tick c)
               | None \<Rightarrow>
                   (case pollErr E deadline (tick c) of
                      Some _ \<Rightarrow> (Inl (timeoutError tradeIDs resolved), tick c)
                    | None \<Rightarrow> (Inl err, tick c)))
          | Inr page \<Rightarrow> strictRound E deadline tradeIDs ids (addResolved tradeID page resolved) (tick c))"

fun effortRound :: "'d env \<Rightarrow> string list \<Rightarrow> resolved \<Rightarrow> 'd client \<Rightarrow> resolved \<times> 'd client" where
  "effortRound E [] resolved c = (resolved, c)"
| "effortRound E (tradeID # ids) resolved c =
     (if map_of resolved tradeID \<noteq> None then effortRound E ids resolved c
      else case e_getTrades E (ticks c) tradeID of
             Inl _ \<Rightarrow> effortRound E ids resolved (tick c)
           | Inr page \<Rightarrow> effortRound E ids (addResolved tradeID page resolved) (tick c))"

fun strictLoop ::
  "nat \<Rightarrow> 'd env \<Rightarrow> int \<Rightarrow> int \<Rightarrow> string list \<Rightarrow> resolved \<Rightarrow> 'd client \<Rightarrow>
   (resolved result \<times> 'd client) option" where
  "strictLoop fuel E deadline interval tradeIDs resolved c =
     (if \<not> length resolved < length tradeIDs then Some (Inr resolved, c)
      else case fuel of 0 \<Rightarrow> None
      | Suc fuel' \<Rightarrow>
        (case strictRound E deadline tradeIDs tradeIDs resolved c of
           (Inl e, c') \<Rightarrow> Some (Inl e, c')
         | (Inr resolved', c') \<Rightarrow>
             if length resolved' = length tradeIDs then Some (Inr resolved', c')
             else if pollErr E deadline c' \<noteq> None
               then Some (Inl (timeoutError tradeIDs resolved'), tick c')
             else if timerFires E deadline interval (tick c')
               then strictLoop fuel' E deadline interval tradeIDs resolved' (tick (tick c'))
             else (case ctxErr E (tick c') of
                     Some e \<Rightarrow> Some (Inl e, tick (tick c'))
                   | None \<Rightarrow> Some (Inl (timeoutError tradeIDs resolved'), tick (tick c')))))"

fun effortLoop ::
  "nat \<Rightarrow> 'd env \<Rightarrow> int \<Rightarrow> string list \<Rightarrow> resolved \<Rightarrow> 'd client \<Rightarrow> (resolved \<times> 'd client) option" where
  "effortLoop fuel E deadline tradeIDs resolved c =
     (if \<not> length resolved < length tradeIDs then Some (resolved, c)
      else case fuel of 0 \<Rightarrow> None
      | Suc fuel' \<Rightarrow>
        (case effortRound E tradeIDs resolved c of
           (resolved', c') \<Rightarrow>
             if length resolved' = length tradeIDs \<or> pollErr E deadline c' \<noteq> None then Some (resolved', tick c')
             else effortLoop fuel' E deadline tradeIDs resolved' (tick (tick c'))))"

declare strictLoop.simps [simp del] effortLoop.simps [simp del]

text \<open>\<open>resolved[tradeID]\<close> of a missing ID is the zero trade.\<close>

definition zeroTrade :: Trade where
  "zeroTrade = \<lparr>tr_ID = [], tr_TakerOrderID = [], tr_Market = [], tr_AssetID = [], tr_Side = [], tr_Size = [],
     tr_FeeRateBps = [], tr_Price = [], tr_Status = [], tr_MatchTime = [], tr_MatchTimeNano = [], tr_LastUpdate = [],
     tr_Outcome = [], tr_BucketIndex = 0, tr_Owner = [], tr_MakerAddress = [], tr_MakerOrders = [], tr_TransactionHash = [],
     tr_TraderSide = [], tr_ErrorMsg = [], tr_RebateEstimated = []\<rparr>"

definition waitForResolvedTradesStrict ::
  "nat \<Rightarrow> 'd env \<Rightarrow> string list \<Rightarrow> int \<Rightarrow> int \<Rightarrow> 'd client \<Rightarrow> (Trade list result \<times> 'd client) option" where
  "waitForResolvedTradesStrict fuel E tradeIDs timeout interval c =
     map_option (\<lambda>(r, c'). (rbind r (\<lambda>resolved.
         Inr (map (\<lambda>t. case map_of resolved t of Some x \<Rightarrow> x | None \<Rightarrow> zeroTrade) tradeIDs)), c'))
       (strictLoop fuel E (e_clock E (ticks c) + timeout) interval tradeIDs [] (tick c))"

definition waitForResolvedTrades ::
  "nat \<Rightarrow> 'd env \<Rightarrow> string list \<Rightarrow> 'd client \<Rightarrow> (Trade list \<times> 'd client) option" where
  "waitForResolvedTrades fuel E tradeIDs c =
     (let orderedIDs = uniqueNonEmptyStrings tradeIDs
      in if orderedIDs = [] then Some ([], c)
         else map_option (\<lambda>(resolved, c'). (List.map_filter (map_of resolved) orderedIDs, c'))
                (effortLoop fuel E (e_clock E (ticks c) + postOrderTradeResolutionTimeout) orderedIDs [] (tick c)))"

definition WaitForOrderFillSettlement ::
  "nat \<Rightarrow> 'd env \<Rightarrow> PostOrderResponse \<Rightarrow> OrderSettlementOptions \<Rightarrow> 'd client \<Rightarrow>
   (string list result \<times> 'd client) option" where
  "WaitForOrderFillSettlement fuel E ord opts c =
     (let tradeIDs = uniqueNonEmptyStrings (ps_TradeIDs ord)
      in if tradeIDs = [] then Some (Inr (ps_TransactionsHashes ord), c)
         else case normalized opts of
                Inl e \<Rightarrow> Some (Inl e, c)
              | Inr (timeout, interval) \<Rightarrow>
                  map_option (\<lambda>(r, c'). (rbind r (\<lambda>settled.
                      if list_all tradeIsFailed settled then Inl (Wrap (join_comma tradeIDs) ErrSettlementFailed)
                      else Inr (transactionHashesForSettledTrades tradeIDs settled)), c'))
                    (waitForResolvedTradesStrict fuel E tradeIDs timeout interval c))"

section \<open>What the loops maintain\<close>

lemma uniqueNonEmpty_facts:
  "distinct (uniqueNonEmpty seen vs)"
  "set (uniqueNonEmpty seen vs) = {w. \<exists>v \<in> set vs. w = trim_space v \<and> w \<noteq> [] \<and> w \<notin> set seen}"
proof -
  have "distinct (uniqueNonEmpty seen vs) \<and>
      set (uniqueNonEmpty seen vs) = {w. \<exists>v \<in> set vs. w = trim_space v \<and> w \<noteq> [] \<and> w \<notin> set seen}"
    by (induction seen vs rule: uniqueNonEmpty.induct) (auto simp: Let_def)
  then show "distinct (uniqueNonEmpty seen vs)"
    "set (uniqueNonEmpty seen vs) = {w. \<exists>v \<in> set vs. w = trim_space v \<and> w \<noteq> [] \<and> w \<notin> set seen}" by auto
qed

lemma distinct_uniqueNonEmptyStrings [simp]: "distinct (uniqueNonEmptyStrings vs)"
  by (simp add: uniqueNonEmptyStrings_def uniqueNonEmpty_facts)

lemma settledHashes_facts:
  "distinct (settledHashes byID seen ids) \<and>
   set (settledHashes byID seen ids) =
     {h. \<exists>i \<in> set ids. \<exists>t. byID i = Some t \<and> \<not> tradeIsFailed t \<and> h = trim_space (tr_TransactionHash t) \<and> h \<noteq> [] \<and>
        h \<notin> set seen}"
  by (induction byID seen ids rule: settledHashes.induct) (auto simp: Let_def split: option.splits)

lemma fold_byID:
  "fold (\<lambda>t m. m(tr_ID t \<mapsto> t)) trades m = m ++ map_of (rev (map (\<lambda>t. (tr_ID t, t)) trades))"
  by (induction trades arbitrary: m) (simp_all add: map_add_assoc)

lemma tradesByID_distinct:
  assumes "distinct (map tr_ID trades)"
  shows "tradesByID trades i = Some t \<longleftrightarrow> t \<in> set trades \<and> tr_ID t = i"
proof -
  have "map fst (rev (map (\<lambda>t. (tr_ID t, t)) trades)) = rev (map tr_ID trades)" by (simp add: rev_map comp_def)
  then have "distinct (map fst (rev (map (\<lambda>t. (tr_ID t, t)) trades)))" using assms by (simp only: distinct_rev)
  then have "map_of (rev (map (\<lambda>t. (tr_ID t, t)) trades)) i = Some t \<longleftrightarrow> (i, t) \<in> set (rev (map (\<lambda>t. (tr_ID t, t)) trades))"
    by (rule map_of_eq_Some_iff)
  then show ?thesis by (auto simp: tradesByID_def fold_byID)
qed

text \<open>A trade the endpoint returned for its ID, in a final state.\<close>

definition settledTrade :: "'d env \<Rightarrow> Trade \<Rightarrow> bool" where
  "settledTrade E t \<longleftrightarrow> tradeIsResolved t \<and> (\<exists>n page. e_getTrades E n (tr_ID t) = Inr page \<and> t \<in> set page)"

definition resolved_ok :: "'d env \<Rightarrow> string list \<Rightarrow> resolved \<Rightarrow> bool" where
  "resolved_ok E ids resolved \<longleftrightarrow> distinct (map fst resolved) \<and> fst ` set resolved \<subseteq> set ids \<and>
     (\<forall>(i, t) \<in> set resolved. tr_ID t = i \<and> settledTrade E t)"

lemma addResolved_ok:
  assumes "resolved_ok E ids resolved" "map_of resolved i = None" "i \<in> set ids" "e_getTrades E n i = Inr page"
  shows "resolved_ok E ids (addResolved i page resolved)"
proof (cases "find (\<lambda>t. tr_ID t = i \<and> tradeIsResolved t) page")
  case (Some t)
  then have "t \<in> set page" "tr_ID t = i" "tradeIsResolved t" by (auto simp: find_Some_iff)
  moreover have "i \<notin> fst ` set resolved" using assms(2) by (simp add: map_of_eq_None_iff)
  ultimately show ?thesis using assms Some by (auto simp: resolved_ok_def addResolved_def settledTrade_def)
qed (use assms in \<open>simp add: addResolved_def\<close>)

lemma strictRound_ok:
  assumes "strictRound E deadline all rest resolved c = (Inr resolved', c')" "resolved_ok E ids resolved" "set rest \<subseteq> set ids"
  shows "resolved_ok E ids resolved' \<and> ticks c \<le> ticks c'"
  using assms
proof (induction E deadline all rest resolved arbitrary: c rule: strictRound.induct)
  case (2 E deadline all i rest resolved)
  show ?case
  proof (cases "map_of resolved i")
    case None
    then obtain page where p: "e_getTrades E (ticks c) i = Inr page"
      "strictRound E deadline all rest (addResolved i page resolved) (tick c) = (Inr resolved', c')"
      using 2(3) by (auto split: sum.splits option.splits)
    have "resolved_ok E ids (addResolved i page resolved)" using 2(4,5) None p(1) by (intro addResolved_ok) auto
    with 2(2) [OF _ p(1) p(2) this] None 2(5) show ?thesis by simp
  next
    case (Some t)
    then show ?thesis using 2(1) [of c] 2(3-5) by simp
  qed
qed simp

lemma strictLoop_ok:
  assumes "strictLoop fuel E deadline interval ids resolved c = Some (Inr resolved', c')" "resolved_ok E ids resolved"
    and "length resolved \<le> length ids"
  shows "resolved_ok E ids resolved' \<and> length resolved' = length ids"
  using assms
proof (induction fuel arbitrary: resolved c)
  case 0
  then show ?case by (subst (asm) strictLoop.simps) (auto split: if_splits)
next
  case (Suc fuel)
  show ?case
  proof (cases "length resolved < length ids")
    case True
    obtain r c1 where r: "strictRound E deadline ids ids resolved c = (r, c1)" by fastforce
    obtain res where res: "r = Inr res" using Suc.prems(1) True r
      by (subst (asm) strictLoop.simps) (auto split: sum.splits)
    have ok: "resolved_ok E ids res" using strictRound_ok [OF r [unfolded res] Suc.prems(2)] by simp
    have "length res = card (fst ` set res)" using ok distinct_card [of "map fst res"] by (simp add: resolved_ok_def)
    also have "\<dots> \<le> card (set ids)" using ok by (intro card_mono) (auto simp: resolved_ok_def)
    also have "\<dots> \<le> length ids" by (rule card_length)
    finally have len: "length res \<le> length ids" .
    show ?thesis
      using Suc.prems(1) True r res ok len Suc.IH [OF _ ok len]
      by (subst (asm) strictLoop.simps) (auto split: if_splits option.splits)
  next
    case False
    then show ?thesis using Suc.prems by (subst (asm) strictLoop.simps) auto
  qed
qed

lemma resolved_all:
  assumes "resolved_ok E ids resolved" "length resolved = length ids" "distinct ids"
  defines "settled \<equiv> map (\<lambda>t. case map_of resolved t of Some x \<Rightarrow> x | None \<Rightarrow> zeroTrade) ids"
  shows "map tr_ID settled = ids" "\<forall>t \<in> set settled. settledTrade E t"
proof -
  have "card (fst ` set resolved) = card (set ids)"
    using assms(1-3) distinct_card [of "map fst resolved"] distinct_card [of ids] by (simp add: resolved_ok_def)
  then have s: "fst ` set resolved = set ids" using assms(1) by (intro card_subset_eq) (auto simp: resolved_ok_def)
  have X: "tr_ID (case map_of resolved i of Some x \<Rightarrow> x | None \<Rightarrow> zeroTrade) = i \<and>
      settledTrade E (case map_of resolved i of Some x \<Rightarrow> x | None \<Rightarrow> zeroTrade)" if i: "i \<in> set ids" for i
  proof -
    obtain t where t: "(i, t) \<in> set resolved" using i s by force
    have m: "map_of resolved i = Some t" using assms(1) t by (simp add: resolved_ok_def)
    have "tr_ID t = i \<and> settledTrade E t" using assms(1) t unfolding resolved_ok_def by blast
    then show ?thesis unfolding m option.case .
  qed
  show "map tr_ID settled = ids" unfolding settled_def map_map by (rule map_idI) (simp add: X)
  show "\<forall>t \<in> set settled. settledTrade E t" unfolding settled_def using X by simp
qed

section \<open>Why polling fails and why it ends\<close>

text \<open>The errors of the strict loop: the caller's context, a timeout that names unsettled trades, a failed request.\<close>

definition poll_failure :: "'d env \<Rightarrow> int \<Rightarrow> string list \<Rightarrow> go_error \<Rightarrow> bool" where
  "poll_failure E deadline ids e \<longleftrightarrow>
     (\<exists>n. e_ctxErr E n = Some e) \<or>
     (\<exists>resolved n. e = timeoutError ids resolved \<and> resolved_ok E ids resolved \<and> unresolvedTradeIDs ids resolved \<noteq> [] \<and>
        (e_ctxErr E n \<noteq> None \<or> deadline \<le> e_clock E n)) \<or>
     (\<exists>n. \<exists>i \<in> set ids. e_getTrades E n i = Inl e)"

lemma pollErr_cases:
  assumes "pollErr E deadline c = Some e"
  shows "\<exists>n. e_ctxErr E n \<noteq> None \<or> deadline \<le> e_clock E n"
  using assms by (auto simp: pollErr_def ctxErr_def split: option.splits if_splits)

lemma strictRound_fails:
  assumes "strictRound E deadline ids rest resolved c = (Inl e, c')" "resolved_ok E ids resolved" "set rest \<subseteq> set ids"
  shows "poll_failure E deadline ids e"
  using assms
proof (induction E deadline ids rest resolved arbitrary: c rule: strictRound.induct)
  case (2 E deadline ids i rest resolved)
  show ?case
  proof (cases "map_of resolved i")
    case None
    show ?thesis
    proof (cases "e_getTrades E (ticks c) i")
      case (Inl err)
      have "i \<in> set (unresolvedTradeIDs ids resolved)" using 2(5) None by (simp add: unresolvedTradeIDs_def)
      then have "unresolvedTradeIDs ids resolved \<noteq> []" by auto
      then show ?thesis using 2(3-5) None Inl pollErr_cases [of E deadline "tick c"]
        by (auto simp: poll_failure_def ctxErr_def split: option.splits)
    next
      case (Inr page)
      have "resolved_ok E ids (addResolved i page resolved)" using 2(4,5) None Inr by (intro addResolved_ok) auto
      with 2(2) [OF _ Inr _ this] None Inr 2(3,5) show ?thesis by simp
    qed
  next
    case (Some t)
    then show ?thesis using 2(1) [of c] 2(3-5) by simp
  qed
qed simp

lemma resolved_length:
  assumes "resolved_ok E ids resolved"
  shows "length resolved \<le> length ids"
proof -
  have "length resolved = card (fst ` set resolved)"
    using assms distinct_card [of "map fst resolved"] by (simp add: resolved_ok_def)
  also have "\<dots> \<le> card (set ids)" using assms by (intro card_mono) (auto simp: resolved_ok_def)
  also have "\<dots> \<le> length ids" by (rule card_length)
  finally show ?thesis .
qed

lemma unresolved_left:
  assumes "resolved_ok E ids resolved" "length resolved \<noteq> length ids" "distinct ids"
  shows "unresolvedTradeIDs ids resolved \<noteq> []"
proof
  assume "unresolvedTradeIDs ids resolved = []"
  then have "set ids \<subseteq> fst ` set resolved"
    by (auto simp: unresolvedTradeIDs_def filter_empty_conv map_of_eq_None_iff)
  then have "card (set ids) \<le> card (fst ` set resolved)" by (intro card_mono) auto
  also have "\<dots> \<le> length resolved" using card_length [of "map fst resolved"] by simp
  finally show False using assms resolved_length [OF assms(1)] by (simp add: distinct_card)
qed

lemma strictLoop_fails:
  assumes "strictLoop fuel E deadline interval ids resolved c = Some (Inl e, c')" "resolved_ok E ids resolved"
    and "distinct ids"
  shows "poll_failure E deadline ids e"
  using assms
proof (induction fuel arbitrary: resolved c)
  case 0
  then show ?case by (subst (asm) strictLoop.simps) (auto split: if_splits)
next
  case (Suc fuel)
  obtain r c1 where r: "strictRound E deadline ids ids resolved c = (r, c1)" by fastforce
  show ?case
  proof (cases r)
    case (Inl e1)
    then have "e = e1" using Suc.prems(1) r by (subst (asm) strictLoop.simps) (auto split: if_splits)
    then show ?thesis using strictRound_fails [OF r [unfolded Inl] Suc.prems(2)] by simp
  next
    case (Inr res)
    have ok: "resolved_ok E ids res" using strictRound_ok [OF r [unfolded Inr] Suc.prems(2)] by simp
    have left: "unresolvedTradeIDs ids res \<noteq> []" if "length res \<noteq> length ids"
      by (rule unresolved_left [OF ok that Suc.prems(3)])
    have timeout: "poll_failure E deadline ids (timeoutError ids res)"
      if "length res \<noteq> length ids" "pollErr E deadline c2 \<noteq> None" for c2
      using ok left [OF that(1)] that(2) pollErr_cases [of E deadline c2] unfolding poll_failure_def by blast
    have canceled: "poll_failure E deadline ids e2" if "ctxErr E c2 = Some e2" for e2 c2
      using that by (auto simp: poll_failure_def ctxErr_def)
    show ?thesis
      using Suc.prems(1) r Inr Suc.IH [OF _ ok Suc.prems(3)] timeout canceled
      by (subst (asm) strictLoop.simps) (auto simp: timerFires_def split: if_splits option.splits)
  qed
qed

text \<open>Once the clock stays past the deadline, the next round is the last.\<close>

lemma strictRound_ticks: "ticks c \<le> ticks (snd (strictRound E deadline ids rest resolved c))"
proof (induction rest arbitrary: resolved c)
  case (Cons i rest)
  have "Suc (ticks c) \<le> ticks (snd (strictRound E deadline ids rest resolved' (tick c)))" for resolved'
    using Cons [of "tick c" resolved'] by simp
  then show ?case using Cons by (auto split: sum.splits option.splits intro: Suc_leD)
qed simp

lemma effortRound_ticks: "ticks c \<le> ticks (snd (effortRound E ids resolved c))"
  by (induction E ids resolved c rule: effortRound.induct) (auto split: sum.splits dest: Suc_leD)

lemma late_pollErr:
  assumes "\<forall>n \<ge> N. deadline \<le> e_clock E n" "N \<le> ticks c"
  shows "pollErr E deadline c \<noteq> None"
  using assms by (auto simp: pollErr_def split: option.splits)

lemma strictLoop_ends:
  assumes "\<forall>n \<ge> N. deadline \<le> e_clock E n" "N \<le> ticks c + fuel"
  shows "strictLoop (Suc fuel) E deadline interval ids resolved c \<noteq> None"
  using assms(2)
proof (induction fuel arbitrary: resolved c)
  case 0
  obtain r c1 where r: "strictRound E deadline ids ids resolved c = (r, c1)" by fastforce
  have "pollErr E deadline c1 \<noteq> None"
    using 0 strictRound_ticks [of c E deadline ids ids resolved] r by (intro late_pollErr [OF assms(1)]) simp
  then show ?case using r by (subst strictLoop.simps) (auto split: sum.splits)
next
  case (Suc fuel)
  obtain r c1 where r: "strictRound E deadline ids ids resolved c = (r, c1)" by fastforce
  have "N \<le> ticks (tick (tick c1)) + fuel"
    using Suc.prems strictRound_ticks [of c E deadline ids ids resolved] r by simp
  from Suc.IH [OF this] r show ?case by (subst strictLoop.simps) (auto split: sum.splits option.splits)
qed

lemma effortLoop_ends:
  assumes "\<forall>n \<ge> N. deadline \<le> e_clock E n" "N \<le> ticks c + fuel"
  shows "effortLoop (Suc fuel) E deadline ids resolved c \<noteq> None"
  using assms(2)
proof (induction fuel arbitrary: resolved c)
  case 0
  obtain r c1 where r: "effortRound E ids resolved c = (r, c1)" by fastforce
  have "pollErr E deadline c1 \<noteq> None"
    using 0 effortRound_ticks [of c E ids resolved] r by (intro late_pollErr [OF assms(1)]) simp
  then show ?case using r by (subst effortLoop.simps) auto
next
  case (Suc fuel)
  obtain r c1 where r: "effortRound E ids resolved c = (r, c1)" by fastforce
  have "N \<le> ticks (tick (tick c1)) + fuel" using Suc.prems effortRound_ticks [of c E ids resolved] r by simp
  from Suc.IH [OF this] r show ?case by (subst effortLoop.simps) auto
qed

section \<open>Properties\<close>

text \<open>
  C4: for a response with at least one non-empty trade ID, \<open>WaitForOrderFillSettlement\<close> succeeds only with the fate of every fill known that has one: there is one trade for
  each distinct non-empty trade ID, in the order of the response, each returned by the service for that ID with status
  CONFIRMED or FAILED, not all of them failed.  The hashes are exactly the non-blank transaction hashes of the fills that did
  not fail, without repetition.
\<close>

theorem settlement_sound:
  assumes "WaitForOrderFillSettlement fuel E ord opts c = Some (Inr hashes, c')"
    and "uniqueNonEmptyStrings (ps_TradeIDs ord) \<noteq> []"
  shows "\<exists>settled. map tr_ID settled = uniqueNonEmptyStrings (ps_TradeIDs ord) \<and>
    (\<forall>t \<in> set settled. tradeIsResolved t \<and> (\<exists>n page. e_getTrades E n (tr_ID t) = Inr page \<and> t \<in> set page)) \<and>
    (\<exists>t \<in> set settled. \<not> tradeIsFailed t) \<and> distinct hashes \<and>
    set hashes = {trim_space (tr_TransactionHash t) |t. t \<in> set settled \<and> \<not> tradeIsFailed t} - {[]}"
proof -
  define ids where "ids = uniqueNonEmptyStrings (ps_TradeIDs ord)"
  have ids: "distinct ids" by (simp add: ids_def)
  obtain timeout interval resolved where loop:
      "strictLoop fuel E (e_clock E (ticks c) + timeout) interval ids [] (tick c) = Some (Inr resolved, c')"
    and h: "\<not> list_all tradeIsFailed (map (\<lambda>t. case map_of resolved t of Some x \<Rightarrow> x | None \<Rightarrow> zeroTrade) ids)"
      "hashes = transactionHashesForSettledTrades ids
         (map (\<lambda>t. case map_of resolved t of Some x \<Rightarrow> x | None \<Rightarrow> zeroTrade) ids)"
    using assms unfolding WaitForOrderFillSettlement_def waitForResolvedTradesStrict_def ids_def [symmetric]
    by (auto simp: Let_def rbind_def split: sum.splits if_splits)
  define settled where "settled = map (\<lambda>t. case map_of resolved t of Some x \<Rightarrow> x | None \<Rightarrow> zeroTrade) ids"
  have "resolved_ok E ids resolved \<and> length resolved = length ids"
    using strictLoop_ok [OF loop] by (simp add: resolved_ok_def)
  then have s: "map tr_ID settled = ids" "\<forall>t \<in> set settled. settledTrade E t"
    using resolved_all [of E ids resolved] ids by (simp_all add: settled_def)
  have "set hashes = {h. \<exists>i \<in> set ids. \<exists>t. (t \<in> set settled \<and> tr_ID t = i) \<and> \<not> tradeIsFailed t \<and>
      h = trim_space (tr_TransactionHash t) \<and> h \<noteq> []}" "distinct hashes"
    unfolding h(2) settled_def [symmetric] transactionHashesForSettledTrades_def
    using s(1) ids by (simp_all add: settledHashes_facts tradesByID_distinct)
  moreover have "i \<in> set ids \<longleftrightarrow> i \<in> tr_ID ` set settled" for i using s(1) by (metis set_map)
  ultimately have "set hashes = {trim_space (tr_TransactionHash t) |t. t \<in> set settled \<and> \<not> tradeIsFailed t} - {[]}"
    "distinct hashes" by auto
  then show ?thesis using s h(1) unfolding ids_def [symmetric] settled_def [symmetric] settledTrade_def list_all_iff
    by blast
qed

text \<open>
  Every failure of \<open>WaitForOrderFillSettlement\<close> has one of five causes: negative options; the caller's context; a timeout
  (the poll context had ended) whose message lists the trades that are still open, at least one; an error of a trade request,
  which is returned as it is; or settlement of every fill as FAILED.
\<close>

theorem settlement_failures:
  assumes "WaitForOrderFillSettlement fuel E ord opts c = Some (Inl e, c')"
  defines "ids \<equiv> uniqueNonEmptyStrings (ps_TradeIDs ord)"
  shows "(\<exists>m. e = Wrap m ErrInvalidSettlementOptions \<and> (st_Timeout opts < 0 \<or> st_PollInterval opts < 0)) \<or>
    (\<exists>n. e_ctxErr E n = Some e) \<or>
    (\<exists>resolved n timeout interval. e = Wrap (join_comma (unresolvedTradeIDs ids resolved)) ErrSettlementTimeout \<and>
       unresolvedTradeIDs ids resolved \<noteq> [] \<and> normalized opts = Inr (timeout, interval) \<and>
       (e_ctxErr E n \<noteq> None \<or> e_clock E (ticks c) + timeout \<le> e_clock E n)) \<or>
    (\<exists>n. \<exists>i \<in> set ids. e_getTrades E n i = Inl e) \<or>
    (\<exists>settled. e = Wrap (join_comma ids) ErrSettlementFailed \<and> map tr_ID settled = ids \<and> ids \<noteq> [] \<and>
       (\<forall>t \<in> set settled. tradeIsFailed t \<and> (\<exists>n page. e_getTrades E n (tr_ID t) = Inr page \<and> t \<in> set page)))"
proof (cases "normalized opts")
  case (Inl e1)
  then have "e1 = e" using assms(1) by (auto simp: WaitForOrderFillSettlement_def Let_def split: if_splits)
  then show ?thesis using Inl by (auto simp: normalized_def split: if_splits)
next
  case (Inr ti)
  obtain timeout interval where ti: "ti = (timeout, interval)" by fastforce
  have d: "distinct ids" by (simp add: ids_def)
  obtain r where loop: "strictLoop fuel E (e_clock E (ticks c) + timeout) interval ids [] (tick c) = Some (r, c')"
    and ne: "ids \<noteq> []"
    and e: "rbind (rbind r (\<lambda>resolved.
         Inr (map (\<lambda>t. case map_of resolved t of Some x \<Rightarrow> x | None \<Rightarrow> zeroTrade) ids))) (\<lambda>settled.
                      if list_all tradeIsFailed settled then Inl (Wrap (join_comma ids) ErrSettlementFailed)
                      else Inr (transactionHashesForSettledTrades ids settled)) = Inl e"
    using assms(1) Inr ti unfolding WaitForOrderFillSettlement_def waitForResolvedTradesStrict_def ids_def [symmetric]
    by (auto simp: Let_def split: if_splits)
  show ?thesis
  proof (cases r)
    case (Inl e1)
    then have "e1 = e" using e by simp
    then have "poll_failure E (e_clock E (ticks c) + timeout) ids e"
      using strictLoop_fails [OF loop [unfolded Inl] _ d] by (simp add: resolved_ok_def)
    then show ?thesis using Inr ti unfolding poll_failure_def timeoutError_def by blast
  next
    case (Inr resolved)
    define settled where "settled = map (\<lambda>t. case map_of resolved t of Some x \<Rightarrow> x | None \<Rightarrow> zeroTrade) ids"
    have "resolved_ok E ids resolved \<and> length resolved = length ids"
      using strictLoop_ok [OF loop [unfolded Inr]] by (simp add: resolved_ok_def)
    then have s: "map tr_ID settled = ids" "\<forall>t \<in> set settled. settledTrade E t"
      using resolved_all [of E ids resolved] d by (simp_all add: settled_def)
    moreover have "list_all tradeIsFailed settled \<and> e = Wrap (join_comma ids) ErrSettlementFailed"
      using e Inr by (auto simp: settled_def split: if_splits)
    ultimately show ?thesis using ne unfolding settledTrade_def list_all_iff by blast
  qed
qed

text \<open>
  C14: waiting for settlement ends: when the clock passes the deadline from the \<open>N\<close>-th interaction on, \<open>N + 1\<close> rounds are
  enough, whatever the service answers and whichever ready branch the \<open>select\<close> takes.
\<close>

theorem settlement_terminates:
  assumes "normalized opts = Inr (timeout, interval)"
    and "\<forall>n \<ge> N. e_clock E (ticks c) + timeout \<le> e_clock E n"
  shows "\<exists>r c'. WaitForOrderFillSettlement (Suc N) E ord opts c = Some (r, c')"
proof -
  define ids where "ids = uniqueNonEmptyStrings (ps_TradeIDs ord)"
  have "strictLoop (Suc N) E (e_clock E (ticks c) + timeout) interval ids [] (tick c) \<noteq> None"
    using strictLoop_ends [OF assms(2)] by simp
  then show ?thesis
    using assms(1)
    by (auto simp: WaitForOrderFillSettlement_def waitForResolvedTradesStrict_def ids_def Let_def)
qed

section \<open>A response with two fills\<close>

text \<open>The first fill is confirmed and the second fails, from the fourth interaction on.\<close>

definition settle_order :: PostOrderResponse where
  "settle_order = demo_response\<lparr>ps_TradeIDs := [''t1'', '' t2'', ''t1'', '''']\<rparr>"

definition settle_opts :: OrderSettlementOptions where
  "settle_opts = \<lparr>st_Timeout = 3, st_PollInterval = 1\<rparr>"

definition settle_trade :: "string \<Rightarrow> Trade" where
  "settle_trade i = zeroTrade\<lparr>tr_ID := i, tr_Status := (if i = ''t1'' then ''TRADE_STATUS_CONFIRMED'' else ''failed''),
     tr_TransactionHash := '' 0xab ''\<rparr>"

definition settle_env :: "dec env" where
  "settle_env = demo_env\<lparr>e_getTrades := (\<lambda>n i. Inr (if n < 4 then [] else [settle_trade i]))\<rparr>"

definition stuck_env :: "dec env" where
  "stuck_env = demo_env\<lparr>e_getTrades := (\<lambda>n i. Inr (if i = ''t1'' then [settle_trade i] else []))\<rparr>"

lemma settle_run:
  "map_option fst (WaitForOrderFillSettlement 9 settle_env settle_order \<lparr>st_Timeout = 0, st_PollInterval = 0\<rparr> demo_client)
   = Some (Inr [''0xab''])"
  by code_simp

lemma stuck_run:
  "map_option fst (WaitForOrderFillSettlement 9 stuck_env settle_order settle_opts demo_client)
   = Some (Inl (Wrap ''t2'' ErrSettlementTimeout))"
  by code_simp

lemma settle_ids: "uniqueNonEmptyStrings (ps_TradeIDs settle_order) = [''t1'', ''t2'']"
  by code_simp

theorem settlement_sound_witness:
  "\<exists>c' settled. WaitForOrderFillSettlement 9 settle_env settle_order \<lparr>st_Timeout = 0, st_PollInterval = 0\<rparr> demo_client =
     Some (Inr [''0xab''], c') \<and> map tr_ID settled = [''t1'', ''t2''] \<and> (\<exists>t \<in> set settled. \<not> tradeIsFailed t)"
proof -
  obtain c' where r: "WaitForOrderFillSettlement 9 settle_env settle_order \<lparr>st_Timeout = 0, st_PollInterval = 0\<rparr> demo_client =
      Some (Inr [''0xab''], c')"
    using settle_run by fastforce
  have "uniqueNonEmptyStrings (ps_TradeIDs settle_order) \<noteq> []" by (simp add: settle_ids)
  from settlement_sound [OF r this, unfolded settle_ids] r show ?thesis by (elim exE conjE) (intro exI conjI)
qed

theorem settlement_failures_witness:
  "\<exists>c' n resolved. WaitForOrderFillSettlement 9 stuck_env settle_order settle_opts demo_client =
     Some (Inl (Wrap ''t2'' ErrSettlementTimeout), c') \<and>
     ''t2'' = join_comma (unresolvedTradeIDs [''t1'', ''t2''] resolved) \<and> demo_time + 3 \<le> e_clock stuck_env n"
proof -
  obtain c' where r: "WaitForOrderFillSettlement 9 stuck_env settle_order settle_opts demo_client =
      Some (Inl (Wrap ''t2'' ErrSettlementTimeout), c')"
    using stuck_run by fastforce
  have n: "normalized settle_opts = Inr (3, 1)" by code_simp
  have "\<not> (\<exists>n. e_ctxErr stuck_env n \<noteq> None)" "\<forall>n i e. e_getTrades stuck_env n i \<noteq> Inl e"
    "e_clock stuck_env (ticks demo_client) = demo_time"
    by (simp_all add: stuck_env_def demo_env_def demo_client_def newClientCacheState_def clientCacheState.defs)
  then show ?thesis
    using settlement_failures [OF r] r n unfolding settle_ids
    by (auto simp: ErrSettlementTimeout_def ErrSettlementFailed_def ErrInvalidSettlementOptions_def)
qed

theorem settlement_terminates_witness:
  "\<exists>r c'. WaitForOrderFillSettlement (Suc 3) stuck_env settle_order settle_opts demo_client = Some (r, c')"
proof (rule settlement_terminates)
  show "normalized settle_opts = Inr (3, 1)" by code_simp
  show "\<forall>n \<ge> 3. e_clock stuck_env (ticks demo_client) + 3 \<le> e_clock stuck_env n"
    by (simp add: stuck_env_def demo_env_def demo_client_def newClientCacheState_def clientCacheState.defs)
qed

end
