(* ===== verification/OrderPost.thy ===== *)
theory OrderPost
  imports MarketOrder Settlement
begin

text \<open>
  \<open>clob/order_post.go\<close>, \<open>PostOrder\<close> and \<open>PostOrders\<close> of \<open>clob/orders.go\<close> and \<open>isOrderVersionMismatch\<close> of
  \<open>clob/markets.go\<close>: wrapping a signed order, posting it, waiting for its fills, and the single retry after a change of
  the protocol version.  The operations that wait take the fuel of the waiting loop; \<open>None\<close> means that it ran out.
  A Go function that returns a response beside an error is modelled by the error alone.
\<close>

section \<open>Version mismatch\<close>

text \<open>\<open>errors.As(err, &apiErr)\<close>: the message of the first API error in the chain.\<close>

fun api_message :: "go_error \<Rightarrow> string option" where
  "api_message (ApiError _ _ m) = Some m"
| "api_message (Wrap _ e) = api_message e"
| "api_message _ = None"

definition strings_contains :: "string \<Rightarrow> string \<Rightarrow> bool" where
  "strings_contains s sub = list_ex (\<lambda>i. take (length sub) (drop i s) = sub) [0..<Suc (length s)]"

definition orderVersionMismatchError :: string where
  "orderVersionMismatchError = ''order_version_mismatch''"

definition isOrderVersionMismatch :: "go_error \<Rightarrow> bool" where
  "isOrderVersionMismatch err =
     (case api_message err of None \<Rightarrow> False | Some m \<Rightarrow> strings_contains m orderVersionMismatchError)"

definition orderBuildServerVersion :: "'d env \<Rightarrow> string \<Rightarrow> string \<Rightarrow> 'd client \<Rightarrow> 32 word \<times> 'd client" where
  "orderBuildServerVersion E tokenID positionID c =
     (if positionID \<noteq> [] then (0, c)
      else if tokenID = [] then (0, c)
      else case resolveServerVersion E False c of
             (Inl _, c') \<Rightarrow> (0, c')
           | (Inr version, c') \<Rightarrow> (version, c'))"

section \<open>Posting\<close>

definition BuildPostOrderRequest ::
  "'d client \<Rightarrow> SignedOrder \<Rightarrow> OrderType \<Rightarrow> bool \<Rightarrow> bool \<Rightarrow> PostOrderRequest result" where
  "BuildPostOrderRequest c ord orderType postOnly deferExec =
     (case credentialsKey c of
        None \<Rightarrow> Inl (Msg ''build post order request requires API credentials'')
      | Some key \<Rightarrow>
          let orderType = (if orderType = [] then OrderTypeGTC else orderType)
          in if so_Expiration ord \<noteq> ''0'' \<and> orderType \<noteq> OrderTypeGTD
             then Inl (Msg ''only GTD orders may have a non-zero expiration'')
             else if postOnly \<and> orderType \<noteq> OrderTypeGTC \<and> orderType \<noteq> OrderTypeGTD
             then Inl (Msg ''postOnly is only supported for GTC and GTD orders'')
             else Inr \<lparr>pr_Order = ord, pr_Owner = key, pr_OrderType = orderType, pr_PostOnly = postOnly,
                       pr_DeferExec = deferExec\<rparr>)"

text \<open>Operations that may run out of fuel.\<close>

type_synonym ('s, 'a) fact = "'s \<Rightarrow> ('a result \<times> 's) option"

definition fbind :: "('s, 'a) fact \<Rightarrow> ('a \<Rightarrow> ('s, 'b) fact) \<Rightarrow> ('s, 'b) fact" where
  "fbind m f = (\<lambda>s. case m s of
       None \<Rightarrow> None
     | Some (Inl e, s') \<Rightarrow> Some (Inl e, s')
     | Some (Inr x, s') \<Rightarrow> f x s')"

definition noFuel :: "('s, 'a) act \<Rightarrow> ('s, 'a) fact" where
  "noFuel a = (\<lambda>s. Some (a s))"

text \<open>\<open>if len(hashes) > 0 { out.TransactionsHashes = hashes }\<close>\<close>

definition attachHashes :: "Trade list \<Rightarrow> PostOrderResponse \<Rightarrow> PostOrderResponse" where
  "attachHashes trades out =
     (let hashes = transactionHashesForTradeIDs (ps_TradeIDs out) trades
      in if hashes \<noteq> [] then out\<lparr>ps_TransactionsHashes := hashes\<rparr> else out)"

definition PostOrder :: "nat \<Rightarrow> 'd env \<Rightarrow> PostOrderRequest \<Rightarrow> ('d client, PostOrderResponse) fact" where
  "PostOrder fuel E request = (\<lambda>c.
     case e_postOrder E (ticks c) request of
       Inl err \<Rightarrow> Some (Inl err, if isOrderVersionMismatch err then invalidateServerVersion (tick c) else tick c)
     | Inr out \<Rightarrow>
         if shouldResolvePostOrder request out
         then map_option (\<lambda>(trades, c'). (Inr (attachHashes trades out), c'))
                (waitForResolvedTrades fuel E (ps_TradeIDs out) (tick c))
         else Some (Inr out, tick c))"

definition PostOrdersBatchLimit :: nat where
  "PostOrdersBatchLimit = 15"

text \<open>The index of every response that waits for its fills; a response without a request has the zero request.\<close>

definition pendingIndices :: "PostOrderRequest list \<Rightarrow> PostOrderResponse list \<Rightarrow> nat list" where
  "pendingIndices requests out =
     filter (\<lambda>i. (if i < length requests then shouldResolvePostOrder (requests ! i) (out ! i)
                  else ps_TransactionsHashes (out ! i) = [] \<and> ps_TradeIDs (out ! i) \<noteq> [])) [0..<length out]"

definition PostOrders ::
  "nat \<Rightarrow> 'd env \<Rightarrow> PostOrderRequest list \<Rightarrow> ('d client, PostOrderResponse list) fact" where
  "PostOrders fuel E requests = (\<lambda>c.
     if length requests > PostOrdersBatchLimit then Some (Inl (Msg ''batch size exceeds limit''), c)
     else case e_postOrders E (ticks c) requests of
            Inl err \<Rightarrow> Some (Inl err, if isOrderVersionMismatch err then invalidateServerVersion (tick c) else tick c)
          | Inr out \<Rightarrow>
              let pending = pendingIndices requests out;
                  tradeIDs = concat (map (\<lambda>i. ps_TradeIDs (out ! i)) pending)
              in if tradeIDs = [] then Some (Inr out, tick c)
                 else map_option (\<lambda>(resolved, c').
                        (Inr (fold (\<lambda>i out. out[i := attachHashes resolved (out ! i)]) pending out), c'))
                        (waitForResolvedTrades fuel E tradeIDs (tick c)))"

section \<open>Building and posting\<close>

definition postSigned ::
  "nat \<Rightarrow> 'd env \<Rightarrow> OrderType \<Rightarrow> bool \<Rightarrow> bool \<Rightarrow> SignedOrder \<Rightarrow> ('d client, PostOrderResponse) fact" where
  "postSigned fuel E orderType postOnly deferExec ord =
     fbind (noFuel (\<lambda>c. (BuildPostOrderRequest c ord orderType postOnly deferExec, c))) (PostOrder fuel E)"

definition CreateAndPostOrder ::
  "nat \<Rightarrow> 'd env \<Rightarrow> 'd OrderArgs \<Rightarrow> CreateOrderOptions option \<Rightarrow> OrderType \<Rightarrow> bool \<Rightarrow>
   ('d client, PostOrderResponse) fact" where
  "CreateAndPostOrder fuel E userOrder options orderType postOnly =
     fbind (noFuel (CreateOrder E userOrder options)) (postSigned fuel E orderType postOnly (oa_DeferExec userOrder))"

definition marketOrderType :: "OrderType \<Rightarrow> OrderType \<Rightarrow> OrderType" where
  "marketOrderType orderType userType =
     (if orderType \<noteq> [] then orderType else if userType \<noteq> [] then userType else OrderTypeFOK)"

definition postMarket ::
  "nat \<Rightarrow> 'd env \<Rightarrow> 'd MarketOrderArgs \<Rightarrow> CreateOrderOptions option \<Rightarrow> OrderType \<Rightarrow>
   ('d client, PostOrderResponse) fact" where
  "postMarket fuel E userOrder options orderType =
     fbind (noFuel (CreateMarketOrder E userOrder options)) (postSigned fuel E orderType False (mo_DeferExec userOrder))"

definition CreateAndPostMarketOrder ::
  "nat \<Rightarrow> 'd env \<Rightarrow> 'd MarketOrderArgs \<Rightarrow> CreateOrderOptions option \<Rightarrow> OrderType \<Rightarrow>
   ('d client, PostOrderResponse) fact" where
  "CreateAndPostMarketOrder fuel E userOrder options orderType =
     (let orderType = marketOrderType orderType (mo_OrderType userOrder)
      in if orderType \<noteq> OrderTypeFOK \<and> orderType \<noteq> OrderTypeFAK
         then noFuel (fail (Msg ''market orders only support FOK or FAK order types''))
         else postMarket fuel E (userOrder\<lparr>mo_OrderType := orderType\<rparr>) options orderType)"

text \<open>The common tail of the two build-and-post operations: post, and once more after a change of version.\<close>

definition postWithRetry ::
  "'d env \<Rightarrow> string \<Rightarrow> string \<Rightarrow> ('d client, 'a) fact \<Rightarrow> ('d client, 'a) fact" where
  "postWithRetry E tokenID positionID post = (\<lambda>c.
     let (beforeVersion, c0) = orderBuildServerVersion E tokenID positionID c
     in case post c0 of
          Some (Inl err, c1) \<Rightarrow>
            if isOrderVersionMismatch err then
              (let (afterVersion, c2) = orderBuildServerVersion E tokenID positionID (invalidateServerVersion c1)
               in if afterVersion \<noteq> beforeVersion then post c2 else Some (Inl err, c2))
            else Some (Inl err, c1)
        | other \<Rightarrow> other)"

definition BuildAndPostOrder ::
  "nat \<Rightarrow> 'd env \<Rightarrow> 'd OrderArgs \<Rightarrow> CreateOrderOptions option \<Rightarrow> OrderType \<Rightarrow> bool \<Rightarrow>
   ('d client, PostOrderResponse) fact" where
  "BuildAndPostOrder fuel E userOrder options orderType postOnly =
     postWithRetry E (oa_TokenID userOrder) (oa_PositionID userOrder)
       (CreateAndPostOrder fuel E userOrder options orderType postOnly)"

definition BuildAndPostMarketOrder ::
  "nat \<Rightarrow> 'd env \<Rightarrow> 'd MarketOrderArgs \<Rightarrow> CreateOrderOptions option \<Rightarrow> OrderType \<Rightarrow>
   ('d client, PostOrderResponse) fact" where
  "BuildAndPostMarketOrder fuel E userOrder options orderType =
     (let orderType = marketOrderType orderType (mo_OrderType userOrder)
      in if orderType \<noteq> OrderTypeFOK \<and> orderType \<noteq> OrderTypeFAK
         then noFuel (fail (Msg ''market orders only support FOK or FAK order types''))
         else postWithRetry E (mo_TokenID userOrder) (mo_PositionID userOrder)
                (postMarket fuel E (userOrder\<lparr>mo_OrderType := orderType\<rparr>) options orderType))"

section \<open>What building an order leaves alone\<close>

text \<open>Up to the call of \<open>signOrder\<close>, building an order keeps the cached server version and the chain.\<close>

definition keeps :: "('s \<Rightarrow> 'b) \<Rightarrow> ('s, 'a) act \<Rightarrow> bool" where
  "keeps f m \<longleftrightarrow> (\<forall>s. f (snd (m s)) = f s)"

named_theorems keeps_rules

lemma keeps_simps [keeps_rules]:
  "keeps f (ret x)" "keeps f (fail e)" "keeps f (lift r)" "keeps f (Pair r)"
  by (simp_all add: keeps_def)

lemma keeps_bindE [keeps_rules]:
  assumes "keeps f m" "\<And>x. keeps f (g x)"
  shows "keeps f (bindE m g)"
  unfolding keeps_def
proof
  fix s
  obtain r t where r: "m s = (r, t)" by fastforce
  have "f t = f s" using assms(1) r unfolding keeps_def by (metis snd_conv)
  then show "f (snd (bindE m g s)) = f s" using assms(2) r by (cases r) (simp_all add: bindE_def keeps_def)
qed

lemma keeps_wrapE [keeps_rules]: "keeps f m \<Longrightarrow> keeps f (wrapE s m)"
  by (simp add: keeps_def wrapE_def case_prod_unfold)

lemma keepsD: "keeps f m \<Longrightarrow> m s = (r, t) \<Longrightarrow> f t = f s"
  unfolding keeps_def by (metis snd_conv)

definition protocol_of :: "'d client \<Rightarrow> 32 word \<times> int" where
  "protocol_of c = (cachedVersion c, chainID c)"

lemma protocol_of_tick [simp]: "protocol_of (tick c) = protocol_of c"
  by (simp add: protocol_of_def)

lemma keeps_interact [keeps_rules]: "keeps protocol_of (interact f)"
  by (simp add: keeps_def)

lemma protocol_of_publish [simp]: "protocol_of (publishMetadata E tok k v c) = protocol_of c"
proof -
  have s: "protocol_of (setTickAndRisk E v t c) = protocol_of c" for t and c :: "'a client"
    by (simp add: protocol_of_def setTickAndRisk_def SetTickSize_def SetNegRisk_def Let_def)
  have "protocol_of (fold (setTickAndRisk E v) ts c) = protocol_of c" for ts and c :: "'a client"
    by (induction ts arbitrary: c) (simp_all add: s)
  then show ?thesis by (simp add: publishMetadata_def fold_condition s Let_def) (simp add: protocol_of_def)
qed

lemma keeps_condition [keeps_rules]: "keeps protocol_of (resolveOrderCondition E t)"
  unfolding keeps_def
proof
  fix c
  show "protocol_of (snd (resolveOrderCondition E t c)) = protocol_of c"
    by (cases "orderConditionCache c t"; cases "orderConditionLoads c t")
      (auto simp: resolveOrderCondition_def conditionBegin_def wait_alone_def conditionFinish_def protocol_of_def Let_def
        fetchOrderCondition_def wrapE_def bindE_def split: sum.splits prod.splits if_splits)
qed

lemma protocol_of_finish [simp]:
  "protocol_of (metadataFinish E q l g r c) = protocol_of c"
  "protocol_of (builderFinish E code l g s c) = protocol_of c"
proof -
  have heap: "protocol_of (c\<lparr>metadataHeap := h\<rparr>) = protocol_of c" "protocol_of (c\<lparr>orderMetadataLoads := d\<rparr>) = protocol_of c"
    "protocol_of (c\<lparr>orderConditionCache := x, orderMetadataCache := y\<rparr>) = protocol_of c"
    for h d x y and c :: "'a client"
    by (simp_all add: protocol_of_def)
  show "protocol_of (metadataFinish E q l g r c) = protocol_of c"
    by (cases q; cases r) (simp_all add: metadataFinish_def Let_def heap zeroMetadata_def)
  show "protocol_of (builderFinish E code l g s c) = protocol_of c"
    by (cases s) (simp_all add: builderFinish_def protocol_of_def Let_def)
qed

lemma protocol_of_begin:
  "protocol_of (snd (metadataBegin E k force c)) = protocol_of c"
  "protocol_of (snd (builderBegin E code force c)) = protocol_of c"
  by (auto simp: begin_defs protocol_of_def split: option.splits prod.splits if_splits)

lemma keeps_metadata [keeps_rules]: "keeps protocol_of (resolveOrderMarketMetadata E t force)"
  unfolding resolveOrderMarketMetadata_def
proof (rule keeps_bindE [OF keeps_condition])
  fix k
  show "keeps protocol_of (resolveMetadataOf E t force k)"
    unfolding keeps_def
  proof
    fix c
    obtain fl c1 where b: "metadataBegin E k force c = (fl, c1)" by fastforce
    have "protocol_of c1 = protocol_of c" using protocol_of_begin(1) [of E k force c] b by simp
    then show "protocol_of (snd (resolveMetadataOf E t force k c)) = protocol_of c"
      using b by (cases fl) (simp_all add: resolveMetadataOf_def wait_alone_def case_prod_unfold bindE_lift)
  qed
qed

lemma keeps_builder [keeps_rules]: "keeps protocol_of (resolveBuilderFeeRateCached E code)"
  unfolding keeps_def
proof
  fix c
  obtain fl c1 where b: "builderBegin E code False c = (fl, c1)" by fastforce
  have "protocol_of c1 = protocol_of c" using protocol_of_begin(2) [of E code False c] b by simp
  then show "protocol_of (snd (resolveBuilderFeeRateCached E code c)) = protocol_of c"
    using b by (cases fl) (simp_all add: resolveBuilderFeeRateCached_def wait_alone_def case_prod_unfold)
qed

lemma protocol_of_cached:
  "protocol_of (snd (cachedTickSize E t c)) = protocol_of c" "protocol_of (snd (cachedNegRisk E t c)) = protocol_of c"
  by (simp_all add: cachedTickSize_def cachedNegRisk_def fresh_def Let_def split: option.splits)

lemma keeps_resolve [keeps_rules]:
  "keeps protocol_of (resolveTickSize E t options)" "keeps protocol_of (resolveNegRisk E t options)"
proof -
  have "protocol_of (snd (resolveTickSize E t options c)) = protocol_of c" for c
    using protocol_of_cached(1) [of E t c]
    by (cases "cachedTickSize E t c"; cases "fst (cachedTickSize E t c)"; cases "e_GetTickSize E (ticks (snd (cachedTickSize E t c))) t")
      (auto simp: resolveTickSize_def bindE_def protocol_of_def)
  then show "keeps protocol_of (resolveTickSize E t options)" by (simp add: keeps_def)
  have "protocol_of (snd (resolveNegRisk E t options c)) = protocol_of c" for c
    using protocol_of_cached(2) [of E t c]
    by (cases "Option.bind options opt_NegRisk"; cases "cachedNegRisk E t c"; cases "fst (cachedNegRisk E t c)";
        cases "e_GetNegRisk E (ticks (snd (cachedNegRisk E t c))) t")
      (auto simp: resolveNegRisk_def bindE_def protocol_of_def)
  then show "keeps protocol_of (resolveNegRisk E t options)" by (simp add: keeps_def)
qed

lemma keeps_refresh [keeps_rules]: "keeps protocol_of (validateLimitPriceWithRefresh E t price sz options)"
proof -
  have "protocol_of (snd (validateLimitPriceWithRefresh E t price sz options c)) = protocol_of c" for c
    using keeps_metadata [of E t True]
    by (auto simp: validateLimitPriceWithRefresh_def keeps_def split: sum.splits prod.splits) (metis snd_conv)+
  then show ?thesis by (simp add: keeps_def)
qed

lemma keeps_adjust [keeps_rules]: "keeps protocol_of (adjustOrderBuyAmount E a amount price budget code)"
  unfolding adjustOrderBuyAmount_def by (intro keeps_rules)

lemma keeps_limit [keeps_rules]:
  "keeps protocol_of (limitTickSize E a options market cached loaded)"
  "keeps protocol_of (limitNegRisk E a p options risk)"
  "keeps protocol_of (limitAmounts E ord cfg)"
  by (auto simp: limitTickSize_def limitNegRisk_def limitAmounts_def Let_def split: option.splits intro!: keeps_rules)

text \<open>A computation that ends in a call of \<open>signOrder\<close>, in a state of the same protocol version and chain.\<close>

definition signs :: "'d env \<Rightarrow> string \<Rightarrow> ('d client, SignedOrder) act \<Rightarrow> bool" where
  "signs E positionID m \<longleftrightarrow> (\<forall>c so c'. m c = (Inr so, c') \<longrightarrow>
     (\<exists>input c1. signOrder E input c1 = (Inr so, c') \<and> protocol_of c1 = protocol_of c \<and> in_PositionID input = positionID))"

lemma signs_bindE:
  assumes "keeps protocol_of m" "\<And>x. signs E p (f x)"
  shows "signs E p (bindE m f)"
  unfolding signs_def
proof (intro allI impI)
  fix c so c'
  assume "bindE m f c = (Inr so, c')"
  then obtain x c1 where x: "m c = (Inr x, c1)" "f x c1 = (Inr so, c')" by (auto simp: go_run)
  from assms(2) [of x] x(2) keepsD [OF assms(1) x(1)] show "\<exists>input c1. signOrder E input c1 = (Inr so, c') \<and>
      protocol_of c1 = protocol_of c \<and> in_PositionID input = p" unfolding signs_def by metis
qed

lemma signs_limit: "signs E (oa_PositionID ord) (buildSignedLimitOrder E ord options)"
proof (cases "roundingConfig (opt_TickSize options)")
  case None
  then show ?thesis by (simp add: buildSignedLimitOrder_def signs_def)
next
  case (Some cfg)
  have s: "signs E (oa_PositionID ord) (bindE (limitAmounts E ord cfg) (\<lambda>(rawMaker, rawTaker) c. signOrder E (mk rawMaker rawTaker c) c))"
    if "\<And>a b c. in_PositionID (mk a b c) = oa_PositionID ord" for mk
    by (rule signs_bindE [OF keeps_limit(3)]) (auto simp: signs_def intro!: exI that)
  show ?thesis
    using Some by (auto simp: buildSignedLimitOrder_def signs_def [of E _ "fail _"] intro!: s)
qed

lemma signs_at:
  assumes "\<And>c. \<exists>m c1. f c = m c1 \<and> signs E p m \<and> protocol_of c1 = protocol_of c"
  shows "signs E p f"
  using assms unfolding signs_def by metis

lemma keeps_time_now [keeps_rules]: "keeps protocol_of (time_now E)"
  by (simp add: keeps_def time_now_def)

lemma keeps_at:
  assumes "\<And>c. \<exists>m c1. f c = m c1 \<and> keeps protocol_of m \<and> protocol_of c1 = protocol_of c"
  shows "keeps protocol_of f"
  using assms unfolding keeps_def by metis

lemma keeps_prepareLimitOrder: "keeps protocol_of (prepareLimitOrder E ord options)"
proof -
  have fin: "keeps protocol_of (limitOrderOptions E ord options cached loaded found)" for cached loaded found
    unfolding limitOrderOptions_def Let_def by (intro keeps_rules keeps_limit keeps_refresh)
  have load: "keeps protocol_of (bindE (if b then bindE (resolveOrderMarketMetadata E t False) (\<lambda>x. ret (f x)) else ret z)
      (limitOrderOptions E ord options cached loaded))" for b t f z cached loaded
    by (rule keeps_bindE [OF _ fin]) (simp add: keeps_rules)
  show ?thesis
    unfolding prepareLimitOrder_def Let_def case_prod_unfold
    by (rule keeps_bindE [OF keeps_time_now], rule keeps_bindE [OF keeps_simps(3)], rule keeps_at, rule exI, rule exI,
        rule conjI [OF refl], rule conjI [OF load]) (simp add: protocol_of_cached)
qed

lemma signs_CreateOrder: "signs E (oa_PositionID ord) (CreateOrder E ord options)"
  unfolding CreateOrder_def by (rule signs_bindE [OF keeps_prepareLimitOrder signs_limit])

section \<open>Runs that post\<close>

lemma fbind_Some:
  "fbind m f s = Some (Inr y, t) \<longleftrightarrow> (\<exists>x s'. m s = Some (Inr x, s') \<and> f x s' = Some (Inr y, t))"
  by (auto simp: fbind_def split: option.splits prod.splits sum.splits)

lemma attachHashes_only: "attachHashes trades out = out\<lparr>ps_TransactionsHashes := ps_TransactionsHashes (attachHashes trades out)\<rparr>"
  by (simp add: attachHashes_def Let_def)

lemma PostOrder_posted:
  assumes "PostOrder fuel E request c = Some (Inr resp, c')"
  shows "\<exists>out. e_postOrder E (ticks c) request = Inr out \<and> resp = out\<lparr>ps_TransactionsHashes := ps_TransactionsHashes resp\<rparr>"
proof (cases "e_postOrder E (ticks c) request")
  case (Inr out)
  then have "resp = out \<or> (\<exists>trades. resp = attachHashes trades out)"
    using assms by (auto simp: PostOrder_def split: if_splits)
  then show ?thesis using attachHashes_only Inr by auto
qed (use assms in \<open>auto simp: PostOrder_def\<close>)

lemma postSigned_posted:
  assumes "postSigned fuel E orderType postOnly deferExec so c = Some (Inr resp, c')"
  shows "\<exists>n request out. pr_Order request = so \<and> e_postOrder E n request = Inr out \<and>
    resp = out\<lparr>ps_TransactionsHashes := ps_TransactionsHashes resp\<rparr>"
proof -
  obtain request where r: "BuildPostOrderRequest c so orderType postOnly deferExec = Inr request"
    "PostOrder fuel E request c = Some (Inr resp, c')"
    using assms by (auto simp: postSigned_def fbind_Some noFuel_def)
  have "pr_Order request = so" using r(1) by (auto simp: BuildPostOrderRequest_def Let_def split: option.splits if_splits)
  with PostOrder_posted [OF r(2)] show ?thesis by blast
qed

lemma CreateAndPostOrder_posted:
  assumes "CreateAndPostOrder fuel E ord options orderType postOnly c = Some (Inr resp, c')" "cachedVersion c \<noteq> 0"
    and "oa_PositionID ord = []"
  shows "\<exists>n request out input. signed_for E (chainID c) input (cachedVersion c) (pr_Order request) \<and>
    e_postOrder E n request = Inr out \<and> resp = out\<lparr>ps_TransactionsHashes := ps_TransactionsHashes resp\<rparr>"
proof -
  obtain so c1 where s: "CreateOrder E ord options c = (Inr so, c1)"
    "postSigned fuel E orderType postOnly (oa_DeferExec ord) so c1 = Some (Inr resp, c')"
    using assms(1) by (auto simp: CreateAndPostOrder_def fbind_Some noFuel_def)
  obtain input c2 where i: "signOrder E input c2 = (Inr so, c1)" "protocol_of c2 = protocol_of c" "in_PositionID input = []"
    using signs_CreateOrder [of E ord options] s(1) assms(3) unfolding signs_def by metis
  have "signed_for E (chainID c) input (cachedVersion c) so"
    using signOrder_signed [OF i(1)] i(2,3) assms(2) by (auto simp: protocol_of_def)
  with postSigned_posted [OF s(2)] show ?thesis by blast
qed

lemma orderBuildServerVersion_fetch:
  assumes "orderBuildServerVersion E t p c = (v, c')" "cachedVersion c = 0" "v \<noteq> 0 \<or> p = [] \<and> t \<noteq> []"
  shows "p = []" "t \<noteq> []" "chainID c' = chainID c"
    "v = 0 \<and> (\<exists>n e. e_GetVersion E n = Inl e) \<or> (\<exists>n. e_GetVersion E n = Inr v)" "v \<noteq> 0 \<Longrightarrow> cachedVersion c' = v"
  using assms
  by (auto simp: orderBuildServerVersion_def resolveServerVersion_def bindE_def split: if_splits sum.splits)

lemma postWithRetry_cases:
  assumes "orderBuildServerVersion E t p c = (before, c0)" "post c0 = Some (Inl err, c1)"
    and "postWithRetry E t p post c = Some (Inr resp, c')"
  obtains after c2 where "isOrderVersionMismatch err"
    "orderBuildServerVersion E t p (invalidateServerVersion c1) = (after, c2)" "after \<noteq> before"
    "post c2 = Some (Inr resp, c')"
  using assms by (auto simp: postWithRetry_def split: if_splits prod.splits)

section \<open>Properties\<close>

text \<open>
  A request to post an order is built exactly when the client has credentials, an expiration is given only with type
  GTD and post-only only with type GTC or GTD; the empty type is GTC.
\<close>

theorem post_request_guards:
  "BuildPostOrderRequest c ord orderType postOnly deferExec = Inr request \<longleftrightarrow>
     (let kind = (if orderType = '''' then ''GTC'' else orderType) in
      credentialsKey c = Some (pr_Owner request) \<and> (so_Expiration ord = ''0'' \<or> kind = ''GTD'') \<and>
      (postOnly \<longrightarrow> kind = ''GTC'' \<or> kind = ''GTD'') \<and> pr_Order request = ord \<and> pr_OrderType request = kind \<and>
      pr_PostOnly request = postOnly \<and> pr_DeferExec request = deferExec)"
  by (cases request; cases "credentialsKey c")
    (auto simp: BuildPostOrderRequest_def Let_def order_enum_defs)

text \<open>
  C15: when building and posting a limit order succeeds although the first attempt failed, the failure was a version mismatch, the order
  is token-backed, and the version that \<open>/version\<close> then reported differs from the one before; the order that was
  accepted is signed for the exchange of that new version (unless the lookup failed or reported zero).
\<close>

theorem version_retry_sound:
  assumes "BuildAndPostOrder fuel E ord options orderType postOnly c = Some (Inr resp, c')"
    and "orderBuildServerVersion E (oa_TokenID ord) (oa_PositionID ord) c = (before, c0)"
    and "CreateAndPostOrder fuel E ord options orderType postOnly c0 = Some (Inl err, c1)"
  shows "isOrderVersionMismatch err \<and> oa_PositionID ord = [] \<and> (\<exists>after. after \<noteq> before \<and>
    (after = 0 \<and> (\<exists>n e. e_GetVersion E n = Inl e) \<or> (\<exists>n. e_GetVersion E n = Inr after)) \<and>
    (after \<noteq> 0 \<longrightarrow> (\<exists>n request out input. signed_for E (chainID c1) input after (pr_Order request) \<and>
       e_postOrder E n request = Inr out \<and> resp = out\<lparr>ps_TransactionsHashes := ps_TransactionsHashes resp\<rparr>)))"
proof -
  obtain after c2 where r: "isOrderVersionMismatch err"
    "orderBuildServerVersion E (oa_TokenID ord) (oa_PositionID ord) (invalidateServerVersion c1) = (after, c2)"
    "after \<noteq> before" "CreateAndPostOrder fuel E ord options orderType postOnly c2 = Some (Inr resp, c')"
    using postWithRetry_cases [OF assms(2,3) assms(1) [unfolded BuildAndPostOrder_def]] .
  have z: "cachedVersion (invalidateServerVersion c1) = 0" "chainID (invalidateServerVersion c1) = chainID c1"
    by (simp_all add: invalidateServerVersion_def)
  have "oa_PositionID ord = [] \<and> oa_TokenID ord \<noteq> []"
    using assms(2) r(2,3) by (auto simp: orderBuildServerVersion_def split: if_splits)
  note f = orderBuildServerVersion_fetch [OF r(2) z(1) disjI2 [OF this]]
  have "after \<noteq> 0 \<longrightarrow> (\<exists>n request out input. signed_for E (chainID c1) input after (pr_Order request) \<and>
       e_postOrder E n request = Inr out \<and> resp = out\<lparr>ps_TransactionsHashes := ps_TransactionsHashes resp\<rparr>)"
    using CreateAndPostOrder_posted [OF r(4) _ f(1)] f(3,5) z(2) by auto
  with r(1,3) f(1,4) show ?thesis by blast
qed

text \<open>
  A failed version lookup counts as a change of version: if the first attempt fails with a version mismatch and \<open>/version\<close> then
  cannot be read, a token-backed order whose version was known is built and posted a second time, whatever version the server runs.
\<close>

theorem retry_on_failed_lookup:
  assumes "orderBuildServerVersion E (oa_TokenID ord) (oa_PositionID ord) c = (before, c0)" "before \<noteq> 0"
    and "CreateAndPostOrder fuel E ord options orderType postOnly c0 = Some (Inl err, c1)" "isOrderVersionMismatch err"
    and "e_GetVersion E (ticks c1) = Inl lookupErr"
  shows "\<exists>c2. BuildAndPostOrder fuel E ord options orderType postOnly c =
    CreateAndPostOrder fuel E ord options orderType postOnly c2 \<and> cachedVersion c2 = 0"
proof -
  have "oa_PositionID ord = []" "oa_TokenID ord \<noteq> []"
    using assms(1,2) by (auto simp: orderBuildServerVersion_def split: if_splits)
  then have "orderBuildServerVersion E (oa_TokenID ord) (oa_PositionID ord) (invalidateServerVersion c1) =
      (0, tick (invalidateServerVersion c1))"
    using assms(5) by (simp add: orderBuildServerVersion_def resolveServerVersion_def invalidateServerVersion_def bindE_def)
  then show ?thesis
    using assms(1-4)
    by (intro exI [of _ "tick (invalidateServerVersion c1)"])
      (simp add: BuildAndPostOrder_def postWithRetry_def invalidateServerVersion_def)
qed

text \<open>
  Posting an order ends and reports what the service accepted: when the clock passes the 30-second limit from the \<open>N\<close>-th
  interaction on, \<open>N + 1\<close> polling rounds are enough; a successful call returns the service's response with nothing changed
  but the transaction hashes, and those only if the response had none.
\<close>

theorem post_order_terminates:
  assumes "\<forall>n \<ge> N. e_clock E (Suc (ticks c)) + postOrderTradeResolutionTimeout \<le> e_clock E n"
  shows "\<exists>r c'. PostOrder (Suc N) E request c = Some (r, c') \<and>
    (case e_postOrder E (ticks c) request of
       Inl err \<Rightarrow> r = Inl err \<and> (isOrderVersionMismatch err \<longrightarrow> cachedVersion c' = 0)
     | Inr out \<Rightarrow> \<exists>hashes. r = Inr (out\<lparr>ps_TransactionsHashes := hashes\<rparr>) \<and>
         (ps_TransactionsHashes out \<noteq> [] \<longrightarrow> hashes = ps_TransactionsHashes out))"
proof (cases "e_postOrder E (ticks c) request")
  case (Inl err)
  then show ?thesis by (simp add: PostOrder_def invalidateServerVersion_def)
next
  case (Inr out)
  have "effortLoop (Suc N) E (e_clock E (Suc (ticks c)) + postOrderTradeResolutionTimeout) ids [] (tick (tick c)) \<noteq> None" for ids
    using effortLoop_ends [OF assms] by simp
  from this [of "uniqueNonEmptyStrings (ps_TradeIDs out)"]
  obtain trades c' where "waitForResolvedTrades (Suc N) E (ps_TradeIDs out) (tick c) = Some (trades, c')"
    by (cases "uniqueNonEmptyStrings (ps_TradeIDs out) = []") (auto simp: waitForResolvedTrades_def Let_def)
  then show ?thesis
    using Inr attachHashes_only [of trades out]
    by (auto simp: PostOrder_def shouldResolvePostOrder_def intro: exI [of _ "ps_TransactionsHashes out"])
qed

section \<open>A server that changes its version\<close>

text \<open>
  The limit order of the previous theories on a client whose cached version is 2, and a service that accepts only orders signed for
  version 3 and reports the given version.
\<close>

definition retry_env :: "32 word result \<Rightarrow> dec env" where
  "retry_env version = demo_env\<lparr>
     e_signTypedData := (\<lambda>_ td. Inr (if dm_Version (td_Domain td) = ''3'' then [3] else [2])),
     e_postOrder := (\<lambda>_ r. if so_Signature (pr_Order r) = ''0x03'' then Inr demo_response
                           else Inl (ApiError 400 None ''order_version_mismatch'')),
     e_GetVersion := (\<lambda>_. version)\<rparr>"

definition retry_client :: "dec client" where
  "retry_client = demo_cached\<lparr>cachedVersion := 2\<rparr>"

definition good_client :: "dec client \<Rightarrow> bool" where
  "good_client c \<longleftrightarrow> tickSizeCache c ''111'' = Some ''0.01'' \<and> negRiskCache c ''111'' = Some False \<and> cacheTTL c = 0 \<and>
     chainID c = 137 \<and> signatureType c = 0 \<and> credentialsKey c = Some ''key''"

lemma good_retry_client: "good_client retry_client" "cachedVersion retry_client = 2"
  by (simp_all add: good_client_def retry_client_def demo_cached_def demo_client_def newClientCacheState_def
      clientCacheState.defs)

lemma retry_amounts:
  "limitAmounts (retry_env version) (demo_order None) demo_config =
     ret (Dec 560000000000000000000, Dec 1000000000000000000000)"
proof -
  have "roundDown dec19_ops (Dec 1000000000000000000000) 2 = Dec 1000000000000000000000"
    "roundToAmount dec19_ops (u_mul dec19_ops (Dec 1000000000000000000000)
       (roundNormal dec19_ops (Dec 5600000000000000000) 2)) demo_config = Dec 560000000000000000000"
    by code_simp+
  then show ?thesis by (simp add: limitAmounts_def retry_env_def demo_env_def demo_order_def demo_config_def Let_def)
qed

lemma retry_exchange:
  assumes "chainID c = 137" "cachedVersion c \<in> {2, 3}" "in_PositionID input = []" "in_NegRisk input = False"
  shows "\<exists>contracts a. getContractConfig (chainID c) = Inr contracts \<and> resolveOrderExchange (retry_env version) input contracts c =
    (Inr \<lparr>ex_VerifyingContract = a, ex_Version = (if cachedVersion c = 3 then ''3'' else ''2'')\<rparr>, c)"
  using assms
  by (auto simp: resolveOrderExchange_def exchangeForVersion_def resolveServerVersion_def getContractConfig_def
      contractConfigs_def bindE_def)

lemma retry_signed:
  assumes "chainID c = 137" "cachedVersion c \<in> {2, 3}" "in_NegRisk input = False"
    and "in_TokenID input \<noteq> []" "in_PositionID input = []" "in_SignatureType input = 0" "in_Expiration input = 0"
    and "in_MakerAmount input = Some m" "in_TakerAmount input = Some t" "0 < m" "m < 2 ^ 256" "0 < t" "t < 2 ^ 256"
  shows "\<exists>so. signOrder (retry_env version) input c = (Inr so, tick (tick (tick (tick c)))) \<and> so_Expiration so = ''0'' \<and>
    so_Signature so = (if cachedVersion c = 3 then ''0x03'' else ''0x02'')"
proof -
  define ver where "ver = (if cachedVersion c = 3 then ''3'' else ''2'')"
  have v: "validateOrderAmounts (Some m) (Some t) = Inr ()"
    using assms(10-13) by (simp add: validateOrderAmounts_def)
  have "chainID (tick (tick c)) = 137" "cachedVersion (tick (tick c)) \<in> {2, 3}" using assms(1,2) by simp_all
  from retry_exchange [OF this assms(5,3), of version] obtain contracts a where
    x: "getContractConfig (chainID c) = Inr contracts" "resolveOrderExchange (retry_env version) input contracts (tick (tick c)) =
    (Inr \<lparr>ex_VerifyingContract = a, ex_Version = ver\<rparr>, tick (tick c))"
    by (auto simp: ver_def)
  have e: "e_ctxErr (retry_env version) n = None" "e_salt (retry_env version) n = Inr 12345"
    "e_signTypedData (retry_env version) n td = Inr (if dm_Version (td_Domain td) = ''3'' then [3] else [2])" for n td
    by (simp_all add: retry_env_def demo_env_def)
  have h: "hex_encode [3] = ''03''" "hex_encode [2] = ''02''" "show_nat (unat (0 :: 64 word)) = ''0''" by code_simp+
  have i: "in_TokenID input \<noteq> []" "in_PositionID input = []" "in_SignatureType input \<noteq> SignatureTypePoly1271"
    using assms(4-6) by (simp_all add: SignatureTypePoly1271_def)
  have so: "so_Expiration (unsignedOrder input maker signer salt m t now) = ''0''" for maker signer salt now
    using assms(7) h(3) by (simp add: unsignedOrder_def)
  have td: "dm_Version (td_Domain (buildOrderTypedData chain ver a so)) = ver" for chain ver a so
    by (simp add: buildOrderTypedData_def Let_def)
  have ver: "ver \<noteq> ''1''" "cachedVersion c = 3 \<longleftrightarrow> ver = ''3''" by (simp_all add: ver_def)
  show ?thesis
    by (simp add: signOrder_def x v i e assms(8,9) bindE_def ctx_check_def wrapE_def time_now_def signBuilt_def signTyped_def
        td so ver h)
qed

lemma retry_created:
  assumes "good_client c" "cachedVersion c \<in> {2, 3}"
  shows "\<exists>so. CreateOrder (retry_env version) (demo_order None) None c = (Inr so, tick (tick (tick (tick (tick c))))) \<and>
    so_Expiration so = ''0'' \<and> so_Signature so = (if cachedVersion c = 3 then ''0x03'' else ''0x02'')"
proof -
  have U: "e_U (retry_env version) = dec19_ops" by (simp add: retry_env_def demo_env_def)
  have o: "oa_TokenID (demo_order None) = ''111''" "oa_PositionID (demo_order None) = []"
    "oa_Price (demo_order None) = Dec 5600000000000000000" "oa_Expiration (demo_order None) = 0" by (simp_all add: demo_order_def)
  have prec: "\<not> decimalPlaces dec19_ops (oa_Size (demo_order None)) > 2" unfolding demo_order_def by simp code_simp
  have cfg: "roundingConfig ''0.01'' = Some demo_config" by (simp add: roundingConfig_def tick_size_defs demo_config_def)
  have units: "decimalBaseUnits dec19_ops (Dec 560000000000000000000) = Some 56000000"
    "decimalBaseUnits dec19_ops (Dec 1000000000000000000000) = Some 100000000" by code_simp+
  have look: "cachedTickSize (retry_env version) ''111'' (tick c) = (Some ''0.01'', tick c)"
    "cachedNegRisk (retry_env version) ''111'' (tick c) = (Some False, tick c)"
    using assms(1) by (simp_all add: good_client_def cachedTickSize_def cachedNegRisk_def fresh_def)
  have c: "chainID (tick c) = 137" "cachedVersion (tick c) \<in> {2, 3}" "signatureType (tick c) = 0"
    using assms by (simp_all add: good_client_def)
  have fin: "limitOrderOptions (retry_env version) (demo_order None) None True False (''0.01'', Some False) (tick c) =
      (Inr \<lparr>opt_TickSize = ''0.01'', opt_NegRisk = Some False\<rparr>, tick c)"
    by (simp add: limitOrderOptions_def limitTickSize_def validateLimitPriceWithRefresh_def limitNegRisk_def
        orderAssetID_def o U demo_order_price tickSizeOption_def)
  have r: "rc_Size demo_config = 2" by (simp add: demo_config_def)
  have "CreateOrder (retry_env version) (demo_order None) None c =
      buildSignedLimitOrder (retry_env version) (demo_order None) \<lparr>opt_TickSize = ''0.01'', opt_NegRisk = Some False\<rparr> (tick c)"
    using demo_order_valid [of None]
    by (simp add: CreateOrder_def prepareLimitOrder_def bindE_def [of _ "buildSignedLimitOrder _ _"] bindE_time_now bindE_lift_Inr U o orderAssetID_def look tickSizeOption_def fin)
  moreover have "\<exists>so. buildSignedLimitOrder (retry_env version) (demo_order None) \<lparr>opt_TickSize = ''0.01'', opt_NegRisk = Some False\<rparr> (tick c) =
      (Inr so, tick (tick (tick (tick (tick c))))) \<and> so_Expiration so = ''0'' \<and>
      so_Signature so = (if cachedVersion (tick c) = 3 then ''0x03'' else ''0x02'')"
    using prec
    by (simp add: buildSignedLimitOrder_def cfg U retry_amounts units r derefBool_def del: tick_same split del: if_split)
      (rule retry_signed [where m = 56000000 and t = 100000000], use c in \<open>simp_all add: o\<close>)
  ultimately show ?thesis by simp
qed

lemma retry_posted:
  assumes "good_client c" "cachedVersion c \<in> {2, 3}"
  shows "\<exists>c'. CreateAndPostOrder 0 (retry_env version) (demo_order None) None ''GTC'' True c =
      (if cachedVersion c = 3 then Some (Inr demo_response, c') else Some (Inl (ApiError 400 None ''order_version_mismatch''), c')) \<and>
    good_client c'"
proof -
  have m: "isOrderVersionMismatch (ApiError 400 None ''order_version_mismatch'')" by code_simp
  have d: "\<not> shouldResolvePostOrder r demo_response" for r by (simp add: shouldResolvePostOrder_def demo_response_def)
  from retry_created [OF assms] obtain so where so:
    "CreateOrder (retry_env version) (demo_order None) None c = (Inr so, tick (tick (tick (tick (tick c)))))"
    "so_Expiration so = ''0''" "so_Signature so = (if cachedVersion c = 3 then ''0x03'' else ''0x02'')" by blast
  have key: "credentialsKey c = Some ''key''" using assms(1) by (simp add: good_client_def)
  have e: "e_postOrder (retry_env version) n r = (if so_Signature (pr_Order r) = ''0x03'' then Inr demo_response
      else Inl (ApiError 400 None ''order_version_mismatch''))" for n r by (simp add: retry_env_def)
  show ?thesis
    using assms(1)
    by (auto simp: CreateAndPostOrder_def fbind_def noFuel_def so postSigned_def BuildPostOrderRequest_def key order_enum_defs
        PostOrder_def e d m invalidateServerVersion_def good_client_def)
qed

lemma retry_before:
  "orderBuildServerVersion (retry_env version) (oa_TokenID (demo_order None)) (oa_PositionID (demo_order None)) retry_client =
     (2, retry_client)"
  by (simp add: orderBuildServerVersion_def resolveServerVersion_def good_retry_client demo_order_def)

lemma retry_first:
  obtains c1 where "CreateAndPostOrder 0 (retry_env version) (demo_order None) None ''GTC'' True retry_client =
     Some (Inl (ApiError 400 None ''order_version_mismatch''), c1)" "good_client c1"
  using retry_posted [of retry_client version] by (simp add: good_retry_client) blast

theorem version_retry_sound_witness:
  "\<exists>c' n request out input. BuildAndPostOrder 0 (retry_env (Inr 3)) (demo_order None) None ''GTC'' True retry_client =
      Some (Inr demo_response, c') \<and> signed_for (retry_env (Inr 3)) 137 input 3 (pr_Order request) \<and>
      e_postOrder (retry_env (Inr 3)) n request = Inr out"
proof -
  obtain c1 where c1: "CreateAndPostOrder 0 (retry_env (Inr 3)) (demo_order None) None ''GTC'' True retry_client =
     Some (Inl (ApiError 400 None ''order_version_mismatch''), c1)" "good_client c1" by (rule retry_first)
  define c2 where "c2 = (tick (invalidateServerVersion c1))\<lparr>cachedVersion := 3\<rparr>"
  have m: "isOrderVersionMismatch (ApiError 400 None ''order_version_mismatch'')" by code_simp
  have v: "e_GetVersion (retry_env (Inr 3)) n = Inr 3" for n by (simp add: retry_env_def)
  have o: "orderBuildServerVersion (retry_env (Inr 3)) (oa_TokenID (demo_order None)) (oa_PositionID (demo_order None))
      (invalidateServerVersion c1) = (3, c2)"
    by (simp add: orderBuildServerVersion_def resolveServerVersion_def demo_order_def invalidateServerVersion_def bindE_def v c2_def)
  have "good_client c2" "cachedVersion c2 = 3" using c1(2) by (simp_all add: c2_def good_client_def invalidateServerVersion_def)
  then obtain c' where c': "CreateAndPostOrder 0 (retry_env (Inr 3)) (demo_order None) None ''GTC'' True c2 = Some (Inr demo_response, c')"
    using retry_posted [of c2 "Inr 3"] by auto
  have run: "BuildAndPostOrder 0 (retry_env (Inr 3)) (demo_order None) None ''GTC'' True retry_client = Some (Inr demo_response, c')"
    by (simp add: BuildAndPostOrder_def postWithRetry_def retry_before c1(1) m o c')
  have "chainID c1 = 137" using c1(2) by (simp add: good_client_def)
  then show ?thesis using version_retry_sound [OF run retry_before c1(1)] run v by auto
qed

theorem retry_on_failed_lookup_witness:
  "\<exists>c2. BuildAndPostOrder 0 (retry_env (Inl (Remote 7))) (demo_order None) None ''GTC'' True retry_client =
    CreateAndPostOrder 0 (retry_env (Inl (Remote 7))) (demo_order None) None ''GTC'' True c2 \<and> cachedVersion c2 = 0"
proof -
  obtain c1 where c1: "CreateAndPostOrder 0 (retry_env (Inl (Remote 7))) (demo_order None) None ''GTC'' True retry_client =
     Some (Inl (ApiError 400 None ''order_version_mismatch''), c1)" "good_client c1" by (rule retry_first)
  have m: "isOrderVersionMismatch (ApiError 400 None ''order_version_mismatch'')" by code_simp
  show ?thesis
    by (rule retry_on_failed_lookup [OF retry_before _ c1(1) m]) (simp_all add: retry_env_def)
qed

definition post_order :: SignedOrder where
  "post_order = \<lparr>so_Order = \<lparr>o_Salt = ''1'', o_Maker = ''0xa'', o_Signer = ''0xa'', o_TokenID = ''111'', o_MakerAmount = ''5'',
       o_TakerAmount = ''10'', o_Side = SideBuy, o_SignatureType = 0, o_Timestamp = ''1'', o_Metadata = zeroBytes32,
       o_Builder = zeroBytes32\<rparr>, so_Expiration = ''1800000000'', so_Signature = ''0x'', so_Legacy = None\<rparr>"

theorem post_request_guards_witness:
  "BuildPostOrderRequest demo_client post_order ''GTD'' True False =
     Inr \<lparr>pr_Order = post_order, pr_Owner = ''key'', pr_OrderType = ''GTD'', pr_PostOnly = True, pr_DeferExec = False\<rparr> \<and>
   (\<forall>request. BuildPostOrderRequest demo_client post_order '''' True False \<noteq> Inr request)"
proof -
  have "credentialsKey demo_client = Some ''key''" "so_Expiration post_order = ''1800000000''"
    by (simp_all add: demo_client_def newClientCacheState_def clientCacheState.defs post_order_def)
  then show ?thesis by (simp add: post_request_guards)
qed

theorem post_order_terminates_witness:
  "\<exists>r c'. PostOrder (Suc (nat postOrderTradeResolutionTimeout + 1)) settle_env
      \<lparr>pr_Order = post_order, pr_Owner = ''key'', pr_OrderType = ''GTC'', pr_PostOnly = True, pr_DeferExec = False\<rparr> demo_client = Some (r, c')"
proof -
  have "\<forall>n \<ge> nat postOrderTradeResolutionTimeout + 1.
      e_clock settle_env (Suc (ticks demo_client)) + postOrderTradeResolutionTimeout \<le> e_clock settle_env n"
    by (simp add: settle_env_def demo_env_def demo_client_def newClientCacheState_def clientCacheState.defs
        postOrderTradeResolutionTimeout_def)
  from post_order_terminates [OF this] show ?thesis by blast
qed

end
