(* ===== verification/Pagination.thy ===== *)
theory Pagination
  imports Prelude
begin

text \<open>
  \<open>clob/pagination.go\<close> and \<open>clob/iter.go\<close>: the traversal every list iterator shares, and the collection of an iterator into a
  slice.  A Go iterator is a function that calls \<open>yield\<close> on every element; here \<open>yield\<close> is a step of a consumer with
  its own state, which answers whether to go on.  An element is an item or an error (\<open>yield(zero, err)\<close>).  The traversal takes fuel,
  one unit per page.
\<close>

section \<open>Traversal\<close>

record 'a Page =
  pg_Limit :: int
  pg_Count :: int
  pg_NextCursor :: string
  pg_Data :: "'a list"

definition initialCursor :: string where "initialCursor = ''MA==''"
definition endCursor :: string where "endCursor = ''LTE=''"

definition ErrPaginationStalled :: go_error where
  "ErrPaginationStalled = Sentinel ''clob: pagination did not advance''"

definition normalizedCursor :: "string \<Rightarrow> string" where
  "normalizedCursor nextCursor = (if nextCursor = [] then initialCursor else nextCursor)"

definition nextPageCursor :: "string \<Rightarrow> string \<Rightarrow> (string \<times> bool) result" where
  "nextPageCursor currentCursor nextCursor =
     (if nextCursor = [] then Inr ([], True)
      else if nextCursor = currentCursor then Inl (Wrap nextCursor ErrPaginationStalled)
      else if nextCursor = endCursor then Inr (endCursor, False)
      else Inr (nextCursor, False))"

type_synonym ('a, 's) consumer = "'a result \<Rightarrow> 's \<Rightarrow> bool \<times> 's"

fun yieldItems :: "('a, 's) consumer \<Rightarrow> 'a list \<Rightarrow> 's \<Rightarrow> bool \<times> 's" where
  "yieldItems yield [] s = (True, s)"
| "yieldItems yield (item # items) s =
     (case yield (Inr item) s of (go, s') \<Rightarrow> if go then yieldItems yield items s' else (False, s'))"

fun paginateFrom ::
  "nat \<Rightarrow> string \<Rightarrow> (string \<Rightarrow> ('c, 'a Page) act) \<Rightarrow> ('a, 's) consumer \<Rightarrow> 'c \<Rightarrow> 's \<Rightarrow> ('c \<times> 's) option" where
  "paginateFrom fuel cursor fetch yield c s =
     (if cursor = endCursor then Some (c, s)
      else case fuel of 0 \<Rightarrow> None
      | Suc fuel' \<Rightarrow>
          (case fetch cursor c of
             (Inl err, c') \<Rightarrow> Some (c', snd (yield (Inl err) s))
           | (Inr page, c') \<Rightarrow>
               (case yieldItems yield (pg_Data page) s of
                  (False, s') \<Rightarrow> Some (c', s')
                | (True, s') \<Rightarrow>
                    (case nextPageCursor cursor (pg_NextCursor page) of
                       Inl err \<Rightarrow> Some (c', snd (yield (Inl err) s'))
                     | Inr (next_cursor, done) \<Rightarrow>
                         if done then Some (c', s')
                         else paginateFrom fuel' next_cursor fetch yield c' s'))))"

declare paginateFrom.simps [simp del]

definition paginate ::
  "nat \<Rightarrow> string \<Rightarrow> (string \<Rightarrow> ('c, 'a Page) act) \<Rightarrow> ('a, 's) consumer \<Rightarrow> 'c \<Rightarrow> 's \<Rightarrow> ('c \<times> 's) option" where
  "paginate fuel start fetch yield c s = paginateFrom fuel (normalizedCursor start) fetch yield c s"

text \<open>
  \<open>Collect\<close>: the body of the range loop appends an item and goes on, or keeps the error and stops.
\<close>

definition collectYield :: "('a, 'a list result) consumer" where
  "collectYield v out =
     (case v of
        Inl err \<Rightarrow> (False, Inl err)
      | Inr item \<Rightarrow> (True, rbind out (\<lambda>items. Inr (items @ [item]))))"

definition Collect ::
  "(('a, 'a list result) consumer \<Rightarrow> 'a list result \<Rightarrow> ('c \<times> 'a list result) option) \<Rightarrow> ('a list result \<times> 'c) option" where
  "Collect sq = map_option (\<lambda>(c, out). (out, c)) (sq collectYield (Inr []))"

definition collectPages :: "nat \<Rightarrow> string \<Rightarrow> (string \<Rightarrow> ('c, 'a Page) act) \<Rightarrow> 'c \<Rightarrow> ('a list result \<times> 'c) option" where
  "collectPages fuel start fetch c = Collect (\<lambda>yield s. paginate fuel start fetch yield c s)"

section \<open>The listing a traversal should produce\<close>

text \<open>
  The specification: the pages from a cursor on, each fetched in the state the previous one left, until a page without a next cursor or
  with the end cursor; a failed request or a page that repeats its own cursor ends the listing with an error.
\<close>

inductive listing :: "(string \<Rightarrow> ('c, 'a Page) act) \<Rightarrow> string \<Rightarrow> 'c \<Rightarrow> 'a list \<Rightarrow> go_error option \<Rightarrow> 'c \<Rightarrow> bool"
  for fetch where
  at_end: "listing fetch endCursor c [] None c"
| failed: "cursor \<noteq> endCursor \<Longrightarrow> fetch cursor c = (Inl err, c') \<Longrightarrow> listing fetch cursor c [] (Some err) c'"
| last_page: "cursor \<noteq> endCursor \<Longrightarrow> fetch cursor c = (Inr page, c') \<Longrightarrow> pg_NextCursor page = [] \<Longrightarrow>
    listing fetch cursor c (pg_Data page) None c'"
| stalled: "cursor \<noteq> endCursor \<Longrightarrow> fetch cursor c = (Inr page, c') \<Longrightarrow> pg_NextCursor page = cursor \<Longrightarrow> cursor \<noteq> [] \<Longrightarrow>
    listing fetch cursor c (pg_Data page) (Some (Wrap cursor ErrPaginationStalled)) c'"
| more: "cursor \<noteq> endCursor \<Longrightarrow> fetch cursor c = (Inr page, c') \<Longrightarrow> pg_NextCursor page \<noteq> [] \<Longrightarrow>
    pg_NextCursor page \<noteq> cursor \<Longrightarrow> listing fetch (pg_NextCursor page) c' items err c'' \<Longrightarrow>
    listing fetch cursor c (pg_Data page @ items) err c''"

definition outcome :: "'a list \<Rightarrow> go_error option \<Rightarrow> 'a list result" where
  "outcome items err = (case err of None \<Rightarrow> Inr items | Some e \<Rightarrow> Inl e)"

lemma yieldItems_collect: "yieldItems collectYield items (Inr out) = (True, Inr (out @ items))"
  by (induction items arbitrary: out) (simp_all add: collectYield_def)

lemma collect_step:
  assumes "cursor \<noteq> endCursor" "fetch cursor c = (Inr page, c')" "pg_NextCursor page \<noteq> []" "pg_NextCursor page \<noteq> cursor"
  shows "paginateFrom (Suc fuel) cursor fetch collectYield c (Inr out) =
    paginateFrom fuel (pg_NextCursor page) fetch collectYield c' (Inr (out @ pg_Data page))"
  using assms by (subst paginateFrom.simps) (auto simp: yieldItems_collect nextPageCursor_def)

lemma listing_collects:
  assumes "listing fetch cursor c items err c'"
  shows "\<exists>n. \<forall>fuel \<ge> n. paginateFrom fuel cursor fetch collectYield c (Inr out) = Some (c', outcome (out @ items) err)"
  using assms
proof (induction arbitrary: out)
  case (at_end c)
  then show ?case by (subst paginateFrom.simps) (simp add: outcome_def)
next
  case (failed cursor c err c')
  have "paginateFrom (Suc fuel) cursor fetch collectYield c (Inr out) = Some (c', outcome (out @ []) (Some err))" for fuel
    using failed by (subst paginateFrom.simps) (simp add: outcome_def collectYield_def)
  then show ?case by (intro exI [of _ 1] allI impI) (metis Suc_le_D One_nat_def)
next
  case (last_page cursor c page c')
  have "paginateFrom (Suc fuel) cursor fetch collectYield c (Inr out) = Some (c', outcome (out @ pg_Data page) None)" for fuel
    using last_page by (subst paginateFrom.simps) (simp add: outcome_def yieldItems_collect nextPageCursor_def)
  then show ?case by (intro exI [of _ 1] allI impI) (metis Suc_le_D One_nat_def)
next
  case (stalled cursor c page c')
  have "paginateFrom (Suc fuel) cursor fetch collectYield c (Inr out) =
      Some (c', outcome (out @ pg_Data page) (Some (Wrap cursor ErrPaginationStalled)))" for fuel
    using stalled by (subst paginateFrom.simps) (simp add: outcome_def yieldItems_collect nextPageCursor_def collectYield_def)
  then show ?case by (intro exI [of _ 1] allI impI) (metis Suc_le_D One_nat_def)
next
  case (more cursor c page c' items err c'')
  obtain n where n: "\<forall>fuel \<ge> n. paginateFrom fuel (pg_NextCursor page) fetch collectYield c' (Inr (out @ pg_Data page)) =
      Some (c'', outcome ((out @ pg_Data page) @ items) err)" using more.IH by blast
  have "paginateFrom fuel cursor fetch collectYield c (Inr out) = Some (c'', outcome (out @ pg_Data page @ items) err)"
    if le: "Suc n \<le> fuel" for fuel
  proof -
    obtain f where "fuel = Suc f" "n \<le> f" using le by (cases fuel) auto
    then show ?thesis using n collect_step [where fetch = fetch, OF more.hyps(1-4), of f out] by simp
  qed
  then show ?case by blast
qed

lemma collects_listing:
  assumes "paginateFrom fuel cursor fetch collectYield c (Inr out) = Some (c', r)"
  shows "\<exists>items err. listing fetch cursor c items err c' \<and> r = outcome (out @ items) err"
  using assms
proof (induction fuel arbitrary: cursor c out)
  case 0
  then have "cursor = endCursor" "c' = c" "r = Inr out" by (subst (asm) paginateFrom.simps, simp split: if_splits)+
  then show ?case using listing.at_end [of fetch c] by (intro exI [of _ "[]"] exI [of _ None]) (simp add: outcome_def)
next
  case (Suc fuel)
  show ?case
  proof (cases "cursor = endCursor")
    case True
    then have "c' = c" "r = Inr out" using Suc.prems by (subst (asm) paginateFrom.simps, simp)+
    then show ?thesis using listing.at_end [of fetch c] True by (intro exI [of _ "[]"] exI [of _ None]) (simp add: outcome_def)
  next
    case False
    obtain x c1 where x: "fetch cursor c = (x, c1)" by fastforce
    show ?thesis
    proof (cases x)
      case (Inl err)
      have "c' = c1" "r = Inl err"
        using Suc.prems False x Inl by (subst (asm) paginateFrom.simps, simp add: collectYield_def)+
      then show ?thesis
        using listing.failed [where fetch = fetch, OF False x [unfolded Inl]] by (intro exI [of _ "[]"] exI [of _ "Some err"]) (simp add: outcome_def)
    next
      case (Inr page)
      note x = x [unfolded Inr]
      consider "pg_NextCursor page = []" | "pg_NextCursor page = cursor" "cursor \<noteq> []"
        | "pg_NextCursor page \<noteq> []" "pg_NextCursor page \<noteq> cursor" by fastforce
      then show ?thesis
      proof cases
        case 1
        then have "c' = c1" "r = Inr (out @ pg_Data page)"
          using Suc.prems False x by (subst (asm) paginateFrom.simps, simp add: yieldItems_collect nextPageCursor_def)+
        then show ?thesis using listing.last_page [where fetch = fetch, OF False x 1] by (intro exI [of _ "pg_Data page"] exI [of _ None]) (simp add: outcome_def)
      next
        case 2
        then have "c' = c1" "r = Inl (Wrap cursor ErrPaginationStalled)"
          using Suc.prems False x
          by (subst (asm) paginateFrom.simps, simp add: yieldItems_collect nextPageCursor_def collectYield_def)+
        then show ?thesis
          using listing.stalled [where fetch = fetch, OF False x 2]
          by (intro exI [of _ "pg_Data page"] exI [of _ "Some (Wrap cursor ErrPaginationStalled)"]) (simp add: outcome_def)
      next
        case 3
        have "paginateFrom fuel (pg_NextCursor page) fetch collectYield c1 (Inr (out @ pg_Data page)) = Some (c', r)"
          using Suc.prems collect_step [where fetch = fetch, OF False x 3] by simp
        from Suc.IH [OF this] obtain items err where "listing fetch (pg_NextCursor page) c1 items err c'"
          "r = outcome ((out @ pg_Data page) @ items) err" by blast
        then show ?thesis
          using listing.more [where fetch = fetch, OF False x 3] by (intro exI [of _ "pg_Data page @ items"] exI [of _ err]) simp
      qed
    qed
  qed
qed

section \<open>Properties\<close>

text \<open>
  C18: collecting a paginated listing returns exactly the listing: with enough rounds the items of all pages in order when
  the pages end, and the error of the failed request or of the repeated cursor otherwise.  No item is dropped, repeated or reordered.
\<close>

theorem collect_is_listing:
  "(\<exists>fuel. collectPages fuel start fetch c = Some (r, c')) \<longleftrightarrow>
   (\<exists>items err. listing fetch (normalizedCursor start) c items err c' \<and> r = outcome items err)"
proof
  assume "\<exists>fuel. collectPages fuel start fetch c = Some (r, c')"
  then obtain fuel where "paginateFrom fuel (normalizedCursor start) fetch collectYield c (Inr []) = Some (c', r)"
    by (auto simp: collectPages_def Collect_def paginate_def)
  from collects_listing [OF this] show "\<exists>items err. listing fetch (normalizedCursor start) c items err c' \<and> r = outcome items err"
    by simp
next
  assume "\<exists>items err. listing fetch (normalizedCursor start) c items err c' \<and> r = outcome items err"
  then obtain items err where l: "listing fetch (normalizedCursor start) c items err c'" "r = outcome items err" by blast
  obtain n where "\<forall>fuel \<ge> n. paginateFrom fuel (normalizedCursor start) fetch collectYield c (Inr []) = Some (c', outcome ([] @ items) err)"
    using listing_collects [OF l(1), of "[]"] by blast
  then have "collectPages n start fetch c = Some (r, c')" using l(2) by (simp add: collectPages_def Collect_def paginate_def)
  then show "\<exists>fuel. collectPages fuel start fetch c = Some (r, c')" ..
qed

text \<open>
  A traversal ends for every consumer when each page moves the cursor on: if every page with a next cursor lowers a rank of the
  cursor, \<open>rank + 1\<close> rounds are enough.
\<close>

theorem pagination_terminates:
  assumes "\<And>cursor c page c'. fetch cursor c = (Inr page, c') \<Longrightarrow> pg_NextCursor page \<noteq> [] \<Longrightarrow> pg_NextCursor page \<noteq> cursor \<Longrightarrow>
    rank (pg_NextCursor page) < (rank cursor :: nat)"
  shows "\<exists>c' s'. paginate (Suc (rank (normalizedCursor start))) start fetch yield c s = Some (c', s')"
proof -
  have "\<exists>c' s'. paginateFrom (Suc fuel) cursor fetch yield c s = Some (c', s')" if "rank cursor \<le> fuel" for fuel cursor c s
    using that
  proof (induction fuel arbitrary: cursor c s)
    case 0
    then show ?case
      using assms [of cursor c]
      by (subst paginateFrom.simps) (auto simp: nextPageCursor_def split: prod.splits sum.splits bool.splits if_splits)
  next
    case (Suc fuel)
    have "rank (pg_NextCursor page) \<le> fuel" if "fetch cursor c = (Inr page, c')" "pg_NextCursor page \<noteq> []" "pg_NextCursor page \<noteq> cursor"
      for page c' using assms [OF that] Suc.prems by simp
    then show ?case
      using Suc.IH by (subst paginateFrom.simps) (auto simp: nextPageCursor_def split: prod.splits sum.splits bool.splits if_splits)
  qed
  then show ?thesis by (simp add: paginate_def)
qed

text \<open>
  Only the immediate repetition of a cursor is noticed.  A service whose first page points to a second cursor and whose second page
  points back to the first is never left: no number of rounds makes collecting return, although each cursor was requested before.
\<close>

theorem pagination_two_cycle:
  assumes "\<And>c. \<exists>page. fetch initialCursor c = (Inr page, c) \<and> pg_NextCursor page = b"
    and "\<And>c. \<exists>page. fetch b c = (Inr page, c) \<and> pg_NextCursor page = initialCursor"
    and "b \<noteq> initialCursor" "b \<noteq> endCursor" "b \<noteq> []"
  shows "collectPages fuel [] fetch c = None"
proof -
  have "paginateFrom fuel cursor fetch collectYield c (Inr out) = None" if "cursor = initialCursor \<or> cursor = b" for cursor out
    using that
  proof (induction fuel arbitrary: cursor out)
    case 0
    then show ?case using assms(4) by (subst paginateFrom.simps) (auto simp: initialCursor_def endCursor_def)
  next
    case (Suc fuel)
    obtain page where p: "fetch cursor c = (Inr page, c)" "pg_NextCursor page = initialCursor \<or> pg_NextCursor page = b"
      "pg_NextCursor page \<noteq> cursor" using Suc.prems assms(1-3) by metis
    have "cursor \<noteq> endCursor" "pg_NextCursor page \<noteq> []" using Suc.prems p(2) assms(4,5) by (auto simp: initialCursor_def endCursor_def)
    with collect_step [of cursor fetch c page c, OF _ p(1) _ p(3)] Suc.IH [OF p(2)] show ?case by simp
  qed
  then show ?thesis by (simp add: collectPages_def Collect_def paginate_def normalizedCursor_def)
qed

section \<open>A concrete service\<close>

definition demo_pages :: "string \<Rightarrow> (nat, nat Page) act" where
  "demo_pages cursor = (\<lambda>n.
     if cursor = ''MA=='' then (Inr \<lparr>pg_Limit = 2, pg_Count = 2, pg_NextCursor = ''Mg=='', pg_Data = [1, 2]\<rparr>, Suc n)
     else if cursor = ''Mg=='' then (Inr \<lparr>pg_Limit = 2, pg_Count = 1, pg_NextCursor = ''LTE='', pg_Data = [3]\<rparr>, Suc n)
     else (Inl (Remote 0), Suc n))"

definition demo_rank :: "string \<Rightarrow> nat" where
  "demo_rank cursor = (if cursor = ''MA=='' then 2 else if cursor = ''Mg=='' then 1 else 0)"

definition cycle_pages :: "string \<Rightarrow> (nat, nat Page) act" where
  "cycle_pages cursor = (\<lambda>n. (Inr \<lparr>pg_Limit = 2, pg_Count = 1,
     pg_NextCursor = (if cursor = ''MA=='' then ''Mg=='' else ''MA==''), pg_Data = [1]\<rparr>, n))"

theorem pagination_terminates_witness:
  "\<exists>c' s'. paginate (Suc (demo_rank (normalizedCursor []))) [] demo_pages collectYield 0 (Inr []) = Some (c', s')"
  by (rule pagination_terminates) (auto simp: demo_pages_def demo_rank_def split: if_splits)

theorem pagination_two_cycle_witness: "collectPages 1000 [] cycle_pages 0 = None"
proof (rule pagination_two_cycle [where b = "''Mg==''"])
  fix c
  show "\<exists>page. cycle_pages initialCursor c = (Inr page, c) \<and> pg_NextCursor page = ''Mg==''"
    "\<exists>page. cycle_pages ''Mg=='' c = (Inr page, c) \<and> pg_NextCursor page = initialCursor"
    by (simp_all add: cycle_pages_def initialCursor_def)
qed (simp_all add: initialCursor_def endCursor_def)

end
