(* ===== verification/Transport.thy ===== *)
theory Transport
  imports Prelude "HOL-Library.Signed_Division"
begin

text \<open>
  \<open>clob/transport.go\<close>: the retry policy in front of the HTTP client.  A request is a function that gives the result of its
  \<open>n\<close>-th execution; the state counts executions and interactions with the rest of the world (the rate limiter, the context, the timer),
  which is the record \<open>retryConfig\<close> together with the client's settings.
\<close>

section \<open>Retry loop\<close>

record retryConfig =
  rt_retryMax :: int
  rt_retryBackoff :: "64 word"
  rt_limited :: bool
  rt_wait :: "nat \<Rightarrow> go_error option"
  rt_ctxErr :: "nat \<Rightarrow> go_error option"
  rt_deadline :: "go_error option"
  rt_timer :: "nat \<Rightarrow> 64 word \<Rightarrow> bool"

record retryState =
  rs_calls :: nat
  rs_ticks :: nat

definition rtick :: "retryState \<Rightarrow> retryState" where
  "rtick s = s\<lparr>rs_ticks := Suc (rs_ticks s)\<rparr>"

text \<open>
  \<open>waitRateLimit\<close>: \<open>rt_deadline\<close> is \<open>None\<close> for a context without a deadline, and else the error the context has when it is done.
\<close>

definition waitRateLimit :: "retryConfig \<Rightarrow> (retryState, unit) act" where
  "waitRateLimit R = (\<lambda>s.
     case rt_wait R (rs_ticks s) of
       None \<Rightarrow> (Inr (), rtick s)
     | Some err \<Rightarrow>
         (case rt_ctxErr R (rs_ticks s) of
            Some e \<Rightarrow> (Inl e, rtick s)
          | None \<Rightarrow> (case rt_deadline R of Some e \<Rightarrow> (Inl e, rtick s) | None \<Rightarrow> (Inl err, rtick s))))"

definition limitRate :: "retryConfig \<Rightarrow> (retryState, unit) act" where
  "limitRate R = (if rt_limited R then waitRateLimit R else ret ())"

definition call :: "(nat \<Rightarrow> unit result) \<Rightarrow> (retryState, unit) act" where
  "call fn = (\<lambda>s. (fn (rs_calls s), s\<lparr>rs_calls := Suc (rs_calls s)\<rparr>))"

text \<open>\<open>errors.As(err, &apiErr)\<close> and the status of the API error it finds.\<close>

fun api_status :: "go_error \<Rightarrow> int option" where
  "api_status (ApiError status _ _) = Some status"
| "api_status (Wrap _ e) = api_status e"
| "api_status _ = None"

definition shouldRetry :: "go_error \<Rightarrow> bool" where
  "shouldRetry err =
     (case api_status err of
        Some status \<Rightarrow> status = 429 \<or> 500 \<le> status
      | None \<Rightarrow> \<not> (errors_is err CtxCanceled \<or> errors_is err CtxDeadlineExceeded))"

text \<open>The delay before the next attempt, in 64-bit signed arithmetic.\<close>

definition retryFactor :: "nat \<Rightarrow> 64 word" where
  "retryFactor i = push_bit (min i 30) 1"

definition smin :: "64 word \<Rightarrow> 64 word \<Rightarrow> 64 word" where
  "smin a b = (if sint a \<le> sint b then a else b)"

text \<open>Go's division of signed integers truncates.\<close>

definition sdiv64 :: "64 word \<Rightarrow> 64 word \<Rightarrow> 64 word" where
  "sdiv64 a b = word_of_int (sint a sdiv sint b)"

definition maxInt64 :: "64 word" where
  "maxInt64 = 2 ^ 63 - 1"

definition retryDelay :: "64 word \<Rightarrow> nat \<Rightarrow> 64 word" where
  "retryDelay retryBackoff i = smin retryBackoff (sdiv64 maxInt64 (retryFactor i)) * retryFactor i"

function retryLoop :: "retryConfig \<Rightarrow> (nat \<Rightarrow> unit result) \<Rightarrow> nat \<Rightarrow> go_error option \<Rightarrow> (retryState, unit) act" where
  "retryLoop R fn i lastErr s =
     (if \<not> int i \<le> rt_retryMax R then (case lastErr of None \<Rightarrow> (Inr (), s) | Some e \<Rightarrow> (Inl e, s))
      else case limitRate R s of
        (Inl e, s1) \<Rightarrow> (Inl e, s1)
      | (Inr _, s1) \<Rightarrow>
          (case call fn s1 of
             (Inr _, s2) \<Rightarrow> (Inr (), s2)
           | (Inl err, s2) \<Rightarrow>
               if \<not> shouldRetry err \<or> rt_retryMax R \<le> int i then (Inl err, s2)
               else (case rt_ctxErr R (rs_ticks s2) of
                       Some e \<Rightarrow>
                         if rt_timer R (rs_ticks s2) (retryDelay (rt_retryBackoff R) i)
                         then retryLoop R fn (Suc i) (Some err) (rtick s2) else (Inl e, rtick s2)
                     | None \<Rightarrow> retryLoop R fn (Suc i) (Some err) (rtick s2))))"
  by pat_completeness auto
termination
  by (relation "measure (\<lambda>(R, fn, i, lastErr, s). nat (rt_retryMax R + 1 - int i))") auto

declare retryLoop.simps [simp del]

definition withRetry :: "retryConfig \<Rightarrow> bool \<Rightarrow> (nat \<Rightarrow> unit result) \<Rightarrow> (retryState, unit) act" where
  "withRetry R retryEnabled fn =
     (if \<not> retryEnabled then bindE (limitRate R) (\<lambda>_. call fn) else retryLoop R fn 0 None)"

text \<open>The verbs: only plain reads are retried.\<close>

definition getJSON :: "retryConfig \<Rightarrow> (nat \<Rightarrow> unit result) \<Rightarrow> (retryState, unit) act" where
  "getJSON R http = withRetry R True http"

definition postJSON :: "retryConfig \<Rightarrow> (nat \<Rightarrow> unit result) \<Rightarrow> (retryState, unit) act" where
  "postJSON R http = withRetry R False http"

definition deleteJSON :: "retryConfig \<Rightarrow> (nat \<Rightarrow> unit result) \<Rightarrow> (retryState, unit) act" where
  "deleteJSON R http = withRetry R False http"

definition deleteJSONQuery :: "retryConfig \<Rightarrow> (nat \<Rightarrow> unit result) \<Rightarrow> (retryState, unit) act" where
  "deleteJSONQuery R http = withRetry R False http"

definition getJSONWithNonce :: "retryConfig \<Rightarrow> (nat \<Rightarrow> unit result) \<Rightarrow> (retryState, unit) act" where
  "getJSONWithNonce R http = withRetry R False http"

definition postJSONWithNonce :: "retryConfig \<Rightarrow> (nat \<Rightarrow> unit result) \<Rightarrow> (retryState, unit) act" where
  "postJSONWithNonce R http = withRetry R False http"

definition doJSON :: "retryConfig \<Rightarrow> string \<Rightarrow> (nat \<Rightarrow> unit result) \<Rightarrow> (retryState, unit) act" where
  "doJSON R httpMethod http = withRetry R (httpMethod = ''GET'') http"

section \<open>What a run of the loop did\<close>

lemma rtick_calls [simp]: "rs_calls (rtick s) = rs_calls s"
  by (simp add: rtick_def)

lemma limitRate_calls: "limitRate R s = (r, s1) \<Longrightarrow> rs_calls s1 = rs_calls s"
  by (auto simp: limitRate_def waitRateLimit_def split: if_splits option.splits)

text \<open>The errors that end a call without a new request: the limiter's, the context's.\<close>

definition gaveUp :: "retryConfig \<Rightarrow> go_error \<Rightarrow> bool" where
  "gaveUp R e \<longleftrightarrow> (\<exists>n. rt_ctxErr R n = Some e) \<or> rt_limited R \<and> ((\<exists>n. rt_wait R n = Some e) \<or> rt_deadline R = Some e)"

lemma limitRate_error: "limitRate R s = (Inl e, s1) \<Longrightarrow> gaveUp R e"
  by (auto simp: limitRate_def waitRateLimit_def gaveUp_def split: if_splits option.splits)

definition loop_result :: "retryConfig \<Rightarrow> (nat \<Rightarrow> unit result) \<Rightarrow> nat \<Rightarrow> nat \<Rightarrow> unit result \<Rightarrow> bool" where
  "loop_result R fn from n r \<longleftrightarrow> from \<le> n \<and> int n \<le> max (int from) (rt_retryMax R + 1) \<and>
     (\<forall>k. from \<le> k \<and> Suc k < n \<longrightarrow> (\<exists>e. fn k = Inl e \<and> shouldRetry e)) \<and>
     (case r of
        Inr _ \<Rightarrow> from < n \<and> fn (n - 1) = Inr ()
      | Inl e \<Rightarrow> gaveUp R e \<or>
          from < n \<and> fn (n - 1) = Inl e \<and> (\<not> shouldRetry e \<or> int n = rt_retryMax R + 1))"

lemma retryLoop_result:
  assumes "retryLoop R fn i lastErr s = (r, s')" "rs_calls s = i" "int i \<le> rt_retryMax R"
  shows "loop_result R fn i (rs_calls s') r"
  using assms
proof (induction R fn i lastErr s rule: retryLoop.induct)
  case (1 R fn i lastErr s)
  obtain rl s1 where l: "limitRate R s = (rl, s1)" by fastforce
  have c1: "rs_calls s1 = i" using limitRate_calls [OF l] "1.prems"(2) by simp
  show ?case
  proof (cases rl)
    case (Inl e)
    then have "r = Inl e" "s' = s1" using "1.prems"(1,3) l by (subst (asm) retryLoop.simps, simp)+
    then show ?thesis using limitRate_error [OF l [unfolded Inl]] c1 by (auto simp: loop_result_def)
  next
    case (Inr u)
    note l = l [unfolded Inr]
    define s2 where "s2 = s1\<lparr>rs_calls := Suc i\<rparr>"
    have s2: "rs_calls s2 = Suc i" by (simp add: s2_def)
    show ?thesis
    proof (cases "fn i")
      case (Inr v)
      then have "r = Inr ()" "s' = s2"
        using "1.prems"(1,3) l c1 by (subst (asm) retryLoop.simps, simp add: call_def s2_def)+
      then show ?thesis using Inr s2 "1.prems"(3) by (auto simp: loop_result_def)
    next
      case (Inl err)
      have call: "call fn s1 = (Inl err, s2)" using Inl c1 by (simp add: call_def s2_def)
      show ?thesis
      proof (cases "\<not> shouldRetry err \<or> rt_retryMax R \<le> int i")
        case True
        then have "r = Inl err" "s' = s2"
          using "1.prems"(1,3) l call by (subst (asm) retryLoop.simps, auto)+
        then show ?thesis using Inl s2 True "1.prems"(3) by (auto simp: loop_result_def)
      next
        case False
        show ?thesis
        proof (cases "retryLoop R fn (Suc i) (Some err) (rtick s2) = (r, s')")
          case True
          have "loop_result R fn (Suc i) (rs_calls s') r"
          proof (cases "rt_ctxErr R (rs_ticks s2)")
            case None
            from "1.IH"(1) [OF _ l [symmetric] refl call [symmetric] refl False None True] show ?thesis using s2 False "1.prems"(3) by simp
          next
            case (Some e)
            show ?thesis
            proof (cases "rt_timer R (rs_ticks s2) (retryDelay (rt_retryBackoff R) i)")
              case T: True
              from "1.IH"(2) [OF _ l [symmetric] refl call [symmetric] refl False Some T True] show ?thesis using s2 False "1.prems"(3) by simp
            next
              case F: False
              have "r = Inl e" "s' = rtick s2"
                using "1.prems"(1,3) l call False Some F by (subst (asm) retryLoop.simps, simp)+
              then show ?thesis using Some s2 False by (auto simp: loop_result_def gaveUp_def)
            qed
          qed
          then show ?thesis
            using Inl False "1.prems"(3) unfolding loop_result_def
            by (auto simp: less_Suc_eq_le split: sum.splits) (metis Suc_leI le_antisym not_less)+
        next
          case F: False
          then have "\<exists>e. rt_ctxErr R (rs_ticks s2) = Some e \<and> r = Inl e \<and> s' = rtick s2"
            using "1.prems"(1,3) l call False by (subst (asm) retryLoop.simps) (auto split: option.splits if_splits)
          then show ?thesis using s2 Inl False "1.prems"(3) by (auto simp: loop_result_def gaveUp_def)
        qed
      qed
    qed
  qed
qed

section \<open>The delay\<close>

lemma sint_word_of_int:
  "- (2 ^ 63) \<le> k \<Longrightarrow> k < 2 ^ 63 \<Longrightarrow> sint (word_of_int k :: 64 word) = k"
  by (simp add: sint_uint uint_word_of_int_eq signed_take_bit_take_bit signed_take_bit_int_eq_self)

lemma retryFactor_of_int: "retryFactor i = word_of_int (2 ^ min i 30)"
  by (simp add: retryFactor_def push_bit_eq_mult)

lemma factor_bounds: "(1 :: int) \<le> 2 ^ min i 30" "(2 :: int) ^ min i 30 < 2 ^ 63"
  by simp (rule power_strict_increasing, auto)

lemma retryDelay_sint:
  assumes "0 \<le> sint retryBackoff"
  shows "sint (retryDelay retryBackoff i) = min (sint retryBackoff) ((2 ^ 63 - 1) div 2 ^ min i 30) * 2 ^ min i 30"
proof -
  let ?f = "2 ^ min i 30 :: int" and ?m = "2 ^ 63 - 1 :: int"
  have f: "sint (retryFactor i) = ?f"
    unfolding retryFactor_of_int by (rule sint_word_of_int) (use factor_bounds [of i] in linarith)+
  have m: "sint maxInt64 = ?m" by (simp add: maxInt64_def sint_word_of_int [of ?m, simplified])
  have q: "0 \<le> ?m div ?f" "?m div ?f \<le> ?m" by (simp_all add: pos_imp_zdiv_nonneg_iff zdiv_mono2 [of ?m 1 ?f, simplified])
  have d: "sdiv64 maxInt64 (retryFactor i) = word_of_int (?m div ?f)"
    by (simp add: sdiv64_def f m signed_divide_int_def)
  have "sint (sdiv64 maxInt64 (retryFactor i)) = ?m div ?f" unfolding d by (rule sint_word_of_int) (use q in auto)
  then have n: "smin retryBackoff (sdiv64 maxInt64 (retryFactor i)) = word_of_int (min (sint retryBackoff) (?m div ?f))"
    by (auto simp: smin_def min_def d)
  have "min (sint retryBackoff) (?m div ?f) * ?f \<le> ?m div ?f * ?f" by (rule mult_right_mono) auto
  also have "\<dots> \<le> ?m" using pos_mod_sign [of ?f ?m] by (simp add: minus_mod_eq_div_mult [symmetric])
  finally have "min (sint retryBackoff) (?m div ?f) * ?f \<le> ?m" .
  moreover have "0 \<le> min (sint retryBackoff) (?m div ?f) * ?f" using assms q(1) by simp
  ultimately show ?thesis
    unfolding retryDelay_def n unfolding retryFactor_of_int of_int_mult [symmetric] by (intro sint_word_of_int) linarith+
qed

section \<open>Properties\<close>

text \<open>
  A read is executed at most \<open>retryMax + 1\<close> times.  Every execution but the last failed with an error that the policy retries
  (status 429 or at least 500, or an error of the transport that is not the end of the context).  The call succeeds exactly with a
  successful last execution; it fails with the error of the last execution, which is then final or came with the last attempt allowed, or
  because the limiter or the context ended it.
\<close>

theorem read_retry_policy:
  assumes "getJSON R http s = (r, s')" "rs_calls s = 0" "0 \<le> rt_retryMax R"
  shows "int (rs_calls s') \<le> rt_retryMax R + 1 \<and>
    (\<forall>k. Suc k < rs_calls s' \<longrightarrow> (\<exists>e. http k = Inl e \<and> shouldRetry e)) \<and>
    (case r of
       Inr _ \<Rightarrow> 0 < rs_calls s' \<and> http (rs_calls s' - 1) = Inr ()
     | Inl e \<Rightarrow> gaveUp R e \<or> 0 < rs_calls s' \<and> http (rs_calls s' - 1) = Inl e \<and>
         (\<not> shouldRetry e \<or> int (rs_calls s') = rt_retryMax R + 1))"
proof -
  have "loop_result R http 0 (rs_calls s') r"
    using retryLoop_result [of R http 0 None s r s'] assms by (simp add: getJSON_def withRetry_def)
  then show ?thesis using assms(3) by (simp add: loop_result_def)
qed

text \<open>
  C17: a write is never repeated by the transport: posting, deleting, any request with a nonce and any other request whose method
  is not GET is executed at most once, and exactly once when it succeeds, whatever error comes back.
\<close>

theorem writes_not_repeated:
  assumes "m \<noteq> ''GET''"
    and "f \<in> {postJSON R http, deleteJSON R http, deleteJSONQuery R http, getJSONWithNonce R http,
           postJSONWithNonce R http, doJSON R m http}"
  shows "rs_calls (snd (f s)) \<le> Suc (rs_calls s) \<and>
    (fst (f s) = Inr () \<longrightarrow> rs_calls (snd (f s)) = Suc (rs_calls s) \<and> http (rs_calls s) = Inr ())"
proof -
  have "f = withRetry R False http" using assms
    by (auto simp: postJSON_def deleteJSON_def deleteJSONQuery_def getJSONWithNonce_def postJSONWithNonce_def doJSON_def)
  moreover obtain rl s1 where l: "limitRate R s = (rl, s1)" by fastforce
  moreover have "rs_calls s1 = rs_calls s" by (rule limitRate_calls [OF l])
  ultimately show ?thesis by (cases rl) (auto simp: withRetry_def bindE_def call_def)
qed

text \<open>
  The delay before a retry never wraps around.  For a nonnegative base delay it doubles with every attempt up to the thirtieth as long as
  the result fits in 64 bits, and is capped below the largest duration otherwise; it is never negative.
\<close>

theorem retry_delay_bounded:
  assumes "0 \<le> sint retryBackoff"
  shows "0 \<le> sint (retryDelay retryBackoff i) \<and> sint (retryDelay retryBackoff i) \<le> sint retryBackoff * 2 ^ min i 30 \<and>
    (sint retryBackoff * 2 ^ min i 30 < 2 ^ 63 \<longrightarrow> sint (retryDelay retryBackoff i) = sint retryBackoff * 2 ^ min i 30)"
proof -
  let ?f = "2 ^ min i 30 :: int" and ?m = "2 ^ 63 - 1 :: int"
  have q: "0 \<le> ?m div ?f" by (simp add: pos_imp_zdiv_nonneg_iff)
  have le: "sint retryBackoff \<le> ?m div ?f" if "sint retryBackoff * ?f < 2 ^ 63"
  proof -
    have "sint retryBackoff = sint retryBackoff * ?f div ?f" by simp
    also have "\<dots> \<le> ?m div ?f" by (rule zdiv_mono1) (use that in auto)
    finally show ?thesis .
  qed
  have "min (sint retryBackoff) (?m div ?f) * ?f \<le> sint retryBackoff * ?f" by (rule mult_right_mono) auto
  moreover have "0 \<le> min (sint retryBackoff) (?m div ?f) * ?f" using assms q by simp
  moreover have "min (sint retryBackoff) (?m div ?f) * ?f = sint retryBackoff * ?f" if "sint retryBackoff * ?f < 2 ^ 63"
    using le [OF that] by (simp add: min_def)
  ultimately show ?thesis unfolding retryDelay_sint [OF assms] by blast
qed

section \<open>A service that fails twice\<close>

definition flaky_config :: retryConfig where
  "flaky_config = \<lparr>rt_retryMax = 3, rt_retryBackoff = 1000000000, rt_limited = True, rt_wait = (\<lambda>_. None), rt_ctxErr = (\<lambda>_. None),
     rt_deadline = None, rt_timer = (\<lambda>_ _. True)\<rparr>"

definition flaky :: "nat \<Rightarrow> unit result" where
  "flaky n = (if n < 2 then Inl (ApiError 503 None ''unavailable'') else Inr ())"

lemma flaky_run: "getJSON flaky_config flaky \<lparr>rs_calls = 0, rs_ticks = 0\<rparr> = (Inr (), \<lparr>rs_calls = 3, rs_ticks = 5\<rparr>)"
  by code_simp

theorem read_retry_policy_witness:
  "getJSON flaky_config flaky \<lparr>rs_calls = 0, rs_ticks = 0\<rparr> = (Inr (), \<lparr>rs_calls = 3, rs_ticks = 5\<rparr>) \<and>
   (\<exists>e. flaky 1 = Inl e \<and> shouldRetry e) \<and> flaky 2 = Inr ()"
  using read_retry_policy [OF flaky_run] flaky_run by (simp add: flaky_config_def)

theorem writes_not_repeated_witness:
  "rs_calls (snd (postJSON flaky_config flaky \<lparr>rs_calls = 0, rs_ticks = 0\<rparr>)) \<le> 1"
  using writes_not_repeated [of "''POST''" "postJSON flaky_config flaky" flaky_config flaky "\<lparr>rs_calls = 0, rs_ticks = 0\<rparr>"] by simp

theorem retry_delay_bounded_witness:
  "sint (retryDelay 1000000000 3) = 8000000000 \<and> 0 \<le> sint (retryDelay 1000000000 60)"
  using retry_delay_bounded [of 1000000000 3] retry_delay_bounded [of 1000000000 60] by simp

end
