(* ===== verification/OrderBookHash.thy ===== *)
theory OrderBookHash
  imports OrderSigning Fixtures
begin

text \<open>
  \<open>clob/orderbook_hash.go\<close>: the two hashes of an order book.  JSON encoding of a payload and the hash functions are parameters; the
  payloads, their field order (the order of the record fields) and the canonical spelling of the identifiers are modelled.  A nil slice
  is the empty list, which is what the code turns it into.
\<close>

section \<open>Hashes\<close>

record orderBookHashPayload =
  hp_Market :: string
  hp_AssetID :: string
  hp_Timestamp :: string
  hp_Hash :: string
  hp_Bids :: "OrderSummary list"
  hp_Asks :: "OrderSummary list"
  hp_MinOrderSize :: string
  hp_TickSize :: string
  hp_NegRisk :: bool
  hp_LastTradePrice :: string

definition generateOrderBookHash ::
  "(orderBookHashPayload \<Rightarrow> byte list result) \<Rightarrow> (byte list \<Rightarrow> byte list) \<Rightarrow> OrderBookSummary \<Rightarrow> string result" where
  "generateOrderBookHash marshal sha1 orderbook =
     (let payload = \<lparr>hp_Market = ob_Market orderbook, hp_AssetID = ob_AssetID orderbook, hp_Timestamp = ob_Timestamp orderbook,
            hp_Hash = [], hp_Bids = ob_Bids orderbook, hp_Asks = ob_Asks orderbook, hp_MinOrderSize = ob_MinOrderSize orderbook,
            hp_TickSize = ob_TickSize orderbook, hp_NegRisk = ob_NegRisk orderbook, hp_LastTradePrice = ob_LastTradePrice orderbook\<rparr>
      in rbind (marshal payload) (\<lambda>serialized. Inr (hex_encode (sha1 serialized))))"

definition GetOrderBookHash ::
  "(orderBookHashPayload \<Rightarrow> byte list result) \<Rightarrow> (byte list \<Rightarrow> byte list) \<Rightarrow> OrderBookSummary \<Rightarrow> string result" where
  "GetOrderBookHash marshal sha1 orderbook = generateOrderBookHash marshal sha1 orderbook"

record orderBookSummaryHashPayload =
  sp_Market :: string
  sp_AssetID :: string
  sp_Timestamp :: string
  sp_Hash :: "string option"
  sp_Bids :: "OrderSummary list"
  sp_Asks :: "OrderSummary list"
  sp_MinOrderSize :: string
  sp_NegRisk :: bool
  sp_TickSize :: string
  sp_LastTradePrice :: "string option"

text \<open>\<open>fmt.Sprintf("0x%064x", number)\<close> of a nonnegative number.\<close>

definition hex064 :: "nat \<Rightarrow> string" where
  "hex064 n = (let digits = show_base 16 n in ''0x'' @ replicate (64 - length digits) (CHR ''0'') @ digits)"

text \<open>\<open>!ok || number.Sign() < 0 || number.BitLen() > 256\<close>\<close>

definition uint256_or :: "go_error \<Rightarrow> int option \<Rightarrow> string result" where
  "uint256_or e number =
     (case number of
        None \<Rightarrow> Inl e
      | Some n \<Rightarrow> if n < 0 \<or> 2 ^ 256 \<le> n then Inl e else Inr (hex064 (nat n)))"

definition normalizeOrderBookHashBytes32 :: "string \<Rightarrow> string result" where
  "normalizeOrderBookHashBytes32 value =
     (let value = trim_prefix (trim_prefix value ''0x'') ''0X''
      in if value = [] then Inl (Msg ''value is empty'')
         else uint256_or (Msg ''not a bytes32 hex value'') (big_int_set_string value 16))"

definition normalizeOrderBookHashAssetID :: "string \<Rightarrow> string result" where
  "normalizeOrderBookHashAssetID value =
     (let trimmed = trim_space value;
          prefixed = has_prefix trimmed ''0x'' \<or> has_prefix trimmed ''0X'';
          base = (if prefixed then 16 else 10);
          digits = (if prefixed then drop 2 trimmed else trimmed)
      in if digits = [] then Inl (Msg ''value is empty'')
         else uint256_or (Msg ''not a uint256 value'') (big_int_set_string digits base))"

definition nonEmpty :: "string \<Rightarrow> string option" where
  "nonEmpty s = (if s \<noteq> [] then Some s else None)"

definition generateOrderBookSHA256Hash ::
  "(orderBookSummaryHashPayload \<Rightarrow> byte list result) \<Rightarrow> (byte list \<Rightarrow> byte list) \<Rightarrow> OrderBookSummary \<Rightarrow> string result" where
  "generateOrderBookSHA256Hash marshal sha256 orderbook =
     rbind (wrap_err ''orderbook market'' (normalizeOrderBookHashBytes32 (ob_Market orderbook))) (\<lambda>market.
     rbind (wrap_err ''orderbook asset ID'' (normalizeOrderBookHashAssetID (ob_AssetID orderbook))) (\<lambda>assetID.
       let payload = \<lparr>sp_Market = market, sp_AssetID = assetID, sp_Timestamp = ob_Timestamp orderbook,
             sp_Hash = nonEmpty (ob_Hash orderbook), sp_Bids = ob_Bids orderbook, sp_Asks = ob_Asks orderbook,
             sp_MinOrderSize = ob_MinOrderSize orderbook, sp_NegRisk = ob_NegRisk orderbook, sp_TickSize = ob_TickSize orderbook,
             sp_LastTradePrice = nonEmpty (ob_LastTradePrice orderbook)\<rparr>
       in rbind (wrap_err ''marshal orderbook'' (marshal payload)) (\<lambda>serialized. Inr (hex_encode (sha256 serialized)))))"

definition GetOrderBookSHA256Hash ::
  "(orderBookSummaryHashPayload \<Rightarrow> byte list result) \<Rightarrow> (byte list \<Rightarrow> byte list) \<Rightarrow> OrderBookSummary \<Rightarrow> string result" where
  "GetOrderBookSHA256Hash marshal sha256 orderbook = generateOrderBookSHA256Hash marshal sha256 orderbook"

definition GetOrderBookSummaryHash ::
  "(orderBookSummaryHashPayload \<Rightarrow> byte list result) \<Rightarrow> (byte list \<Rightarrow> byte list) \<Rightarrow> OrderBookSummary \<Rightarrow> string result" where
  "GetOrderBookSummaryHash marshal sha256 orderbook = generateOrderBookSHA256Hash marshal sha256 orderbook"

section \<open>Canonical identifiers\<close>

lemma hex064_facts:
  assumes "n < 2 ^ 256"
  shows "length (hex064 n) = 66" "take 2 (hex064 n) = ''0x''" "read_base 16 (drop 2 (hex064 n)) = Some n"
    "set (drop 2 (hex064 n)) \<subseteq> digit_char ` {..<16}"
proof -
  have "n < 16 ^ Suc 63" using assms by simp
  then have l: "length (show_base 16 n) \<le> 64" using show_base_length [of 16 n 63] by simp
  then show "length (hex064 n) = 66" by (simp add: hex064_def Let_def)
  show "take 2 (hex064 n) = ''0x''" by (simp add: hex064_def Let_def)
  show "read_base 16 (drop 2 (hex064 n)) = Some n"
    by (simp add: hex064_def Let_def read_base_def read_digits_zeros read_show_digits)
  have "CHR ''0'' = digit_char 0" by code_simp
  then show "set (drop 2 (hex064 n)) \<subseteq> digit_char ` {..<16}"
    using show_base_digits [of 16 n] by (auto simp: hex064_def Let_def)
qed

lemma digit_char_not_X:
  assumes "d < 16"
  shows "digit_char d \<noteq> CHR ''X''"
proof
  assume "digit_char d = CHR ''X''"
  then have "digit_value (CHR ''X'') = Some d" using digit_value_digit_char [OF assms] by simp
  moreover have "digit_value (CHR ''X'') = Some 33" by (simp add: digit_value_def)
  ultimately show False using assms by simp
qed

text \<open>A canonical identifier is a fixed point of both normalisations.\<close>

lemma canonical_set_string:
  assumes "n < 2 ^ 256"
  shows "big_int_set_string (drop 2 (hex064 n)) 16 = Some (int n)"
proof -
  obtain c s where d: "drop 2 (hex064 n) = c # s" using hex064_facts(1) [OF assms] by (cases "drop 2 (hex064 n)") auto
  then obtain k where k: "c = digit_char k" "k < 16" using hex064_facts(4) [OF assms] by auto
  have "c \<noteq> CHR ''-''" "c \<noteq> CHR ''+''" unfolding k(1) by (rule digit_char_not_sign [OF k(2)])+
  then show ?thesis using hex064_facts(3) [OF assms] unfolding d big_int_set_string_def list.case by simp
qed

lemma bytes32_canonical:
  assumes "n < 2 ^ 256"
  shows "normalizeOrderBookHashBytes32 (hex064 n) = Inr (hex064 n)"
proof -
  note f = hex064_facts [OF assms]
  have p: "trim_prefix (hex064 n) ''0x'' = drop 2 (hex064 n)" using f(2) by (simp add: trim_prefix_def has_prefix_def numeral_2_eq_2)
  have "\<not> has_prefix (drop 2 (hex064 n)) ''0X''"
  proof
    assume "has_prefix (drop 2 (hex064 n)) ''0X''"
    then have "CHR ''X'' \<in> set (drop 2 (hex064 n))"
      unfolding has_prefix_def by (metis in_set_takeD list.set_intros(1,2))
    then obtain d where "d < 16" "digit_char d = CHR ''X''" using f(4) by fastforce
    then show False using digit_char_not_X by blast
  qed
  then have t: "trim_prefix (drop 2 (hex064 n)) ''0X'' = drop 2 (hex064 n)" by (simp add: trim_prefix_def)
  have "drop 2 (hex064 n) \<noteq> []" using f(1) by auto
  then show ?thesis
    using assms canonical_set_string [OF assms] by (simp add: normalizeOrderBookHashBytes32_def p t uint256_or_def nat_less_iff)
qed

lemma uint256_or_Inr:
  assumes "uint256_or e number = Inr t"
  obtains n where "n < 2 ^ 256" "number = Some (int n)" "t = hex064 n"
proof -
  obtain i where i: "number = Some i" "0 \<le> i" "i < 2 ^ 256" "t = hex064 (nat i)"
    using assms by (auto simp: uint256_or_def split: option.splits if_splits)
  then have "nat i < 2 ^ 256" by (simp add: nat_less_iff)
  with i show thesis using that [of "nat i"] by simp
qed

section \<open>Properties\<close>

text \<open>
  The change-detection hash identifies markets by value, not by spelling.  Normalising a market ID that is accepted gives \<open>0x\<close> and 64
  lower-case hexadecimal digits that denote the same number below \<open>2^256\<close>, normalising it again changes nothing, and
  two books that differ only in spellings of the market or asset ID with equal normal forms have equal hashes.
\<close>

theorem book_hash_canonical:
  assumes "normalizeOrderBookHashBytes32 (ob_Market book) = Inr market" "normalizeOrderBookHashAssetID (ob_AssetID book) = Inr asset"
    and "normalizeOrderBookHashBytes32 market' = Inr market" "normalizeOrderBookHashAssetID asset' = Inr asset"
  shows "length market = 66 \<and> take 2 market = ''0x'' \<and>
    (\<exists>n < 2 ^ 256. read_base 16 (drop 2 market) = Some n \<and>
       big_int_set_string (trim_prefix (trim_prefix (ob_Market book) ''0x'') ''0X'') 16 = Some (int n)) \<and>
    normalizeOrderBookHashBytes32 market = Inr market \<and>
    GetOrderBookSHA256Hash marshal sha256 (book\<lparr>ob_Market := market', ob_AssetID := asset'\<rparr>) =
      GetOrderBookSHA256Hash marshal sha256 book"
proof -
  obtain n where n: "n < 2 ^ 256" "big_int_set_string (trim_prefix (trim_prefix (ob_Market book) ''0x'') ''0X'') 16 = Some (int n)"
    "market = hex064 n"
    using assms(1) by (auto simp: normalizeOrderBookHashBytes32_def Let_def split: if_splits elim!: uint256_or_Inr)
  have "GetOrderBookSHA256Hash marshal sha256 (book\<lparr>ob_Market := market', ob_AssetID := asset'\<rparr>) =
      GetOrderBookSHA256Hash marshal sha256 book"
    using assms by (simp add: GetOrderBookSHA256Hash_def generateOrderBookSHA256Hash_def)
  then show ?thesis using n hex064_facts [OF n(1)] bytes32_canonical [OF n(1)] by blast
qed

theorem book_hash_canonical_witness:
  "GetOrderBookSHA256Hash (\<lambda>_. Inr [1]) id (demo_book\<lparr>ob_Market := ''0X00c0'', ob_AssetID := '' 0x6f''\<rparr>) =
   GetOrderBookSHA256Hash (\<lambda>_. Inr [1]) id demo_book \<and> length (projr (normalizeOrderBookHashBytes32 ''0xc0'')) = 66"
proof -
  have a: "normalizeOrderBookHashBytes32 (ob_Market demo_book) = Inr (hex064 192)"
    "normalizeOrderBookHashAssetID (ob_AssetID demo_book) = Inr (hex064 111)"
    "normalizeOrderBookHashBytes32 ''0X00c0'' = Inr (hex064 192)" "normalizeOrderBookHashAssetID '' 0x6f'' = Inr (hex064 111)"
    "normalizeOrderBookHashBytes32 ''0xc0'' = Inr (hex064 192)"
    by code_simp+
  show ?thesis using book_hash_canonical [OF a(1-4), of "\<lambda>_. Inr [1]" id] a(5) by simp
qed

end
