(* ===== verification/Heartbeat.thy ===== *)
theory Heartbeat
  imports Prelude
begin

text \<open>
  \<open>clob/heartbeat.go\<close>: the life cycle of the background loop that posts order heartbeats.  The fields behind \<open>heartbeatMu\<close> are the
  record \<open>heartbeat\<close>; each critical section is a function on it.  A loop is identified by its \<open>done\<close> channel, and so is the cancel function of
  its context.  The goroutines (the loops, and the callers that stop or close) interleave in the step relation \<open>hb_step\<close>; what the
  service answers to a heartbeat is free.
\<close>

section \<open>Critical sections\<close>

definition ErrHeartbeatsActive :: go_error where
  "ErrHeartbeatsActive = Sentinel ''heartbeats already active''"

definition ErrHeartbeatsClosed :: go_error where
  "ErrHeartbeatsClosed = Sentinel ''authenticated client is closed''"

record heartbeat =
  heartbeatID :: string
  heartbeatInterval :: int
  heartbeatCancel :: "nat option"
  heartbeatDone :: "nat option"
  heartbeatClosed :: bool

definition HeartbeatsActive :: "heartbeat \<Rightarrow> bool" where
  "HeartbeatsActive c \<longleftrightarrow> heartbeatCancel c \<noteq> None"

text \<open>\<open>StartHeartbeats\<close> with the state of the parent context and the identity of the new channel.\<close>

definition StartHeartbeats :: "go_error option \<Rightarrow> nat \<Rightarrow> heartbeat \<Rightarrow> unit result \<times> heartbeat" where
  "StartHeartbeats parentErr done c =
     (case parentErr of
        Some err \<Rightarrow> (Inl err, c)
      | None \<Rightarrow>
          if heartbeatClosed c then (Inl ErrHeartbeatsClosed, c)
          else if heartbeatCancel c \<noteq> None then (Inl ErrHeartbeatsActive, c)
          else (Inr (), c\<lparr>heartbeatInterval := (if heartbeatInterval c \<le> 0 then 5000000000 else heartbeatInterval c),
                          heartbeatCancel := Some done, heartbeatDone := Some done\<rparr>))"

text \<open>What \<open>StopHeartbeats\<close> and \<open>closeHeartbeats\<close> cancel and wait for; nothing if a field is nil.\<close>

definition joinTarget :: "heartbeat \<Rightarrow> (nat \<times> nat) option" where
  "joinTarget c =
     (case (heartbeatCancel c, heartbeatDone c) of (Some cancel, Some done) \<Rightarrow> Some (cancel, done) | _ \<Rightarrow> None)"

definition closeBegin :: "heartbeat \<Rightarrow> heartbeat" where
  "closeBegin c = c\<lparr>heartbeatClosed := True\<rparr>"

text \<open>The deferred function of the loop, apart from closing the channel.\<close>

definition loopDefer :: "nat \<Rightarrow> heartbeat \<Rightarrow> heartbeat" where
  "loopDefer done c =
     (if heartbeatDone c = Some done then c\<lparr>heartbeatCancel := None, heartbeatDone := None\<rparr> else c)"

definition adoptHeartbeatID :: "nat \<Rightarrow> string \<Rightarrow> heartbeat \<Rightarrow> heartbeat" where
  "adoptHeartbeatID done hid c = (if heartbeatDone c = Some done then c\<lparr>heartbeatID := hid\<rparr> else c)"

section \<open>The system\<close>

text \<open>
  Where a loop is: at the \<open>select\<close>; in \<open>PostHeartbeat\<close> with an ID; about to adopt the ID of a mismatch and post again; in
  the second \<open>PostHeartbeat\<close>; about to adopt the next ID; about to run the deferred function; finished.
\<close>

datatype loop_state =
    Selecting | Sending string | Mismatched string | Resending string | Rotating string | Leaving | Gone

text \<open>A caller of \<open>StopHeartbeats\<close> (not closing) or \<open>closeHeartbeats\<close> after its critical section: before and after it calls \<open>cancel\<close>.\<close>

datatype waiter = Canceling nat (w_done: nat) (w_closing: bool) | Waiting (w_done: nat) (w_closing: bool)

text \<open>
  \<open>hs_waits i\<close> is where caller \<open>i\<close> is.  Two fields are history: \<open>hs_reported\<close> is the last ID a loop took
  from an answer of the service, \<open>hs_joined\<close> says that some \<open>Close\<close> or \<open>Shutdown\<close> has returned nil.
\<close>

record hb_sys =
  hs_client :: heartbeat
  hs_loops :: "nat \<Rightarrow> loop_state option"
  hs_canceled :: "nat set"
  hs_doneClosed :: "nat set"
  hs_next :: nat
  hs_waits :: "nat \<Rightarrow> waiter option"
  hs_reported :: string
  hs_joined :: bool

definition set_loop :: "nat \<Rightarrow> loop_state \<Rightarrow> hb_sys \<Rightarrow> hb_sys" where
  "set_loop d l s = s\<lparr>hs_loops := (hs_loops s)(d \<mapsto> l)\<rparr>"

inductive loop_step :: "nat \<Rightarrow> hb_sys \<Rightarrow> hb_sys \<Rightarrow> bool" where
  ctx_done: "hs_loops s d = Some Selecting \<Longrightarrow> d \<in> hs_canceled s \<Longrightarrow> loop_step d s (set_loop d Leaving s)"
| ticker: "hs_loops s d = Some Selecting \<Longrightarrow> loop_step d s (set_loop d (Sending (heartbeatID (hs_client s))) s)"
| sent: "hs_loops s d = Some (Sending h) \<or> hs_loops s d = Some (Resending h) \<Longrightarrow> hid \<noteq> [] \<Longrightarrow>
    loop_step d s (set_loop d (Rotating hid) (s\<lparr>hs_reported := hid\<rparr>))"
| sent_no_id: "hs_loops s d = Some (Sending h) \<or> hs_loops s d = Some (Resending h) \<Longrightarrow>
    loop_step d s (set_loop d Selecting s)"
| failed_canceled: "hs_loops s d = Some (Sending h) \<or> hs_loops s d = Some (Resending h) \<Longrightarrow> d \<in> hs_canceled s \<Longrightarrow>
    loop_step d s (set_loop d Leaving s)"
| mismatch: "hs_loops s d = Some (Sending h) \<Longrightarrow> d \<notin> hs_canceled s \<Longrightarrow>
    loop_step d s (set_loop d (Mismatched hid) (s\<lparr>hs_reported := hid\<rparr>))"
| failed: "hs_loops s d = Some (Sending h) \<or> hs_loops s d = Some (Resending h) \<Longrightarrow> d \<notin> hs_canceled s \<Longrightarrow>
    loop_step d s (set_loop d Selecting s)"
| retry: "hs_loops s d = Some (Mismatched hid) \<Longrightarrow>
    loop_step d s (set_loop d (Resending hid) (s\<lparr>hs_client := adoptHeartbeatID d hid (hs_client s)\<rparr>))"
| rotate: "hs_loops s d = Some (Rotating hid) \<Longrightarrow>
    loop_step d s (set_loop d Selecting (s\<lparr>hs_client := adoptHeartbeatID d hid (hs_client s)\<rparr>))"
| finish: "hs_loops s d = Some Leaving \<Longrightarrow>
    loop_step d s (set_loop d Gone (s\<lparr>hs_client := loopDefer d (hs_client s), hs_doneClosed := insert d (hs_doneClosed s)\<rparr>))"

inductive hb_step :: "hb_sys \<Rightarrow> hb_sys \<Rightarrow> bool" where
  start: "StartHeartbeats None (hs_next s) (hs_client s) = (Inr (), c) \<Longrightarrow>
    hb_step s (set_loop (hs_next s) Selecting (s\<lparr>hs_client := c, hs_next := Suc (hs_next s)\<rparr>))"
| start_fails: "StartHeartbeats parentErr (hs_next s) (hs_client s) = (Inl err, c) \<Longrightarrow> hb_step s (s\<lparr>hs_client := c\<rparr>)"
| parent_done: "hb_step s (s\<lparr>hs_canceled := insert d (hs_canceled s)\<rparr>)"
| stop: "hs_waits s i = None \<Longrightarrow> joinTarget (hs_client s) = Some (cancel, done) \<Longrightarrow>
    hb_step s (s\<lparr>hs_waits := (hs_waits s)(i \<mapsto> Canceling cancel done False)\<rparr>)"
| close: "hs_waits s i = None \<Longrightarrow> joinTarget (hs_client s) = Some (cancel, done) \<Longrightarrow>
    hb_step s (s\<lparr>hs_client := closeBegin (hs_client s), hs_waits := (hs_waits s)(i \<mapsto> Canceling cancel done True)\<rparr>)"
| cancels: "hs_waits s i = Some (Canceling cancel done closing) \<Longrightarrow>
    hb_step s (s\<lparr>hs_canceled := insert cancel (hs_canceled s), hs_waits := (hs_waits s)(i \<mapsto> Waiting done closing)\<rparr>)"
| close_idle: "joinTarget (hs_client s) = None \<Longrightarrow>
    hb_step s (s\<lparr>hs_client := closeBegin (hs_client s), hs_joined := True\<rparr>)"
| joined: "hs_waits s i = Some (Waiting done closing) \<Longrightarrow> done \<in> hs_doneClosed s \<Longrightarrow>
    hb_step s (s\<lparr>hs_waits := (hs_waits s)(i := None), hs_joined := (hs_joined s \<or> closing)\<rparr>)"
| wait_expired: "hs_waits s i = Some (Waiting done closing) \<Longrightarrow> hb_step s (s\<lparr>hs_waits := (hs_waits s)(i := None)\<rparr>)"
| loop: "loop_step d s t \<Longrightarrow> hb_step s t"

inductive_cases hb_stepE: "hb_step s t"
inductive_cases loop_stepE: "loop_step d s t"

definition hb_init :: "hb_sys \<Rightarrow> bool" where
  "hb_init s \<longleftrightarrow> heartbeatCancel (hs_client s) = None \<and> heartbeatDone (hs_client s) = None \<and> \<not> heartbeatClosed (hs_client s) \<and>
     hs_loops s = Map.empty \<and> hs_doneClosed s = {} \<and> hs_waits s = Map.empty \<and>
     hs_reported s = heartbeatID (hs_client s) \<and> \<not> hs_joined s"

definition hb_reachable :: "hb_sys \<Rightarrow> bool" where
  "hb_reachable t \<longleftrightarrow> (\<exists>s. hb_init s \<and> hb_step\<^sup>*\<^sup>* s t)"

section \<open>Invariant\<close>

text \<open>What the client's ID and the last reported ID are while the registered loop is in a state.\<close>

fun loop_ids :: "loop_state \<Rightarrow> string \<Rightarrow> string \<Rightarrow> bool" where
  "loop_ids Gone current reported \<longleftrightarrow> False"
| "loop_ids (Mismatched hid) current reported \<longleftrightarrow> reported = hid"
| "loop_ids (Rotating hid) current reported \<longleftrightarrow> reported = hid"
| "loop_ids (Sending h) current reported \<longleftrightarrow> h = current \<and> current = reported"
| "loop_ids (Resending h) current reported \<longleftrightarrow> h = current \<and> current = reported"
| "loop_ids _ current reported \<longleftrightarrow> current = reported"

text \<open>
  Every loop but the registered one is finished, and the registered one is not.  A caller that waits in a close waits for the
  registered loop, and once a close has returned there is none.
\<close>

definition hb_inv :: "hb_sys \<Rightarrow> bool" where
  "hb_inv s \<longleftrightarrow>
     heartbeatCancel (hs_client s) = heartbeatDone (hs_client s) \<and>
     (\<forall>d. heartbeatDone (hs_client s) \<noteq> Some d \<longrightarrow> hs_loops s d = None \<or> hs_loops s d = Some Gone) \<and>
     (heartbeatDone (hs_client s) = None \<longrightarrow> heartbeatID (hs_client s) = hs_reported s) \<and>
     (\<forall>d. heartbeatDone (hs_client s) = Some d \<longrightarrow>
        (\<exists>l. hs_loops s d = Some l \<and> loop_ids l (heartbeatID (hs_client s)) (hs_reported s))) \<and>
     (\<forall>d \<ge> hs_next s. hs_loops s d = None) \<and>
     (\<forall>d \<in> hs_doneClosed s. hs_loops s d = Some Gone) \<and>
     (\<forall>i w. hs_waits s i = Some w \<longrightarrow> w_closing w \<longrightarrow> heartbeatClosed (hs_client s) \<and>
        (heartbeatDone (hs_client s) = None \<or> heartbeatDone (hs_client s) = Some (w_done w))) \<and>
     (hs_joined s \<longrightarrow> heartbeatClosed (hs_client s) \<and> heartbeatDone (hs_client s) = None)"

lemma hb_inv_init: "hb_init s \<Longrightarrow> hb_inv s"
  by (simp add: hb_init_def hb_inv_def)

definition live :: "hb_sys \<Rightarrow> nat \<Rightarrow> bool" where
  "live s d \<longleftrightarrow> (\<exists>l. hs_loops s d = Some l \<and> l \<noteq> Gone)"

lemma inv_registered:
  assumes "hb_inv s" "live s d"
  shows "heartbeatDone (hs_client s) = Some d" "d < hs_next s" "d \<notin> hs_doneClosed s"
proof -
  obtain l where l: "hs_loops s d = Some l" "l \<noteq> Gone" using assms(2) by (auto simp: live_def)
  show "heartbeatDone (hs_client s) = Some d" using assms(1) l unfolding hb_inv_def by fastforce
  show "d < hs_next s" using assms(1) l unfolding hb_inv_def by (metis not_less option.distinct(1))
  show "d \<notin> hs_doneClosed s" using assms(1) l unfolding hb_inv_def by auto
qed

lemma inv_loop_ids:
  assumes "hb_inv s" "hs_loops s d = Some l" "l \<noteq> Gone"
  shows "loop_ids l (heartbeatID (hs_client s)) (hs_reported s)"
proof -
  have "heartbeatDone (hs_client s) = Some d" using inv_registered(1) [OF assms(1)] assms(2,3) by (auto simp: live_def)
  then show ?thesis using assms unfolding hb_inv_def by auto
qed

lemma inv_waits:
  assumes "hb_inv s" "hs_waits s i = Some w" "w_closing w"
  shows "heartbeatClosed (hs_client s)"
    "heartbeatDone (hs_client s) = None \<or> heartbeatDone (hs_client s) = Some (w_done w)"
  using assms unfolding hb_inv_def by blast+

text \<open>A step of the registered loop that neither finishes nor changes the registration.\<close>

lemma inv_loop_move:
  assumes "hb_inv s" "live s d" "hs_loops t = (hs_loops s)(d \<mapsto> l)" "loop_ids l (heartbeatID (hs_client t)) (hs_reported t)"
    and "heartbeatCancel (hs_client t) = heartbeatCancel (hs_client s)" "heartbeatDone (hs_client t) = heartbeatDone (hs_client s)"
    "heartbeatClosed (hs_client t) = heartbeatClosed (hs_client s)"
    and "hs_doneClosed t = hs_doneClosed s" "hs_next t = hs_next s" "hs_waits t = hs_waits s" "hs_joined t = hs_joined s"
  shows "hb_inv t"
proof -
  note r = inv_registered [OF assms(1,2)]
  have "l \<noteq> Gone" using assms(4) by auto
  then show ?thesis using assms(1,4) r unfolding hb_inv_def assms(3,5-11) by auto
qed

lemmas loop_move_simps = set_loop_def adoptHeartbeatID_def live_def

lemma loop_step_inv:
  assumes "loop_step d s t" "hb_inv s"
  shows "hb_inv t"
  using assms(1)
proof cases
  case finish
  then have "live s d" by (simp add: live_def)
  note r = inv_registered [OF assms(2) this]
  have "heartbeatID (hs_client s) = hs_reported s" using inv_loop_ids [OF assms(2) finish(2)] by simp
  then show ?thesis
    using assms(2) r unfolding finish(1) hb_inv_def set_loop_def loopDefer_def by auto
next
  case (retry hid)
  then show ?thesis
    using inv_registered(1) [OF assms(2), of d] inv_loop_ids [OF assms(2) retry(2)]
    by (intro inv_loop_move [OF assms(2), of d _ "Resending hid"]) (auto simp: loop_move_simps)
next
  case (rotate hid)
  then show ?thesis
    using inv_registered(1) [OF assms(2), of d] inv_loop_ids [OF assms(2) rotate(2)]
    by (intro inv_loop_move [OF assms(2), of d _ Selecting]) (auto simp: loop_move_simps)
qed (use inv_loop_ids [OF assms(2), of d] in \<open>auto simp: loop_move_simps intro: inv_loop_move [OF assms(2), of d]\<close>)

lemma StartHeartbeats_Inr:
  "StartHeartbeats p d c = (Inr (), c') \<longleftrightarrow> p = None \<and> \<not> heartbeatClosed c \<and> heartbeatCancel c = None \<and>
     c' = c\<lparr>heartbeatInterval := (if heartbeatInterval c \<le> 0 then 5000000000 else heartbeatInterval c),
            heartbeatCancel := Some d, heartbeatDone := Some d\<rparr>"
  by (auto simp: StartHeartbeats_def split: option.splits)

lemma StartHeartbeats_Inl: "StartHeartbeats p d c = (Inl e, c') \<Longrightarrow> c' = c"
  by (auto simp: StartHeartbeats_def split: option.splits if_splits)

lemma joinTarget_Some: "hb_inv s \<Longrightarrow> joinTarget (hs_client s) = Some (k, d) \<Longrightarrow> heartbeatDone (hs_client s) = Some d \<and> k = d"
  by (auto simp: joinTarget_def hb_inv_def split: option.splits)

lemma joinTarget_None: "hb_inv s \<Longrightarrow> joinTarget (hs_client s) = None \<Longrightarrow> heartbeatDone (hs_client s) = None"
  by (auto simp: joinTarget_def hb_inv_def split: option.splits)

lemma hb_step_inv:
  assumes "hb_step s t" "hb_inv s"
  shows "hb_inv t"
  using assms(1)
proof cases
  case (start c)
  from start(2) have c: "heartbeatCancel (hs_client s) = None" "\<not> heartbeatClosed (hs_client s)"
    "heartbeatDone c = Some (hs_next s)" "heartbeatCancel c = Some (hs_next s)" "heartbeatID c = heartbeatID (hs_client s)"
    "heartbeatClosed c = heartbeatClosed (hs_client s)" by (auto simp: StartHeartbeats_Inr)
  have n: "hs_loops s (hs_next s) = None" "hs_next s \<notin> hs_doneClosed s" using assms(2) unfolding hb_inv_def by auto
  show ?thesis using assms(2) c n unfolding start(1) hb_inv_def set_loop_def by auto
next
  case (start_fails p e c)
  then show ?thesis using StartHeartbeats_Inl [OF start_fails(2)] assms(2) by simp
next
  case (parent_done d)
  then show ?thesis using assms(2) unfolding parent_done(1) hb_inv_def by auto
next
  case (stop i k d)
  then show ?thesis using assms(2) unfolding stop(1) hb_inv_def by auto
next
  case (cancels i k d closing)
  have "closing \<Longrightarrow> heartbeatDone (hs_client s) = None \<or> heartbeatDone (hs_client s) = Some d"
    using inv_waits(2) [OF assms(2) cancels(2)] by simp
  then show ?thesis using assms(2) inv_waits(1) [OF assms(2) cancels(2)] unfolding cancels(1) hb_inv_def by auto
next
  case (close i k d)
  have "heartbeatDone (hs_client s) = Some d" using joinTarget_Some [OF assms(2) close(3)] by simp
  then show ?thesis using assms(2) unfolding close(1) hb_inv_def closeBegin_def by auto
next
  case close_idle
  have "heartbeatDone (hs_client s) = None" by (rule joinTarget_None [OF assms(2) close_idle(2)])
  then show ?thesis using assms(2) unfolding close_idle(1) hb_inv_def closeBegin_def by auto
next
  case (joined i d closing)
  have g: "hs_loops s d = Some Gone" using assms(2) joined(3) by (simp add: hb_inv_def)
  have "heartbeatClosed (hs_client s) \<and> heartbeatDone (hs_client s) = None" if closing
  proof -
    have w: "heartbeatClosed (hs_client s)" "heartbeatDone (hs_client s) = None \<or> heartbeatDone (hs_client s) = Some d"
      using inv_waits [OF assms(2) joined(2)] that by simp_all
    have "heartbeatDone (hs_client s) \<noteq> Some d" using assms(2) g unfolding hb_inv_def by auto
    then show ?thesis using w by auto
  qed
  then show ?thesis using assms(2) unfolding joined(1) hb_inv_def by auto
next
  case (wait_expired i d closing)
  then show ?thesis using assms(2) unfolding wait_expired(1) hb_inv_def by auto
next
  case (loop d)
  then show ?thesis using loop_step_inv assms(2) by blast
qed

lemma hb_steps_inv: "hb_step\<^sup>*\<^sup>* s t \<Longrightarrow> hb_inv s \<Longrightarrow> hb_inv t"
  by (induction rule: rtranclp_induct) (auto intro: hb_step_inv)

lemma hb_reachable_inv: "hb_reachable s \<Longrightarrow> hb_inv s"
  unfolding hb_reachable_def using hb_steps_inv hb_inv_init by blast

lemma hb_joined_stays: "hb_step s t \<Longrightarrow> hs_joined s \<Longrightarrow> hs_joined t"
  by (erule hb_stepE) (auto elim!: loop_stepE simp: set_loop_def)

section \<open>Stopping\<close>

text \<open>From every state a loop is in, its own steps alone lead out once its context has ended.\<close>

lemma loop_step_canceled: "loop_step d s t \<Longrightarrow> hs_canceled t = hs_canceled s"
  by (erule loop_stepE) (simp_all add: set_loop_def)

lemma leaving_finishes:
  assumes "hs_loops s d = Some Leaving"
  shows "\<exists>t. (loop_step d)\<^sup>*\<^sup>* s t \<and> d \<in> hs_doneClosed t"
  using loop_step.finish [OF assms] by (intro exI conjI, rule r_into_rtranclp) (auto simp: set_loop_def)

lemma loop_then:
  assumes "loop_step d s s'" "\<exists>t. (loop_step d)\<^sup>*\<^sup>* s' t \<and> d \<in> hs_doneClosed t"
  shows "\<exists>t. (loop_step d)\<^sup>*\<^sup>* s t \<and> d \<in> hs_doneClosed t"
  using assms by (meson converse_rtranclp_into_rtranclp)

lemma canceled_finishes:
  assumes "live s d" "d \<in> hs_canceled s"
  shows "\<exists>t. (loop_step d)\<^sup>*\<^sup>* s t \<and> d \<in> hs_doneClosed t"
proof -
  have sel: "\<exists>t. (loop_step d)\<^sup>*\<^sup>* u t \<and> d \<in> hs_doneClosed t" if "hs_loops u d = Some Selecting" "d \<in> hs_canceled u" for u
    by (rule loop_then [OF loop_step.ctx_done [OF that]], rule leaving_finishes) (simp add: set_loop_def)
  have post: "\<exists>t. (loop_step d)\<^sup>*\<^sup>* u t \<and> d \<in> hs_doneClosed t"
    if "hs_loops u d = Some (Sending h) \<or> hs_loops u d = Some (Resending h)" "d \<in> hs_canceled u" for u h
    by (rule loop_then [OF loop_step.failed_canceled [OF that]], rule leaving_finishes) (simp add: set_loop_def)
  obtain l where l: "hs_loops s d = Some l" "l \<noteq> Gone" using assms(1) by (auto simp: live_def)
  show ?thesis
  proof (cases l)
    case (Mismatched hid)
    show ?thesis
      by (rule loop_then [OF loop_step.retry], use l Mismatched in simp, rule post [of _ hid])
        (use assms(2) in \<open>simp_all add: set_loop_def\<close>)
  next
    case (Rotating hid)
    show ?thesis
      by (rule loop_then [OF loop_step.rotate], use l Rotating in simp, rule sel) (use assms(2) in \<open>simp_all add: set_loop_def\<close>)
  qed (use l assms(2) sel post leaving_finishes in auto)
qed

section \<open>Properties\<close>

text \<open>
  C16: at most one heartbeat loop exists at any time, in every interleaving of starts, stops, closes and loops; it is the registered one, so
  an ID it learns is never dropped by the check in \<open>adoptHeartbeatID\<close>, and the client reports itself active exactly while it runs.
\<close>

theorem heartbeat_single_loop:
  assumes "hb_reachable s"
  shows "(\<forall>d d'. live s d \<longrightarrow> live s d' \<longrightarrow> d = d') \<and> (\<forall>d. live s d \<longrightarrow> heartbeatDone (hs_client s) = Some d) \<and>
    (HeartbeatsActive (hs_client s) \<longleftrightarrow> (\<exists>d. live s d))"
proof -
  note inv = hb_reachable_inv [OF assms]
  note r = inv_registered(1) [OF inv]
  have "HeartbeatsActive (hs_client s) \<Longrightarrow> \<exists>d. live s d"
    using inv unfolding hb_inv_def HeartbeatsActive_def live_def by (metis loop_ids.simps(1) not_None_eq)
  moreover have "live s d \<Longrightarrow> HeartbeatsActive (hs_client s)" for d
    using r [of d] inv by (simp add: HeartbeatsActive_def hb_inv_def)
  moreover have "live s d \<Longrightarrow> live s d' \<Longrightarrow> d = d'" for d d'
    using r [of d] r [of d'] by simp
  ultimately show ?thesis using r by blast
qed

text \<open>
  Every heartbeat carries the ID the service last reported to the client (the initial one before the first answer): the ID
  of a heartbeat in flight, first or repeated, is the last one a loop took from an answer.
\<close>

theorem heartbeat_id_current:
  assumes "hb_reachable s" "hs_loops s d = Some (Sending h) \<or> hs_loops s d = Some (Resending h)"
  shows "h = hs_reported s \<and> h = heartbeatID (hs_client s)"
  using assms(2) inv_loop_ids [OF hb_reachable_inv [OF assms(1)], of d] by auto

text \<open>
  Closing is final.  After a \<open>Close\<close> or \<open>Shutdown\<close> that returned nil no heartbeat loop runs in any later state, and starting one
  fails.
\<close>

theorem close_is_final:
  assumes "hb_reachable s" "hs_joined s" "hb_step\<^sup>*\<^sup>* s t"
  shows "(\<forall>d. \<not> live t d) \<and> StartHeartbeats None n (hs_client t) = (Inl ErrHeartbeatsClosed, hs_client t)"
proof -
  have "hb_inv t" by (rule hb_steps_inv [OF assms(3) hb_reachable_inv [OF assms(1)]])
  moreover have "hs_joined t" using assms(3,2) by (induction rule: rtranclp_induct) (auto intro: hb_joined_stays)
  ultimately have "heartbeatClosed (hs_client t)" "heartbeatDone (hs_client t) = None" by (simp_all add: hb_inv_def)
  then show ?thesis using inv_registered(1) [OF \<open>hb_inv t\<close>] by (auto simp: StartHeartbeats_def)
qed

text \<open>
  Stopping always can complete: whenever a running loop has been canceled, steps of that loop alone lead to a state in which its channel is
  closed, so that a caller of \<open>StopHeartbeats\<close> or \<open>Close\<close> who waits for it returns.
\<close>

theorem stop_can_complete:
  assumes "hb_reachable s" "joinTarget (hs_client s) = Some (cancel, done)" "cancel \<in> hs_canceled s"
  shows "\<exists>t. (loop_step done)\<^sup>*\<^sup>* s t \<and> done \<in> hs_doneClosed t"
proof (rule canceled_finishes)
  note inv = hb_reachable_inv [OF assms(1)]
  have "heartbeatDone (hs_client s) = Some done" "cancel = done" using joinTarget_Some [OF inv assms(2)] by auto
  then show "live s done" "done \<in> hs_canceled s"
    using inv assms(3) unfolding hb_inv_def live_def by (metis loop_ids.simps(1), simp)
qed

section \<open>A run\<close>

definition hb_start :: hb_sys where
  "hb_start = \<lparr>hs_client = \<lparr>heartbeatID = '''', heartbeatInterval = 0, heartbeatCancel = None, heartbeatDone = None,
       heartbeatClosed = False\<rparr>, hs_loops = Map.empty, hs_canceled = {}, hs_doneClosed = {}, hs_next = 0, hs_waits = Map.empty,
     hs_reported = '''', hs_joined = False\<rparr>"

text \<open>Started and posting, and then being closed.\<close>

definition hb_running :: "hb_sys" where
  "hb_running = set_loop 0 Selecting (hb_start\<lparr>hs_client := \<lparr>heartbeatID = '''', heartbeatInterval = 5000000000,
     heartbeatCancel = Some 0, heartbeatDone = Some 0, heartbeatClosed = False\<rparr>, hs_next := 1\<rparr>)"

definition hb_posting :: "hb_sys" where
  "hb_posting = set_loop 0 (Sending '''') hb_running"

definition hb_closed :: "hb_sys" where
  "hb_closed = hb_posting\<lparr>hs_client := closeBegin (hs_client hb_posting), hs_waits := (hs_waits hb_posting)(7 \<mapsto> Canceling 0 0 True)\<rparr>"

definition hb_closing :: "hb_sys" where
  "hb_closing = hb_closed\<lparr>hs_canceled := insert 0 (hs_canceled hb_closed), hs_waits := (hs_waits hb_closed)(7 \<mapsto> Waiting 0 True)\<rparr>"

lemma hb_run: "hb_step hb_start hb_running" "hb_step hb_running hb_posting" "hb_step hb_posting hb_closed" "hb_step hb_closed hb_closing"
proof -
  have "StartHeartbeats None (hs_next hb_start) (hs_client hb_start) = (Inr (), \<lparr>heartbeatID = '''', heartbeatInterval = 5000000000,
     heartbeatCancel = Some 0, heartbeatDone = Some 0, heartbeatClosed = False\<rparr>)" by (simp add: hb_start_def StartHeartbeats_def)
  from hb_step.start [OF this] show "hb_step hb_start hb_running" by (simp add: hb_running_def hb_start_def)
  have "hs_loops hb_running 0 = Some Selecting" by (simp add: hb_running_def set_loop_def)
  from hb_step.loop [OF loop_step.ticker [OF this]] show "hb_step hb_running hb_posting"
    by (simp add: hb_posting_def hb_running_def set_loop_def)
  have "hs_waits hb_posting 7 = None" "joinTarget (hs_client hb_posting) = Some (0, 0)"
    by (simp_all add: hb_posting_def hb_running_def hb_start_def set_loop_def joinTarget_def)
  from hb_step.close [OF this] show "hb_step hb_posting hb_closed" by (simp add: hb_closed_def)
  have "hs_waits hb_closed 7 = Some (Canceling 0 0 True)" by (simp add: hb_closed_def)
  from hb_step.cancels [OF this] show "hb_step hb_closed hb_closing" by (simp add: hb_closing_def)
qed

lemma hb_posting_reachable: "hb_reachable hb_posting"
  unfolding hb_reachable_def using hb_run(1,2)
  by (intro exI [of _ hb_start]) (auto simp: hb_init_def hb_start_def intro: rtranclp.rtrancl_into_rtrancl)

lemma hb_reachable_step: "hb_reachable s \<Longrightarrow> hb_step s t \<Longrightarrow> hb_reachable t"
  unfolding hb_reachable_def by (meson rtranclp.rtrancl_into_rtrancl)

theorem heartbeat_single_loop_witness: "live hb_posting 0 \<and> HeartbeatsActive (hs_client hb_posting)"
proof -
  have "live hb_posting 0" by (simp add: live_def hb_posting_def set_loop_def)
  then show ?thesis using heartbeat_single_loop [OF hb_posting_reachable] by blast
qed

theorem heartbeat_id_current_witness: "hs_loops hb_posting 0 = Some (Sending '''') \<and> '''' = hs_reported hb_posting"
proof -
  have "hs_loops hb_posting 0 = Some (Sending '''')" by (simp add: hb_posting_def set_loop_def)
  then show ?thesis using heartbeat_id_current [OF hb_posting_reachable, of 0 "''''"] by simp
qed

theorem stop_can_complete_witness: "\<exists>t. (loop_step 0)\<^sup>*\<^sup>* hb_closing t \<and> 0 \<in> hs_doneClosed t"
proof (rule stop_can_complete)
  show "hb_reachable hb_closing" by (rule hb_reachable_step [OF hb_reachable_step [OF hb_posting_reachable hb_run(3)] hb_run(4)])
  show "joinTarget (hs_client hb_closing) = Some (0, 0)" "0 \<in> hs_canceled hb_closing"
    by (simp_all add: hb_closing_def hb_closed_def hb_posting_def hb_running_def set_loop_def joinTarget_def closeBegin_def)
qed

theorem close_is_final_witness:
  "\<exists>s. hs_joined s \<and> (\<forall>d. \<not> live s d) \<and> StartHeartbeats None 1 (hs_client s) = (Inl ErrHeartbeatsClosed, hs_client s)"
proof -
  have "joinTarget (hs_client hb_start) = None" by (simp add: hb_start_def joinTarget_def)
  note step = hb_step.close_idle [OF this]
  have "hb_reachable hb_start" unfolding hb_reachable_def by (intro exI [of _ hb_start]) (simp add: hb_init_def hb_start_def)
  from close_is_final [OF hb_reachable_step [OF this step] _ rtranclp.rtrancl_refl] show ?thesis
    by (intro exI [of _ "hb_start\<lparr>hs_client := closeBegin (hs_client hb_start), hs_joined := True\<rparr>"]) simp
qed

end
