(* ===== verification/Wallets.thy ===== *)
theory Wallets
  imports OrderSigning Fixtures
begin

text \<open>
  Wallet addresses: \<open>clob/wallets.go\<close> (derivation of proxy, Safe and deposit wallets), \<open>clob/wallet_identity.go\<close> and
  \<open>clob/wallet_discovery.go\<close> (who owns a deposit wallet, which one is in use), the wallet part of \<open>clob/client.go\<close> and
  \<open>clob/contracts.go\<close>, and \<open>internal/polyrelay/session_signature.go\<close>.  An address is its 20 bytes.  The functions of go-ethereum
  that the code calls are a parameter, the record \<open>eth_ops\<close>; the locale \<open>ethereum\<close> has their documented behaviour.
\<close>

section \<open>go-ethereum\<close>

type_synonym address = "byte list"

datatype abi_value = AbiAddress address | AbiBytes32 "byte list" | AbiBytes "byte list"

record eth_ops =
  eth_fromHex :: "string \<Rightarrow> byte list"
  eth_encode :: "byte list \<Rightarrow> string"
  eth_decode :: "string \<Rightarrow> byte list result"
  eth_isHexAddress :: "string \<Rightarrow> bool"
  eth_hexToAddress :: "string \<Rightarrow> address"
  eth_hexToHash :: "string \<Rightarrow> byte list"
  eth_addressHex :: "address \<Rightarrow> string"
  eth_keccak256 :: "byte list \<Rightarrow> byte list"
  eth_createAddress2 :: "address \<Rightarrow> byte list \<Rightarrow> byte list \<Rightarrow> address"
  eth_pack :: "abi_value list \<Rightarrow> byte list result"

definition noAddress :: address where
  "noAddress = replicate 20 0"

text \<open>A number as \<open>n\<close> bytes, most significant first.\<close>

fun big_endian :: "nat \<Rightarrow> nat \<Rightarrow> byte list" where
  "big_endian 0 v = []"
| "big_endian (Suc n) v = big_endian n (v div 256) @ [of_nat (v mod 256)]"

fun read_big_endian :: "byte list \<Rightarrow> nat" where
  "read_big_endian bs = foldl (\<lambda>v b. 256 * v + unat b) 0 bs"

declare read_big_endian.simps [simp del]

text \<open>Solidity's encoding of dynamic bytes: the length and the bytes, padded to a multiple of 32.\<close>

definition abi_tail :: "byte list \<Rightarrow> byte list" where
  "abi_tail bs = big_endian 32 (length bs) @ bs @ replicate ((32 - length bs mod 32) mod 32) 0"

locale ethereum =
  fixes X :: eth_ops
  assumes fromHex: "unhex ds = Some bs \<Longrightarrow> eth_fromHex X (''0x'' @ ds) = bs"
    and encode: "eth_encode X bs = ''0x'' @ hex_encode bs"
    and decode: "bs \<noteq> [] \<Longrightarrow> eth_decode X (''0x'' @ hex_encode bs) = Inr bs"
    and hexToAddress: "unhex ds = Some a \<Longrightarrow> length a = 20 \<Longrightarrow> eth_hexToAddress X (''0x'' @ ds) = a"
    and hexToAddress_length: "length (eth_hexToAddress X s) = 20"
    and hexToHash: "unhex ds = Some h \<Longrightarrow> length h = 32 \<Longrightarrow> eth_hexToHash X (''0x'' @ ds) = h"
    and addressHex: "length a = 20 \<Longrightarrow> eth_hexToAddress X (eth_addressHex X a) = a"
    and addressHex_length: "length a = 20 \<Longrightarrow> length (eth_addressHex X a) = 42"
    and keccak256_length: "length (eth_keccak256 X bs) = 32"
    and createAddress2_length: "length (eth_createAddress2 X f salt h) = 20"
    and pack_address: "length a = 20 \<Longrightarrow> length w = 32 \<Longrightarrow>
      eth_pack X [AbiAddress a, AbiBytes32 w] = Inr (replicate 12 0 @ a @ w)"
    and pack_bytes: "length v = 32 \<Longrightarrow> length w = 32 \<Longrightarrow> length bs < 2 ^ 256 \<Longrightarrow>
      eth_pack X [AbiBytes32 v, AbiBytes32 w, AbiBytes bs] = Inr (v @ w @ big_endian 32 96 @ abi_tail bs)"

section \<open>Configuration\<close>

record walletConfig =
  wc_ProxyFactory :: string
  wc_SafeFactory :: string
  wc_DepositWalletFactory :: string
  wc_DepositWalletImplementation :: string
  wc_DepositWalletBeacon :: string
  wc_RelayHub :: string
  wc_SafeMultisend :: string

definition walletConfigs :: "int \<Rightarrow> walletConfig option" where
  "walletConfigs chain =
     (if chain = 137 then
        Some \<lparr>wc_ProxyFactory = ''0xaB45c5A4B0c941a2F231C04C3f49182e1A254052'',
              wc_SafeFactory = ''0xaacFeEa03eb1561C4e67d661e40682Bd20E3541b'',
              wc_DepositWalletFactory = ''0x00000000000Fb5C9ADea0298D729A0CB3823Cc07'',
              wc_DepositWalletImplementation = ''0x58CA52ebe0DadfdF531Cde7062e76746de4Db1eB'',
              wc_DepositWalletBeacon = ''0x7A18EDfe055488A3128f01F563e5B479D92ffc3a'',
              wc_RelayHub = ''0xD216153c06E857cD7f72665E0aF1d7D82172F494'',
              wc_SafeMultisend = ''0xA238CBeb142c10Ef7Ad8442C6D1f9E89e07e7761''\<rparr>
      else if chain = 80002 then
        Some \<lparr>wc_ProxyFactory = [], wc_SafeFactory = ''0xaacFeEa03eb1561C4e67d661e40682Bd20E3541b'',
              wc_DepositWalletFactory = [], wc_DepositWalletImplementation = [], wc_DepositWalletBeacon = [],
              wc_RelayHub = [], wc_SafeMultisend = []\<rparr>
      else None)"

definition getWalletConfig :: "int \<Rightarrow> walletConfig result" where
  "getWalletConfig chain =
     (case walletConfigs chain of None \<Rightarrow> Inl (Msg ''unsupported chain id'') | Some c \<Rightarrow> Inr c)"

definition proxyInitCodeHash :: string where
  "proxyInitCodeHash = ''0xd21df8dc65880a8606f09fe0ce3df9b8869287ab0b058be05aa9e8af6330a00b''"

definition safeInitCodeHash :: string where
  "safeInitCodeHash = ''0x2bce2127ff07fb632d16c8347c4ebf501f4841168bed00d9e6ef715ddb6fcecf''"

section \<open>Derivation\<close>

text \<open>\<open>copy\<close> into a zeroed array of 32 bytes, from the given index on.\<close>

definition copy32 :: "nat \<Rightarrow> byte list \<Rightarrow> byte list" where
  "copy32 from bs = take 32 (replicate from 0 @ bs @ replicate 32 0)"

definition computeCreate2 :: "eth_ops \<Rightarrow> address \<Rightarrow> byte list \<Rightarrow> string \<Rightarrow> address result" where
  "computeCreate2 X factory salt initCodeHashHex =
     (let initCodeHash = eth_fromHex X initCodeHashHex
      in if length initCodeHash \<noteq> 32 then Inl (Msg ''invalid init code hash length'')
         else Inr (eth_createAddress2 X factory (copy32 0 salt) initCodeHash))"

definition create2AddressInternal :: "eth_ops \<Rightarrow> string \<Rightarrow> byte list \<Rightarrow> byte list \<Rightarrow> string" where
  "create2AddressInternal X factory salt initCodeHash =
     eth_addressHex X (eth_createAddress2 X (eth_hexToAddress X factory) (copy32 0 salt) initCodeHash)"

definition isZeroAddress :: "eth_ops \<Rightarrow> string \<Rightarrow> bool" where
  "isZeroAddress X addr \<longleftrightarrow> eth_hexToAddress X addr = noAddress"

definition deriveProxyWallet :: "eth_ops \<Rightarrow> int \<Rightarrow> string \<Rightarrow> string result" where
  "deriveProxyWallet X chain signer =
     (let unsupported = Inl (Msg ''proxy wallet derivation not supported; provide an explicit funder address'')
      in case getWalletConfig chain of
           Inl _ \<Rightarrow> unsupported
         | Inr wc \<Rightarrow>
             if wc_ProxyFactory wc = [] then unsupported
             else Inr (create2AddressInternal X (wc_ProxyFactory wc) (eth_keccak256 X (eth_hexToAddress X signer))
                         (eth_hexToHash X proxyInitCodeHash)))"

definition deriveSafeWallet :: "eth_ops \<Rightarrow> int \<Rightarrow> string \<Rightarrow> string result" where
  "deriveSafeWallet X chain signer =
     (let unsupported = Inl (Msg ''safe wallet derivation not supported; provide an explicit funder address'')
      in case getWalletConfig chain of
           Inl _ \<Rightarrow> unsupported
         | Inr wc \<Rightarrow>
             if wc_SafeFactory wc = [] then unsupported
             else Inr (create2AddressInternal X (wc_SafeFactory wc) (eth_keccak256 X (copy32 12 (eth_hexToAddress X signer)))
                         (eth_hexToHash X safeInitCodeHash)))"

definition DeriveProxyWallet :: "eth_ops \<Rightarrow> address \<Rightarrow> int \<Rightarrow> address result" where
  "DeriveProxyWallet X eoa chain =
     rbind (getWalletConfig chain) (\<lambda>wc.
       if wc_ProxyFactory wc = [] then Inr noAddress
       else computeCreate2 X (eth_hexToAddress X (wc_ProxyFactory wc)) (eth_keccak256 X eoa) proxyInitCodeHash)"

definition DeriveSafeWallet :: "eth_ops \<Rightarrow> address \<Rightarrow> int \<Rightarrow> address result" where
  "DeriveSafeWallet X eoa chain =
     rbind (getWalletConfig chain) (\<lambda>wc.
       computeCreate2 X (eth_hexToAddress X (wc_SafeFactory wc)) (eth_keccak256 X (copy32 12 eoa)) safeInitCodeHash)"

definition resolveProxyFunder :: "eth_ops \<Rightarrow> int \<Rightarrow> string \<Rightarrow> string \<Rightarrow> string result" where
  "resolveProxyFunder X chain signer funder =
     (if funder \<noteq> [] then
        if isZeroAddress X funder
        then Inl (Msg ''cannot have a zero funder address with a POLY_PROXY signature type'') else Inr funder
      else deriveProxyWallet X chain signer)"

definition resolveSafeFunder :: "eth_ops \<Rightarrow> int \<Rightarrow> string \<Rightarrow> string \<Rightarrow> string result" where
  "resolveSafeFunder X chain signer funder =
     (if funder \<noteq> [] then
        if isZeroAddress X funder
        then Inl (Msg ''cannot have a zero funder address with a POLY_GNOSIS_SAFE signature type'') else Inr funder
      else deriveSafeWallet X chain signer)"

definition normalizeFunderAddress :: "eth_ops \<Rightarrow> int \<Rightarrow> string \<Rightarrow> SignatureType \<Rightarrow> string \<Rightarrow> string result" where
  "normalizeFunderAddress X chain signer sigType funder =
     (if sigType = SignatureTypeEOA then
        if funder \<noteq> [] then Inl (Msg ''cannot have a funder address with an EOA signature type'') else Inr []
      else if sigType = SignatureTypePolyProxy then resolveProxyFunder X chain signer funder
      else if sigType = SignatureTypePolyGnosisSafe then resolveSafeFunder X chain signer funder
      else if sigType = SignatureTypePoly1271 then
        if funder = [] then Inl (Msg ''deposit wallet funder address is required with Poly1271 signature type'')
        else Inr funder
      else Inl (Msg ''unsupported signature type''))"

text \<open>\<open>AsSigner\<close>: the caches are shared, the identity is set from the wallet's address and the resolved funder.\<close>

definition AsSigner ::
  "eth_ops \<Rightarrow> 'd client \<Rightarrow> address result \<Rightarrow> SignatureType \<Rightarrow> string \<Rightarrow> 'd client result" where
  "AsSigner X c wallet sigType funder =
     rbind (getContractConfig (chainID c)) (\<lambda>_.
     rbind wallet (\<lambda>signer.
     rbind (normalizeFunderAddress X (chainID c) (eth_addressHex X signer) sigType funder) (\<lambda>f.
       Inr (c\<lparr>signerAddress := eth_addressHex X signer, signatureType := sigType, funderAddress := f,
              credentialsKey := None\<rparr>))))"

section \<open>Deposit wallets\<close>

definition erc1967Const1 :: string where
  "erc1967Const1 = ''0xcc3735a920a3ca505d382bbc545af43d6000803e6038573d6000fd5b3d6000f3''"

definition erc1967Const2 :: string where
  "erc1967Const2 = ''0x5155f3363d3d373d3d363d7f360894a13ba1a3210667c828492db98dca3e2076''"

definition erc1967BeaconConst1 :: string where
  "erc1967BeaconConst1 = ''0xb3582b35133d50545afa5036515af43d6000803e604d573d6000fd5b3d6000f3''"

definition erc1967BeaconConst2 :: string where
  "erc1967BeaconConst2 = ''0x1b60e01b36527fa3f0ad74e5423aebfd80d3ef4346578335a9a72aeaee59ff6c''"

definition erc1967BeaconConst3 :: string where
  "erc1967BeaconConst3 = ''0x60195155f3363d3d373d3d363d602036600436635c60da''"

definition depositWalletArgs :: "eth_ops \<Rightarrow> address \<Rightarrow> address \<Rightarrow> byte list result" where
  "depositWalletArgs X signer factory = eth_pack X [AbiAddress factory, AbiBytes32 (copy32 12 signer)]"

definition makeERC1967Prefix :: "string \<Rightarrow> nat \<Rightarrow> byte list" where
  "makeERC1967Prefix baseHex argsLen =
     (let prefix = (case unhex baseHex of None \<Rightarrow> [] | Some bs \<Rightarrow> bs)
      in prefix[2 := prefix ! 2 + of_nat argsLen])"

text \<open>The byte codes that \<open>uupsDepositInitCodeHash\<close> and \<open>beaconDepositInitCodeHash\<close> hash.\<close>

definition uupsDepositInitCode :: "eth_ops \<Rightarrow> address \<Rightarrow> byte list \<Rightarrow> byte list" where
  "uupsDepositInitCode X impl args =
     makeERC1967Prefix ''61003d3d8160233d3973'' (length args) @ impl @ eth_fromHex X ''0x6009'' @
     eth_fromHex X erc1967Const2 @ eth_fromHex X erc1967Const1 @ args"

definition beaconDepositInitCode :: "eth_ops \<Rightarrow> address \<Rightarrow> byte list \<Rightarrow> byte list" where
  "beaconDepositInitCode X beacon args =
     makeERC1967Prefix ''6100523d8160233d3973'' (length args) @ beacon @ eth_fromHex X erc1967BeaconConst3 @
     eth_fromHex X erc1967BeaconConst2 @ eth_fromHex X erc1967BeaconConst1 @ args"

definition uupsDepositInitCodeHash :: "eth_ops \<Rightarrow> address \<Rightarrow> byte list \<Rightarrow> byte list" where
  "uupsDepositInitCodeHash X impl args = eth_keccak256 X (uupsDepositInitCode X impl args)"

definition beaconDepositInitCodeHash :: "eth_ops \<Rightarrow> address \<Rightarrow> byte list \<Rightarrow> byte list" where
  "beaconDepositInitCodeHash X beacon args = eth_keccak256 X (beaconDepositInitCode X beacon args)"

definition DeriveUUPSDepositWallet :: "eth_ops \<Rightarrow> address \<Rightarrow> int \<Rightarrow> address result" where
  "DeriveUUPSDepositWallet X signer chain =
     rbind (getWalletConfig chain) (\<lambda>wc.
       if wc_DepositWalletFactory wc = [] \<or> wc_DepositWalletImplementation wc = [] then Inr noAddress
       else let factory = eth_hexToAddress X (wc_DepositWalletFactory wc);
                impl = eth_hexToAddress X (wc_DepositWalletImplementation wc)
            in rbind (wrap_err ''derive uups deposit wallet'' (depositWalletArgs X signer factory)) (\<lambda>args.
                 computeCreate2 X factory (eth_keccak256 X args) (eth_encode X (uupsDepositInitCodeHash X impl args))))"

definition DeriveBeaconDepositWallet :: "eth_ops \<Rightarrow> address \<Rightarrow> int \<Rightarrow> address result" where
  "DeriveBeaconDepositWallet X signer chain =
     rbind (getWalletConfig chain) (\<lambda>wc.
       if wc_DepositWalletFactory wc = [] \<or> wc_DepositWalletBeacon wc = [] then Inr noAddress
       else let factory = eth_hexToAddress X (wc_DepositWalletFactory wc);
                beacon = eth_hexToAddress X (wc_DepositWalletBeacon wc)
            in rbind (wrap_err ''derive beacon deposit wallet'' (depositWalletArgs X signer factory)) (\<lambda>args.
                 computeCreate2 X factory (eth_keccak256 X args) (eth_encode X (beaconDepositInitCodeHash X beacon args))))"

section \<open>Identity\<close>

text \<open>\<open>c.signer.Address()\<close>, whose hexadecimal form is the field of the client.\<close>

definition signerBytes :: "eth_ops \<Rightarrow> 'd client \<Rightarrow> address" where
  "signerBytes X c = eth_hexToAddress X (signerAddress c)"

definition WalletAddress :: "eth_ops \<Rightarrow> 'd client \<Rightarrow> address" where
  "WalletAddress X c =
     (if signatureType c = SignatureTypeEOA then signerBytes X c else eth_hexToAddress X (funderAddress c))"

definition isDepositWalletOwner :: "eth_ops \<Rightarrow> 'd client \<Rightarrow> bool result" where
  "isDepositWalletOwner X c =
     (if signatureType c \<noteq> SignatureTypePoly1271 then Inr False
      else let wallet = WalletAddress X c
           in if \<not> eth_isHexAddress X (funderAddress c) \<or> wallet = noAddress
              then Inl (Msg ''wallet: invalid deposit wallet address'')
              else rbind (DeriveUUPSDepositWallet X (signerBytes X c) (chainID c)) (\<lambda>uups.
                   rbind (DeriveBeaconDepositWallet X (signerBytes X c) (chainID c)) (\<lambda>beacon.
                     Inr (wallet = uups \<or> wallet = beacon))))"

definition sessionMagic :: string where
  "sessionMagic = ''0x6492649264926492649264926492649264926492649264926492649264926492''"

definition WrapSessionSignature :: "eth_ops \<Rightarrow> address \<Rightarrow> byte list \<Rightarrow> byte list result" where
  "WrapSessionSignature X signer signature =
     (if signer = noAddress \<or> signature = []
      then Inl (Msg ''polyrelay: session signature requires signer and signature'')
      else rbind (eth_pack X [AbiBytes32 (copy32 12 signer), AbiBytes32 (replicate 32 0), AbiBytes signature]) (\<lambda>payload.
             Inr (payload @ eth_fromHex X sessionMagic)))"

definition wrapDepositWalletSignature :: "eth_ops \<Rightarrow> 'd client \<Rightarrow> string \<Rightarrow> string result" where
  "wrapDepositWalletSignature X c signature =
     rbind (isDepositWalletOwner X c) (\<lambda>owner.
       if owner then Inr signature
       else rbind (eth_decode X signature) (\<lambda>inner.
            rbind (WrapSessionSignature X (signerBytes X c) inner) (\<lambda>wrapped. Inr (eth_encode X wrapped))))"

section \<open>The wallet in use\<close>

text \<open>
  A failed contract call: the error, its JSON-RPC code if it has one, its text, and the text of its data if it has any.  \<open>to_lower\<close> is
  \<open>strings.ToLower\<close>, exact where the result is compared with ASCII words.
\<close>

record rpc_failure =
  rf_err :: go_error
  rf_code :: "int option"
  rf_text :: string
  rf_data :: "string option"

definition lower_char :: "char \<Rightarrow> char" where
  "lower_char c = (let n = of_char c :: nat in if 65 \<le> n \<and> n \<le> 90 then char_of (n + 32) else c)"

fun to_lower :: "string \<Rightarrow> string" where
  "to_lower [] = []"
| "to_lower (c # s) =
     (if has_prefix (c # s) (map char_of [196, 176 :: nat]) then CHR ''i'' # to_lower (drop 1 s)
      else if has_prefix (c # s) (map char_of [226, 132, 170 :: nat]) then CHR ''k'' # to_lower (drop 2 s)
      else lower_char c # to_lower s)"

fun contains :: "string \<Rightarrow> string \<Rightarrow> bool" where
  "contains s p \<longleftrightarrow> has_prefix s p \<or> (case s of [] \<Rightarrow> False | _ # t \<Rightarrow> contains t p)"

definition missingBeacon :: "rpc_failure \<Rightarrow> bool" where
  "missingBeacon f \<longleftrightarrow>
     (let message = to_lower (rf_text f) @ (case rf_data f of None \<Rightarrow> [] | Some d \<Rightarrow> '' '' @ to_lower d)
      in (case rf_code f of None \<Rightarrow> False | Some code \<Rightarrow> code \<in> {3, -32000, -32003, -32015, -32603}) \<and>
         (contains message ''revert'' \<or> contains message ''invalid opcode''))"

text \<open>\<open>dial\<close> and \<open>beacon\<close> are the results of connecting to the node and of the call of the factory.\<close>

definition DeriveCurrentDepositWallet ::
  "eth_ops \<Rightarrow> unit result \<Rightarrow> rpc_failure + byte list \<Rightarrow> 'd client \<Rightarrow> address result" where
  "DeriveCurrentDepositWallet X dial beacon c =
     rbind (getWalletConfig (chainID c)) (\<lambda>wc.
       if wc_DepositWalletFactory wc = [] then Inl (Msg ''wallet: deposit wallet unsupported on chain'')
       else rbind dial (\<lambda>_.
         case beacon of
           Inl f \<Rightarrow> if missingBeacon f then DeriveUUPSDepositWallet X (signerBytes X c) (chainID c) else Inl (rf_err f)
         | Inr data \<Rightarrow>
             if data = [] then DeriveUUPSDepositWallet X (signerBytes X c) (chainID c)
             else if length data \<noteq> 32 then Inl (Msg ''wallet: factory beacon returned a wrong number of bytes'')
             else if drop 12 data = noAddress then DeriveUUPSDepositWallet X (signerBytes X c) (chainID c)
             else DeriveBeaconDepositWallet X (signerBytes X c) (chainID c)))"

text \<open>\<open>probe\<close> is the relayer's answer about an address and an optional type; its field may be missing.\<close>

definition IsWalletDeployedAt ::
  "go_error option \<Rightarrow> (address \<Rightarrow> string option \<Rightarrow> bool option result) \<Rightarrow> address \<Rightarrow> SignatureType \<Rightarrow> bool result" where
  "IsWalletDeployedAt ctxErr probe wallet walletType =
     (case ctxErr of
        Some e \<Rightarrow> Inl e
      | None \<Rightarrow>
          if wallet = noAddress then Inl (Msg ''wallet: deployment probe requires a nonzero address'')
          else if walletType = SignatureTypeEOA then Inr False
          else if walletType \<notin> {SignatureTypePolyProxy, SignatureTypePolyGnosisSafe, SignatureTypePoly1271}
            then Inl (Msg ''wallet: unsupported signature type'')
          else rbind (probe wallet (if walletType = SignatureTypePoly1271 then Some ''WALLET'' else None)) (\<lambda>response.
                 case response of None \<Rightarrow> Inl (Msg ''wallet: deployment response is missing deployed'') | Some b \<Rightarrow> Inr b))"

definition DiscoverDepositWallet ::
  "eth_ops \<Rightarrow> go_error option \<Rightarrow> (address \<Rightarrow> string option \<Rightarrow> bool option result) \<Rightarrow> int \<Rightarrow> address \<Rightarrow> address result" where
  "DiscoverDepositWallet X ctxErr probe chain owner =
     (if owner = noAddress then Inl (Msg ''wallet: discovery requires a nonzero owner'')
      else rbind (DeriveUUPSDepositWallet X owner chain) (\<lambda>legacy.
        if legacy = noAddress then Inl (Msg ''wallet: deposit wallet unsupported on chain'')
        else rbind (IsWalletDeployedAt ctxErr probe legacy SignatureTypePoly1271) (\<lambda>deployed.
          if deployed then Inr legacy else DeriveBeaconDepositWallet X owner chain)))"

section \<open>Byte strings\<close>

lemma copy32_length [simp]: "length (copy32 from bs) = 32"
  by (simp add: copy32_def)

lemma copy32_whole [simp]: "length bs = 32 \<Longrightarrow> copy32 0 bs = bs"
  by (simp add: copy32_def)

lemma copy32_address [simp]: "length a = 20 \<Longrightarrow> copy32 12 a = replicate 12 0 @ a"
  by (simp add: copy32_def)

lemma big_endian_length [simp]: "length (big_endian n v) = n"
  by (induction n arbitrary: v) auto

lemma read_big_endian_snoc: "read_big_endian (bs @ [b]) = 256 * read_big_endian bs + unat b"
  by (simp add: read_big_endian.simps)

lemma read_big_endian_big_endian: "v < 256 ^ n \<Longrightarrow> read_big_endian (big_endian n v) = v"
proof (induction n arbitrary: v)
  case (Suc n)
  have "v div 256 < 256 ^ n" using Suc.prems by (simp add: less_mult_imp_div_less mult.commute)
  moreover have "unat (of_nat (v mod 256) :: byte) = v mod 256" by (simp add: unat_of_nat)
  ultimately show ?case using Suc.IH by (simp add: read_big_endian_snoc)
qed (simp add: read_big_endian.simps)

lemma noAddress_length [simp]: "length noAddress = 20"
  by (simp add: noAddress_def)

section \<open>Derived addresses\<close>

text \<open>The constants as bytes: only their lengths matter.\<close>

lemma constants_hex:
  "\<exists>ds bs. proxyInitCodeHash = ''0x'' @ ds \<and> unhex ds = Some bs \<and> length bs = 32"
  "\<exists>ds bs. safeInitCodeHash = ''0x'' @ ds \<and> unhex ds = Some bs \<and> length bs = 32"
  "\<exists>ds bs. erc1967Const1 = ''0x'' @ ds \<and> unhex ds = Some bs \<and> length bs = 32"
  "\<exists>ds bs. erc1967Const2 = ''0x'' @ ds \<and> unhex ds = Some bs \<and> length bs = 32"
  "\<exists>ds bs. erc1967BeaconConst1 = ''0x'' @ ds \<and> unhex ds = Some bs \<and> length bs = 32"
  "\<exists>ds bs. erc1967BeaconConst2 = ''0x'' @ ds \<and> unhex ds = Some bs \<and> length bs = 32"
  "\<exists>ds bs. erc1967BeaconConst3 = ''0x'' @ ds \<and> unhex ds = Some bs \<and> length bs = 23"
  "\<exists>ds bs. sessionMagic = ''0x'' @ ds \<and> unhex ds = Some bs \<and> length bs = 32"
proof -
  have *: "\<exists>ds bs. s = ''0x'' @ ds \<and> unhex ds = Some bs \<and> length bs = n"
    if "take 2 s = ''0x''" "map_option length (unhex (drop 2 s)) = Some n" for s n
    using that by (metis append_take_drop_id map_option_eq_Some)
  show "\<exists>ds bs. proxyInitCodeHash = ''0x'' @ ds \<and> unhex ds = Some bs \<and> length bs = 32" by (rule *; code_simp)
  show "\<exists>ds bs. safeInitCodeHash = ''0x'' @ ds \<and> unhex ds = Some bs \<and> length bs = 32" by (rule *; code_simp)
  show "\<exists>ds bs. erc1967Const1 = ''0x'' @ ds \<and> unhex ds = Some bs \<and> length bs = 32" by (rule *; code_simp)
  show "\<exists>ds bs. erc1967Const2 = ''0x'' @ ds \<and> unhex ds = Some bs \<and> length bs = 32" by (rule *; code_simp)
  show "\<exists>ds bs. erc1967BeaconConst1 = ''0x'' @ ds \<and> unhex ds = Some bs \<and> length bs = 32" by (rule *; code_simp)
  show "\<exists>ds bs. erc1967BeaconConst2 = ''0x'' @ ds \<and> unhex ds = Some bs \<and> length bs = 32" by (rule *; code_simp)
  show "\<exists>ds bs. erc1967BeaconConst3 = ''0x'' @ ds \<and> unhex ds = Some bs \<and> length bs = 23" by (rule *; code_simp)
  show "\<exists>ds bs. sessionMagic = ''0x'' @ ds \<and> unhex ds = Some bs \<and> length bs = 32" by (rule *; code_simp)
qed

lemma erc1967_prefixes:
  "makeERC1967Prefix ''61003d3d8160233d3973'' 64 = [0x61, 0, 0x7d, 0x3d, 0x81, 0x60, 0x23, 0x3d, 0x39, 0x73]"
  "makeERC1967Prefix ''6100523d8160233d3973'' 64 = [0x61, 0, 0x92, 0x3d, 0x81, 0x60, 0x23, 0x3d, 0x39, 0x73]"
  by code_simp+

text \<open>
  What an EIP-1967 init code says of itself: its first instruction pushes the size of the code to deploy (two bytes), a later one the offset it
  starts at.
\<close>

definition announces_rest :: "byte list \<Rightarrow> bool" where
  "announces_rest code \<longleftrightarrow> 6 < length code \<and> unat (code ! 6) \<le> length code \<and>
     read_big_endian (take 2 (drop 1 code)) = length code - unat (code ! 6)"

context ethereum
begin

lemma constant_lengths:
  "length (eth_fromHex X proxyInitCodeHash) = 32" "length (eth_fromHex X safeInitCodeHash) = 32"
  "length (eth_fromHex X erc1967Const1) = 32" "length (eth_fromHex X erc1967Const2) = 32"
  "length (eth_fromHex X erc1967BeaconConst1) = 32" "length (eth_fromHex X erc1967BeaconConst2) = 32"
  "length (eth_fromHex X erc1967BeaconConst3) = 23" "length (eth_fromHex X sessionMagic) = 32"
  "length (eth_fromHex X ''0x6009'') = 2"
proof -
  have "unhex ''6009'' = Some [0x60, 9]" by code_simp
  from fromHex [OF this] show "length (eth_fromHex X ''0x6009'') = 2" by simp
qed (use constants_hex fromHex in metis)+

lemma init_hashes:
  "eth_hexToHash X proxyInitCodeHash = eth_fromHex X proxyInitCodeHash"
  "eth_hexToHash X safeInitCodeHash = eth_fromHex X safeInitCodeHash"
  using constants_hex(1,2) fromHex hexToHash by metis+

lemma computeCreate2_encoded:
  "length salt = 32 \<Longrightarrow> length h = 32 \<Longrightarrow> computeCreate2 X f salt (eth_encode X h) = Inr (eth_createAddress2 X f salt h)"
  using fromHex [of "hex_encode h" h] by (simp add: computeCreate2_def encode)

lemma depositWalletArgs_run:
  "length signer = 20 \<Longrightarrow> length factory = 20 \<Longrightarrow>
     depositWalletArgs X signer factory = Inr (replicate 12 0 @ factory @ replicate 12 0 @ signer)"
  by (simp add: depositWalletArgs_def pack_address)

lemma init_codes_announce:
  assumes "length a = 20" "length args = 64"
  shows "announces_rest (uupsDepositInitCode X a args)" "announces_rest (beaconDepositInitCode X a args)"
  using assms constant_lengths
  by (simp_all add: announces_rest_def uupsDepositInitCode_def beaconDepositInitCode_def erc1967_prefixes read_big_endian.simps)

lemma deposit_derivations:
  assumes "length signer = 20"
  shows "\<exists>args factory impl beacon. args = replicate 12 0 @ factory @ replicate 12 0 @ signer \<and>
      announces_rest (uupsDepositInitCode X impl args) \<and> announces_rest (beaconDepositInitCode X beacon args) \<and>
      factory = eth_hexToAddress X ''0x00000000000Fb5C9ADea0298D729A0CB3823Cc07'' \<and>
      impl = eth_hexToAddress X ''0x58CA52ebe0DadfdF531Cde7062e76746de4Db1eB'' \<and>
      beacon = eth_hexToAddress X ''0x7A18EDfe055488A3128f01F563e5B479D92ffc3a'' \<and>
      DeriveUUPSDepositWallet X signer 137 =
        Inr (eth_createAddress2 X factory (eth_keccak256 X args) (eth_keccak256 X (uupsDepositInitCode X impl args))) \<and>
      DeriveBeaconDepositWallet X signer 137 =
        Inr (eth_createAddress2 X factory (eth_keccak256 X args) (eth_keccak256 X (beaconDepositInitCode X beacon args)))"
  using assms
  by (simp add: DeriveUUPSDepositWallet_def DeriveBeaconDepositWallet_def getWalletConfig_def walletConfigs_def
      depositWalletArgs_run hexToAddress_length computeCreate2_encoded keccak256_length uupsDepositInitCodeHash_def
      beaconDepositInitCodeHash_def init_codes_announce Let_def)

lemma WrapSessionSignature_run:
  assumes "WrapSessionSignature X signer inner = Inr w" "length signer = 20" "length inner < 2 ^ 256"
  shows "take 32 w = replicate 12 0 @ signer" "read_big_endian (take 32 (drop 96 w)) = length inner"
    "take (length inner) (drop 128 w) = inner" "drop (length w - 32) w = eth_fromHex X sessionMagic"
proof -
  have w: "w = (replicate 12 0 @ signer @ replicate 32 0 @ big_endian 32 96 @ abi_tail inner) @ eth_fromHex X sessionMagic"
    using assms by (auto simp: WrapSessionSignature_def pack_bytes rbind_def split: if_splits)
  show "take 32 w = replicate 12 0 @ signer" using assms(2) by (simp add: w)
  have "(256::nat) ^ 32 = 2 ^ 256" by simp
  then show "read_big_endian (take 32 (drop 96 w)) = length inner"
    using assms(2,3) by (simp add: w abi_tail_def read_big_endian_big_endian)
  show "take (length inner) (drop 128 w) = inner" using assms(2) by (simp add: w abi_tail_def)
  show "drop (length w - 32) w = eth_fromHex X sessionMagic" by (simp add: w constant_lengths del: append.assoc)
qed

lemma derived_funder_nonempty:
  assumes "deriveProxyWallet X chain s = Inr f \<or> deriveSafeWallet X chain s = Inr f"
  shows "f \<noteq> []"
proof -
  obtain a where "length a = 20" "f = eth_addressHex X a"
    using assms createAddress2_length
    by (auto simp: deriveProxyWallet_def deriveSafeWallet_def create2AddressInternal_def Let_def split: sum.splits if_splits)
  then show ?thesis using addressHex_length [of a] by auto
qed

end

section \<open>Properties\<close>

text \<open>
  The two ways the code derives a wallet agree: the address the configuration of a client uses for its funder (on strings) is the one the
  exported derivation gives (on addresses), for proxy wallets on Polygon and for Safe wallets on both chains; on the test chain the first reports
  that there is no proxy factory and the second the zero address.
\<close>

theorem wallet_derivations_agree:
  assumes "ethereum X" "length eoa = 20"
  shows "(\<exists>a. DeriveProxyWallet X eoa 137 = Inr a \<and> deriveProxyWallet X 137 (eth_addressHex X eoa) = Inr (eth_addressHex X a)) \<and>
    (\<forall>chain \<in> {137, 80002}. \<exists>a. DeriveSafeWallet X eoa chain = Inr a \<and>
       deriveSafeWallet X chain (eth_addressHex X eoa) = Inr (eth_addressHex X a)) \<and>
    DeriveProxyWallet X eoa 80002 = Inr noAddress \<and> (\<exists>e. deriveProxyWallet X 80002 (eth_addressHex X eoa) = Inl e)"
  using assms(2) ethereum.constant_lengths [OF assms(1)] ethereum.init_hashes [OF assms(1)] ethereum.addressHex [OF assms]
  by (simp add: DeriveProxyWallet_def deriveProxyWallet_def DeriveSafeWallet_def deriveSafeWallet_def getWalletConfig_def
      walletConfigs_def create2AddressInternal_def computeCreate2_def)

text \<open>
  On Polygon both deposit wallets of a signer are the CREATE2 addresses of the factory for the encoded pair of factory and signer, and the
  init code they are derived from is consistent: the size it announces is the number of bytes that follow the offset it announces.
\<close>

theorem deposit_wallet_derivation:
  assumes "ethereum X" "length signer = 20"
  shows "\<exists>args factory impl beacon. args = replicate 12 0 @ factory @ replicate 12 0 @ signer \<and>
      announces_rest (uupsDepositInitCode X impl args) \<and> announces_rest (beaconDepositInitCode X beacon args) \<and>
      factory = eth_hexToAddress X ''0x00000000000Fb5C9ADea0298D729A0CB3823Cc07'' \<and>
      impl = eth_hexToAddress X ''0x58CA52ebe0DadfdF531Cde7062e76746de4Db1eB'' \<and>
      beacon = eth_hexToAddress X ''0x7A18EDfe055488A3128f01F563e5B479D92ffc3a'' \<and>
      DeriveUUPSDepositWallet X signer 137 =
        Inr (eth_createAddress2 X factory (eth_keccak256 X args) (eth_keccak256 X (uupsDepositInitCode X impl args))) \<and>
      DeriveBeaconDepositWallet X signer 137 =
        Inr (eth_createAddress2 X factory (eth_keccak256 X args) (eth_keccak256 X (beaconDepositInitCode X beacon args)))"
  by (rule ethereum.deposit_derivations [OF assms])

text \<open>
  The signature of a deposit wallet's owner is sent as it is; that of a session key is wrapped so that the contract can take it apart: the
  signer's identifier, the length and the bytes of the inner signature stand at the places the encoding prescribes, and the envelope ends with
  the ERC-6492 magic bytes.
\<close>

theorem session_signature_unwraps:
  assumes "ethereum X" "inner \<noteq> []" "length inner < 2 ^ 256"
    and "wrapDepositWalletSignature X c (''0x'' @ hex_encode inner) = Inr signature"
  shows "if isDepositWalletOwner X c = Inr True then signature = ''0x'' @ hex_encode inner
    else \<exists>w. signature = ''0x'' @ hex_encode w \<and> take 32 w = replicate 12 0 @ signerBytes X c \<and>
      read_big_endian (take 32 (drop 96 w)) = length inner \<and> take (length inner) (drop 128 w) = inner \<and>
      drop (length w - 32) w = eth_fromHex X sessionMagic"
proof (cases "isDepositWalletOwner X c = Inr True")
  case False
  then obtain w where w: "WrapSessionSignature X (signerBytes X c) inner = Inr w" "signature = ''0x'' @ hex_encode w"
    using assms ethereum.decode [OF assms(1,2)] ethereum.encode [OF assms(1)]
    by (auto simp: wrapDepositWalletSignature_def go_run split: if_splits)
  have "length (signerBytes X c) = 20" using ethereum.hexToAddress_length [OF assms(1)] by (simp add: signerBytes_def)
  from ethereum.WrapSessionSignature_run [OF assms(1) w(1) this assms(3)] w(2) False show ?thesis by auto
qed (use assms(4) in \<open>simp add: wrapDepositWalletSignature_def\<close>)

text \<open>
  C21: a client made for a signer has one account: the maker its orders name is the wallet its balance and approval operations act on, and the funder is the
  one that \<open>normalizeFunderAddress\<close> gives.  It is empty for the EOA type, for which the account is the signer, and only for it: for every other type the account is the funder.
\<close>

theorem signer_identity:
  assumes "ethereum X" "length a = 20" "AsSigner X c (Inr a) sigType funder = Inr c'"
  shows "signatureType c' = sigType \<and> eth_hexToAddress X (orderMaker c') = WalletAddress X c' \<and>
    normalizeFunderAddress X (chainID c) (eth_addressHex X a) sigType funder = Inr (funderAddress c') \<and>
    (sigType = SignatureTypeEOA \<longleftrightarrow> funderAddress c' = []) \<and>
    (if sigType = SignatureTypeEOA then orderMaker c' = eth_addressHex X a \<and> WalletAddress X c' = a else orderMaker c' = funderAddress c')"
proof -
  obtain f where f: "normalizeFunderAddress X (chainID c) (eth_addressHex X a) sigType funder = Inr f"
    "c' = c\<lparr>signerAddress := eth_addressHex X a, signatureType := sigType, funderAddress := f, credentialsKey := None\<rparr>"
    using assms(3) by (auto simp: AsSigner_def go_run)
  have "sigType = SignatureTypeEOA \<longleftrightarrow> f = []"
    using f(1) ethereum.derived_funder_nonempty [OF assms(1)]
    by (auto simp: normalizeFunderAddress_def resolveProxyFunder_def resolveSafeFunder_def split: if_splits)
  then show ?thesis
    using ethereum.addressHex [OF assms(1,2)] f(1) by (auto simp: f(2) orderMaker_def WalletAddress_def signerBytes_def)
qed

section \<open>A model of the laws\<close>

definition demo_eth :: eth_ops where
  "demo_eth = (let bytes = (\<lambda>s. case unhex (drop 2 s) of Some bs \<Rightarrow> bs | None \<Rightarrow> []) in
     \<lparr>eth_fromHex = bytes, eth_encode = (\<lambda>bs. ''0x'' @ hex_encode bs), eth_decode = (\<lambda>s. Inr (bytes s)),
      eth_isHexAddress = (\<lambda>s. length (bytes s) = 20), eth_hexToAddress = (\<lambda>s. take 20 (bytes s @ noAddress)),
      eth_hexToHash = bytes, eth_addressHex = (\<lambda>a. ''0x'' @ hex_encode a), eth_keccak256 = (\<lambda>bs. take 32 (rev bs @ replicate 32 7)),
      eth_createAddress2 = (\<lambda>f s h. take 20 (s @ h @ f @ noAddress)),
      eth_pack = (\<lambda>vs. case vs of
          [AbiAddress a, AbiBytes32 w] \<Rightarrow> Inr (replicate 12 0 @ a @ w)
        | [AbiBytes32 v, AbiBytes32 w, AbiBytes bs] \<Rightarrow> Inr (v @ w @ big_endian 32 96 @ abi_tail bs)
        | _ \<Rightarrow> Inl (Remote 0))\<rparr>)"

lemma hex_encode_length [simp]: "length (hex_encode bs) = 2 * length bs"
  by (induction bs) (simp_all add: hex_encode_Cons, simp add: hex_encode_def)

interpretation demo_eth: ethereum demo_eth
  by unfold_locales (auto simp: demo_eth_def Let_def)

definition demo_owner :: address where
  "demo_owner = replicate 19 0 @ [42]"

theorem wallet_derivations_agree_witness:
  "\<exists>a. DeriveProxyWallet demo_eth demo_owner 137 = Inr a \<and>
     deriveProxyWallet demo_eth 137 (eth_addressHex demo_eth demo_owner) = Inr (eth_addressHex demo_eth a)"
  using wallet_derivations_agree [OF demo_eth.ethereum_axioms, of demo_owner] by (auto simp: demo_owner_def)

theorem deposit_wallet_derivation_witness:
  "\<exists>args impl w. length args = 64 \<and> announces_rest (uupsDepositInitCode demo_eth impl args) \<and>
     DeriveUUPSDepositWallet demo_eth demo_owner 137 = Inr w"
proof -
  have "length demo_owner = 20" by (simp add: demo_owner_def)
  from deposit_wallet_derivation [OF demo_eth.ethereum_axioms this] obtain args factory impl where
    "args = replicate 12 0 @ factory @ replicate 12 0 @ demo_owner" "announces_rest (uupsDepositInitCode demo_eth impl args)"
    "factory = eth_hexToAddress demo_eth ''0x00000000000Fb5C9ADea0298D729A0CB3823Cc07''"
    "\<exists>w. DeriveUUPSDepositWallet demo_eth demo_owner 137 = Inr w" by blast
  moreover from this(1,3) have "length args = 64"
    using demo_eth.hexToAddress_length \<open>length demo_owner = 20\<close> by simp
  ultimately show ?thesis by blast
qed

text \<open>A client that signs for a deposit wallet with a session key.\<close>

definition session_client :: "dec client" where
  "session_client = demo_client\<lparr>signatureType := 3, funderAddress := ''0x00000000000000000000000000000000000000ff''\<rparr>"

theorem session_signature_unwraps_witness:
  "\<exists>signature w. wrapDepositWalletSignature demo_eth session_client ''0x01ab'' = Inr signature \<and>
     signature = ''0x'' @ hex_encode w \<and> read_big_endian (take 32 (drop 96 w)) = 2 \<and> take 2 (drop 128 w) = [1, 171]"
proof -
  have h: "''0x01ab'' = ''0x'' @ hex_encode [1, 171]" by code_simp
  have o: "isDepositWalletOwner demo_eth session_client = Inr False" by code_simp
  have n: "signerBytes demo_eth session_client \<noteq> noAddress" by code_simp
  obtain signature where s: "wrapDepositWalletSignature demo_eth session_client (''0x'' @ hex_encode [1, 171]) = Inr signature"
    using demo_eth.decode [of "[1, 171]"] o n by (simp add: wrapDepositWalletSignature_def WrapSessionSignature_def demo_eth.pack_bytes)
  have l: "length [1, 171 :: byte] = 2" "length [1, 171 :: byte] < 2 ^ 256" by simp_all
  from session_signature_unwraps [OF demo_eth.ethereum_axioms _ l(2) s, unfolded o l(1)] obtain w where
    "signature = ''0x'' @ hex_encode w" "read_big_endian (take 32 (drop 96 w)) = 2" "take 2 (drop 128 w) = [1, 171]"
    by auto
  then show ?thesis unfolding h using s by blast
qed

theorem signer_identity_witness:
  "\<exists>c. AsSigner demo_eth demo_client (Inr demo_owner) SignatureTypePolyProxy [] = Inr c \<and> funderAddress c \<noteq> [] \<and>
     eth_hexToAddress demo_eth (orderMaker c) = WalletAddress demo_eth c"
proof -
  have l: "length demo_owner = 20" by (simp add: demo_owner_def)
  obtain c' where "AsSigner demo_eth demo_client (Inr demo_owner) SignatureTypePolyProxy [] = Inr c'"
    by (simp add: AsSigner_def normalizeFunderAddress_def resolveProxyFunder_def deriveProxyWallet_def getWalletConfig_def
        walletConfigs_def getContractConfig_def contractConfigs_def demo_client_def SignatureTypePolyProxy_def SignatureTypeEOA_def
        clientCacheState.defs)
  from signer_identity [OF demo_eth.ethereum_axioms l this] this show ?thesis
    by (auto simp: SignatureTypePolyProxy_def SignatureTypeEOA_def)
qed

end
