(* ===== verification/ComboRfq.thy ===== *)
theory ComboRfq
  imports Wallets Settlement LimitOrder "HOL-Library.Multiset"
begin

text \<open>
  \<open>clob/combo_rfq.go\<close>, \<open>clob/combo_rfq_response.go\<close> and \<open>clob/combo_fill.go\<close>: a requester asks the builder gateway for a quote on a combination
  of positions, checks that the gateway echoes the request, signs an acceptance order for Exchange V3 and waits for the outcome.
  The gateway is the record \<open>comboEnv\<close>, a parameter; its answers are numbered like those of \<open>env\<close>.
\<close>

section \<open>Types\<close>

type_synonym ComboRFQStatus = string

definition ComboRFQAwaitingRequesterAcceptance :: ComboRFQStatus where
  "ComboRFQAwaitingRequesterAcceptance = ''AWAITING_REQUESTER_ACCEPTANCE''"
definition ComboRFQAwaitingMakerConfirmation :: ComboRFQStatus where
  "ComboRFQAwaitingMakerConfirmation = ''AWAITING_MAKER_CONFIRMATION''"
definition ComboRFQExecuting :: ComboRFQStatus where "ComboRFQExecuting = ''EXECUTING''"
definition ComboRFQFilled :: ComboRFQStatus where "ComboRFQFilled = ''FILLED''"
definition ComboRFQFailed :: ComboRFQStatus where "ComboRFQFailed = ''FAILED''"
definition ComboRFQExpired :: ComboRFQStatus where "ComboRFQExpired = ''EXPIRED''"
definition ComboRFQCanceled :: ComboRFQStatus where "ComboRFQCanceled = ''CANCELED''"
definition ComboRFQMatched :: ComboRFQStatus where "ComboRFQMatched = ''MATCHED''"
definition ComboRFQMined :: ComboRFQStatus where "ComboRFQMined = ''MINED''"
definition ComboRFQConfirmed :: ComboRFQStatus where "ComboRFQConfirmed = ''CONFIRMED''"
definition ComboRFQRetrying :: ComboRFQStatus where "ComboRFQRetrying = ''RETRYING''"

lemmas combo_status_defs = ComboRFQAwaitingRequesterAcceptance_def ComboRFQAwaitingMakerConfirmation_def ComboRFQExecuting_def
  ComboRFQFilled_def ComboRFQFailed_def ComboRFQExpired_def ComboRFQCanceled_def ComboRFQMatched_def ComboRFQMined_def
  ComboRFQConfirmed_def ComboRFQRetrying_def

definition Terminal :: "ComboRFQStatus \<Rightarrow> bool" where
  "Terminal s \<longleftrightarrow> s \<in> {ComboRFQFilled, ComboRFQFailed, ComboRFQExpired, ComboRFQCanceled}"

definition Executing :: "ComboRFQStatus \<Rightarrow> bool" where
  "Executing s \<longleftrightarrow> s \<in> {ComboRFQExecuting, ComboRFQMatched, ComboRFQMined, ComboRFQConfirmed, ComboRFQRetrying}"

definition ComboQuoteNoQuotes :: string where "ComboQuoteNoQuotes = ''NO_QUOTES''"
definition ComboQuoteSizeTooLarge :: string where "ComboQuoteSizeTooLarge = ''SIZE_TOO_LARGE''"
definition ComboAcceptMakerDeclined :: string where "ComboAcceptMakerDeclined = ''MAKER_DECLINED''"
definition ComboAcceptWindowExpired :: string where "ComboAcceptWindowExpired = ''ACCEPTANCE_WINDOW_EXPIRED''"
definition ComboAcceptExecutionFailed :: string where "ComboAcceptExecutionFailed = ''EXECUTION_FAILED''"

definition RFQDirectionBuy :: string where "RFQDirectionBuy = ''BUY''"
definition RFQDirectionSell :: string where "RFQDirectionSell = ''SELL''"
definition RFQSideYes :: string where "RFQSideYes = ''YES''"
definition RFQSizeUnitNotional :: string where "RFQSizeUnitNotional = ''notional''"
definition RFQSizeUnitShares :: string where "RFQSizeUnitShares = ''shares''"

lemmas rfq_defs = RFQDirectionBuy_def RFQDirectionSell_def RFQSideYes_def RFQSizeUnitNotional_def RFQSizeUnitShares_def

record BuilderRfqError =
  re_Code :: string
  re_Message :: string

record ComboQuote =
  cq_QuoteID :: string
  cq_BlendedPrice :: string
  cq_MakerAmount :: string
  cq_TakerAmount :: string
  cq_TotalRequired :: string
  cq_NetReceive :: "string option"
  cq_ExpiresAt :: int

record 'd RequestComboQuoteParams =
  rq_LegPositionIDs :: "string list"
  rq_Direction :: string
  rq_Amount :: 'd
  rq_Size :: 'd

record ComboRFQResponseRequestedSize =
  sz_Unit :: string
  sz_ValueE6 :: string

record ComboRFQResponseRequest =
  rr_RFQID :: string
  rr_LegPositionIDs :: "string list"
  rr_ConditionID :: string
  rr_YesPositionID :: string
  rr_NoPositionID :: string
  rr_Direction :: string
  rr_Side :: string
  rr_RequestedSize :: ComboRFQResponseRequestedSize

record RequestComboQuoteResult =
  cr_RFQID :: string
  cr_Quote :: "ComboQuote option"
  cr_Request :: "ComboRFQResponseRequest option"
  cr_Direction :: string
  cr_YesPositionID :: string
  cr_NoPositionID :: string
  cr_ConditionID :: string
  cr_BuilderCode :: string
  cr_Status :: ComboRFQStatus
  cr_Reason :: string
  cr_Error :: "BuilderRfqError option"

record ComboQuoteReference =
  qr_QuoteID :: string
  qr_MakerAmount :: string
  qr_TakerAmount :: string

record AcceptComboQuoteParams =
  ap_RFQID :: string
  ap_Direction :: Side
  ap_PositionID :: string
  ap_BuilderCode :: string
  ap_Quote :: ComboQuoteReference

record AcceptComboQuoteResult =
  ar_Status :: ComboRFQStatus
  ar_RFQID :: string
  ar_TakerOrderHash :: string
  ar_TxHash :: string
  ar_Reason :: string
  ar_Error :: "BuilderRfqError option"

text \<open>\<open>ComboRFQStatusResult\<close> and \<open>builderRfqStatusWire\<close> have the same fields.\<close>

record ComboRFQStatusResult =
  sr_RFQID :: string
  sr_Status :: ComboRFQStatus
  sr_TakerOrderHash :: string
  sr_TxHash :: string
  sr_Error :: "BuilderRfqError option"

record builderRfqCreateRequest =
  br_SignerAddress :: string
  br_MakerAddress :: string
  br_SignatureType :: SignatureType
  br_LegPositionIDs :: "string list"
  br_Direction :: string
  br_Side :: string
  br_RequestedSize :: ComboRFQResponseRequestedSize

record builderRfqQuoteWire =
  qw_QuoteID :: string
  qw_BlendedPriceE6 :: string
  qw_MakerAmountE6 :: string
  qw_TakerAmountE6 :: string
  qw_TotalRequiredE6 :: string
  qw_NetReceiveE6 :: "string option"

record builderRfqCreateResponseWire =
  bw_RFQID :: string
  bw_Status :: ComboRFQStatus
  bw_ExpiresAt :: int
  bw_BuilderCode :: string
  bw_Request :: ComboRFQResponseRequest
  bw_Quote :: "builderRfqQuoteWire option"
  bw_Error :: "BuilderRfqError option"

record comboSignedOrderWire =
  cs_Salt :: string
  cs_Maker :: string
  cs_Signer :: string
  cs_TokenID :: string
  cs_MakerAmount :: string
  cs_TakerAmount :: string
  cs_Side :: Side
  cs_SignatureType :: SignatureType
  cs_Timestamp :: string
  cs_Builder :: string
  cs_Expiration :: string
  cs_Metadata :: string
  cs_Signature :: string

record builderRfqAcceptRequest =
  ba_QuoteID :: string
  ba_SignedOrder :: comboSignedOrderWire

record comboEnv =
  g_builderAuth :: bool
  g_create :: "nat \<Rightarrow> builderRfqCreateRequest \<Rightarrow> builderRfqCreateResponseWire result"
  g_accept :: "nat \<Rightarrow> string \<Rightarrow> builderRfqAcceptRequest \<Rightarrow> ComboRFQStatusResult result"
  g_status :: "nat \<Rightarrow> string \<Rightarrow> ComboRFQStatusResult result"
  g_typedDataAndHash :: "TypedData \<Rightarrow> byte list result"
  g_errorText :: "go_error \<Rightarrow> string"

section \<open>Amounts and identifiers\<close>

definition isNumericString :: "string \<Rightarrow> bool" where
  "isNumericString s \<longleftrightarrow> s \<noteq> [] \<and> list_all is_digit s"

definition validateUint256 :: "int \<Rightarrow> bool" where
  "validateUint256 n \<longleftrightarrow> 0 \<le> n \<and> n < 2 ^ 256"

text \<open>\<open>decimalToE6\<close> truncates below a millionth.\<close>

definition decimalToE6 :: "'d udecimal_ops \<Rightarrow> 'd \<Rightarrow> string" where
  "decimalToE6 U v = u_string_fixed U (u_trunc U (u_mul U v (u_from_int64 U 1000000 0)) 0) 0"

definition decimalToE6String :: "'d udecimal_ops \<Rightarrow> string \<Rightarrow> string result" where
  "decimalToE6String U s =
     rbind (wrap_err ''parse decimal'' (u_parse U s)) (\<lambda>parsed.
       if u_cmp U parsed (u_zero U) \<le> 0 \<or> decimalPlaces U parsed > 6
       then Inl (Msg ''amount must be positive with at most 6 decimal places'')
       else Inr (decimalToE6 U parsed))"

definition e6ToDecimal :: "string \<Rightarrow> string result" where
  "e6ToDecimal s =
     (if s = [] then Inl (Msg ''empty e6 value'')
      else case big_int_set_string s 10 of
        None \<Rightarrow> Inl (Msg ''parse unsigned e6 value'')
      | Some raw \<Rightarrow>
          if \<not> isNumericString s then Inl (Msg ''parse unsigned e6 value'')
          else let whole = raw div 1000000; remainder = raw mod 1000000;
                   fraction0 = show_int remainder;
                   fraction = trim_right_zeros (replicate (6 - length fraction0) (CHR ''0'') @ fraction0)
               in if fraction = [] then Inr (show_int whole)
                  else Inr (show_int whole @ ''.'' @ fraction))"

definition comboPositionValid :: "string \<Rightarrow> bool" where
  "comboPositionValid s \<longleftrightarrow>
     (case big_int_set_string s 10 of None \<Rightarrow> False | Some v \<Rightarrow> isNumericString s \<and> validateUint256 v)"

definition validateBuilderCode :: "string \<Rightarrow> unit result" where
  "validateBuilderCode code =
     guardE (has_prefix code ''0x'' \<and> length code = 66 \<and> list_all (\<lambda>r. r \<in> set ''0123456789abcdefABCDEF'') (drop 2 code))
       (Msg ''builderCode must be a 0x-prefixed 32-byte hex string'')"

definition comboTransactionHashValid :: "string \<Rightarrow> bool" where
  "comboTransactionHashValid s \<longleftrightarrow> length s = 66 \<and> has_prefix s ''0x'' \<and> unhex (drop 2 s) \<noteq> None"

definition comboMinLegPositionIDs :: nat where "comboMinLegPositionIDs = 2"
definition comboMaxLegPositionIDs :: nat where "comboMaxLegPositionIDs = 50"

text \<open>The loop of \<open>normalizeComboQuoteRequest\<close>, with the identifiers seen so far.\<close>

fun comboLegs :: "string list \<Rightarrow> string list \<Rightarrow> int list result" where
  "comboLegs [] seen = Inr []"
| "comboLegs (i # ids) seen =
     (let bad = Inl (Msg ''combo RFQ leg position ID must be a uint256 numeric string'')
      in case big_int_set_string i 10 of
           None \<Rightarrow> bad
         | Some leg \<Rightarrow>
             if \<not> isNumericString i \<or> \<not> validateUint256 leg then bad
             else if show_int leg \<in> set seen then Inl (Msg ''combo RFQ duplicate leg position ID'')
             else rbind (comboLegs ids (show_int leg # seen)) (\<lambda>legs. Inr (leg # legs)))"

definition comboAmount :: "'d RequestComboQuoteParams \<Rightarrow> 'd result" where
  "comboAmount params =
     (if rq_Direction params = RFQDirectionBuy then Inr (rq_Amount params)
      else if rq_Direction params = RFQDirectionSell then Inr (rq_Size params)
      else Inl (Msg ''combo RFQ direction must be BUY or SELL''))"

definition normalizeComboQuoteRequest ::
  "'d udecimal_ops \<Rightarrow> 'd RequestComboQuoteParams \<Rightarrow> 'd RequestComboQuoteParams result" where
  "normalizeComboQuoteRequest U params =
     (if length (rq_LegPositionIDs params) < comboMinLegPositionIDs \<or> length (rq_LegPositionIDs params) > comboMaxLegPositionIDs
      then Inl (Msg ''combo RFQ requires between 2 and 50 leg position IDs'')
      else rbind (comboLegs (rq_LegPositionIDs params) []) (\<lambda>legs.
        let params1 = params\<lparr>rq_LegPositionIDs := map show_int (sort legs)\<rparr>
        in rbind (comboAmount params1) (\<lambda>amount.
             if u_cmp U amount (u_zero U) \<le> 0 \<or> decimalPlaces U amount > 6
             then Inl (Msg ''combo RFQ amount must be positive with at most 6 decimal places'')
             else Inr params1)))"

section \<open>Requesting a quote\<close>

definition ErrComboSessionKeyUnsupported :: go_error where
  "ErrComboSessionKeyUnsupported = Sentinel ''combo RFQ does not support session keys''"

definition requireComboAccount :: "eth_ops \<Rightarrow> 'd client \<Rightarrow> unit result" where
  "requireComboAccount X c =
     (if signatureType c \<noteq> SignatureTypePoly1271 then Inr ()
      else rbind (isDepositWalletOwner X c) (\<lambda>owner. guardE owner ErrComboSessionKeyUnsupported))"

definition comboMakerAddress :: "'d client \<Rightarrow> string" where
  "comboMakerAddress c = (if funderAddress c \<noteq> [] then funderAddress c else signerAddress c)"

text \<open>
  The loop over the echoed legs: the canonical spellings up to the first invalid one, the empty string from there on, and whether there was an
  invalid one.
\<close>

fun echoLegs :: "string list \<Rightarrow> string list \<times> bool" where
  "echoLegs [] = ([], False)"
| "echoLegs (i # ids) =
     (if \<not> comboPositionValid i then (replicate (Suc (length ids)) [], True)
      else case echoLegs ids of (legs, bad) \<Rightarrow> (show_int (the (big_int_set_string i 10)) # legs, bad))"

definition echoMismatches :: "builderRfqCreateResponseWire \<Rightarrow> builderRfqCreateRequest \<Rightarrow> string list" where
  "echoMismatches wire sent =
     (let echoed = bw_Request wire; (legs, bad) = echoLegs (rr_LegPositionIDs echoed);
          valueE6 = sz_ValueE6 (rr_RequestedSize echoed)
      in (if bw_RFQID wire = [] \<or> rr_RFQID echoed \<noteq> bw_RFQID wire then [''rfq_id''] else []) @
         (if rr_Direction echoed \<noteq> br_Direction sent then [''direction''] else []) @
         (if rr_Side echoed \<noteq> br_Side sent then [''side''] else []) @
         (if bad then [''leg_position_ids''] else []) @
         (if legs \<noteq> br_LegPositionIDs sent then [''leg_position_ids''] else []) @
         (if (case big_int_set_string valueE6 10 of
                None \<Rightarrow> True
              | Some sz \<Rightarrow> \<not> isNumericString valueE6 \<or> sz_Unit (rr_RequestedSize echoed) \<noteq> sz_Unit (br_RequestedSize sent) \<or>
                  show_int sz \<noteq> sz_ValueE6 (br_RequestedSize sent))
          then [''requested_size''] else []))"

definition validateComboQuoteEcho ::
  "builderRfqCreateResponseWire \<Rightarrow> builderRfqQuoteWire \<Rightarrow> builderRfqCreateRequest \<Rightarrow> unit result" where
  "validateComboQuoteEcho wire quote sent =
     (let echoed = bw_Request wire; fields = echoMismatches wire sent
      in if fields \<noteq> [] then Inl (Typed ''ComboRFQEchoMismatchError'' (bw_RFQID wire # remdups_adj fields))
         else if bw_Status wire \<noteq> ComboRFQAwaitingRequesterAcceptance \<or> qw_QuoteID quote = [] \<or>
                 \<not> comboPositionValid (rr_YesPositionID echoed) \<or> \<not> comboPositionValid (rr_NoPositionID echoed) \<or>
                 rr_YesPositionID echoed = rr_NoPositionID echoed \<or> rr_ConditionID echoed = []
           then Inl (Msg ''combo rfq: malformed quote-ready response'')
         else wrap_err ''combo rfq'' (validateBuilderCode (bw_BuilderCode wire)))"

definition comboQuoteFromWire :: "builderRfqQuoteWire \<Rightarrow> int \<Rightarrow> ComboQuote result" where
  "comboQuoteFromWire wire expiresAt =
     rbind (wrap_err ''blended_price_e6'' (e6ToDecimal (qw_BlendedPriceE6 wire))) (\<lambda>blendedPrice.
     rbind (wrap_err ''maker_amount_e6'' (e6ToDecimal (qw_MakerAmountE6 wire))) (\<lambda>makerAmount.
     rbind (wrap_err ''taker_amount_e6'' (e6ToDecimal (qw_TakerAmountE6 wire))) (\<lambda>takerAmount.
     rbind (wrap_err ''total_required_e6'' (e6ToDecimal (qw_TotalRequiredE6 wire))) (\<lambda>totalRequired.
     rbind (case qw_NetReceiveE6 wire of
              None \<Rightarrow> Inr None
            | Some raw \<Rightarrow> rbind (wrap_err ''net_receive_e6'' (e6ToDecimal raw)) (\<lambda>v. Inr (Some v))) (\<lambda>netReceive.
       Inr \<lparr>cq_QuoteID = qw_QuoteID wire, cq_BlendedPrice = blendedPrice, cq_MakerAmount = makerAmount,
            cq_TakerAmount = takerAmount, cq_TotalRequired = totalRequired, cq_NetReceive = netReceive,
            cq_ExpiresAt = expiresAt\<rparr>)))))"

definition comboCreateRequest :: "'d udecimal_ops \<Rightarrow> 'd client \<Rightarrow> 'd RequestComboQuoteParams \<Rightarrow> builderRfqCreateRequest" where
  "comboCreateRequest U c params =
     (let sell = (rq_Direction params = RFQDirectionSell)
      in \<lparr>br_SignerAddress = signerAddress c, br_MakerAddress = comboMakerAddress c, br_SignatureType = signatureType c,
          br_LegPositionIDs = rq_LegPositionIDs params, br_Direction = rq_Direction params, br_Side = RFQSideYes,
          br_RequestedSize =
            \<lparr>sz_Unit = (if sell then RFQSizeUnitShares else RFQSizeUnitNotional),
             sz_ValueE6 = decimalToE6 U (if sell then rq_Size params else rq_Amount params)\<rparr>\<rparr>)"

definition comboQuoteResult ::
  "'d RequestComboQuoteParams \<Rightarrow> builderRfqCreateRequest \<Rightarrow> builderRfqCreateResponseWire \<Rightarrow> RequestComboQuoteResult result" where
  "comboQuoteResult params request wire =
     (let res = \<lparr>cr_RFQID = bw_RFQID wire, cr_Quote = None, cr_Request = None, cr_Direction = rq_Direction params,
            cr_YesPositionID = rr_YesPositionID (bw_Request wire), cr_NoPositionID = rr_NoPositionID (bw_Request wire),
            cr_ConditionID = rr_ConditionID (bw_Request wire), cr_BuilderCode = bw_BuilderCode wire,
            cr_Status = bw_Status wire, cr_Reason = [], cr_Error = bw_Error wire\<rparr>
      in case bw_Quote wire of
           Some q \<Rightarrow>
             rbind (validateComboQuoteEcho wire q request) (\<lambda>_.
               if rr_Direction (bw_Request wire) = RFQDirectionSell \<and> qw_NetReceiveE6 q = None
               then Inl (Msg ''combo rfq: SELL quote omitted net sell proceeds'')
               else rbind (wrap_err ''combo rfq: decode quote'' (comboQuoteFromWire q (bw_ExpiresAt wire))) (\<lambda>quote.
                      Inr (res\<lparr>cr_Request := Some (bw_Request wire), cr_Direction := rr_Direction (bw_Request wire),
                               cr_Quote := Some quote\<rparr>)))
         | None \<Rightarrow>
             (case bw_Error wire of
                None \<Rightarrow> Inr (res\<lparr>cr_Reason := ComboQuoteNoQuotes\<rparr>)
              | Some err \<Rightarrow>
                  if re_Code err = ComboQuoteSizeTooLarge then Inr (res\<lparr>cr_Reason := ComboQuoteSizeTooLarge\<rparr>)
                  else if re_Code err = ComboQuoteNoQuotes then Inr (res\<lparr>cr_Reason := ComboQuoteNoQuotes\<rparr>)
                  else Inl (Typed ''ComboRFQRejectionError'' [re_Code err, re_Message err])))"

definition RequestComboQuote ::
  "'d env \<Rightarrow> eth_ops \<Rightarrow> comboEnv \<Rightarrow> 'd RequestComboQuoteParams \<Rightarrow> ('d client, RequestComboQuoteResult) act" where
  "RequestComboQuote E X G params0 =
     bindE (lift (normalizeComboQuoteRequest (e_U E) params0)) (\<lambda>params c.
     bindE (lift (requireComboAccount X c)) (\<lambda>_.
     bindE (lift (guardE (g_builderAuth G) (Msg ''combo RFQ requires builder authorization''))) (\<lambda>_.
       let request = comboCreateRequest (e_U E) c params
       in bindE (interact (\<lambda>n. g_create G n request)) (\<lambda>wire.
            lift (comboQuoteResult params request wire)))) c)"

section \<open>Accepting a quote\<close>

definition validateComboAcceptRequest :: "AcceptComboQuoteParams \<Rightarrow> unit result" where
  "validateComboAcceptRequest params =
     (if ap_RFQID params = [] then Inl (Msg ''combo accept: rfqId is required'')
      else if ap_Direction params \<noteq> SideBuy \<and> ap_Direction params \<noteq> SideSell
        then Inl (Msg ''combo accept: direction must be BUY or SELL'')
      else if ap_PositionID params = [] then Inl (Msg ''combo accept: positionId is required'')
      else if \<not> comboPositionValid (ap_PositionID params)
        then Inl (Msg ''combo accept: positionId must be a uint256 numeric string'')
      else if qr_QuoteID (ap_Quote params) = [] then Inl (Msg ''combo accept: quoteId is required'')
      else wrap_err ''combo accept'' (validateBuilderCode (ap_BuilderCode params)))"

definition typedOrder :: "comboSignedOrderWire \<Rightarrow> SignedOrder" where
  "typedOrder ord =
     \<lparr>so_Order =
        \<lparr>o_Salt = cs_Salt ord, o_Maker = cs_Maker ord, o_Signer = cs_Signer ord, o_TokenID = cs_TokenID ord,
         o_MakerAmount = cs_MakerAmount ord, o_TakerAmount = cs_TakerAmount ord, o_Side = cs_Side ord,
         o_SignatureType = cs_SignatureType ord, o_Timestamp = cs_Timestamp ord, o_Metadata = cs_Metadata ord,
         o_Builder = cs_Builder ord\<rparr>,
      so_Expiration = cs_Expiration ord, so_Signature = [], so_Legacy = None\<rparr>"

definition comboProtocolVersion :: string where "comboProtocolVersion = ''3''"

definition signComboOrder :: "'d env \<Rightarrow> comboSignedOrderWire \<Rightarrow> string \<Rightarrow> ('d client, comboSignedOrderWire) act" where
  "signComboOrder E ord exchange = (\<lambda>c.
     let typed = buildOrderTypedData (chainID c) comboProtocolVersion exchange (typedOrder ord)
     in bindE (if signatureType c = SignatureTypePoly1271 then signPoly1271Order E typed (chainID c)
               else bindE (interact (\<lambda>n. e_signTypedData E n typed)) (\<lambda>sig. ret (''0x'' @ hex_encode sig)))
          (\<lambda>signature. ret (ord\<lparr>cs_Signature := signature\<rparr>)) c)"

definition comboOrderHash :: "comboEnv \<Rightarrow> int \<Rightarrow> string \<Rightarrow> comboSignedOrderWire \<Rightarrow> string" where
  "comboOrderHash G chain exchangeV3 ord =
     (case g_typedDataAndHash G (buildOrderTypedData chain comboProtocolVersion exchangeV3 (typedOrder ord)) of
        Inl _ \<Rightarrow> [] | Inr digest \<Rightarrow> ''0x'' @ hex_encode digest)"

text \<open>\<open>errors.As(err, &apiErr)\<close> and the code of the API error it finds.\<close>

fun api_code :: "go_error \<Rightarrow> string option" where
  "api_code (ApiError _ code _) = code"
| "api_code (Wrap _ e) = api_code e"
| "api_code _ = None"

definition comboAcceptanceExpired :: "go_error \<Rightarrow> bool" where
  "comboAcceptanceExpired err \<longleftrightarrow> api_code err = Some ''EXPIRED_RFQ''"

definition comboAcceptFailureReason :: "ComboRFQStatus \<Rightarrow> BuilderRfqError option \<Rightarrow> string" where
  "comboAcceptFailureReason status gatewayErr =
     (if status = ComboRFQExpired \<or> map_option re_Code gatewayErr = Some ''EXPIRED_RFQ'' then ComboAcceptWindowExpired
      else if map_option re_Code gatewayErr = Some ''MAKER_DECLINED'' then ComboAcceptMakerDeclined
      else ComboAcceptExecutionFailed)"

definition GetComboRFQStatus :: "eth_ops \<Rightarrow> comboEnv \<Rightarrow> string \<Rightarrow> ('d client, ComboRFQStatusResult) act" where
  "GetComboRFQStatus X G rfqID = (\<lambda>c.
     bindE (lift (requireComboAccount X c)) (\<lambda>_.
     bindE (lift (guardE (rfqID \<noteq> []) (Msg ''combo rfq status: rfqId is required''))) (\<lambda>_.
       interact (\<lambda>n. g_status G n rfqID))) c)"

definition comboAcceptOutcomeTimeout :: int where "comboAcceptOutcomeTimeout = 30000000000"
definition comboAcceptOutcomePollEvery :: int where "comboAcceptOutcomePollEvery = 500000000"

text \<open>The acceptance order before it is signed.\<close>

definition comboAcceptOrder ::
  "'d client \<Rightarrow> AcceptComboQuoteParams \<Rightarrow> string \<Rightarrow> string \<Rightarrow> 64 word \<Rightarrow> int \<Rightarrow> comboSignedOrderWire" where
  "comboAcceptOrder c params makerAmount takerAmount salt now =
     \<lparr>cs_Salt = show_nat (unat salt), cs_Maker = comboMakerAddress c,
      cs_Signer = (if signatureType c = SignatureTypePoly1271 then comboMakerAddress c else signerAddress c),
      cs_TokenID = ap_PositionID params, cs_MakerAmount = makerAmount, cs_TakerAmount = takerAmount,
      cs_Side = ap_Direction params, cs_SignatureType = signatureType c, cs_Timestamp = show_int (unixSeconds now),
      cs_Builder = ap_BuilderCode params, cs_Expiration = ''0'', cs_Metadata = zeroBytes32, cs_Signature = []\<rparr>"

text \<open>From the checks of \<open>AcceptComboQuote\<close> to the signed order and the exchange it is for.\<close>

definition comboAcceptSigned ::
  "'d env \<Rightarrow> eth_ops \<Rightarrow> comboEnv \<Rightarrow> AcceptComboQuoteParams \<Rightarrow> ('d client, string \<times> comboSignedOrderWire) act" where
  "comboAcceptSigned E X G params = (\<lambda>c.
     bindE (lift (validateComboAcceptRequest params)) (\<lambda>_.
     bindE (lift (requireComboAccount X c)) (\<lambda>_.
     bindE (lift (guardE (g_builderAuth G) (Msg ''combo RFQ requires builder authorization''))) (\<lambda>_.
     bindE (lift (getContractConfig (chainID c))) (\<lambda>contracts.
     bindE (lift (guardE (cc_ExchangeV3 contracts \<noteq> []) (Msg ''exchange v3 contract not configured for chain''))) (\<lambda>_.
     bindE (lift (wrap_err ''combo accept: maker amount'' (decimalToE6String (e_U E) (qr_MakerAmount (ap_Quote params))))) (\<lambda>makerAmount.
     bindE (lift (wrap_err ''combo accept: taker amount'' (decimalToE6String (e_U E) (qr_TakerAmount (ap_Quote params))))) (\<lambda>takerAmount.
     bindE (wrapE ''combo accept: generate order salt'' (interact (e_salt E))) (\<lambda>salt.
     bindE (time_now E) (\<lambda>now.
     bindE (wrapE ''combo accept: sign order''
              (signComboOrder E (comboAcceptOrder c params makerAmount takerAmount salt now) (cc_ExchangeV3 contracts))) (\<lambda>ord.
       ret (cc_ExchangeV3 contracts, ord))))))))))) c)"

text \<open>Polling while the maker's last look is pending.\<close>

fun comboAcceptLoop ::
  "nat \<Rightarrow> 'd env \<Rightarrow> eth_ops \<Rightarrow> comboEnv \<Rightarrow> string \<Rightarrow> int \<Rightarrow> ComboRFQStatusResult \<Rightarrow> 'd client \<Rightarrow>
   (ComboRFQStatusResult result \<times> 'd client) option" where
  "comboAcceptLoop fuel E X G rfqID deadline wire c =
     (if sr_Status wire \<noteq> ComboRFQAwaitingMakerConfirmation then Some (Inr wire, c)
      else case fuel of 0 \<Rightarrow> None
      | Suc fuel' \<Rightarrow>
        if deadline < e_clock E (ticks c) then Some (Inl (Msg ''combo accept: timed out waiting for the acceptance outcome''), tick c)
        else case ctxErr E (tick c) of
          Some e \<Rightarrow>
            if e_timer E (ticks (tick c)) comboAcceptOutcomePollEvery
            then (case GetComboRFQStatus X G rfqID (tick (tick c)) of
                    (Inl err, c') \<Rightarrow> Some (Inl err, c')
                  | (Inr st, c') \<Rightarrow> comboAcceptLoop fuel' E X G rfqID deadline st c')
            else Some (Inl e, tick (tick c))
        | None \<Rightarrow>
            (case GetComboRFQStatus X G rfqID (tick (tick c)) of
               (Inl err, c') \<Rightarrow> Some (Inl err, c')
             | (Inr st, c') \<Rightarrow> comboAcceptLoop fuel' E X G rfqID deadline st c'))"

declare comboAcceptLoop.simps [simp del]

definition comboAcceptOutcome ::
  "comboEnv \<Rightarrow> int \<Rightarrow> string \<Rightarrow> comboSignedOrderWire \<Rightarrow> ComboRFQStatusResult \<Rightarrow> AcceptComboQuoteResult" where
  "comboAcceptOutcome G chain exchangeV3 ord wire =
     (let status = sr_Status wire
      in if status = ComboRFQFailed \<or> status = ComboRFQExpired \<or> status = ComboRFQCanceled then
           \<lparr>ar_Status = status, ar_RFQID = sr_RFQID wire, ar_TakerOrderHash = sr_TakerOrderHash wire, ar_TxHash = sr_TxHash wire,
            ar_Reason = comboAcceptFailureReason status (sr_Error wire), ar_Error = sr_Error wire\<rparr>
         else
           \<lparr>ar_Status = status, ar_RFQID = sr_RFQID wire,
            ar_TakerOrderHash = (if sr_TakerOrderHash wire = [] then comboOrderHash G chain exchangeV3 ord else sr_TakerOrderHash wire),
            ar_TxHash = sr_TxHash wire, ar_Reason = [], ar_Error = sr_Error wire\<rparr>)"

definition AcceptComboQuote ::
  "nat \<Rightarrow> 'd env \<Rightarrow> eth_ops \<Rightarrow> comboEnv \<Rightarrow> AcceptComboQuoteParams \<Rightarrow> 'd client \<Rightarrow>
   (AcceptComboQuoteResult result \<times> 'd client) option" where
  "AcceptComboQuote fuel E X G params c =
     (case comboAcceptSigned E X G params c of
        (Inl e, c1) \<Rightarrow> Some (Inl e, c1)
      | (Inr (exchangeV3, ord), c1) \<Rightarrow>
          (case interact (\<lambda>n. g_accept G n (ap_RFQID params) \<lparr>ba_QuoteID = qr_QuoteID (ap_Quote params), ba_SignedOrder = ord\<rparr>) c1 of
             (Inl acceptErr, c2) \<Rightarrow>
               if comboAcceptanceExpired acceptErr then
                 Some (Inr \<lparr>ar_Status = ComboRFQExpired, ar_RFQID = ap_RFQID params, ar_TakerOrderHash = [], ar_TxHash = [],
                            ar_Reason = ComboAcceptWindowExpired,
                            ar_Error = Some \<lparr>re_Code = ComboRFQExpired, re_Message = g_errorText G acceptErr\<rparr>\<rparr>, c2)
               else Some (Inl acceptErr, c2)
           | (Inr wire, c2) \<Rightarrow>
               map_option (\<lambda>(r, c3). (rbind r (\<lambda>st. Inr (comboAcceptOutcome G (chainID c) exchangeV3 ord st)), c3))
                 (comboAcceptLoop fuel E X G (ap_RFQID params) (e_clock E (ticks c2) + comboAcceptOutcomeTimeout) wire (tick c2))))"

section \<open>Waiting for the fill\<close>

record WaitForComboFillParams =
  wf_RFQID :: string
  wf_Timeout :: int
  wf_PollInterval :: int

record WaitForComboFillResult =
  wr_RFQID :: string
  wr_Status :: ComboRFQStatus
  wr_TxHash :: string
  wr_Error :: "BuilderRfqError option"

text \<open>What one status means for the wait: nothing yet, or the result.\<close>

definition comboFillOutcome :: "ComboRFQStatusResult \<Rightarrow> WaitForComboFillResult result option" where
  "comboFillOutcome st =
     (if sr_Status st = ComboRFQFilled \<or> sr_Status st = ComboRFQConfirmed then
        if \<not> comboTransactionHashValid (sr_TxHash st)
        then Some (Inl (Typed ''ComboRFQResponseError'' [sr_RFQID st, sr_Status st]))
        else Some (Inr \<lparr>wr_RFQID = sr_RFQID st, wr_Status = ComboRFQFilled, wr_TxHash = sr_TxHash st, wr_Error = None\<rparr>)
      else if sr_Status st = ComboRFQFailed \<or> sr_Status st = ComboRFQExpired \<or> sr_Status st = ComboRFQCanceled then
        Some (Inr \<lparr>wr_RFQID = sr_RFQID st, wr_Status = sr_Status st, wr_TxHash = [], wr_Error = sr_Error st\<rparr>)
      else None)"

fun comboFillLoop ::
  "nat \<Rightarrow> 'd env \<Rightarrow> eth_ops \<Rightarrow> comboEnv \<Rightarrow> string \<Rightarrow> int \<Rightarrow> int \<Rightarrow> 'd client \<Rightarrow>
   (WaitForComboFillResult result \<times> 'd client) option" where
  "comboFillLoop 0 E X G rfqID deadline interval c = None"
| "comboFillLoop (Suc fuel) E X G rfqID deadline interval c =
     (case GetComboRFQStatus X G rfqID c of
        (Inl err, c') \<Rightarrow> Some (Inl err, c')
      | (Inr st, c') \<Rightarrow>
          (case comboFillOutcome st of
             Some r \<Rightarrow> Some (r, c')
           | None \<Rightarrow>
               if timerFires E deadline interval c' then comboFillLoop fuel E X G rfqID deadline interval (tick c')
               else Some (Inl (the (pollErr E deadline c')), tick c')))"

definition WaitForComboFill ::
  "nat \<Rightarrow> 'd env \<Rightarrow> eth_ops \<Rightarrow> comboEnv \<Rightarrow> WaitForComboFillParams \<Rightarrow> 'd client \<Rightarrow>
   (WaitForComboFillResult result \<times> 'd client) option" where
  "WaitForComboFill fuel E X G params c =
     (if wf_RFQID params = [] \<or> wf_Timeout params < 0 \<or> wf_PollInterval params < 0
      then Some (Inl (Msg ''combo fill: RFQID is required and durations must not be negative''), c)
      else let timeout = (if wf_Timeout params = 0 then 30000000000 else wf_Timeout params);
               interval = (if wf_PollInterval params = 0 then 1000000000 else wf_PollInterval params)
           in comboFillLoop fuel E X G (wf_RFQID params) (e_clock E (ticks c) + timeout) interval (tick c))"

section \<open>Numerals\<close>

lemma is_digit_digit_char: "d < 10 \<Longrightarrow> is_digit (digit_char d)"
  by (simp add: is_digit_def digit_char_def of_char_char_of_small)

lemma numeric_value:
  assumes "isNumericString s"
  shows "big_int_set_string s 10 = Some (int (digits_value s))"
proof -
  obtain c t where s: "s = c # t" using assms by (cases s) (auto simp: isNumericString_def)
  then have "c \<noteq> CHR ''-''" "c \<noteq> CHR ''+''" using assms by (auto simp: isNumericString_def is_digit_def)
  then show ?thesis using s read_base_value [of s] assms by (simp add: big_int_set_string_def isNumericString_def)
qed

lemma show_nat_numeric [simp]: "isNumericString (show_nat n)" "list_all is_digit (show_nat n)" "show_nat n \<noteq> []"
  using show_base_digits [of 10 n] is_digit_digit_char
  by (auto simp: isNumericString_def show_nat_def list_all_iff)

lemma digits_value_show_nat [simp]: "digits_value (show_nat n) = n"
  using read_base_value [of "show_nat n"] read_show_base [of 10 n] by (simp add: show_nat_def [symmetric])

lemma show_int_of_nat [simp]: "show_int (int n) = show_nat n"
  by (simp add: show_int_def)

lemma numeric_value_eq: "isNumericString s \<Longrightarrow> big_int_set_string s 10 = Some v \<Longrightarrow> v = int (digits_value s)"
  by (simp add: numeric_value)

text \<open>The parts of a decimal that \<open>e6ToDecimal\<close> prints.\<close>

definition e6_parts :: "nat \<Rightarrow> string \<Rightarrow> string \<Rightarrow> bool" where
  "e6_parts n ip fp \<longleftrightarrow> ip = show_nat (n div 1000000) \<and> list_all is_digit fp \<and> length fp \<le> 6 \<and>
     n mod 1000000 = digits_value fp * 10 ^ (6 - length fp)"

lemma e6_fraction:
  assumes "r < 1000000"
  defines "f \<equiv> trim_right_zeros (replicate (6 - length (show_nat r)) (CHR ''0'') @ show_nat r)"
  shows "list_all is_digit f" "length f \<le> 6" "r = digits_value f * 10 ^ (6 - length f)"
proof -
  let ?p = "replicate (6 - length (show_nat r)) (CHR ''0'') @ show_nat r"
  have "length (show_nat r) \<le> 6" using show_base_length [of 10 r 5] assms(1) by (simp add: show_nat_def)
  then have l: "length ?p = 6" by simp
  have "list_all is_digit (replicate k (CHR ''0''))" for k by (simp add: list_all_iff)
  then have d: "list_all is_digit ?p" by simp
  have v: "digits_value ?p = r" by (simp add: digits_value_append)
  show "list_all is_digit f" unfolding f_def by (rule trim_zeros_digits(2) [OF d])
  show "length f \<le> 6" using trim_right_zeros_value(2) [of ?p] l by (simp add: f_def)
  show "r = digits_value f * 10 ^ (6 - length f)" using trim_right_zeros_value(1) [of ?p] l v by (simp add: f_def)
qed

lemma e6ToDecimal_run:
  assumes "isNumericString s"
  shows "\<exists>ip fp. e6_parts (digits_value s) ip fp \<and> e6ToDecimal s = Inr (if fp = [] then ip else ip @ ''.'' @ fp)"
proof -
  let ?n = "digits_value s"
  define r where "r = ?n mod 1000000"
  define fp where "fp = trim_right_zeros (replicate (6 - length (show_nat r)) (CHR ''0'') @ show_nat r)"
  have "r < 1000000" by (simp add: r_def)
  note f = e6_fraction [OF this, folded fp_def]
  have i: "int ?n div 1000000 = int (?n div 1000000)" "int ?n mod 1000000 = int r" by (simp_all add: r_def zdiv_int zmod_int)
  have "s \<noteq> []" using assms by (simp add: isNumericString_def)
  then have "e6ToDecimal s = Inr (if fp = [] then show_nat (?n div 1000000) else show_nat (?n div 1000000) @ ''.'' @ fp)"
    using assms by (simp add: e6ToDecimal_def numeric_value Let_def i fp_def)
  moreover have "e6_parts ?n (show_nat (?n div 1000000)) fp" using f by (simp add: e6_parts_def r_def)
  ultimately show ?thesis by blast
qed

lemma e6ToDecimal_numeric: "e6ToDecimal s = Inr h \<Longrightarrow> isNumericString s"
  by (auto simp: e6ToDecimal_def split: if_splits option.splits)

lemma e6_parts_value:
  assumes "e6_parts n ip fp"
  shows "digits_value (ip @ fp) * 10 ^ (6 - length fp) = n"
proof -
  have "(10::nat) ^ length fp * 10 ^ (6 - length fp) = 1000000" using assms by (simp add: e6_parts_def flip: power_add)
  then have "(n div 1000000) * 10 ^ length fp * 10 ^ (6 - length fp) = (n div 1000000) * 1000000" by (simp only: mult.assoc)
  then have "digits_value (ip @ fp) * 10 ^ (6 - length fp) = (n div 1000000) * 1000000 + n mod 1000000"
    using assms by (simp only: e6_parts_def digits_value_append distrib_right digits_value_show_nat)
  then show ?thesis by simp
qed

lemma e6_decimal_numeral:
  assumes "e6ToDecimal s = Inr h"
  shows "\<exists>k \<le> 6. decimal_numeral h = Some (of_nat (digits_value s) / 10 ^ 6, k)"
proof -
  obtain ip fp where p: "e6_parts (digits_value s) ip fp" "h = (if fp = [] then ip else ip @ ''.'' @ fp)"
    using e6ToDecimal_run [OF e6ToDecimal_numeric [OF assms]] assms by auto
  have ip: "ip \<noteq> []" "list_all is_digit ip" and fp: "list_all is_digit fp" "length fp \<le> 6" using p(1) by (auto simp: e6_parts_def)
  have u: "unsigned_numeral h = Some (digits_value (ip @ fp), length fp)"
    using p(2) unsigned_numeral_no_point [OF ip(2,1)] unsigned_numeral_point [OF ip(2) fp(1) ip(1)] by auto
  have "hd ip \<noteq> CHR ''-''" using ip by (cases ip) (auto simp: is_digit_def)
  then have "h \<noteq> []" "hd h \<noteq> CHR ''-''" using p(2) ip by auto
  then have "decimal_numeral h = Some (of_nat (digits_value (ip @ fp)) / 10 ^ length fp, length fp)"
    using u by (auto simp: decimal_numeral_def split: list.splits)
  moreover have "(of_nat (digits_value (ip @ fp)) / 10 ^ length fp :: rat) = of_nat (digits_value s) / 10 ^ 6"
  proof -
    have "(10::rat) ^ 6 = 10 ^ length fp * 10 ^ (6 - length fp)" unfolding power_add [symmetric] using fp(2) by simp
    moreover have "of_nat (digits_value s) = (of_nat (digits_value (ip @ fp)) * 10 ^ (6 - length fp) :: rat)"
      using e6_parts_value [OF p(1)] by (metis of_nat_mult of_nat_numeral of_nat_power)
    ultimately show ?thesis by (simp del: power_numeral)
  qed
  ultimately show ?thesis using fp(2) by auto
qed

text \<open>\<open>h\<close> is a decimal numeral for as many millionths as \<open>s\<close> says.\<close>

definition e6_denotes :: "string \<Rightarrow> string \<Rightarrow> bool" where
  "e6_denotes s h \<longleftrightarrow> (\<exists>k \<le> 6. decimal_numeral h = Some (of_nat (digits_value s) / 10 ^ 6, k))"

lemma e6_decimal_length:
  assumes "e6ToDecimal s = Inr h" "digits_value s < 2 ^ 256"
  shows "length h \<le> 200"
proof -
  obtain ip fp where p: "e6_parts (digits_value s) ip fp" "h = (if fp = [] then ip else ip @ ''.'' @ fp)"
    using e6ToDecimal_run [OF e6ToDecimal_numeric [OF assms(1)]] assms(1) by auto
  have "digits_value s div 1000000 < 10 ^ Suc 99" using assms(2) by (auto intro: le_less_trans [OF div_le_dividend])
  from show_base_length [OF _ this] p show ?thesis by (auto simp: e6_parts_def show_nat_def)
qed

context udecimal
begin

lemma decimalToE6_exact:
  assumes "val d = of_int n / 10 ^ 6"
  shows "decimalToE6 U d = show_int n"
proof -
  have s: "val (u_from_int64 U 1000000 0) = 10 ^ 6" by (simp add: val_from_int64)
  have "val (u_mul U d (u_from_int64 U 1000000 0)) = of_int n"
    using assms s by (simp add: val_mul trunc_to_on_grid on_grid_def)
  then show ?thesis by (simp add: decimalToE6_def string_fixed_0 trunc_to_on_grid on_grid_def)
qed

lemma e6_amount:
  assumes "\<not> u_cmp U d (u_zero U) \<le> 0" "decimalPlaces U d \<le> 6"
  shows "\<exists>n. decimalToE6 U d = show_nat n \<and> of_nat n = val d * 10 ^ 6"
proof -
  have "on_grid 6 (val d)" using prec_grid [of d] assms(2) by (auto simp: decimalPlaces_def intro: on_grid_mono)
  then obtain i :: int where i: "val d * 10 ^ 6 = of_int i" unfolding on_grid_def by (elim Ints_cases)
  have "0 < val d" using assms(1) by simp
  then have "0 < val d * 10 ^ 6" by simp
  then have "0 < i" using i by simp
  moreover have "decimalToE6 U d = show_int i" using i by (intro decimalToE6_exact) (simp add: field_simps)
  ultimately show ?thesis using i by (intro exI [of _ "nat i"]) (simp add: show_int_def)
qed

lemma e6_round_trip:
  assumes "e6ToDecimal s = Inr h" "0 < digits_value s" "digits_value s < 2 ^ 256"
  shows "decimalToE6String U h = Inr (show_nat (digits_value s))"
proof -
  obtain k where k: "k \<le> 6" "decimal_numeral h = Some (of_nat (digits_value s) / 10 ^ 6, k)" using e6_decimal_numeral [OF assms(1)] by blast
  obtain d where d: "u_parse U h = Inr d" "val d = of_nat (digits_value s) / 10 ^ 6" "u_prec U d \<le> k"
    using parse_numeral [OF k(2) _ e6_decimal_length [OF assms(1,3)]] k(1) by auto
  have "decimalToE6 U d = show_int (int (digits_value s))" using d(2) by (intro decimalToE6_exact) simp
  moreover have "0 < val d" using d(2) assms(2) by simp
  ultimately show ?thesis using d k(1) by (simp add: decimalToE6String_def decimalPlaces_def)
qed

end

section \<open>Legs\<close>

lemma comboLegs_facts:
  assumes "comboLegs ids seen = Inr legs"
  shows "legs = map (\<lambda>i. int (digits_value i)) ids \<and> list_all isNumericString ids \<and> distinct legs \<and>
    show_int ` set legs \<inter> set seen = {} \<and> list_all validateUint256 legs"
  using assms
proof (induction ids arbitrary: seen legs)
  case (Cons i ids)
  obtain legs' where l: "isNumericString i" "validateUint256 (int (digits_value i))" "show_int (int (digits_value i)) \<notin> set seen"
    "comboLegs ids (show_int (int (digits_value i)) # seen) = Inr legs'" "legs = int (digits_value i) # legs'"
    using Cons.prems by (auto simp: Let_def numeric_value go_run split: option.splits if_splits)
  note f = Cons.IH [OF l(4)]
  from f have d: "show_int ` set legs' \<inter> set (show_int (int (digits_value i)) # seen) = {}" by (elim conjE)
  then have "int (digits_value i) \<notin> set legs'" by (auto simp del: show_int_of_nat)
  moreover have "show_int ` set legs \<inter> set seen = {}"
    unfolding l(5) list.set image_insert using d l(3) by (simp only: Int_insert_left list.set if_False) blast
  moreover from f have "legs' = map (\<lambda>i. int (digits_value i)) ids" "list_all isNumericString ids" "distinct legs'"
    "list_all validateUint256 legs'" by auto
  ultimately show ?case using l(1,2,5) by auto
qed simp

lemma comboLegs_canonical:
  "list_all validateUint256 legs \<Longrightarrow> distinct legs \<Longrightarrow> show_int ` set legs \<inter> set seen = {} \<Longrightarrow>
     comboLegs (map show_int legs) seen = Inr legs"
proof (induction legs arbitrary: seen)
  case (Cons l legs)
  have "isNumericString (show_int l)" using Cons.prems(1) by (simp add: validateUint256_def show_int_def)
  moreover have "comboLegs (map show_int legs) (show_int l # seen) = Inr legs"
    using Cons.prems by (intro Cons.IH) (auto simp: show_int_inj)
  ultimately show ?case using Cons.prems by (simp add: Let_def)
qed simp

lemma sort_int_nat: "sort (map int ns) = map int (sort ns)"
proof (rule properties_for_sort)
  show "sorted (map int (sort ns))" by (simp add: sorted_map)
qed (simp add: mset_map)

lemma normalize_run:
  assumes "normalizeComboQuoteRequest U params = Inr p"
  defines "ns \<equiv> map digits_value (rq_LegPositionIDs params)"
  shows "p = params\<lparr>rq_LegPositionIDs := map show_nat (sort ns)\<rparr>" "distinct ns" "\<forall>n \<in> set ns. n < 2 ^ 256"
    "length ns \<in> {2..50}"
    "\<exists>amount. comboAmount params = Inr amount \<and> \<not> u_cmp U amount (u_zero U) \<le> 0 \<and> decimalPlaces U amount \<le> 6"
proof -
  obtain legs where l: "comboLegs (rq_LegPositionIDs params) [] = Inr legs"
    "p = params\<lparr>rq_LegPositionIDs := map show_int (sort legs)\<rparr>"
    using assms(1) by (auto simp: normalizeComboQuoteRequest_def Let_def go_run split: if_splits)
  have f: "legs = map int ns" "distinct legs" "list_all validateUint256 legs"
    using comboLegs_facts [OF l(1)] unfolding ns_def map_map comp_def by blast+
  show "p = params\<lparr>rq_LegPositionIDs := map show_nat (sort ns)\<rparr>" using l(2) f(1) by (simp add: sort_int_nat comp_def)
  show "distinct ns" using f(1,2) by (simp add: distinct_map)
  show "\<forall>n \<in> set ns. n < 2 ^ 256" using f(1,3) by (auto simp: list_all_iff validateUint256_def)
  show "length ns \<in> {2..50}"
    using assms(1) by (auto simp: normalizeComboQuoteRequest_def ns_def comboMinLegPositionIDs_def comboMaxLegPositionIDs_def
        split: if_splits)
  show "\<exists>amount. comboAmount params = Inr amount \<and> \<not> u_cmp U amount (u_zero U) \<le> 0 \<and> decimalPlaces U amount \<le> 6"
    using assms(1) by (auto simp: normalizeComboQuoteRequest_def Let_def go_run comboAmount_def split: if_splits)
qed

lemma echoLegs_good:
  assumes "echoLegs ids = (legs, False)"
  shows "legs = map (\<lambda>i. show_nat (digits_value i)) ids"
  using assms
proof (induction ids arbitrary: legs)
  case (Cons i ids)
  have "isNumericString i" using Cons.prems by (auto simp: comboPositionValid_def split: if_splits option.splits)
  then show ?case using Cons by (auto simp: numeric_value split: if_splits prod.splits)
qed simp

section \<open>Waiting\<close>

lemma GetComboRFQStatus_run:
  assumes "GetComboRFQStatus X G rfqID c = (r, c')"
  shows "ticks c \<le> ticks c'" "r = Inr st \<Longrightarrow> g_status G (ticks c) rfqID = Inr st \<and> c' = tick c"
  using assms by (auto simp: GetComboRFQStatus_def bindE_def interact_def split: sum.splits)

lemma comboFillLoop_sound:
  assumes "comboFillLoop fuel E X G rfqID deadline interval c = Some (Inr r, c')"
  shows "\<exists>n st. g_status G n rfqID = Inr st \<and> comboFillOutcome st = Some (Inr r)"
  using assms
proof (induction fuel arbitrary: c)
  case (Suc fuel)
  obtain q c1 where q: "GetComboRFQStatus X G rfqID c = (q, c1)" by fastforce
  then show ?case
    using Suc GetComboRFQStatus_run(2) [OF q] by (auto split: sum.splits option.splits if_splits)
qed simp

lemma comboFillLoop_ends:
  assumes "\<forall>n \<ge> N. deadline \<le> e_clock E n \<and> (\<exists>e. g_status G n rfqID = Inl e)" "N \<le> ticks c + fuel"
  shows "comboFillLoop (Suc fuel) E X G rfqID deadline interval c \<noteq> None"
  using assms(2)
proof (induction fuel arbitrary: c)
  case 0
  obtain q c1 where q: "GetComboRFQStatus X G rfqID c = (q, c1)" by fastforce
  have "\<exists>e. g_status G (ticks c) rfqID = Inl e" using assms(1) 0 by simp
  then have "\<nexists>st. q = Inr st" using GetComboRFQStatus_run(2) [OF q] by force
  then show ?case using q by (auto split: sum.splits)
next
  case (Suc fuel)
  obtain q c1 where q: "GetComboRFQStatus X G rfqID c = (q, c1)" by fastforce
  have "N \<le> ticks (tick c1) + fuel" using Suc.prems GetComboRFQStatus_run(1) [OF q] by simp
  from Suc.IH [OF this] q show ?case by (auto split: sum.splits option.splits)
qed

lemma comboAcceptLoop_done:
  assumes "comboAcceptLoop fuel E X G rfqID deadline wire c = Some (Inr st, c')"
  shows "sr_Status st \<noteq> ComboRFQAwaitingMakerConfirmation \<and> (st = wire \<or> (\<exists>n. g_status G n rfqID = Inr st))"
  using assms
proof (induction fuel arbitrary: wire c)
  case 0
  then show ?case by (subst (asm) comboAcceptLoop.simps) (auto split: if_splits)
next
  case (Suc fuel)
  obtain q c1 where q: "GetComboRFQStatus X G rfqID (tick (tick c)) = (q, c1)" by fastforce
  have "sr_Status wire \<noteq> ComboRFQAwaitingMakerConfirmation \<and> st = wire \<or>
    (\<exists>st'. q = Inr st' \<and> comboAcceptLoop fuel E X G rfqID deadline st' c1 = Some (Inr st, c'))"
    using Suc.prems q by (subst (asm) comboAcceptLoop.simps) (auto split: if_splits sum.splits option.splits)
  then show ?case using Suc.IH GetComboRFQStatus_run(2) [OF q] by blast
qed

lemma comboAcceptLoop_ends:
  assumes "\<forall>n \<ge> N. deadline < e_clock E n" "N \<le> ticks c + fuel"
  shows "comboAcceptLoop (Suc fuel) E X G rfqID deadline wire c \<noteq> None"
  using assms(2)
proof (induction fuel arbitrary: wire c)
  case 0
  then show ?case using assms(1) by (subst comboAcceptLoop.simps) simp
next
  case (Suc fuel)
  obtain q c1 where q: "GetComboRFQStatus X G rfqID (tick (tick c)) = (q, c1)" by fastforce
  have "N \<le> ticks c1 + fuel" using Suc.prems GetComboRFQStatus_run(1) [OF q] by simp
  from Suc.IH [OF this] q show ?case
    by (subst comboAcceptLoop.simps) (auto split: sum.splits option.splits)
qed

section \<open>The acceptance order\<close>

text \<open>\<open>ord\<close> is signed for the exchange of version 3: its signature is the wallet's, over the typed data of its other fields.\<close>

definition comboSigned :: "'d env \<Rightarrow> 'd client \<Rightarrow> string \<Rightarrow> comboSignedOrderWire \<Rightarrow> bool" where
  "comboSigned E c exchange ord \<longleftrightarrow>
     (let td = buildOrderTypedData (chainID c) ''3'' exchange (typedOrder ord)
      in if signatureType c = SignatureTypePoly1271 then
           \<exists>n sig separator contents. e_signTypedData E n (nestedTypedData td (chainID c)) = Inr sig \<and>
             e_hashStruct E td ''EIP712Domain'' = Inr separator \<and> e_hashStruct E td ''Order'' = Inr contents \<and>
             cs_Signature ord = wrapPoly1271 sig separator contents
         else \<exists>n sig. e_signTypedData E n td = Inr sig \<and> cs_Signature ord = ''0x'' @ hex_encode sig)"

lemma typedOrder_signature [simp]: "typedOrder (ord\<lparr>cs_Signature := s\<rparr>) = typedOrder ord"
  by (simp add: typedOrder_def)

lemma signComboOrder_run:
  assumes "signComboOrder E ord exchange c = (Inr ord', c')" "chainID c = chainID d" "signatureType c = signatureType d"
  shows "\<exists>s. ord' = ord\<lparr>cs_Signature := s\<rparr> \<and> comboSigned E d exchange ord'"
  using assms
  by (auto simp: signComboOrder_def signPoly1271Order_def comboSigned_def comboProtocolVersion_def go_run interact_def Let_def
      split: if_splits) blast+

lemma comboAcceptSigned_run:
  assumes "comboAcceptSigned E X G params c = (Inr (exchange, ord), c')"
  shows "validateComboAcceptRequest params = Inr () \<and> requireComboAccount X c = Inr () \<and> g_builderAuth G \<and>
    (\<exists>contracts. getContractConfig (chainID c) = Inr contracts \<and> exchange = cc_ExchangeV3 contracts) \<and> exchange \<noteq> [] \<and>
    (\<exists>makerAmount takerAmount salt now s.
       decimalToE6String (e_U E) (qr_MakerAmount (ap_Quote params)) = Inr makerAmount \<and>
       decimalToE6String (e_U E) (qr_TakerAmount (ap_Quote params)) = Inr takerAmount \<and>
       ord = (comboAcceptOrder c params makerAmount takerAmount salt now)\<lparr>cs_Signature := s\<rparr>) \<and>
    comboSigned E c exchange ord"
proof -
  from assms obtain contracts makerAmount takerAmount salt now c1 where r:
    "validateComboAcceptRequest params = Inr ()" "requireComboAccount X c = Inr ()" "g_builderAuth G"
    "getContractConfig (chainID c) = Inr contracts" "exchange = cc_ExchangeV3 contracts" "cc_ExchangeV3 contracts \<noteq> []"
    "decimalToE6String (e_U E) (qr_MakerAmount (ap_Quote params)) = Inr makerAmount"
    "decimalToE6String (e_U E) (qr_TakerAmount (ap_Quote params)) = Inr takerAmount"
    "signComboOrder E (comboAcceptOrder c params makerAmount takerAmount salt now) (cc_ExchangeV3 contracts) (tick (tick c)) = (Inr ord, c1)"
    unfolding comboAcceptSigned_def by (auto simp: go_run interact_def time_now_def)
  from signComboOrder_run [OF r(9), of c] r show ?thesis by auto
qed

section \<open>Properties\<close>

text \<open>
  A combo request is sent in canonical form: between 2 and 50 legs, each written without leading zeros, strictly increasing as numbers, and
  exactly the numbers the caller gave; normalising twice changes nothing.
\<close>

theorem combo_legs_canonical:
  assumes "normalizeComboQuoteRequest U params = Inr p"
  shows "\<exists>legs. rq_LegPositionIDs p = map show_nat legs \<and> sorted_wrt (<) legs \<and> set legs \<subseteq> {..< 2 ^ 256} \<and> length legs \<in> {2..50} \<and>
    set legs = digits_value ` set (rq_LegPositionIDs params) \<and> length legs = length (rq_LegPositionIDs params) \<and>
    normalizeComboQuoteRequest U p = Inr p"
proof -
  define ns where "ns = map digits_value (rq_LegPositionIDs params)"
  note r = normalize_run [OF assms, folded ns_def]
  have legs: "comboLegs (rq_LegPositionIDs p) [] = Inr (map int (sort ns))"
    using comboLegs_canonical [of "map int (sort ns)" "[]"] r(1-3)
    by (simp add: distinct_map list_all_iff validateUint256_def comp_def)
  moreover have "comboAmount p = comboAmount params" using r(1) by (simp add: comboAmount_def)
  moreover have "length (rq_LegPositionIDs p) = length ns" using r(1) by simp
  moreover have "map show_int (sort (map int (sort ns))) = rq_LegPositionIDs p" using r(1) by (simp add: sort_int_nat comp_def sorted_sort_id)
  moreover have "sort (map int (sort ns)) = map int (sort ns)" by (simp add: sort_int_nat sorted_sort_id)
  ultimately have "normalizeComboQuoteRequest U p = Inr p"
    using r(4,5) by (auto simp: normalizeComboQuoteRequest_def comboMinLegPositionIDs_def comboMaxLegPositionIDs_def Let_def)
  moreover have "sorted_wrt (<) (sort ns)" using r(2) by (simp add: strict_sorted_iff)
  ultimately show ?thesis
    using r by (intro exI [of _ "sort ns"]) (auto simp: ns_def)
qed

text \<open>
  C20: a usable quote is for what was asked.  When \<open>RequestComboQuote\<close> returns a quote, the request the gateway echoed has the caller's direction,
  the caller's legs as numbers and the caller's amount in millionths; the two positions are different; a SELL quote has its proceeds; and
  the quote's amounts are exactly the gateway's base units over a million.
\<close>

theorem combo_quote_matches_request:
  assumes "udecimal (e_U E) val" "RequestComboQuote E X G params c = (Inr res, c')" "cr_Quote res = Some q"
  shows "\<exists>echo amount n request wire quote. cr_Request res = Some echo \<and> g_create G n request = Inr wire \<and> bw_Quote wire = Some quote \<and>
    rr_Direction echo = rq_Direction params \<and> cr_Direction res = rq_Direction params \<and>
    map digits_value (rr_LegPositionIDs echo) = sort (map digits_value (rq_LegPositionIDs params)) \<and>
    comboAmount params = Inr amount \<and> of_nat (digits_value (sz_ValueE6 (rr_RequestedSize echo))) = val amount * 10 ^ 6 \<and>
    cr_YesPositionID res \<noteq> cr_NoPositionID res \<and> (rq_Direction params = RFQDirectionSell \<longrightarrow> cq_NetReceive q \<noteq> None) \<and>
    e6_denotes (qw_MakerAmountE6 quote) (cq_MakerAmount q) \<and> e6_denotes (qw_TakerAmountE6 quote) (cq_TakerAmount q)"
proof -
  obtain p wire where p: "normalizeComboQuoteRequest (e_U E) params = Inr p"
    and w: "g_create G (ticks c) (comboCreateRequest (e_U E) c p) = Inr wire"
    and res: "comboQuoteResult p (comboCreateRequest (e_U E) c p) wire = Inr res"
    using assms(2) by (auto simp: RequestComboQuote_def go_run interact_def Let_def)
  obtain quote where quote: "bw_Quote wire = Some quote"
    using res assms(3) by (auto simp: comboQuoteResult_def Let_def split: option.splits if_splits)
  then have q: "validateComboQuoteEcho wire quote (comboCreateRequest (e_U E) c p) = Inr ()"
    "comboQuoteFromWire quote (bw_ExpiresAt wire) = Inr q" "cr_Request res = Some (bw_Request wire)"
    "cr_Direction res = rr_Direction (bw_Request wire)" "cr_YesPositionID res = rr_YesPositionID (bw_Request wire)"
    "cr_NoPositionID res = rr_NoPositionID (bw_Request wire)"
    "rr_Direction (bw_Request wire) = RFQDirectionSell \<longrightarrow> qw_NetReceiveE6 quote \<noteq> None"
    using res assms(3) by (auto simp: comboQuoteResult_def Let_def go_run split: if_splits)
  have am: "e6ToDecimal (qw_MakerAmountE6 quote) = Inr (cq_MakerAmount q)" "e6ToDecimal (qw_TakerAmountE6 quote) = Inr (cq_TakerAmount q)"
    "qw_NetReceiveE6 quote \<noteq> None \<longrightarrow> cq_NetReceive q \<noteq> None"
    using q(2) by (auto simp: comboQuoteFromWire_def go_run split: option.splits)
  note r = normalize_run [OF p]
  obtain amount where a: "comboAmount params = Inr amount" "\<not> u_cmp (e_U E) amount (u_zero (e_U E)) \<le> 0" "decimalPlaces (e_U E) amount \<le> 6"
    using r(5) by blast
  have echo: "echoMismatches wire (comboCreateRequest (e_U E) c p) = []" "rr_YesPositionID (bw_Request wire) \<noteq> rr_NoPositionID (bw_Request wire)"
    using q(1) by (auto simp: validateComboQuoteEcho_def Let_def split: if_splits)
  obtain legs where l: "echoLegs (rr_LegPositionIDs (bw_Request wire)) = (legs, False)" "legs = rq_LegPositionIDs p"
    and d: "rr_Direction (bw_Request wire) = rq_Direction p"
    and sz: "isNumericString (sz_ValueE6 (rr_RequestedSize (bw_Request wire)))"
      "show_nat (digits_value (sz_ValueE6 (rr_RequestedSize (bw_Request wire)))) = sz_ValueE6 (br_RequestedSize (comboCreateRequest (e_U E) c p))"
    using echo(1) by (auto simp: echoMismatches_def comboCreateRequest_def Let_def numeric_value split: prod.splits option.splits if_splits)
  have "map digits_value (rr_LegPositionIDs (bw_Request wire)) = sort (map digits_value (rq_LegPositionIDs params))"
    using arg_cong [OF echoLegs_good [OF l(1)], of "map digits_value"] l(2) r(1) by (simp add: comp_def)
  moreover have "sz_ValueE6 (br_RequestedSize (comboCreateRequest (e_U E) c p)) = decimalToE6 (e_U E) amount"
    using a(1) r(1) by (auto simp: comboCreateRequest_def comboAmount_def rfq_defs split: if_splits)
  then have "of_nat (digits_value (sz_ValueE6 (rr_RequestedSize (bw_Request wire)))) = val amount * 10 ^ 6"
    using udecimal.e6_amount [OF assms(1), of amount] a(2,3) sz(2) by (metis digits_value_show_nat)
  ultimately show ?thesis
    using q am a(1) d w quote echo(2) r(1) e6_decimal_numeral [OF am(1)] e6_decimal_numeral [OF am(2)]
    by (intro exI [of _ "bw_Request wire"] exI [of _ amount] exI [of _ "ticks c"] exI [of _ "comboCreateRequest (e_U E) c p"]
        exI [of _ wire] exI [of _ quote]) (auto simp: e6_denotes_def)
qed

text \<open>
  C19: accepting a quote signs and posts exactly what the gateway quoted.  If the amounts of the quote came from the gateway's base units, then the acceptance names the quote, and the
  order in it carries these base units, the caller's position, side and builder code, and is signed for the Exchange V3 contract of the chain.  The result is what the
  gateway answers to that acceptance of that request: expired if it says that the window has ended, and otherwise the outcome of the status it returns, as soon as this is no longer the pending one.
\<close>

theorem combo_accept_signs_quote:
  assumes "udecimal (e_U E) val" "AcceptComboQuote fuel E X G params c = Some (Inr res, c')"
    and "e6ToDecimal m = Inr (qr_MakerAmount (ap_Quote params))" "0 < digits_value m" "digits_value m < 2 ^ 256"
    and "e6ToDecimal t = Inr (qr_TakerAmount (ap_Quote params))" "0 < digits_value t" "digits_value t < 2 ^ 256"
  shows "\<exists>exchange contracts ord c1. comboAcceptSigned E X G params c = (Inr (exchange, ord), c1) \<and>
    getContractConfig (chainID c) = Inr contracts \<and> exchange = cc_ExchangeV3 contracts \<and> comboSigned E c exchange ord \<and>
    cs_MakerAmount ord = show_nat (digits_value m) \<and> cs_TakerAmount ord = show_nat (digits_value t) \<and>
    cs_TokenID ord = ap_PositionID params \<and> cs_Side ord = ap_Direction params \<and> cs_Builder ord = ap_BuilderCode params \<and>
    cs_Maker ord = comboMakerAddress c \<and> ar_Status res \<noteq> ComboRFQAwaitingMakerConfirmation \<and>
    (case g_accept G (ticks c1) (ap_RFQID params) \<lparr>ba_QuoteID = qr_QuoteID (ap_Quote params), ba_SignedOrder = ord\<rparr> of
       Inl e \<Rightarrow> comboAcceptanceExpired e \<and> ar_Status res = ComboRFQExpired
     | Inr wire \<Rightarrow> (\<exists>st. comboAcceptLoop fuel E X G (ap_RFQID params) (e_clock E (ticks (tick c1)) + comboAcceptOutcomeTimeout) wire (tick (tick c1)) = Some (Inr st, c') \<and>
         res = comboAcceptOutcome G (chainID c) exchange ord st))"
proof -
  obtain exchange ord c1 where s: "comboAcceptSigned E X G params c = (Inr (exchange, ord), c1)"
    using assms(2) by (auto simp: AcceptComboQuote_def split: prod.splits sum.splits)
  have "ar_Status res \<noteq> ComboRFQAwaitingMakerConfirmation \<and>
    (case g_accept G (ticks c1) (ap_RFQID params) \<lparr>ba_QuoteID = qr_QuoteID (ap_Quote params), ba_SignedOrder = ord\<rparr> of
       Inl e \<Rightarrow> comboAcceptanceExpired e \<and> ar_Status res = ComboRFQExpired
     | Inr wire \<Rightarrow> (\<exists>st. comboAcceptLoop fuel E X G (ap_RFQID params) (e_clock E (ticks (tick c1)) + comboAcceptOutcomeTimeout) wire (tick (tick c1)) = Some (Inr st, c') \<and>
         res = comboAcceptOutcome G (chainID c) exchange ord st))"
  proof (cases "g_accept G (ticks c1) (ap_RFQID params) \<lparr>ba_QuoteID = qr_QuoteID (ap_Quote params), ba_SignedOrder = ord\<rparr>")
    case (Inl e)
    then show ?thesis using assms(2) s by (auto simp: AcceptComboQuote_def interact_def combo_status_defs split: if_splits)
  next
    case (Inr wire)
    obtain st where st: "comboAcceptLoop fuel E X G (ap_RFQID params) (e_clock E (ticks (tick c1)) + comboAcceptOutcomeTimeout) wire
        (tick (tick c1)) = Some (Inr st, c')" "res = comboAcceptOutcome G (chainID c) exchange ord st"
      using assms(2) s Inr by (auto simp: AcceptComboQuote_def interact_def go_run)
    from comboAcceptLoop_done [OF st(1)] st Inr show ?thesis by (auto simp: comboAcceptOutcome_def Let_def simp del: comboAcceptLoop.simps)
  qed
  moreover note comboAcceptSigned_run [OF s] udecimal.e6_round_trip [OF assms(1,3-5)] udecimal.e6_round_trip [OF assms(1,6-8)]
  ultimately show ?thesis using s by (auto simp: comboAcceptOrder_def simp del: comboAcceptLoop.simps)
qed

text \<open>
  \<open>WaitForComboFill\<close> reports a fill only for a request the gateway reported as FILLED or CONFIRMED with a well-formed transaction hash, which it
  returns; any other result is a failure the gateway reported.
\<close>

theorem combo_fill_sound:
  assumes "WaitForComboFill fuel E X G params c = Some (Inr r, c')"
  shows "\<exists>n st. g_status G n (wf_RFQID params) = Inr st \<and> wr_RFQID r = sr_RFQID st \<and>
    (if wr_Status r = ComboRFQFilled
     then (sr_Status st = ComboRFQFilled \<or> sr_Status st = ComboRFQConfirmed) \<and> wr_TxHash r = sr_TxHash st \<and>
       length (wr_TxHash r) = 66 \<and> (\<exists>bs. unhex (drop 2 (wr_TxHash r)) = Some bs)
     else wr_Status r = sr_Status st \<and> Terminal (sr_Status st) \<and> wr_TxHash r = [])"
proof -
  obtain n st where "g_status G n (wf_RFQID params) = Inr st" "comboFillOutcome st = Some (Inr r)"
    using assms comboFillLoop_sound by (fastforce simp: WaitForComboFill_def Let_def split: if_splits)
  then show ?thesis
    by (intro exI [of _ n] exI [of _ st])
      (auto simp: comboFillOutcome_def comboTransactionHashValid_def Terminal_def combo_status_defs split: if_splits)
qed

text \<open>
  Both waits end: accepting returns when the clock passes the 30 seconds at some interaction, waiting for the fill when the clock
  passes its timeout and requests fail from then on, as requests under an ended context do.
\<close>

theorem combo_waits_terminate:
  assumes "\<forall>n \<ge> N. e_clock E (Suc (ticks c1)) + comboAcceptOutcomeTimeout < e_clock E n"
    and "comboAcceptSigned E X G acc c = (Inr (exchange, ord), c1)"
    and "wf_Timeout fill > 0" "\<forall>n \<ge> M. e_clock E (ticks c) + wf_Timeout fill \<le> e_clock E n \<and> (\<exists>e. g_status G n (wf_RFQID fill) = Inl e)"
  shows "AcceptComboQuote (Suc N) E X G acc c \<noteq> None \<and> WaitForComboFill (Suc M) E X G fill c \<noteq> None"
proof (rule conjI)
  have "comboAcceptLoop (Suc N) E X G (ap_RFQID acc) (e_clock E (ticks (tick c1)) + comboAcceptOutcomeTimeout) wire (tick (tick c1)) \<noteq> None"
    for wire using assms(1) by (intro comboAcceptLoop_ends [of N]) simp_all
  then show "AcceptComboQuote (Suc N) E X G acc c \<noteq> None"
    using assms(2) by (cases "g_accept G (ticks c1) (ap_RFQID acc) \<lparr>ba_QuoteID = qr_QuoteID (ap_Quote acc), ba_SignedOrder = ord\<rparr>")
      (auto simp: AcceptComboQuote_def interact_def simp del: not_None_eq)
  have "comboFillLoop (Suc M) E X G (wf_RFQID fill) (e_clock E (ticks c) + wf_Timeout fill) i (tick c) \<noteq> None" for i
    using assms(4) by (intro comboFillLoop_ends [of M]) simp_all
  then show "WaitForComboFill (Suc M) E X G fill c \<noteq> None"
    using assms(3) by (simp add: WaitForComboFill_def Let_def del: comboFillLoop.simps)
qed

section \<open>A gateway\<close>

definition demo_hash :: string where
  "demo_hash = ''0x'' @ replicate 64 (CHR ''0'')"

definition demo_status :: "ComboRFQStatus \<Rightarrow> ComboRFQStatusResult" where
  "demo_status st = \<lparr>sr_RFQID = ''r1'', sr_Status = st, sr_TakerOrderHash = [], sr_TxHash = demo_hash, sr_Error = None\<rparr>"

text \<open>Quotes every request it can read; the maker needs until the fifth interaction; the service stops answering at the twentieth.\<close>

definition demo_gateway :: comboEnv where
  "demo_gateway = \<lparr>g_builderAuth = True,
     g_create = (\<lambda>_ r. Inr \<lparr>bw_RFQID = ''r1'', bw_Status = ComboRFQAwaitingRequesterAcceptance, bw_ExpiresAt = 0, bw_BuilderCode = demo_hash,
       bw_Request = \<lparr>rr_RFQID = ''r1'', rr_LegPositionIDs = br_LegPositionIDs r, rr_ConditionID = ''0x03'', rr_YesPositionID = ''8'',
         rr_NoPositionID = ''9'', rr_Direction = br_Direction r, rr_Side = br_Side r, rr_RequestedSize = br_RequestedSize r\<rparr>,
       bw_Quote = Some \<lparr>qw_QuoteID = ''q1'', qw_BlendedPriceE6 = ''400000'', qw_MakerAmountE6 = ''5250000'', qw_TakerAmountE6 = ''12000000'',
         qw_TotalRequiredE6 = ''5250000'', qw_NetReceiveE6 = None\<rparr>,
       bw_Error = None\<rparr>),
     g_accept = (\<lambda>_ _ _. Inr (demo_status ComboRFQAwaitingMakerConfirmation)),
     g_status = (\<lambda>n _. if n < 5 then Inr (demo_status ComboRFQAwaitingMakerConfirmation)
       else if n < 20 then Inr (demo_status ComboRFQConfirmed) else Inl (Remote 0)),
     g_typedDataAndHash = (\<lambda>_. Inr [1]), g_errorText = (\<lambda>_. [])\<rparr>"

definition demo_combo :: "dec RequestComboQuoteParams" where
  "demo_combo = \<lparr>rq_LegPositionIDs = [''20'', ''07''], rq_Direction = RFQDirectionBuy, rq_Amount = Dec 52500000000000000000, rq_Size = Dec 0\<rparr>"

definition demo_accept :: AcceptComboQuoteParams where
  "demo_accept = \<lparr>ap_RFQID = ''r1'', ap_Direction = SideBuy, ap_PositionID = ''8'', ap_BuilderCode = demo_hash,
     ap_Quote = \<lparr>qr_QuoteID = ''q1'', qr_MakerAmount = ''5.25'', qr_TakerAmount = ''12''\<rparr>\<rparr>"

definition demo_fill :: WaitForComboFillParams where
  "demo_fill = \<lparr>wf_RFQID = ''r1'', wf_Timeout = 10, wf_PollInterval = 0\<rparr>"

text \<open>A clock that is 31 seconds later from the twentieth interaction on.\<close>

definition slow_env :: "dec env" where
  "slow_env = demo_env\<lparr>e_clock := (\<lambda>n. if n < 20 then demo_time else demo_time + 31000000000)\<rparr>"

lemma demo_normalized: "normalizeComboQuoteRequest dec19_ops demo_combo = Inr (demo_combo\<lparr>rq_LegPositionIDs := [''7'', ''20'']\<rparr>)"
  by code_simp

theorem combo_legs_canonical_witness:
  "\<exists>legs. [''7'', ''20''] = map show_nat legs \<and> sorted_wrt (<) legs \<and> set legs = digits_value ` {''20'', ''07''}"
proof -
  have "rq_LegPositionIDs (demo_combo\<lparr>rq_LegPositionIDs := [''7'', ''20'']\<rparr>) = [''7'', ''20'']" "rq_LegPositionIDs demo_combo = [''20'', ''07'']"
    by (simp_all add: demo_combo_def)
  from combo_legs_canonical [OF demo_normalized, unfolded this list.set] show ?thesis
    by (elim exE conjE) (intro exI conjI, assumption+)
qed

lemma run_result:
  "map_sum id f (fst r) = Inr x \<Longrightarrow> \<exists>y c. r = (Inr y, c) \<and> f y = x"
  "map_option (map_sum id f \<circ> fst) p = Some (Inr x) \<Longrightarrow> \<exists>y c. p = Some (Inr y, c) \<and> f y = x"
  by (cases r; cases "fst r"; cases p; cases "fst (the p)"; force)+

lemma demo_result:
  "map_sum id (map_option cq_MakerAmount \<circ> cr_Quote)
     (case g_create demo_gateway 0 (comboCreateRequest dec19_ops demo_client (demo_combo\<lparr>rq_LegPositionIDs := [''7'', ''20'']\<rparr>)) of
        Inl e \<Rightarrow> Inl e
      | Inr wire \<Rightarrow> comboQuoteResult (demo_combo\<lparr>rq_LegPositionIDs := [''7'', ''20'']\<rparr>)
          (comboCreateRequest dec19_ops demo_client (demo_combo\<lparr>rq_LegPositionIDs := [''7'', ''20'']\<rparr>)) wire) = Inr (Some ''5.25'')"
  by code_simp

lemma demo_quoted:
  "map_sum id (map_option cq_MakerAmount \<circ> cr_Quote) (fst (RequestComboQuote demo_env demo_eth demo_gateway demo_combo demo_client)) =
     Inr (Some ''5.25'')"
proof -
  have d: "ticks demo_client = 0" "signatureType demo_client \<noteq> SignatureTypePoly1271" "e_U demo_env = dec19_ops" "g_builderAuth demo_gateway"
    by (simp_all add: demo_client_def newClientCacheState_def clientCacheState.defs SignatureTypePoly1271_def demo_env_def demo_gateway_def)
  show ?thesis
    unfolding demo_result [symmetric]
    by (simp add: RequestComboQuote_def bindE_def demo_normalized requireComboAccount_def interact_def Let_def d split: sum.splits)
qed

theorem combo_quote_matches_request_witness:
  "\<exists>res echo q. fst (RequestComboQuote demo_env demo_eth demo_gateway demo_combo demo_client) = Inr res \<and> cr_Quote res = Some q \<and>
     cr_Request res = Some echo \<and> map digits_value (rr_LegPositionIDs echo) = sort (map digits_value [''20'', ''07''])"
proof -
  obtain res c' q where r: "RequestComboQuote demo_env demo_eth demo_gateway demo_combo demo_client = (Inr res, c')" "cr_Quote res = Some q"
    using run_result(1) [OF demo_quoted] by auto
  have "udecimal (e_U demo_env) dval" by (simp add: demo_env_def dec19.udecimal_axioms)
  from combo_quote_matches_request [OF this r] r show ?thesis by (auto simp: demo_combo_def)
qed

lemma demo_accepted: "map_option (map_sum id ar_Status \<circ> fst) (AcceptComboQuote 9 demo_env demo_eth demo_gateway demo_accept demo_client) =
    Some (Inr ComboRFQConfirmed)"
  by code_simp

theorem combo_accept_signs_quote_witness:
  "\<exists>exchange ord c1. comboAcceptSigned demo_env demo_eth demo_gateway demo_accept demo_client = (Inr (exchange, ord), c1) \<and>
     comboSigned demo_env demo_client exchange ord \<and> cs_MakerAmount ord = show_nat 5250000 \<and> cs_TakerAmount ord = show_nat 12000000"
proof -
  obtain res c' where r: "AcceptComboQuote 9 demo_env demo_eth demo_gateway demo_accept demo_client = Some (Inr res, c')"
    using run_result(2) [OF demo_accepted] by blast
  have u: "udecimal (e_U demo_env) dval" by (simp add: demo_env_def dec19.udecimal_axioms)
  have e: "e6ToDecimal ''5250000'' = Inr (qr_MakerAmount (ap_Quote demo_accept))" "e6ToDecimal ''12000000'' = Inr (qr_TakerAmount (ap_Quote demo_accept))"
    "digits_value ''5250000'' = 5250000" "digits_value ''12000000'' = 12000000" by code_simp+
  from combo_accept_signs_quote [OF u r e(1) _ _ e(2)] show ?thesis unfolding e(3,4) by auto
qed

lemma demo_filled: "map_option fst (WaitForComboFill 9 demo_env demo_eth demo_gateway demo_fill demo_client) =
    Some (Inr \<lparr>wr_RFQID = ''r1'', wr_Status = ComboRFQFilled, wr_TxHash = demo_hash, wr_Error = None\<rparr>)"
  by code_simp

theorem combo_fill_sound_witness:
  "\<exists>n st. g_status demo_gateway n ''r1'' = Inr st \<and> (sr_Status st = ComboRFQFilled \<or> sr_Status st = ComboRFQConfirmed) \<and>
     sr_TxHash st = demo_hash"
proof -
  obtain c' where "WaitForComboFill 9 demo_env demo_eth demo_gateway demo_fill demo_client =
    Some (Inr \<lparr>wr_RFQID = ''r1'', wr_Status = ComboRFQFilled, wr_TxHash = demo_hash, wr_Error = None\<rparr>, c')"
    using demo_filled by auto
  from combo_fill_sound [OF this] obtain n st where "g_status demo_gateway n (wf_RFQID demo_fill) = Inr st"
    "sr_Status st = ComboRFQFilled \<or> sr_Status st = ComboRFQConfirmed" "demo_hash = sr_TxHash st" by auto
  then show ?thesis by (intro exI [of _ n] exI [of _ st]) (simp add: demo_fill_def)
qed

theorem combo_waits_terminate_witness:
  "AcceptComboQuote 21 slow_env demo_eth demo_gateway demo_accept demo_client \<noteq> None \<and>
   WaitForComboFill 21 slow_env demo_eth demo_gateway demo_fill demo_client \<noteq> None"
proof -
  have "map_sum id (\<lambda>_. ()) (fst (comboAcceptSigned slow_env demo_eth demo_gateway demo_accept demo_client)) = Inr ()"
    "ticks (snd (comboAcceptSigned slow_env demo_eth demo_gateway demo_accept demo_client)) = 3" by code_simp+
  from run_result(1) [OF this(1)] this(2) obtain exchange ord c1 where s: "comboAcceptSigned slow_env demo_eth demo_gateway demo_accept demo_client = (Inr (exchange, ord), c1)"
    "ticks c1 = 3"
    by auto
  have "\<forall>n \<ge> 20. e_clock slow_env (Suc (ticks c1)) + comboAcceptOutcomeTimeout < e_clock slow_env n"
    using s(2) by (simp add: slow_env_def comboAcceptOutcomeTimeout_def)
  moreover have "\<forall>n \<ge> 20. e_clock slow_env (ticks demo_client) + wf_Timeout demo_fill \<le> e_clock slow_env n \<and>
      (\<exists>e. g_status demo_gateway n (wf_RFQID demo_fill) = Inl e)"
    by (simp add: slow_env_def demo_fill_def demo_gateway_def demo_client_def newClientCacheState_def clientCacheState.defs)
  ultimately show ?thesis using combo_waits_terminate [OF _ s(1), of 20 demo_fill 20] by (simp add: demo_fill_def)
qed

end
