(* ===== verification/ComboQuoter.thy ===== *)
theory ComboQuoter
  imports ComboRfq
begin

text \<open>
  \<open>clob/combo_quoter_quote.go\<close>: the maker side.  A quoter answers a request with a price and a size, and signs the order that realises the
  quote: from its collateral it buys, from its inventory it sells; the token is the combo's YES or NO position.
\<close>

section \<open>Quotes\<close>

definition ComboQuoteCollateral :: string where "ComboQuoteCollateral = ''collateral''"
definition ComboQuoteInventory :: string where "ComboQuoteInventory = ''inventory''"

record ComboRFQQuoteResponse =
  pq_Price :: string
  pq_Size :: string
  pq_Source :: string

record ComboRFQRequestedSize =
  rs_Unit :: string
  rs_Value :: string

record ComboRFQQuoteRequest =
  cr0_RFQID :: string
  cr0_RequestorPublicID :: string
  cr0_LegPositionIDs :: "string list"
  cr0_ConditionID :: string
  cr0_YesPositionID :: string
  cr0_NoPositionID :: string
  cr0_Direction :: string
  cr0_Side :: string
  cr0_RequestedSize :: ComboRFQRequestedSize
  cr0_SubmissionDeadline :: int

record comboQuoterOrder =
  qo_Salt :: string
  qo_Maker :: string
  qo_Signer :: string
  qo_TokenID :: string
  qo_MakerAmount :: string
  qo_TakerAmount :: string
  qo_Side :: "8 word"
  qo_SignatureType :: SignatureType
  qo_Timestamp :: string
  qo_Builder :: string
  qo_Metadata :: string
  qo_Signature :: string

record comboQuoterQuote =
  qq_Type :: string
  qq_RFQID :: string
  qq_PriceE6 :: string
  qq_SizeE6 :: string
  qq_SignedOrder :: comboQuoterOrder

text \<open>\<open>strings.Cut(value, ".")\<close>\<close>

definition cutPoint :: "string \<Rightarrow> string \<times> string" where
  "cutPoint s = (takeWhile (\<lambda>c. c \<noteq> CHR ''.'') s, drop 1 (dropWhile (\<lambda>c. c \<noteq> CHR ''.'') s))"

definition comboPositiveE6 :: "string \<Rightarrow> int result" where
  "comboPositiveE6 s =
     (let (whole, fraction) = cutPoint s
      in if \<not> isNumericString whole \<or> (fraction \<noteq> [] \<and> \<not> isNumericString fraction) \<or> length fraction > 6
         then Inl (Msg ''amount must be an unsigned decimal with at most six places'')
         else case big_int_set_string (whole @ fraction @ replicate (6 - length fraction) (CHR ''0'')) 10 of
           None \<Rightarrow> Inl (Msg ''e6 amount must be a positive uint256'')
         | Some v \<Rightarrow> if v \<le> 0 \<or> \<not> validateUint256 v then Inl (Msg ''e6 amount must be a positive uint256'') else Inr v)"

text \<open>The size of a quote: the explicit one, or the whole request, converted to shares at the quoted price.\<close>

definition comboQuoteSize :: "ComboRFQQuoteRequest \<Rightarrow> ComboRFQQuoteResponse \<Rightarrow> int \<Rightarrow> int result" where
  "comboQuoteSize request response price =
     (if pq_Size response \<noteq> [] then comboPositiveE6 (pq_Size response)
      else rbind (comboPositiveE6 (rs_Value (cr0_RequestedSize request))) (\<lambda>sz.
        if rs_Unit (cr0_RequestedSize request) = RFQSizeUnitShares then Inr sz
        else if rs_Unit (cr0_RequestedSize request) = RFQSizeUnitNotional then Inr (sz * 1000000 div price)
        else Inl (Msg ''unknown requested size unit'')))"

definition comboQuoteSource :: "ComboRFQQuoteResponse \<Rightarrow> string" where
  "comboQuoteSource response = (if pq_Source response = [] then ComboQuoteCollateral else pq_Source response)"

text \<open>Whether the order trades the complement of the requested position.\<close>

definition comboComplement :: "string \<Rightarrow> string \<Rightarrow> bool" where
  "comboComplement direction source \<longleftrightarrow>
     (direction = RFQDirectionBuy \<and> source = ComboQuoteCollateral) \<or> (direction = RFQDirectionSell \<and> source = ComboQuoteInventory)"

text \<open>Maker and taker amount in base units.\<close>

definition comboQuoteAmounts :: "string \<Rightarrow> bool \<Rightarrow> int \<Rightarrow> int \<Rightarrow> int \<times> int" where
  "comboQuoteAmounts source complement price sz =
     (let orderPrice = (if complement then 1000000 - price else price); collateral = orderPrice * sz
      in if source = ComboQuoteInventory then (sz, collateral div 1000000)
         else ((collateral + 999999) div 1000000, sz))"

definition comboQuoteOrder ::
  "'d client \<Rightarrow> string \<Rightarrow> int \<Rightarrow> int \<Rightarrow> Side \<Rightarrow> 64 word \<Rightarrow> int \<Rightarrow> comboSignedOrderWire" where
  "comboQuoteOrder c tokenID makerAmount takerAmount side salt now =
     \<lparr>cs_Salt = show_nat (unat salt), cs_Maker = comboMakerAddress c,
      cs_Signer = (if signatureType c = SignatureTypePoly1271 then comboMakerAddress c else signerAddress c),
      cs_TokenID = tokenID, cs_MakerAmount = show_int makerAmount, cs_TakerAmount = show_int takerAmount, cs_Side = side,
      cs_SignatureType = signatureType c, cs_Timestamp = show_int (unixSeconds now), cs_Builder = zeroBytes32, cs_Expiration = [],
      cs_Metadata = zeroBytes32, cs_Signature = []\<rparr>"

text \<open>The order on the quoter's wire: a numeric side and no expiration.\<close>

definition comboQuoterWire :: "comboSignedOrderWire \<Rightarrow> comboQuoterOrder" where
  "comboQuoterWire ord =
     \<lparr>qo_Salt = cs_Salt ord, qo_Maker = cs_Maker ord, qo_Signer = cs_Signer ord, qo_TokenID = cs_TokenID ord,
      qo_MakerAmount = cs_MakerAmount ord, qo_TakerAmount = cs_TakerAmount ord, qo_Side = (if cs_Side ord = SideSell then 1 else 0),
      qo_SignatureType = cs_SignatureType ord, qo_Timestamp = cs_Timestamp ord, qo_Builder = cs_Builder ord,
      qo_Metadata = cs_Metadata ord, qo_Signature = cs_Signature ord\<rparr>"

definition comboQuoteRequestValid :: "ComboRFQQuoteRequest \<Rightarrow> bool" where
  "comboQuoteRequestValid request \<longleftrightarrow> cr0_RFQID request \<noteq> [] \<and> cr0_Side request = RFQSideYes \<and>
     (cr0_Direction request = RFQDirectionBuy \<or> cr0_Direction request = RFQDirectionSell) \<and>
     comboPositionValid (cr0_YesPositionID request) \<and> comboPositionValid (cr0_NoPositionID request)"

definition buildComboQuoterQuote ::
  "'d env \<Rightarrow> eth_ops \<Rightarrow> ComboRFQQuoteRequest \<Rightarrow> ComboRFQQuoteResponse \<Rightarrow> ('d client, comboQuoterQuote) act" where
  "buildComboQuoterQuote E X request response = (\<lambda>c.
     bindE (lift (requireComboAccount X c)) (\<lambda>_.
     bindE (lift (guardE (comboQuoteRequestValid request)
                    (Msg ''invalid combo quote request identity, direction, side or position IDs''))) (\<lambda>_.
     bindE (lift (wrap_err ''combo quote price'' (comboPositiveE6 (pq_Price response)))) (\<lambda>price.
     bindE (lift (guardE (price < 1000000) (Msg ''combo quote price must be less than 1''))) (\<lambda>_.
       let source = comboQuoteSource response
       in bindE (lift (guardE (source = ComboQuoteCollateral \<or> source = ComboQuoteInventory)
                         (Msg ''combo quote source must be collateral or inventory''))) (\<lambda>_.
          bindE (lift (wrap_err ''combo quote size'' (comboQuoteSize request response price))) (\<lambda>sz.
          bindE (lift (guardE (0 < sz) (Msg ''combo quote size rounds to zero''))) (\<lambda>_.
            let complement = comboComplement (cr0_Direction request) source;
                tokenID = (if complement then cr0_NoPositionID request else cr0_YesPositionID request);
                side = (if source = ComboQuoteInventory then SideSell else SideBuy);
                (makerAmount, takerAmount) = comboQuoteAmounts source complement price sz
            in bindE (lift (validateOrderAmounts (Some makerAmount) (Some takerAmount))) (\<lambda>_.
               bindE (lift (getContractConfig (chainID c))) (\<lambda>contracts.
               bindE (lift (guardE (cc_ExchangeV3 contracts \<noteq> []) (Msg ''combo quote requires Exchange V3''))) (\<lambda>_.
               bindE (interact (e_salt E)) (\<lambda>salt.
               bindE (time_now E) (\<lambda>now.
               bindE (signComboOrder E (comboQuoteOrder c tokenID makerAmount takerAmount side salt now) (cc_ExchangeV3 contracts)) (\<lambda>ord.
                 ret \<lparr>qq_Type = ''RFQ_QUOTE'', qq_RFQID = cr0_RFQID request, qq_PriceE6 = show_int price, qq_SizeE6 = show_int sz,
                      qq_SignedOrder = comboQuoterWire ord\<rparr>))))))))))))) c)"

section \<open>Rounding\<close>

text \<open>
  A matched order of the quoter seen by the requester, from the side that is on the wire, 0 to buy and 1 to sell, and the two amounts: the order's collateral and its shares; and, if it
  trades the complement, one unit of collateral stands for one unit of both positions.  The requester gets the YES position when the quoter sells it, and when the quoter buys its complement.
\<close>

definition orderCollateral :: "8 word \<Rightarrow> int \<times> int \<Rightarrow> int" where
  "orderCollateral side amounts = (if side = 1 then snd amounts else fst amounts)"

definition orderShares :: "8 word \<Rightarrow> int \<times> int \<Rightarrow> int" where
  "orderShares side amounts = (if side = 1 then fst amounts else snd amounts)"

definition requesterCollateral :: "bool \<Rightarrow> 8 word \<Rightarrow> int \<times> int \<Rightarrow> int" where
  "requesterCollateral complement side amounts =
     (if complement then orderShares side amounts - orderCollateral side amounts else orderCollateral side amounts)"

definition requesterBuys :: "bool \<Rightarrow> 8 word \<Rightarrow> bool" where
  "requesterBuys complement side \<longleftrightarrow> (if complement then side = 0 else side = 1)"

lemma e6_div_bounds:
  fixes x :: int
  shows "x \<le> (x + 999999) div 1000000 * 1000000" "(x + 999999) div 1000000 * 1000000 < x + 1000000"
    "x div 1000000 * 1000000 \<le> x" "x < x div 1000000 * 1000000 + 1000000"
  using div_mult_mod_eq [of "x + 999999" 1000000] pos_mod_bound [of 1000000 "x + 999999"] pos_mod_sign [of 1000000 "x + 999999"]
    div_mult_mod_eq [of x 1000000] pos_mod_bound [of 1000000 x] pos_mod_sign [of 1000000 x] by linarith+

lemma comboQuoteAmounts_bounds:
  assumes "source = ComboQuoteCollateral \<or> source = ComboQuoteInventory" "direction = RFQDirectionBuy \<or> direction = RFQDirectionSell"
    and "complement = comboComplement direction source" "side = (if source = ComboQuoteInventory then 1 else 0)"
    and "paid = requesterCollateral complement side (comboQuoteAmounts source complement price sz)"
  shows "orderShares side (comboQuoteAmounts source complement price sz) = sz \<and> requesterBuys complement side = (direction = RFQDirectionBuy) \<and>
    (if direction = RFQDirectionBuy then paid * 1000000 \<le> price * sz \<and> price * sz < paid * 1000000 + 1000000
    else price * sz \<le> paid * 1000000 \<and> paid * 1000000 < price * sz + 1000000)"
proof -
  have c: "(1000000 - price) * sz = 1000000 * sz - price * sz" by (simp add: algebra_simps)
  note b = e6_div_bounds [of "price * sz"] e6_div_bounds [of "1000000 * sz - price * sz"]
  show ?thesis
    using assms(1,2) b
    by (auto simp: assms(3-5) comboComplement_def comboQuoteAmounts_def requesterCollateral_def orderCollateral_def orderShares_def requesterBuys_def Let_def c
        ComboQuoteCollateral_def ComboQuoteInventory_def rfq_defs algebra_simps)
qed

lemma validateOrderAmounts_Inr:
  "validateOrderAmounts (Some m) (Some t) = Inr () \<Longrightarrow> 0 < m \<and> m < 2 ^ 256 \<and> 0 < t \<and> t < 2 ^ 256"
  by (auto simp: validateOrderAmounts_def split: if_splits)

lemma buildComboQuoterQuote_run:
  assumes "buildComboQuoterQuote E X request response c = (Inr quote, c')"
  shows "\<exists>price sz source complement amounts ord contracts.
    comboPositiveE6 (pq_Price response) = Inr price \<and> price < 1000000 \<and> comboQuoteSize request response price = Inr sz \<and> 0 < sz \<and>
    source = comboQuoteSource response \<and> (source = ComboQuoteCollateral \<or> source = ComboQuoteInventory) \<and>
    (cr0_Direction request = RFQDirectionBuy \<or> cr0_Direction request = RFQDirectionSell) \<and>
    complement = comboComplement (cr0_Direction request) source \<and> amounts = comboQuoteAmounts source complement price sz \<and>
    getContractConfig (chainID c) = Inr contracts \<and> comboSigned E c (cc_ExchangeV3 contracts) ord \<and>
    0 < fst amounts \<and> fst amounts < 2 ^ 256 \<and> 0 < snd amounts \<and> snd amounts < 2 ^ 256 \<and>
    cs_TokenID ord = (if complement then cr0_NoPositionID request else cr0_YesPositionID request) \<and>
    cs_MakerAmount ord = show_int (fst amounts) \<and> cs_TakerAmount ord = show_int (snd amounts) \<and>
    cs_Side ord = (if source = ComboQuoteInventory then SideSell else SideBuy) \<and>
    qq_PriceE6 quote = show_int price \<and> qq_SizeE6 quote = show_int sz \<and> qq_RFQID quote = cr0_RFQID request \<and>
    qq_SignedOrder quote = comboQuoterWire ord"
proof -
  let ?source = "comboQuoteSource response"
  let ?complement = "comboComplement (cr0_Direction request) ?source"
  obtain price sz contracts salt now c1 ord where r:
    "comboQuoteRequestValid request" "comboPositiveE6 (pq_Price response) = Inr price" "price < 1000000"
    "?source = ComboQuoteCollateral \<or> ?source = ComboQuoteInventory" "comboQuoteSize request response price = Inr sz" "0 < sz"
    "validateOrderAmounts (Some (fst (comboQuoteAmounts ?source ?complement price sz))) (Some (snd (comboQuoteAmounts ?source ?complement price sz))) = Inr ()"
    "getContractConfig (chainID c) = Inr contracts"
    "signComboOrder E (comboQuoteOrder c (if ?complement then cr0_NoPositionID request else cr0_YesPositionID request)
       (fst (comboQuoteAmounts ?source ?complement price sz)) (snd (comboQuoteAmounts ?source ?complement price sz))
       (if ?source = ComboQuoteInventory then SideSell else SideBuy) salt now) (cc_ExchangeV3 contracts) (tick (tick c)) = (Inr ord, c1)"
    "quote = \<lparr>qq_Type = ''RFQ_QUOTE'', qq_RFQID = cr0_RFQID request, qq_PriceE6 = show_int price, qq_SizeE6 = show_int sz,
       qq_SignedOrder = comboQuoterWire ord\<rparr>"
    using assms unfolding buildComboQuoterQuote_def
    by (auto simp: go_run Let_def interact_def time_now_def case_prod_unfold)
  obtain s where s: "ord = (comboQuoteOrder c (if ?complement then cr0_NoPositionID request else cr0_YesPositionID request)
       (fst (comboQuoteAmounts ?source ?complement price sz)) (snd (comboQuoteAmounts ?source ?complement price sz))
       (if ?source = ComboQuoteInventory then SideSell else SideBuy) salt now)\<lparr>cs_Signature := s\<rparr>"
    "comboSigned E c (cc_ExchangeV3 contracts) ord"
    using signComboOrder_run [OF r(9), of c] by auto
  show ?thesis
    by (rule exI [of _ price], rule exI [of _ sz], rule exI [of _ ?source], rule exI [of _ ?complement],
        rule exI [of _ "comboQuoteAmounts ?source ?complement price sz"], rule exI [of _ ord], rule exI [of _ contracts])
      (use r s validateOrderAmounts_Inr [OF r(7)] in \<open>auto simp: comboQuoteOrder_def comboQuoteRequestValid_def\<close>)
qed

lemma cutPoint_plain: "CHR ''.'' \<notin> set s \<Longrightarrow> cutPoint s = (s, [])"
  by (induction s) (auto simp: cutPoint_def)

lemma cutPoint_point: "CHR ''.'' \<notin> set s \<Longrightarrow> cutPoint (s @ CHR ''.'' # t) = (s, t)"
  by (induction s) (auto simp: cutPoint_def)

lemma e6_decimal_read:
  assumes "e6ToDecimal s = Inr h" "0 < digits_value s" "digits_value s < 2 ^ 256"
  shows "comboPositiveE6 h = Inr (int (digits_value s))"
proof -
  obtain ip fp where p: "e6_parts (digits_value s) ip fp" "e6ToDecimal s = Inr (if fp = [] then ip else ip @ ''.'' @ fp)"
    using e6ToDecimal_run [OF e6ToDecimal_numeric [OF assms(1)]] by blast
  let ?h = "if fp = [] then ip else ip @ ''.'' @ fp" and ?z = "replicate (6 - length fp) (CHR ''0'')"
  have ip: "isNumericString ip" and fp: "list_all is_digit fp" "length fp \<le> 6" using p(1) by (auto simp: e6_parts_def)
  have nd: "CHR ''.'' \<notin> set ip" using ip is_digit_not_point by (simp add: isNumericString_def)
  then have cut: "cutPoint ?h = (ip, fp)" by (simp add: cutPoint_plain cutPoint_point)
  have "isNumericString (ip @ fp @ ?z)" using ip fp by (auto simp: isNumericString_def list_all_iff)
  moreover have "digits_value (ip @ fp @ ?z) = digits_value s"
    using e6_parts_value [OF p(1)] digits_value_append [of "ip @ fp" ?z] by simp
  ultimately have "big_int_set_string (ip @ fp @ ?z) 10 = Some (int (digits_value s))" using numeric_value by metis
  then have "comboPositiveE6 ?h = Inr (int (digits_value s))"
    using cut ip fp assms(2,3) by (simp add: comboPositiveE6_def validateUint256_def isNumericString_def)
  then show ?thesis using p(2) assms(1) by simp
qed

section \<open>Properties\<close>

text \<open>
  C24: the order a quoter signs is never worse for the requester than the quote, and by less than one base unit better.  The side on the wire is the signed side, and with it the
  order gives the requester the trade that was asked for: for all four ways to quote (the requester buys or sells, the maker uses collateral or inventory, and hence trades YES or its
  complement), with price \<open>p\<close> and size \<open>s\<close> in base units, exactly \<open>s\<close> shares change hands, and a requester who buys pays at most \<open>p s / 10^6\<close>, one who sells gets at least that.
\<close>

theorem quoter_rounding_favours_requester:
  assumes "buildComboQuoterQuote E X request response c = (Inr quote, c')"
  defines "complement \<equiv> comboComplement (cr0_Direction request) (comboQuoteSource response)" and "order \<equiv> qq_SignedOrder quote"
  shows "\<exists>price sz maker taker ord contracts. big_int_set_string (qq_PriceE6 quote) 10 = Some price \<and>
    big_int_set_string (qq_SizeE6 quote) 10 = Some sz \<and> 0 < price \<and> price < 1000000 \<and> 0 < sz \<and>
    getContractConfig (chainID c) = Inr contracts \<and> comboSigned E c (cc_ExchangeV3 contracts) ord \<and> order = comboQuoterWire ord \<and>
    cs_Side ord = (if qo_Side order = 1 then SideSell else SideBuy) \<and>
    big_int_set_string (qo_MakerAmount order) 10 = Some maker \<and> big_int_set_string (qo_TakerAmount order) 10 = Some taker \<and>
    qo_TokenID order = (if complement then cr0_NoPositionID request else cr0_YesPositionID request) \<and>
    orderShares (qo_Side order) (maker, taker) = sz \<and> requesterBuys complement (qo_Side order) = (cr0_Direction request = RFQDirectionBuy) \<and>
    (let paid = requesterCollateral complement (qo_Side order) (maker, taker)
     in if cr0_Direction request = RFQDirectionBuy then paid * 1000000 \<le> price * sz \<and> price * sz < paid * 1000000 + 1000000
        else price * sz \<le> paid * 1000000 \<and> paid * 1000000 < price * sz + 1000000)"
proof -
  obtain price sz source complement' amounts ord contracts where q:
    "comboPositiveE6 (pq_Price response) = Inr price" "price < 1000000" "0 < sz" "source = comboQuoteSource response"
    "source = ComboQuoteCollateral \<or> source = ComboQuoteInventory"
    "cr0_Direction request = RFQDirectionBuy \<or> cr0_Direction request = RFQDirectionSell"
    "complement' = comboComplement (cr0_Direction request) source" "amounts = comboQuoteAmounts source complement' price sz"
    "cs_TokenID ord = (if complement' then cr0_NoPositionID request else cr0_YesPositionID request)"
    "cs_MakerAmount ord = show_int (fst amounts)" "cs_TakerAmount ord = show_int (snd amounts)"
    "qq_PriceE6 quote = show_int price" "qq_SizeE6 quote = show_int sz" "order = comboQuoterWire ord"
    "cs_Side ord = (if source = ComboQuoteInventory then SideSell else SideBuy)"
    "getContractConfig (chainID c) = Inr contracts" "comboSigned E c (cc_ExchangeV3 contracts) ord"
    using buildComboQuoterQuote_run [OF assms(1)] unfolding order_def by blast
  have co: "complement' = complement" by (simp add: complement_def q(4,7))
  have p: "0 < price" using q(1) by (auto simp: comboPositiveE6_def Let_def split: if_splits option.splits prod.splits)
  have side: "qo_Side order = (if source = ComboQuoteInventory then 1 else 0)" using q(14,15) by (simp add: comboQuoterWire_def)
  have signed: "cs_Side ord = (if qo_Side order = 1 then SideSell else SideBuy)" using q(15) side by simp
  have o: "qo_MakerAmount order = show_int (fst amounts)" "qo_TakerAmount order = show_int (snd amounts)"
    "qo_TokenID order = (if complement then cr0_NoPositionID request else cr0_YesPositionID request)"
    using q(9-11,14) co by (simp_all add: comboQuoterWire_def)
  note B = comboQuoteAmounts_bounds [OF q(5,6,7) side refl, of price sz, folded q(8), unfolded co]
  show ?thesis
    by (rule exI [of _ price], rule exI [of _ sz], rule exI [of _ "fst amounts"], rule exI [of _ "snd amounts"], rule exI [of _ ord], rule exI [of _ contracts])
      (use B p signed o q(2,3,12-14,16,17) big_int_set_string_show_int in \<open>simp add: Let_def cong: if_cong\<close>)
qed

text \<open>
  Decimals and base units convert back and forth without loss: the decimal that \<open>e6ToDecimal\<close> prints for a positive number of base units is
  read back as that number both by the requester's \<open>decimalToE6String\<close> and by the quoter's \<open>comboPositiveE6\<close>.
\<close>

theorem e6_conversions_round_trip:
  assumes "udecimal U val" "isNumericString s" "0 < digits_value s" "digits_value s < 2 ^ 256"
  shows "\<exists>h. e6ToDecimal s = Inr h \<and> decimalToE6String U h = Inr (show_nat (digits_value s)) \<and>
    comboPositiveE6 h = Inr (int (digits_value s))"
proof -
  obtain h where h: "e6ToDecimal s = Inr h" using e6ToDecimal_run [OF assms(2)] by blast
  show ?thesis
    using h udecimal.e6_round_trip [OF assms(1) h assms(3,4)] e6_decimal_read [OF h assms(3,4)] by blast
qed

section \<open>A quote\<close>

definition demo_request :: "string \<Rightarrow> ComboRFQQuoteRequest" where
  "demo_request direction = \<lparr>cr0_RFQID = ''r1'', cr0_RequestorPublicID = ''p'', cr0_LegPositionIDs = [''7'', ''20''], cr0_ConditionID = ''0x03'',
     cr0_YesPositionID = ''8'', cr0_NoPositionID = ''9'', cr0_Direction = direction, cr0_Side = RFQSideYes,
     cr0_RequestedSize = \<lparr>rs_Unit = RFQSizeUnitNotional, rs_Value = ''5''\<rparr>, cr0_SubmissionDeadline = 0\<rparr>"

definition demo_response0 :: ComboRFQQuoteResponse where
  "demo_response0 = \<lparr>pq_Price = ''0.333333'', pq_Size = [], pq_Source = []\<rparr>"

lemma demo_quote:
  "\<exists>q c'. buildComboQuoterQuote demo_env demo_eth (demo_request RFQDirectionBuy) demo_response0 demo_client = (Inr q, c') \<and>
     qq_PriceE6 q = show_int 333333 \<and> qq_SizeE6 q = show_int 15000015 \<and> qo_TokenID (qq_SignedOrder q) = ''9''"
proof -
  have d: "comboPositiveE6 (pq_Price demo_response0) = Inr 333333" "comboQuoteRequestValid (demo_request RFQDirectionBuy)"
    "comboQuoteSize (demo_request RFQDirectionBuy) demo_response0 333333 = Inr 15000015" "comboQuoteSource demo_response0 = ''collateral''"
    "comboComplement (cr0_Direction (demo_request RFQDirectionBuy)) ''collateral''" "cr0_NoPositionID (demo_request RFQDirectionBuy) = ''9''"
    "comboQuoteAmounts ''collateral'' True 333333 15000015 = (10000016, 15000015)"
    "validateOrderAmounts (Some 10000016) (Some 15000015) = Inr ()" "requireComboAccount demo_eth demo_client = Inr ()"
    by code_simp+
  have "map_sum id cs_TokenID (fst (bindE (lift (getContractConfig (chainID demo_client))) (\<lambda>contracts.
      bindE (lift (guardE (cc_ExchangeV3 contracts \<noteq> []) (Msg ''combo quote requires Exchange V3''))) (\<lambda>_.
      bindE (interact (e_salt demo_env)) (\<lambda>salt. bindE (time_now demo_env) (\<lambda>now.
      signComboOrder demo_env (comboQuoteOrder demo_client ''9'' 10000016 15000015 SideBuy salt now) (cc_ExchangeV3 contracts))))) demo_client)) = Inr ''9''"
    by code_simp
  then obtain ord c1 contracts salt c2 now c3 where p: "getContractConfig (chainID demo_client) = Inr contracts" "cc_ExchangeV3 contracts \<noteq> []"
    "interact (e_salt demo_env) demo_client = (Inr salt, c2)" "time_now demo_env c2 = (Inr now, c3)"
    "signComboOrder demo_env (comboQuoteOrder demo_client ''9'' 10000016 15000015 SideBuy salt now) (cc_ExchangeV3 contracts) c3 = (Inr ord, c1)"
    "cs_TokenID ord = ''9''"
    by (auto simp: go_run dest!: run_result(1))
  then have "buildComboQuoterQuote demo_env demo_eth (demo_request RFQDirectionBuy) demo_response0 demo_client =
      (Inr \<lparr>qq_Type = ''RFQ_QUOTE'', qq_RFQID = cr0_RFQID (demo_request RFQDirectionBuy), qq_PriceE6 = show_int 333333, qq_SizeE6 = show_int 15000015,
        qq_SignedOrder = comboQuoterWire ord\<rparr>, c1)"
    by (simp add: buildComboQuoterQuote_def bindE_def d ComboQuoteCollateral_def ComboQuoteInventory_def)
  then show ?thesis using p(6) by (simp add: comboQuoterWire_def)
qed

theorem quoter_rounding_favours_requester_witness:
  "\<exists>quote maker. fst (buildComboQuoterQuote demo_env demo_eth (demo_request RFQDirectionBuy) demo_response0 demo_client) = Inr quote \<and>
     qo_TokenID (qq_SignedOrder quote) = ''9'' \<and> qo_Side (qq_SignedOrder quote) = 0 \<and>
     big_int_set_string (qo_MakerAmount (qq_SignedOrder quote)) 10 = Some maker \<and> big_int_set_string (qo_TakerAmount (qq_SignedOrder quote)) 10 = Some 15000015 \<and>
     (15000015 - maker) * 1000000 \<le> 333333 * 15000015 \<and> 333333 * 15000015 < (15000015 - maker) * 1000000 + 1000000"
proof -
  obtain quote c' where q: "buildComboQuoterQuote demo_env demo_eth (demo_request RFQDirectionBuy) demo_response0 demo_client = (Inr quote, c')"
    "qq_PriceE6 quote = show_int 333333" "qq_SizeE6 quote = show_int 15000015" "qo_TokenID (qq_SignedOrder quote) = ''9''"
    using demo_quote by blast
  have d: "cr0_Direction (demo_request RFQDirectionBuy) = RFQDirectionBuy" "comboComplement (cr0_Direction (demo_request RFQDirectionBuy)) (comboQuoteSource demo_response0)"
    by (simp add: demo_request_def) code_simp
  let ?o = "qq_SignedOrder quote"
  obtain maker taker where t: "big_int_set_string (qo_MakerAmount ?o) 10 = Some maker" "big_int_set_string (qo_TakerAmount ?o) 10 = Some taker"
    "orderShares (qo_Side ?o) (maker, taker) = 15000015" "requesterBuys True (qo_Side ?o)"
    "requesterCollateral True (qo_Side ?o) (maker, taker) * 1000000 \<le> 333333 * 15000015"
    "333333 * 15000015 < requesterCollateral True (qo_Side ?o) (maker, taker) * 1000000 + 1000000"
    using quoter_rounding_favours_requester [OF q(1)] d unfolding q(2,3) by (auto simp: Let_def big_int_set_string_show_int)
  then have "qo_Side ?o = 0" "taker = 15000015" by (auto simp: requesterBuys_def orderShares_def)
  with t q show ?thesis by (auto simp: requesterCollateral_def orderShares_def orderCollateral_def)
qed

theorem e6_conversions_round_trip_witness:
  "\<exists>h. e6ToDecimal ''0005250000'' = Inr h \<and> decimalToE6String dec19_ops h = Inr (show_nat 5250000) \<and> comboPositiveE6 h = Inr 5250000"
proof -
  have s: "isNumericString ''0005250000''" "digits_value ''0005250000'' = 5250000" by code_simp+
  from e6_conversions_round_trip [OF dec19.udecimal_axioms s(1)] show ?thesis unfolding s(2) by simp
qed

end
