(* ===== verification/ComboSession.thy ===== *)
theory ComboSession
  imports ComboQuoter
begin

text \<open>
  \<open>clob/combo_quoter_session.go\<close> and \<open>clob/combo_quoter_events.go\<close>: a quoter's session over one authenticated socket.  Concurrent commands wait for
  acknowledgements that carry no command number, only the kind and the identifiers of what they acknowledge; one reader goroutine settles
  the commands and hands the broadcasts of the gateway to the consumer.

  The first part are the messages and the functions that make and read them, the second the session as a step relation between the atomic sections
  of its goroutines, the third an abstract request/reply service with numbered requests that the session refines.
\<close>

section \<open>Commands and acknowledgements\<close>

definition ErrComboRFQSessionClosed :: go_error where
  "ErrComboRFQSessionClosed = Sentinel ''combo RFQ session closed''"

definition ErrComboRFQCommandPending :: go_error where
  "ErrComboRFQCommandPending = Sentinel ''combo RFQ command with the same acknowledgement key is already pending''"

definition ComboRFQConfirm :: string where "ComboRFQConfirm = ''CONFIRM''"
definition ComboRFQDecline :: string where "ComboRFQDecline = ''DECLINE''"

record ComboRFQQuoteReference =
  ref_RFQID :: string
  ref_QuoteID :: string

record comboAckKey =
  ak_kind :: string
  ak_rfqID :: string
  ak_quoteID :: string

record comboAckResult =
  ack_reference :: ComboRFQQuoteReference
  ack_decision :: string
  ack_err :: "go_error option"

definition noReply :: comboAckResult where
  "noReply = \<lparr>ack_reference = \<lparr>ref_RFQID = [], ref_QuoteID = []\<rparr>, ack_decision = [], ack_err = None\<rparr>"

text \<open>What a command writes to the socket: the anonymous structs of the four methods.\<close>

datatype comboCommand =
    AuthMessage (am_APIKey: string) (am_Passphrase: string) (am_Secret: string) (am_Signer: string) (am_Maker: string)
      (am_SignatureType: SignatureType)
  | QuoteMessage comboQuoterQuote
  | CancelMessage ComboRFQQuoteReference string string
  | ConfirmationMessage ComboRFQQuoteReference string

fun ackKey :: "comboCommand \<Rightarrow> comboAckKey" where
  "ackKey (AuthMessage _ _ _ _ _ _) = \<lparr>ak_kind = ''auth'', ak_rfqID = [], ak_quoteID = []\<rparr>"
| "ackKey (QuoteMessage q) = \<lparr>ak_kind = ''ACK_RFQ_QUOTE'', ak_rfqID = qq_RFQID q, ak_quoteID = []\<rparr>"
| "ackKey (CancelMessage r _ _) = \<lparr>ak_kind = ''ACK_RFQ_QUOTE_CANCEL'', ak_rfqID = ref_RFQID r, ak_quoteID = ref_QuoteID r\<rparr>"
| "ackKey (ConfirmationMessage r _) = \<lparr>ak_kind = ''ACK_RFQ_CONFIRMATION_RESPONSE'', ak_rfqID = ref_RFQID r, ak_quoteID = ref_QuoteID r\<rparr>"

definition comboSigner :: "'d client \<Rightarrow> string" where
  "comboSigner c = (if signatureType c = SignatureTypePoly1271 then comboMakerAddress c else signerAddress c)"

record ComboRFQSessionOptions =
  so_URL :: string
  so_AuthTimeout :: int
  so_AckTimeout :: int

definition DefaultComboRFQQuoterURL :: string where
  "DefaultComboRFQQuoterURL = ''wss://combos-rfq-gateway-quoter.polymarket.com/ws/rfq''"

definition sessionOptions :: "ComboRFQSessionOptions \<Rightarrow> ComboRFQSessionOptions result" where
  "sessionOptions opts =
     (if so_AuthTimeout opts < 0 \<or> so_AckTimeout opts < 0 then Inl (Msg ''combo RFQ timeouts must not be negative'')
      else Inr \<lparr>so_URL = (if so_URL opts = [] then DefaultComboRFQQuoterURL else so_URL opts),
                so_AuthTimeout = (if so_AuthTimeout opts = 0 then 30000000000 else so_AuthTimeout opts),
                so_AckTimeout = (if so_AckTimeout opts = 0 then 30000000000 else so_AckTimeout opts)\<rparr>)"

text \<open>The credentials \<open>DeriveWSAuth\<close> reads: key, secret and passphrase, if the client has any.\<close>

definition authMessage :: "'d client \<Rightarrow> string \<times> string \<times> string \<Rightarrow> comboCommand" where
  "authMessage c auth = (case auth of (key, secret, passphrase) \<Rightarrow>
     AuthMessage key passphrase secret (comboSigner c) (comboMakerAddress c) (signatureType c))"

definition openAuth ::
  "eth_ops \<Rightarrow> (string \<times> string \<times> string) option \<Rightarrow> (string \<Rightarrow> unit result) \<Rightarrow> ComboRFQSessionOptions \<Rightarrow> 'd client \<Rightarrow>
     (ComboRFQSessionOptions \<times> comboCommand) result" where
  "openAuth X creds dial opts c =
     rbind (requireComboAccount X c) (\<lambda>_.
     rbind (sessionOptions opts) (\<lambda>opts.
     rbind (case creds of None \<Rightarrow> Inl (Msg ''derive ws auth requires API credentials'') | Some a \<Rightarrow> Inr a) (\<lambda>auth.
     rbind (wrap_err ''combo RFQ dial'' (dial (so_URL opts))) (\<lambda>_. Inr (opts, authMessage c auth)))))"

text \<open>The commands of \<open>Quote\<close>, \<open>CancelQuote\<close> and \<open>RespondToConfirmation\<close> up to the call of \<open>command\<close>.\<close>

definition quoteCommand ::
  "'d env \<Rightarrow> eth_ops \<Rightarrow> go_error option \<Rightarrow> ComboRFQQuoteRequest \<Rightarrow> ComboRFQQuoteResponse \<Rightarrow> ('d client, comboCommand) act" where
  "quoteCommand E X ctx request response =
     bindE (lift (case ctx of Some e \<Rightarrow> Inl e | None \<Rightarrow> Inr ())) (\<lambda>_.
     bindE (buildComboQuoterQuote E X request response) (\<lambda>quote. ret (QuoteMessage quote)))"

definition cancelCommand :: "'d client \<Rightarrow> ComboRFQQuoteReference \<Rightarrow> comboCommand result" where
  "cancelCommand c reference =
     (if ref_RFQID reference = [] \<or> ref_QuoteID reference = [] then Inl (Msg ''combo cancellation requires RFQID and QuoteID'')
      else Inr (CancelMessage reference (comboSigner c) (comboMakerAddress c)))"

definition confirmCommand :: "ComboRFQQuoteReference \<Rightarrow> string \<Rightarrow> comboCommand result" where
  "confirmCommand reference decision =
     (if ref_RFQID reference = [] \<or> ref_QuoteID reference = [] \<or> (decision \<noteq> ComboRFQConfirm \<and> decision \<noteq> ComboRFQDecline)
      then Inl (Msg ''invalid combo confirmation reference or decision'')
      else Inr (ConfirmationMessage reference decision))"

text \<open>\<open>RespondToConfirmation\<close> refuses an acknowledgement of the other decision.\<close>

fun decisionMismatch :: "comboCommand \<Rightarrow> comboAckResult \<Rightarrow> bool" where
  "decisionMismatch (ConfirmationMessage _ decision) r \<longleftrightarrow> ack_err r = None \<and> ack_decision r \<noteq> decision"
| "decisionMismatch _ r \<longleftrightarrow> False"

definition mismatchErr :: go_error where
  "mismatchErr = Msg ''combo RFQ confirmation acknowledgement decision mismatch''"

section \<open>Inbound messages\<close>

record ComboRFQConfirmationRequest =
  cf_Reference :: ComboRFQQuoteReference
  cf_SignerAddress :: string
  cf_MakerAddress :: string
  cf_SignatureType :: SignatureType
  cf_LegPositionIDs :: "string list"
  cf_ConditionID :: string
  cf_YesPositionID :: string
  cf_NoPositionID :: string
  cf_Direction :: string
  cf_Side :: string
  cf_FillSize :: string
  cf_Price :: string
  cf_ConfirmBy :: int

record ComboRFQExecutionUpdate =
  eu_RFQID :: string
  eu_Status :: ComboRFQStatus
  eu_TxHash :: string

record ComboRFQTrade =
  ct_RFQID :: string
  ct_RequesterID :: string
  ct_ConditionID :: string
  ct_LegPositionIDs :: "string list"
  ct_Direction :: string
  ct_Side :: string
  ct_Price :: string
  ct_Size :: string
  ct_ExecutedAt :: int

datatype ComboRFQEvent =
    QuoteRequestEvent ComboRFQQuoteRequest
  | ConfirmationRequestEvent ComboRFQConfirmationRequest
  | ExecutionUpdateEvent ComboRFQExecutionUpdate
  | TradeEvent ComboRFQTrade

record comboInbound =
  ib_Type :: string
  ib_Success :: "bool option"
  ib_Error :: string
  ib_Code :: string
  ib_ErrorID :: string
  ib_RequestType :: string
  ib_RFQID :: string
  ib_QuoteID :: string
  ib_RequestorPublicID :: string
  ib_RequesterID :: string
  ib_LegPositionIDs :: "string list option"
  ib_ConditionID :: string
  ib_YesPositionID :: string
  ib_NoPositionID :: string
  ib_Direction :: string
  ib_Side :: string
  ib_RequestedSize :: "(string \<times> string) option"
  ib_SubmissionDeadline :: "int option"
  ib_Signer :: string
  ib_Maker :: string
  ib_SignatureType :: "SignatureType option"
  ib_FillSizeE6 :: string
  ib_PriceE6 :: string
  ib_SizeE6 :: string
  ib_ConfirmBy :: "int option"
  ib_Decision :: string
  ib_Status :: ComboRFQStatus
  ib_TxHash :: "string option"
  ib_ExecutedAt :: "int option"

definition has_suffix :: "string \<Rightarrow> string \<Rightarrow> bool" where
  "has_suffix s p \<longleftrightarrow> has_prefix (rev s) (rev p)"

text \<open>A condition is 31 bytes; the 32-byte identifier of one of its outcomes is cut to it.\<close>

definition comboConditionID :: "string \<Rightarrow> string option" where
  "comboConditionID s =
     (let v = to_lower s
      in if \<not> has_prefix v ''0x03'' then None
         else let v = (if length v = 66 \<and> (has_suffix v ''00'' \<or> has_suffix v ''01'') then take 64 v else v)
              in if length v \<noteq> 64 \<or> unhex (drop 2 v) = None then None else Some v)"

definition validMarket :: "comboInbound \<Rightarrow> bool" where
  "validMarket m \<longleftrightarrow> ib_RFQID m \<noteq> [] \<and> ib_Side m = RFQSideYes \<and>
     (ib_Direction m = RFQDirectionBuy \<or> ib_Direction m = RFQDirectionSell) \<and>
     (case ib_LegPositionIDs m of None \<Rightarrow> False | Some legs \<Rightarrow> list_all comboPositionValid legs) \<and>
     comboConditionID (ib_ConditionID m) \<noteq> None"

definition validPositions :: "comboInbound \<Rightarrow> bool" where
  "validPositions m \<longleftrightarrow> comboPositionValid (ib_YesPositionID m) \<and> comboPositionValid (ib_NoPositionID m)"

definition reference :: "comboInbound \<Rightarrow> ComboRFQQuoteReference" where
  "reference m = \<lparr>ref_RFQID = ib_RFQID m, ref_QuoteID = ib_QuoteID m\<rparr>"

text \<open>What \<open>handleInbound\<close> does with a message: nothing, settle a key, end the session, or hand out an event.\<close>

datatype inbound_action = Ignore | Resolve comboAckKey comboAckResult | Finish go_error | Emit ComboRFQEvent

definition authAction :: "comboInbound \<Rightarrow> inbound_action" where
  "authAction m = (case ib_Success m of
       None \<Rightarrow> Ignore
     | Some ok \<Rightarrow> Resolve \<lparr>ak_kind = ''auth'', ak_rfqID = [], ak_quoteID = []\<rparr>
         (noReply\<lparr>ack_err := (if ok then None else Some (Wrap ''combo RFQ authentication failed'' (Msg (ib_Error m))))\<rparr>))"

definition ackAction :: "comboInbound \<Rightarrow> inbound_action" where
  "ackAction m =
     (if ib_RFQID m = [] \<or> ib_QuoteID m = [] then Ignore
      else if ib_Type m = ''ACK_RFQ_CONFIRMATION_RESPONSE'' \<and> ib_Decision m \<noteq> ComboRFQConfirm \<and> ib_Decision m \<noteq> ComboRFQDecline then Ignore
      else Resolve \<lparr>ak_kind = ib_Type m, ak_rfqID = ib_RFQID m, ak_quoteID = (if ib_Type m = ''ACK_RFQ_QUOTE'' then [] else ib_QuoteID m)\<rparr>
             \<lparr>ack_reference = reference m, ack_decision = ib_Decision m, ack_err = None\<rparr>)"

definition errorKind :: "string \<Rightarrow> string option" where
  "errorKind requestType =
     (if requestType = ''RFQ_QUOTE'' then Some ''ACK_RFQ_QUOTE''
      else if requestType = ''RFQ_QUOTE_CANCEL'' then Some ''ACK_RFQ_QUOTE_CANCEL''
      else if requestType = ''RFQ_CONFIRMATION_RESPONSE'' then Some ''ACK_RFQ_CONFIRMATION_RESPONSE'' else None)"

definition commandError :: "comboInbound \<Rightarrow> go_error" where
  "commandError m = Typed ''ComboRFQCommandError''
     [ib_RequestType m, ib_RFQID m, ib_QuoteID m, ib_Code m, ib_ErrorID m, ib_Error m]"

definition errorAction :: "comboInbound \<Rightarrow> inbound_action" where
  "errorAction m =
     (if ib_Code m = [] \<or> ib_Error m = [] then Ignore
      else case errorKind (ib_RequestType m) of
        None \<Rightarrow> Ignore
      | Some kind \<Rightarrow>
          if ib_RFQID m = [] \<or> (ib_RequestType m \<noteq> ''RFQ_QUOTE'' \<and> ib_QuoteID m = []) then Finish (Msg ''uncorrelated combo RFQ error'')
          else Resolve \<lparr>ak_kind = kind, ak_rfqID = ib_RFQID m, ak_quoteID = (if ib_RequestType m = ''RFQ_QUOTE'' then [] else ib_QuoteID m)\<rparr>
                 (noReply\<lparr>ack_err := Some (commandError m)\<rparr>))"

definition requestAction :: "comboInbound \<Rightarrow> inbound_action" where
  "requestAction m =
     (if \<not> validMarket m \<or> \<not> validPositions m \<or> ib_RequestorPublicID m = [] then Ignore
      else case (ib_RequestedSize m, ib_SubmissionDeadline m, ib_LegPositionIDs m, comboConditionID (ib_ConditionID m)) of
        (Some (unit, valueE6), Some deadline, Some legs, Some condition) \<Rightarrow>
          if unit \<noteq> RFQSizeUnitShares \<and> unit \<noteq> RFQSizeUnitNotional then Ignore
          else (case e6ToDecimal valueE6 of
              Inl _ \<Rightarrow> Ignore
            | Inr v \<Rightarrow> Emit (QuoteRequestEvent
                \<lparr>cr0_RFQID = ib_RFQID m, cr0_RequestorPublicID = ib_RequestorPublicID m, cr0_LegPositionIDs = legs, cr0_ConditionID = condition,
                 cr0_YesPositionID = ib_YesPositionID m, cr0_NoPositionID = ib_NoPositionID m, cr0_Direction = ib_Direction m,
                 cr0_Side = ib_Side m, cr0_RequestedSize = \<lparr>rs_Unit = unit, rs_Value = v\<rparr>, cr0_SubmissionDeadline = deadline\<rparr>))
      | _ \<Rightarrow> Ignore)"

definition confirmationAction :: "eth_ops \<Rightarrow> comboInbound \<Rightarrow> inbound_action" where
  "confirmationAction X m =
     (if \<not> validMarket m \<or> \<not> validPositions m \<or> ib_QuoteID m = [] \<or> \<not> eth_isHexAddress X (ib_Signer m) \<or> \<not> eth_isHexAddress X (ib_Maker m)
      then Ignore
      else case (ib_SignatureType m, ib_ConfirmBy m, ib_LegPositionIDs m, comboConditionID (ib_ConditionID m)) of
        (Some st, Some confirmBy, Some legs, Some condition) \<Rightarrow>
          if st > SignatureTypePoly1271 \<or> st < SignatureTypeEOA then Ignore
          else (case (e6ToDecimal (ib_FillSizeE6 m), e6ToDecimal (ib_PriceE6 m)) of
              (Inr sz, Inr price) \<Rightarrow> Emit (ConfirmationRequestEvent
                \<lparr>cf_Reference = reference m, cf_SignerAddress = ib_Signer m, cf_MakerAddress = ib_Maker m, cf_SignatureType = st,
                 cf_LegPositionIDs = legs, cf_ConditionID = condition, cf_YesPositionID = ib_YesPositionID m, cf_NoPositionID = ib_NoPositionID m,
                 cf_Direction = ib_Direction m, cf_Side = ib_Side m, cf_FillSize = sz, cf_Price = price, cf_ConfirmBy = confirmBy\<rparr>)
            | _ \<Rightarrow> Ignore)
      | _ \<Rightarrow> Ignore)"

definition updateAction :: "comboInbound \<Rightarrow> inbound_action" where
  "updateAction m =
     (if ib_RFQID m = [] \<or>
        ib_Status m \<notin> set [ComboRFQMatched, ComboRFQMined, ComboRFQConfirmed, ComboRFQRetrying, ComboRFQFailed] then Ignore
      else case ib_TxHash m of
        None \<Rightarrow> Emit (ExecutionUpdateEvent \<lparr>eu_RFQID = ib_RFQID m, eu_Status = ib_Status m, eu_TxHash = []\<rparr>)
      | Some tx \<Rightarrow> if \<not> comboTransactionHashValid tx then Ignore
                   else Emit (ExecutionUpdateEvent \<lparr>eu_RFQID = ib_RFQID m, eu_Status = ib_Status m, eu_TxHash = tx\<rparr>))"

definition tradeAction :: "comboInbound \<Rightarrow> inbound_action" where
  "tradeAction m =
     (if \<not> validMarket m \<or> ib_RequesterID m = [] then Ignore
      else case (ib_ExecutedAt m, ib_LegPositionIDs m, comboConditionID (ib_ConditionID m)) of
        (Some executedAt, Some legs, Some condition) \<Rightarrow>
          (case (e6ToDecimal (ib_PriceE6 m), e6ToDecimal (ib_SizeE6 m)) of
             (Inr price, Inr sz) \<Rightarrow> Emit (TradeEvent
               \<lparr>ct_RFQID = ib_RFQID m, ct_RequesterID = ib_RequesterID m, ct_ConditionID = condition, ct_LegPositionIDs = legs,
                ct_Direction = ib_Direction m, ct_Side = ib_Side m, ct_Price = price, ct_Size = sz, ct_ExecutedAt = executedAt\<rparr>)
           | _ \<Rightarrow> Ignore)
      | _ \<Rightarrow> Ignore)"

definition inboundAction :: "eth_ops \<Rightarrow> comboInbound \<Rightarrow> inbound_action" where
  "inboundAction X m =
     (if ib_Type m = ''auth'' then authAction m
      else if ib_Type m \<in> set [''ACK_RFQ_QUOTE'', ''ACK_RFQ_QUOTE_CANCEL'', ''ACK_RFQ_CONFIRMATION_RESPONSE''] then ackAction m
      else if ib_Type m = ''RFQ_ERROR'' then errorAction m
      else if ib_Type m = ''RFQ_REQUEST'' then requestAction m
      else if ib_Type m = ''RFQ_CONFIRMATION_REQUEST'' then confirmationAction X m
      else if ib_Type m = ''RFQ_EXECUTION_UPDATE'' then updateAction m
      else if ib_Type m = ''RFQ_TRADE'' then tradeAction m
      else Ignore)"

section \<open>The session\<close>

text \<open>
  A Go channel with a buffer: the values sent so far and how many were received.  A send on a full buffer blocks, which is \<open>None\<close>; it
  would block forever here, since the sender holds the session's mutex.
\<close>

record 'a chan =
  ch_sent :: "'a list"
  ch_taken :: nat

definition chan_send :: "nat \<Rightarrow> 'a \<Rightarrow> 'a chan \<Rightarrow> 'a chan option" where
  "chan_send capacity v c = (if length (ch_sent c) < capacity + ch_taken c then Some (c\<lparr>ch_sent := ch_sent c @ [v]\<rparr>) else None)"

definition chan_receive :: "'a chan \<Rightarrow> ('a \<times> 'a chan) option" where
  "chan_receive c = (if ch_taken c < length (ch_sent c) then Some (ch_sent c ! ch_taken c, c\<lparr>ch_taken := ch_taken c + 1\<rparr>) else None)"

text \<open>
  Where a goroutine inside \<open>command\<close> stands: in the first \<open>select\<close>; with the write gate, before it takes the mutex; in \<open>conn.Write\<close>; past a failed write
  or an expired context, before \<open>finish\<close>; in the second \<open>select\<close>; in \<open>RespondToConfirmation\<close> before its \<open>finish\<close>; returned, with the result and error.
\<close>

datatype command_phase =
    AtGate
  | Holding
  | Writing
  | Failing go_error
  | Awaiting
  | Mismatched comboAckResult
  | Returned comboAckResult "go_error option"

datatype reader_phase = Reading | Delivering ComboRFQEvent | Exited

text \<open>
  The session's fields.  \<open>ss_closed\<close> is also the state of the channel \<open>done\<close>.  A command's reply channel is named by the command's number.  \<open>ss_gate\<close> is
  the command whose token is in \<open>writeGate\<close>, \<open>ss_events\<close> the buffer of \<open>events\<close>.  \<open>ss_issued\<close> and \<open>ss_acks\<close> are history: the keys the session has registered and the
  acknowledgements it has read, in order; no guard reads them.
\<close>

record comboSession =
  ss_closed :: bool
  ss_err :: "go_error option"
  ss_pending :: "(comboAckKey \<times> nat) list"
  ss_chan :: "nat \<Rightarrow> comboAckResult chan"
  ss_gate :: "nat option"
  ss_events :: "ComboRFQEvent list"
  ss_reader :: reader_phase
  ss_cmds :: "nat \<rightharpoonup> comboCommand \<times> command_phase"
  ss_issued :: "(comboAckKey \<times> nat) list"
  ss_acks :: "(comboAckKey \<times> comboAckResult) list"

definition newSession :: comboSession where
  "newSession = \<lparr>ss_closed = False, ss_err = None, ss_pending = [], ss_chan = (\<lambda>_. \<lparr>ch_sent = [], ch_taken = 0\<rparr>), ss_gate = None,
     ss_events = [], ss_reader = Reading, ss_cmds = Map.empty, ss_issued = [], ss_acks = []\<rparr>"

definition eventBuffer :: nat where "eventBuffer = 1024"

text \<open>The loop of \<open>finish\<close> over the pending commands.\<close>

fun sendAll :: "comboAckResult \<Rightarrow> nat list \<Rightarrow> (nat \<Rightarrow> comboAckResult chan) \<Rightarrow> (nat \<Rightarrow> comboAckResult chan) option" where
  "sendAll r [] chans = Some chans"
| "sendAll r (n # ns) chans = (case chan_send 1 r (chans n) of None \<Rightarrow> None | Some c \<Rightarrow> sendAll r ns (chans(n := c)))"

definition endResult :: "go_error option \<Rightarrow> comboAckResult" where
  "endResult err = noReply\<lparr>ack_err := Some (case err of None \<Rightarrow> ErrComboRFQSessionClosed | Some e \<Rightarrow> e)\<rparr>"

definition finish :: "go_error option \<Rightarrow> comboSession \<Rightarrow> comboSession option" where
  "finish err s =
     (if ss_closed s then Some s
      else map_option (\<lambda>chans. s\<lparr>ss_closed := True, ss_err := err, ss_chan := chans, ss_pending := []\<rparr>)
             (sendAll (endResult err) (map snd (ss_pending s)) (ss_chan s)))"

definition resolve :: "comboAckKey \<Rightarrow> comboAckResult \<Rightarrow> comboSession \<Rightarrow> comboSession option" where
  "resolve key r s = (case map_of (ss_pending s) key of
       None \<Rightarrow> Some s
     | Some n \<Rightarrow> map_option (\<lambda>c. s\<lparr>ss_pending := filter (\<lambda>p. fst p \<noteq> key) (ss_pending s), ss_chan := (ss_chan s)(n := c)\<rparr>)
                   (chan_send 1 r (ss_chan s n)))"

text \<open>The critical section of \<open>command\<close>: refuse, or make the reply channel and register it.\<close>

definition register :: "comboAckKey \<Rightarrow> nat \<Rightarrow> comboSession \<Rightarrow> unit result \<times> comboSession" where
  "register key n s =
     (if ss_closed s then (Inl ErrComboRFQSessionClosed, s)
      else if map_of (ss_pending s) key \<noteq> None then (Inl ErrComboRFQCommandPending, s)
      else (Inr (), s\<lparr>ss_pending := (key, n) # ss_pending s, ss_issued := ss_issued s @ [(key, n)]\<rparr>))"

definition handleInbound :: "eth_ops \<Rightarrow> comboInbound \<Rightarrow> comboSession \<Rightarrow> (comboSession \<times> ComboRFQEvent option) option" where
  "handleInbound X m s = (case inboundAction X m of
       Ignore \<Rightarrow> Some (s, None)
     | Resolve key r \<Rightarrow> map_option (\<lambda>s. (s, None)) (resolve key r (s\<lparr>ss_acks := ss_acks s @ [(key, r)]\<rparr>))
     | Finish e \<Rightarrow> map_option (\<lambda>s. (s, None)) (finish (Some e) s)
     | Emit ev \<Rightarrow> Some (s, Some ev))"

definition set_phase :: "nat \<Rightarrow> command_phase \<Rightarrow> comboSession \<Rightarrow> comboSession" where
  "set_phase n p s = s\<lparr>ss_cmds := (ss_cmds s)(n := map_option (\<lambda>(m, _). (m, p)) (ss_cmds s n))\<rparr>"

definition ctx_error :: "go_error \<Rightarrow> bool" where
  "ctx_error e \<longleftrightarrow> e = CtxCanceled \<or> e = CtxDeadlineExceeded"

text \<open>
  How many of the acknowledgements read, and of the commands registered, have a key.  A gateway is \<^emph>\<open>fair\<close> if it acknowledges no key more often
  than it was registered: at most one acknowledgement or error per command.
\<close>

definition with_key :: "comboAckKey \<Rightarrow> (comboAckKey \<times> 'a) list \<Rightarrow> 'a list" where
  "with_key key ps = map snd (filter (\<lambda>p. fst p = key) ps)"

definition fair_inbound :: "eth_ops \<Rightarrow> comboSession \<Rightarrow> comboInbound \<Rightarrow> bool" where
  "fair_inbound X s m = (case inboundAction X m of
       Resolve key r \<Rightarrow> length (with_key key (ss_acks s)) < length (with_key key (ss_issued s))
     | _ \<Rightarrow> True)"

text \<open>
  One atomic section of a goroutine.  Contexts expire and reads and writes of the socket fail whenever they like, which includes all that happens after
  \<open>finish\<close> has canceled the session's context and closed the connection.  With \<open>fair\<close>, the gateway is fair.
\<close>

inductive command_step :: "nat \<Rightarrow> comboSession \<Rightarrow> comboSession \<Rightarrow> bool" for n where
  gate: "ss_cmds s n = Some (m, AtGate) \<Longrightarrow> ss_gate s = None \<Longrightarrow> command_step n s (set_phase n Holding (s\<lparr>ss_gate := Some n\<rparr>))"
| gate_ctx: "ss_cmds s n = Some (m, AtGate) \<Longrightarrow> ctx_error e \<Longrightarrow> command_step n s (set_phase n (Returned noReply (Some e)) s)"
| gate_done: "ss_cmds s n = Some (m, AtGate) \<Longrightarrow> ss_closed s \<Longrightarrow>
    command_step n s (set_phase n (Returned noReply (Some ErrComboRFQSessionClosed)) s)"
| hold_ctx: "ss_cmds s n = Some (m, Holding) \<Longrightarrow> ctx_error e \<Longrightarrow>
    command_step n s (set_phase n (Returned noReply (Some e)) (s\<lparr>ss_gate := None\<rparr>))"
| refused: "ss_cmds s n = Some (m, Holding) \<Longrightarrow> register (ackKey m) n s = (Inl e, s') \<Longrightarrow>
    command_step n s (set_phase n (Returned noReply (Some e)) (s'\<lparr>ss_gate := None\<rparr>))"
| registered: "ss_cmds s n = Some (m, Holding) \<Longrightarrow> register (ackKey m) n s = (Inr (), s') \<Longrightarrow>
    command_step n s (set_phase n Writing s')"
| written: "ss_cmds s n = Some (m, Writing) \<Longrightarrow> command_step n s (set_phase n Awaiting (s\<lparr>ss_gate := None\<rparr>))"
| write_failed: "ss_cmds s n = Some (m, Writing) \<Longrightarrow> command_step n s (set_phase n (Failing e) (s\<lparr>ss_gate := None\<rparr>))"
| await_ctx: "ss_cmds s n = Some (m, Awaiting) \<Longrightarrow> ctx_error e \<Longrightarrow> command_step n s (set_phase n (Failing e) s)"
| failed: "ss_cmds s n = Some (m, Failing e) \<Longrightarrow> finish (Some e) s = Some s' \<Longrightarrow>
    command_step n s (set_phase n (Returned noReply (Some e)) s')"
| answered: "ss_cmds s n = Some (m, Awaiting) \<Longrightarrow> chan_receive (ss_chan s n) = Some (r, c) \<Longrightarrow>
    command_step n s (set_phase n (if decisionMismatch m r then Mismatched r else Returned r (ack_err r)) (s\<lparr>ss_chan := (ss_chan s)(n := c)\<rparr>))"
| mismatched: "ss_cmds s n = Some (m, Mismatched r) \<Longrightarrow> finish (Some mismatchErr) s = Some s' \<Longrightarrow>
    command_step n s (set_phase n (Returned r (Some mismatchErr)) s')"

inductive reader_step :: "eth_ops \<Rightarrow> bool \<Rightarrow> comboSession \<Rightarrow> comboSession \<Rightarrow> bool" for X fair where
  read: "ss_reader s = Reading \<Longrightarrow> (fair \<longrightarrow> fair_inbound X s m) \<Longrightarrow> handleInbound X m s = Some (s', ev) \<Longrightarrow>
    reader_step X fair s (s'\<lparr>ss_reader := (case ev of None \<Rightarrow> Reading | Some v \<Rightarrow> Delivering v)\<rparr>)"
| read_failed: "ss_reader s = Reading \<Longrightarrow> finish (Some (Wrap ''combo RFQ connection lost'' e)) s = Some s' \<Longrightarrow>
    reader_step X fair s (s'\<lparr>ss_reader := Exited\<rparr>)"
| deliver: "ss_reader s = Delivering v \<Longrightarrow> length (ss_events s) < eventBuffer \<Longrightarrow>
    reader_step X fair s (s\<lparr>ss_reader := Reading, ss_events := ss_events s @ [v]\<rparr>)"
| deliver_done: "ss_reader s = Delivering v \<Longrightarrow> ss_closed s \<Longrightarrow> reader_step X fair s (s\<lparr>ss_reader := Exited\<rparr>)"
| exhausted: "ss_reader s = Delivering v \<Longrightarrow> \<not> ss_closed s \<Longrightarrow> eventBuffer \<le> length (ss_events s) \<Longrightarrow>
    finish (Some (Msg ''combo RFQ event buffer exhausted'')) s = Some s' \<Longrightarrow> reader_step X fair s (s'\<lparr>ss_reader := Exited\<rparr>)"

text \<open>The session: commands start and go on, the reader reads, the consumer takes events, the owner closes the session or its context ends.\<close>

inductive session_step :: "eth_ops \<Rightarrow> bool \<Rightarrow> comboSession \<Rightarrow> comboSession \<Rightarrow> bool" for X fair where
  start: "ss_cmds s n = None \<Longrightarrow> session_step X fair s (s\<lparr>ss_cmds := (ss_cmds s)(n \<mapsto> (m, AtGate))\<rparr>)"
| command: "command_step n s s' \<Longrightarrow> session_step X fair s s'"
| reader: "reader_step X fair s s' \<Longrightarrow> session_step X fair s s'"
| consume: "ss_events s = v # vs \<Longrightarrow> session_step X fair s (s\<lparr>ss_events := vs\<rparr>)"
| close: "finish None s = Some s' \<Longrightarrow> session_step X fair s s'"
| session_ctx: "ctx_error e \<Longrightarrow> finish (Some e) s = Some s' \<Longrightarrow> session_step X fair s s'"

inductive_cases command_stepE: "command_step n s s'"
inductive_cases reader_stepE: "reader_step X fair s s'"
inductive_cases session_stepE: "session_step X fair s s'"

definition session_reach :: "eth_ops \<Rightarrow> bool \<Rightarrow> comboSession \<Rightarrow> bool" where
  "session_reach X fair s \<longleftrightarrow> (session_step X fair)\<^sup>*\<^sup>* newSession s"

section \<open>A request/reply service with numbered requests\<close>

text \<open>
  The contract of the session without goroutines, channels or a table of pending commands: requests are issued under a key, one at a time per key; a reply
  settles the request that waits for its key; ending the service settles every waiting request.
\<close>

record request_reply =
  rr_end :: "comboAckResult option"
  rr_issued :: "(comboAckKey \<times> nat) list"
  rr_acks :: "(comboAckKey \<times> comboAckResult) list"
  rr_reply :: "nat \<rightharpoonup> comboAckResult"

definition rr_waits :: "request_reply \<Rightarrow> comboAckKey \<Rightarrow> nat \<Rightarrow> bool" where
  "rr_waits a key n \<longleftrightarrow> (key, n) \<in> set (rr_issued a) \<and> rr_reply a n = None"

definition rr_fair :: "request_reply \<Rightarrow> comboAckKey \<Rightarrow> bool" where
  "rr_fair a key \<longleftrightarrow> length (with_key key (rr_acks a)) < length (with_key key (rr_issued a))"

inductive rr_step :: "bool \<Rightarrow> request_reply \<Rightarrow> request_reply \<Rightarrow> bool" for fair where
  issue: "rr_end a = None \<Longrightarrow> (\<And>n'. \<not> rr_waits a key n') \<Longrightarrow> n \<notin> snd ` set (rr_issued a) \<Longrightarrow>
    rr_step fair a (a\<lparr>rr_issued := rr_issued a @ [(key, n)]\<rparr>)"
| settle: "rr_end a = None \<Longrightarrow> rr_waits a key n \<Longrightarrow> (fair \<longrightarrow> rr_fair a key) \<Longrightarrow>
    rr_step fair a (a\<lparr>rr_acks := rr_acks a @ [(key, r)], rr_reply := (rr_reply a)(n \<mapsto> r)\<rparr>)"
| stray: "(\<And>n. \<not> rr_waits a key n) \<Longrightarrow> (fair \<longrightarrow> rr_fair a key) \<Longrightarrow> rr_step fair a (a\<lparr>rr_acks := rr_acks a @ [(key, r)]\<rparr>)"
| over: "rr_end a = None \<Longrightarrow> rr_step fair a (a\<lparr>rr_end := Some r,
    rr_reply := (\<lambda>n. if n \<in> snd ` set (rr_issued a) \<and> rr_reply a n = None then Some r else rr_reply a n)\<rparr>)"

definition rr_init :: request_reply where
  "rr_init = \<lparr>rr_end = None, rr_issued = [], rr_acks = [], rr_reply = Map.empty\<rparr>"

text \<open>With a fair gateway, the replies of an open service under a key are exactly the acknowledgements of that key, in order.\<close>

definition rr_matched :: "request_reply \<Rightarrow> comboAckKey \<Rightarrow> bool" where
  "rr_matched a key \<longleftrightarrow> (let ns = with_key key (rr_issued a); as = with_key key (rr_acks a)
     in (rr_end a = None \<longrightarrow> length as \<le> length ns \<and> length ns \<le> Suc (length as) \<and>
           (\<forall>i<length ns. rr_reply a (ns ! i) = (if i < length as then Some (as ! i) else None))) \<and>
        (\<forall>i<length ns. \<forall>r. rr_reply a (ns ! i) = Some r \<longrightarrow> (i < length as \<and> r = as ! i) \<or> rr_end a = Some r))"

definition rr_inv :: "request_reply \<Rightarrow> bool" where
  "rr_inv a \<longleftrightarrow> distinct (map snd (rr_issued a)) \<and> (\<forall>n. n \<notin> snd ` set (rr_issued a) \<longrightarrow> rr_reply a n = None) \<and>
     (rr_end a \<noteq> None \<longrightarrow> (\<forall>key n. \<not> rr_waits a key n)) \<and> (\<forall>key. rr_matched a key)"

lemma with_key_snoc [simp]: "with_key key (ps @ [(k, v)]) = with_key key ps @ (if k = key then [v] else [])"
  by (simp add: with_key_def)

lemma set_with_key: "n \<in> set (with_key key ps) \<longleftrightarrow> (key, n) \<in> set ps"
  by (force simp: with_key_def)

lemma distinct_with_key: "distinct (map snd ps) \<Longrightarrow> distinct (with_key key ps)"
  by (induction ps) (auto simp: with_key_def)

lemma with_key_waits: "i < length (with_key key (rr_issued a)) \<Longrightarrow> rr_waits a key (with_key key (rr_issued a) ! i) \<longleftrightarrow> rr_reply a (with_key key (rr_issued a) ! i) = None"
  by (metis nth_mem rr_waits_def set_with_key)

lemma key_unique: "distinct (map snd ps) \<Longrightarrow> (k, n) \<in> set ps \<Longrightarrow> (k', n) \<in> set ps \<Longrightarrow> k = k'"
  by (metis distinct_map inj_on_eq_iff snd_conv fst_conv)

lemma rr_matchedD:
  assumes "rr_inv a"
  defines "ns \<equiv> \<lambda>key. with_key key (rr_issued a)" and "as \<equiv> \<lambda>key. with_key key (rr_acks a)"
  shows "rr_end a = None \<Longrightarrow> length (as key) \<le> length (ns key)" "rr_end a = None \<Longrightarrow> length (ns key) \<le> Suc (length (as key))"
    "rr_end a = None \<Longrightarrow> i < length (ns key) \<Longrightarrow> rr_reply a (ns key ! i) = (if i < length (as key) then Some (as key ! i) else None)"
    "i < length (ns key) \<Longrightarrow> rr_reply a (ns key ! i) = Some r \<Longrightarrow> (i < length (as key) \<and> r = as key ! i) \<or> rr_end a = Some r"
proof -
  have m: "rr_matched a key" using assms(1) by (simp add: rr_inv_def)
  then show "rr_end a = None \<Longrightarrow> length (as key) \<le> length (ns key)" "rr_end a = None \<Longrightarrow> length (ns key) \<le> Suc (length (as key))"
    "i < length (ns key) \<Longrightarrow> rr_reply a (ns key ! i) = Some r \<Longrightarrow> (i < length (as key) \<and> r = as key ! i) \<or> rr_end a = Some r"
    unfolding rr_matched_def ns_def as_def Let_def by blast+
  show "rr_end a = None \<Longrightarrow> i < length (ns key) \<Longrightarrow> rr_reply a (ns key ! i) = (if i < length (as key) then Some (as key ! i) else None)"
    using m unfolding rr_matched_def ns_def as_def Let_def by presburger
qed

lemma rr_matched_openI:
  assumes "rr_end a = None" "length (with_key key (rr_acks a)) \<le> length (with_key key (rr_issued a))"
    "length (with_key key (rr_issued a)) \<le> Suc (length (with_key key (rr_acks a)))"
    "\<And>i. i < length (with_key key (rr_issued a)) \<Longrightarrow>
      rr_reply a (with_key key (rr_issued a) ! i) = (if i < length (with_key key (rr_acks a)) then Some (with_key key (rr_acks a) ! i) else None)"
  shows "rr_matched a key"
  unfolding rr_matched_def Let_def using assms by (simp split: if_splits)

lemma rr_waits_last:
  assumes "rr_inv a" "rr_end a = None" "rr_waits a key n"
  shows "length (with_key key (rr_issued a)) = Suc (length (with_key key (rr_acks a)))"
    and "with_key key (rr_issued a) ! length (with_key key (rr_acks a)) = n"
proof -
  let ?ns = "with_key key (rr_issued a)" and ?as = "with_key key (rr_acks a)"
  obtain i where i: "i < length ?ns" "?ns ! i = n"
    using assms(3) by (metis in_set_conv_nth rr_waits_def set_with_key)
  then have "\<not> i < length ?as" using rr_matchedD(3) [OF assms(1,2), of i key] assms(3) by (auto simp: rr_waits_def)
  then have "i = length ?as" using i(1) rr_matchedD(2) [OF assms(1,2), of key] by simp
  then show "length ?ns = Suc (length ?as)" "?ns ! length ?as = n" using i rr_matchedD(2) [OF assms(1,2), of key] by simp_all
qed

lemma rr_all_replied:
  assumes "rr_inv a" "rr_end a = None" "\<And>n'. \<not> rr_waits a key n'"
  shows "length (with_key key (rr_issued a)) = length (with_key key (rr_acks a))"
proof (rule ccontr)
  let ?ns = "with_key key (rr_issued a)" and ?as = "with_key key (rr_acks a)"
  assume "length ?ns \<noteq> length ?as"
  then have l: "length ?as < length ?ns" using rr_matchedD(1) [OF assms(1,2), of key] by simp
  then have "rr_reply a (?ns ! length ?as) = None" using rr_matchedD(3) [OF assms(1,2) l] by simp
  then show False using with_key_waits [OF l] assms(3) by simp
qed

lemma rr_matched_issue:
  assumes "rr_inv a" "rr_end a = None" "\<And>n'. \<not> rr_waits a key n'" "n \<notin> snd ` set (rr_issued a)"
  shows "rr_matched (a\<lparr>rr_issued := rr_issued a @ [(key, n)]\<rparr>) k"
proof -
  let ?ns = "with_key k (rr_issued a)" and ?as = "with_key k (rr_acks a)"
  have n: "rr_reply a n = None" using assms(1,4) by (simp add: rr_inv_def)
  note l = rr_matchedD(1,2) [OF assms(1,2), of k] and all = rr_all_replied [OF assms(1,2,3)]
  show ?thesis
  proof (cases "k = key")
    case True
    have "rr_reply a ((?ns @ [n]) ! i) = (if i < length ?as then Some (?as ! i) else None)" if "i < length (?ns @ [n])" for i
      using rr_matchedD(3) [OF assms(1,2), of i k] that all n True by (cases "i < length ?ns") (simp_all add: nth_append)
    then show ?thesis using True all assms(2) by (intro rr_matched_openI) simp_all
  next
    case False
    then show ?thesis using l assms(2) rr_matchedD(3) [OF assms(1,2), of _ k] by (intro rr_matched_openI) simp_all
  qed
qed

lemma rr_matched_settle:
  assumes "rr_inv a" "rr_end a = None" "rr_waits a key n"
  shows "rr_matched (a\<lparr>rr_acks := rr_acks a @ [(key, r)], rr_reply := (rr_reply a)(n \<mapsto> r)\<rparr>) k"
proof (cases "k = key")
  case True
  let ?ns = "with_key key (rr_issued a)" and ?as = "with_key key (rr_acks a)"
  note l = rr_waits_last [OF assms]
  have d: "distinct ?ns" using assms(1) distinct_with_key by (auto simp: rr_inv_def)
  have "((rr_reply a)(n \<mapsto> r)) (?ns ! i) = (if i < length (?as @ [r]) then Some ((?as @ [r]) ! i) else None)" if i: "i < length ?ns" for i
  proof (cases "i < length ?as")
    case True
    then have "?ns ! i \<noteq> n" using nth_eq_iff_index_eq [OF d, of i "length ?as"] l by simp
    then show ?thesis using True rr_matchedD(3) [OF assms(1,2) i] by (simp add: nth_append)
  next
    case False
    then show ?thesis using i l by (simp add: less_Suc_eq nth_append)
  qed
  then show ?thesis using True l(1) assms(2) by (intro rr_matched_openI) simp_all
next
  case False
  have "n \<notin> set (with_key k (rr_issued a))"
    using False assms(1,3) key_unique [of "rr_issued a" k n key] by (auto simp: set_with_key rr_waits_def rr_inv_def)
  then have "with_key k (rr_issued a) ! i \<noteq> n" if "i < length (with_key k (rr_issued a))" for i using that nth_mem by blast
  then show ?thesis
    using False assms(2) rr_matchedD(1,2) [OF assms(1,2), of k] rr_matchedD(3) [OF assms(1,2), of _ k] by (intro rr_matched_openI) simp_all
qed

lemma rr_step_inv:
  assumes "rr_inv a" "rr_step True a b"
  shows "rr_inv b"
  using assms(2)
proof cases
  case (issue key n)
  have "rr_matched b k" for k unfolding issue(1) by (rule rr_matched_issue [OF assms(1) issue(2,3,4)])
  then show ?thesis using assms(1) issue(1,2,4) by (auto simp: rr_inv_def rr_waits_def)
next
  case (settle key n r)
  have "n \<in> snd ` set (rr_issued a)" using settle(3) by (force simp: rr_waits_def)
  moreover have "rr_matched b k" for k unfolding settle(1) by (rule rr_matched_settle [OF assms(1) settle(2,3)])
  ultimately show ?thesis using assms(1) settle(1,2) by (auto simp: rr_inv_def rr_waits_def)
next
  case (stray key r)
  have e: "rr_end a \<noteq> None" using rr_all_replied [OF assms(1) _ stray(2)] stray(3) by (auto simp: rr_fair_def)
  have "rr_matched b k" for k
    unfolding rr_matched_def Let_def
    using e stray(1) rr_matchedD(4) [OF assms(1), of _ k] by (auto simp: nth_append)
  then show ?thesis using assms(1) stray(1) by (auto simp: rr_inv_def rr_waits_def)
next
  case (over r)
  have "(i < length (with_key k (rr_acks b)) \<and> v = with_key k (rr_acks b) ! i) \<or> rr_end b = Some v"
    if "i < length (with_key k (rr_issued b))" "rr_reply b (with_key k (rr_issued b) ! i) = Some v" for k i v
    using that over rr_matchedD(4) [OF assms(1), of i k v] by (simp split: if_splits)
  then have "rr_matched b k" for k unfolding rr_matched_def Let_def using over(1) by simp
  moreover have "\<not> rr_waits b k n" for k n
  proof
    assume "rr_waits b k n"
    then have "n \<in> snd ` set (rr_issued a)" "rr_reply b n = None" using over(1) by (force simp: rr_waits_def)+
    then show False using over(1) by (simp split: if_splits)
  qed
  ultimately show ?thesis using assms(1) over(1) by (simp add: rr_inv_def)
qed

section \<open>Refinement\<close>

text \<open>
  What a forward simulation gives: the invariant in every reachable state, and every invariant of the specification.
\<close>

locale forward_simulation =
  fixes cstep :: "'c \<Rightarrow> 'c \<Rightarrow> bool" and cinit :: 'c and astep :: "'a \<Rightarrow> 'a \<Rightarrow> bool" and ainit :: 'a
    and alpha :: "'c \<Rightarrow> 'a" and keep :: "'c \<Rightarrow> bool"
  assumes init: "keep cinit" "alpha cinit = ainit"
    and simulate: "keep s \<Longrightarrow> cstep s s' \<Longrightarrow> keep s' \<and> (alpha s' = alpha s \<or> astep (alpha s) (alpha s'))"
begin

lemma reachable: "cstep\<^sup>*\<^sup>* cinit s \<Longrightarrow> keep s \<and> astep\<^sup>*\<^sup>* ainit (alpha s)"
proof (induction rule: rtranclp_induct)
  case base
  then show ?case using init by simp
next
  case (step s s')
  with simulate [of s s'] show ?case by (auto intro: rtranclp.rtrancl_into_rtrancl)
qed

lemma transfer:
  assumes "I ainit" "\<And>a b. I a \<Longrightarrow> astep a b \<Longrightarrow> I b" "cstep\<^sup>*\<^sup>* cinit s"
  shows "I (alpha s)"
proof -
  have "astep\<^sup>*\<^sup>* ainit (alpha s)" using reachable [OF assms(3)] by simp
  then show ?thesis by (induction rule: rtranclp_induct) (auto intro: assms(1,2))
qed

end

definition session_abs :: "comboSession \<Rightarrow> request_reply" where
  "session_abs s = \<lparr>rr_end = (if ss_closed s then Some (endResult (ss_err s)) else None), rr_issued = ss_issued s, rr_acks = ss_acks s,
     rr_reply = (\<lambda>n. case ch_sent (ss_chan s n) of [] \<Rightarrow> None | r # _ \<Rightarrow> Some r)\<rparr>"

definition issued :: "comboSession \<Rightarrow> nat \<Rightarrow> bool" where
  "issued s n \<longleftrightarrow> n \<in> snd ` set (ss_issued s)"

lemma issuedI [intro]: "(key, n) \<in> set (ss_issued s) \<Longrightarrow> issued s n"
  by (force simp: issued_def)

text \<open>The table of pending commands are the registered commands whose reply channel is empty; every reply channel has taken at most one value.\<close>

definition table_inv :: "comboSession \<Rightarrow> bool" where
  "table_inv s \<longleftrightarrow> (ss_closed s \<longrightarrow> ss_pending s = []) \<and> distinct (map fst (ss_pending s)) \<and> distinct (map snd (ss_issued s)) \<and>
     (\<forall>key n. (key, n) \<in> set (ss_pending s) \<longleftrightarrow> (key, n) \<in> set (ss_issued s) \<and> ch_sent (ss_chan s n) = []) \<and>
     (\<forall>n. length (ch_sent (ss_chan s n)) \<le> 1 \<and> ch_taken (ss_chan s n) \<le> length (ch_sent (ss_chan s n))) \<and>
     (\<forall>n. \<not> issued s n \<longrightarrow> ch_sent (ss_chan s n) = [])"

lemma table_invD:
  assumes "table_inv s"
  shows "ss_closed s \<Longrightarrow> ss_pending s = []" "distinct (map fst (ss_pending s))" "distinct (map snd (ss_issued s))"
    "(key, n) \<in> set (ss_pending s) \<longleftrightarrow> (key, n) \<in> set (ss_issued s) \<and> ch_sent (ss_chan s n) = []"
    "length (ch_sent (ss_chan s n)) \<le> 1" "ch_taken (ss_chan s n) \<le> length (ch_sent (ss_chan s n))"
    "\<not> issued s n \<Longrightarrow> ch_sent (ss_chan s n) = []" "ch_sent (ss_chan s n) = [] \<Longrightarrow> ch_taken (ss_chan s n) = 0"
  using assms by (simp_all add: table_inv_def) (metis le_zero_eq list.size(3))

text \<open>Where a command stands tells whether it was registered and, once it has returned, where its result came from.\<close>

fun phase_ok :: "comboSession \<Rightarrow> nat \<Rightarrow> comboCommand \<Rightarrow> command_phase \<Rightarrow> bool" where
  "phase_ok s n m AtGate \<longleftrightarrow> \<not> issued s n"
| "phase_ok s n m Holding \<longleftrightarrow> \<not> issued s n"
| "phase_ok s n m Writing \<longleftrightarrow> (ackKey m, n) \<in> set (ss_issued s) \<and> ch_taken (ss_chan s n) = 0"
| "phase_ok s n m (Failing e) \<longleftrightarrow> (ackKey m, n) \<in> set (ss_issued s)"
| "phase_ok s n m Awaiting \<longleftrightarrow> (ackKey m, n) \<in> set (ss_issued s) \<and> ch_taken (ss_chan s n) = 0"
| "phase_ok s n m (Mismatched r) \<longleftrightarrow> (ackKey m, n) \<in> set (ss_issued s) \<and> ch_sent (ss_chan s n) = [r]"
| "phase_ok s n m (Returned r e) \<longleftrightarrow>
     (if issued s n
      then (ackKey m, n) \<in> set (ss_issued s) \<and>
           (ch_sent (ss_chan s n) = [r] \<and> e = ack_err r \<and> \<not> decisionMismatch m r \<or> ss_closed s \<and> e \<noteq> None)
      else e \<noteq> None)"

definition commands_inv :: "comboSession \<Rightarrow> bool" where
  "commands_inv s \<longleftrightarrow> (\<forall>n. (ss_cmds s n = None \<longrightarrow> \<not> issued s n) \<and> (\<forall>m p. ss_cmds s n = Some (m, p) \<longrightarrow> phase_ok s n m p))"

definition session_inv :: "comboSession \<Rightarrow> bool" where
  "session_inv s \<longleftrightarrow> table_inv s \<and> commands_inv s"

text \<open>
  How the atomic sections change what the invariants see: registered commands stay, a channel that has a value keeps it, a closed session stays closed, and
  only the receiver takes values.
\<close>

definition evolves :: "comboSession \<Rightarrow> comboSession \<Rightarrow> bool" where
  "evolves s s' \<longleftrightarrow> ss_issued s' = ss_issued s \<and> (ss_closed s \<longrightarrow> ss_closed s') \<and> ss_cmds s' = ss_cmds s \<and>
     (\<forall>n. ch_taken (ss_chan s' n) = ch_taken (ss_chan s n) \<and> (ch_sent (ss_chan s n) \<noteq> [] \<longrightarrow> ch_sent (ss_chan s' n) = ch_sent (ss_chan s n)))"

lemma evolves_refl [simp]: "evolves s s"
  by (simp add: evolves_def)

lemma phase_ok_evolves: "evolves s s' \<Longrightarrow> phase_ok s n m p \<Longrightarrow> phase_ok s' n m p"
  by (cases p) (auto simp: evolves_def issued_def split: if_splits)

lemma commands_inv_evolves:
  assumes "evolves s s'" "commands_inv s"
  shows "commands_inv s'"
  using assms(2) phase_ok_evolves [OF assms(1)] assms(1) by (auto simp: commands_inv_def evolves_def issued_def)

lemma set_phase_fields [simp]:
  "ss_closed (set_phase n p s) = ss_closed s" "ss_err (set_phase n p s) = ss_err s" "ss_pending (set_phase n p s) = ss_pending s"
  "ss_chan (set_phase n p s) = ss_chan s" "ss_issued (set_phase n p s) = ss_issued s" "ss_acks (set_phase n p s) = ss_acks s"
  "ss_cmds (set_phase n p s) = (ss_cmds s)(n := map_option (\<lambda>(m, _). (m, p)) (ss_cmds s n))"
  by (simp_all add: set_phase_def)

lemma issued_frame [simp]:
  "issued (set_phase k q s) = issued s" "issued (s\<lparr>ss_gate := g\<rparr>) = issued s" "issued (s\<lparr>ss_reader := r\<rparr>) = issued s"
  "issued (s\<lparr>ss_events := v\<rparr>) = issued s" "issued (s\<lparr>ss_cmds := cs\<rparr>) = issued s" "issued (s\<lparr>ss_acks := as\<rparr>) = issued s"
  "issued (s\<lparr>ss_closed := b\<rparr>) = issued s" "issued (s\<lparr>ss_err := e\<rparr>) = issued s" "issued (s\<lparr>ss_pending := ps\<rparr>) = issued s" "issued (s\<lparr>ss_chan := cs'\<rparr>) = issued s"
  by (simp_all add: issued_def fun_eq_iff)

lemma frame_simps [simp]:
  "table_inv (set_phase n p s) = table_inv s" "table_inv (s\<lparr>ss_gate := g\<rparr>) = table_inv s" "table_inv (s\<lparr>ss_reader := r\<rparr>) = table_inv s"
  "table_inv (s\<lparr>ss_events := v\<rparr>) = table_inv s" "table_inv (s\<lparr>ss_cmds := cs\<rparr>) = table_inv s" "table_inv (s\<lparr>ss_acks := as\<rparr>) = table_inv s"
  "session_abs (set_phase n p s) = session_abs s" "session_abs (s\<lparr>ss_gate := g\<rparr>) = session_abs s" "session_abs (s\<lparr>ss_reader := r\<rparr>) = session_abs s"
  "session_abs (s\<lparr>ss_events := v\<rparr>) = session_abs s" "session_abs (s\<lparr>ss_cmds := cs\<rparr>) = session_abs s"
  by (simp_all add: table_inv_def session_abs_def)

lemma phase_ok_frame [simp]:
  "phase_ok (set_phase k q s) n m p = phase_ok s n m p" "phase_ok (s\<lparr>ss_gate := g\<rparr>) n m p = phase_ok s n m p"
  "phase_ok (s\<lparr>ss_reader := r\<rparr>) n m p = phase_ok s n m p" "phase_ok (s\<lparr>ss_events := v\<rparr>) n m p = phase_ok s n m p"
  "phase_ok (s\<lparr>ss_cmds := cs\<rparr>) n m p = phase_ok s n m p" "phase_ok (s\<lparr>ss_acks := as\<rparr>) n m p = phase_ok s n m p"
  by (cases p; simp)+

lemma commands_inv_frame [simp]:
  "commands_inv (s\<lparr>ss_gate := g\<rparr>) = commands_inv s" "commands_inv (s\<lparr>ss_reader := r\<rparr>) = commands_inv s"
  "commands_inv (s\<lparr>ss_events := v\<rparr>) = commands_inv s" "commands_inv (s\<lparr>ss_acks := as\<rparr>) = commands_inv s"
  by (simp_all add: commands_inv_def)

lemma commands_inv_phase:
  "commands_inv s \<Longrightarrow> ss_cmds s n = Some (m, p) \<Longrightarrow> phase_ok s n m q \<Longrightarrow> commands_inv (set_phase n q s)"
  by (auto simp: commands_inv_def)

lemma commands_invD: "commands_inv s \<Longrightarrow> ss_cmds s n = Some (m, p) \<Longrightarrow> phase_ok s n m p"
  by (simp add: commands_inv_def)

subsection \<open>Ending and settling\<close>

lemma sendAll_fresh:
  assumes "distinct ns" "\<forall>n\<in>set ns. ch_sent (chans n) = []"
  shows "sendAll r ns chans = Some (\<lambda>n. if n \<in> set ns then (chans n)\<lparr>ch_sent := [r]\<rparr> else chans n)"
  using assms
proof (induction ns arbitrary: chans)
  case (Cons n ns)
  have "sendAll r ns (chans(n := (chans n)\<lparr>ch_sent := [r]\<rparr>)) =
    Some (\<lambda>k. if k \<in> set ns then ((chans(n := (chans n)\<lparr>ch_sent := [r]\<rparr>)) k)\<lparr>ch_sent := [r]\<rparr> else (chans(n := (chans n)\<lparr>ch_sent := [r]\<rparr>)) k)"
    using Cons by (intro Cons.IH) auto
  then show ?case using Cons.prems by (auto simp: chan_send_def fun_eq_iff)
qed simp

lemma pending_numbers:
  assumes "table_inv s"
  shows "distinct (map snd (ss_pending s))" "n \<in> snd ` set (ss_pending s) \<longleftrightarrow> issued s n \<and> ch_sent (ss_chan s n) = []"
proof -
  have d: "distinct (map fst (ss_pending s))" "distinct (map snd (ss_issued s))" "set (ss_pending s) \<subseteq> set (ss_issued s)"
    using assms by (auto simp: table_inv_def)
  have "inj_on snd (set (ss_pending s))" using d(2,3) by (meson distinct_map inj_on_subset)
  then show "distinct (map snd (ss_pending s))" using d(1) by (simp add: distinct_map)
  show "n \<in> snd ` set (ss_pending s) \<longleftrightarrow> issued s n \<and> ch_sent (ss_chan s n) = []"
    using table_invD(4) [OF assms, of _ n] by (force simp: issued_def)
qed

definition ended :: "go_error option \<Rightarrow> comboSession \<Rightarrow> comboSession" where
  "ended err s = (if ss_closed s then s else s\<lparr>ss_closed := True, ss_err := err, ss_pending := [],
     ss_chan := (\<lambda>n. if issued s n \<and> ch_sent (ss_chan s n) = [] then (ss_chan s n)\<lparr>ch_sent := [endResult err]\<rparr> else ss_chan s n)\<rparr>)"

lemma finish_ended:
  assumes "table_inv s"
  shows "finish err s = Some (ended err s)"
proof -
  have "sendAll (endResult err) (map snd (ss_pending s)) (ss_chan s) =
    Some (\<lambda>n. if issued s n \<and> ch_sent (ss_chan s n) = [] then (ss_chan s n)\<lparr>ch_sent := [endResult err]\<rparr> else ss_chan s n)"
    using pending_numbers [OF assms] sendAll_fresh [of "map snd (ss_pending s)" "ss_chan s" "endResult err"] by (auto simp: fun_eq_iff)
  then show ?thesis by (simp add: finish_def ended_def)
qed

lemma ended_facts:
  assumes "table_inv s"
  shows "table_inv (ended err s)" "evolves s (ended err s)" "ss_closed (ended err s)"
    "session_abs (ended err s) = session_abs s \<or> rr_step fair (session_abs s) (session_abs (ended err s))"
proof -
  have "length (ch_sent (ss_chan s n)) \<le> 1 \<and> ch_taken (ss_chan s n) \<le> length (ch_sent (ss_chan s n))" for n
    using table_invD(5,6) [OF assms] by simp
  then show "table_inv (ended err s)"
    unfolding table_inv_def using assms table_invD [OF assms] by (auto simp: ended_def)
  show "evolves s (ended err s)" "ss_closed (ended err s)" by (auto simp: evolves_def ended_def)
  have "session_abs (ended err s) = (session_abs s)\<lparr>rr_end := Some (endResult err),
      rr_reply := (\<lambda>n. if n \<in> snd ` set (rr_issued (session_abs s)) \<and> rr_reply (session_abs s) n = None then Some (endResult err)
                       else rr_reply (session_abs s) n)\<rparr>" if "\<not> ss_closed s"
    using that by (auto simp: session_abs_def ended_def issued_def fun_eq_iff split: list.splits)
  then show "session_abs (ended err s) = session_abs s \<or> rr_step fair (session_abs s) (session_abs (ended err s))"
    using rr_step.over [of "session_abs s" fair "endResult err"] by (auto simp: ended_def session_abs_def)
qed

lemma abs_waits: "table_inv s \<Longrightarrow> rr_waits (session_abs s) key n \<longleftrightarrow> (key, n) \<in> set (ss_pending s)"
  by (auto simp: rr_waits_def session_abs_def table_inv_def split: list.splits)

lemma pending_lookup: "table_inv s \<Longrightarrow> map_of (ss_pending s) key = Some n \<longleftrightarrow> (key, n) \<in> set (ss_pending s)"
  by (simp add: table_inv_def)

lemma resolve_facts:
  assumes "table_inv s" "fair \<longrightarrow> rr_fair (session_abs s) key"
  obtains s' where "resolve key r (s\<lparr>ss_acks := ss_acks s @ [(key, r)]\<rparr>) = Some s'" "table_inv s'" "evolves s s'"
    "rr_step fair (session_abs s) (session_abs s')"
proof (cases "map_of (ss_pending s) key")
  case None
  let ?s = "s\<lparr>ss_acks := ss_acks s @ [(key, r)]\<rparr>"
  have "\<not> rr_waits (session_abs s) key n" for n
    using None assms(1) by (metis abs_waits pending_lookup option.distinct(1))
  then have "rr_step fair (session_abs s) ((session_abs s)\<lparr>rr_acks := rr_acks (session_abs s) @ [(key, r)]\<rparr>)"
    using assms(2) by (rule rr_step.stray)
  moreover have "session_abs ?s = (session_abs s)\<lparr>rr_acks := rr_acks (session_abs s) @ [(key, r)]\<rparr>" by (auto simp: session_abs_def)
  ultimately show ?thesis using that [of ?s] None assms(1) by (simp add: resolve_def evolves_def)
next
  case (Some n)
  have n: "(key, n) \<in> set (ss_pending s)" using Some assms(1) by (simp add: pending_lookup)
  have c: "ch_sent (ss_chan s n) = []" "(key, n) \<in> set (ss_issued s)" "\<not> ss_closed s" using n assms(1) by (auto simp: table_inv_def)
  let ?c = "(ss_chan s n)\<lparr>ch_sent := [r]\<rparr>"
  let ?s = "s\<lparr>ss_acks := ss_acks s @ [(key, r)], ss_pending := filter (\<lambda>p. fst p \<noteq> key) (ss_pending s), ss_chan := (ss_chan s)(n := ?c)\<rparr>"
  have res: "resolve key r (s\<lparr>ss_acks := ss_acks s @ [(key, r)]\<rparr>) = Some ?s"
    using Some c(1) by (simp add: resolve_def chan_send_def)
  have keys: "k = key" if "(k, n) \<in> set (ss_issued s)" for k
    using key_unique [OF table_invD(3) [OF assms(1)] that c(2)] .
  have nums: "n' = n" if "(key, n') \<in> set (ss_pending s)" for n'
    using that Some assms(1) by (metis pending_lookup option.inject)
  have "(k, n') \<in> set (ss_pending ?s) \<longleftrightarrow> (k, n') \<in> set (ss_issued ?s) \<and> ch_sent (ss_chan ?s n') = []" for k n'
  proof -
    have "(k, n') \<in> set (ss_pending ?s) \<longleftrightarrow> k \<noteq> key \<and> (k, n') \<in> set (ss_pending s)"
      "ch_sent (ss_chan ?s n') = [] \<longleftrightarrow> n' \<noteq> n \<and> ch_sent (ss_chan s n') = []" "ss_issued ?s = ss_issued s" by auto
    then show ?thesis using table_invD(4) [OF assms(1), of k n'] keys nums by metis
  qed
  moreover have "distinct (map fst (ss_pending ?s))" using assms(1) by (simp add: table_inv_def distinct_map_filter)
  moreover have "length (ch_sent (ss_chan ?s n')) \<le> 1 \<and> ch_taken (ss_chan ?s n') \<le> length (ch_sent (ss_chan ?s n'))" for n'
    using table_invD(5,6,8) [OF assms(1), of n'] c(1) by auto
  ultimately have t: "table_inv ?s" using assms(1) c unfolding table_inv_def by auto
  have "rr_waits (session_abs s) key n" "rr_end (session_abs s) = None" using n c(3) assms(1) by (auto simp: abs_waits) (simp add: session_abs_def)
  then have "rr_step fair (session_abs s) ((session_abs s)\<lparr>rr_acks := rr_acks (session_abs s) @ [(key, r)], rr_reply := (rr_reply (session_abs s))(n \<mapsto> r)\<rparr>)"
    using assms(2) by (intro rr_step.settle)
  moreover have "(session_abs s)\<lparr>rr_acks := rr_acks (session_abs s) @ [(key, r)], rr_reply := (rr_reply (session_abs s))(n \<mapsto> r)\<rparr> = session_abs ?s"
    by (auto simp: session_abs_def fun_eq_iff)
  ultimately show ?thesis using that [OF res t] c(1) by (auto simp: evolves_def)
qed

subsection \<open>The simulation\<close>

text \<open>What a step must establish.\<close>

definition simulates :: "bool \<Rightarrow> comboSession \<Rightarrow> comboSession \<Rightarrow> bool" where
  "simulates fair s s' \<longleftrightarrow> session_inv s' \<and> (session_abs s' = session_abs s \<or> rr_step fair (session_abs s) (session_abs s'))"

lemma simulates_finish:
  assumes "session_inv s" "finish err s = Some s'" "session_abs s'' = session_abs s'" "table_inv s'' = table_inv s'" "commands_inv s' \<Longrightarrow> commands_inv s''"
  shows "simulates fair s s''"
proof -
  have s: "s' = ended err s" "table_inv s" using assms(1,2) by (auto simp: finish_ended session_inv_def)
  note e = ended_facts [OF s(2), of err]
  have "commands_inv s'" using assms(1) commands_inv_evolves e(2) s by (auto simp: session_inv_def)
  then show ?thesis using assms(3-5) e s by (simp add: simulates_def session_inv_def)
qed

lemma simulates_end:
  assumes "session_inv s" "finish err s = Some s'" "ss_cmds s n = Some (m, p)"
    and "\<And>s'. ss_issued s' = ss_issued s \<Longrightarrow> ss_closed s' \<Longrightarrow> phase_ok s' n m q"
  shows "simulates fair s (set_phase n q s')"
proof (rule simulates_finish [OF assms(1,2)])
  have e: "evolves s s'" "ss_closed s'" using assms(1,2) ended_facts by (auto simp: session_inv_def finish_ended)
  then have "ss_cmds s' n = Some (m, p)" "phase_ok s' n m q" using assms(3,4) by (auto simp: evolves_def)
  then show "commands_inv s' \<Longrightarrow> commands_inv (set_phase n q s')" by (rule commands_inv_phase [rotated])
qed simp_all

lemma simulates_phase:
  assumes "session_inv s" "ss_cmds s n = Some (m, p)" "phase_ok s n m q"
  shows "simulates fair s (set_phase n q s)" "simulates fair s (set_phase n q (s\<lparr>ss_gate := g\<rparr>))"
  using assms commands_inv_phase [of s n m p q] commands_inv_phase [of "s\<lparr>ss_gate := g\<rparr>" n m p q]
  by (auto simp: simulates_def session_inv_def)

lemma simulates_idle:
  assumes "session_inv s"
  shows "simulates fair s (s\<lparr>ss_reader := rd\<rparr>)" "simulates fair s (s\<lparr>ss_events := v\<rparr>)" "simulates fair s (s\<lparr>ss_reader := rd, ss_events := v\<rparr>)"
  using assms by (simp_all add: simulates_def session_inv_def)

lemma simulates_read:
  assumes "session_inv s" "fair \<longrightarrow> fair_inbound X s m" "handleInbound X m s = Some (s', ev)"
  shows "simulates fair s (s'\<lparr>ss_reader := rd\<rparr>)"
proof (cases "inboundAction X m")
  case (Resolve key r)
  have "fair \<longrightarrow> rr_fair (session_abs s) key" using assms(2) Resolve by (simp add: fair_inbound_def rr_fair_def session_abs_def)
  then obtain s1 where r: "resolve key r (s\<lparr>ss_acks := ss_acks s @ [(key, r)]\<rparr>) = Some s1" "table_inv s1" "evolves s s1"
    "rr_step fair (session_abs s) (session_abs s1)"
    using resolve_facts assms(1) by (metis session_inv_def)
  then show ?thesis
    using assms(1,3) Resolve commands_inv_evolves [OF r(3)] by (auto simp: handleInbound_def simulates_def session_inv_def)
next
  case (Finish e)
  then obtain s1 where "finish (Some e) s = Some s1" "s' = s1" using assms(3) by (auto simp: handleInbound_def)
  then show ?thesis using assms(1) by (intro simulates_finish) auto
qed (use assms in \<open>auto simp: handleInbound_def simulates_def session_inv_def\<close>)

lemma command_step_simulates:
  assumes "session_inv s" "command_step n s s'"
  shows "simulates fair s s'"
  using assms(2)
proof cases
  case (registered m s1)
  have new: "\<not> issued s n" using assms(1) registered commands_invD by (fastforce simp: session_inv_def)
  have s1: "\<not> ss_closed s" "map_of (ss_pending s) (ackKey m) = None"
    "s1 = s\<lparr>ss_pending := (ackKey m, n) # ss_pending s, ss_issued := ss_issued s @ [(ackKey m, n)]\<rparr>"
    using registered(3) by (auto simp: register_def split: if_splits)
  have t: "table_inv s" and c: "commands_inv s" using assms(1) by (auto simp: session_inv_def)
  have fresh: "ch_sent (ss_chan s n) = []" "ch_taken (ss_chan s n) = 0" using new t by (simp_all add: table_invD)
  have "table_inv s1"
    using t new fresh s1 by (auto simp: table_inv_def issued_def map_of_eq_None_iff)
  moreover have "phase_ok s1 k m' q" if "phase_ok s k m' q" "k \<noteq> n" for k m' q
    using that s1(3) by (cases q) (auto simp: issued_def split: if_splits)
  then have "commands_inv (set_phase n Writing s1)"
    using c fresh s1(3) registered(2) by (auto simp: commands_inv_def) (auto simp: issued_def)
  moreover have "rr_step fair (session_abs s) ((session_abs s)\<lparr>rr_issued := rr_issued (session_abs s) @ [(ackKey m, n)]\<rparr>)"
    using s1(1,2) t new by (intro rr_step.issue) (simp_all add: abs_waits flip: pending_lookup, simp_all add: session_abs_def issued_def)
  moreover have "session_abs s1 = (session_abs s)\<lparr>rr_issued := rr_issued (session_abs s) @ [(ackKey m, n)]\<rparr>"
    using s1(3) by (auto simp: session_abs_def)
  ultimately show ?thesis using registered(1) by (simp add: simulates_def session_inv_def)
next
  case (answered m r c)
  have p: "(ackKey m, n) \<in> set (ss_issued s)" "ch_taken (ss_chan s n) = 0"
    using commands_invD answered(2) assms(1) by (fastforce simp: session_inv_def)+
  have r: "r = ch_sent (ss_chan s n) ! 0" "ch_sent (ss_chan s n) \<noteq> []" "c = (ss_chan s n)\<lparr>ch_taken := 1\<rparr>"
    using answered(3) p(2) by (auto simp: chan_receive_def split: if_splits)
  then have sent: "ch_sent (ss_chan s n) = [r]" using table_invD(5) [of s n] assms(1) by (auto simp: session_inv_def length_Suc_conv le_Suc_eq)
  let ?s = "s\<lparr>ss_chan := (ss_chan s)(n := c)\<rparr>" and ?p = "if decisionMismatch m r then Mismatched r else Returned r (ack_err r)"
  have a: "session_abs ?s = session_abs s" using r(3) by (auto simp: session_abs_def)
  have t: "table_inv ?s" using assms(1) r(3) sent by (auto simp: session_inv_def table_inv_def)
  have "phase_ok ?s k m' q" if "phase_ok s k m' q" "k \<noteq> n" for k m' q using that by (cases q) auto
  moreover have "phase_ok ?s n m ?p" using sent p(1) r(3) by auto
  ultimately have "commands_inv (set_phase n ?p ?s)"
    using assms(1) answered(2) by (auto simp: session_inv_def commands_inv_def)
  then show ?thesis using a t answered(1) by (simp add: simulates_def session_inv_def)
next
  case (failed m e s1)
  have p: "(ackKey m, n) \<in> set (ss_issued s)" using commands_invD failed(2) assms(1) by (fastforce simp: session_inv_def)
  show ?thesis unfolding failed(1)
    by (rule simulates_end [OF assms(1) failed(3,2)]) (use p in \<open>force simp: issued_def\<close>)
next
  case (mismatched m r s1)
  have p: "(ackKey m, n) \<in> set (ss_issued s)" using commands_invD mismatched(2) assms(1) by (fastforce simp: session_inv_def)
  show ?thesis unfolding mismatched(1)
    by (rule simulates_end [OF assms(1) mismatched(3,2)]) (use p in \<open>force simp: issued_def\<close>)
next
  case (refused m e s1)
  have "\<not> issued s n" using commands_invD [of s n m Holding] refused(2) assms(1) by (simp add: session_inv_def)
  then show ?thesis
    using refused simulates_phase(2) [OF assms(1) refused(2)] by (auto simp: register_def split: if_splits)
qed (use assms(1) in \<open>auto intro!: simulates_phase dest: commands_invD simp: session_inv_def\<close>)

lemma reader_step_simulates:
  assumes "session_inv s" "reader_step X fair s s'"
  shows "simulates fair s s'"
  using assms(2)
proof cases
  case (read m s1 ev)
  then show ?thesis using simulates_read [OF assms(1)] by simp
qed (use assms(1) in \<open>auto intro: simulates_idle simulates_finish\<close>)

lemma session_step_simulates:
  assumes "session_inv s" "session_step X fair s s'"
  shows "simulates fair s s'"
  using assms(2)
proof cases
  case (start n m)
  then show ?thesis using assms(1) by (auto simp: simulates_def session_inv_def commands_inv_def)
qed (use assms(1) in \<open>auto intro: simulates_idle simulates_finish command_step_simulates reader_step_simulates\<close>)

interpretation session_sim: forward_simulation "session_step X fair" newSession "rr_step fair" rr_init session_abs session_inv
proof
  show "session_inv newSession" "session_abs newSession = rr_init"
    by (auto simp: newSession_def session_inv_def table_inv_def commands_inv_def issued_def session_abs_def rr_init_def)
  show "session_inv s' \<and> (session_abs s' = session_abs s \<or> rr_step fair (session_abs s) (session_abs s'))"
    if "session_inv s" "session_step X fair s s'" for s s'
    using session_step_simulates [OF that] by (simp add: simulates_def)
qed

lemma session_reach_inv: "session_reach X fair s \<Longrightarrow> session_inv s"
  using session_sim.reachable by (auto simp: session_reach_def)

lemma session_reach_phase: "session_reach X fair s \<Longrightarrow> ss_cmds s n = Some (m, p) \<Longrightarrow> phase_ok s n m p"
  using session_reach_inv commands_invD by (auto simp only: session_inv_def)

lemma rr_inv_init: "rr_inv rr_init"
  by (simp add: rr_inv_def rr_init_def rr_waits_def rr_matched_def with_key_def)

lemma session_matched: "session_reach X True s \<Longrightarrow> rr_inv (session_abs s)"
  unfolding session_reach_def by (rule session_sim.transfer [where I = rr_inv, OF rr_inv_init rr_step_inv])

lemma session_step_closed: "session_step X fair s s' \<Longrightarrow> ss_closed s \<Longrightarrow> ss_closed s' \<and> ss_issued s' = ss_issued s"
  by (elim session_stepE command_stepE reader_stepE)
    (auto simp: register_def handleInbound_def resolve_def finish_def split: inbound_action.splits option.splits)

section \<open>Properties\<close>

text \<open>A condition identifier that is accepted is in its canonical form.\<close>

lemma to_lower_no_upper: "c \<in> set (to_lower s) \<Longrightarrow> \<not> (65 \<le> (of_char c :: nat) \<and> (of_char c :: nat) \<le> 90)"
  by (induction s rule: to_lower.induct) (auto simp: lower_char_def Let_def of_char_char_of_small split: if_splits)

lemma to_lower_id: "(\<And>c. c \<in> set s \<Longrightarrow> (of_char c :: nat) < 128 \<and> \<not> (65 \<le> (of_char c :: nat) \<and> (of_char c :: nat) \<le> 90)) \<Longrightarrow> to_lower s = s"
proof (induction s)
  case (Cons c s)
  have "c \<noteq> char_of (196 :: nat)" "c \<noteq> char_of (226 :: nat)" using Cons.prems [of c] by auto
  then show ?case using Cons by (auto simp: has_prefix_def lower_char_def Let_def)
qed simp

lemma unhex_ascii: "unhex s \<noteq> None \<Longrightarrow> c \<in> set s \<Longrightarrow> (of_char c :: nat) < 128"
  by (induction s rule: unhex.induct) (auto simp: digit_value_def Let_def split: if_splits option.splits)

lemma comboConditionID_canonical:
  assumes "comboConditionID s = Some v"
  shows "length v = 64 \<and> comboConditionID v = Some v"
proof -
  have l: "length v = 64" "unhex (drop 2 v) \<noteq> None" "has_prefix v ''0x03''" "set v \<subseteq> set (to_lower s)"
    using assms by (auto simp: comboConditionID_def Let_def has_prefix_def min_def split: if_splits dest: in_set_takeD)
  have "(of_char c :: nat) < 128 \<and> \<not> (65 \<le> (of_char c :: nat) \<and> (of_char c :: nat) \<le> 90)" if "c \<in> set v" for c
  proof -
    have "take 4 v = ''0x03''" using l(3) by (simp add: has_prefix_def eval_nat_numeral)
    moreover have "take 2 (take 4 v) = take 2 v" by simp
    ultimately have "take 2 v = ''0x''" by simp
    moreover have "v = take 2 v @ drop 2 v" by simp
    ultimately have "c \<in> set ''0x'' \<or> c \<in> set (drop 2 v)" using that by (metis Un_iff set_append)
    then show ?thesis using unhex_ascii [OF l(2)] to_lower_no_upper [of c s] that l(4) by auto
  qed
  then have "to_lower v = v" by (rule to_lower_id)
  then show ?thesis using l by (simp add: comboConditionID_def Let_def)
qed

text \<open>
  C22: the session refines a request/reply service with numbered requests.  However the goroutines interleave, every atomic section of a reachable session
  is a step of the service or none: a key has at most one request under way, an acknowledgement settles that request or nobody, and when the session ends every
  request under way gets the session's error.
\<close>

theorem session_refines_request_reply:
  assumes "session_reach X fair s" "session_step X fair s s'"
  shows "(rr_step fair)\<^sup>*\<^sup>* rr_init (session_abs s) \<and> (session_abs s' = session_abs s \<or> rr_step fair (session_abs s) (session_abs s'))"
  using session_sim.reachable session_sim.simulate [OF session_reach_inv assms(2)] assms(1) by (auto simp: session_reach_def)

text \<open>
  C23: acknowledgements carry no command number, and yet no command gets another one's.  If the gateway acknowledges no key more often than
  it was registered, then a command that returns without an error, and was the \<open>i\<close>-th of its key, returns the \<open>i\<close>-th acknowledgement of that key: a late acknowledgement of
  an abandoned command never settles a later one.
\<close>

theorem session_acks_match:
  assumes "session_reach X True s" "ss_cmds s n = Some (m, Returned r None)"
  shows "\<exists>i. i < length (with_key (ackKey m) (ss_issued s)) \<and> with_key (ackKey m) (ss_issued s) ! i = n \<and>
    i < length (with_key (ackKey m) (ss_acks s)) \<and> with_key (ackKey m) (ss_acks s) ! i = r \<and> \<not> decisionMismatch m r"
proof -
  have p: "phase_ok s n m (Returned r None)" by (rule session_reach_phase [OF assms(1,2)])
  then have q: "(ackKey m, n) \<in> set (ss_issued s)" "ch_sent (ss_chan s n) = [r]" "ack_err r = None" "\<not> decisionMismatch m r"
    by (auto split: if_splits)
  then obtain i where i: "i < length (with_key (ackKey m) (ss_issued s))" "with_key (ackKey m) (ss_issued s) ! i = n"
    by (metis in_set_conv_nth set_with_key)
  moreover have "rr_end (session_abs s) \<noteq> Some r" using q(3) by (auto simp: session_abs_def endResult_def noReply_def)
  ultimately show ?thesis
    using rr_matchedD(4) [OF session_matched [OF assms(1)], of i "ackKey m" r] q by (auto simp: session_abs_def)
qed

text \<open>
  The session cannot block itself.  In every reachable state, whatever the gateway sends, the sends of \<open>resolve\<close> and \<open>finish\<close>, which are done with the mutex held, find
  room in the reply channel, since a reply channel is sent to at most once; and once the session is closed, nothing is pending and every command that still waits finds a reply.
\<close>

theorem session_never_blocks:
  assumes "session_reach X fair s"
  shows "resolve key r s \<noteq> None \<and> finish err s \<noteq> None \<and> (\<forall>n. length (ch_sent (ss_chan s n)) \<le> 1) \<and>
    (ss_closed s \<longrightarrow> ss_pending s = [] \<and> (\<forall>n m. ss_cmds s n = Some (m, Awaiting) \<longrightarrow> chan_receive (ss_chan s n) \<noteq> None))"
proof (intro conjI impI allI)
  have t: "table_inv s" and c: "commands_inv s" using session_reach_inv [OF assms] by (auto simp: session_inv_def)
  show "resolve key r s \<noteq> None"
    using pending_lookup [OF t, of key] table_invD(4) [OF t, of key] by (auto simp: resolve_def chan_send_def split: option.splits)
  show "finish err s \<noteq> None" using finish_ended [OF t] by simp
  show "length (ch_sent (ss_chan s n)) \<le> 1" for n by (rule table_invD(5) [OF t])
  show "ss_pending s = []" if "ss_closed s" using that by (rule table_invD(1) [OF t])
  show "chan_receive (ss_chan s n) \<noteq> None" if "ss_closed s" "ss_cmds s n = Some (m, Awaiting)" for n m
    using commands_invD [OF c that(2)] table_invD(1) [OF t that(1)] table_invD(4) [OF t, of "ackKey m" n] by (simp add: chan_receive_def)
qed

text \<open>
  An ambiguous command ends the session.  If a registered command returns an error that is not the gateway's answer to it (its context ended, the write failed, the answer was
  for the other decision), the session is closed, stays closed, and registers no further command.
\<close>

theorem session_ambiguity_closes:
  assumes "session_reach X fair s" "ss_cmds s n = Some (m, Returned r e)" "issued s n" "ch_sent (ss_chan s n) \<noteq> [r] \<or> e \<noteq> ack_err r"
    "(session_step X fair)\<^sup>*\<^sup>* s s'"
  shows "ss_closed s' \<and> ss_issued s' = ss_issued s"
proof -
  have "phase_ok s n m (Returned r e)" by (rule session_reach_phase [OF assms(1,2)])
  then have "ss_closed s" using assms(3,4) by auto
  with assms(5) show ?thesis
    by (induction rule: rtranclp_induct) (auto dest: session_step_closed)
qed

text \<open>
  A quote request that reaches the consumer can be quoted: its identity, direction, side and positions pass the checks of \<open>buildComboQuoterQuote\<close>, its unit is known, its
  condition is in canonical form, and its requested size, printed as a decimal for the consumer, is read back as the base units the gateway sent, if these are a
  positive 256-bit number.
\<close>

theorem request_events_quotable:
  assumes "handleInbound X m s = Some (s', Some (QuoteRequestEvent q))"
  shows "s' = s \<and> comboQuoteRequestValid q \<and> rs_Unit (cr0_RequestedSize q) \<in> {RFQSizeUnitShares, RFQSizeUnitNotional} \<and>
    length (cr0_ConditionID q) = 64 \<and> comboConditionID (cr0_ConditionID q) = Some (cr0_ConditionID q) \<and>
    (\<exists>valueE6. ib_RequestedSize m = Some (rs_Unit (cr0_RequestedSize q), valueE6) \<and> isNumericString valueE6 \<and>
       (0 < digits_value valueE6 \<and> digits_value valueE6 < 2 ^ 256 \<longrightarrow>
          comboPositiveE6 (rs_Value (cr0_RequestedSize q)) = Inr (int (digits_value valueE6))))"
proof -
  have a: "inboundAction X m = Emit (QuoteRequestEvent q)" "s' = s"
    using assms by (auto simp: handleInbound_def split: inbound_action.splits)
  then have "requestAction m = Emit (QuoteRequestEvent q)"
    by (auto simp: inboundAction_def authAction_def ackAction_def errorAction_def confirmationAction_def updateAction_def tradeAction_def Let_def
        split: if_splits option.splits sum.splits prod.splits)
  then obtain valueE6 deadline legs condition v where r: "validMarket m" "validPositions m"
    "ib_RequestedSize m = Some (rs_Unit (cr0_RequestedSize q), valueE6)" "comboConditionID (ib_ConditionID m) = Some (cr0_ConditionID q)"
    "rs_Unit (cr0_RequestedSize q) = RFQSizeUnitShares \<or> rs_Unit (cr0_RequestedSize q) = RFQSizeUnitNotional"
    "e6ToDecimal valueE6 = Inr (rs_Value (cr0_RequestedSize q))" "cr0_RFQID q = ib_RFQID m" "cr0_YesPositionID q = ib_YesPositionID m"
    "cr0_NoPositionID q = ib_NoPositionID m" "cr0_Direction q = ib_Direction m" "cr0_Side q = ib_Side m"
    by (auto simp: requestAction_def split: if_splits option.splits sum.splits prod.splits)
  have "comboQuoteRequestValid q" using r(1,2,7-) by (auto simp: comboQuoteRequestValid_def validMarket_def validPositions_def)
  moreover have "isNumericString valueE6" by (rule e6ToDecimal_numeric [OF r(6)])
  ultimately show ?thesis
    using a(2) r(3,5) comboConditionID_canonical [OF r(4)] e6_decimal_read [OF r(6)] by auto
qed

section \<open>A session\<close>

definition demo_ref :: ComboRFQQuoteReference where
  "demo_ref = \<lparr>ref_RFQID = ''r1'', ref_QuoteID = ''q1''\<rparr>"

definition demo_message :: comboCommand where
  "demo_message = ConfirmationMessage demo_ref ComboRFQConfirm"

definition demo_inbound :: "string \<Rightarrow> comboInbound" where
  "demo_inbound type = \<lparr>ib_Type = type, ib_Success = None, ib_Error = [], ib_Code = [], ib_ErrorID = [], ib_RequestType = [], ib_RFQID = ''r1'',
     ib_QuoteID = ''q1'', ib_RequestorPublicID = ''p'', ib_RequesterID = [], ib_LegPositionIDs = Some [''7'', ''20''],
     ib_ConditionID = ''0x03'' @ replicate 60 (CHR ''A'') @ ''01'', ib_YesPositionID = ''8'', ib_NoPositionID = ''9'', ib_Direction = ''BUY'',
     ib_Side = ''YES'', ib_RequestedSize = Some (''shares'', ''0005250000''), ib_SubmissionDeadline = Some 7, ib_Signer = [], ib_Maker = [],
     ib_SignatureType = None, ib_FillSizeE6 = [], ib_PriceE6 = [], ib_SizeE6 = [], ib_ConfirmBy = None, ib_Decision = ''CONFIRM'', ib_Status = [],
     ib_TxHash = None, ib_ExecutedAt = None\<rparr>"

definition demo_reply :: comboAckResult where
  "demo_reply = \<lparr>ack_reference = demo_ref, ack_decision = ''CONFIRM'', ack_err = None\<rparr>"

definition demo_waiting :: comboSession where
  "demo_waiting = newSession\<lparr>ss_pending := [(ackKey demo_message, 0)], ss_cmds := [0 \<mapsto> (demo_message, Awaiting)], ss_issued := [(ackKey demo_message, 0)]\<rparr>"

definition demo_answered :: comboSession where
  "demo_answered = demo_waiting\<lparr>ss_pending := [], ss_chan := (ss_chan demo_waiting)(0 := \<lparr>ch_sent = [demo_reply], ch_taken = 1\<rparr>),
     ss_cmds := [0 \<mapsto> (demo_message, Returned demo_reply None)], ss_acks := [(ackKey demo_message, demo_reply)]\<rparr>"

definition demo_ended :: comboSession where
  "demo_ended = demo_waiting\<lparr>ss_closed := True, ss_err := Some CtxCanceled, ss_pending := [],
     ss_chan := (ss_chan demo_waiting)(0 := \<lparr>ch_sent = [endResult (Some CtxCanceled)], ch_taken = 0\<rparr>),
     ss_cmds := [0 \<mapsto> (demo_message, Returned noReply (Some CtxCanceled))]\<rparr>"

lemmas demo_session_defs = demo_waiting_def demo_answered_def demo_ended_def newSession_def set_phase_def register_def finish_def chan_send_def
  chan_receive_def

lemma session_reach_step: "session_reach X fair s \<Longrightarrow> session_step X fair s s' \<Longrightarrow> session_reach X fair s'"
  by (auto simp: session_reach_def intro: rtranclp.rtrancl_into_rtrancl)

lemma demo_waiting_reach: "session_reach X fair demo_waiting"
proof -
  let ?s1 = "newSession\<lparr>ss_cmds := [0 \<mapsto> (demo_message, AtGate)]\<rparr>"
  let ?s2 = "newSession\<lparr>ss_gate := Some 0, ss_cmds := [0 \<mapsto> (demo_message, Holding)]\<rparr>"
  let ?s3 = "demo_waiting\<lparr>ss_gate := Some 0, ss_cmds := [0 \<mapsto> (demo_message, Writing)]\<rparr>"
  have "session_reach X fair newSession" by (simp add: session_reach_def)
  moreover have "session_step X fair newSession ?s1" using session_step.start [of newSession 0 X fair demo_message] by (simp add: newSession_def)
  moreover have "command_step 0 ?s1 ?s2" using command_step.gate [of ?s1 0 demo_message] by (simp add: demo_session_defs)
  moreover have "command_step 0 ?s2 ?s3"
    using command_step.registered [of ?s2 0 demo_message "snd (register (ackKey demo_message) 0 ?s2)"] by (simp add: demo_session_defs)
  moreover have "command_step 0 ?s3 demo_waiting" using command_step.written [of ?s3 0 demo_message] by (simp add: demo_session_defs)
  ultimately show ?thesis by (meson session_reach_step session_step.command session_step.reader)
qed

lemma demo_ack: "inboundAction X (demo_inbound ''ACK_RFQ_CONFIRMATION_RESPONSE'') = Resolve (ackKey demo_message) demo_reply"
  by (simp add: inboundAction_def ackAction_def demo_inbound_def demo_reply_def demo_message_def demo_ref_def reference_def ComboRFQConfirm_def)

lemma demo_answered_reach: "session_reach X True demo_answered"
proof -
  let ?s1 = "demo_waiting\<lparr>ss_pending := [], ss_chan := (ss_chan demo_waiting)(0 := \<lparr>ch_sent = [demo_reply], ch_taken = 0\<rparr>),
    ss_acks := [(ackKey demo_message, demo_reply)]\<rparr>"
  have "fair_inbound X demo_waiting (demo_inbound ''ACK_RFQ_CONFIRMATION_RESPONSE'')"
    by (simp add: fair_inbound_def demo_ack with_key_def demo_session_defs)
  moreover have "handleInbound X (demo_inbound ''ACK_RFQ_CONFIRMATION_RESPONSE'') demo_waiting = Some (?s1, None)"
    by (simp add: handleInbound_def demo_ack resolve_def demo_session_defs)
  moreover have "ss_reader demo_waiting = Reading" by (simp add: demo_session_defs)
  ultimately have "reader_step X True demo_waiting (?s1\<lparr>ss_reader := Reading\<rparr>)"
    using reader_step.read [of demo_waiting True X "demo_inbound ''ACK_RFQ_CONFIRMATION_RESPONSE''" ?s1 None] by simp
  then have "reader_step X True demo_waiting ?s1" by (simp add: demo_session_defs)
  moreover have "command_step 0 ?s1 demo_answered"
    using command_step.answered [of ?s1 0 demo_message demo_reply "\<lparr>ch_sent = [demo_reply], ch_taken = 1\<rparr>"]
    by (simp add: demo_session_defs demo_message_def demo_reply_def ComboRFQConfirm_def)
  ultimately show ?thesis using demo_waiting_reach by (meson session_reach_step session_step.command session_step.reader)
qed

lemma demo_ended_reach: "session_reach X fair demo_ended"
proof -
  let ?s1 = "set_phase 0 (Failing CtxCanceled) demo_waiting"
  have "command_step 0 demo_waiting ?s1"
    by (rule command_step.await_ctx [where m = demo_message]) (simp_all add: demo_session_defs ctx_error_def)
  moreover have "command_step 0 ?s1 demo_ended"
    using command_step.failed [of ?s1 0 demo_message CtxCanceled "the (finish (Some CtxCanceled) ?s1)"]
    by (simp add: demo_session_defs)
  ultimately show ?thesis using demo_waiting_reach by (meson session_reach_step session_step.command session_step.reader)
qed

theorem session_refines_request_reply_witness:
  "(rr_step True)\<^sup>*\<^sup>* rr_init (session_abs demo_waiting) \<and>
   rr_step True (session_abs demo_waiting) (session_abs (the (finish None demo_waiting)))"
proof -
  let ?s = "the (finish None demo_waiting)"
  have f: "finish None demo_waiting = Some ?s" by (simp add: demo_session_defs)
  from session_refines_request_reply [OF demo_waiting_reach [of demo_eth True] session_step.close [OF f]]
  show ?thesis by (auto simp: session_abs_def demo_session_defs)
qed

theorem session_acks_match_witness:
  "with_key (ackKey demo_message) (ss_issued demo_answered) ! 0 = 0 \<and> with_key (ackKey demo_message) (ss_acks demo_answered) ! 0 = demo_reply"
proof -
  have "ss_cmds demo_answered 0 = Some (demo_message, Returned demo_reply None)" by (simp add: demo_answered_def)
  from session_acks_match [OF demo_answered_reach this] show ?thesis by (auto simp: with_key_def demo_session_defs)
qed

theorem session_never_blocks_witness:
  "resolve (ackKey demo_message) demo_reply demo_waiting \<noteq> None \<and> finish None demo_waiting \<noteq> None \<and> ss_pending demo_ended = []"
  using session_never_blocks [OF demo_waiting_reach [of demo_eth True], of "ackKey demo_message" demo_reply None]
    session_never_blocks [OF demo_ended_reach [of demo_eth True], of "ackKey demo_message" demo_reply None] by (simp add: demo_ended_def)

theorem session_ambiguity_closes_witness:
  "ss_closed demo_ended \<and> ss_issued demo_ended = [(ackKey demo_message, 0)]"
proof -
  have "ss_cmds demo_ended 0 = Some (demo_message, Returned noReply (Some CtxCanceled))" "issued demo_ended 0"
    "ss_issued demo_ended = [(ackKey demo_message, 0)]" "ch_sent (ss_chan demo_ended 0) \<noteq> [noReply] \<or> Some CtxCanceled \<noteq> ack_err noReply"
    by (auto simp: demo_session_defs issued_def noReply_def)
  then show ?thesis using session_ambiguity_closes [OF demo_ended_reach [of demo_eth True], of 0 demo_message noReply "Some CtxCanceled" demo_ended] by simp
qed

theorem request_events_quotable_witness:
  "\<exists>q. handleInbound demo_eth (demo_inbound ''RFQ_REQUEST'') newSession = Some (newSession, Some (QuoteRequestEvent q)) \<and>
     comboQuoteRequestValid q \<and> comboPositiveE6 (rs_Value (cr0_RequestedSize q)) = Inr 5250000"
proof -
  have "case requestAction (demo_inbound ''RFQ_REQUEST'') of Emit (QuoteRequestEvent q) \<Rightarrow> True | _ \<Rightarrow> False" by code_simp
  then obtain q where "requestAction (demo_inbound ''RFQ_REQUEST'') = Emit (QuoteRequestEvent q)"
    by (auto split: inbound_action.splits ComboRFQEvent.splits)
  then have q: "handleInbound demo_eth (demo_inbound ''RFQ_REQUEST'') newSession = Some (newSession, Some (QuoteRequestEvent q))"
    by (simp add: handleInbound_def inboundAction_def demo_inbound_def [of "''RFQ_REQUEST''"])
  moreover have "digits_value ''0005250000'' = 5250000" by code_simp
  ultimately show ?thesis using request_events_quotable [OF q] by (auto simp: demo_inbound_def)
qed

end
