(* ===== verification/RelaySign.thy ===== *)
theory RelaySign
  imports Wallets
begin

text \<open>
  What is signed for the relayer: \<open>signing/signer.go\<close> (the verified signing boundary), \<open>internal/polyrelay/signer.go\<close> (the three schemes),
  \<open>internal/polyrelay/encode.go\<close> (bundling of calls) and \<open>internal/polyrelay/payload.go\<close> (the bodies of \<open>/submit\<close>).  The signer behind the
  boundary, the elliptic curve and the hash of typed data are parameters.
\<close>

section \<open>The verified signer\<close>

record 't signer_ops =
  sg_address :: address
  sg_signTypedData :: "nat \<Rightarrow> 't \<Rightarrow> byte list result"
  sg_signMessage :: "(nat \<Rightarrow> byte list \<Rightarrow> byte list result) option"

record 't crypto_ops =
  cy_typedDataHash :: "'t \<Rightarrow> byte list result"
  cy_textHash :: "byte list \<Rightarrow> byte list"
  cy_validSignatureValues :: "byte \<Rightarrow> nat \<Rightarrow> nat \<Rightarrow> bool"
  cy_recover :: "byte list \<Rightarrow> byte list \<Rightarrow> address result"

definition ErrInvalidSignature :: go_error where
  "ErrInvalidSignature = Sentinel ''signing: invalid signature''"

definition ErrMessageSigningUnsupported :: go_error where
  "ErrMessageSigningUnsupported = Sentinel ''signing: personal-message signing unsupported''"

text \<open>A signature has 65 bytes; the last one is the recovery identifier, 0 or 1, or 27 or 28 on the wire.\<close>

definition recoveryID :: "byte \<Rightarrow> byte option" where
  "recoveryID v = (if v = 27 \<or> v = 28 then Some (v - 27) else if v = 0 \<or> v = 1 then Some v else None)"

definition verifySignature :: "'t crypto_ops \<Rightarrow> address \<Rightarrow> byte list \<Rightarrow> byte list \<Rightarrow> byte list result" where
  "verifySignature C addr digest signature =
     (if length signature \<noteq> 65 then Inl ErrInvalidSignature
      else case recoveryID (signature ! 64) of
        None \<Rightarrow> Inl ErrInvalidSignature
      | Some v \<Rightarrow>
          let sig = signature[64 := v]
          in if \<not> cy_validSignatureValues C v (read_big_endian (take 32 sig)) (read_big_endian (take 32 (drop 32 sig)))
             then Inl ErrInvalidSignature
             else case cy_recover C digest sig of
               Inl _ \<Rightarrow> Inl ErrInvalidSignature
             | Inr a \<Rightarrow> if a \<noteq> addr then Inl ErrInvalidSignature else Inr (sig[64 := v + 27]))"

text \<open>
  The relayer's computations thread the number of the next interaction with the outside and the log of the bodies posted to \<open>/submit\<close>
  with their answers.
\<close>

record SignatureParams =
  sp_GasLimit :: string
  sp_GasPrice :: string
  sp_Relay :: string
  sp_RelayHub :: string
  sp_RelayerFee :: string
  sp_BaseGas :: string
  sp_GasToken :: string
  sp_Operation :: string
  sp_Payment :: string
  sp_PaymentReceiver :: string
  sp_PaymentToken :: string
  sp_RefundReceiver :: string
  sp_SafeTxnGas :: string

record DepositCall =
  dc_Target :: string
  dc_Value :: string
  dc_Data :: string

record DepositWalletParams =
  dw_DepositWallet :: string
  dw_Deadline :: string
  dw_Calls :: "DepositCall list"

record SubmitRequest =
  sb_Type :: string
  sb_From :: string
  sb_To :: string
  sb_ProxyWallet :: string
  sb_Data :: string
  sb_Value :: string
  sb_Nonce :: string
  sb_Signature :: string
  sb_Metadata :: string
  sb_SignatureParams :: "SignatureParams option"
  sb_DepositWallet :: "DepositWalletParams option"

record ExecuteResponse =
  er_State :: string
  er_TransactionHash :: string
  er_TransactionID :: string

record relayState =
  rl_ticks :: nat
  rl_log :: "(SubmitRequest \<times> ExecuteResponse result) list"

definition ask :: "(nat \<Rightarrow> 'a result) \<Rightarrow> (relayState, 'a) act" where
  "ask f = (\<lambda>s. (f (rl_ticks s), s\<lparr>rl_ticks := Suc (rl_ticks s)\<rparr>))"

definition checkCtx :: "(nat \<Rightarrow> go_error option) \<Rightarrow> (relayState, unit) act" where
  "checkCtx ctx = ask (\<lambda>n. case ctx n of Some e \<Rightarrow> Inl e | None \<Rightarrow> Inr ())"

definition SignTypedData ::
  "'t crypto_ops \<Rightarrow> (nat \<Rightarrow> go_error option) \<Rightarrow> 't signer_ops \<Rightarrow> 't \<Rightarrow> (relayState, byte list) act" where
  "SignTypedData C ctx W td =
     bindE (checkCtx ctx) (\<lambda>_.
     bindE (lift (wrap_err ''signing: typed data'' (cy_typedDataHash C td))) (\<lambda>digest.
     bindE (ask (\<lambda>n. sg_signTypedData W n td)) (\<lambda>sig.
     bindE (checkCtx ctx) (\<lambda>_.
       lift (verifySignature C (sg_address W) digest sig)))))"

definition SignMessage ::
  "'t crypto_ops \<Rightarrow> (nat \<Rightarrow> go_error option) \<Rightarrow> 't signer_ops \<Rightarrow> byte list \<Rightarrow> (relayState, byte list) act" where
  "SignMessage C ctx W message =
     bindE (checkCtx ctx) (\<lambda>_.
       case sg_signMessage W of
         None \<Rightarrow> fail ErrMessageSigningUnsupported
       | Some sign \<Rightarrow>
           bindE (ask (\<lambda>n. sign n message)) (\<lambda>sig.
           bindE (checkCtx ctx) (\<lambda>_.
             lift (verifySignature C (sg_address W) (cy_textHash C message) sig))))"

section \<open>Requests\<close>

record TransactionCall =
  tc_To :: address
  tc_Data :: "byte list"
  tc_Value :: "int option"

definition TransactionTypeProxy :: string where "TransactionTypeProxy = ''PROXY''"
definition TransactionTypeSafe :: string where "TransactionTypeSafe = ''SAFE''"
definition TransactionTypeWallet :: string where "TransactionTypeWallet = ''WALLET''"
definition TransactionTypeWalletCreate :: string where "TransactionTypeWalletCreate = ''WALLET-CREATE''"

lemmas transaction_types = TransactionTypeProxy_def TransactionTypeSafe_def TransactionTypeWallet_def TransactionTypeWalletCreate_def

lemma transaction_types_distinct [simp]:
  "TransactionTypeProxy \<noteq> TransactionTypeSafe" "TransactionTypeProxy \<noteq> TransactionTypeWallet" "TransactionTypeSafe \<noteq> TransactionTypeWallet"
  "TransactionTypeSafe \<noteq> TransactionTypeProxy" "TransactionTypeWallet \<noteq> TransactionTypeProxy" "TransactionTypeWallet \<noteq> TransactionTypeSafe"
  by (simp_all add: transaction_types)

definition ErrNilSigner :: go_error where "ErrNilSigner = Sentinel ''polyrelay: nil signer''"
definition ErrEmptyBatch :: go_error where "ErrEmptyBatch = Sentinel ''polyrelay: empty call batch''"
definition ErrUnknownType :: go_error where "ErrUnknownType = Sentinel ''polyrelay: unknown relayer transaction type''"
definition ErrNilValue :: go_error where "ErrNilValue = Sentinel ''polyrelay: nil value in uint256 field''"
definition ErrNegativeValue :: go_error where "ErrNegativeValue = Sentinel ''polyrelay: negative value in uint256 field''"
definition ErrOverflow :: go_error where "ErrOverflow = Sentinel ''polyrelay: value exceeds uint256''"

record RelayRequest =
  ry_Signer :: address
  ry_Wallet :: address
  ry_ChainID :: "int option"
  ry_Nonce :: "int option"
  ry_To :: address
  ry_Data :: "byte list"
  ry_Value :: "int option"
  ry_Operation :: "8 word"
  ry_RelayHub :: address
  ry_Relay :: address
  ry_GasFee :: "int option"
  ry_GasPrice :: "int option"
  ry_GasLimit :: "int option"
  ry_Calls :: "TransactionCall list"
  ry_Deadline :: "int option"

definition noRequest :: RelayRequest where
  "noRequest = \<lparr>ry_Signer = noAddress, ry_Wallet = noAddress, ry_ChainID = None, ry_Nonce = None, ry_To = noAddress, ry_Data = [],
     ry_Value = None, ry_Operation = 0, ry_RelayHub = noAddress, ry_Relay = noAddress, ry_GasFee = None, ry_GasPrice = None,
     ry_GasLimit = None, ry_Calls = [], ry_Deadline = None\<rparr>"

definition pad32 :: "int option \<Rightarrow> byte list result" where
  "pad32 v = (case v of
       None \<Rightarrow> Inl ErrNilValue
     | Some n \<Rightarrow> if n < 0 then Inl (Wrap [] ErrNegativeValue) else if 2 ^ 256 \<le> n then Inl (Wrap [] ErrOverflow)
                 else Inr (big_endian 32 (nat n)))"

section \<open>The three schemes\<close>

definition ascii :: "string \<Rightarrow> byte list" where
  "ascii s = map (\<lambda>c. of_nat (of_char c)) s"

definition proxyDigest :: "eth_ops \<Rightarrow> RelayRequest \<Rightarrow> byte list result" where
  "proxyDigest X req =
     rbind (pad32 (ry_GasFee req)) (\<lambda>fee.
     rbind (pad32 (ry_GasPrice req)) (\<lambda>price.
     rbind (pad32 (ry_GasLimit req)) (\<lambda>limit.
     rbind (pad32 (ry_Nonce req)) (\<lambda>nonce.
       Inr (eth_keccak256 X (ascii ''rlx:'' @ ry_Signer req @ ry_To req @ ry_Data req @ fee @ price @ limit @ nonce @
              ry_RelayHub req @ ry_Relay req))))))"

datatype relay_value = TextValue string | BytesValue "byte list" | ListValue "(string \<times> relay_value) list list"

record relayTypedData =
  rt_Types :: "(string \<times> (string \<times> string) list) list"
  rt_PrimaryType :: string
  rt_Domain :: TypedDataDomain
  rt_Message :: "(string \<times> relay_value) list"

definition safeTypedData :: "eth_ops \<Rightarrow> RelayRequest \<Rightarrow> int \<Rightarrow> int \<Rightarrow> int \<Rightarrow> relayTypedData" where
  "safeTypedData X req chain amount nonce =
     \<lparr>rt_Types = [(''EIP712Domain'', [(''chainId'', ''uint256''), (''verifyingContract'', ''address'')]),
        (''SafeTx'', [(''to'', ''address''), (''value'', ''uint256''), (''data'', ''bytes''), (''operation'', ''uint8''),
          (''safeTxGas'', ''uint256''), (''baseGas'', ''uint256''), (''gasPrice'', ''uint256''), (''gasToken'', ''address''),
          (''refundReceiver'', ''address''), (''nonce'', ''uint256'')])],
      rt_PrimaryType = ''SafeTx'',
      rt_Domain = \<lparr>dm_Name = [], dm_Version = [], dm_ChainId = chain, dm_VerifyingContract = eth_addressHex X (ry_Wallet req)\<rparr>,
      rt_Message = [(''to'', TextValue (eth_addressHex X (ry_To req))), (''value'', TextValue (show_int amount)), (''data'', BytesValue (ry_Data req)),
        (''operation'', TextValue (show_nat (unat (ry_Operation req)))), (''safeTxGas'', TextValue ''0''), (''baseGas'', TextValue ''0''),
        (''gasPrice'', TextValue ''0''), (''gasToken'', TextValue (eth_addressHex X noAddress)),
        (''refundReceiver'', TextValue (eth_addressHex X noAddress)), (''nonce'', TextValue (show_int nonce))]\<rparr>"

definition safeDigest :: "eth_ops \<Rightarrow> relayTypedData crypto_ops \<Rightarrow> RelayRequest \<Rightarrow> byte list result" where
  "safeDigest X C req = (case (ry_ChainID req, ry_Value req, ry_Nonce req) of
       (Some chain, Some amount, Some nonce) \<Rightarrow> wrap_err ''polyrelay: safe digest'' (cy_typedDataHash C (safeTypedData X req chain amount nonce))
     | _ \<Rightarrow> Inl (Wrap ''safe digest requires chainId, value, nonce'' ErrNilValue))"

text \<open>The recovery byte in Safe's encoding.  A signature that \<open>SignMessage\<close> returns has 65 bytes.\<close>

definition packSafeSignature :: "byte list \<Rightarrow> byte list" where
  "packSafeSignature sig =
     (let v = sig ! 64
      in if v = 0 \<or> v = 1 then sig[64 := v + 31] else if v = 27 \<or> v = 28 then sig[64 := v + 4] else sig)"

definition callMessage :: "eth_ops \<Rightarrow> TransactionCall \<Rightarrow> (string \<times> relay_value) list result" where
  "callMessage X c = (case tc_Value c of
       None \<Rightarrow> Inl (Wrap ''call value'' ErrNilValue)
     | Some v \<Rightarrow> Inr [(''target'', TextValue (eth_addressHex X (tc_To c))), (''value'', TextValue (show_int v)), (''data'', BytesValue (tc_Data c))])"

text \<open>A loop over the calls that returns the first error.\<close>

fun each :: "('a \<Rightarrow> 'b result) \<Rightarrow> 'a list \<Rightarrow> 'b list result" where
  "each f [] = Inr []"
| "each f (x # xs) = rbind (f x) (\<lambda>y. rbind (each f xs) (\<lambda>ys. Inr (y # ys)))"

definition batchTypedData :: "eth_ops \<Rightarrow> address \<Rightarrow> int \<Rightarrow> int \<Rightarrow> int \<Rightarrow> (string \<times> relay_value) list list \<Rightarrow> relayTypedData" where
  "batchTypedData X wallet chain nonce deadline calls =
     \<lparr>rt_Types = [(''EIP712Domain'', [(''name'', ''string''), (''version'', ''string''), (''chainId'', ''uint256''), (''verifyingContract'', ''address'')]),
        (''Batch'', [(''wallet'', ''address''), (''nonce'', ''uint256''), (''deadline'', ''uint256''), (''calls'', ''Call[]'')]),
        (''Call'', [(''target'', ''address''), (''value'', ''uint256''), (''data'', ''bytes'')])],
      rt_PrimaryType = ''Batch'',
      rt_Domain = \<lparr>dm_Name = ''DepositWallet'', dm_Version = ''1'', dm_ChainId = chain, dm_VerifyingContract = eth_addressHex X wallet\<rparr>,
      rt_Message = [(''wallet'', TextValue (eth_addressHex X wallet)), (''nonce'', TextValue (show_int nonce)),
        (''deadline'', TextValue (show_int deadline)), (''calls'', ListValue calls)]\<rparr>"

definition depositTypedData :: "eth_ops \<Rightarrow> RelayRequest \<Rightarrow> relayTypedData result" where
  "depositTypedData X req =
     (if ry_Calls req = [] then Inl ErrEmptyBatch
      else case (ry_ChainID req, ry_Nonce req, ry_Deadline req) of
        (Some chain, Some nonce, Some deadline) \<Rightarrow>
          rbind (each (callMessage X) (ry_Calls req)) (\<lambda>calls. Inr (batchTypedData X (ry_Wallet req) chain nonce deadline calls))
      | _ \<Rightarrow> Inl (Wrap ''deposit digest requires chainId, nonce, deadline'' ErrNilValue))"

definition Sign ::
  "eth_ops \<Rightarrow> relayTypedData crypto_ops \<Rightarrow> (nat \<Rightarrow> go_error option) \<Rightarrow> string \<Rightarrow> relayTypedData signer_ops option \<Rightarrow> RelayRequest \<Rightarrow>
     (relayState, byte list) act" where
  "Sign X C ctx txType signer req = (case signer of
       None \<Rightarrow> fail ErrNilSigner
     | Some W \<Rightarrow>
         bindE (checkCtx ctx) (\<lambda>_.
           if txType = TransactionTypeWallet then bindE (lift (depositTypedData X req)) (SignTypedData C ctx W)
           else if txType \<noteq> TransactionTypeProxy \<and> txType \<noteq> TransactionTypeSafe then fail (Wrap [] ErrUnknownType)
           else bindE (lift (if txType = TransactionTypeProxy then proxyDigest X req else safeDigest X C req)) (\<lambda>digest.
                  if ry_Signer req \<noteq> noAddress \<and> ry_Signer req \<noteq> sg_address W then fail (Msg ''polyrelay: signer address mismatch'')
                  else bindE (SignMessage C ctx W digest) (\<lambda>sig.
                         ret (if txType = TransactionTypeSafe then packSafeSignature sig else sig)))))"

section \<open>Bundling of calls\<close>

definition selector :: "eth_ops \<Rightarrow> string \<Rightarrow> byte list" where
  "selector X signature = take 4 (eth_keccak256 X (ascii signature))"

definition proxyTuple :: "TransactionCall \<Rightarrow> (nat \<times> address \<times> int \<times> byte list) result" where
  "proxyTuple c = (case tc_Value c of None \<Rightarrow> Inl (Wrap ''call value'' ErrNilValue) | Some v \<Rightarrow> Inr (1, tc_To c, v, tc_Data c))"

definition EncodeProxyCall ::
  "eth_ops \<Rightarrow> ((nat \<times> address \<times> int \<times> byte list) list \<Rightarrow> byte list result) \<Rightarrow> TransactionCall list \<Rightarrow> byte list result" where
  "EncodeProxyCall X packTuples calls =
     (if calls = [] then Inl ErrEmptyBatch
      else rbind (each proxyTuple calls) (\<lambda>tuples.
           rbind (wrap_err ''polyrelay: encode proxy call'' (packTuples tuples)) (\<lambda>body.
             Inr (selector X ''proxy((uint8,address,uint256,bytes)[])'' @ body))))"

definition multisendCall :: "TransactionCall \<Rightarrow> byte list result" where
  "multisendCall c = rbind (pad32 (tc_Value c)) (\<lambda>v. Inr ([0] @ tc_To c @ v @ big_endian 32 (length (tc_Data c)) @ tc_Data c))"

definition EncodeSafeMultisendCall :: "eth_ops \<Rightarrow> TransactionCall list \<Rightarrow> byte list result" where
  "EncodeSafeMultisendCall X calls =
     (if calls = [] then Inl ErrEmptyBatch
      else rbind (each multisendCall calls) (\<lambda>inner.
           rbind (wrap_err ''polyrelay: encode safe multisend'' (eth_pack X [AbiBytes (concat inner)])) (\<lambda>body.
             Inr (selector X ''multiSend(bytes)'' @ body))))"

section \<open>Bodies\<close>

definition hexData :: "byte list \<Rightarrow> string" where
  "hexData b = ''0x'' @ hex_encode b"

definition HexSignature :: "byte list \<Rightarrow> string result" where
  "HexSignature sig = (if length sig \<noteq> 65 then Inl (Msg ''polyrelay: signature must be 65 bytes'') else Inr (hexData sig))"

definition bigStr :: "int option \<Rightarrow> string result" where
  "bigStr v = (case v of
       None \<Rightarrow> Inl (Wrap ''big.Int field'' ErrNilValue)
     | Some n \<Rightarrow> if n < 0 then Inl (Wrap [] ErrNegativeValue) else Inr (show_int n))"

definition noParams :: SignatureParams where
  "noParams = \<lparr>sp_GasLimit = [], sp_GasPrice = [], sp_Relay = [], sp_RelayHub = [], sp_RelayerFee = [], sp_BaseGas = [], sp_GasToken = [],
     sp_Operation = [], sp_Payment = [], sp_PaymentReceiver = [], sp_PaymentToken = [], sp_RefundReceiver = [], sp_SafeTxnGas = []\<rparr>"

definition submitBody :: "eth_ops \<Rightarrow> string \<Rightarrow> address \<Rightarrow> address \<Rightarrow> string \<Rightarrow> SubmitRequest" where
  "submitBody X txType from to metadata =
     \<lparr>sb_Type = txType, sb_From = eth_addressHex X from, sb_To = eth_addressHex X to, sb_ProxyWallet = [], sb_Data = [], sb_Value = [],
      sb_Nonce = [], sb_Signature = [], sb_Metadata = metadata, sb_SignatureParams = None, sb_DepositWallet = None\<rparr>"

record ProxySubmitInput =
  pi_Signer :: address
  pi_ProxyFactory :: address
  pi_Wallet :: address
  pi_Data :: "byte list"
  pi_Nonce :: "int option"
  pi_GasLimit :: "int option"
  pi_Signature :: "byte list"
  pi_Relay :: address
  pi_RelayHub :: address
  pi_Metadata :: string

definition BuildProxySubmit :: "eth_ops \<Rightarrow> ProxySubmitInput \<Rightarrow> SubmitRequest result" where
  "BuildProxySubmit X i =
     rbind (bigStr (pi_Nonce i)) (\<lambda>nonce.
     rbind (bigStr (pi_GasLimit i)) (\<lambda>gasLimit.
     rbind (HexSignature (pi_Signature i)) (\<lambda>sig.
       Inr ((submitBody X TransactionTypeProxy (pi_Signer i) (pi_ProxyFactory i) (pi_Metadata i))
         \<lparr>sb_ProxyWallet := eth_addressHex X (pi_Wallet i), sb_Data := hexData (pi_Data i), sb_Nonce := nonce, sb_Signature := sig,
          sb_SignatureParams := Some (noParams\<lparr>sp_GasLimit := gasLimit, sp_GasPrice := ''0'', sp_Relay := eth_addressHex X (pi_Relay i),
            sp_RelayHub := eth_addressHex X (pi_RelayHub i), sp_RelayerFee := ''0''\<rparr>)\<rparr>))))"

record SafeSubmitInput =
  si_Signer :: address
  si_Wallet :: address
  si_Target :: address
  si_Data :: "byte list"
  si_Value :: "int option"
  si_Operation :: "8 word"
  si_Nonce :: "int option"
  si_Signature :: "byte list"
  si_Metadata :: string

definition BuildSafeSubmit :: "eth_ops \<Rightarrow> SafeSubmitInput \<Rightarrow> SubmitRequest result" where
  "BuildSafeSubmit X i = (case si_Value i of
       None \<Rightarrow> Inl (Wrap ''safe value'' ErrNilValue)
     | Some amount \<Rightarrow>
         rbind (bigStr (si_Nonce i)) (\<lambda>nonce.
         rbind (HexSignature (si_Signature i)) (\<lambda>sig.
           Inr ((submitBody X TransactionTypeSafe (si_Signer i) (si_Target i) (si_Metadata i))
             \<lparr>sb_ProxyWallet := eth_addressHex X (si_Wallet i), sb_Data := hexData (si_Data i), sb_Nonce := nonce, sb_Signature := sig,
              sb_SignatureParams := Some (noParams\<lparr>sp_BaseGas := ''0'', sp_GasPrice := ''0'', sp_GasToken := eth_addressHex X noAddress,
                sp_Operation := show_nat (unat (si_Operation i)), sp_RefundReceiver := eth_addressHex X noAddress, sp_SafeTxnGas := ''0''\<rparr>),
              sb_Value := (if amount > 0 then show_int amount else [])\<rparr>))))"

record DepositSubmitInput =
  di_Signer :: address
  di_Factory :: address
  di_Wallet :: address
  di_Calls :: "TransactionCall list"
  di_Nonce :: "int option"
  di_Deadline :: "int option"
  di_Signature :: "byte list"
  di_Metadata :: string

definition depositCall :: "eth_ops \<Rightarrow> TransactionCall \<Rightarrow> DepositCall result" where
  "depositCall X c = rbind (wrap_err ''call'' (bigStr (tc_Value c))) (\<lambda>v.
     Inr \<lparr>dc_Target = eth_addressHex X (tc_To c), dc_Value = v, dc_Data = hexData (tc_Data c)\<rparr>)"

definition BuildDepositSubmit :: "eth_ops \<Rightarrow> DepositSubmitInput \<Rightarrow> SubmitRequest result" where
  "BuildDepositSubmit X i =
     (if di_Calls i = [] then Inl ErrEmptyBatch
      else rbind (bigStr (di_Nonce i)) (\<lambda>nonce.
           rbind (bigStr (di_Deadline i)) (\<lambda>deadline.
             if di_Signature i = [] then Inl (Msg ''polyrelay: empty deposit signature'')
             else rbind (each (depositCall X) (di_Calls i)) (\<lambda>calls.
                    Inr ((submitBody X TransactionTypeWallet (di_Signer i) (di_Factory i) (di_Metadata i))
                      \<lparr>sb_Nonce := nonce, sb_Signature := hexData (di_Signature i),
                       sb_DepositWallet := Some \<lparr>dw_DepositWallet = eth_addressHex X (di_Wallet i), dw_Deadline = deadline, dw_Calls = calls\<rparr>\<rparr>)))))"

definition BuildWalletCreate :: "eth_ops \<Rightarrow> address \<Rightarrow> address \<Rightarrow> string \<Rightarrow> SubmitRequest" where
  "BuildWalletCreate X signer factory metadata = submitBody X TransactionTypeWalletCreate signer factory metadata"

section \<open>Verified signatures\<close>

text \<open>A signature on the wire that recovers an address.\<close>

definition recovers :: "'t crypto_ops \<Rightarrow> address \<Rightarrow> byte list \<Rightarrow> byte list \<Rightarrow> bool" where
  "recovers C addr digest sig \<longleftrightarrow> length sig = 65 \<and> (sig ! 64 = 27 \<or> sig ! 64 = 28) \<and> cy_recover C digest (sig[64 := sig ! 64 - 27]) = Inr addr"

lemma verifySignature_recovers: "verifySignature C addr digest signature = Inr sig \<Longrightarrow> recovers C addr digest sig \<and> take 64 sig = take 64 signature"
  by (auto simp: verifySignature_def recoveryID_def recovers_def Let_def split: if_splits option.splits sum.splits) (metis list_update_id)+

lemma relay_frames [simp]:
  "ask f s = (r, s') \<longleftrightarrow> r = f (rl_ticks s) \<and> s' = s\<lparr>rl_ticks := Suc (rl_ticks s)\<rparr>"
  by (auto simp: ask_def)

lemma checkCtx_run [go_run]: "checkCtx ctx s = (Inr u, s') \<longleftrightarrow> ctx (rl_ticks s) = None \<and> s' = s\<lparr>rl_ticks := Suc (rl_ticks s)\<rparr>"
  by (auto simp: checkCtx_def split: option.splits)

lemma SignTypedData_run:
  assumes "SignTypedData C ctx W td s = (Inr sig, s')"
  shows "\<exists>d. cy_typedDataHash C td = Inr d \<and> recovers C (sg_address W) d sig"
  using assms by (auto simp: SignTypedData_def go_run dest: verifySignature_recovers)

lemma SignMessage_run:
  assumes "SignMessage C ctx W message s = (Inr sig, s')"
  shows "recovers C (sg_address W) (cy_textHash C message) sig"
  using assms by (auto simp: SignMessage_def go_run split: option.splits dest: verifySignature_recovers)

lemma packSafeSignature_packed:
  "recovers C addr digest sig \<Longrightarrow> packSafeSignature sig = sig[64 := sig ! 64 + 4] \<and> (packSafeSignature sig ! 64 = 31 \<or> packSafeSignature sig ! 64 = 32)"
  by (auto simp: recovers_def packSafeSignature_def Let_def)

text \<open>
  C25: whatever the signer behind the boundary returns, a signature that \<open>Sign\<close> hands out recovers the pinned address from the digest of exactly the request: the typed data of
  the batch for a deposit wallet, the personal-message hash of the digest for a proxy, and for a Safe the same with the recovery byte moved to 31 or 32.
\<close>

theorem relay_signatures_recover:
  assumes "Sign X C ctx txType (Some W) req s = (Inr sig, s')"
  shows "(txType = TransactionTypeWallet \<and> (\<exists>td d. depositTypedData X req = Inr td \<and> cy_typedDataHash C td = Inr d \<and> recovers C (sg_address W) d sig)) \<or>
    (txType = TransactionTypeProxy \<and> (\<exists>d. proxyDigest X req = Inr d \<and> recovers C (sg_address W) (cy_textHash C d) sig)) \<or>
    (txType = TransactionTypeSafe \<and> (sig ! 64 = 31 \<or> sig ! 64 = 32) \<and>
      (\<exists>d raw. safeDigest X C req = Inr d \<and> recovers C (sg_address W) (cy_textHash C d) raw \<and> sig = raw[64 := raw ! 64 + 4]))"
  using assms
  by (auto simp: Sign_def go_run split: if_splits dest!: SignTypedData_run SignMessage_run dest: packSafeSignature_packed)

section \<open>Reading a bundle back\<close>

text \<open>What the multiSend contract reads from the inner stream: operation, target, value, length and data of each call.\<close>

function decodeMultisend :: "byte list \<Rightarrow> (address \<times> nat \<times> byte list) list option" where
  "decodeMultisend [] = Some []"
| "decodeMultisend (op # bs) =
     (let len = read_big_endian (take 32 (drop 52 bs)); rest = drop 84 bs
      in if op \<noteq> 0 \<or> length bs < 84 \<or> length rest < len then None
         else map_option (Cons (take 20 bs, read_big_endian (take 32 (drop 20 bs)), take len rest)) (decodeMultisend (drop len rest)))"
  by pat_completeness auto
termination by (relation "measure length") auto

declare decodeMultisend.simps [simp del]

locale relay_ethereum = ethereum +
  assumes decode_empty: "eth_decode X ''0x'' = Inr []"
    and pack_bytes_only: "length bs < 2 ^ 256 \<Longrightarrow> eth_pack X [AbiBytes bs] = Inr (big_endian 32 32 @ abi_tail bs)"
begin

lemma decode_hexData: "eth_decode X (hexData bs) = Inr bs"
  using decode [of bs] decode_empty by (cases "bs = []") (simp_all add: hexData_def hex_encode_def)

end

lemma each_Inr: "each f xs = Inr ys \<longleftrightarrow> list_all2 (\<lambda>x y. f x = Inr y) xs ys"
  by (induction xs arbitrary: ys) (auto simp: go_run list_all2_Cons1)

lemma multisendCall_decodes:
  assumes "multisendCall c = Inr bs" "length (tc_To c) = 20" "length (tc_Data c) < 2 ^ 256"
  shows "decodeMultisend (bs @ rest) = map_option (Cons (tc_To c, nat (the (tc_Value c)), tc_Data c)) (decodeMultisend rest)"
proof -
  obtain v where v: "tc_Value c = Some v" "0 \<le> v" "v < 2 ^ 256"
    "bs = [0] @ tc_To c @ big_endian 32 (nat v) @ big_endian 32 (length (tc_Data c)) @ tc_Data c"
    using assms(1) by (auto simp: multisendCall_def pad32_def go_run split: option.splits if_splits)
  have "nat v < 256 ^ 32" "length (tc_Data c) < 256 ^ 32" using v(2,3) assms(3) by (simp_all add: nat_less_iff)
  then have r: "read_big_endian (big_endian 32 (nat v)) = nat v" "read_big_endian (big_endian 32 (length (tc_Data c))) = length (tc_Data c)"
    by (simp_all add: read_big_endian_big_endian)
  show ?thesis
    unfolding v(4) using assms(2) v(1) r by (simp add: decodeMultisend.simps Let_def)
qed

text \<open>
  C26: a bundle of calls for a Safe is read back as those calls: after the selector and the two words of the ABI encoding of bytes, the multiSend contract reads exactly
  the targets, values and data that were given, in order.
\<close>

theorem safe_multisend_decodes:
  assumes "relay_ethereum X" "EncodeSafeMultisendCall X calls = Inr data" "list_all (\<lambda>c. length (tc_To c) = 20) calls"
    "85 * length calls + sum_list (map (\<lambda>c. length (tc_Data c)) calls) < 2 ^ 256"
  shows "decodeMultisend (take (read_big_endian (take 32 (drop 36 data))) (drop 68 data)) =
    Some (map (\<lambda>c. (tc_To c, nat (the (tc_Value c)), tc_Data c)) calls)"
proof -
  obtain inner body where i: "list_all2 (\<lambda>c bs. multisendCall c = Inr bs) calls inner" "eth_pack X [AbiBytes (concat inner)] = Inr body"
    "data = selector X ''multiSend(bytes)'' @ body"
    using assms(2) by (auto simp: EncodeSafeMultisendCall_def go_run each_Inr split: if_splits)
  have "length (concat inner) = 85 * length calls + sum_list (map (\<lambda>c. length (tc_Data c)) calls)"
    using i(1) assms(3)
    by (induction rule: list_all2_induct) (auto simp: multisendCall_def pad32_def go_run big_endian_length split: option.splits if_splits)
  then have l: "length (concat inner) < 2 ^ 256" using assms(4) by simp
  have "decodeMultisend (concat inner) = Some (map (\<lambda>c. (tc_To c, nat (the (tc_Value c)), tc_Data c)) calls)"
    using i(1) assms(3,4)
  proof (induction rule: list_all2_induct)
    case (Cons c bs calls inner)
    then show ?case using multisendCall_decodes [OF Cons(1), of "concat inner"] by simp
  qed (simp add: decodeMultisend.simps)
  moreover have "body = big_endian 32 32 @ abi_tail (concat inner)"
    using relay_ethereum.pack_bytes_only [OF assms(1) l] i(2) by simp
  moreover have "length (selector X ''multiSend(bytes)'') = 4"
    using ethereum.keccak256_length [OF relay_ethereum.axioms(1) [OF assms(1)]] by (simp add: selector_def)
  moreover have "read_big_endian (big_endian 32 (length (concat inner))) = length (concat inner)"
    using l by (simp add: read_big_endian_big_endian)
  ultimately show ?thesis by (simp add: i(3) abi_tail_def big_endian_length)
qed

section \<open>A model of the laws\<close>

definition relay_eth :: eth_ops where
  "relay_eth = demo_eth\<lparr>eth_pack := (\<lambda>vs. case vs of [AbiBytes bs] \<Rightarrow> Inr (big_endian 32 32 @ abi_tail bs) | _ \<Rightarrow> eth_pack demo_eth vs)\<rparr>"

interpretation relay_eth: relay_ethereum relay_eth
  by unfold_locales (auto simp: relay_eth_def demo_eth_def Let_def)

definition demo_crypto :: "relayTypedData crypto_ops" where
  "demo_crypto = \<lparr>cy_typedDataHash = (\<lambda>td. Inr (ascii (rt_PrimaryType td))), cy_textHash = (\<lambda>m. 25 # m), cy_validSignatureValues = (\<lambda>v r s. 0 < r),
     cy_recover = (\<lambda>d sig. Inr demo_owner)\<rparr>"

definition demo_signature :: "byte list" where
  "demo_signature = replicate 32 1 @ replicate 32 2 @ [0]"

definition demo_signer :: "relayTypedData signer_ops" where
  "demo_signer = \<lparr>sg_address = demo_owner, sg_signTypedData = (\<lambda>n td. Inr demo_signature), sg_signMessage = Some (\<lambda>n m. Inr demo_signature)\<rparr>"

definition demo_call :: TransactionCall where
  "demo_call = \<lparr>tc_To = demo_owner, tc_Data = [1, 2, 3], tc_Value = Some 5\<rparr>"

definition demo_request :: RelayRequest where
  "demo_request = noRequest\<lparr>ry_Wallet := demo_owner, ry_ChainID := Some 137, ry_Nonce := Some 4, ry_Value := Some 0, ry_To := demo_owner,
     ry_Calls := [demo_call], ry_Deadline := Some 99\<rparr>"

theorem relay_signatures_recover_witness:
  "\<exists>sig s'. Sign relay_eth demo_crypto (\<lambda>_. None) TransactionTypeSafe (Some demo_signer) demo_request \<lparr>rl_ticks = 0, rl_log = []\<rparr> = (Inr sig, s') \<and>
     (sig ! 64 = 31 \<or> sig ! 64 = 32)"
proof -
  have "map_sum id (\<lambda>_. ()) (fst (Sign relay_eth demo_crypto (\<lambda>_. None) TransactionTypeSafe (Some demo_signer) demo_request \<lparr>rl_ticks = 0, rl_log = []\<rparr>)) =
    Inr ()" by code_simp
  then obtain sig s' where s: "Sign relay_eth demo_crypto (\<lambda>_. None) TransactionTypeSafe (Some demo_signer) demo_request \<lparr>rl_ticks = 0, rl_log = []\<rparr> = (Inr sig, s')"
    by (metis isl_def old.sum.exhaust prod.collapse map_sum.simps(1) sum.distinct(1))
  from relay_signatures_recover [OF this] s show ?thesis by (auto simp: transaction_types)
qed

theorem safe_multisend_decodes_witness:
  "\<exists>data. EncodeSafeMultisendCall relay_eth [demo_call, demo_call] = Inr data \<and>
     decodeMultisend (take (read_big_endian (take 32 (drop 36 data))) (drop 68 data)) = Some [(demo_owner, 5, [1, 2, 3]), (demo_owner, 5, [1, 2, 3])]"
proof -
  obtain data where d: "EncodeSafeMultisendCall relay_eth [demo_call, demo_call] = Inr data"
    by (simp add: EncodeSafeMultisendCall_def multisendCall_def pad32_def demo_call_def relay_eth_def)
  have "list_all (\<lambda>c. length (tc_To c) = 20) [demo_call, demo_call]" "85 * length [demo_call, demo_call] + sum_list (map (\<lambda>c. length (tc_Data c)) [demo_call, demo_call]) < 2 ^ 256"
    by (simp_all add: demo_call_def demo_owner_def)
  from safe_multisend_decodes [OF relay_eth.relay_ethereum_axioms d this] d show ?thesis by (simp add: demo_call_def)
qed

end
