(* ===== verification/Relay.thy ===== *)
theory Relay
  imports RelaySign
begin

text \<open>
  \<open>internal/polyrelay\<close> (\<open>submit.go\<close>, \<open>deposit_retry.go\<close>, \<open>poll.go\<close>, \<open>transport.go\<close>, \<open>responses.go\<close>) and \<open>clob/gasless.go\<close>: a batch of calls is signed and posted to the relayer,
  posted again after refusals that are known to be transient, and polled until it is confirmed or has failed.  The relayer, the clock, contexts and the random part of
  the delays are the parameter \<open>relayEnv\<close>.
\<close>

section \<open>The outside\<close>

record GaslessTransaction =
  gt_State :: string
  gt_TransactionHash :: string
  gt_TransactionID :: string
  gt_ErrorMsg :: string

record TransactionOutcome =
  to_TransactionHash :: string
  to_TransactionID :: string

record executeParamsWire =
  ew_Address :: string
  ew_Nonce :: string

record ExecuteParams =
  ep_Address :: address
  ep_Nonce :: int

record relayEnv =
  re_eth :: eth_ops
  re_crypto :: "relayTypedData crypto_ops"
  re_packTuples :: "(nat \<times> address \<times> int \<times> byte list) list \<Rightarrow> byte list result"
  re_ctx :: "nat \<Rightarrow> go_error option"
  re_timer :: "nat \<Rightarrow> int \<Rightarrow> go_error option"
  re_now :: "nat \<Rightarrow> int"
  re_random :: "nat \<Rightarrow> int \<Rightarrow> int"
  re_params :: "nat \<Rightarrow> string \<Rightarrow> string \<Rightarrow> executeParamsWire result"
  re_submit :: "nat \<Rightarrow> SubmitRequest \<Rightarrow> ExecuteResponse result"
  re_transaction :: "nat \<Rightarrow> string \<Rightarrow> GaslessTransaction result"
  re_isNetError :: "nat \<Rightarrow> bool"

record GaslessConfig =
  gc_SessionSigner :: bool
  gc_WalletType :: string
  gc_Signer :: address
  gc_Wallet :: address
  gc_ChainID :: "int option"
  gc_ProxyFactory :: address
  gc_DepositWalletFactory :: address
  gc_RelayHub :: address
  gc_SafeMultisend :: address
  gc_GasEstimator :: "(nat \<Rightarrow> address \<Rightarrow> address \<Rightarrow> byte list \<Rightarrow> 64 word result) option"
  gc_PollMaxAttempts :: int
  gc_PollInterval :: int

definition SubmitRetryAttempts :: nat where "SubmitRetryAttempts = 10"
definition DepositWalletDeadlineS :: int where "DepositWalletDeadlineS = 600"
definition ProxyDefaultGasLimit :: int where "ProxyDefaultGasLimit = 200000"
definition MetadataMaxLength :: nat where "MetadataMaxLength = 500"
definition DefaultPollMaxAttempts :: int where "DefaultPollMaxAttempts = 100"
definition DefaultPollInterval :: int where "DefaultPollInterval = 2000000000"

definition ErrEmptyCalls :: go_error where "ErrEmptyCalls = Sentinel ''polyrelay: gasless submission requires at least one call''"
definition ErrMetadataTooLong :: go_error where "ErrMetadataTooLong = Sentinel ''polyrelay: metadata exceeds maximum length''"
definition ErrTransactionFailed :: go_error where
  "ErrTransactionFailed = Sentinel ''polyrelay: transaction reached a terminal failure state''"
definition ErrTransactionTimeout :: go_error where
  "ErrTransactionTimeout = Sentinel ''polyrelay: timed out waiting for transaction confirmation''"
definition errInvalidNonce :: go_error where
  "errInvalidNonce = Sentinel ''polyrelay: relayer returned a missing or non-numeric nonce''"

text \<open>\<open>sleepCtx\<close>: the timer fires, or the context ends first.\<close>

definition sleepCtx :: "relayEnv \<Rightarrow> int \<Rightarrow> (relayState, unit) act" where
  "sleepCtx E d = ask (\<lambda>n. case re_timer E n d of Some e \<Rightarrow> Inl e | None \<Rightarrow> Inr ())"

text \<open>\<open>backoffWithJitter\<close>: half of the delay, and a random part of the other half, which is the parameter \<open>re_random\<close>.\<close>

definition backoffWithJitter :: "relayEnv \<Rightarrow> int \<Rightarrow> (relayState, int) act" where
  "backoffWithJitter E d = (if d \<le> 0 then ret d else ask (\<lambda>n. Inr (d div 2 + re_random E n (d div 2))))"

definition parseExecuteParams :: "eth_ops \<Rightarrow> executeParamsWire \<Rightarrow> ExecuteParams result" where
  "parseExecuteParams X w =
     (if ew_Nonce w = [] then Inl errInvalidNonce
      else case big_int_set_string (ew_Nonce w) 10 of
        None \<Rightarrow> Inl errInvalidNonce
      | Some n \<Rightarrow> Inr \<lparr>ep_Address = eth_hexToAddress X (ew_Address w), ep_Nonce = n\<rparr>)"

definition FetchExecuteParams :: "relayEnv \<Rightarrow> string \<Rightarrow> string \<Rightarrow> (relayState, ExecuteParams) act" where
  "FetchExecuteParams E addr txType =
     bindE (ask (\<lambda>n. re_params E n addr txType)) (\<lambda>w. lift (parseExecuteParams (re_eth E) w))"

definition Submit :: "relayEnv \<Rightarrow> SubmitRequest \<Rightarrow> (relayState, ExecuteResponse) act" where
  "Submit E req = (\<lambda>s. let r = re_submit E (rl_ticks s) req in (r, s\<lparr>rl_ticks := Suc (rl_ticks s), rl_log := rl_log s @ [(req, r)]\<rparr>))"

section \<open>Building a submission\<close>

definition metadataOk :: "string \<Rightarrow> unit result" where
  "metadataOk metadata = guardE (length metadata \<le> MetadataMaxLength) (Wrap [] ErrMetadataTooLong)"

definition estimateProxyGasLimit :: "GaslessConfig \<Rightarrow> address \<Rightarrow> address \<Rightarrow> byte list \<Rightarrow> (relayState, int) act" where
  "estimateProxyGasLimit cfg from to data = (case gc_GasEstimator cfg of
       None \<Rightarrow> ret ProxyDefaultGasLimit
     | Some estimate \<Rightarrow> ask (\<lambda>n. Inr (case estimate n from to data of
           Inl _ \<Rightarrow> ProxyDefaultGasLimit
         | Inr est \<Rightarrow> if est = 0 then ProxyDefaultGasLimit else uint est)))"

definition sessionWrap :: "eth_ops \<Rightarrow> GaslessConfig \<Rightarrow> byte list \<Rightarrow> byte list result" where
  "sessionWrap X cfg sig = (if gc_SessionSigner cfg then WrapSessionSignature X (gc_Signer cfg) sig else Inr sig)"

definition depositRequest :: "GaslessConfig \<Rightarrow> TransactionCall list \<Rightarrow> int \<Rightarrow> int \<Rightarrow> RelayRequest" where
  "depositRequest cfg calls nonce deadline =
     noRequest\<lparr>ry_Wallet := gc_Wallet cfg, ry_Calls := calls, ry_Nonce := Some nonce, ry_Deadline := Some deadline, ry_ChainID := gc_ChainID cfg\<rparr>"

definition buildDepositSubmit ::
  "relayEnv \<Rightarrow> GaslessConfig \<Rightarrow> relayTypedData signer_ops option \<Rightarrow> TransactionCall list \<Rightarrow> string \<Rightarrow> (relayState, SubmitRequest) act" where
  "buildDepositSubmit E cfg key calls metadata =
     (let X = re_eth E in
      bindE (FetchExecuteParams E (eth_addressHex X (gc_Signer cfg)) TransactionTypeWallet) (\<lambda>params.
      bindE (ask (\<lambda>n. Inr (re_now E n + DepositWalletDeadlineS))) (\<lambda>deadline.
      bindE (Sign X (re_crypto E) (re_ctx E) TransactionTypeWallet key (depositRequest cfg calls (ep_Nonce params) deadline)) (\<lambda>sig.
      bindE (lift (sessionWrap X cfg sig)) (\<lambda>sig.
        lift (BuildDepositSubmit X \<lparr>di_Signer = gc_Signer cfg, di_Factory = gc_DepositWalletFactory cfg, di_Wallet = gc_Wallet cfg,
                di_Calls = calls, di_Nonce = Some (ep_Nonce params), di_Deadline = Some deadline, di_Signature = sig, di_Metadata = metadata\<rparr>))))))"

definition buildProxySubmit ::
  "relayEnv \<Rightarrow> GaslessConfig \<Rightarrow> relayTypedData signer_ops option \<Rightarrow> TransactionCall list \<Rightarrow> string \<Rightarrow> (relayState, SubmitRequest) act" where
  "buildProxySubmit E cfg key calls metadata =
     (let X = re_eth E; to = gc_ProxyFactory cfg in
      bindE (FetchExecuteParams E (eth_addressHex X (gc_Signer cfg)) TransactionTypeProxy) (\<lambda>params.
      bindE (lift (EncodeProxyCall X (re_packTuples E) calls)) (\<lambda>data.
      bindE (estimateProxyGasLimit cfg (gc_Signer cfg) to data) (\<lambda>gasLimit.
      bindE (Sign X (re_crypto E) (re_ctx E) TransactionTypeProxy key
               (noRequest\<lparr>ry_Signer := gc_Signer cfg, ry_To := to, ry_Data := data, ry_GasFee := Some 0, ry_GasPrice := Some 0,
                  ry_GasLimit := Some gasLimit, ry_Nonce := Some (ep_Nonce params), ry_RelayHub := gc_RelayHub cfg, ry_Relay := ep_Address params\<rparr>)) (\<lambda>sig.
        lift (BuildProxySubmit X \<lparr>pi_Signer = gc_Signer cfg, pi_ProxyFactory = to, pi_Wallet = gc_Wallet cfg, pi_Data = data,
                pi_Nonce = Some (ep_Nonce params), pi_GasLimit = Some gasLimit, pi_Signature = sig, pi_Relay = ep_Address params,
                pi_RelayHub = gc_RelayHub cfg, pi_Metadata = metadata\<rparr>))))))"

text \<open>A single call goes to its target, several are bundled and delegated to the multiSend contract.\<close>

definition resolveSafeCall :: "eth_ops \<Rightarrow> address \<Rightarrow> TransactionCall list \<Rightarrow> (address \<times> byte list \<times> int \<times> 8 word) result" where
  "resolveSafeCall X safeMultisend calls = (case calls of
       [c] \<Rightarrow> (case tc_Value c of
           None \<Rightarrow> Inl (Wrap ''safe call value'' ErrNilValue)
         | Some v \<Rightarrow> Inr (tc_To c, tc_Data c, v, 0))
     | _ \<Rightarrow> rbind (EncodeSafeMultisendCall X calls) (\<lambda>encoded. Inr (safeMultisend, encoded, 0, 1)))"

definition buildSafeSubmit ::
  "relayEnv \<Rightarrow> GaslessConfig \<Rightarrow> relayTypedData signer_ops option \<Rightarrow> TransactionCall list \<Rightarrow> string \<Rightarrow> (relayState, SubmitRequest) act" where
  "buildSafeSubmit E cfg key calls metadata =
     (let X = re_eth E in
      bindE (FetchExecuteParams E (eth_addressHex X (gc_Signer cfg)) TransactionTypeSafe) (\<lambda>params.
      bindE (lift (resolveSafeCall X (gc_SafeMultisend cfg) calls)) (\<lambda>(target, data, amount, operation).
      bindE (Sign X (re_crypto E) (re_ctx E) TransactionTypeSafe key
               (noRequest\<lparr>ry_Wallet := gc_Wallet cfg, ry_To := target, ry_Data := data, ry_Value := Some amount, ry_Operation := operation,
                  ry_Nonce := Some (ep_Nonce params), ry_ChainID := gc_ChainID cfg\<rparr>)) (\<lambda>sig.
        lift (BuildSafeSubmit X \<lparr>si_Signer = gc_Signer cfg, si_Wallet = gc_Wallet cfg, si_Target = target, si_Data = data, si_Value = Some amount,
                si_Operation = operation, si_Nonce = Some (ep_Nonce params), si_Signature = sig, si_Metadata = metadata\<rparr>)))))"

definition submitGuards :: "GaslessConfig \<Rightarrow> relayTypedData signer_ops option \<Rightarrow> TransactionCall list \<Rightarrow> string \<Rightarrow> unit result" where
  "submitGuards cfg key calls metadata = (case key of
       None \<Rightarrow> Inl ErrNilSigner
     | Some W \<Rightarrow> if gc_Signer cfg \<noteq> sg_address W then Inl (Msg ''polyrelay: signer address mismatch'')
                 else if calls = [] then Inl ErrEmptyCalls else metadataOk metadata)"

definition BuildGaslessSubmit ::
  "relayEnv \<Rightarrow> GaslessConfig \<Rightarrow> relayTypedData signer_ops option \<Rightarrow> TransactionCall list \<Rightarrow> string \<Rightarrow> (relayState, SubmitRequest) act" where
  "BuildGaslessSubmit E cfg key calls metadata =
     bindE (lift (submitGuards cfg key calls metadata)) (\<lambda>_.
       if gc_WalletType cfg = TransactionTypeWallet then buildDepositSubmit E cfg key calls metadata
       else if gc_WalletType cfg = TransactionTypeProxy then buildProxySubmit E cfg key calls metadata
       else if gc_WalletType cfg = TransactionTypeSafe then buildSafeSubmit E cfg key calls metadata
       else fail (Wrap [] ErrUnknownType))"

section \<open>Refusals\<close>

text \<open>
  The regular expressions over a refusal's text.  \<open>(?i)\<close> folds the ASCII letters, and \<open>s\<close> also matches U+017F; \<open>.\<close> is any byte but a
  newline, \<open>\s\<close> one of tab, newline, form feed, carriage return and space.  A search finds the leftmost match.
\<close>

fun apiErrorOf :: "go_error \<Rightarrow> (int \<times> string) option" where
  "apiErrorOf (ApiError status _ message) = Some (status, message)"
| "apiErrorOf (Wrap _ e) = apiErrorOf e"
| "apiErrorOf _ = None"

fun matchFold :: "string \<Rightarrow> string \<Rightarrow> string option" where
  "matchFold [] s = Some s"
| "matchFold (p # ps) s =
     (if s \<noteq> [] \<and> lower_char (hd s) = p then matchFold ps (tl s)
      else if p = CHR ''s'' \<and> has_prefix s (map char_of [197, 191 :: nat]) then matchFold ps (drop 2 s) else None)"

definition some1 :: "(char \<Rightarrow> bool) \<Rightarrow> string \<Rightarrow> (string \<times> string) option" where
  "some1 p s = (if takeWhile p s = [] then None else Some (takeWhile p s, dropWhile p s))"

definition isSpaceRE :: "char \<Rightarrow> bool" where
  "isSpaceRE c \<longleftrightarrow> (of_char c :: nat) \<in> {9, 10, 12, 13, 32}"

fun searchRE :: "(string \<Rightarrow> 'a option) \<Rightarrow> string \<Rightarrow> 'a option" where
  "searchRE m s = (case m s of Some r \<Rightarrow> Some r | None \<Rightarrow> (case s of [] \<Rightarrow> None | _ # t \<Rightarrow> searchRE m t))"

declare searchRE.simps [simp del]

definition walletBusyAt :: "string \<Rightarrow> unit option" where
  "walletBusyAt s = Option.bind (matchFold ''wallet busy'' s) (\<lambda>t.
     map_option (\<lambda>_. ()) (searchRE (matchFold ''active action'') (takeWhile (\<lambda>c. (of_char c :: nat) \<noteq> 10) t)))"

definition nonceMismatchAt :: "string \<Rightarrow> (string \<times> string) option" where
  "nonceMismatchAt s =
     Option.bind (matchFold ''batch nonce'' s) (\<lambda>s.
     Option.bind (some1 isSpaceRE s) (\<lambda>(_, s).
     Option.bind (some1 is_digit s) (\<lambda>(submitted, s).
     Option.bind (some1 isSpaceRE s) (\<lambda>(_, s).
     Option.bind (matchFold ''does not match on-chain nonce'' s) (\<lambda>s.
     Option.bind (some1 isSpaceRE s) (\<lambda>(_, s).
     Option.bind (some1 is_digit s) (\<lambda>(onChain, _). Some (submitted, onChain))))))))"

definition isRetryableSubmitError :: "go_error \<Rightarrow> bool" where
  "isRetryableSubmitError err = (case apiErrorOf err of
       None \<Rightarrow> False
     | Some (status, msg) \<Rightarrow>
         if status = 429 then True
         else if status \<noteq> 400 then False
         else if searchRE walletBusyAt msg \<noteq> None \<or> searchRE (matchFold ''wallet has in-flight action'') msg \<noteq> None then True
         else (case searchRE nonceMismatchAt msg of
             None \<Rightarrow> False
           | Some (submitted, onChain) \<Rightarrow>
               (case (big_int_set_string submitted 10, big_int_set_string onChain 10) of
                  (Some a, Some b) \<Rightarrow> a < b
                | _ \<Rightarrow> False)))"

text \<open>A deposit batch that was refused for a stale nonce is signed again for the nonce on the chain; calls, deadline and metadata stay.\<close>

definition decodeDepositCall :: "eth_ops \<Rightarrow> DepositCall \<Rightarrow> TransactionCall result" where
  "decodeDepositCall X c = (case big_int_set_string (dc_Value c) 10 of
       None \<Rightarrow> Inl (Msg ''polyrelay: invalid call value'')
     | Some v \<Rightarrow> rbind (eth_decode X (dc_Data c)) (\<lambda>data. Inr \<lparr>tc_To = eth_hexToAddress X (dc_Target c), tc_Data = data, tc_Value = Some v\<rparr>))"

definition staleNonce :: "SubmitRequest \<Rightarrow> go_error \<Rightarrow> (int option) result" where
  "staleNonce payload submitErr = (case apiErrorOf submitErr of
       None \<Rightarrow> Inr None
     | Some (status, msg) \<Rightarrow>
         if sb_Type payload \<noteq> TransactionTypeWallet \<or> status \<noteq> 400 then Inr None
         else (case searchRE nonceMismatchAt msg of
             None \<Rightarrow> Inr None
           | Some (a, b) \<Rightarrow>
               (case big_int_set_string a 10 of
                  None \<Rightarrow> Inl (Msg ''polyrelay: invalid submitted nonce'')
                | Some submitted \<Rightarrow>
                    (case big_int_set_string b 10 of
                       None \<Rightarrow> Inl (Msg ''polyrelay: invalid corrected nonce'')
                     | Some nonce \<Rightarrow>
                         if show_int submitted \<noteq> sb_Nonce payload \<or> nonce \<le> submitted then Inr None
                         else rbind (pad32 (Some nonce)) (\<lambda>_. Inr (Some nonce))))))"

definition CorrectDepositNonce ::
  "relayEnv \<Rightarrow> GaslessConfig \<Rightarrow> relayTypedData signer_ops option \<Rightarrow> SubmitRequest \<Rightarrow> go_error \<Rightarrow> (relayState, SubmitRequest option) act" where
  "CorrectDepositNonce E cfg key payload submitErr =
     (let X = re_eth E in
      bindE (lift (staleNonce payload submitErr)) (\<lambda>stale. case stale of
          None \<Rightarrow> ret None
        | Some nonce \<Rightarrow>
            (case sb_DepositWallet payload of
               None \<Rightarrow> fail (Msg ''polyrelay: deposit request missing batch'')
             | Some batch \<Rightarrow>
                 (case big_int_set_string (dw_Deadline batch) 10 of
                    None \<Rightarrow> fail (Msg ''polyrelay: invalid deposit deadline'')
                  | Some deadline \<Rightarrow>
                      bindE (lift (each (decodeDepositCall X) (dw_Calls batch))) (\<lambda>calls.
                      bindE (lift (case key of
                          None \<Rightarrow> Inl ErrNilSigner
                        | Some W \<Rightarrow> guardE (sg_address W = gc_Signer cfg) (Msg ''polyrelay: signer address mismatch''))) (\<lambda>_.
                      bindE (Sign X (re_crypto E) (re_ctx E) TransactionTypeWallet key (depositRequest cfg calls nonce deadline)) (\<lambda>sig.
                      bindE (lift (sessionWrap X cfg sig)) (\<lambda>sig.
                        ret (Some (payload\<lparr>sb_Nonce := show_int nonce, sb_Signature := hexData sig\<rparr>))))))))))"

section \<open>Submitting\<close>

definition submitForWalletType ::
  "relayEnv \<Rightarrow> GaslessConfig \<Rightarrow> relayTypedData signer_ops option \<Rightarrow> TransactionCall list \<Rightarrow> string \<Rightarrow> (relayState, ExecuteResponse) act" where
  "submitForWalletType E cfg key calls metadata =
     bindE (BuildGaslessSubmit E cfg key calls metadata) (\<lambda>payload s. case Submit E payload s of
         (Inr response, s') \<Rightarrow> (Inr response, s')
       | (Inl submitErr, s') \<Rightarrow>
           bindE (CorrectDepositNonce E cfg key payload submitErr) (\<lambda>corrected. case corrected of
               None \<Rightarrow> fail submitErr
             | Some req \<Rightarrow> Submit E req) s')"

record Handle =
  hd_TransactionID :: string
  hd_TransactionHash :: string
  hd_maxPolls :: int
  hd_pollDelay :: int

definition NewHandle :: "ExecuteResponse \<Rightarrow> Handle" where
  "NewHandle resp = \<lparr>hd_TransactionID = er_TransactionID resp, hd_TransactionHash = er_TransactionHash resp,
     hd_maxPolls = DefaultPollMaxAttempts, hd_pollDelay = DefaultPollInterval\<rparr>"

definition pollDefaults :: "GaslessConfig \<Rightarrow> int \<times> int" where
  "pollDefaults c = (if gc_PollMaxAttempts c \<le> 0 then DefaultPollMaxAttempts else gc_PollMaxAttempts c,
     if gc_PollInterval c \<le> 0 then DefaultPollInterval else gc_PollInterval c)"

text \<open>The retry loop of \<open>PrepareGasless\<close> and \<open>DeployDepositWallet\<close>: \<open>k\<close> attempts are left after this one.\<close>

fun submitLoop :: "relayEnv \<Rightarrow> (relayState, ExecuteResponse) act \<Rightarrow> int \<Rightarrow> nat \<Rightarrow> (relayState, ExecuteResponse) act" where
  "submitLoop E attempt delay k s = (case attempt s of
       (Inr resp, s') \<Rightarrow> (Inr resp, s')
     | (Inl err, s') \<Rightarrow>
         if k = 0 \<or> \<not> isRetryableSubmitError err then (Inl err, s')
         else bindE (backoffWithJitter E delay) (\<lambda>d. bindE (sleepCtx E d) (\<lambda>_. submitLoop E attempt delay (k - 1))) s')"

declare submitLoop.simps [simp del]

definition PrepareGasless ::
  "relayEnv \<Rightarrow> GaslessConfig \<Rightarrow> relayTypedData signer_ops option \<Rightarrow> TransactionCall list \<Rightarrow> string \<Rightarrow> (relayState, Handle) act" where
  "PrepareGasless E cfg key calls metadata =
     bindE (lift (submitGuards cfg key calls metadata)) (\<lambda>_.
       let (maxPolls, pollDelay) = pollDefaults cfg in
       bindE (submitLoop E (submitForWalletType E cfg key calls metadata) pollDelay SubmitRetryAttempts) (\<lambda>resp.
         ret ((NewHandle resp)\<lparr>hd_maxPolls := maxPolls, hd_pollDelay := pollDelay\<rparr>)))"

definition DeployDepositWallet :: "relayEnv \<Rightarrow> address \<Rightarrow> address \<Rightarrow> string \<Rightarrow> (relayState, Handle) act" where
  "DeployDepositWallet E signer factory metadata =
     bindE (lift (metadataOk metadata)) (\<lambda>_.
     bindE (submitLoop E (Submit E (BuildWalletCreate (re_eth E) signer factory metadata)) DefaultPollInterval SubmitRetryAttempts) (\<lambda>resp.
       ret (NewHandle resp)))"

section \<open>Polling\<close>

definition StateConfirmed :: string where "StateConfirmed = ''STATE_CONFIRMED''"
definition StateInvalid :: string where "StateInvalid = ''STATE_INVALID''"
definition StateFailed :: string where "StateFailed = ''STATE_FAILED''"

definition IsTerminal :: "string \<Rightarrow> bool" where
  "IsTerminal st \<longleftrightarrow> st = StateConfirmed \<or> st = StateFailed \<or> st = StateInvalid"

definition failureMessage :: "string \<Rightarrow> GaslessTransaction \<Rightarrow> string" where
  "failureMessage transactionID tx =
     (if gt_ErrorMsg tx = [] then ''transaction '' @ transactionID @ '' reached terminal state '' @ gt_State tx else gt_ErrorMsg tx)"

definition terminalOutcome :: "GaslessTransaction \<Rightarrow> string \<Rightarrow> string \<Rightarrow> TransactionOutcome result option" where
  "terminalOutcome tx transactionID fallbackHash =
     (if \<not> IsTerminal (gt_State tx) then None
      else if gt_State tx = StateConfirmed
      then Some (Inr \<lparr>to_TransactionHash = (if gt_TransactionHash tx = [] then fallbackHash else gt_TransactionHash tx),
                      to_TransactionID = gt_TransactionID tx\<rparr>)
      else Some (Inl (Wrap (failureMessage transactionID tx) ErrTransactionFailed)))"

fun isNetError :: "relayEnv \<Rightarrow> go_error \<Rightarrow> bool" where
  "isNetError E (Remote k) \<longleftrightarrow> re_isNetError E k"
| "isNetError E CtxDeadlineExceeded \<longleftrightarrow> True"
| "isNetError E (Wrap _ e) \<longleftrightarrow> isNetError E e"
| "isNetError E _ \<longleftrightarrow> False"

definition isRetryablePollError :: "relayEnv \<Rightarrow> go_error \<Rightarrow> bool" where
  "isRetryablePollError E err = (case apiErrorOf err of Some (status, _) \<Rightarrow> status = 429 \<or> 500 \<le> status | None \<Rightarrow> isNetError E err)"

text \<open>One unit of the counter is one attempt; the error of the last transient failure only appears in the text of the timeout.\<close>

fun pollLoop :: "relayEnv \<Rightarrow> string \<Rightarrow> string \<Rightarrow> int \<Rightarrow> nat \<Rightarrow> (relayState, TransactionOutcome) act" where
  "pollLoop E tid fallback delay 0 = fail (Wrap tid ErrTransactionTimeout)"
| "pollLoop E tid fallback delay (Suc k) =
     bindE (checkCtx (re_ctx E)) (\<lambda>_ s.
       let next = bindE (if k = 0 then ret () else sleepCtx E delay) (\<lambda>_. pollLoop E tid fallback delay k) in
       case ask (\<lambda>n. re_transaction E n tid) s of
         (Inr tx, s') \<Rightarrow> (case terminalOutcome tx tid fallback of Some outcome \<Rightarrow> (outcome, s') | None \<Rightarrow> next s')
       | (Inl err, s') \<Rightarrow> if isRetryablePollError E err then next s' else (Inl err, s'))"

definition PollUntilTerminal :: "relayEnv \<Rightarrow> string \<Rightarrow> string \<Rightarrow> int \<Rightarrow> int \<Rightarrow> (relayState, TransactionOutcome) act" where
  "PollUntilTerminal E tid fallback maxPolls pollDelay = pollLoop E tid fallback pollDelay (nat (max 1 maxPolls))"

definition Wait :: "relayEnv \<Rightarrow> Handle \<Rightarrow> (relayState, TransactionOutcome) act" where
  "Wait E h = PollUntilTerminal E (hd_TransactionID h) (hd_TransactionHash h) (hd_maxPolls h) (hd_pollDelay h)"

section \<open>The client's configuration\<close>

definition relayerWalletType :: "SignatureType \<Rightarrow> string result" where
  "relayerWalletType st =
     (if st = SignatureTypePolyProxy then Inr TransactionTypeProxy
      else if st = SignatureTypePolyGnosisSafe then Inr TransactionTypeSafe
      else if st = SignatureTypePoly1271 then Inr TransactionTypeWallet
      else Inl (Msg ''gasless: signature type does not use the relayer (EOAs broadcast directly)''))"

definition gaslessConfig ::
  "eth_ops \<Rightarrow> (nat \<Rightarrow> address \<Rightarrow> address \<Rightarrow> byte list \<Rightarrow> 64 word result) \<Rightarrow> 'd client \<Rightarrow> GaslessConfig result" where
  "gaslessConfig X estimateProxyGas c =
     rbind (relayerWalletType (signatureType c)) (\<lambda>walletType.
     rbind (getWalletConfig (chainID c)) (\<lambda>wc.
       if walletType = TransactionTypeProxy \<and> (wc_ProxyFactory wc = [] \<or> wc_RelayHub wc = [])
       then Inl (Msg ''gasless: proxy wallets unsupported on chain'')
       else if walletType = TransactionTypeSafe \<and> wc_SafeMultisend wc = [] then Inl (Msg ''gasless: safe wallets unsupported on chain'')
       else if walletType = TransactionTypeWallet \<and> wc_DepositWalletFactory wc = []
       then Inl (Msg ''gasless: deposit wallets unsupported on chain'')
       else rbind (if walletType = TransactionTypeWallet then rbind (isDepositWalletOwner X c) (\<lambda>owner. Inr (\<not> owner)) else Inr False) (\<lambda>sessionSigner.
              Inr \<lparr>gc_SessionSigner = sessionSigner, gc_WalletType = walletType, gc_Signer = eth_hexToAddress X (signerAddress c),
                   gc_Wallet = eth_hexToAddress X (funderAddress c), gc_ChainID = Some (chainID c),
                   gc_ProxyFactory = eth_hexToAddress X (wc_ProxyFactory wc), gc_DepositWalletFactory = eth_hexToAddress X (wc_DepositWalletFactory wc),
                   gc_RelayHub = eth_hexToAddress X (wc_RelayHub wc), gc_SafeMultisend = eth_hexToAddress X (wc_SafeMultisend wc),
                   gc_GasEstimator = Some estimateProxyGas, gc_PollMaxAttempts = 0, gc_PollInterval = 0\<rparr>)))"

definition PrepareGaslessTransaction ::
  "relayEnv \<Rightarrow> (nat \<Rightarrow> address \<Rightarrow> address \<Rightarrow> byte list \<Rightarrow> 64 word result) \<Rightarrow> 'd client \<Rightarrow> relayTypedData signer_ops option \<Rightarrow>
     TransactionCall list \<Rightarrow> string \<Rightarrow> (relayState, Handle) act" where
  "PrepareGaslessTransaction E estimateProxyGas c key calls metadata =
     bindE (lift (gaslessConfig (re_eth E) estimateProxyGas c)) (\<lambda>cfg. PrepareGasless E cfg key calls metadata)"

section \<open>What is posted\<close>

text \<open>Most of the computations post nothing.\<close>

definition quiet :: "(relayState, 'a) act \<Rightarrow> bool" where
  "quiet m \<longleftrightarrow> (\<forall>s r s'. m s = (r, s') \<longrightarrow> rl_log s' = rl_log s)"

named_theorems quiet_rules

lemma quietD: "quiet m \<Longrightarrow> m s = (r, s') \<Longrightarrow> rl_log s' = rl_log s"
  by (simp add: quiet_def)

lemma quiet_basic [quiet_rules]: "quiet (ret x)" "quiet (fail e)" "quiet (lift r)" "quiet (ask f)"
  by (auto simp: quiet_def)

lemma quiet_bindE [quiet_rules]: "quiet m \<Longrightarrow> (\<And>x. quiet (f x)) \<Longrightarrow> quiet (bindE m f)"
  by (auto simp: quiet_def bindE_def split: prod.splits sum.splits)

lemma quiet_if [quiet_rules]: "(b \<Longrightarrow> quiet m) \<Longrightarrow> (\<not> b \<Longrightarrow> quiet m') \<Longrightarrow> quiet (if b then m else m')"
  by simp

lemma quiet_option [quiet_rules]: "quiet m \<Longrightarrow> (\<And>x. quiet (f x)) \<Longrightarrow> quiet (case o' of None \<Rightarrow> m | Some x \<Rightarrow> f x)"
  by (cases o') simp_all

lemma quiet_prod [quiet_rules]: "(\<And>x y. quiet (f x y)) \<Longrightarrow> quiet (case p of (x, y) \<Rightarrow> f x y)"
  by (cases p) simp

lemma quiet_signing [quiet_rules]: "quiet (checkCtx ctx)" "quiet (SignTypedData C ctx W td)" "quiet (SignMessage C ctx W msg)"
  unfolding checkCtx_def SignTypedData_def SignMessage_def by (intro quiet_rules)+

lemma quiet_Sign [quiet_rules]: "quiet (Sign X C ctx txType key req)"
  unfolding Sign_def by (intro quiet_rules)

lemma quiet_relay [quiet_rules]: "quiet (FetchExecuteParams E a txType)" "quiet (sleepCtx E d)" "quiet (backoffWithJitter E d)"
  "quiet (estimateProxyGasLimit cfg from to data)"
  unfolding FetchExecuteParams_def sleepCtx_def backoffWithJitter_def estimateProxyGasLimit_def by (intro quiet_rules)+

lemma quiet_build [quiet_rules]: "quiet (BuildGaslessSubmit E cfg key calls metadata)"
  unfolding BuildGaslessSubmit_def buildDepositSubmit_def buildProxySubmit_def buildSafeSubmit_def Let_def by (intro quiet_rules)

lemma quiet_correct [quiet_rules]: "quiet (CorrectDepositNonce E cfg key payload err)"
  unfolding CorrectDepositNonce_def Let_def by (intro quiet_rules)

text \<open>An answer that says the relayer has refused a body: an API error with status 429 or 400.\<close>

definition refused :: "ExecuteResponse result \<Rightarrow> bool" where
  "refused r \<longleftrightarrow> (case r of Inr _ \<Rightarrow> False | Inl e \<Rightarrow> (case apiErrorOf e of None \<Rightarrow> False | Some (status, _) \<Rightarrow> status = 429 \<or> status = 400))"

lemma retryable_refused:
  assumes "isRetryableSubmitError e"
  shows "refused (Inl e)"
proof (cases "apiErrorOf e")
  case (Some p)
  obtain status msg where "p = (status, msg)" by (cases p)
  then show ?thesis using Some assms by (cases "status = 429"; cases "status = 400") (simp_all add: isRetryableSubmitError_def refused_def)
qed (use assms in \<open>simp add: isRetryableSubmitError_def\<close>)

lemma stale_refused: "staleNonce payload e \<noteq> Inr None \<Longrightarrow> refused (Inl e)"
  by (auto simp: staleNonce_def refused_def split: option.splits if_splits)

lemma CorrectDepositNonce_refused:
  "CorrectDepositNonce E cfg key payload e s = (r, s') \<Longrightarrow> r \<noteq> Inr None \<Longrightarrow> refused (Inl e)"
  by (rule stale_refused [of payload]) (auto simp: CorrectDepositNonce_def bindE_def Let_def)

text \<open>
  The answers to the bodies posted by an attempt: all but the last are refusals; the last one is the result, if it was accepted; nothing was accepted otherwise, and
  everything was refused if the error is one after which another attempt is made.
\<close>

definition answers_ok :: "ExecuteResponse result \<Rightarrow> ExecuteResponse result list \<Rightarrow> bool" where
  "answers_ok r as \<longleftrightarrow> list_all refused (butlast as) \<and>
     (case r of Inr resp \<Rightarrow> as \<noteq> [] \<and> last as = Inr resp
      | Inl e \<Rightarrow> list_all (\<lambda>a. \<exists>e'. a = Inl e') as \<and> (isRetryableSubmitError e \<longrightarrow> list_all refused as))"

definition attempt_ok :: "nat \<Rightarrow> (relayState, ExecuteResponse) act \<Rightarrow> bool" where
  "attempt_ok b m \<longleftrightarrow> (\<forall>s r s'. m s = (r, s') \<longrightarrow>
     (\<exists>new. rl_log s' = rl_log s @ new \<and> length new \<le> b \<and> answers_ok r (map snd new)))"

lemma attempt_okD: "attempt_ok b m \<Longrightarrow> m s = (r, s') \<Longrightarrow> \<exists>new. rl_log s' = rl_log s @ new \<and> length new \<le> b \<and> answers_ok r (map snd new)"
  by (simp add: attempt_ok_def)

lemma Submit_run: "Submit E req s = (r, s') \<longleftrightarrow> r = re_submit E (rl_ticks s) req \<and>
    s' = s\<lparr>rl_ticks := Suc (rl_ticks s), rl_log := rl_log s @ [(req, r)]\<rparr>"
  by (auto simp: Submit_def Let_def)

lemma Submit_attempt: "attempt_ok 1 (Submit E req)"
  by (auto simp: attempt_ok_def Submit_run answers_ok_def retryable_refused split: sum.splits)

text \<open>The three ways through an attempt: nothing was posted; one body was; a second body was, with a corrected nonce.\<close>

lemma submitForWalletType_run:
  assumes "submitForWalletType E cfg key calls metadata s = (r, s')"
  shows "(\<exists>e. r = Inl e \<and> rl_log s' = rl_log s) \<or>
    (\<exists>payload s1 a. BuildGaslessSubmit E cfg key calls metadata s = (Inr payload, s1) \<and> rl_log s' = rl_log s @ [(payload, a)] \<and>
       (r = a \<or> (\<exists>e e'. a = Inl e \<and> refused a \<and> r = Inl e'))) \<or>
    (\<exists>payload s1 e req s2 s3. BuildGaslessSubmit E cfg key calls metadata s = (Inr payload, s1) \<and>
       CorrectDepositNonce E cfg key payload e s2 = (Inr (Some req), s3) \<and> rl_log s' = rl_log s @ [(payload, Inl e), (req, r)])"
proof -
  obtain b s1 where b: "BuildGaslessSubmit E cfg key calls metadata s = (b, s1)" by fastforce
  have l1: "rl_log s1 = rl_log s" by (rule quietD [OF quiet_build b])
  show ?thesis
  proof (cases b)
    case (Inl e)
    then show ?thesis using assms b l1 by (auto simp: submitForWalletType_def bindE_def)
  next
    case (Inr payload)
    obtain a s2 where a: "Submit E payload s1 = (a, s2)" "rl_log s2 = rl_log s @ [(payload, a)]" using l1 by (auto simp: Submit_run)
    show ?thesis
    proof (cases a)
      case (Inr resp)
      then show ?thesis using assms b a \<open>b = Inr payload\<close> by (auto simp: submitForWalletType_def bindE_def)
    next
      case (Inl e)
      obtain c s3 where c: "CorrectDepositNonce E cfg key payload e s2 = (c, s3)" by fastforce
      have l3: "rl_log s3 = rl_log s @ [(payload, Inl e)]" using quietD [OF quiet_correct c] a(2) Inl by simp
      have run: "(r, s') = (case c of Inl e' \<Rightarrow> (Inl e', s3) | Inr None \<Rightarrow> (Inl e, s3) | Inr (Some req) \<Rightarrow> Submit E req s3)"
        using assms b a(1) c \<open>b = Inr payload\<close> Inl by (auto simp: submitForWalletType_def bindE_def split: sum.splits option.splits)
      consider e' where "c = Inl e'" | "c = Inr None" | req where "c = Inr (Some req)" by (metis not_None_eq old.sum.exhaust)
      then show ?thesis
      proof cases
        case (1 e')
        then show ?thesis using run b l3 \<open>b = Inr payload\<close> CorrectDepositNonce_refused [OF c] by auto
      next
        case 2
        then show ?thesis using run b l3 \<open>b = Inr payload\<close> by auto
      next
        case (3 req)
        then show ?thesis using run b l3 \<open>b = Inr payload\<close> c by (auto simp: Submit_def Let_def)
      qed
    qed
  qed
qed

lemma submitForWalletType_attempt: "attempt_ok 2 (submitForWalletType E cfg key calls metadata)"
  unfolding attempt_ok_def
proof (intro allI impI)
  fix s r s'
  assume "submitForWalletType E cfg key calls metadata s = (r, s')"
  from submitForWalletType_run [OF this]
  show "\<exists>new. rl_log s' = rl_log s @ new \<and> length new \<le> 2 \<and> answers_ok r (map snd new)"
  proof (elim disjE exE conjE)
    fix payload e req s2 s3
    assume "CorrectDepositNonce E cfg key payload e s2 = (Inr (Some req), s3)" "rl_log s' = rl_log s @ [(payload, Inl e), (req, r)]"
    then show ?thesis
      using CorrectDepositNonce_refused retryable_refused
      by (intro exI [of _ "[(payload, Inl e), (req, r)]"]) (fastforce simp: answers_ok_def split: sum.splits)
  qed (auto simp: answers_ok_def retryable_refused split: sum.splits)
qed

text \<open>One round of the loop: it ends with the attempt, or the attempt's error is transient, and the wait ends or the loop goes on.\<close>

lemma submitLoop_unroll:
  assumes "submitLoop E m delay k s = (r, s')"
  shows "m s = (r, s') \<or> (\<exists>e s1 s2. m s = (Inl e, s1) \<and> isRetryableSubmitError e \<and> k \<noteq> 0 \<and> rl_log s2 = rl_log s1 \<and>
    ((\<exists>e'. r = Inl e') \<and> s' = s2 \<or> submitLoop E m delay (k - 1) s2 = (r, s')))"
proof (cases "\<exists>e. fst (m s) = Inl e \<and> isRetryableSubmitError e \<and> k \<noteq> 0")
  case False
  then have "m s = (r, s')" using assms by (auto simp: submitLoop.simps [of E m delay k] split: prod.splits sum.splits)
  then show ?thesis by simp
next
  case True
  then obtain e s1 where e: "m s = (Inl e, s1)" "isRetryableSubmitError e" "k \<noteq> 0" by (cases "m s") auto
  obtain d s2 where w: "bindE (backoffWithJitter E delay) (sleepCtx E) s1 = (d, s2)" by fastforce
  have "quiet (bindE (backoffWithJitter E delay) (sleepCtx E))" by (intro quiet_rules)
  then have "rl_log s2 = rl_log s1" using w by (rule quietD)
  moreover have "(r, s') = (case d of Inl e' \<Rightarrow> (Inl e', s2) | Inr _ \<Rightarrow> submitLoop E m delay (k - 1) s2)"
    using assms e w by (auto simp: submitLoop.simps [of E m delay k] bindE_def split: prod.splits sum.splits)
  ultimately show ?thesis using e by (auto split: sum.splits)
qed

lemma submitLoop_log:
  assumes "\<And>s r s'. m s = (r, s') \<Longrightarrow> \<exists>new. rl_log s' = rl_log s @ new \<and> (\<forall>p \<in> set new. P p)" "submitLoop E m delay k s = (r, s')"
  shows "\<exists>new. rl_log s' = rl_log s @ new \<and> (\<forall>p \<in> set new. P p)"
  using assms(2)
proof (induction k arbitrary: s rule: nat_less_induct)
  case (1 k)
  from submitLoop_unroll [OF 1(2)] show ?case
  proof (elim disjE exE conjE)
    fix e s1 s2
    assume r: "m s = (Inl e, s1)" "k \<noteq> 0" "rl_log s2 = rl_log s1" "submitLoop E m delay (k - 1) s2 = (r, s')"
    obtain new where "rl_log s1 = rl_log s @ new" "\<forall>p \<in> set new. P p" using assms(1) [OF r(1)] by blast
    moreover obtain new2 where "rl_log s' = rl_log s2 @ new2" "\<forall>p \<in> set new2. P p" using 1(1) r(2,4) by (metis diff_less neq0_conv zero_less_one)
    ultimately show ?thesis using r(3) by (intro exI [of _ "new @ new2"]) auto
  qed (use assms(1) in fastforce)+
qed

lemma answers_ok_append:
  assumes "list_all refused as" "answers_ok r bs"
  shows "answers_ok r (as @ bs)"
proof -
  have e: "refused a \<Longrightarrow> \<exists>e. a = Inl e" for a by (auto simp: refused_def split: sum.splits)
  have "list_all refused (butlast (as @ bs))"
    using assms by (auto simp: answers_ok_def butlast_append list_all_iff dest: in_set_butlastD)
  moreover have "list_all (\<lambda>a. \<exists>e'. a = Inl e') as" using assms(1) e by (auto simp: list_all_iff)
  ultimately show ?thesis using assms by (auto simp: answers_ok_def split: sum.splits)
qed

lemma submitLoop_posts:
  assumes "attempt_ok b m" "submitLoop E m delay k s = (r, s')"
  shows "\<exists>new. rl_log s' = rl_log s @ new \<and> length new \<le> b * Suc k \<and> answers_ok r (map snd new)"
  using assms(2)
proof (induction k arbitrary: s rule: nat_less_induct)
  case (1 k)
  from submitLoop_unroll [OF 1(2)] show ?case
  proof (elim disjE exE conjE)
    assume "m s = (r, s')"
    then obtain new where "rl_log s' = rl_log s @ new" "length new \<le> b" "answers_ok r (map snd new)" using attempt_okD [OF assms(1)] by blast
    then show ?thesis by (intro exI [of _ new]) auto
  next
    fix e e' s1 s2
    assume r: "m s = (Inl e, s1)" "isRetryableSubmitError e" "rl_log s2 = rl_log s1" "r = Inl e'" "s' = s2"
    obtain new where n: "rl_log s1 = rl_log s @ new" "length new \<le> b" "answers_ok (Inl e) (map snd new)" using attempt_okD [OF assms(1) r(1)] by blast
    have "answers_ok r (map snd new)" using n(3) r(2,4) by (simp add: answers_ok_def)
    then show ?thesis using n r(3,5) by (intro exI [of _ new]) auto
  next
    fix e s1 s2
    assume r: "m s = (Inl e, s1)" "isRetryableSubmitError e" "k \<noteq> 0" "rl_log s2 = rl_log s1" "submitLoop E m delay (k - 1) s2 = (r, s')"
    obtain new where n: "rl_log s1 = rl_log s @ new" "length new \<le> b" "answers_ok (Inl e) (map snd new)" using attempt_okD [OF assms(1) r(1)] by blast
    have "k - 1 < k" "Suc (k - 1) = k" using r(3) by auto
    then obtain new2 where n2: "rl_log s' = rl_log s2 @ new2" "length new2 \<le> b * k" "answers_ok r (map snd new2)" using 1(1) r(5) by metis
    have "answers_ok r (map snd new @ map snd new2)" by (rule answers_ok_append [OF _ n2(3)]) (use n(3) r(2) in \<open>simp add: answers_ok_def\<close>)
    then show ?thesis using n n2 r(4) by (intro exI [of _ "new @ new2"]) auto
  qed
qed

section \<open>Deposit batches\<close>

text \<open>
  A body whose signature covers it: for some nonce and deadline, which it carries, the signature (in the session envelope for a session key) recovers the configured signer from the
  digest of the batch of exactly these calls of the configured wallet.
\<close>

definition depositSigned :: "relayEnv \<Rightarrow> GaslessConfig \<Rightarrow> int \<Rightarrow> TransactionCall list \<Rightarrow> string \<Rightarrow> SubmitRequest \<Rightarrow> bool" where
  "depositSigned E cfg chain calls metadata req \<longleftrightarrow> (\<exists>nonce deadline msgs digest sig wire dcs.
     0 \<le> nonce \<and> each (callMessage (re_eth E)) calls = Inr msgs \<and>
     cy_typedDataHash (re_crypto E) (batchTypedData (re_eth E) (gc_Wallet cfg) chain nonce deadline msgs) = Inr digest \<and>
     recovers (re_crypto E) (gc_Signer cfg) digest sig \<and> sessionWrap (re_eth E) cfg sig = Inr wire \<and> each (depositCall (re_eth E)) calls = Inr dcs \<and>
     req = (submitBody (re_eth E) TransactionTypeWallet (gc_Signer cfg) (gc_DepositWalletFactory cfg) metadata)
       \<lparr>sb_Nonce := show_int nonce, sb_Signature := hexData wire,
        sb_DepositWallet := Some \<lparr>dw_DepositWallet = eth_addressHex (re_eth E) (gc_Wallet cfg), dw_Deadline = show_int deadline, dw_Calls = dcs\<rparr>\<rparr>)"

lemma Sign_deposit_run:
  assumes "Sign X C ctx TransactionTypeWallet (Some W) (depositRequest cfg calls nonce deadline) s = (Inr sig, s')" "gc_ChainID cfg = Some chain"
  shows "\<exists>msgs digest. each (callMessage X) calls = Inr msgs \<and>
    cy_typedDataHash C (batchTypedData X (gc_Wallet cfg) chain nonce deadline msgs) = Inr digest \<and> recovers C (sg_address W) digest sig"
proof -
  obtain td s1 s2 where td: "depositTypedData X (depositRequest cfg calls nonce deadline) = Inr td" "SignTypedData C ctx W td s1 = (Inr sig, s2)"
    using assms(1) by (auto simp: Sign_def go_run)
  then show ?thesis
    using SignTypedData_run [OF td(2)] assms(2) by (auto simp: depositTypedData_def depositRequest_def noRequest_def go_run split: if_splits)
qed

lemma buildDepositSubmit_run:
  assumes "buildDepositSubmit E cfg (Some W) calls metadata s = (Inr req, s')" "gc_ChainID cfg = Some chain" "gc_Signer cfg = sg_address W"
  shows "depositSigned E cfg chain calls metadata req"
proof -
  let ?X = "re_eth E"
  obtain nonce deadline sig wire s1 s2 where r:
    "Sign ?X (re_crypto E) (re_ctx E) TransactionTypeWallet (Some W) (depositRequest cfg calls nonce deadline) s1 = (Inr sig, s2)"
    "sessionWrap ?X cfg sig = Inr wire"
    "BuildDepositSubmit ?X \<lparr>di_Signer = gc_Signer cfg, di_Factory = gc_DepositWalletFactory cfg, di_Wallet = gc_Wallet cfg, di_Calls = calls,
       di_Nonce = Some nonce, di_Deadline = Some deadline, di_Signature = wire, di_Metadata = metadata\<rparr> = Inr req"
    using assms(1) by (auto simp: buildDepositSubmit_def go_run Let_def)
  obtain msgs digest where m: "each (callMessage ?X) calls = Inr msgs"
    "cy_typedDataHash (re_crypto E) (batchTypedData ?X (gc_Wallet cfg) chain nonce deadline msgs) = Inr digest"
    "recovers (re_crypto E) (gc_Signer cfg) digest sig"
    using Sign_deposit_run [OF r(1) assms(2)] assms(3) by auto
  obtain dcs where "0 \<le> nonce" "each (depositCall ?X) calls = Inr dcs"
    "req = (submitBody ?X TransactionTypeWallet (gc_Signer cfg) (gc_DepositWalletFactory cfg) metadata)
       \<lparr>sb_Nonce := show_int nonce, sb_Signature := hexData wire,
        sb_DepositWallet := Some \<lparr>dw_DepositWallet = eth_addressHex ?X (gc_Wallet cfg), dw_Deadline = show_int deadline, dw_Calls = dcs\<rparr>\<rparr>"
    using r(3) by (auto simp: BuildDepositSubmit_def bigStr_def go_run split: if_splits)
  then show ?thesis unfolding depositSigned_def using m r(2) by blast
qed

context relay_ethereum
begin

lemma decode_deposit_calls:
  assumes "each (depositCall X) calls = Inr dcs" "list_all (\<lambda>c. length (tc_To c) = 20) calls"
  shows "each (decodeDepositCall X) dcs = Inr calls"
proof -
  have "decodeDepositCall X dc = Inr c" if "depositCall X c = Inr dc" "length (tc_To c) = 20" for c dc
    using that decode_hexData [of "tc_Data c"] addressHex [of "tc_To c"]
    by (cases c) (auto simp: depositCall_def decodeDepositCall_def bigStr_def go_run split: option.splits if_splits)
  moreover have "list_all2 (\<lambda>c dc. depositCall X c = Inr dc) calls dcs" using assms(1) by (simp add: each_Inr)
  ultimately show ?thesis
    using assms(2) unfolding each_Inr by (auto simp: list_all2_conv_all_nth list_all_length)
qed

end

lemma staleNonce_run:
  "staleNonce payload e = Inr (Some nonce) \<Longrightarrow>
    0 \<le> nonce \<and> nonce < 2 ^ 256 \<and> (\<exists>submitted. sb_Nonce payload = show_int submitted \<and> submitted < nonce)"
  by (auto simp: staleNonce_def pad32_def go_run split: option.splits if_splits) (metis not_le)

lemma CorrectDepositNonce_run:
  assumes "relay_ethereum (re_eth E)" "depositSigned E cfg chain calls metadata payload"
    "CorrectDepositNonce E cfg (Some W) payload e s = (Inr (Some req), s')" "gc_ChainID cfg = Some chain" "list_all (\<lambda>c. length (tc_To c) = 20) calls"
  shows "depositSigned E cfg chain calls metadata req"
proof -
  let ?X = "re_eth E"
  obtain nonce0 deadline wire0 dcs where p: "each (depositCall ?X) calls = Inr dcs"
    "payload = (submitBody ?X TransactionTypeWallet (gc_Signer cfg) (gc_DepositWalletFactory cfg) metadata)
       \<lparr>sb_Nonce := show_int nonce0, sb_Signature := hexData wire0,
        sb_DepositWallet := Some \<lparr>dw_DepositWallet = eth_addressHex ?X (gc_Wallet cfg), dw_Deadline = show_int deadline, dw_Calls = dcs\<rparr>\<rparr>"
    using assms(2) by (auto simp: depositSigned_def)
  have d: "each (decodeDepositCall ?X) dcs = Inr calls" by (rule relay_ethereum.decode_deposit_calls [OF assms(1) p(1) assms(5)])
  have b: "sb_DepositWallet payload = Some \<lparr>dw_DepositWallet = eth_addressHex ?X (gc_Wallet cfg), dw_Deadline = show_int deadline, dw_Calls = dcs\<rparr>"
    by (simp add: p(2))
  obtain nonce sig wire s1 s2 where r: "staleNonce payload e = Inr (Some nonce)" "sg_address W = gc_Signer cfg"
    "Sign ?X (re_crypto E) (re_ctx E) TransactionTypeWallet (Some W) (depositRequest cfg calls nonce deadline) s1 = (Inr sig, s2)"
    "sessionWrap ?X cfg sig = Inr wire" "req = payload\<lparr>sb_Nonce := show_int nonce, sb_Signature := hexData wire\<rparr>"
    using assms(3) by (auto simp: CorrectDepositNonce_def go_run Let_def b d split: option.splits)
  have "req = (submitBody ?X TransactionTypeWallet (gc_Signer cfg) (gc_DepositWalletFactory cfg) metadata)
      \<lparr>sb_Nonce := show_int nonce, sb_Signature := hexData wire,
       sb_DepositWallet := Some \<lparr>dw_DepositWallet = eth_addressHex ?X (gc_Wallet cfg), dw_Deadline = show_int deadline, dw_Calls = dcs\<rparr>\<rparr>"
    by (simp add: r(5) p(2) submitBody_def)
  moreover have "0 \<le> nonce" using staleNonce_run [OF r(1)] by simp
  ultimately show ?thesis
    unfolding depositSigned_def using Sign_deposit_run [OF r(3) assms(4)] r(2,4) p(1) by metis
qed

section \<open>Rounds of polling\<close>

definition later :: "nat \<Rightarrow> relayState \<Rightarrow> relayState" where
  "later n s = s\<lparr>rl_ticks := rl_ticks s + n\<rparr>"

lemma later_simps [simp]: "rl_ticks (later n s) = rl_ticks s + n" "rl_log (later n s) = rl_log s"
  by (simp_all add: later_def)

lemma pollLoop_unroll:
  assumes "pollLoop E tid fallback delay (Suc k) s = (r, s')"
  shows "(\<exists>e. re_ctx E (rl_ticks s) = Some e \<and> r = Inl e \<and> s' = later 1 s) \<or>
    (\<exists>tx. re_transaction E (rl_ticks s + 1) tid = Inr tx \<and> terminalOutcome tx tid fallback = Some r \<and> s' = later 2 s) \<or>
    (\<exists>e. re_transaction E (rl_ticks s + 1) tid = Inl e \<and> \<not> isRetryablePollError E e \<and> r = Inl e \<and> s' = later 2 s) \<or>
    (k = 0 \<and> r = Inl (Wrap tid ErrTransactionTimeout) \<and> s' = later 2 s) \<or>
    (k \<noteq> 0 \<and> ((\<exists>e. re_timer E (rl_ticks s + 2) delay = Some e \<and> r = Inl e \<and> s' = later 3 s) \<or>
      pollLoop E tid fallback delay k (later 3 s) = (r, s')))"
proof (cases "re_ctx E (rl_ticks s)")
  case (Some e)
  then show ?thesis using assms by (simp add: bindE_def checkCtx_def ask_def later_def)
next
  case None
  let ?rest = "bindE (if k = 0 then ret () else sleepCtx E delay) (\<lambda>_. pollLoop E tid fallback delay k) (later 2 s)"
  have c: "checkCtx (re_ctx E) s = (Inr (), later 1 s)" using None by (simp add: checkCtx_def ask_def later_def)
  have a: "ask (\<lambda>n. re_transaction E n tid) (later 1 s) = (re_transaction E (rl_ticks s + 1) tid, later 2 s)" by (simp add: later_def)
  have run: "(r, s') = (case re_transaction E (rl_ticks s + 1) tid of
      Inr tx \<Rightarrow> (case terminalOutcome tx tid fallback of Some outcome \<Rightarrow> (outcome, later 2 s) | None \<Rightarrow> ?rest)
    | Inl err \<Rightarrow> if isRetryablePollError E err then ?rest else (Inl err, later 2 s))"
    using assms unfolding pollLoop.simps bindE_step(1) [of "checkCtx (re_ctx E)", OF c] Let_def a by (auto split: sum.splits)
  have "(k = 0 \<and> r = Inl (Wrap tid ErrTransactionTimeout) \<and> s' = later 2 s) \<or>
      (k \<noteq> 0 \<and> ((\<exists>e. re_timer E (rl_ticks s + 2) delay = Some e \<and> r = Inl e \<and> s' = later 3 s) \<or>
        pollLoop E tid fallback delay k (later 3 s) = (r, s')))" if "(r, s') = ?rest"
    using that by (auto simp: bindE_def sleepCtx_def ask_def later_def eval_nat_numeral split: if_splits option.splits)
  with run show ?thesis by (auto split: sum.splits option.splits if_splits)
qed

text \<open>Why polling fails: the relayer reported a failure, answered with an error that is not transient, a context ended, or every attempt was used.\<close>

definition poll_failure :: "relayEnv \<Rightarrow> string \<Rightarrow> nat \<Rightarrow> nat \<Rightarrow> nat \<Rightarrow> go_error \<Rightarrow> bool" where
  "poll_failure E tid k a b e \<longleftrightarrow>
     (\<exists>n tx. a \<le> n \<and> n < b \<and> re_transaction E n tid = Inr tx \<and> (gt_State tx = StateFailed \<or> gt_State tx = StateInvalid) \<and>
        e = Wrap (failureMessage tid tx) ErrTransactionFailed) \<or>
     (\<exists>n. a \<le> n \<and> n < b \<and> re_transaction E n tid = Inl e \<and> \<not> isRetryablePollError E e) \<or>
     (\<exists>n. a \<le> n \<and> n < b \<and> re_ctx E n = Some e) \<or> (\<exists>n d. a \<le> n \<and> n < b \<and> re_timer E n d = Some e) \<or>
     e = Wrap tid ErrTransactionTimeout \<and> b + 1 = a + 3 * k"

definition poll_result :: "relayEnv \<Rightarrow> string \<Rightarrow> string \<Rightarrow> nat \<Rightarrow> nat \<Rightarrow> nat \<Rightarrow> TransactionOutcome result \<Rightarrow> bool" where
  "poll_result E tid fallback k a b r \<longleftrightarrow> (case r of
       Inr out \<Rightarrow> \<exists>n tx. a \<le> n \<and> n < b \<and> re_transaction E n tid = Inr tx \<and> gt_State tx = StateConfirmed \<and>
         to_TransactionID out = gt_TransactionID tx \<and> to_TransactionHash out = (if gt_TransactionHash tx = [] then fallback else gt_TransactionHash tx)
     | Inl e \<Rightarrow> poll_failure E tid k a b e)"

lemma poll_result_mono:
  assumes "poll_result E tid fallback k (a + 3) b r"
  shows "poll_result E tid fallback (Suc k) a b r"
proof (cases r)
  case (Inl e)
  have le: "a + 3 \<le> n \<Longrightarrow> a \<le> n" for n by simp
  have "poll_failure E tid k (a + 3) b e" using assms Inl by (simp add: poll_result_def)
  then have "poll_failure E tid (Suc k) a b e" unfolding poll_failure_def by (elim disjE) (use le in blast, use le in blast, use le in blast, use le in blast, simp)
  then show ?thesis using Inl by (simp add: poll_result_def)
next
  case (Inr out)
  then obtain n where "a + 3 \<le> n" "poll_result E tid fallback k n (Suc n) r" "n < b" using assms by (auto simp: poll_result_def)
  then show ?thesis using Inr by (auto simp: poll_result_def less_Suc_eq intro!: exI [of _ n])
qed

lemma terminalOutcome_result:
  assumes "terminalOutcome tx tid fallback = Some r" "re_transaction E n tid = Inr tx" "a \<le> n" "n < b"
  shows "poll_result E tid fallback k a b r"
  using assms by (fastforce simp: terminalOutcome_def poll_result_def poll_failure_def IsTerminal_def split: if_splits)

lemma pollLoop_run:
  assumes "pollLoop E tid fallback delay (Suc k) s = (r, s')"
  shows "rl_log s' = rl_log s \<and> rl_ticks s' < rl_ticks s + 3 * Suc k + 1 \<and> poll_result E tid fallback (Suc k) (rl_ticks s) (rl_ticks s') r"
  using assms
proof (induction k arbitrary: s)
  case 0
  from pollLoop_unroll [OF 0] show ?case
    by (auto simp: terminalOutcome_result) (auto simp: poll_result_def poll_failure_def)
next
  case (Suc k)
  from pollLoop_unroll [OF Suc.prems] show ?case
  proof (elim disjE exE conjE)
    assume "pollLoop E tid fallback delay (Suc k) (later 3 s) = (r, s')"
    from Suc.IH [OF this] show ?thesis using poll_result_mono by auto
  qed (auto simp: terminalOutcome_result, auto simp: poll_result_def poll_failure_def)
qed

section \<open>Properties\<close>

text \<open>
  C27: every body that \<open>PrepareGasless\<close> posts for a deposit wallet is covered by its signature, the ones that are signed again for a corrected nonce included: from the digest of the
  caller's calls with the nonce and the deadline in the body, the signature recovers the configured signer.  The calls that are signed again are those decoded from
  the first body, and they are the caller's.
\<close>

theorem deposit_batches_covered:
  assumes "relay_ethereum (re_eth E)" "gc_WalletType cfg = TransactionTypeWallet" "gc_ChainID cfg = Some chain"
    "list_all (\<lambda>c. length (tc_To c) = 20) calls" "PrepareGasless E cfg key calls metadata s = (r, s')"
  shows "\<exists>new. rl_log s' = rl_log s @ new \<and> (\<forall>(req, answer) \<in> set new. depositSigned E cfg chain calls metadata req)"
proof -
  have one: "\<exists>new. rl_log s' = rl_log s @ new \<and> (\<forall>p \<in> set new. depositSigned E cfg chain calls metadata (fst p))"
    if "submitForWalletType E cfg key calls metadata s = (r, s')" for s r s'
  proof -
    have "depositSigned E cfg chain calls metadata payload \<and>
        (\<forall>e s2 req s3. CorrectDepositNonce E cfg key payload e s2 = (Inr (Some req), s3) \<longrightarrow> depositSigned E cfg chain calls metadata req)"
      if b: "BuildGaslessSubmit E cfg key calls metadata s = (Inr payload, s1)" for payload s1
    proof -
      obtain W where W: "key = Some W" "gc_Signer cfg = sg_address W" "buildDepositSubmit E cfg (Some W) calls metadata s = (Inr payload, s1)"
        using b assms(2) by (auto simp: BuildGaslessSubmit_def submitGuards_def go_run split: option.splits if_splits)
      then have p: "depositSigned E cfg chain calls metadata payload" using buildDepositSubmit_run assms(3) by blast
      then show ?thesis using CorrectDepositNonce_run [OF assms(1) p _ assms(3,4)] W(1) by blast
    qed
    with submitForWalletType_run [OF that] show ?thesis by fastforce
  qed
  show ?thesis
    using assms(5) submitLoop_log [OF one]
    by (fastforce simp: PrepareGasless_def bindE_def submitGuards_def split: prod.splits sum.splits)
qed

text \<open>
  C28: the relayer is never given a batch again that it may have taken.  Of the bodies a call of \<open>PrepareGasless\<close> posts, at most 22, every one but the last was refused
  with status 429 or 400; the call succeeds if and only if the last one was accepted, and returns the identifier of that answer; after
  a network error, a server error or any other answer nothing more is posted.
\<close>

theorem gasless_posts_once:
  assumes "PrepareGasless E cfg key calls metadata s = (r, s')"
  shows "\<exists>new. rl_log s' = rl_log s @ new \<and> length new \<le> 22 \<and> list_all refused (map snd (butlast new)) \<and>
    (case r of
       Inr h \<Rightarrow> new \<noteq> [] \<and> (\<exists>resp. snd (last new) = Inr resp \<and> hd_TransactionID h = er_TransactionID resp \<and> hd_TransactionHash h = er_TransactionHash resp)
     | Inl e \<Rightarrow> list_all (\<lambda>(req, answer). \<exists>e. answer = Inl e) new)"
proof (cases "submitGuards cfg key calls metadata")
  case (Inl e)
  then show ?thesis using assms by (auto simp: PrepareGasless_def bindE_def)
next
  case (Inr u)
  obtain maxPolls pollDelay where d: "pollDefaults cfg = (maxPolls, pollDelay)" by fastforce
  obtain r1 s1 where l: "submitLoop E (submitForWalletType E cfg key calls metadata) pollDelay SubmitRetryAttempts s = (r1, s1)" by fastforce
  obtain new where n: "rl_log s1 = rl_log s @ new" "length new \<le> 2 * Suc SubmitRetryAttempts" "answers_ok r1 (map snd new)"
    using submitLoop_posts [OF submitForWalletType_attempt l] by blast
  have "s' = s1" "r = map_sum id (\<lambda>resp. (NewHandle resp)\<lparr>hd_maxPolls := maxPolls, hd_pollDelay := pollDelay\<rparr>) r1"
    using assms Inr d l by (auto simp: PrepareGasless_def bindE_def split: sum.splits)
  then show ?thesis
    using n by (intro exI [of _ new])
      (auto simp: answers_ok_def SubmitRetryAttempts_def map_butlast last_map NewHandle_def list_all_iff split: sum.splits)
qed

text \<open>
  Waiting for a transaction ends after at most the configured number of polls (once at least), posts nothing, and its result is what the relayer said: success only if it reported the transaction as
  confirmed, with the reported hash or else the one of the submission; failure only if it reported failed or invalid, answered with an error that is not transient, a
  context ended, or every poll was used up.
\<close>

theorem poll_until_terminal:
  assumes "PollUntilTerminal E tid fallback maxPolls delay s = (r, s')"
  shows "rl_log s' = rl_log s \<and> rl_ticks s' \<le> rl_ticks s + 3 * nat (max 1 maxPolls) \<and>
    poll_result E tid fallback (nat (max 1 maxPolls)) (rl_ticks s) (rl_ticks s') r"
proof -
  obtain k where "nat (max 1 maxPolls) = Suc k" by (cases "nat (max 1 maxPolls)") auto
  then show ?thesis using pollLoop_run [of E tid fallback delay k s r s'] assms by (auto simp: PollUntilTerminal_def)
qed

section \<open>A stale nonce\<close>

text \<open>A relayer that refuses the first body for its nonce and accepts the second, then reports the transaction as new and as confirmed.\<close>

definition relay_env :: relayEnv where
  "relay_env = \<lparr>re_eth = relay_eth, re_crypto = demo_crypto, re_packTuples = (\<lambda>ts. Inr []), re_ctx = (\<lambda>n. None), re_timer = (\<lambda>n d. None), re_now = (\<lambda>n. 1000),
     re_random = (\<lambda>n d. 0), re_params = (\<lambda>n a t. Inr \<lparr>ew_Address = [], ew_Nonce = ''4''\<rparr>),
     re_submit = (\<lambda>n req. if sb_Nonce req = ''7'' then Inr \<lparr>er_State = [], er_TransactionHash = [], er_TransactionID = ''t1''\<rparr>
       else Inl (ApiError 400 None ''Batch nonce 4 does not match on-chain nonce 7'')),
     re_transaction = (\<lambda>n tid. Inr \<lparr>gt_State = (if n < 3 then ''STATE_NEW'' else StateConfirmed), gt_TransactionHash = ''0xab'', gt_TransactionID = tid, gt_ErrorMsg = []\<rparr>),
     re_isNetError = (\<lambda>k. True)\<rparr>"

definition relay_config :: GaslessConfig where
  "relay_config = \<lparr>gc_SessionSigner = False, gc_WalletType = TransactionTypeWallet, gc_Signer = demo_owner, gc_Wallet = demo_owner, gc_ChainID = Some 137,
     gc_ProxyFactory = noAddress, gc_DepositWalletFactory = noAddress, gc_RelayHub = noAddress, gc_SafeMultisend = noAddress, gc_GasEstimator = None,
     gc_PollMaxAttempts = 5, gc_PollInterval = 1\<rparr>"

definition relay_start :: relayState where
  "relay_start = \<lparr>rl_ticks = 0, rl_log = []\<rparr>"

lemma relay_demo:
  "map (\<lambda>p. sb_Nonce (fst p)) (rl_log (snd (PrepareGasless relay_env relay_config (Some demo_signer) [demo_call] ''m'' relay_start))) = [''4'', ''7'']"
  "map_sum id hd_TransactionID (fst (PrepareGasless relay_env relay_config (Some demo_signer) [demo_call] ''m'' relay_start)) = Inr ''t1''"
  by code_simp+

lemma relay_demo_run:
  obtains h s' where "PrepareGasless relay_env relay_config (Some demo_signer) [demo_call] ''m'' relay_start = (Inr h, s')"
    "map (\<lambda>p. sb_Nonce (fst p)) (rl_log s') = [''4'', ''7'']" "hd_TransactionID h = ''t1''"
  using relay_demo by (cases "PrepareGasless relay_env relay_config (Some demo_signer) [demo_call] ''m'' relay_start") (auto simp: map_sum_def split: sum.splits)

theorem deposit_batches_covered_witness:
  "\<exists>req. sb_Nonce req = ''7'' \<and> depositSigned relay_env relay_config 137 [demo_call] ''m'' req"
proof -
  obtain h s' where r: "PrepareGasless relay_env relay_config (Some demo_signer) [demo_call] ''m'' relay_start = (Inr h, s')"
    "map (\<lambda>p. sb_Nonce (fst p)) (rl_log s') = [''4'', ''7'']" by (rule relay_demo_run)
  have c: "relay_ethereum (re_eth relay_env)" "gc_WalletType relay_config = TransactionTypeWallet" "gc_ChainID relay_config = Some 137"
    "list_all (\<lambda>c. length (tc_To c) = 20) [demo_call]"
    by (simp_all add: relay_env_def relay_eth.relay_ethereum_axioms relay_config_def demo_call_def demo_owner_def)
  have "\<forall>p \<in> set (rl_log s'). depositSigned relay_env relay_config 137 [demo_call] ''m'' (fst p)"
    using deposit_batches_covered [OF c r(1)] by (auto simp: relay_start_def)
  moreover have "''7'' \<in> (\<lambda>p. sb_Nonce (fst p)) ` set (rl_log s')" using r(2) by (metis list.set_intros(1,2) set_map)
  ultimately show ?thesis by force
qed

theorem gasless_posts_once_witness:
  "\<exists>h (new :: (SubmitRequest \<times> ExecuteResponse result) list). fst (PrepareGasless relay_env relay_config (Some demo_signer) [demo_call] ''m'' relay_start) = Inr h \<and> length new = 2 \<and>
     list_all refused (map snd (butlast new)) \<and> (\<exists>resp. snd (last new) = Inr resp \<and> hd_TransactionID h = er_TransactionID resp)"
proof -
  obtain h s' where r: "PrepareGasless relay_env relay_config (Some demo_signer) [demo_call] ''m'' relay_start = (Inr h, s')"
    "map (\<lambda>p. sb_Nonce (fst p)) (rl_log s') = [''4'', ''7'']" by (rule relay_demo_run)
  have "length (rl_log s') = 2" using r(2) by (metis length_map list.size(3,4) One_nat_def Suc_1 add.commute plus_1_eq_Suc)
  moreover have "list_all refused (map snd (butlast (rl_log s')))" "\<exists>resp. snd (last (rl_log s')) = Inr resp \<and> hd_TransactionID h = er_TransactionID resp"
    using gasless_posts_once [OF r(1)] by (auto simp: relay_start_def)
  ultimately show ?thesis using r(1) by (metis fst_conv)
qed

theorem poll_until_terminal_witness:
  "\<exists>out s'. PollUntilTerminal relay_env ''t1'' [] 5 1 relay_start = (Inr out, s') \<and> rl_ticks s' \<le> 15 \<and> to_TransactionHash out = ''0xab''"
proof -
  have "map_sum id (\<lambda>_. ()) (fst (PollUntilTerminal relay_env ''t1'' [] 5 1 relay_start)) = Inr ()" by code_simp
  then obtain out s' where r: "PollUntilTerminal relay_env ''t1'' [] 5 1 relay_start = (Inr out, s')"
    by (cases "PollUntilTerminal relay_env ''t1'' [] 5 1 relay_start") (auto simp: map_sum_def split: sum.splits)
  from poll_until_terminal [OF r] r show ?thesis
    by (auto simp: poll_result_def relay_env_def relay_start_def)
qed

end
