(* ===== verification/WsSubscriptions.thy ===== *)
theory WsSubscriptions
  imports Prelude "HOL-Library.AList" "HOL-Library.Multiset" "HOL-Library.List_Lexorder" "HOL-Library.Char_ord"
begin

text \<open>
  The subscriptions of the socket client, \<open>clob/ws/client.go\<close>: a caller subscribes to channels for assets or markets; the service knows one set of assets and one of markets for each
  connection.  The client counts the references to each of them, writes a message only for what is new or no longer needed, undoes its records when a
  write fails, and writes everything again on a new connection.  The socket is a parameter.
\<close>

section \<open>Data\<close>

definition ChannelMarket :: string where "ChannelMarket = ''market''"
definition ChannelUser :: string where "ChannelUser = ''user''"

definition channelTypeOrderBook :: string where "channelTypeOrderBook = ''order_book''"
definition channelTypeLastTradePrice :: string where "channelTypeLastTradePrice = ''last_trade_price''"
definition channelTypePrices :: string where "channelTypePrices = ''prices''"
definition channelTypeTickSizeChange :: string where "channelTypeTickSizeChange = ''tick_size_change''"
definition channelTypeMidpoints :: string where "channelTypeMidpoints = ''midpoints''"
definition channelTypeBestBidAsk :: string where "channelTypeBestBidAsk = ''best_bid_ask''"
definition channelTypeNewMarkets :: string where "channelTypeNewMarkets = ''new_markets''"
definition channelTypeMarketRes :: string where "channelTypeMarketRes = ''market_resolutions''"
definition channelTypeUserEvents :: string where "channelTypeUserEvents = ''user_events''"
definition channelTypeOrders :: string where "channelTypeOrders = ''orders''"
definition channelTypeTrades :: string where "channelTypeTrades = ''trades''"

lemmas channel_types = channelTypeOrderBook_def channelTypeLastTradePrice_def channelTypePrices_def channelTypeTickSizeChange_def channelTypeMidpoints_def
  channelTypeBestBidAsk_def channelTypeNewMarkets_def channelTypeMarketRes_def channelTypeUserEvents_def channelTypeOrders_def channelTypeTrades_def

record Credentials =
  cr_Key :: string
  cr_Secret :: string
  cr_Passphrase :: string

record WSAuth =
  wa_Key :: string
  wa_Secret :: string
  wa_Passphrase :: string
  wa_Timestamp :: string
  wa_Signature :: string

record UserSubscription =
  us_Type :: string
  us_Auth :: WSAuth
  us_Markets :: "string list"
  us_Operation :: string
  us_InitialDump :: bool

record MarketSubscription =
  ms_Type :: string
  ms_Operation :: string
  ms_Markets :: "string list"
  ms_AssetIDs :: "string list"
  ms_InitialDump :: bool
  ms_CustomFeatureEnabled :: bool

datatype wsMessage = MarketMessage MarketSubscription | UserMessage UserSubscription

datatype subscriptionTarget = subscriptionTargetMarket | subscriptionTargetUser

definition isUser :: "subscriptionTarget \<Rightarrow> bool" where
  "isUser t \<longleftrightarrow> t = subscriptionTargetUser"

record subscription =
  su_target :: subscriptionTarget
  su_channelType :: string
  su_key :: string
  su_assetIDs :: "string list"
  su_markets :: "string list"
  su_initialDump :: bool
  su_customFeatureEnabled :: bool

text \<open>
  A Go map from names to counters, as an association list with distinct keys.
\<close>

type_synonym refs = "(string \<times> nat) list"

text \<open>
  The client: \<open>wx_conn\<close> is the connection in use, connections are numbered, and \<open>wx_conns\<close> is the number of the next one.  \<open>wx_sent\<close> records
  the messages that were written and \<open>wx_errs\<close> the errors offered to the channel of asynchronous errors, each with its connection.
\<close>

record wsClient =
  wx_creds :: "Credentials option"
  wx_conn :: "nat option"
  wx_closed :: bool
  wx_subs :: "subscription list"
  wx_marketRefs :: refs
  wx_userRefs :: refs
  wx_customFeature :: bool
  wx_conns :: nat
  wx_ticks :: nat
  wx_sent :: "(nat \<times> wsMessage) list"
  wx_errs :: "(nat \<times> go_error) list"

definition newWsClient :: "Credentials option \<Rightarrow> wsClient" where
  "newWsClient creds = \<lparr>wx_creds = creds, wx_conn = None, wx_closed = False, wx_subs = [], wx_marketRefs = [], wx_userRefs = [], wx_customFeature = False,
     wx_conns = 0, wx_ticks = 0, wx_sent = [], wx_errs = []\<rparr>"

text \<open>Outside: whether a message can be encoded, and the error of the \<open>n\<close>-th write to a connection.\<close>

record wsEnv =
  we_marshal :: "wsMessage \<Rightarrow> go_error option"
  we_write :: "nat \<Rightarrow> wsMessage \<Rightarrow> go_error option"

section \<open>Subscriptions and their keys\<close>

fun strings_join :: "string \<Rightarrow> string list \<Rightarrow> string" where
  "strings_join sep [] = []"
| "strings_join sep [x] = x"
| "strings_join sep (x # xs) = x @ sep @ strings_join sep xs"

definition subscriptionKey :: "subscriptionTarget \<Rightarrow> string list \<Rightarrow> string" where
  "subscriptionKey target ids = (if isUser target then ''user'' else ''market'') @ '':'' @ strings_join '','' (sort ids)"

definition newMarketSubscription :: "string \<Rightarrow> string list \<Rightarrow> bool \<Rightarrow> bool \<Rightarrow> subscription" where
  "newMarketSubscription channelType assetIDs initialDump customFeatureEnabled =
     \<lparr>su_target = subscriptionTargetMarket, su_channelType = channelType, su_key = subscriptionKey subscriptionTargetMarket assetIDs,
      su_assetIDs = assetIDs, su_markets = [], su_initialDump = initialDump, su_customFeatureEnabled = customFeatureEnabled\<rparr>"

definition newUserSubscription :: "string \<Rightarrow> string list \<Rightarrow> subscription" where
  "newUserSubscription channelType markets =
     \<lparr>su_target = subscriptionTargetUser, su_channelType = channelType, su_key = subscriptionKey subscriptionTargetUser markets,
      su_assetIDs = [], su_markets = markets, su_initialDump = False, su_customFeatureEnabled = False\<rparr>"

definition assetIDsOrMarkets :: "subscription \<Rightarrow> string list" where
  "assetIDsOrMarkets s = (if isUser (su_target s) then su_markets s else su_assetIDs s)"

definition validateSubscriptionInput :: "subscriptionTarget \<Rightarrow> string list \<Rightarrow> unit result" where
  "validateSubscriptionInput target ids =
     guardE (isUser target \<or> ids \<noteq> []) (Msg ''market websocket subscription requires at least one asset ID'')"

definition isUserChannel :: "string \<Rightarrow> bool" where
  "isUserChannel channelType \<longleftrightarrow> channelType \<in> {channelTypeUserEvents, channelTypeOrders, channelTypeTrades}"

section \<open>Counting references\<close>

definition refCount :: "refs \<Rightarrow> string \<Rightarrow> nat" where
  "refCount m k = (case map_of m k of None \<Rightarrow> 0 | Some n \<Rightarrow> n)"

text \<open>The loops over the names of a subscription: the names that had no reference before, and those that have none after.\<close>

fun incRefs :: "string list \<Rightarrow> refs \<Rightarrow> string list \<times> refs" where
  "incRefs [] m = ([], m)"
| "incRefs (k # ks) m =
     (let (fresh, m') = incRefs ks (AList.update k (refCount m k + 1) m)
      in (if refCount m k = 0 then k # fresh else fresh, m'))"

fun decRefs :: "string list \<Rightarrow> refs \<Rightarrow> string list \<times> refs" where
  "decRefs [] m = ([], m)"
| "decRefs (k # ks) m =
     (if refCount m k \<le> 1 then let (gone, m') = decRefs ks (AList.delete k m) in (k # gone, m')
      else decRefs ks (AList.update k (refCount m k - 1) m))"

definition decrementSubscriptionRefsLocked :: "subscription \<Rightarrow> wsClient \<Rightarrow> string list \<times> wsClient" where
  "decrementSubscriptionRefsLocked sub c =
     (if isUser (su_target sub)
      then let (gone, m) = decRefs (su_markets sub) (wx_userRefs c) in (gone, c\<lparr>wx_userRefs := m\<rparr>)
      else let (gone, m) = decRefs (su_assetIDs sub) (wx_marketRefs c) in (gone, c\<lparr>wx_marketRefs := m\<rparr>))"

definition recomputeCustomFeatureLocked :: "wsClient \<Rightarrow> wsClient" where
  "recomputeCustomFeatureLocked c =
     c\<lparr>wx_customFeature := list_ex (\<lambda>sub. \<not> isUser (su_target sub) \<and> su_customFeatureEnabled sub) (wx_subs c)\<rparr>"

text \<open>Removal of the first element that satisfies a condition.\<close>

fun removeFirst :: "('a \<Rightarrow> bool) \<Rightarrow> 'a list \<Rightarrow> 'a list" where
  "removeFirst p [] = []"
| "removeFirst p (x # xs) = (if p x then xs else x # removeFirst p xs)"

definition sameSubscription :: "subscription \<Rightarrow> subscription \<Rightarrow> bool" where
  "sameSubscription sub existing \<longleftrightarrow>
     su_target existing = su_target sub \<and> su_channelType existing = su_channelType sub \<and> su_key existing = su_key sub"

definition removeOneSubscriptionLocked :: "subscription \<Rightarrow> wsClient \<Rightarrow> wsClient" where
  "removeOneSubscriptionLocked sub c = c\<lparr>wx_subs := removeFirst (sameSubscription sub) (wx_subs c)\<rparr>"

section \<open>Critical sections\<close>

definition recordSubscription :: "subscription \<Rightarrow> wsClient \<Rightarrow> (subscription \<times> bool) \<times> wsClient" where
  "recordSubscription sub c =
     (let c = c\<lparr>wx_subs := wx_subs c @ [sub]\<rparr> in
      if isUser (su_target sub)
      then if su_markets sub = [] then ((sub, True), c)
           else let (fresh, m) = incRefs (su_markets sub) (wx_userRefs c)
                in ((sub\<lparr>su_markets := fresh\<rparr>, fresh \<noteq> []), c\<lparr>wx_userRefs := m\<rparr>)
      else if su_assetIDs sub = [] then ((sub, True), c\<lparr>wx_customFeature := (wx_customFeature c \<or> su_customFeatureEnabled sub)\<rparr>)
      else let (fresh, m) = incRefs (su_assetIDs sub) (wx_marketRefs c);
               c = c\<lparr>wx_marketRefs := m\<rparr>
           in if su_customFeatureEnabled sub
              then ((sub\<lparr>su_assetIDs := (if fresh = [] then su_assetIDs sub else fresh)\<rparr>, True), c\<lparr>wx_customFeature := True\<rparr>)
              else ((sub\<lparr>su_assetIDs := fresh\<rparr>, fresh \<noteq> []), c))"

definition rollbackRecordedSubscription :: "subscription \<Rightarrow> wsClient \<Rightarrow> wsClient" where
  "rollbackRecordedSubscription sub c =
     recomputeCustomFeatureLocked (snd (decrementSubscriptionRefsLocked sub (removeOneSubscriptionLocked sub c)))"

text \<open>The index that the search of \<open>removeRecordedSubscription\<close> ends with: the channel itself, or else the first with the same names.\<close>

fun findRecorded :: "(subscription \<Rightarrow> bool) \<Rightarrow> string \<Rightarrow> nat \<Rightarrow> nat option \<Rightarrow> subscription list \<Rightarrow> nat option" where
  "findRecorded same channelType idx fallback [] = fallback"
| "findRecorded same channelType idx fallback (sub # subs) =
     (if \<not> same sub then findRecorded same channelType (Suc idx) fallback subs
      else if su_channelType sub \<noteq> channelType
      then findRecorded same channelType (Suc idx) (if fallback = None then Some idx else fallback) subs
      else Some idx)"

definition removeRecordedSubscription ::
  "subscriptionTarget \<Rightarrow> string \<Rightarrow> string list \<Rightarrow> wsClient \<Rightarrow> (subscription \<times> string list) option \<times> wsClient" where
  "removeRecordedSubscription target channelType ids c =
     (let key = subscriptionKey target ids in
      case findRecorded (\<lambda>sub. su_target sub = target \<and> su_key sub = key) channelType 0 None (wx_subs c) of
        None \<Rightarrow> (None, c)
      | Some i \<Rightarrow>
          let sub = wx_subs c ! i;
              (toUnsubscribe, c) = decrementSubscriptionRefsLocked sub (c\<lparr>wx_subs := take i (wx_subs c) @ drop (Suc i) (wx_subs c)\<rparr>)
          in (Some (sub, toUnsubscribe), recomputeCustomFeatureLocked c))"

definition rollbackRemovedSubscription :: "subscription \<Rightarrow> wsClient \<Rightarrow> wsClient" where
  "rollbackRemovedSubscription sub c =
     (let c = c\<lparr>wx_subs := wx_subs c @ [sub]\<rparr>
      in recomputeCustomFeatureLocked
           (if isUser (su_target sub) then c\<lparr>wx_userRefs := snd (incRefs (su_markets sub) (wx_userRefs c))\<rparr>
            else c\<lparr>wx_marketRefs := snd (incRefs (su_assetIDs sub) (wx_marketRefs c))\<rparr>))"

section \<open>Messages\<close>

definition sendJSON :: "wsEnv \<Rightarrow> wsMessage \<Rightarrow> (wsClient, unit) act" where
  "sendJSON E v = (\<lambda>c. case we_marshal E v of
       Some e \<Rightarrow> (Inl e, c)
     | None \<Rightarrow> (case wx_conn c of
           None \<Rightarrow> (Inl (Msg ''not connected''), c)
         | Some k \<Rightarrow>
             let n = wx_ticks c; c = c\<lparr>wx_ticks := Suc n\<rparr>
             in (case we_write E n v of Some e \<Rightarrow> (Inl e, c) | None \<Rightarrow> (Inr (), c\<lparr>wx_sent := wx_sent c @ [(k, v)]\<rparr>))))"

definition deriveWSAuth :: "(wsClient, WSAuth) act" where
  "deriveWSAuth = (\<lambda>c. case wx_creds c of
       None \<Rightarrow> (Inl (Msg ''user channel subscriptions require credentials: use NewAuthenticatedClient or WithCredentials''), c)
     | Some cr \<Rightarrow> (Inr \<lparr>wa_Key = cr_Key cr, wa_Secret = cr_Secret cr, wa_Passphrase = cr_Passphrase cr, wa_Timestamp = [], wa_Signature = []\<rparr>, c))"

definition sendMarketSubscribeMessage :: "wsEnv \<Rightarrow> subscription \<Rightarrow> (wsClient, unit) act" where
  "sendMarketSubscribeMessage E sub = sendJSON E (MarketMessage
     \<lparr>ms_Type = ChannelMarket, ms_Operation = ''subscribe'', ms_Markets = [], ms_AssetIDs = su_assetIDs sub, ms_InitialDump = su_initialDump sub,
      ms_CustomFeatureEnabled = su_customFeatureEnabled sub\<rparr>)"

definition sendUserSubscribeMessage :: "wsEnv \<Rightarrow> subscription \<Rightarrow> (wsClient, unit) act" where
  "sendUserSubscribeMessage E sub = bindE deriveWSAuth (\<lambda>auth. sendJSON E (UserMessage
     \<lparr>us_Type = ChannelUser, us_Auth = auth, us_Markets = su_markets sub, us_Operation = ''subscribe'', us_InitialDump = True\<rparr>))"

definition sendUnsubscribeMessage :: "wsEnv \<Rightarrow> subscriptionTarget \<Rightarrow> string list \<Rightarrow> (wsClient, unit) act" where
  "sendUnsubscribeMessage E target ids =
     (if isUser target
      then bindE deriveWSAuth (\<lambda>auth. sendJSON E (UserMessage
             \<lparr>us_Type = ChannelUser, us_Auth = auth, us_Markets = ids, us_Operation = ''unsubscribe'', us_InitialDump = False\<rparr>))
      else sendJSON E (MarketMessage
             \<lparr>ms_Type = ChannelMarket, ms_Operation = ''unsubscribe'', ms_Markets = [], ms_AssetIDs = ids, ms_InitialDump = False,
              ms_CustomFeatureEnabled = False\<rparr>))"

definition replaySub :: "wsEnv \<Rightarrow> subscription \<Rightarrow> (wsClient, unit) act" where
  "replaySub E sub = (if isUser (su_target sub) then sendUserSubscribeMessage E sub else sendMarketSubscribeMessage E sub)"

section \<open>Operations\<close>

definition addAndSend :: "wsEnv \<Rightarrow> subscription \<Rightarrow> (wsClient, unit) act" where
  "addAndSend E sub =
     bindE (lift (validateSubscriptionInput (su_target sub) (assetIDsOrMarkets sub))) (\<lambda>_ c.
       case recordSubscription sub c of ((sendSub, shouldSend), c) \<Rightarrow>
         if \<not> shouldSend then (Inr (), c)
         else (case replaySub E sendSub c of
             (Inr _, c) \<Rightarrow> (Inr (), c)
           | (Inl e, c) \<Rightarrow> (Inl e, rollbackRecordedSubscription sub c)))"

definition removeAndSend :: "wsEnv \<Rightarrow> string \<Rightarrow> string list \<Rightarrow> (wsClient, unit) act" where
  "removeAndSend E channelType ids =
     (let target = (if isUserChannel channelType then subscriptionTargetUser else subscriptionTargetMarket) in
      bindE (lift (validateSubscriptionInput target ids)) (\<lambda>_ c.
        case removeRecordedSubscription target channelType ids c of
          (None, c) \<Rightarrow> (Inr (), c)
        | (Some (removedSub, toUnsubscribe), c) \<Rightarrow>
            if toUnsubscribe = [] then (Inr (), c)
            else (case sendUnsubscribeMessage E target toUnsubscribe c of
                (Inr _, c) \<Rightarrow> (Inr (), c)
              | (Inl e, c) \<Rightarrow> (Inl e, rollbackRemovedSubscription removedSub c))))"

definition SubscribeOrderBook :: "wsEnv \<Rightarrow> string list \<Rightarrow> (wsClient, unit) act" where
  "SubscribeOrderBook E assetIDs = addAndSend E (newMarketSubscription channelTypeOrderBook assetIDs True False)"
definition UnsubscribeOrderBook :: "wsEnv \<Rightarrow> string list \<Rightarrow> (wsClient, unit) act" where
  "UnsubscribeOrderBook E assetIDs = removeAndSend E channelTypeOrderBook assetIDs"
definition SubscribeLastTradePrice :: "wsEnv \<Rightarrow> string list \<Rightarrow> (wsClient, unit) act" where
  "SubscribeLastTradePrice E assetIDs = addAndSend E (newMarketSubscription channelTypeLastTradePrice assetIDs False False)"
definition SubscribePrices :: "wsEnv \<Rightarrow> string list \<Rightarrow> (wsClient, unit) act" where
  "SubscribePrices E assetIDs = addAndSend E (newMarketSubscription channelTypePrices assetIDs False False)"
definition UnsubscribePrices :: "wsEnv \<Rightarrow> string list \<Rightarrow> (wsClient, unit) act" where
  "UnsubscribePrices E assetIDs = removeAndSend E channelTypePrices assetIDs"
definition SubscribeTickSizeChange :: "wsEnv \<Rightarrow> string list \<Rightarrow> (wsClient, unit) act" where
  "SubscribeTickSizeChange E assetIDs = addAndSend E (newMarketSubscription channelTypeTickSizeChange assetIDs False False)"
definition UnsubscribeTickSizeChange :: "wsEnv \<Rightarrow> string list \<Rightarrow> (wsClient, unit) act" where
  "UnsubscribeTickSizeChange E assetIDs = removeAndSend E channelTypeTickSizeChange assetIDs"
definition SubscribeMidpoints :: "wsEnv \<Rightarrow> string list \<Rightarrow> (wsClient, unit) act" where
  "SubscribeMidpoints E assetIDs = addAndSend E (newMarketSubscription channelTypeMidpoints assetIDs True False)"
definition UnsubscribeMidpoints :: "wsEnv \<Rightarrow> string list \<Rightarrow> (wsClient, unit) act" where
  "UnsubscribeMidpoints E assetIDs = removeAndSend E channelTypeMidpoints assetIDs"
definition SubscribeBestBidAsk :: "wsEnv \<Rightarrow> string list \<Rightarrow> (wsClient, unit) act" where
  "SubscribeBestBidAsk E assetIDs = addAndSend E (newMarketSubscription channelTypeBestBidAsk assetIDs False True)"
definition SubscribeNewMarkets :: "wsEnv \<Rightarrow> string list \<Rightarrow> (wsClient, unit) act" where
  "SubscribeNewMarkets E assetIDs = addAndSend E (newMarketSubscription channelTypeNewMarkets assetIDs False True)"
definition SubscribeMarketResolutions :: "wsEnv \<Rightarrow> string list \<Rightarrow> (wsClient, unit) act" where
  "SubscribeMarketResolutions E assetIDs = addAndSend E (newMarketSubscription channelTypeMarketRes assetIDs False True)"
definition SubscribeUserEvents :: "wsEnv \<Rightarrow> string list \<Rightarrow> (wsClient, unit) act" where
  "SubscribeUserEvents E markets = addAndSend E (newUserSubscription channelTypeUserEvents markets)"
definition UnsubscribeUserEvents :: "wsEnv \<Rightarrow> string list \<Rightarrow> (wsClient, unit) act" where
  "UnsubscribeUserEvents E markets = removeAndSend E channelTypeUserEvents markets"
definition SubscribeOrders :: "wsEnv \<Rightarrow> string list \<Rightarrow> (wsClient, unit) act" where
  "SubscribeOrders E markets = addAndSend E (newUserSubscription channelTypeOrders markets)"
definition UnsubscribeOrders :: "wsEnv \<Rightarrow> string list \<Rightarrow> (wsClient, unit) act" where
  "UnsubscribeOrders E markets = removeAndSend E channelTypeOrders markets"
definition SubscribeTrades :: "wsEnv \<Rightarrow> string list \<Rightarrow> (wsClient, unit) act" where
  "SubscribeTrades E markets = addAndSend E (newUserSubscription channelTypeTrades markets)"
definition UnsubscribeTrades :: "wsEnv \<Rightarrow> string list \<Rightarrow> (wsClient, unit) act" where
  "UnsubscribeTrades E markets = removeAndSend E channelTypeTrades markets"

text \<open>
  A message of a replay; its error is offered to the channel of asynchronous errors, which drops it when it is full.  \<open>wx_errs\<close> records it in both cases.
\<close>

definition replayOrReport :: "wsEnv \<Rightarrow> string \<Rightarrow> subscription \<Rightarrow> wsClient \<Rightarrow> wsClient" where
  "replayOrReport E what sub c = (case replaySub E sub c of
       (Inr _, c) \<Rightarrow> c
     | (Inl e, c) \<Rightarrow> c\<lparr>wx_errs := wx_errs c @ [(case wx_conn c of Some k \<Rightarrow> k | None \<Rightarrow> 0, Wrap what e)]\<rparr>)"

definition replayTrackedSubscriptions :: "wsEnv \<Rightarrow> wsClient \<Rightarrow> wsClient" where
  "replayTrackedSubscriptions E c =
     (if wx_subs c = [] then c
      else let marketActive = list_ex (\<lambda>sub. \<not> isUser (su_target sub)) (wx_subs c);
               userActive = list_ex (\<lambda>sub. isUser (su_target sub)) (wx_subs c);
               initialDump = list_ex (\<lambda>sub. \<not> isUser (su_target sub) \<and> su_initialDump sub) (wx_subs c);
               market = \<lparr>su_target = subscriptionTargetMarket, su_channelType = [], su_key = [], su_assetIDs = sort (map fst (wx_marketRefs c)),
                 su_markets = [], su_initialDump = initialDump, su_customFeatureEnabled = wx_customFeature c\<rparr>;
               user = \<lparr>su_target = subscriptionTargetUser, su_channelType = [], su_key = [], su_assetIDs = [], su_markets = sort (map fst (wx_userRefs c)),
                 su_initialDump = False, su_customFeatureEnabled = False\<rparr>;
               c = (if marketActive then replayOrReport E ''resubscribe market'' market c else c)
           in if userActive then replayOrReport E ''resubscribe user'' user c else c)"

text \<open>\<open>connect\<close> with the result of the dial; \<open>markDisconnected\<close>; \<open>Close\<close>.  Their interleaving with the loops of a connection is the subject of \<open>WsConnection\<close>.\<close>

definition connect :: "wsEnv \<Rightarrow> go_error option \<Rightarrow> (wsClient, unit) act" where
  "connect E dial = (\<lambda>c.
     if wx_closed c then (Inl (Msg ''client closed''), c)
     else (case dial of
         Some e \<Rightarrow> (Inl (Wrap ''dial'' e), c)
       | None \<Rightarrow>
           if wx_conn c \<noteq> None then (Inl (Msg ''client already connected''), c)
           else (Inr (), replayTrackedSubscriptions E (c\<lparr>wx_conn := Some (wx_conns c), wx_conns := Suc (wx_conns c)\<rparr>))))"

definition markDisconnected :: "nat \<Rightarrow> wsClient \<Rightarrow> wsClient" where
  "markDisconnected k c = (if wx_conn c = Some k then c\<lparr>wx_conn := None\<rparr> else c)"

definition closeClient :: "wsClient \<Rightarrow> wsClient" where
  "closeClient c = c\<lparr>wx_closed := True\<rparr>"

definition WithCredentials :: "Credentials \<Rightarrow> wsClient \<Rightarrow> wsClient" where
  "WithCredentials creds c = c\<lparr>wx_creds := Some creds\<rparr>"

definition SubscriptionCount :: "wsClient \<Rightarrow> nat" where
  "SubscriptionCount c = length (wx_subs c)"

definition IsConnected :: "wsClient \<Rightarrow> bool" where
  "IsConnected c \<longleftrightarrow> wx_conn c \<noteq> None \<and> \<not> wx_closed c"

section \<open>References count names\<close>

text \<open>The counters of a map agree with a multiset of names.\<close>

definition refs_ok :: "refs \<Rightarrow> string multiset \<Rightarrow> bool" where
  "refs_ok m M \<longleftrightarrow> distinct (map fst m) \<and> (\<forall>k. map_of m k = (if k \<in># M then Some (count M k) else None))"

lemma refs_ok_count: "refs_ok m M \<Longrightarrow> refCount m k = count M k"
  by (auto simp: refs_ok_def refCount_def not_in_iff)

lemma refs_ok_keys: "refs_ok m M \<Longrightarrow> fst ` set m = set_mset M"
  unfolding refs_ok_def by (metis dom_map_of_conv_image_fst domI domIff option.distinct(1) subset_antisym subsetI)

lemma refs_ok_update: "refs_ok m M \<Longrightarrow> 0 < n \<Longrightarrow> (\<And>j. count M' j = (if j = k then n else count M j)) \<Longrightarrow> refs_ok (AList.update k n m) M'"
  by (auto simp: refs_ok_def distinct_update update_conv' count_greater_zero_iff [symmetric] simp del: count_greater_zero_iff)

lemma refs_ok_delete: "refs_ok m M \<Longrightarrow> (\<And>j. count M' j = (if j = k then 0 else count M j)) \<Longrightarrow> refs_ok (AList.delete k m) M'"
  by (auto simp: refs_ok_def distinct_delete delete_conv' count_greater_zero_iff [symmetric] simp del: count_greater_zero_iff)

lemma incRefs_ok:
  assumes "refs_ok m M" "incRefs ks m = (fresh, m')"
  shows "refs_ok m' (mset ks + M) \<and> set fresh = set ks - set_mset M"
  using assms
proof (induction ks arbitrary: m M fresh m')
  case (Cons k ks)
  obtain fresh1 where r: "incRefs ks (AList.update k (refCount m k + 1) m) = (fresh1, m')"
    "fresh = (if refCount m k = 0 then k # fresh1 else fresh1)"
    using Cons.prems(2) by (auto split: prod.splits)
  have "refs_ok (AList.update k (refCount m k + 1) m) (add_mset k M)"
    by (rule refs_ok_update [OF Cons.prems(1)]) (auto simp: refs_ok_count [OF Cons.prems(1)])
  from Cons.IH [OF this r(1)] show ?case
    using r(2) by (auto simp: refs_ok_count [OF Cons.prems(1)] count_eq_zero_iff)
qed simp

lemma decRefs_ok:
  assumes "refs_ok m (mset ks + M)" "decRefs ks m = (gone, m')"
  shows "refs_ok m' M \<and> set gone = set ks - set_mset M"
  using assms
proof (induction ks arbitrary: m gone m')
  case (Cons k ks)
  note n = refs_ok_count [OF Cons.prems(1), of k]
  show ?case
  proof (cases "refCount m k \<le> 1")
    case True
    obtain gone1 where r: "decRefs ks (AList.delete k m) = (gone1, m')" "gone = k # gone1"
      using Cons.prems(2) True by (auto split: prod.splits)
    have z: "count (mset ks + M) k = 0" using True n by simp
    have "refs_ok (AList.delete k m) (mset ks + M)"
      by (rule refs_ok_delete [OF Cons.prems(1)]) (use z in auto)
    from Cons.IH [OF this r(1)] show ?thesis using r(2) z by (auto simp: count_eq_zero_iff)
  next
    case False
    have z: "k \<in># mset ks + M" using False n by (auto simp: count_greater_zero_iff [symmetric] simp del: count_greater_zero_iff)
    have "refs_ok (AList.update k (refCount m k - 1) m) (mset ks + M)"
      by (rule refs_ok_update [OF Cons.prems(1)]) (use False n in auto)
    from Cons.IH [OF this] show ?thesis using Cons.prems(2) False z by auto
  qed
qed simp

section \<open>Well-formed subscriptions\<close>

text \<open>Names without a comma and not empty, for which the key of a subscription determines its names up to their order.\<close>

definition clean :: "string list \<Rightarrow> bool" where
  "clean ids \<longleftrightarrow> (\<forall>i \<in> set ids. i \<noteq> [] \<and> CHR '','' \<notin> set i)"

lemma join_split:
  assumes "CHR '','' \<notin> set x" "CHR '','' \<notin> set y" "x @ CHR '','' # s = y @ CHR '','' # t"
  shows "x = y \<and> s = t"
  using assms by (induction x arbitrary: y) (auto simp: Cons_eq_append_conv append_eq_Cons_conv)

lemma strings_join_Cons: "xs \<noteq> [] \<Longrightarrow> strings_join '','' (x # xs) = x @ CHR '','' # strings_join '','' xs"
  by (cases xs) auto

lemma strings_join_inj: "clean xs \<Longrightarrow> clean ys \<Longrightarrow> strings_join '','' xs = strings_join '','' ys \<Longrightarrow> xs = ys"
proof (induction xs arbitrary: ys)
  case Nil
  then show ?case by (cases ys rule: list.exhaust [case_product list.exhaust [of "tl ys"]]) (auto simp: clean_def strings_join_Cons)
next
  case (Cons x xs)
  show ?case
  proof (cases ys)
    case Nil
    then show ?thesis using Cons.prems by (cases xs) (auto simp: clean_def)
  next
    case (Cons y ys')
    have c: "CHR '','' \<notin> set x" "CHR '','' \<notin> set y" "clean xs" "clean ys'" using Cons.prems Cons by (auto simp: clean_def)
    show ?thesis
    proof (cases "xs = []"; cases "ys' = []")
      assume "xs \<noteq> []" "ys' \<noteq> []"
      then show ?thesis using Cons.prems(3) Cons.IH [OF c(3,4)] join_split [OF c(1,2)] Cons by (auto simp: strings_join_Cons)
    next
      assume "xs = []" "ys' \<noteq> []"
      then have "x = y @ CHR '','' # strings_join '','' ys'" using Cons.prems(3) Cons by (simp add: strings_join_Cons)
      then show ?thesis using c(1) by simp
    next
      assume "xs \<noteq> []" "ys' = []"
      then have "y = x @ CHR '','' # strings_join '','' xs" using Cons.prems(3) Cons by (simp add: strings_join_Cons)
      then show ?thesis using c(2) by simp
    qed (use Cons.prems Cons in auto)
  qed
qed

lemma subscriptionKey_names:
  assumes "clean xs" "clean ys" "subscriptionKey t xs = subscriptionKey t ys"
  shows "mset xs = mset ys"
proof -
  have "clean (sort xs)" "clean (sort ys)" using assms(1,2) by (simp_all add: clean_def)
  moreover have "strings_join '','' (sort xs) = strings_join '','' (sort ys)" using assms(3) by (simp add: subscriptionKey_def)
  ultimately have "sort xs = sort ys" by (rule strings_join_inj)
  then show ?thesis by (metis mset_sort)
qed

text \<open>The subscriptions the methods of the client make, with the flags of each channel.\<close>

definition marketChannels :: "(string \<times> bool \<times> bool) list" where
  "marketChannels = [(channelTypeOrderBook, True, False), (channelTypeLastTradePrice, False, False), (channelTypePrices, False, False),
     (channelTypeTickSizeChange, False, False), (channelTypeMidpoints, True, False), (channelTypeBestBidAsk, False, True),
     (channelTypeNewMarkets, False, True), (channelTypeMarketRes, False, True)]"

definition userChannels :: "string list" where
  "userChannels = [channelTypeUserEvents, channelTypeOrders, channelTypeTrades]"

definition wf_sub :: "subscription \<Rightarrow> bool" where
  "wf_sub sub \<longleftrightarrow> clean (assetIDsOrMarkets sub) \<and>
     ((\<exists>ch \<in> set userChannels. sub = newUserSubscription ch (assetIDsOrMarkets sub)) \<or>
      (\<exists>(ch, dump, custom) \<in> set marketChannels. assetIDsOrMarkets sub \<noteq> [] \<and> sub = newMarketSubscription ch (assetIDsOrMarkets sub) dump custom))"

lemma new_subscription_simps [simp]:
  "su_target (newMarketSubscription ch ids d cu) = subscriptionTargetMarket" "su_target (newUserSubscription ch ids) = subscriptionTargetUser"
  "su_channelType (newMarketSubscription ch ids d cu) = ch" "su_channelType (newUserSubscription ch ids) = ch"
  "su_key (newMarketSubscription ch ids d cu) = subscriptionKey subscriptionTargetMarket ids"
  "su_key (newUserSubscription ch ids) = subscriptionKey subscriptionTargetUser ids"
  "su_assetIDs (newMarketSubscription ch ids d cu) = ids" "su_markets (newUserSubscription ch ids) = ids"
  "su_customFeatureEnabled (newMarketSubscription ch ids d cu) = cu" "su_customFeatureEnabled (newUserSubscription ch ids) = False"
  "su_initialDump (newMarketSubscription ch ids d cu) = d"
  "assetIDsOrMarkets (newMarketSubscription ch ids d cu) = ids" "assetIDsOrMarkets (newUserSubscription ch ids) = ids"
  by (simp_all add: newMarketSubscription_def newUserSubscription_def assetIDsOrMarkets_def isUser_def)

lemma isUser_simps [simp]: "isUser subscriptionTargetUser" "\<not> isUser subscriptionTargetMarket"
  by (simp_all add: isUser_def)

lemma wf_subE:
  assumes "wf_sub sub"
  obtains (user) ch ids where "sub = newUserSubscription ch ids" "clean ids" "ch \<in> set userChannels"
  | (market) ch ids d cu where "sub = newMarketSubscription ch ids d cu" "clean ids" "ids \<noteq> []" "(ch, d, cu) \<in> set marketChannels"
  using assms unfolding wf_sub_def by blast

lemma marketChannels_flags: "(ch, d, cu) \<in> set marketChannels \<Longrightarrow> (ch, d', cu') \<in> set marketChannels \<Longrightarrow> d = d' \<and> cu = cu'"
  by (auto simp: marketChannels_def channel_types)

lemma wf_sub_names: "wf_sub sub \<Longrightarrow> clean (assetIDsOrMarkets sub) \<and> su_key sub = subscriptionKey (su_target sub) (assetIDsOrMarkets sub)"
  by (elim wf_subE) auto

lemma same_subscription_names:
  assumes "wf_sub sub" "wf_sub other" "su_target other = su_target sub" "su_key other = su_key sub"
  shows "mset (assetIDsOrMarkets other) = mset (assetIDsOrMarkets sub)"
  by (rule subscriptionKey_names [of _ _ "su_target sub"]) (use assms wf_sub_names in metis)+

lemma same_subscription_custom:
  assumes "wf_sub sub" "wf_sub other" "sameSubscription sub other"
  shows "su_customFeatureEnabled other = su_customFeatureEnabled sub"
  using assms(1)
proof (cases rule: wf_subE)
  case (user ch ids)
  with assms(2,3) show ?thesis by (cases rule: wf_subE) (auto simp: sameSubscription_def)
next
  case (market ch ids d cu)
  with assms(2,3) marketChannels_flags [of ch] show ?thesis by (cases rule: wf_subE) (auto simp: sameSubscription_def)
qed

section \<open>The invariant of the records\<close>

text \<open>The names all subscriptions of a target ask for, with their multiplicities.\<close>

definition names :: "subscriptionTarget \<Rightarrow> subscription list \<Rightarrow> string multiset" where
  "names t subs = mset (concat (map assetIDsOrMarkets (filter (\<lambda>sub. su_target sub = t) subs)))"

lemma names_simps [simp]:
  "names t [] = {#}" "names t (sub # subs) = (if su_target sub = t then mset (assetIDsOrMarkets sub) else {#}) + names t subs"
  "names t (xs @ ys) = names t xs + names t ys"
  by (simp_all add: names_def)

definition wantsCustom :: "subscription list \<Rightarrow> bool" where
  "wantsCustom subs \<longleftrightarrow> list_ex (\<lambda>sub. \<not> isUser (su_target sub) \<and> su_customFeatureEnabled sub) subs"

text \<open>The part of the client that the critical sections leave alone.\<close>

definition outside :: "wsClient \<Rightarrow> Credentials option \<times> nat option \<times> bool \<times> nat \<times> nat \<times> (nat \<times> wsMessage) list \<times> (nat \<times> go_error) list" where
  "outside c = (wx_creds c, wx_conn c, wx_closed c, wx_conns c, wx_ticks c, wx_sent c, wx_errs c)"

definition tracked_ok :: "wsClient \<Rightarrow> bool" where
  "tracked_ok c \<longleftrightarrow> refs_ok (wx_marketRefs c) (names subscriptionTargetMarket (wx_subs c)) \<and>
     refs_ok (wx_userRefs c) (names subscriptionTargetUser (wx_subs c)) \<and> wx_customFeature c = wantsCustom (wx_subs c) \<and> list_all wf_sub (wx_subs c)"

text \<open>The first and the other element a removal keeps.\<close>

lemma removeFirst_split:
  "list_ex p xs \<Longrightarrow> \<exists>ys x zs. xs = ys @ x # zs \<and> p x \<and> removeFirst p xs = ys @ zs"
proof (induction xs)
  case (Cons x xs)
  show ?case
  proof (cases "p x")
    case True
    then show ?thesis by (intro exI [of _ "[]"] exI [of _ x] exI [of _ xs]) simp
  next
    case False
    then obtain ys y zs where "xs = ys @ y # zs" "p y" "removeFirst p xs = ys @ zs" using Cons by auto
    then show ?thesis using False by (intro exI [of _ "x # ys"] exI [of _ y] exI [of _ zs]) simp
  qed
qed simp

lemma recordSubscription_ok:
  assumes "tracked_ok c" "wf_sub sub" "recordSubscription sub c = ((sendSub, shouldSend), c')"
  shows "tracked_ok c' \<and> wx_subs c' = wx_subs c @ [sub] \<and> outside c' = outside c \<and>
    su_target sendSub = su_target sub \<and> set (assetIDsOrMarkets sendSub) \<subseteq> set (assetIDsOrMarkets sub) \<and>
    set (assetIDsOrMarkets sub) - set_mset (names (su_target sub) (wx_subs c)) \<subseteq> set (assetIDsOrMarkets sendSub) \<and>
    (\<not> shouldSend \<longrightarrow> set (assetIDsOrMarkets sub) \<subseteq> set_mset (names (su_target sub) (wx_subs c)))"
  using assms(2)
proof (cases rule: wf_subE)
  case (user ch ids)
  obtain fresh m where i: "incRefs ids (wx_userRefs c) = (fresh, m)" by fastforce
  have f: "refs_ok m (mset ids + names subscriptionTargetUser (wx_subs c))" "set fresh = set ids - set_mset (names subscriptionTargetUser (wx_subs c))"
    using incRefs_ok [OF _ i] assms(1) by (simp_all add: tracked_ok_def)
  show ?thesis
  proof (cases "ids = []")
    case True
    then show ?thesis using assms user by (auto simp: recordSubscription_def tracked_ok_def wantsCustom_def outside_def)
  next
    case False
    have r: "c' = c\<lparr>wx_subs := wx_subs c @ [sub], wx_userRefs := m\<rparr>" "sendSub = sub\<lparr>su_markets := fresh\<rparr>" "shouldSend = (fresh \<noteq> [])"
      using assms(3) user(1) False i by (simp_all add: recordSubscription_def)
    have "tracked_ok c'"
      using assms(1,2) f(1) user(1) unfolding r(1) by (simp add: tracked_ok_def wantsCustom_def add.commute)
    moreover have "assetIDsOrMarkets sendSub = fresh" "su_target sendSub = su_target sub"
      using r(2) user(1) by (simp_all add: assetIDsOrMarkets_def)
    ultimately show ?thesis
      using f(2) r(1,3) user(1) by (auto simp: outside_def)
  qed
next
  case (market ch ids d cu)
  obtain fresh m where i: "incRefs ids (wx_marketRefs c) = (fresh, m)" by fastforce
  have f: "refs_ok m (mset ids + names subscriptionTargetMarket (wx_subs c))" "set fresh = set ids - set_mset (names subscriptionTargetMarket (wx_subs c))"
    using incRefs_ok [OF _ i] assms(1) by (simp_all add: tracked_ok_def)
  have run: "recordSubscription sub c = ((sub\<lparr>su_assetIDs := (if cu \<and> fresh = [] then ids else fresh)\<rparr>, cu \<or> fresh \<noteq> []),
      c\<lparr>wx_subs := wx_subs c @ [sub], wx_marketRefs := m, wx_customFeature := (cu \<or> wx_customFeature c)\<rparr>)"
    using market(1,3) i by (cases c; cases cu; cases "fresh = []"; simp add: recordSubscription_def)
  have r: "c' = c\<lparr>wx_subs := wx_subs c @ [sub], wx_marketRefs := m, wx_customFeature := (cu \<or> wx_customFeature c)\<rparr>"
    "sendSub = sub\<lparr>su_assetIDs := (if cu \<and> fresh = [] then ids else fresh)\<rparr>" "shouldSend = (cu \<or> fresh \<noteq> [])"
    using assms(3) unfolding run by auto
  have "tracked_ok c'"
    using assms(1,2) f(1) market(1) unfolding r(1) by (auto simp: tracked_ok_def wantsCustom_def add.commute)
  moreover have "assetIDsOrMarkets sendSub = (if cu \<and> fresh = [] then ids else fresh)" "su_target sendSub = su_target sub"
    using r(2) market(1) by (simp_all add: assetIDsOrMarkets_def)
  ultimately show ?thesis
    using f(2) r(1,3) market(1) by (auto simp: outside_def)
qed

text \<open>Dropping the references of a subscription that has been taken from the list.\<close>

lemma decrement_ok:
  assumes "list_all wf_sub (ys @ zs)" "wf_sub sub"
    "refs_ok (wx_marketRefs c) (names subscriptionTargetMarket (ys @ sub # zs))" "refs_ok (wx_userRefs c) (names subscriptionTargetUser (ys @ sub # zs))"
    "mset (assetIDsOrMarkets sub') = mset (assetIDsOrMarkets sub)" "su_target sub' = su_target sub"
    "decrementSubscriptionRefsLocked sub' (c\<lparr>wx_subs := ys @ zs\<rparr>) = (gone, c')"
  shows "tracked_ok (recomputeCustomFeatureLocked c') \<and>
    wx_subs (recomputeCustomFeatureLocked c') = ys @ zs \<and> outside (recomputeCustomFeatureLocked c') = outside c \<and>
    set gone = set (assetIDsOrMarkets sub) - set_mset (names (su_target sub) (ys @ zs))"
proof (cases "su_target sub")
  case subscriptionTargetMarket
  obtain m where d: "decRefs (assetIDsOrMarkets sub') (wx_marketRefs c) = (gone, m)" "c' = c\<lparr>wx_subs := ys @ zs, wx_marketRefs := m\<rparr>"
    using assms(6,7) subscriptionTargetMarket by (auto simp: decrementSubscriptionRefsLocked_def assetIDsOrMarkets_def split: prod.splits)
  have "names subscriptionTargetMarket (ys @ sub # zs) = mset (assetIDsOrMarkets sub') + names subscriptionTargetMarket (ys @ zs)"
    using assms(5) subscriptionTargetMarket by simp
  from assms(3) [unfolded this] have "refs_ok m (names subscriptionTargetMarket (ys @ zs)) \<and> set gone = set (assetIDsOrMarkets sub') - set_mset (names subscriptionTargetMarket (ys @ zs))"
    by (rule decRefs_ok [OF _ d(1)])
  then show ?thesis
    using assms(1,4,5) d(2) subscriptionTargetMarket mset_eq_setD [OF assms(5)]
    by (auto simp: tracked_ok_def recomputeCustomFeatureLocked_def wantsCustom_def outside_def)
next
  case subscriptionTargetUser
  obtain u where d: "decRefs (assetIDsOrMarkets sub') (wx_userRefs c) = (gone, u)" "c' = c\<lparr>wx_subs := ys @ zs, wx_userRefs := u\<rparr>"
    using assms(6,7) subscriptionTargetUser by (auto simp: decrementSubscriptionRefsLocked_def assetIDsOrMarkets_def split: prod.splits)
  have "names subscriptionTargetUser (ys @ sub # zs) = mset (assetIDsOrMarkets sub') + names subscriptionTargetUser (ys @ zs)"
    using assms(5) subscriptionTargetUser by simp
  from assms(4) [unfolded this] have "refs_ok u (names subscriptionTargetUser (ys @ zs)) \<and> set gone = set (assetIDsOrMarkets sub') - set_mset (names subscriptionTargetUser (ys @ zs))"
    by (rule decRefs_ok [OF _ d(1)])
  then show ?thesis
    using assms(1,3,5) d(2) subscriptionTargetUser mset_eq_setD [OF assms(5)]
    by (auto simp: tracked_ok_def recomputeCustomFeatureLocked_def wantsCustom_def outside_def)
qed

lemma rollbackRecorded_ok:
  assumes "tracked_ok c" "wf_sub sub" "list_ex (sameSubscription sub) (wx_subs c)"
  shows "tracked_ok (rollbackRecordedSubscription sub c) \<and> outside (rollbackRecordedSubscription sub c) = outside c \<and>
    Suc (length (wx_subs (rollbackRecordedSubscription sub c))) = length (wx_subs c) \<and>
    names t (wx_subs c) = (if t = su_target sub then mset (assetIDsOrMarkets sub) else {#}) + names t (wx_subs (rollbackRecordedSubscription sub c))"
proof -
  obtain ys x zs where x: "wx_subs c = ys @ x # zs" "sameSubscription sub x" "removeFirst (sameSubscription sub) (wx_subs c) = ys @ zs"
    using removeFirst_split [OF assms(3)] by blast
  have wf: "list_all wf_sub (ys @ zs)" "wf_sub x" using assms(1) by (simp_all add: tracked_ok_def x(1))
  have n: "mset (assetIDsOrMarkets x) = mset (assetIDsOrMarkets sub)" "su_target x = su_target sub"
    using same_subscription_names [OF assms(2) wf(2)] x(2) by (simp_all add: sameSubscription_def)
  obtain gone c' where d: "decrementSubscriptionRefsLocked sub (c\<lparr>wx_subs := ys @ zs\<rparr>) = (gone, c')" by fastforce
  have "rollbackRecordedSubscription sub c = recomputeCustomFeatureLocked c'"
    by (simp add: rollbackRecordedSubscription_def removeOneSubscriptionLocked_def x(3) d)
  moreover have "refs_ok (wx_marketRefs c) (names subscriptionTargetMarket (ys @ x # zs))" "refs_ok (wx_userRefs c) (names subscriptionTargetUser (ys @ x # zs))"
    using assms(1) by (simp_all only: tracked_ok_def x(1))
  note D = decrement_ok [OF wf this n(1) [symmetric] n(2) [symmetric] d]
  have "names t (wx_subs c) = (if t = su_target sub then mset (assetIDsOrMarkets sub) else {#}) + names t (ys @ zs)"
    using n by (simp add: x(1))
  ultimately show ?thesis using D x(1) by simp
qed

lemma findRecorded_found:
  "findRecorded same channelType idx fallback subs = Some i \<Longrightarrow> fallback = Some i \<or> idx \<le> i \<and> i < idx + length subs \<and> same (subs ! (i - idx))"
proof (induction subs arbitrary: idx fallback)
  case (Cons sub subs)
  have "fallback = Some i \<or> i = idx \<and> same sub \<or> Suc idx \<le> i \<and> i < Suc idx + length subs \<and> same (subs ! (i - Suc idx))"
    using Cons.prems Cons.IH [of "Suc idx" fallback] Cons.IH [of "Suc idx" "if fallback = None then Some idx else fallback"]
    by (auto split: if_splits)
  moreover have "(sub # subs) ! (i - idx) = subs ! (i - Suc idx)" if "Suc idx \<le> i" using that by (simp add: nth_Cons' Suc_diff_le)
  ultimately show ?case by auto
qed simp

lemma removeRecorded_ok:
  assumes "tracked_ok c" "removeRecordedSubscription target channelType ids c = (found, c')"
  shows "tracked_ok c' \<and> outside c' = outside c \<and> (case found of
      None \<Rightarrow> c' = c
    | Some (sub, gone) \<Rightarrow> wf_sub sub \<and> su_target sub = target \<and>
        (\<forall>t. names t (wx_subs c) = (if t = target then mset (assetIDsOrMarkets sub) else {#}) + names t (wx_subs c')) \<and>
        set gone = set (assetIDsOrMarkets sub) - set_mset (names target (wx_subs c')))"
proof -
  let ?same = "\<lambda>sub. su_target sub = target \<and> su_key sub = subscriptionKey target ids"
  show ?thesis
  proof (cases "findRecorded ?same channelType 0 None (wx_subs c)")
    case None
    then show ?thesis using assms by (auto simp: removeRecordedSubscription_def)
  next
    case (Some i)
    have i: "i < length (wx_subs c)" "?same (wx_subs c ! i)" using findRecorded_found [OF Some] by auto
    define ys zs sub where d: "ys = take i (wx_subs c)" "zs = drop (Suc i) (wx_subs c)" "sub = wx_subs c ! i"
    have s: "wx_subs c = ys @ sub # zs" unfolding d using i(1) by (rule id_take_nth_drop)
    have wf: "list_all wf_sub (ys @ zs)" "wf_sub sub" using assms(1) by (simp_all add: tracked_ok_def s)
    obtain gone c1 where g: "decrementSubscriptionRefsLocked sub (c\<lparr>wx_subs := ys @ zs\<rparr>) = (gone, c1)" by fastforce
    have "found = Some (sub, gone)" "c' = recomputeCustomFeatureLocked c1"
      using assms(2) Some g by (auto simp: removeRecordedSubscription_def d [symmetric])
    moreover have "refs_ok (wx_marketRefs c) (names subscriptionTargetMarket (ys @ sub # zs))" "refs_ok (wx_userRefs c) (names subscriptionTargetUser (ys @ sub # zs))"
      using assms(1) by (simp_all only: tracked_ok_def s)
    note D = decrement_ok [OF wf this refl refl g]
    have "su_target sub = target" using i(2) by (simp add: d(3))
    moreover have "\<forall>t. names t (wx_subs c) = (if t = su_target sub then mset (assetIDsOrMarkets sub) else {#}) + names t (ys @ zs)" by (simp add: s)
    ultimately show ?thesis using D wf(2) by simp
  qed
qed

lemma rollbackRemoved_ok:
  assumes "tracked_ok c" "wf_sub sub"
  shows "tracked_ok (rollbackRemovedSubscription sub c) \<and> outside (rollbackRemovedSubscription sub c) = outside c \<and>
    wx_subs (rollbackRemovedSubscription sub c) = wx_subs c @ [sub]"
  using assms(2)
proof (cases rule: wf_subE)
  case (user ch ids)
  obtain fresh m where i: "incRefs ids (wx_userRefs c) = (fresh, m)" by fastforce
  have "refs_ok m (mset ids + names subscriptionTargetUser (wx_subs c))" using incRefs_ok [OF _ i] assms(1) by (simp add: tracked_ok_def)
  then show ?thesis
    using assms user(1) i
    by (simp add: rollbackRemovedSubscription_def tracked_ok_def recomputeCustomFeatureLocked_def wantsCustom_def outside_def add.commute)
next
  case (market ch ids d cu)
  obtain fresh m where i: "incRefs ids (wx_marketRefs c) = (fresh, m)" by fastforce
  have "refs_ok m (mset ids + names subscriptionTargetMarket (wx_subs c))" using incRefs_ok [OF _ i] assms(1) by (simp add: tracked_ok_def)
  then show ?thesis
    using assms market(1) i
    by (simp add: rollbackRemovedSubscription_def tracked_ok_def recomputeCustomFeatureLocked_def wantsCustom_def outside_def add.commute)
qed

section \<open>What the service knows\<close>

text \<open>The names a connection is subscribed to after a message.\<close>

fun served :: "subscriptionTarget \<Rightarrow> wsMessage \<Rightarrow> string set \<Rightarrow> string set" where
  "served subscriptionTargetMarket (MarketMessage m) S = (if ms_Operation m = ''subscribe'' then S \<union> set (ms_AssetIDs m) else S - set (ms_AssetIDs m))"
| "served subscriptionTargetUser (UserMessage m) S = (if us_Operation m = ''subscribe'' then S \<union> set (us_Markets m) else S - set (us_Markets m))"
| "served _ _ S = S"

lemma served_other [simp]:
  "t \<noteq> subscriptionTargetMarket \<Longrightarrow> served t (MarketMessage m) S = S" "t \<noteq> subscriptionTargetUser \<Longrightarrow> served t (UserMessage u) S = S"
  by (cases t; simp)+

definition wire :: "subscriptionTarget \<Rightarrow> nat \<Rightarrow> wsClient \<Rightarrow> string set" where
  "wire t k c = fold (\<lambda>(j, v). if j = k then served t v else id) (wx_sent c) {}"

text \<open>The effect of writing a message: it is written or not, and nothing else changes but the number of writes.\<close>

definition wrote :: "wsClient \<Rightarrow> unit result \<Rightarrow> (subscriptionTarget \<Rightarrow> string set \<Rightarrow> string set) \<Rightarrow> wsClient \<Rightarrow> bool" where
  "wrote c r effect c' \<longleftrightarrow>
     (\<exists>n. c' = c\<lparr>wx_ticks := n\<rparr> \<and> (\<exists>e. r = Inl e)) \<or>
     (\<exists>n k v. r = Inr () \<and> wx_conn c = Some k \<and> c' = c\<lparr>wx_ticks := n, wx_sent := wx_sent c @ [(k, v)]\<rparr> \<and> (\<forall>t S. served t v S = effect t S))"

lemma sendJSON_wrote: "sendJSON E v c = (r, c') \<Longrightarrow> wrote c r (\<lambda>t S. served t v S) c'"
  unfolding wrote_def
  by (cases "we_marshal E v"; cases "wx_conn c"; cases "we_write E (wx_ticks c) v"; cases c) (auto simp: sendJSON_def)

lemma deriveWSAuth_run: "deriveWSAuth c = (r, c') \<Longrightarrow> c' = c"
  by (auto simp: deriveWSAuth_def split: option.splits)

lemma wrote_fail: "wrote c (Inl e) effect c"
  unfolding wrote_def by (cases c) auto

lemma wrote_mono: "wrote c r effect c' \<Longrightarrow> (\<And>t S. effect t S = effect' t S) \<Longrightarrow> wrote c r effect' c'"
  by (simp add: wrote_def)

lemma userMessage_wrote:
  assumes "bindE deriveWSAuth (\<lambda>auth. sendJSON E (UserMessage (m auth))) c = (r, c')" "\<And>auth t S. served t (UserMessage (m auth)) S = effect t S"
  shows "wrote c r effect c'"
proof (cases "fst (deriveWSAuth c)")
  case (Inl e)
  then show ?thesis using assms(1) deriveWSAuth_run [of c] wrote_fail by (cases "deriveWSAuth c") (auto simp: bindE_def)
next
  case (Inr auth)
  then have "deriveWSAuth c = (Inr auth, c)" using deriveWSAuth_run by (metis prod.collapse)
  with assms(1) have "sendJSON E (UserMessage (m auth)) c = (r, c')" by (simp add: bindE_def)
  from sendJSON_wrote [OF this] show ?thesis by (rule wrote_mono) (rule assms(2))
qed

lemma replaySub_wrote:
  assumes "replaySub E sub c = (r, c')"
  shows "wrote c r (\<lambda>t S. if t = su_target sub then S \<union> set (assetIDsOrMarkets sub) else S) c'"
proof (cases "su_target sub")
  case subscriptionTargetMarket
  then have "sendMarketSubscribeMessage E sub c = (r, c')" using assms by (simp add: replaySub_def)
  from sendJSON_wrote [OF this [unfolded sendMarketSubscribeMessage_def]] show ?thesis
    by (rule wrote_mono) (use subscriptionTargetMarket in \<open>auto simp: assetIDsOrMarkets_def\<close>)
next
  case subscriptionTargetUser
  then have "sendUserSubscribeMessage E sub c = (r, c')" using assms by (simp add: replaySub_def)
  then show ?thesis
    unfolding sendUserSubscribeMessage_def by (rule userMessage_wrote) (use subscriptionTargetUser in \<open>auto simp: assetIDsOrMarkets_def\<close>)
qed

lemma sendUnsubscribe_wrote:
  assumes "sendUnsubscribeMessage E target ids c = (r, c')"
  shows "wrote c r (\<lambda>t S. if t = target then S - set ids else S) c'"
proof (cases target)
  case subscriptionTargetMarket
  then have "sendJSON E (MarketMessage \<lparr>ms_Type = ChannelMarket, ms_Operation = ''unsubscribe'', ms_Markets = [], ms_AssetIDs = ids,
      ms_InitialDump = False, ms_CustomFeatureEnabled = False\<rparr>) c = (r, c')"
    using assms by (simp add: sendUnsubscribeMessage_def)
  from sendJSON_wrote [OF this] show ?thesis
    by (rule wrote_mono) (use subscriptionTargetMarket in auto)
next
  case subscriptionTargetUser
  then have "bindE deriveWSAuth (\<lambda>auth. sendJSON E (UserMessage
      \<lparr>us_Type = ChannelUser, us_Auth = auth, us_Markets = ids, us_Operation = ''unsubscribe'', us_InitialDump = False\<rparr>)) c = (r, c')"
    using assms by (simp add: sendUnsubscribeMessage_def)
  then show ?thesis
    by (rule userMessage_wrote) (use subscriptionTargetUser in auto)
qed

section \<open>The service knows what is asked for\<close>

text \<open>
  On a connection on which no replay has failed, the service has exactly the names the recorded subscriptions ask for.
\<close>

definition wire_ok :: "wsClient \<Rightarrow> bool" where
  "wire_ok c \<longleftrightarrow> (\<forall>k. wx_conn c = Some k \<longrightarrow> (\<forall>e. (k, e) \<notin> set (wx_errs c)) \<longrightarrow> (\<forall>t. wire t k c = set_mset (names t (wx_subs c))))"

definition numbered :: "wsClient \<Rightarrow> bool" where
  "numbered c \<longleftrightarrow> (\<forall>p \<in> set (wx_sent c). fst p < wx_conns c) \<and> (\<forall>p \<in> set (wx_errs c). fst p < wx_conns c) \<and>
     (\<forall>k. wx_conn c = Some k \<longrightarrow> k < wx_conns c)"

definition ws_inv :: "wsClient \<Rightarrow> bool" where
  "ws_inv c \<longleftrightarrow> tracked_ok c \<and> wire_ok c \<and> numbered c"

lemma outside_wire: "outside c' = outside c \<Longrightarrow> wire t k c' = wire t k c \<and> numbered c' = numbered c"
  by (simp add: outside_def wire_def numbered_def)

lemma outside_wire_ok: "outside c' = outside c \<Longrightarrow> (\<And>t. set_mset (names t (wx_subs c')) = set_mset (names t (wx_subs c))) \<Longrightarrow> wire_ok c' = wire_ok c"
  by (simp add: outside_def wire_ok_def wire_def)

lemma wire_write:
  "wire t k (c\<lparr>wx_ticks := n, wx_sent := wx_sent c @ [(k, v)]\<rparr>) = served t v (wire t k c)"
  by (simp add: wire_def)

lemma numbered_write: "wx_conn c = Some k \<Longrightarrow> numbered c \<Longrightarrow> numbered (c\<lparr>wx_ticks := n, wx_sent := wx_sent c @ [(k, v)]\<rparr>)"
  by (simp add: numbered_def)

lemma wrote_cases:
  assumes "wrote c r effect c'"
  obtains (failed) e n where "r = Inl e" "c' = c\<lparr>wx_ticks := n\<rparr>"
  | (written) k v n where "r = Inr ()" "wx_conn c = Some k" "c' = c\<lparr>wx_ticks := n, wx_sent := wx_sent c @ [(k, v)]\<rparr>"
    "\<And>t. wire t k c' = effect t (wire t k c)" "numbered c \<Longrightarrow> numbered c'"
  using assms unfolding wrote_def
proof (elim disjE exE conjE)
  fix n k v
  assume w: "r = Inr ()" "wx_conn c = Some k" "c' = c\<lparr>wx_ticks := n, wx_sent := wx_sent c @ [(k, v)]\<rparr>" "\<forall>t S. served t v S = effect t S"
  have "wire t k c' = effect t (wire t k c)" for t unfolding w(3) wire_write using w(4) by blast
  moreover have "numbered c \<Longrightarrow> numbered c'" unfolding w(3) by (rule numbered_write [OF w(2)])
  ultimately show thesis by (rule written [OF w(1-3)])
qed (rule failed)

lemma ticks_frame [simp]:
  "tracked_ok (c\<lparr>wx_ticks := n\<rparr>) = tracked_ok c" "wire_ok (c\<lparr>wx_ticks := n\<rparr>) = wire_ok c" "numbered (c\<lparr>wx_ticks := n\<rparr>) = numbered c"
  "tracked_ok (c\<lparr>wx_ticks := n, wx_sent := l\<rparr>) = tracked_ok c"
  by (simp_all add: tracked_ok_def wire_ok_def wire_def numbered_def)

lemma addAndSend_inv:
  assumes "ws_inv c" "wf_sub sub" "addAndSend E sub c = (r, c')"
  shows "ws_inv c' \<and> length (wx_subs c') = (if r = Inr () then 1 else 0) + length (wx_subs c) \<and>
    names t (wx_subs c') = (if r = Inr () \<and> t = su_target sub then mset (assetIDsOrMarkets sub) else {#}) + names t (wx_subs c)"
proof (cases "isUser (su_target sub) \<or> assetIDsOrMarkets sub \<noteq> []")
  case False
  then show ?thesis using assms(1,3) by (auto simp: addAndSend_def validateSubscriptionInput_def bindE_def)
next
  case True
  obtain sendSub shouldSend c1 where r1: "recordSubscription sub c = ((sendSub, shouldSend), c1)" by (metis prod.exhaust)
  note R = recordSubscription_ok [OF _ assms(2) r1]
  have inv: "tracked_ok c" "wire_ok c" "numbered c" using assms(1) by (simp_all add: ws_inv_def)
  have n1: "names u (wx_subs c1) = (if u = su_target sub then mset (assetIDsOrMarkets sub) else {#}) + names u (wx_subs c)" for u
    using R [OF inv(1)] by (simp add: add.commute)
  have o1: "outside c1 = outside c" "tracked_ok c1" "numbered c1" using R [OF inv(1)] outside_wire inv(3) by blast+
  have run: "(r, c') = (if \<not> shouldSend then (Inr (), c1) else case replaySub E sendSub c1 of (Inr _, c) \<Rightarrow> (Inr (), c) | (Inl e, c) \<Rightarrow> (Inl e, rollbackRecordedSubscription sub c))"
    using assms(3) True r1 by (auto simp: addAndSend_def validateSubscriptionInput_def bindE_def)
  show ?thesis
  proof (cases shouldSend)
    case False
    then have "set_mset (names u (wx_subs c1)) = set_mset (names u (wx_subs c))" for u using R [OF inv(1)] by (auto simp: n1)
    then have "wire_ok c1" using outside_wire_ok [OF o1(1)] inv(2) by simp
    then show ?thesis using run False o1 n1 R [OF inv(1)] by (simp add: ws_inv_def)
  next
    case True
    obtain r2 c2 where r2: "replaySub E sendSub c1 = (r2, c2)" by fastforce
    from replaySub_wrote [OF r2] show ?thesis
    proof (cases rule: wrote_cases)
      case (failed e n)
      have l: "list_ex (sameSubscription sub) (wx_subs c2)" "tracked_ok c2" using R [OF inv(1)] failed by (auto simp: sameSubscription_def)
      note B = rollbackRecorded_ok [OF l(2) assms(2) l(1)]
      have e: "r = Inl e" "c' = rollbackRecordedSubscription sub c2" using run True r2 failed(1) by simp_all
      have nm: "names u (wx_subs c') = names u (wx_subs c)" for u using B [of u] n1 [of u] failed(2) e(2) by (auto split: if_splits)
      have "outside c' = outside c2" using B e(2) by simp
      then have "wire_ok c'" "numbered c'"
        using outside_wire_ok [of c' "c\<lparr>wx_ticks := n\<rparr>"] outside_wire [of c' "c\<lparr>wx_ticks := n\<rparr>"] o1(1) inv failed(2) nm by (simp_all add: outside_def)
      then show ?thesis using B e nm failed(2) R [OF inv(1)] by (simp add: ws_inv_def)
    next
      case (written k v n)
      have e: "r = Inr ()" "c' = c2" using run True r2 written(1) by simp_all
      have "wire_ok c'"
        unfolding wire_ok_def
      proof (intro allI impI)
        fix j u
        assume "wx_conn c' = Some j" "\<forall>e. (j, e) \<notin> set (wx_errs c')"
        then have j: "j = k" "wire u k c = set_mset (names u (wx_subs c))"
          using written(2,3) e(2) o1(1) inv(2) by (auto simp: wire_ok_def outside_def)
        have "wire u k c1 = wire u k c" using outside_wire [OF o1(1)] by simp
        then show "wire u j c' = set_mset (names u (wx_subs c'))"
          using j written(3,4) e(2) R [OF inv(1)] n1 [of u] by auto
      qed
      then show ?thesis using e written(3,5) o1 n1 R [OF inv(1)] by (simp add: ws_inv_def)
    qed
  qed
qed

lemma removeAndSend_inv:
  assumes "ws_inv c" "removeAndSend E channelType ids c = (r, c')"
  shows "ws_inv c'"
proof -
  define target where "target = (if isUserChannel channelType then subscriptionTargetUser else subscriptionTargetMarket)"
  obtain found c1 where f: "removeRecordedSubscription target channelType ids c = (found, c1)" by fastforce
  have inv: "tracked_ok c" "wire_ok c" "numbered c" using assms(1) by (simp_all add: ws_inv_def)
  note R = removeRecorded_ok [OF inv(1) f]
  have o1: "tracked_ok c1" "outside c1 = outside c" "numbered c1" using R inv(3) outside_wire by blast+
  consider e where "validateSubscriptionInput target ids = Inl e" | "found = None"
    | u p where "validateSubscriptionInput target ids = Inr u" "found = Some p" by (metis old.sum.exhaust option.exhaust)
  then show ?thesis
  proof cases
    fix e
    assume "validateSubscriptionInput target ids = Inl e"
    then show ?thesis using assms by (auto simp: removeAndSend_def target_def bindE_def)
  next
    assume "found = None"
    then show ?thesis
      using assms f R by (auto simp: removeAndSend_def target_def [symmetric] bindE_def Let_def split: sum.splits)
  next
    fix u p
    assume v: "validateSubscriptionInput target ids = Inr u" and "found = Some p"
    obtain sub gone where p: "found = Some (sub, gone)" using \<open>found = Some p\<close> by (cases p) auto
    have run: "(r, c') = (if gone = [] then (Inr (), c1) else case sendUnsubscribeMessage E target gone c1 of
        (Inr _, c) \<Rightarrow> (Inr (), c) | (Inl e, c) \<Rightarrow> (Inl e, rollbackRemovedSubscription sub c))"
      using assms(2) v f p by (simp add: removeAndSend_def target_def [symmetric] bindE_def Let_def)
    have n1: "names t (wx_subs c) = (if t = target then mset (assetIDsOrMarkets sub) else {#}) + names t (wx_subs c1)" for t using R p by simp
    have g: "set gone = set (assetIDsOrMarkets sub) - set_mset (names target (wx_subs c1))" "wf_sub sub" "su_target sub = target" using R p by simp_all
    have left: "set_mset (names t (wx_subs c1)) = set_mset (names t (wx_subs c)) - (if t = target then set gone else {})" for t
      using n1 [of t] g(1) by auto
    show ?thesis
    proof (cases "gone = []")
      case True
      then have "wire_ok c1" using outside_wire_ok [OF o1(2)] inv(2) left by simp
      then show ?thesis using run True o1 by (simp add: ws_inv_def)
    next
      case False
      obtain r2 c2 where r2: "sendUnsubscribeMessage E target gone c1 = (r2, c2)" by fastforce
      from sendUnsubscribe_wrote [OF r2] show ?thesis
      proof (cases rule: wrote_cases)
        case (failed e n)
        have e: "c' = rollbackRemovedSubscription sub c2" using run False r2 failed(1) by simp
        have "tracked_ok c2" using o1(1) failed(2) by simp
        note B = rollbackRemoved_ok [OF this g(2)]
        have "set_mset (names t (wx_subs c')) = set_mset (names t (wx_subs c))" for t
          using B n1 [of t] g(3) failed(2) e by (simp add: Un_commute)
        then have "wire_ok c'" "numbered c'"
          using outside_wire_ok [of c' "c\<lparr>wx_ticks := n\<rparr>"] outside_wire [of c' "c\<lparr>wx_ticks := n\<rparr>"] B e o1(2) inv failed(2) by (simp_all add: outside_def)
        then show ?thesis using B e by (simp add: ws_inv_def)
      next
        case (written k v n)
        have e: "c' = c2" using run False r2 written(1) by simp
        have "wire_ok c'"
          unfolding wire_ok_def
        proof (intro allI impI)
          fix j t
          assume "wx_conn c' = Some j" "\<forall>e. (j, e) \<notin> set (wx_errs c')"
          then have j: "j = k" "wire t k c = set_mset (names t (wx_subs c))"
            using written(2,3) e o1(2) inv(2) by (auto simp: wire_ok_def outside_def)
          have "wire t k c1 = wire t k c" using outside_wire [OF o1(2)] by simp
          then show "wire t j c' = set_mset (names t (wx_subs c'))" using j written(3,4) e left [of t] by (cases "t = target") simp_all
        qed
        then show ?thesis using e written(3,5) o1 by (simp add: ws_inv_def)
      qed
    qed
  qed
qed

text \<open>A replay: the names of its target are known to the service afterwards, or an error of this connection has been reported.\<close>

lemma replayOrReport_run:
  assumes "tracked_ok c" "numbered c" "wx_conn c = Some k" "c' = replayOrReport E what sub c"
  shows "tracked_ok c' \<and> numbered c' \<and> wx_conn c' = Some k \<and> wx_subs c' = wx_subs c \<and> wx_marketRefs c' = wx_marketRefs c \<and> wx_userRefs c' = wx_userRefs c \<and>
    set (wx_errs c) \<subseteq> set (wx_errs c') \<and>
    ((\<exists>e. (k, e) \<in> set (wx_errs c')) \<or> (\<forall>t. wire t k c' = (if t = su_target sub then wire t k c \<union> set (assetIDsOrMarkets sub) else wire t k c)))"
proof -
  obtain r c1 where r: "replaySub E sub c = (r, c1)" by fastforce
  from replaySub_wrote [OF r] show ?thesis
  proof (cases rule: wrote_cases)
    case (failed e n)
    then show ?thesis using assms r by (auto simp: replayOrReport_def tracked_ok_def numbered_def)
  next
    case (written j v n)
    have "c' = c1" using assms(4) r written(1) by (simp add: replayOrReport_def)
    then show ?thesis using assms(1-3) written by (auto simp: tracked_ok_def)
  qed
qed

lemma all_targets: "(\<forall>t. P t) \<longleftrightarrow> P subscriptionTargetMarket \<and> P subscriptionTargetUser"
  by (metis subscriptionTarget.exhaust)

lemma no_names: "\<not> list_ex (\<lambda>sub. su_target sub = t) subs \<Longrightarrow> names t subs = {#}"
  by (induction subs) auto

lemma replay_inv:
  assumes "tracked_ok c" "numbered c" "wx_conn c = Some k" "\<And>t. wire t k c = {}" "\<And>e. (k, e) \<notin> set (wx_errs c)"
  shows "ws_inv (replayTrackedSubscriptions E c)"
proof (cases "wx_subs c = []")
  case True
  then show ?thesis using assms by (auto simp: replayTrackedSubscriptions_def ws_inv_def wire_ok_def)
next
  case False
  define market where "market = \<lparr>su_target = subscriptionTargetMarket, su_channelType = [], su_key = [], su_assetIDs = sort (map fst (wx_marketRefs c)),
    su_markets = [], su_initialDump = list_ex (\<lambda>sub. \<not> isUser (su_target sub) \<and> su_initialDump sub) (wx_subs c), su_customFeatureEnabled = wx_customFeature c\<rparr>"
  define user where "user = \<lparr>su_target = subscriptionTargetUser, su_channelType = [], su_key = [], su_assetIDs = [], su_markets = sort (map fst (wx_userRefs c)),
    su_initialDump = False, su_customFeatureEnabled = False\<rparr>"
  define c1 where "c1 = (if list_ex (\<lambda>sub. \<not> isUser (su_target sub)) (wx_subs c) then replayOrReport E ''resubscribe market'' market c else c)"
  define c2 where "c2 = (if list_ex (\<lambda>sub. isUser (su_target sub)) (wx_subs c) then replayOrReport E ''resubscribe user'' user c1 else c1)"
  have c2: "replayTrackedSubscriptions E c = c2"
    using False by (simp add: replayTrackedSubscriptions_def c2_def c1_def market_def user_def Let_def)
  have m: "su_target market = subscriptionTargetMarket" "set (assetIDsOrMarkets market) = set_mset (names subscriptionTargetMarket (wx_subs c))"
    "su_target user = subscriptionTargetUser" "set (assetIDsOrMarkets user) = set_mset (names subscriptionTargetUser (wx_subs c))"
    using assms(1) refs_ok_keys by (auto simp: market_def user_def assetIDsOrMarkets_def tracked_ok_def)
  have t: "(\<not> isUser (su_target sub)) = (su_target sub = subscriptionTargetMarket)" "isUser (su_target sub) = (su_target sub = subscriptionTargetUser)" for sub
    by (auto simp: isUser_def intro: subscriptionTarget.exhaust)
  have one: "tracked_ok c1 \<and> numbered c1 \<and> wx_conn c1 = Some k \<and> wx_subs c1 = wx_subs c \<and>
      ((\<exists>e. (k, e) \<in> set (wx_errs c1)) \<or> (\<forall>t. wire t k c1 = (if t = subscriptionTargetMarket then set_mset (names t (wx_subs c)) else {})))"
    using replayOrReport_run [OF assms(1-3), of c1 E "''resubscribe market''" market] assms m(1,2) no_names [of subscriptionTargetMarket "wx_subs c"]
    by (auto simp: c1_def t(1) all_targets)
  have two: "tracked_ok c2 \<and> numbered c2 \<and> wx_conn c2 = Some k \<and> wx_subs c2 = wx_subs c \<and>
      ((\<exists>e. (k, e) \<in> set (wx_errs c2)) \<or> (\<forall>t. wire t k c2 = set_mset (names t (wx_subs c))))"
  proof (cases "list_ex (\<lambda>sub. isUser (su_target sub)) (wx_subs c)")
    case True
    have "c2 = replayOrReport E ''resubscribe user'' user c1" using True by (simp add: c2_def)
    note R = replayOrReport_run [OF _ _ _ this, of k]
    then show ?thesis using one m(3,4) by (auto simp: all_targets dest: subsetD)
  next
    case False
    then show ?thesis using one no_names [of subscriptionTargetUser "wx_subs c"] by (auto simp: c2_def t(2) all_targets)
  qed
  then show ?thesis unfolding c2 by (auto simp: ws_inv_def wire_ok_def)
qed

section \<open>Sequences of calls\<close>

datatype wsCommand =
    Subscribe subscription
  | Unsubscribe string "string list"
  | Connect "go_error option"
  | Disconnect nat
  | SetCredentials Credentials
  | CloseClient

fun ws_exec :: "wsEnv \<Rightarrow> wsCommand \<Rightarrow> wsClient \<Rightarrow> wsClient" where
  "ws_exec E (Subscribe sub) c = snd (addAndSend E sub c)"
| "ws_exec E (Unsubscribe channelType ids) c = snd (removeAndSend E channelType ids c)"
| "ws_exec E (Connect dial) c = snd (connect E dial c)"
| "ws_exec E (Disconnect k) c = markDisconnected k c"
| "ws_exec E (SetCredentials creds) c = WithCredentials creds c"
| "ws_exec E CloseClient c = closeClient c"

definition wf_command :: "wsCommand \<Rightarrow> bool" where
  "wf_command cmd \<longleftrightarrow> (case cmd of Subscribe sub \<Rightarrow> wf_sub sub | _ \<Rightarrow> True)"

lemma connect_inv:
  assumes "ws_inv c"
  shows "ws_inv (snd (connect E dial c))"
proof (cases "wx_closed c \<or> dial \<noteq> None \<or> wx_conn c \<noteq> None")
  case True
  then show ?thesis using assms by (auto simp: connect_def split: option.splits)
next
  case False
  let ?c = "c\<lparr>wx_conn := Some (wx_conns c), wx_conns := Suc (wx_conns c)\<rparr>"
  have i: "tracked_ok c" "numbered c" using assms by (simp_all add: ws_inv_def)
  have "fold (\<lambda>(j, v). if j = wx_conns c then served t v else id) xs S = S" if "\<forall>p \<in> set xs. fst p < wx_conns c" for t S xs
    using that by (induction xs) auto
  then have "wire t (wx_conns c) ?c = {}" for t using i(2) by (simp add: wire_def numbered_def)
  moreover have "tracked_ok ?c" "numbered ?c" "\<And>e. (wx_conns c, e) \<notin> set (wx_errs ?c)" using i by (auto simp: tracked_ok_def numbered_def)
  ultimately have "ws_inv (replayTrackedSubscriptions E ?c)" by (intro replay_inv) simp_all
  then show ?thesis using False by (simp add: connect_def)
qed

lemma ws_exec_inv: "ws_inv c \<Longrightarrow> wf_command cmd \<Longrightarrow> ws_inv (ws_exec E cmd c)"
proof (cases cmd)
  case (Subscribe sub)
  assume "ws_inv c" "wf_command cmd"
  then show ?thesis using addAndSend_inv [of c sub E "fst (addAndSend E sub c)" "snd (addAndSend E sub c)"] Subscribe by (simp add: wf_command_def)
next
  case (Unsubscribe channelType ids)
  assume "ws_inv c"
  then show ?thesis using removeAndSend_inv [of c E channelType ids "fst (removeAndSend E channelType ids c)" "snd (removeAndSend E channelType ids c)"] Unsubscribe by simp
next
  case (Disconnect k)
  assume "ws_inv c"
  then show ?thesis using Disconnect by (auto simp: ws_inv_def tracked_ok_def wire_ok_def numbered_def markDisconnected_def)
next
  case (SetCredentials creds)
  assume "ws_inv c"
  then show ?thesis using SetCredentials by (simp add: WithCredentials_def ws_inv_def tracked_ok_def wire_ok_def wire_def numbered_def)
next
  case CloseClient
  assume "ws_inv c"
  then show ?thesis using CloseClient by (simp add: closeClient_def ws_inv_def tracked_ok_def wire_ok_def wire_def numbered_def)
qed (simp add: connect_inv)

lemma ws_inv_init: "ws_inv (newWsClient creds)"
  by (simp add: ws_inv_def newWsClient_def tracked_ok_def refs_ok_def wantsCustom_def wire_ok_def numbered_def)

lemma ws_run_inv: "list_all wf_command cmds \<Longrightarrow> ws_inv (fold (ws_exec E) cmds (newWsClient creds))"
proof -
  have "list_all wf_command cmds \<Longrightarrow> ws_inv c \<Longrightarrow> ws_inv (fold (ws_exec E) cmds c)" for c
    by (induction cmds arbitrary: c) (auto simp: ws_exec_inv)
  then show "list_all wf_command cmds \<Longrightarrow> ?thesis" using ws_inv_init by blast
qed

lemma wf_methods:
  "clean ids \<Longrightarrow> ids \<noteq> [] \<Longrightarrow> (ch, d, cu) \<in> set marketChannels \<Longrightarrow> wf_sub (newMarketSubscription ch ids d cu)"
  "clean ids \<Longrightarrow> ch \<in> set userChannels \<Longrightarrow> wf_sub (newUserSubscription ch ids)"
  by (auto simp: wf_sub_def)

section \<open>Calls that interleave\<close>

text \<open>
  Calls of \<open>addAndSend\<close> and \<open>removeAndSend\<close> from several goroutines: each is a sequence of a critical section, a write, and a second critical section if the write fails, and between
  these any other call may run.  A call waits for its write, or for the section that undoes its record, or has returned.
\<close>

datatype subCall =
    Recorded subscription subscription
  | Failing subscription go_error
  | Removed subscription "string list"
  | Unremoving subscription go_error
  | Returned "unit result"

definition startSubscribe :: "subscription \<Rightarrow> wsClient \<Rightarrow> subCall \<times> wsClient" where
  "startSubscribe sub c = (case validateSubscriptionInput (su_target sub) (assetIDsOrMarkets sub) of
       Inl e \<Rightarrow> (Returned (Inl e), c)
     | Inr _ \<Rightarrow> (case recordSubscription sub c of ((sendSub, shouldSend), c) \<Rightarrow> (if shouldSend then Recorded sub sendSub else Returned (Inr ()), c)))"

definition startUnsubscribe :: "string \<Rightarrow> string list \<Rightarrow> wsClient \<Rightarrow> subCall \<times> wsClient" where
  "startUnsubscribe channelType ids c =
     (let target = (if isUserChannel channelType then subscriptionTargetUser else subscriptionTargetMarket) in
      case validateSubscriptionInput target ids of
        Inl e \<Rightarrow> (Returned (Inl e), c)
      | Inr _ \<Rightarrow> (case removeRecordedSubscription target channelType ids c of
            (None, c) \<Rightarrow> (Returned (Inr ()), c)
          | (Some (removedSub, toUnsubscribe), c) \<Rightarrow> (if toUnsubscribe = [] then Returned (Inr ()) else Removed removedSub toUnsubscribe, c)))"

fun proceed :: "wsEnv \<Rightarrow> subCall \<Rightarrow> wsClient \<Rightarrow> subCall \<times> wsClient" where
  "proceed E (Recorded sub sendSub) c = (case replaySub E sendSub c of (Inr _, c) \<Rightarrow> (Returned (Inr ()), c) | (Inl e, c) \<Rightarrow> (Failing sub e, c))"
| "proceed E (Failing sub e) c = (Returned (Inl e), rollbackRecordedSubscription sub c)"
| "proceed E (Removed sub gone) c = (case sendUnsubscribeMessage E (su_target sub) gone c of (Inr _, c) \<Rightarrow> (Returned (Inr ()), c) | (Inl e, c) \<Rightarrow> (Unremoving sub e, c))"
| "proceed E (Unremoving sub e) c = (Returned (Inl e), rollbackRemovedSubscription sub c)"
| "proceed E (Returned r) c = (Returned r, c)"

text \<open>What happens next: a call starts, a call goes on, or another operation of the client runs.\<close>

datatype callEvent = StartSubscribe subscription | StartUnsubscribe string "string list" | Proceed nat | Operation wsCommand

fun call_exec :: "wsEnv \<Rightarrow> callEvent \<Rightarrow> wsClient \<times> subCall list \<Rightarrow> wsClient \<times> subCall list" where
  "call_exec E (StartSubscribe sub) (c, ps) = (case startSubscribe sub c of (p, c) \<Rightarrow> (c, ps @ [p]))"
| "call_exec E (StartUnsubscribe channelType ids) (c, ps) = (case startUnsubscribe channelType ids c of (p, c) \<Rightarrow> (c, ps @ [p]))"
| "call_exec E (Proceed i) (c, ps) = (if i < length ps then case proceed E (ps ! i) c of (p, c) \<Rightarrow> (c, ps[i := p]) else (c, ps))"
| "call_exec E (Operation cmd) (c, ps) = (ws_exec E cmd c, ps)"

definition wf_event :: "callEvent \<Rightarrow> bool" where
  "wf_event ev \<longleftrightarrow> (case ev of StartSubscribe sub \<Rightarrow> wf_sub sub | Operation cmd \<Rightarrow> wf_command cmd | _ \<Rightarrow> True)"

text \<open>A call that is not interrupted is the method.\<close>

lemma subscribe_uninterrupted:
  "(case startSubscribe sub c of (p, c) \<Rightarrow> case proceed E p c of (p, c) \<Rightarrow> proceed E p c) = (Returned (fst (addAndSend E sub c)), snd (addAndSend E sub c))"
  by (auto simp: startSubscribe_def addAndSend_def bindE_def lift_def split: sum.splits prod.splits)

lemma removeRecorded_target:
  assumes "removeRecordedSubscription target channelType ids c = (Some (sub, gone), c')"
  shows "su_target sub = target"
proof -
  let ?same = "\<lambda>sub. su_target sub = target \<and> su_key sub = subscriptionKey target ids"
  obtain i where i: "findRecorded ?same channelType 0 None (wx_subs c) = Some i" "sub = wx_subs c ! i"
    using assms by (auto simp: removeRecordedSubscription_def Let_def split: option.splits prod.splits)
  then show ?thesis using findRecorded_found [OF i(1)] by simp
qed

lemma unsubscribe_uninterrupted:
  "(case startUnsubscribe channelType ids c of (p, c) \<Rightarrow> case proceed E p c of (p, c) \<Rightarrow> proceed E p c) =
     (Returned (fst (removeAndSend E channelType ids c)), snd (removeAndSend E channelType ids c))"
  by (auto simp: startUnsubscribe_def removeAndSend_def bindE_def lift_def Let_def dest: removeRecorded_target split: sum.splits prod.splits option.splits)

subsection \<open>Counters in every interleaving\<close>

text \<open>The counters of a map are positive and bounded by a multiset of names.\<close>

definition refs_le :: "refs \<Rightarrow> string multiset \<Rightarrow> bool" where
  "refs_le m M \<longleftrightarrow> (\<forall>k. refCount m k \<le> count M k \<and> map_of m k \<noteq> Some 0)"

lemma refCount_update [simp]: "refCount (AList.update k n m) j = (if j = k then n else refCount m j)"
  by (simp add: refCount_def update_conv')

lemma refCount_delete [simp]: "refCount (AList.delete k m) j = (if j = k then 0 else refCount m j)"
  by (simp add: refCount_def delete_conv')

lemma incRefs_count: "refCount (snd (incRefs ks m)) j = refCount m j + count (mset ks) j"
  by (induction ks arbitrary: m) (simp_all add: case_prod_beta Let_def)

lemma decRefs_count: "refCount (snd (decRefs ks m)) j = refCount m j - count (mset ks) j"
proof (induction ks arbitrary: m)
  case (Cons k ks)
  then show ?case by (cases "refCount m k \<le> 1") (auto simp: case_prod_beta Let_def)
qed simp

lemma incRefs_pos: "(\<And>k. map_of m k \<noteq> Some 0) \<Longrightarrow> map_of (snd (incRefs ks m)) j \<noteq> Some 0"
  by (induction ks arbitrary: m) (simp_all add: case_prod_beta Let_def update_conv')

lemma decRefs_pos: "(\<And>k. map_of m k \<noteq> Some 0) \<Longrightarrow> map_of (snd (decRefs ks m)) j \<noteq> Some 0"
proof (induction ks arbitrary: m)
  case (Cons k ks)
  have "\<And>j. map_of (AList.delete k m) j \<noteq> Some 0" "\<not> refCount m k \<le> 1 \<Longrightarrow> (\<And>j. map_of (AList.update k (refCount m k - 1) m) j \<noteq> Some 0)"
    using Cons.prems by (auto simp: delete_conv' update_conv')
  then show ?case using Cons.IH by (simp add: case_prod_beta Let_def)
qed simp

lemma refs_le_inc: "refs_le m M \<Longrightarrow> refs_le (snd (incRefs ks m)) (M + mset ks)"
  using incRefs_pos by (auto simp: refs_le_def incRefs_count)

lemma refs_le_dec: "refs_le m (mset ks + M) \<Longrightarrow> refs_le (snd (decRefs ks m)) M"
  using decRefs_pos by (auto simp: refs_le_def decRefs_count le_diff_conv add.commute)

lemma refs_le_mono: "refs_le m M \<Longrightarrow> M \<subseteq># N \<Longrightarrow> refs_le m N"
  by (auto simp: refs_le_def subseteq_mset_def intro: le_trans)

lemma refs_le_keys: "refs_le m M \<Longrightarrow> fst ` set m \<subseteq> set_mset M"
proof
  fix a
  assume m: "refs_le m M" "a \<in> fst ` set m"
  then obtain n where "map_of m a = Some n" "n \<noteq> 0" by (metis map_of_eq_None_iff not_None_eq refs_le_def)
  then have "0 < refCount m a" by (simp add: refCount_def)
  then show "a \<in># M" using m(1) by (metis count_greater_zero_iff less_le_trans refs_le_def)
qed

definition bounded :: "wsClient \<Rightarrow> bool" where
  "bounded c \<longleftrightarrow> refs_le (wx_marketRefs c) (names subscriptionTargetMarket (wx_subs c)) \<and> refs_le (wx_userRefs c) (names subscriptionTargetUser (wx_subs c)) \<and> list_all wf_sub (wx_subs c)"

fun wf_call :: "subCall \<Rightarrow> bool" where
  "wf_call (Recorded sub sendSub) = wf_sub sub"
| "wf_call (Failing sub e) = wf_sub sub"
| "wf_call (Removed sub gone) = wf_sub sub"
| "wf_call (Unremoving sub e) = wf_sub sub"
| "wf_call (Returned r) = True"

text \<open>The three effects on the records: a subscription with its references comes, its references go with a record of the same names, and they go alone.\<close>

lemma bounded_frame:
  "bounded c \<Longrightarrow> wx_subs c' = wx_subs c \<Longrightarrow> wx_marketRefs c' = wx_marketRefs c \<Longrightarrow> wx_userRefs c' = wx_userRefs c \<Longrightarrow> bounded c'"
  by (simp add: bounded_def)

lemma bounded_record:
  assumes "bounded c" "wf_sub sub" "recordSubscription sub c = (x, c')"
  shows "bounded c'"
  using assms(2)
proof (cases rule: wf_subE)
  case (user ch ids)
  note L = refs_le_inc [of "wx_userRefs c" _ ids]
  show ?thesis using assms user L
    by (auto simp: recordSubscription_def bounded_def case_prod_beta Let_def split: if_splits)
next
  case (market ch ids d cu)
  note L = refs_le_inc [of "wx_marketRefs c" _ ids]
  show ?thesis using assms market L
    by (auto simp: recordSubscription_def bounded_def case_prod_beta Let_def split: if_splits)
qed

lemma bounded_rollbackRemoved:
  assumes "bounded c" "wf_sub sub"
  shows "bounded (rollbackRemovedSubscription sub c)"
  using assms(2)
proof (cases rule: wf_subE)
  case (user ch ids)
  show ?thesis using assms user refs_le_inc [of "wx_userRefs c" _ ids]
    by (auto simp: rollbackRemovedSubscription_def recomputeCustomFeatureLocked_def bounded_def Let_def)
next
  case (market ch ids d cu)
  show ?thesis using assms market refs_le_inc [of "wx_marketRefs c" _ ids]
    by (auto simp: rollbackRemovedSubscription_def recomputeCustomFeatureLocked_def bounded_def Let_def)
qed

lemma bounded_decrement:
  assumes "refs_le (wx_marketRefs c) (names subscriptionTargetMarket subs)" "refs_le (wx_userRefs c) (names subscriptionTargetUser subs)" "list_all wf_sub subs'"
    "\<And>t. names t subs \<subseteq># (if su_target sub = t then mset (assetIDsOrMarkets sub) else {#}) + names t subs'"
  shows "bounded (recomputeCustomFeatureLocked (snd (decrementSubscriptionRefsLocked sub (c\<lparr>wx_subs := subs'\<rparr>))))"
proof -
  note M = refs_le_mono [OF assms(1) assms(4)] and U = refs_le_mono [OF assms(2) assms(4)]
  show ?thesis
    using M U assms(3) refs_le_dec [of "wx_marketRefs c" "su_assetIDs sub"] refs_le_dec [of "wx_userRefs c" "su_markets sub"]
    by (cases "su_target sub") (simp_all add: bounded_def decrementSubscriptionRefsLocked_def recomputeCustomFeatureLocked_def assetIDsOrMarkets_def case_prod_beta Let_def)
qed

lemma removeFirst_none: "\<not> list_ex p xs \<Longrightarrow> removeFirst p xs = xs"
  by (induction xs) auto

lemma bounded_rollbackRecorded:
  assumes "bounded c" "wf_sub sub"
  shows "bounded (rollbackRecordedSubscription sub c)"
proof -
  have b: "refs_le (wx_marketRefs c) (names subscriptionTargetMarket (wx_subs c))" "refs_le (wx_userRefs c) (names subscriptionTargetUser (wx_subs c))"
    "list_all wf_sub (wx_subs c)" using assms(1) by (simp_all add: bounded_def)
  have "list_all wf_sub (removeFirst (sameSubscription sub) (wx_subs c)) \<and>
      names t (wx_subs c) \<subseteq># (if su_target sub = t then mset (assetIDsOrMarkets sub) else {#}) + names t (removeFirst (sameSubscription sub) (wx_subs c))" for t
  proof (cases "list_ex (sameSubscription sub) (wx_subs c)")
    case True
    then obtain ys x zs where x: "wx_subs c = ys @ x # zs" "sameSubscription sub x" "removeFirst (sameSubscription sub) (wx_subs c) = ys @ zs"
      using removeFirst_split by blast
    have "mset (assetIDsOrMarkets x) = mset (assetIDsOrMarkets sub)" "su_target x = su_target sub"
      using same_subscription_names [OF assms(2), of x] x b(3) by (simp_all add: sameSubscription_def)
    then show ?thesis using x(1) b(3) unfolding x(3) by simp
  qed (use b(3) in \<open>simp add: removeFirst_none\<close>)
  then show ?thesis unfolding rollbackRecordedSubscription_def removeOneSubscriptionLocked_def by (intro bounded_decrement [OF b(1,2)]) blast+
qed

lemma bounded_remove:
  assumes "bounded c" "removeRecordedSubscription target channelType ids c = (found, c')"
  shows "bounded c' \<and> (case found of None \<Rightarrow> True | Some (sub, gone) \<Rightarrow> wf_sub sub)"
proof (cases "findRecorded (\<lambda>sub. su_target sub = target \<and> su_key sub = subscriptionKey target ids) channelType 0 None (wx_subs c)")
  case None
  then show ?thesis using assms by (auto simp: removeRecordedSubscription_def Let_def)
next
  case (Some i)
  let ?sub = "wx_subs c ! i" and ?rest = "take i (wx_subs c) @ drop (Suc i) (wx_subs c)"
  have i: "i < length (wx_subs c)" using findRecorded_found [OF Some] by simp
  then have c: "wx_subs c = take i (wx_subs c) @ ?sub # drop (Suc i) (wx_subs c)" by (simp add: id_take_nth_drop)
  have wf: "list_all wf_sub (wx_subs c)" using assms(1) by (simp add: bounded_def)
  have r: "c' = recomputeCustomFeatureLocked (snd (decrementSubscriptionRefsLocked ?sub (c\<lparr>wx_subs := ?rest\<rparr>)))" "found = Some (?sub, fst (decrementSubscriptionRefsLocked ?sub (c\<lparr>wx_subs := ?rest\<rparr>)))"
    using assms(2) Some by (auto simp: removeRecordedSubscription_def Let_def case_prod_beta)
  have "names t (wx_subs c) = (if su_target ?sub = t then mset (assetIDsOrMarkets ?sub) else {#}) + names t ?rest" for t
    by (subst c) simp
  moreover have "list_all wf_sub ?rest \<and> wf_sub ?sub" using wf by (subst (asm) c) simp
  ultimately have n: "list_all wf_sub ?rest" "wf_sub ?sub" "names t (wx_subs c) \<subseteq># (if su_target ?sub = t then mset (assetIDsOrMarkets ?sub) else {#}) + names t ?rest" for t
    by simp_all
  have "bounded c'" unfolding r(1) by (rule bounded_decrement [OF _ _ n(1) n(3)]) (use assms(1) in \<open>simp_all add: bounded_def\<close>)
  then show ?thesis using n(2) r(2) by simp
qed

lemma bounded_wrote: "wrote c r effect c' \<Longrightarrow> bounded c \<Longrightarrow> bounded c'"
  by (auto simp: wrote_def bounded_def)

lemma bounded_startSubscribe: "bounded c \<Longrightarrow> wf_sub sub \<Longrightarrow> startSubscribe sub c = (p, c') \<Longrightarrow> bounded c' \<and> wf_call p"
  by (auto simp: startSubscribe_def dest: bounded_record split: sum.splits prod.splits)

lemma bounded_startUnsubscribe: "bounded c \<Longrightarrow> startUnsubscribe channelType ids c = (p, c') \<Longrightarrow> bounded c' \<and> wf_call p"
proof -
  let ?t = "if isUserChannel channelType then subscriptionTargetUser else subscriptionTargetMarket"
  assume b: "bounded c" "startUnsubscribe channelType ids c = (p, c')"
  obtain found c1 where r: "removeRecordedSubscription ?t channelType ids c = (found, c1)" by fastforce
  note R = bounded_remove [OF b(1) r]
  show ?thesis
  proof (cases "validateSubscriptionInput ?t ids")
    case (Inl e)
    then show ?thesis using b by (auto simp: startUnsubscribe_def)
  next
    case (Inr u)
    then show ?thesis using b(2) r R by (cases found) (auto simp: startUnsubscribe_def split: if_splits)
  qed
qed

lemma bounded_proceed:
  assumes "bounded c" "wf_call p" "proceed E p c = (p', c')"
  shows "bounded c' \<and> wf_call p'"
proof (cases p)
  case (Recorded sub sendSub)
  obtain r c1 where r: "replaySub E sendSub c = (r, c1)" by fastforce
  then show ?thesis using assms Recorded bounded_wrote [OF replaySub_wrote [OF r]] by (auto split: sum.splits)
next
  case (Removed sub gone)
  obtain r c1 where r: "sendUnsubscribeMessage E (su_target sub) gone c = (r, c1)" by fastforce
  then show ?thesis using assms Removed bounded_wrote [OF sendUnsubscribe_wrote [OF r]] by (auto split: sum.splits)
qed (use assms bounded_rollbackRecorded bounded_rollbackRemoved in auto)

text \<open>A replay, and so a call of \<open>connect\<close>, leaves the records alone.\<close>

lemma replayOrReport_records:
  "wx_subs (replayOrReport E what sub c) = wx_subs c \<and> wx_marketRefs (replayOrReport E what sub c) = wx_marketRefs c \<and> wx_userRefs (replayOrReport E what sub c) = wx_userRefs c"
proof -
  obtain r c1 where r: "replaySub E sub c = (r, c1)" by fastforce
  from replaySub_wrote [OF r] show ?thesis using r by (auto simp: wrote_def replayOrReport_def)
qed

lemma replay_records:
  "wx_subs (replayTrackedSubscriptions E c) = wx_subs c \<and> wx_marketRefs (replayTrackedSubscriptions E c) = wx_marketRefs c \<and> wx_userRefs (replayTrackedSubscriptions E c) = wx_userRefs c"
  by (simp add: replayTrackedSubscriptions_def Let_def replayOrReport_records)

lemma bounded_exec:
  assumes "bounded c" "wf_command cmd"
  shows "bounded (ws_exec E cmd c)"
proof (cases cmd)
  case (Subscribe sub)
  obtain p c1 p2 c2 where s: "startSubscribe sub c = (p, c1)" "proceed E p c1 = (p2, c2)" by fastforce
  have "bounded c1 \<and> wf_call p" using bounded_startSubscribe [OF assms(1) _ s(1)] assms(2) Subscribe by (simp add: wf_command_def)
  then have "bounded (snd (proceed E p2 c2))" using bounded_proceed [OF _ _ s(2)] bounded_proceed [of c2 p2 E] by (metis prod.collapse)
  then show ?thesis using subscribe_uninterrupted [of E sub c] s Subscribe by simp
next
  case (Unsubscribe ch ids)
  obtain p c1 p2 c2 where s: "startUnsubscribe ch ids c = (p, c1)" "proceed E p c1 = (p2, c2)" by fastforce
  have "bounded c1 \<and> wf_call p" using bounded_startUnsubscribe [OF assms(1) s(1)] .
  then have "bounded (snd (proceed E p2 c2))" using bounded_proceed [OF _ _ s(2)] bounded_proceed [of c2 p2 E] by (metis prod.collapse)
  then show ?thesis using unsubscribe_uninterrupted [of E ch ids c] s Unsubscribe by simp
next
  case (Connect dial)
  then show ?thesis using assms(1) replay_records [of E] by (auto simp: connect_def split: option.splits intro: bounded_frame)
qed (use assms(1) in \<open>auto simp: markDisconnected_def WithCredentials_def closeClient_def bounded_def\<close>)

lemma bounded_call_exec:
  assumes "bounded (fst s)" "list_all wf_call (snd s)" "wf_event ev"
  shows "bounded (fst (call_exec E ev s)) \<and> list_all wf_call (snd (call_exec E ev s))"
proof -
  obtain c ps where s: "s = (c, ps)" by fastforce
  show ?thesis
  proof (cases ev)
    case (StartSubscribe sub)
    then show ?thesis using assms s bounded_startSubscribe [of c sub] by (auto simp: wf_event_def split: prod.splits)
  next
    case (StartUnsubscribe ch ids)
    then show ?thesis using assms s bounded_startUnsubscribe [of c ch ids] by (auto split: prod.splits)
  next
    case (Proceed i)
    then show ?thesis using assms s bounded_proceed [of c "ps ! i" E]
      by (auto simp: list_all_length list_all_iff dest!: in_set_takeD in_set_dropD split: prod.splits) (metis nth_list_update)+
  next
    case (Operation cmd)
    then show ?thesis using assms s bounded_exec by (auto simp: wf_event_def)
  qed
qed

lemma bounded_run:
  assumes "list_all wf_event evs" "fold (call_exec E) evs (newWsClient creds, []) = (c, ps)"
  shows "bounded c"
proof -
  have "list_all wf_event evs \<Longrightarrow> bounded (fst s) \<Longrightarrow> list_all wf_call (snd s) \<Longrightarrow> bounded (fst (fold (call_exec E) evs s))" for s
    by (induction evs arbitrary: s) (simp, use bounded_call_exec in \<open>simp del: call_exec.simps\<close>)
  from this [of "(newWsClient creds, [])"] assms show ?thesis by (simp add: bounded_def newWsClient_def refs_le_def refCount_def)
qed

subsection \<open>Messages of a replay\<close>

lemma replayOrReport_sent:
  assumes "(k, UserMessage u) \<in> set (wx_sent (replayOrReport E what sub c))"
  shows "(k, UserMessage u) \<in> set (wx_sent c) \<or> isUser (su_target sub) \<and> us_Markets u = su_markets sub"
proof -
  have J: "(k, UserMessage u) \<in> set (wx_sent c') \<Longrightarrow> (k, UserMessage u) \<in> set (wx_sent c) \<or> v = UserMessage u" if "sendJSON E v c = (r, c')" for v r c'
    using that by (cases "we_marshal E v"; cases "wx_conn c"; cases "we_write E (wx_ticks c) v") (auto simp: sendJSON_def)
  obtain r c1 where r: "replaySub E sub c = (r, c1)" by fastforce
  have sent: "(k, UserMessage u) \<in> set (wx_sent c1)" using assms r by (auto simp: replayOrReport_def split: sum.splits)
  show ?thesis
  proof (cases "isUser (su_target sub)")
    case True
    then show ?thesis
      using r sent J by (cases "wx_creds c") (fastforce simp: replaySub_def sendUserSubscribeMessage_def deriveWSAuth_def bindE_def)+
  next
    case False
    then show ?thesis using r J [of "MarketMessage _"] sent by (fastforce simp: replaySub_def sendMarketSubscribeMessage_def)
  qed
qed

lemma replay_sent:
  assumes "(k, UserMessage u) \<in> set (wx_sent (replayTrackedSubscriptions E c))"
  shows "(k, UserMessage u) \<in> set (wx_sent c) \<or> us_Markets u = sort (map fst (wx_userRefs c))"
  using assms by (auto simp: replayTrackedSubscriptions_def Let_def dest!: replayOrReport_sent split: if_splits)

text \<open>A record of all markets has no names, so its removal asks the service for nothing.\<close>

lemma remove_all_markets:
  assumes "tracked_ok c" "isUserChannel channelType" "removeAndSend E channelType [] c = (r, c')"
  shows "r = Inr () \<and> outside c' = outside c"
proof -
  obtain found c1 where f: "removeRecordedSubscription subscriptionTargetUser channelType [] c = (found, c1)" by fastforce
  note R = removeRecorded_ok [OF assms(1) f]
  show ?thesis
  proof (cases found)
    case None
    then show ?thesis using assms(2,3) f R by (simp add: removeAndSend_def bindE_def lift_def validateSubscriptionInput_def)
  next
    case (Some p)
    obtain sub gone where p: "p = (sub, gone)" by fastforce
    let ?same = "\<lambda>sub. su_target sub = subscriptionTargetUser \<and> su_key sub = subscriptionKey subscriptionTargetUser []"
    obtain i where i: "findRecorded ?same channelType 0 None (wx_subs c) = Some i" "sub = wx_subs c ! i"
      using f Some p by (auto simp: removeRecordedSubscription_def Let_def split: option.splits prod.splits)
    then have "?same sub" "wf_sub sub" using findRecorded_found [OF i(1)] R Some p by simp_all
    then have "mset (assetIDsOrMarkets sub) = mset []"
      using subscriptionKey_names [of "assetIDsOrMarkets sub" "[]" subscriptionTargetUser] wf_sub_names by (metis clean_def list.set(1) empty_iff)
    then have "gone = []" using R Some p by simp
    then show ?thesis using assms(2,3) f R Some p by (simp add: removeAndSend_def bindE_def lift_def validateSubscriptionInput_def)
  qed
qed

lemma replay_conn: "wx_conn c = Some k \<Longrightarrow> wx_conn (replayTrackedSubscriptions E c) = Some k"
proof -
  have "wx_conn (replayOrReport E what sub c) = wx_conn c" for what sub c
  proof -
    obtain r c1 where r: "replaySub E sub c = (r, c1)" by fastforce
    from replaySub_wrote [OF r] show ?thesis using r by (auto simp: wrote_def replayOrReport_def)
  qed
  then show "wx_conn c = Some k \<Longrightarrow> ?thesis" by (simp add: replayTrackedSubscriptions_def Let_def)
qed

section \<open>Properties\<close>

text \<open>
  C29: after any sequence of subscribing, unsubscribing, setting credentials, losing the connection and connecting again, with any pattern of failing writes, the names that the messages written on the
  connection in use leave subscribed are exactly the names the recorded subscriptions ask for, for the market and for the user channel, unless an error of the replay on this connection
  was offered to the channel of errors; and each name is counted as often as it is asked for.  Names are not empty and have no comma.
\<close>

theorem subscriptions_match_service:
  assumes "list_all wf_command cmds" "c = fold (ws_exec E) cmds (newWsClient creds)"
  shows "(\<forall>a. refCount (wx_marketRefs c) a = count (names subscriptionTargetMarket (wx_subs c)) a) \<and>
    (\<forall>m. refCount (wx_userRefs c) m = count (names subscriptionTargetUser (wx_subs c)) m) \<and>
    (\<forall>k. wx_conn c = Some k \<longrightarrow> (\<forall>e. (k, e) \<notin> set (wx_errs c)) \<longrightarrow> (\<forall>t. wire t k c = set_mset (names t (wx_subs c))))"
  using ws_run_inv [OF assms(1)] refs_ok_count unfolding assms(2) ws_inv_def tracked_ok_def wire_ok_def by blast

text \<open>
  A call that fails changes nothing: whatever happened before, if a subscription cannot be written the number of recorded subscriptions, the names they ask for and all
  counters are as before the call, and if it succeeds exactly its names are added.
\<close>

theorem failed_subscribe_undone:
  assumes "list_all wf_command cmds" "c = fold (ws_exec E) cmds (newWsClient creds)" "wf_sub sub" "addAndSend E sub c = (r, c')"
  shows "SubscriptionCount c' = SubscriptionCount c + (if r = Inr () then 1 else 0) \<and>
    (\<forall>t. names t (wx_subs c') = names t (wx_subs c) + (if r = Inr () \<and> t = su_target sub then mset (assetIDsOrMarkets sub) else {#})) \<and>
    (\<forall>a. refCount (wx_marketRefs c') a = count (names subscriptionTargetMarket (wx_subs c')) a) \<and>
    (\<forall>m. refCount (wx_userRefs c') m = count (names subscriptionTargetUser (wx_subs c')) m)"
proof -
  have "ws_inv c" using ws_run_inv [OF assms(1)] assms(2) by simp
  note A = addAndSend_inv [OF this assms(3,4)]
  then have "tracked_ok c'" by (simp add: ws_inv_def)
  then show ?thesis using A refs_ok_count by (auto simp: SubscriptionCount_def tracked_ok_def add.commute)
qed

section \<open>A reliable service\<close>

definition ok_env :: wsEnv where
  "ok_env = \<lparr>we_marshal = (\<lambda>_. None), we_write = (\<lambda>_ _. None)\<rparr>"

text \<open>
  C30: a subscription to all of a user's markets, made with the empty list, is lost by a reconnect and cannot be ended.  After any sequence of calls, if such a subscription is recorded beside one that
  names a market and the client connects again, it stays recorded, but every user message of the new connection asks for exactly the markets that are named, which are not none; and
  unsubscribing from all markets succeeds without writing anything.
\<close>

theorem all_markets_not_tracked:
  assumes "list_all wf_command cmds" "c = fold (ws_exec E) cmds (newWsClient creds)"
    and "sub \<in> set (wx_subs c)" "su_target sub = subscriptionTargetUser" "su_markets sub = []" "m \<in># names subscriptionTargetUser (wx_subs c)"
    and "connect E None c = (Inr (), c')" "isUserChannel channelType" "removeAndSend E channelType [] c = (r, c'')"
  shows "\<exists>k. wx_conn c' = Some k \<and> sub \<in> set (wx_subs c') \<and>
      (\<forall>u. (k, UserMessage u) \<in> set (wx_sent c') \<longrightarrow> m \<in> set (us_Markets u) \<and> set (us_Markets u) = set_mset (names subscriptionTargetUser (wx_subs c))) \<and>
      r = Inr () \<and> wx_sent c'' = wx_sent c"
proof -
  have inv: "tracked_ok c" "numbered c" using ws_run_inv [OF assms(1)] assms(2) by (simp_all add: ws_inv_def)
  let ?c = "c\<lparr>wx_conn := Some (wx_conns c), wx_conns := Suc (wx_conns c)\<rparr>"
  have c': "c' = replayTrackedSubscriptions E ?c" using assms(7) by (auto simp: connect_def split: if_splits)
  have "wx_conn c' = Some (wx_conns c)" unfolding c' by (rule replay_conn) simp
  moreover have "set (sort (map fst (wx_userRefs c))) = set_mset (names subscriptionTargetUser (wx_subs c))"
    using inv(1) refs_ok_keys by (auto simp: tracked_ok_def)
  then have "set (us_Markets u) = set_mset (names subscriptionTargetUser (wx_subs c))" if "(wx_conns c, UserMessage u) \<in> set (wx_sent c')" for u
    using replay_sent [of _ u E ?c] that inv(2) unfolding c' by (fastforce simp: numbered_def)
  moreover have "sub \<in> set (wx_subs c')" using assms(3) replay_records [of E ?c] unfolding c' by simp
  moreover have "r = Inr () \<and> wx_sent c'' = wx_sent c" using remove_all_markets [OF inv(1) assms(8,9)] by (simp add: outside_def)
  ultimately show ?thesis using assms(6) by blast
qed

text \<open>
  C31: in every interleaving of calls that subscribe and unsubscribe from several goroutines with one another, with losses and with reconnects, and with any pattern of failing writes, no
  asset and no market is counted more often than the recorded subscriptions ask for it, and the lists of names that a replay sends hold only names that some recorded subscription asks for.
\<close>

theorem concurrent_counters_bounded:
  assumes "list_all wf_event evs" "fold (call_exec E) evs (newWsClient creds, []) = (c, ps)"
  shows "(\<forall>a. refCount (wx_marketRefs c) a \<le> count (names subscriptionTargetMarket (wx_subs c)) a) \<and>
    (\<forall>m. refCount (wx_userRefs c) m \<le> count (names subscriptionTargetUser (wx_subs c)) m) \<and>
    set (map fst (wx_marketRefs c)) \<subseteq> set_mset (names subscriptionTargetMarket (wx_subs c)) \<and>
    set (map fst (wx_userRefs c)) \<subseteq> set_mset (names subscriptionTargetUser (wx_subs c))"
  using bounded_run [OF assms] refs_le_keys unfolding bounded_def refs_le_def list.set_map by blast

text \<open>
  They can be counted less often.  A subscription whose write fails while another goroutine unsubscribes it is undone twice: prices of \<open>x\<close> are subscribed; \<open>SubscribeOrderBook\<close> for \<open>x\<close> and \<open>y\<close> is
  recorded, \<open>UnsubscribeOrderBook\<close> takes the record, and then the write fails.  All calls have returned, the prices are recorded, and after the next reconnect no error has been
  reported and the service has not been asked for \<open>x\<close>.
\<close>

definition third_fails :: wsEnv where
  "third_fails = \<lparr>we_marshal = (\<lambda>_. None), we_write = (\<lambda>n _. if n = 2 then Some (Msg ''broken pipe'') else None)\<rparr>"

definition unlucky_calls :: "callEvent list" where
  "unlucky_calls =
     [Operation (Connect None), StartSubscribe (newMarketSubscription channelTypePrices [''x''] False False), Proceed 0,
      StartSubscribe (newMarketSubscription channelTypeOrderBook [''x'', ''y''] True False), StartUnsubscribe channelTypeOrderBook [''x'', ''y''], Proceed 2, Proceed 1, Proceed 1,
      Operation (Disconnect 0), Operation (Connect None)]"

theorem concurrent_rollback_drops_asset:
  "\<exists>c ps. list_all wf_event unlucky_calls \<and> fold (call_exec third_fails) unlucky_calls (newWsClient None, []) = (c, ps) \<and>
     ps = [Returned (Inr ()), Returned (Inl (Msg ''broken pipe'')), Returned (Inr ())] \<and>
     wx_subs c = [newMarketSubscription channelTypePrices [''x''] False False] \<and> wx_marketRefs c = [] \<and> wx_conn c = Some 1 \<and> wx_errs c = [] \<and> wire subscriptionTargetMarket 1 c = {}"
proof -
  let ?s = "fold (call_exec third_fails) unlucky_calls (newWsClient None, [])"
  have "snd ?s = [Returned (Inr ()), Returned (Inl (Msg ''broken pipe'')), Returned (Inr ())]" by code_simp
  moreover have "wx_subs (fst ?s) = [newMarketSubscription channelTypePrices [''x''] False False]" by code_simp
  moreover have "wx_marketRefs (fst ?s) = []" "wx_conn (fst ?s) = Some 1" "wx_errs (fst ?s) = []" by code_simp+
  moreover have "wire subscriptionTargetMarket 1 (fst ?s) = {}" by code_simp
  moreover have "wf_sub (newMarketSubscription channelTypePrices [''x''] False False)" "wf_sub (newMarketSubscription channelTypeOrderBook [''x'', ''y''] True False)"
    by (rule wf_methods; auto simp: clean_def marketChannels_def)+
  then have "list_all wf_event unlucky_calls" by (simp add: unlucky_calls_def wf_event_def wf_command_def)
  ultimately show ?thesis by (metis prod.collapse)
qed

definition demo_prices :: subscription where
  "demo_prices = newMarketSubscription channelTypePrices [''x'', ''y''] False False"

lemma demo_prices_wf: "wf_sub demo_prices"
  unfolding demo_prices_def by (rule wf_methods) (auto simp: clean_def marketChannels_def)

theorem subscriptions_match_service_witness:
  "\<exists>c. c = fold (ws_exec ok_env) [Connect None, Subscribe demo_prices, Disconnect 0, Connect None] (newWsClient None) \<and>
     wx_conn c = Some 1 \<and> wire subscriptionTargetMarket 1 c = {''x'', ''y''}"
proof -
  define c where "c = fold (ws_exec ok_env) [Connect None, Subscribe demo_prices, Disconnect 0, Connect None] (newWsClient None)"
  have "wx_conn c = Some 1" "wx_errs c = []" "names subscriptionTargetMarket (wx_subs c) = {#''x'', ''y''#}" unfolding c_def by code_simp+
  moreover have "list_all wf_command [Connect None, Subscribe demo_prices, Disconnect 0, Connect None]" by (simp add: wf_command_def demo_prices_wf)
  note subscriptions_match_service [OF this c_def]
  ultimately have "wire subscriptionTargetMarket 1 c = {''x'', ''y''}" by simp
  then show ?thesis using c_def \<open>wx_conn c = Some 1\<close> by blast
qed

theorem failed_subscribe_undone_witness:
  "\<exists>e c'. addAndSend ok_env demo_prices (newWsClient None) = (Inl e, c') \<and> SubscriptionCount c' = 0 \<and> refCount (wx_marketRefs c') ''x'' = 0"
proof -
  have "map_sum (\<lambda>_. ()) id (fst (addAndSend ok_env demo_prices (newWsClient None))) = Inl ()" by code_simp
  then obtain e c' where r: "addAndSend ok_env demo_prices (newWsClient None) = (Inl e, c')"
    by (cases "addAndSend ok_env demo_prices (newWsClient None)") (auto simp: map_sum_def split: sum.splits)
  have "newWsClient None = fold (ws_exec ok_env) [] (newWsClient None)" "list_all wf_command []" by simp_all
  from failed_subscribe_undone [OF this(2,1) demo_prices_wf r] show ?thesis using r by (simp add: SubscriptionCount_def newWsClient_def)
qed

definition all_markets_calls :: "wsCommand list" where
  "all_markets_calls = [Connect None, Subscribe (newUserSubscription channelTypeUserEvents []), Subscribe (newUserSubscription channelTypeOrders [''m'']), Disconnect 0]"

theorem all_markets_not_tracked_witness:
  "\<exists>c c' c''. c = fold (ws_exec ok_env) all_markets_calls (newWsClient (Some \<lparr>cr_Key = ''k'', cr_Secret = ''s'', cr_Passphrase = ''p''\<rparr>)) \<and>
     map su_markets (wx_subs c) = [[], [''m'']] \<and> connect ok_env None c = (Inr (), c') \<and>
     (\<forall>u. (1, UserMessage u) \<in> set (wx_sent c') \<longrightarrow> set (us_Markets u) = {''m''}) \<and> removeAndSend ok_env channelTypeUserEvents [] c = (Inr (), c'') \<and> wx_sent c'' = wx_sent c"
proof -
  define c where "c = fold (ws_exec ok_env) all_markets_calls (newWsClient (Some \<lparr>cr_Key = ''k'', cr_Secret = ''s'', cr_Passphrase = ''p''\<rparr>))"
  let ?sub = "newUserSubscription channelTypeUserEvents []"
  have s: "wx_subs c = [?sub, newUserSubscription channelTypeOrders [''m'']]" unfolding c_def by code_simp
  have r: "fst (connect ok_env None c) = Inr ()" "wx_conn (snd (connect ok_env None c)) = Some 1" unfolding c_def by code_simp+
  have wf: "list_all wf_command all_markets_calls"
    by (simp add: all_markets_calls_def wf_command_def) (intro conjI; rule wf_methods; auto simp: clean_def userChannels_def)
  have ch: "isUserChannel channelTypeUserEvents" by (simp add: isUserChannel_def)
  obtain c' where c': "connect ok_env None c = (Inr (), c')" "wx_conn c' = Some 1" using r by (metis prod.collapse)
  obtain res c'' where u: "removeAndSend ok_env channelTypeUserEvents [] c = (res, c'')" by fastforce
  have n: "?sub \<in> set (wx_subs c)" "''m'' \<in># names subscriptionTargetUser (wx_subs c)" "set_mset (names subscriptionTargetUser (wx_subs c)) = {''m''}" by (simp_all add: s)
  have all: "\<forall>u. (1, UserMessage u) \<in> set (wx_sent c') \<longrightarrow> set (us_Markets u) = {''m''}" and res: "res = Inr ()" and w: "wx_sent c'' = wx_sent c"
    using all_markets_not_tracked [OF wf c_def n(1) _ _ n(2) c'(1) ch u] c'(2) n(3) by auto
  have "map su_markets (wx_subs c) = [[], [''m'']]" by (simp add: s)
  then show ?thesis by (intro exI conjI) (rule c_def, assumption, rule c'(1), rule all, rule u [unfolded res], rule w)
qed

theorem concurrent_counters_bounded_witness:
  "\<exists>c ps. fold (call_exec third_fails) unlucky_calls (newWsClient None, []) = (c, ps) \<and> names subscriptionTargetMarket (wx_subs c) = {#''x''#} \<and> refCount (wx_marketRefs c) ''x'' \<le> 1"
proof -
  obtain c ps where run: "list_all wf_event unlucky_calls" "fold (call_exec third_fails) unlucky_calls (newWsClient None, []) = (c, ps)"
    "wx_subs c = [newMarketSubscription channelTypePrices [''x''] False False]"
    using concurrent_rollback_drops_asset by blast
  then have "names subscriptionTargetMarket (wx_subs c) = {#''x''#}" by simp
  then show ?thesis using run(2) concurrent_counters_bounded [OF run(1,2)] by (auto intro!: exI [of _ c] dest: spec [of _ "''x''"])
qed

end
