(* ===== verification/WsEvents.thy ===== *)
theory WsEvents
  imports WsSubscriptions OrderContext Dec19
begin

text \<open>
  What the socket client does with a message (\<open>clob/ws/client.go\<close> from \<open>extractEventType\<close> on, and the structs of \<open>clob/ws/types.go\<close>): the type of an event is found by scanning the
  bytes, the event is decoded and delivered, and a book is followed by a midpoint for subscribed assets.  Decoding of JSON into a struct is a parameter.
\<close>

section \<open>Events\<close>

definition EventTypeBook :: string where "EventTypeBook = ''book''"
definition EventTypePriceChange :: string where "EventTypePriceChange = ''price_change''"
definition EventTypeTickSizeChange :: string where "EventTypeTickSizeChange = ''tick_size_change''"
definition EventTypeMidpoint :: string where "EventTypeMidpoint = ''midpoint''"
definition EventTypeLastTradePrice :: string where "EventTypeLastTradePrice = ''last_trade_price''"
definition EventTypeOrder :: string where "EventTypeOrder = ''order''"
definition EventTypeTrade :: string where "EventTypeTrade = ''trade''"
definition EventTypeBestBidAsk :: string where "EventTypeBestBidAsk = ''best_bid_ask''"
definition EventTypeNewMarket :: string where "EventTypeNewMarket = ''new_market''"
definition EventTypeMarketResolved :: string where "EventTypeMarketResolved = ''market_resolved''"

lemmas event_types = EventTypeBook_def EventTypePriceChange_def EventTypeTickSizeChange_def EventTypeMidpoint_def EventTypeLastTradePrice_def
  EventTypeOrder_def EventTypeTrade_def EventTypeBestBidAsk_def EventTypeNewMarket_def EventTypeMarketResolved_def

record BookEvent =
  be_EventType :: string
  be_Market :: string
  be_AssetID :: string
  be_Bids :: "OrderSummary list"
  be_Asks :: "OrderSummary list"
  be_Timestamp :: string
  be_Hash :: string
  be_MinOrderSize :: string
  be_TickSize :: TickSize
  be_NegRisk :: bool
  be_LastTradePrice :: string

record PriceChange =
  pc_AssetID :: string
  pc_Price :: string
  pc_Size :: string
  pc_Side :: Side
  pc_Hash :: string
  pc_BestBid :: string
  pc_BestAsk :: string

record PriceChangeEvent =
  pe_EventType :: string
  pe_Market :: string
  pe_PriceChanges :: "PriceChange list"
  pe_Timestamp :: string
  pe_AssetID :: string
  pe_Price :: string
  pe_Size :: string
  pe_Side :: Side

record TickSizeChangeEvent =
  te_EventType :: string
  te_AssetID :: string
  te_Market :: string
  te_OldTickSize :: TickSize
  te_NewTickSize :: TickSize
  te_Timestamp :: string

record MidpointEvent =
  mi_EventType :: string
  mi_AssetID :: string
  mi_Market :: string
  mi_Midpoint :: string
  mi_Timestamp :: string

record LastTradePriceEvent =
  le_EventType :: string
  le_AssetID :: string
  le_Market :: string
  le_Price :: string
  le_Size :: string
  le_Side :: Side
  le_FeeRateBps :: string
  le_Timestamp :: string
  le_TransactionHash :: string

record OrderEvent =
  oe_EventType :: string
  oe_OrderID :: string
  oe_Owner :: string
  oe_AssetID :: string
  oe_Market :: string
  oe_Price :: string
  oe_Size :: string
  oe_Side :: Side
  oe_OrderOwner :: string
  oe_OriginalSize :: string
  oe_SizeMatched :: string
  oe_AssociateTrades :: "string list"
  oe_Outcome :: string
  oe_OrderEventType :: string
  oe_CreatedAt :: string
  oe_Expiration :: string
  oe_OrderType :: OrderType
  oe_Status :: string
  oe_MakerAddress :: string
  oe_Reason :: string
  oe_Timestamp :: string

record MakerOrder =
  mk_OrderID :: string
  mk_Owner :: string
  mk_MakerAddress :: string
  mk_MatchedAmount :: string
  mk_Price :: string
  mk_FeeRateBps :: string
  mk_AssetID :: string
  mk_Outcome :: string
  mk_OutcomeIndex :: "int option"
  mk_Side :: Side

record TradeEvent =
  tv_EventType :: string
  tv_TradeID :: string
  tv_TakerOrderID :: string
  tv_Market :: string
  tv_AssetID :: string
  tv_Side :: Side
  tv_Size :: string
  tv_FeeRateBps :: string
  tv_Price :: string
  tv_TradeType :: string
  tv_Status :: string
  tv_MatchTime :: string
  tv_Matchtime :: string
  tv_LastUpdate :: string
  tv_Outcome :: string
  tv_Owner :: string
  tv_TradeOwner :: string
  tv_MakerAddress :: string
  tv_TransactionHash :: string
  tv_BucketIndex :: "int option"
  tv_MakerOrders :: "MakerOrder list"
  tv_TraderSide :: string
  tv_Timestamp :: string

record BestBidAskEvent =
  bb_EventType :: string
  bb_Market :: string
  bb_AssetID :: string
  bb_BestBid :: string
  bb_BestAsk :: string
  bb_Spread :: string
  bb_Timestamp :: string

record EventMessage =
  em_ID :: string
  em_Ticker :: string
  em_Slug :: string
  em_Title :: string
  em_Description :: string

record MarketResolvedEvent =
  mr_EventType :: string
  mr_ID :: string
  mr_Question :: string
  mr_Market :: string
  mr_Slug :: string
  mr_Description :: string
  mr_AssetIDs :: "string list"
  mr_Outcomes :: "string list"
  mr_WinningAssetID :: string
  mr_WinningOutcome :: string
  mr_Tags :: "string list"
  mr_EventMessage :: "EventMessage option"
  mr_Timestamp :: string

text \<open>The event of a new market, whose further fields are numbers, times and raw JSON, is left as a parameter type.\<close>

datatype 'n wsEvent =
    Book BookEvent
  | PriceChanges PriceChangeEvent
  | TickSizeChange TickSizeChangeEvent
  | Midpoint MidpointEvent
  | LastTradePrice LastTradePriceEvent
  | Order OrderEvent
  | Trade TradeEvent
  | BestBidAsk BestBidAskEvent
  | NewMarket 'n
  | MarketResolved MarketResolvedEvent

section \<open>Decoding\<close>

text \<open>
  The codec: one function for each struct that \<open>json.Unmarshal\<close> fills, the structs of older spellings, the raw fields of an object with the decoders of a list of strings and of a
  string, and the elements of an array.
\<close>

record 'n wsJSON =
  js_book :: "string \<Rightarrow> BookEvent result"
  js_priceChange :: "string \<Rightarrow> PriceChangeEvent result"
  js_priceChangeEntry :: "string \<Rightarrow> PriceChange result"
  js_tick :: "string \<Rightarrow> TickSizeChangeEvent result"
  js_midpoint :: "string \<Rightarrow> MidpointEvent result"
  js_lastTrade :: "string \<Rightarrow> LastTradePriceEvent result"
  js_order :: "string \<Rightarrow> OrderEvent result"
  js_makerOrder :: "string \<Rightarrow> MakerOrder result"
  js_trade :: "string \<Rightarrow> TradeEvent result"
  js_bestBidAsk :: "string \<Rightarrow> BestBidAskEvent result"
  js_newMarket :: "string \<Rightarrow> 'n result"
  js_marketResolved :: "string \<Rightarrow> MarketResolvedEvent result"
  js_tokenID :: "string \<Rightarrow> string result"
  js_legacyOrder :: "string \<Rightarrow> (string \<times> string) result"
  js_legacyTrade :: "string \<Rightarrow> (string \<times> string) result"
  js_fields :: "string \<Rightarrow> (string \<times> string) list result"
  js_strings :: "string \<Rightarrow> string list result"
  js_string :: "string \<Rightarrow> string result"
  js_batch :: "string \<Rightarrow> string list result"

text \<open>An asset ID that is empty is replaced by the one under the older name.\<close>

definition assetAlias :: "'n wsJSON \<Rightarrow> string \<Rightarrow> 'e result \<Rightarrow> ('e \<Rightarrow> string) \<Rightarrow> (string \<Rightarrow> 'e \<Rightarrow> 'e) \<Rightarrow> 'e result" where
  "assetAlias J data decoded assetID setAssetID = rbind decoded (\<lambda>v.
     if assetID v = [] then rbind (js_tokenID J data) (\<lambda>legacy. Inr (setAssetID legacy v)) else Inr v)"

definition unmarshalBook :: "'n wsJSON \<Rightarrow> string \<Rightarrow> BookEvent result" where
  "unmarshalBook J data = assetAlias J data (js_book J data) be_AssetID (\<lambda>a v. v\<lparr>be_AssetID := a\<rparr>)"
definition unmarshalPriceChange :: "'n wsJSON \<Rightarrow> string \<Rightarrow> PriceChange result" where
  "unmarshalPriceChange J data = assetAlias J data (js_priceChangeEntry J data) pc_AssetID (\<lambda>a v. v\<lparr>pc_AssetID := a\<rparr>)"
definition unmarshalTickSizeChange :: "'n wsJSON \<Rightarrow> string \<Rightarrow> TickSizeChangeEvent result" where
  "unmarshalTickSizeChange J data = assetAlias J data (js_tick J data) te_AssetID (\<lambda>a v. v\<lparr>te_AssetID := a\<rparr>)"
definition unmarshalLastTradePrice :: "'n wsJSON \<Rightarrow> string \<Rightarrow> LastTradePriceEvent result" where
  "unmarshalLastTradePrice J data = assetAlias J data (js_lastTrade J data) le_AssetID (\<lambda>a v. v\<lparr>le_AssetID := a\<rparr>)"
definition unmarshalMakerOrder :: "'n wsJSON \<Rightarrow> string \<Rightarrow> MakerOrder result" where
  "unmarshalMakerOrder J data = assetAlias J data (js_makerOrder J data) mk_AssetID (\<lambda>a v. v\<lparr>mk_AssetID := a\<rparr>)"
definition unmarshalBestBidAsk :: "'n wsJSON \<Rightarrow> string \<Rightarrow> BestBidAskEvent result" where
  "unmarshalBestBidAsk J data = assetAlias J data (js_bestBidAsk J data) bb_AssetID (\<lambda>a v. v\<lparr>bb_AssetID := a\<rparr>)"

definition unmarshalOrder :: "'n wsJSON \<Rightarrow> string \<Rightarrow> OrderEvent result" where
  "unmarshalOrder J data =
     rbind (js_order J data) (\<lambda>v.
     rbind (js_legacyOrder J data) (\<lambda>(orderID, assetID).
       Inr (v\<lparr>oe_OrderID := (if oe_OrderID v = [] then orderID else oe_OrderID v), oe_AssetID := (if oe_AssetID v = [] then assetID else oe_AssetID v)\<rparr>)))"

definition unmarshalTrade :: "'n wsJSON \<Rightarrow> string \<Rightarrow> TradeEvent result" where
  "unmarshalTrade J data =
     rbind (js_trade J data) (\<lambda>v.
     rbind (js_legacyTrade J data) (\<lambda>(tradeID, assetID).
       Inr (v\<lparr>tv_TradeID := (if tv_TradeID v = [] then tradeID else tv_TradeID v), tv_AssetID := (if tv_AssetID v = [] then assetID else tv_AssetID v)\<rparr>)))"

text \<open>The first of several names that is present decides; \<open>dst\<close> is the value that was decoded before.\<close>

definition decodeMarketAlias :: "'n wsJSON \<Rightarrow> string \<Rightarrow> (string \<Rightarrow> 'a result) \<Rightarrow> 'a \<Rightarrow> string list \<Rightarrow> 'a result" where
  "decodeMarketAlias J data decode dst keys =
     rbind (js_fields J data) (\<lambda>fields. case List.find (\<lambda>key. map_of fields key \<noteq> None) keys of
         None \<Rightarrow> Inr dst
       | Some key \<Rightarrow> decode (the (map_of fields key)))"

definition unmarshalMarketResolved :: "'n wsJSON \<Rightarrow> string \<Rightarrow> MarketResolvedEvent result" where
  "unmarshalMarketResolved J data =
     rbind (js_marketResolved J data) (\<lambda>v.
     rbind (decodeMarketAlias J data (js_strings J) (mr_AssetIDs v) [''assets_ids'', ''asset_ids'', ''token_ids'']) (\<lambda>ids.
     rbind (decodeMarketAlias J data (js_string J) (mr_WinningAssetID v) [''winning_asset_id'', ''winning_token_id'']) (\<lambda>winner.
       Inr (v\<lparr>mr_AssetIDs := ids, mr_WinningAssetID := winner\<rparr>))))"

text \<open>The status of a trade, in any case and with or without its long prefix.\<close>

definition unmarshalTradeStatus :: "'n wsJSON \<Rightarrow> string \<Rightarrow> string result" where
  "unmarshalTradeStatus J data = rbind (js_string J data) (\<lambda>raw. Inr (trim_prefix (to_upper raw) ''TRADE_STATUS_''))"

section \<open>The type of an event\<close>

definition quote :: char where "quote = CHR 0x22"
definition backslash :: char where "backslash = CHR 0x5C"

definition eventTypeKey :: string where
  "eventTypeKey = quote # ''event_type'' @ [quote]"

definition jsonSpace :: "char \<Rightarrow> bool" where
  "jsonSpace c \<longleftrightarrow> c = CHR '' '' \<or> c = CHR 0x09 \<or> c = CHR 0x0A \<or> c = CHR 0x0D"

text \<open>The bytes after the first occurrence of a key.\<close>

fun afterKey :: "string \<Rightarrow> string \<Rightarrow> string option" where
  "afterKey key s = (if has_prefix s key then Some (drop (length key) s) else case s of [] \<Rightarrow> None | _ # t \<Rightarrow> afterKey key t)"

declare afterKey.simps [simp del]

fun untilQuote :: "string \<Rightarrow> string option" where
  "untilQuote [] = None"
| "untilQuote (c # s) = (if c = backslash then None else if c = quote then Some [] else map_option (Cons c) (untilQuote s))"

definition afterChar :: "char \<Rightarrow> string \<Rightarrow> string option" where
  "afterChar c s = (case s of [] \<Rightarrow> None | d # t \<Rightarrow> if d = c then Some t else None)"

definition extractEventType :: "string \<Rightarrow> string option" where
  "extractEventType data =
     Option.bind (afterKey eventTypeKey data) (\<lambda>s.
     Option.bind (afterChar (CHR '':'') (dropWhile jsonSpace s)) (\<lambda>s.
     Option.bind (afterChar quote (dropWhile jsonSpace s)) untilQuote))"

section \<open>Delivery\<close>

text \<open>
  What the consumer sees: delivered events and reported errors.  The \<open>n\<close>-th delivery may be given up when the context of the connection ends.
\<close>

record 'n wsInbox =
  ib_events :: "'n wsEvent list"
  ib_errs :: "go_error list"
  ib_ticks :: nat

definition emitEvent :: "(nat \<Rightarrow> bool) \<Rightarrow> 'n wsEvent \<Rightarrow> 'n wsInbox \<Rightarrow> 'n wsInbox" where
  "emitEvent ended ev box = (let box' = box\<lparr>ib_ticks := Suc (ib_ticks box)\<rparr>
     in if ended (ib_ticks box) then box' else box'\<lparr>ib_events := ib_events box' @ [ev]\<rparr>)"

definition emitError :: "go_error \<Rightarrow> 'n wsInbox \<Rightarrow> 'n wsInbox" where
  "emitError e box = box\<lparr>ib_errs := ib_errs box @ [e]\<rparr>"

definition isMidpointSubscribed :: "wsClient \<Rightarrow> string \<Rightarrow> bool" where
  "isMidpointSubscribed c assetID \<longleftrightarrow> assetID \<noteq> [] \<and>
     list_ex (\<lambda>sub. su_channelType sub = channelTypeMidpoints \<and> assetID \<in> set (su_assetIDs sub)) (wx_subs c)"

definition midpointFromBook :: "'d udecimal_ops \<Rightarrow> BookEvent \<Rightarrow> MidpointEvent option" where
  "midpointFromBook U book = (case (be_Bids book, be_Asks book) of
       (b # _, a # _) \<Rightarrow>
         (case rbind (u_parse U (lv_Price b)) (\<lambda>bid.
               rbind (u_parse U (lv_Price a)) (\<lambda>ask.
               rbind (u_parse U ''2'') (\<lambda>two. u_div U (u_add U bid ask) two))) of
            Inl _ \<Rightarrow> None
          | Inr midpoint \<Rightarrow> Some \<lparr>mi_EventType = EventTypeMidpoint, mi_AssetID = be_AssetID book, mi_Market = be_Market book,
              mi_Midpoint = u_string U midpoint, mi_Timestamp = be_Timestamp book\<rparr>)
     | _ \<Rightarrow> None)"

definition decodeEvent :: "'n wsJSON \<Rightarrow> string \<Rightarrow> string \<Rightarrow> 'n wsEvent result option" where
  "decodeEvent J eventType data =
     (if eventType = EventTypeBook then Some (map_sum id Book (unmarshalBook J data))
      else if eventType = EventTypePriceChange then Some (map_sum id PriceChanges (js_priceChange J data))
      else if eventType = EventTypeTickSizeChange then Some (map_sum id TickSizeChange (unmarshalTickSizeChange J data))
      else if eventType = EventTypeMidpoint then Some (map_sum id Midpoint (js_midpoint J data))
      else if eventType = EventTypeLastTradePrice then Some (map_sum id LastTradePrice (unmarshalLastTradePrice J data))
      else if eventType = EventTypeOrder then Some (map_sum id Order (unmarshalOrder J data))
      else if eventType = EventTypeTrade then Some (map_sum id Trade (unmarshalTrade J data))
      else if eventType = EventTypeBestBidAsk then Some (map_sum id BestBidAsk (unmarshalBestBidAsk J data))
      else if eventType = EventTypeNewMarket then Some (map_sum id NewMarket (js_newMarket J data))
      else if eventType = EventTypeMarketResolved then Some (map_sum id MarketResolved (unmarshalMarketResolved J data))
      else None)"

text \<open>The midpoint that follows an event.\<close>

definition derivedMidpoint :: "'d udecimal_ops \<Rightarrow> wsClient \<Rightarrow> 'n wsEvent \<Rightarrow> MidpointEvent option" where
  "derivedMidpoint U c ev = (case ev of
       Book book \<Rightarrow> if isMidpointSubscribed c (be_AssetID book) then midpointFromBook U book else None
     | _ \<Rightarrow> None)"

definition handleEventMessage ::
  "'d udecimal_ops \<Rightarrow> 'n wsJSON \<Rightarrow> (nat \<Rightarrow> bool) \<Rightarrow> wsClient \<Rightarrow> bool \<Rightarrow> string \<Rightarrow> 'n wsInbox \<Rightarrow> 'n wsInbox" where
  "handleEventMessage U J ended c reportDecodeError data box =
     (case Option.bind (extractEventType data) (\<lambda>eventType. map_option (Pair eventType) (decodeEvent J eventType data)) of
        None \<Rightarrow> box
      | Some (eventType, Inl e) \<Rightarrow> if reportDecodeError then emitError (Wrap (''decode '' @ eventType @ '' event'') e) box else box
      | Some (_, Inr ev) \<Rightarrow>
          let box = emitEvent ended ev box
          in (case derivedMidpoint U c ev of None \<Rightarrow> box | Some m \<Rightarrow> emitEvent ended (Midpoint m) box))"

definition handleMessage ::
  "'d udecimal_ops \<Rightarrow> 'n wsJSON \<Rightarrow> (nat \<Rightarrow> bool) \<Rightarrow> wsClient \<Rightarrow> string \<Rightarrow> 'n wsInbox \<Rightarrow> 'n wsInbox" where
  "handleMessage U J ended c data box =
     (case trim_space data of
        [] \<Rightarrow> box
      | ch # rest \<Rightarrow>
          if ch = CHR ''['' then (case js_batch J (ch # rest) of
              Inl _ \<Rightarrow> box
            | Inr messages \<Rightarrow> fold (handleEventMessage U J ended c False) messages box)
          else if ch = CHR ''{'' then handleEventMessage U J ended c True (ch # rest) box
          else box)"

section \<open>The scan\<close>

lemma afterKey_Some:
  "afterKey key s = Some r \<longleftrightarrow> (\<exists>pre. s = pre @ key @ r \<and> (\<forall>pre' r'. s = pre' @ key @ r' \<longrightarrow> length pre \<le> length pre'))"
proof (induction s)
  case Nil
  then show ?case by (subst afterKey.simps) (auto simp: has_prefix_def)
next
  case (Cons x s)
  have p: "has_prefix (x # s) key \<longleftrightarrow> (\<exists>t. x # s = key @ t)" unfolding has_prefix_def by (metis append_eq_conv_conj)
  show ?case
  proof (cases "has_prefix (x # s) key")
    case True
    then obtain t where t: "x # s = key @ t" using p by blast
    then have "afterKey key (x # s) = Some t" using True by (subst afterKey.simps) simp
    moreover have "(\<exists>pre. x # s = pre @ key @ r \<and> (\<forall>pre' r'. x # s = pre' @ key @ r' \<longrightarrow> length pre \<le> length pre')) \<longleftrightarrow> r = t"
      using t by (metis append_Nil append_same_eq le_zero_eq length_0_conv list.size(3) same_append_eq zero_le)
    ultimately show ?thesis by auto
  next
    case False
    then have n: "\<And>r'. x # s \<noteq> key @ r'" using p by blast
    have "afterKey key (x # s) = afterKey key s" using False by (subst afterKey.simps) simp
    moreover have "(\<exists>pre. x # s = pre @ key @ r \<and> (\<forall>pre' r'. x # s = pre' @ key @ r' \<longrightarrow> length pre \<le> length pre')) \<longleftrightarrow>
        (\<exists>pre. s = pre @ key @ r \<and> (\<forall>pre' r'. s = pre' @ key @ r' \<longrightarrow> length pre \<le> length pre'))" (is "?A = ?B")
    proof
      assume ?A
      then obtain pre where a: "x # s = pre @ key @ r" "\<And>pre' r'. x # s = pre' @ key @ r' \<Longrightarrow> length pre \<le> length pre'" by blast
      then obtain q where q: "pre = x # q" "s = q @ key @ r" using n by (cases pre) auto
      have "length q \<le> length pre'" if "s = pre' @ key @ r'" for pre' r' using a(2) [of "x # pre'" r'] that q(1) by simp
      then show ?B using q(2) by blast
    next
      assume ?B
      then obtain q where b: "s = q @ key @ r" "\<And>pre' r'. s = pre' @ key @ r' \<Longrightarrow> length q \<le> length pre'" by blast
      have "length (x # q) \<le> length pre'" if "x # s = pre' @ key @ r'" for pre' r' using b(2) [of "tl pre'" r'] that n by (cases pre') auto
      then show ?A using b(1) by (intro exI [of _ "x # q"]) auto
    qed
    ultimately show ?thesis using Cons.IH by simp
  qed
qed

lemma untilQuote_Some: "untilQuote s = Some n \<longleftrightarrow> (\<exists>rest. s = n @ quote # rest) \<and> quote \<notin> set n \<and> backslash \<notin> set n"
proof (induction s arbitrary: n)
  case (Cons c s)
  have "quote \<noteq> backslash" by (simp add: quote_def backslash_def)
  then show ?case using Cons.IH by (cases n) auto
qed simp

lemma afterChar_spaces:
  "\<not> p c \<Longrightarrow> afterChar c (dropWhile p s) = Some t \<longleftrightarrow> (\<exists>sp. s = sp @ c # t \<and> list_all p sp)"
proof (induction s)
  case (Cons x s)
  show ?case
  proof (cases "p x")
    case True
    have "(\<exists>sp. x # s = sp @ c # t \<and> list_all p sp) \<longleftrightarrow> (\<exists>sp. s = sp @ c # t \<and> list_all p sp)" (is "?A = ?B")
    proof
      assume ?A
      then obtain sp where "x # s = sp @ c # t" "list_all p sp" by blast
      then show ?B using Cons.prems True by (cases sp) auto
    next
      assume ?B
      then obtain sp where "s = sp @ c # t" "list_all p sp" by blast
      then show ?A using True by (intro exI [of _ "x # sp"]) simp
    qed
    then show ?thesis using Cons True by simp
  next
    case False
    then show ?thesis by (auto simp: afterChar_def Cons_eq_append_conv)
  qed
qed (simp add: afterChar_def)

lemma scan_chars [simp]: "\<not> jsonSpace quote" "\<not> jsonSpace (CHR '':'')"
  by (simp_all add: jsonSpace_def quote_def)

lemmas scan_spaces = afterChar_spaces [of jsonSpace quote, OF scan_chars(1)] afterChar_spaces [of jsonSpace "CHR '':''", OF scan_chars(2)]

text \<open>
  The scan for the type of an event is exact.  It finds a name if and only if after the first occurrence of the quoted key, after any white space, there is a colon, and after
  any white space the name in quotes, without quotes or backslashes in it.
\<close>

theorem event_type_scan:
  "extractEventType data = Some name \<longleftrightarrow>
     (\<exists>pre s1 s2 rest. data = pre @ eventTypeKey @ s1 @ CHR '':'' # s2 @ quote # name @ quote # rest \<and> list_all jsonSpace s1 \<and> list_all jsonSpace s2 \<and>
        quote \<notin> set name \<and> backslash \<notin> set name \<and> (\<forall>pre' r. data = pre' @ eventTypeKey @ r \<longrightarrow> length pre \<le> length pre'))"
  (is "_ \<longleftrightarrow> ?found")
proof
  assume "extractEventType data = Some name"
  then obtain r r2 r3 where e: "afterKey eventTypeKey data = Some r" "afterChar (CHR '':'') (dropWhile jsonSpace r) = Some r2"
    "afterChar quote (dropWhile jsonSpace r2) = Some r3" "untilQuote r3 = Some name"
    by (auto simp: extractEventType_def bind_eq_Some_conv)
  obtain pre where p: "data = pre @ eventTypeKey @ r" "\<forall>pre' r. data = pre' @ eventTypeKey @ r \<longrightarrow> length pre \<le> length pre'"
    using e(1) unfolding afterKey_Some by blast
  obtain s1 s2 rest where s: "r = s1 @ CHR '':'' # r2" "list_all jsonSpace s1" "r2 = s2 @ quote # r3" "list_all jsonSpace s2" "r3 = name @ quote # rest"
    using e(2-4) unfolding scan_spaces untilQuote_Some by blast
  moreover have "data = pre @ eventTypeKey @ s1 @ CHR '':'' # s2 @ quote # name @ quote # rest" using p(1) s(1,3,5) by simp
  moreover have "quote \<notin> set name" "backslash \<notin> set name" using e(4) by (simp_all add: untilQuote_Some)
  ultimately show ?found using p(2) by blast
next
  assume ?found
  then obtain pre s1 s2 rest where s: "data = pre @ eventTypeKey @ s1 @ CHR '':'' # s2 @ quote # name @ quote # rest" "list_all jsonSpace s1" "list_all jsonSpace s2"
    "quote \<notin> set name" "backslash \<notin> set name" "\<forall>pre' r. data = pre' @ eventTypeKey @ r \<longrightarrow> length pre \<le> length pre'"
    by blast
  have "afterKey eventTypeKey data = Some (s1 @ CHR '':'' # s2 @ quote # name @ quote # rest)" unfolding afterKey_Some using s(1,6) by blast
  moreover have "afterChar (CHR '':'') (dropWhile jsonSpace (s1 @ CHR '':'' # s2 @ quote # name @ quote # rest)) = Some (s2 @ quote # name @ quote # rest)"
    unfolding scan_spaces using s(2) by blast
  moreover have "afterChar quote (dropWhile jsonSpace (s2 @ quote # name @ quote # rest)) = Some (name @ quote # rest)"
    unfolding scan_spaces using s(3) by blast
  moreover have "untilQuote (name @ quote # rest) = Some name" unfolding untilQuote_Some using s(4,5) by blast
  ultimately show "extractEventType data = Some name" by (simp add: extractEventType_def)
qed

text \<open>
  The midpoint that follows a book is half of the sum of the first bid and the first ask of the snapshot, whatever levels come after them; the market price computed from the same
  levels starts at the last ones, which are the best.
\<close>

theorem midpoint_of_first_levels:
  assumes "udecimal U val" "be_Bids book = b # bs" "be_Asks book = a # as" "decimal_numeral (lv_Price b) = Some (x, j)" "decimal_numeral (lv_Price a) = Some (y, k)"
    "j \<le> 19" "k \<le> 19" "length (lv_Price b) \<le> 200" "length (lv_Price a) \<le> 200"
  shows "\<exists>ev. midpointFromBook U book = Some ev \<and> mi_AssetID ev = be_AssetID book \<and> big_rat_set_string (mi_Midpoint ev) = Some (trunc_to 19 ((x + y) / 2))"
proof -
  note U = udecimal.parse_numeral [OF assms(1)]
  obtain bid where b: "u_parse U (lv_Price b) = Inr bid" "val bid = x" using U [OF assms(4,6,8)] by blast
  obtain ask where a: "u_parse U (lv_Price a) = Inr ask" "val ask = y" using U [OF assms(5,7,9)] by blast
  have "decimal_numeral ''2'' = Some (2, 0)" by code_simp
  then obtain two where t: "u_parse U ''2'' = Inr two" "val two = 2" using U [of "''2''" 2 0] by auto
  obtain m where m: "u_div U (u_add U bid ask) two = Inr m" "val m = trunc_to 19 ((x + y) / 2)"
    using udecimal.div_ok [OF assms(1), of two "u_add U bid ask"] t(2) a(2) b(2) udecimal.val_add [OF assms(1)] by auto
  then show ?thesis
    using assms(2,3) a(1) b(1) t(1) udecimal.rat_of_string [OF assms(1), of m] by (simp add: midpointFromBook_def)
qed

section \<open>Batches\<close>

text \<open>The events of one message: the decoded event and the midpoint that follows it; nothing if it has no known type or cannot be decoded.\<close>

definition eventsOf :: "'d udecimal_ops \<Rightarrow> 'n wsJSON \<Rightarrow> wsClient \<Rightarrow> string \<Rightarrow> 'n wsEvent list" where
  "eventsOf U J c data = (case Option.bind (extractEventType data) (\<lambda>eventType. decodeEvent J eventType data) of
       Some (Inr ev) \<Rightarrow> ev # (case derivedMidpoint U c ev of None \<Rightarrow> [] | Some m \<Rightarrow> [Midpoint m])
     | _ \<Rightarrow> [])"

lemma handleEventMessage_quiet:
  "(\<And>n. \<not> ended n) \<Longrightarrow> ib_events (handleEventMessage U J ended c False data box) = ib_events box @ eventsOf U J c data \<and>
    ib_errs (handleEventMessage U J ended c False data box) = ib_errs box"
  by (auto simp: handleEventMessage_def eventsOf_def emitEvent_def Let_def bind_eq_Some_conv split: option.splits sum.splits)

text \<open>
  From a batch every element that has a known type and can be decoded is delivered, in the order of the batch, each book of an asset subscribed for midpoints followed by its midpoint;
  an element that cannot be decoded does not stop the others and is not reported.
\<close>

theorem batch_delivered_in_order:
  assumes "trim_space data = CHR ''['' # rest" "js_batch J (trim_space data) = Inr messages" "\<And>n. \<not> ended n"
  shows "ib_events (handleMessage U J ended c data box) = ib_events box @ concat (map (eventsOf U J c) messages) \<and>
    ib_errs (handleMessage U J ended c data box) = ib_errs box"
proof -
  have "ib_events (fold (handleEventMessage U J ended c False) ms b) = ib_events b @ concat (map (eventsOf U J c) ms) \<and>
      ib_errs (fold (handleEventMessage U J ended c False) ms b) = ib_errs b" for ms b
    by (induction ms arbitrary: b) (simp_all add: handleEventMessage_quiet assms(3))
  then show ?thesis using assms(1,2) by (simp add: handleMessage_def)
qed

section \<open>A book with two levels\<close>

definition demo_level :: "string \<Rightarrow> OrderSummary" where
  "demo_level p = \<lparr>lv_Price = p, lv_Size = ''10''\<rparr>"

definition demo_snapshot :: BookEvent where
  "demo_snapshot = \<lparr>be_EventType = EventTypeBook, be_Market = ''m'', be_AssetID = ''a'', be_Bids = map demo_level [''0.10'', ''0.45''], be_Asks = map demo_level [''0.99'', ''0.47''],
     be_Timestamp = ''1'', be_Hash = [], be_MinOrderSize = [], be_TickSize = TickSizeHundredth, be_NegRisk = False, be_LastTradePrice = []\<rparr>"

text \<open>The price at which one unit is bought or sold in such a book.\<close>

definition topOfBook :: "Side \<Rightarrow> OrderSummary list \<Rightarrow> dec option" where
  "topOfBook side levels = (case parseLevels dec19_ops levels of Inl _ \<Rightarrow> None | Inr ls \<Rightarrow> walkBook dec19_ops side (Dec 1) (Dec 0) (rev ls))"

theorem midpoint_of_first_levels_witness:
  "\<exists>ev. midpointFromBook dec19_ops demo_snapshot = Some ev \<and> big_rat_set_string (mi_Midpoint ev) = Some (109 / 200) \<and>
     map_option dval (topOfBook SideSell (be_Bids demo_snapshot)) = Some (45 / 100) \<and> map_option dval (topOfBook SideBuy (be_Asks demo_snapshot)) = Some (47 / 100)"
proof -
  have p: "decimal_numeral ''0.10'' = Some (1 / 10, 2)" "decimal_numeral ''0.99'' = Some (99 / 100, 2)" by code_simp+
  have t: "trunc_to 19 (109 / 200 :: rat) = 109 / 200" by code_simp
  obtain ev where "midpointFromBook dec19_ops demo_snapshot = Some ev" "big_rat_set_string (mi_Midpoint ev) = Some (trunc_to 19 ((1 / 10 + 99 / 100) / 2))"
    using midpoint_of_first_levels [OF dec19.udecimal_axioms, of demo_snapshot "demo_level ''0.10''" "[demo_level ''0.45'']" "demo_level ''0.99''" "[demo_level ''0.47'']" "1 / 10" 2 "99 / 100" 2] p
    by (auto simp: demo_snapshot_def demo_level_def)
  moreover have "map_option units (topOfBook SideSell (be_Bids demo_snapshot)) = Some 4500000000000000000"
    "map_option units (topOfBook SideBuy (be_Asks demo_snapshot)) = Some 4700000000000000000" by code_simp+
  then have "map_option dval (topOfBook SideSell (be_Bids demo_snapshot)) = Some (45 / 100)" "map_option dval (topOfBook SideBuy (be_Asks demo_snapshot)) = Some (47 / 100)"
    by (auto simp: dval_def dscale_def)
  ultimately show ?thesis using t by simp
qed

definition demo_message :: string where
  "demo_message = CHR ''{'' # eventTypeKey @ '': '' @ [quote] @ ''book'' @ [quote, CHR ''}'']"

theorem event_type_scan_witness:
  "\<exists>pre s1 s2 rest. demo_message = pre @ eventTypeKey @ s1 @ CHR '':'' # s2 @ quote # ''book'' @ quote # rest \<and> list_all jsonSpace s1 \<and> list_all jsonSpace s2 \<and>
     (\<forall>pre' r. demo_message = pre' @ eventTypeKey @ r \<longrightarrow> length pre \<le> length pre')"
proof -
  have "extractEventType demo_message = Some ''book''" by code_simp
  then show ?thesis unfolding event_type_scan by blast
qed

definition demo_codec :: "unit wsJSON" where
  "demo_codec = \<lparr>js_book = (\<lambda>d. if length d \<le> 30 then Inr demo_snapshot else Inl (Remote 0)), js_priceChange = (\<lambda>_. Inl (Remote 0)), js_priceChangeEntry = (\<lambda>_. Inl (Remote 0)), js_tick = (\<lambda>_. Inl (Remote 0)),
     js_midpoint = (\<lambda>_. Inl (Remote 0)), js_lastTrade = (\<lambda>_. Inl (Remote 0)), js_order = (\<lambda>_. Inl (Remote 0)), js_makerOrder = (\<lambda>_. Inl (Remote 0)), js_trade = (\<lambda>_. Inl (Remote 0)),
     js_bestBidAsk = (\<lambda>_. Inl (Remote 0)), js_newMarket = (\<lambda>_. Inr ()), js_marketResolved = (\<lambda>_. Inl (Remote 0)), js_tokenID = (\<lambda>_. Inr []), js_legacyOrder = (\<lambda>_. Inl (Remote 0)),
     js_legacyTrade = (\<lambda>_. Inl (Remote 0)), js_fields = (\<lambda>_. Inr []), js_strings = (\<lambda>_. Inr []), js_string = (\<lambda>_. Inr []),
     js_batch = (\<lambda>_. Inr [demo_message @ replicate 20 (CHR '' ''), ''{}'', demo_message])\<rparr>"

theorem batch_delivered_in_order_witness:
  "ib_events (handleMessage dec19_ops demo_codec (\<lambda>_. False) (newWsClient None) ''[...]'' \<lparr>ib_events = [], ib_errs = [], ib_ticks = 0\<rparr>) = [Book demo_snapshot]"
proof -
  have "trim_space ''[...]'' = CHR ''['' # ''...]''" "js_batch demo_codec (trim_space ''[...]'') = Inr [demo_message @ replicate 20 (CHR '' ''), ''{}'', demo_message]" by code_simp+
  note batch_delivered_in_order [OF this, of "\<lambda>_. False" dec19_ops "newWsClient None"]
  moreover have "concat (map (eventsOf dec19_ops demo_codec (newWsClient None)) [demo_message @ replicate 20 (CHR '' ''), ''{}'', demo_message]) = [Book demo_snapshot]" by code_simp
  ultimately show ?thesis by simp
qed

end
