(* ===== verification/WsConnection.thy ===== *)
theory WsConnection
  imports WsSubscriptions
begin

text \<open>
  The life of a connection of the socket client, \<open>clob/ws/client.go\<close>: a call of \<open>Connect\<close>, the loop that reads, the loop that sends heartbeats, the loop that connects again after a loss,
  and \<open>Close\<close>, as steps that interleave freely.  A step is a critical section or a wait that ends.  The records of the subscriptions are the subject of \<open>WsSubscriptions\<close>.
\<close>

section \<open>State\<close>

text \<open>
  The two loops of a connection: watching it; having seen it fail; having marked it as lost, before \<open>scheduleReconnect\<close>; ended or not started.
\<close>

datatype watcher = Watching | Lost | Marked | Ended

text \<open>A call of \<open>connect\<close>: before its first check, dialing, with an open socket, replaying the subscriptions on the installed connection, returned.\<close>

datatype connectPhase = Checking | Dialing | Dialed | Replaying nat | Connected nat | Refused

datatype attemptPhase = AttemptStart | Attempting connectPhase | Waiting | Leaving | Gone

text \<open>
  Connections are numbered.  \<open>wl_current\<close> is the connection whose cancel function is in \<open>connCancel\<close>, \<open>wl_canceled\<close> those whose context has been canceled by their successor, and \<open>wl_ctxDone\<close> says that
  the context of the client, from which all are derived, has been canceled.  \<open>wl_missed\<close> is not part of the program: it records that \<open>scheduleReconnect\<close> was called while a
  reconnect was under way.
\<close>

record wsLife =
  wl_auto :: bool
  wl_closed :: bool
  wl_ctxDone :: bool
  wl_conn :: "nat option"
  wl_current :: "nat option"
  wl_reconnecting :: bool
  wl_next :: nat
  wl_canceled :: "nat list"
  wl_reader :: "nat \<Rightarrow> watcher"
  wl_beat :: "nat \<Rightarrow> watcher"
  wl_calls :: "connectPhase list"
  wl_attempts :: "attemptPhase list"
  wl_missed :: bool

definition newLife :: "bool \<Rightarrow> wsLife" where
  "newLife auto = \<lparr>wl_auto = auto, wl_closed = False, wl_ctxDone = False, wl_conn = None, wl_current = None, wl_reconnecting = False, wl_next = 0, wl_canceled = [],
     wl_reader = (\<lambda>_. Ended), wl_beat = (\<lambda>_. Ended), wl_calls = [], wl_attempts = [], wl_missed = False\<rparr>"

section \<open>Critical sections\<close>

text \<open>
  The second critical section of \<open>connect\<close>.  The calls that follow it, which cancel the context of the previous connection and start the loops, are in the same step: a loop of the
  previous connection that fails in between could have failed just before.
\<close>

definition installConn :: "wsLife \<Rightarrow> (nat \<times> wsLife) option" where
  "installConn s =
     (if wl_closed s \<or> wl_conn s \<noteq> None then None
      else let n = wl_next s
           in Some (n, s\<lparr>wl_conn := Some n, wl_current := Some n, wl_next := Suc n,
                wl_canceled := (case wl_current s of None \<Rightarrow> wl_canceled s | Some old \<Rightarrow> old # wl_canceled s),
                wl_reader := (wl_reader s)(n := Watching), wl_beat := (wl_beat s)(n := Watching)\<rparr>))"

definition loopCtxDone :: "wsLife \<Rightarrow> nat \<Rightarrow> bool" where
  "loopCtxDone s n \<longleftrightarrow> wl_ctxDone s \<or> n \<in> set (wl_canceled s)"

definition markLost :: "nat \<Rightarrow> wsLife \<Rightarrow> wsLife" where
  "markLost n s = (if wl_conn s = Some n then s\<lparr>wl_conn := None\<rparr> else s)"

definition scheduleReconnect :: "wsLife \<Rightarrow> wsLife" where
  "scheduleReconnect s =
     (if wl_closed s \<or> \<not> wl_auto s then s
      else if wl_reconnecting s then s\<lparr>wl_missed := True\<rparr>
      else s\<lparr>wl_reconnecting := True, wl_attempts := wl_attempts s @ [AttemptStart]\<rparr>)"

section \<open>Steps\<close>

text \<open>One step of a loop of connection \<open>n\<close>: a failed read or write, a missing answer to a heartbeat, or the end of its context.\<close>

inductive watch_step :: "nat \<Rightarrow> wsLife \<Rightarrow> watcher \<Rightarrow> watcher \<Rightarrow> wsLife \<Rightarrow> bool" for n s where
  canceled: "loopCtxDone s n \<Longrightarrow> watch_step n s Watching Ended s"
| failed: "\<not> loopCtxDone s n \<Longrightarrow> watch_step n s Watching Lost s"
| mark: "watch_step n s Lost Marked (markLost n s)"
| schedule: "watch_step n s Marked Ended (scheduleReconnect s)"

text \<open>One step of \<open>connect\<close>.\<close>

inductive connect_step :: "wsLife \<Rightarrow> connectPhase \<Rightarrow> connectPhase \<Rightarrow> wsLife \<Rightarrow> bool" for s where
  closed: "wl_closed s \<Longrightarrow> connect_step s Checking Refused s"
| dial: "\<not> wl_closed s \<Longrightarrow> connect_step s Checking Dialing s"
| dial_failed: "connect_step s Dialing Refused s"
| dialed: "connect_step s Dialing Dialed s"
| refused: "installConn s = None \<Longrightarrow> connect_step s Dialed Refused s"
| install: "installConn s = Some (n, s') \<Longrightarrow> connect_step s Dialed (Replaying n) s'"
| replayed: "connect_step s (Replaying n) (Connected n) s"

text \<open>One step of \<open>attemptReconnect\<close>; the last one is its deferred function.\<close>

inductive attempt_step :: "wsLife \<Rightarrow> attemptPhase \<Rightarrow> attemptPhase \<Rightarrow> wsLife \<Rightarrow> bool" for s where
  stop: "wl_closed s \<Longrightarrow> attempt_step s AttemptStart Leaving s"
| retry: "\<not> wl_closed s \<Longrightarrow> attempt_step s AttemptStart (Attempting Checking) s"
| connecting: "connect_step s ph ph' s' \<Longrightarrow> attempt_step s (Attempting ph) (Attempting ph') s'"
| success: "attempt_step s (Attempting (Connected n)) Leaving s"
| failure: "attempt_step s (Attempting Refused) Waiting s"
| ended: "wl_ctxDone s \<Longrightarrow> attempt_step s Waiting Leaving s"
| again: "attempt_step s Waiting AttemptStart s"
| leave: "attempt_step s Leaving Gone (s\<lparr>wl_reconnecting := False\<rparr>)"

inductive life_step :: "wsLife \<Rightarrow> wsLife \<Rightarrow> bool" where
  reader: "watch_step n s (wl_reader s n) w s' \<Longrightarrow> life_step s (s'\<lparr>wl_reader := (wl_reader s')(n := w)\<rparr>)"
| beat: "watch_step n s (wl_beat s n) w s' \<Longrightarrow> life_step s (s'\<lparr>wl_beat := (wl_beat s')(n := w)\<rparr>)"
| call: "life_step s (s\<lparr>wl_calls := wl_calls s @ [Checking]\<rparr>)"
| called: "i < length (wl_calls s) \<Longrightarrow> connect_step s (wl_calls s ! i) ph s' \<Longrightarrow> life_step s (s'\<lparr>wl_calls := (wl_calls s')[i := ph]\<rparr>)"
| attempt: "i < length (wl_attempts s) \<Longrightarrow> attempt_step s (wl_attempts s ! i) ph s' \<Longrightarrow> life_step s (s'\<lparr>wl_attempts := (wl_attempts s')[i := ph]\<rparr>)"
| close: "life_step s (s\<lparr>wl_closed := True\<rparr>)"
| cancel: "wl_closed s \<Longrightarrow> life_step s (s\<lparr>wl_ctxDone := True\<rparr>)"

text \<open>The steps of the client's own goroutines: the two loops of each connection and the loops that reconnect, without any call of \<open>Connect\<close> or \<open>Close\<close>.\<close>

inductive own_step :: "wsLife \<Rightarrow> wsLife \<Rightarrow> bool" where
  reader: "watch_step n s (wl_reader s n) w s' \<Longrightarrow> own_step s (s'\<lparr>wl_reader := (wl_reader s')(n := w)\<rparr>)"
| beat: "watch_step n s (wl_beat s n) w s' \<Longrightarrow> own_step s (s'\<lparr>wl_beat := (wl_beat s')(n := w)\<rparr>)"
| attempt: "i < length (wl_attempts s) \<Longrightarrow> attempt_step s (wl_attempts s ! i) ph s' \<Longrightarrow> own_step s (s'\<lparr>wl_attempts := (wl_attempts s')[i := ph]\<rparr>)"

definition life_reachable :: "bool \<Rightarrow> wsLife \<Rightarrow> bool" where
  "life_reachable auto s \<longleftrightarrow> life_step\<^sup>*\<^sup>* (newLife auto) s"

inductive_cases watch_stepE: "watch_step n s w w' s'"
inductive_cases connect_stepE: "connect_step s ph ph' s'"
inductive_cases attempt_stepE: "attempt_step s ph ph' s'"
inductive_cases life_stepE: "life_step s s'"
inductive_cases own_stepE: "own_step s s'"

lemma own_step_life: "own_step s s' \<Longrightarrow> life_step s s'"
  by (erule own_stepE) (auto intro: life_step.intros)

section \<open>Invariants\<close>

definition pending :: "wsLife \<Rightarrow> bool" where
  "pending s \<longleftrightarrow> (\<exists>n. wl_reader s n = Marked \<or> wl_beat s n = Marked)"

text \<open>At most one loop that reconnects, and \<open>reconnecting\<close> says whether there is one.\<close>

definition inv_count :: "wsLife \<Rightarrow> bool" where
  "inv_count s \<longleftrightarrow> length (filter (\<lambda>a. a \<noteq> Gone) (wl_attempts s)) = (if wl_reconnecting s then 1 else 0)"

text \<open>Numbers of connections: the last one is current, only earlier ones are canceled, and the others have no loops yet.\<close>

definition inv_ids :: "wsLife \<Rightarrow> bool" where
  "inv_ids s \<longleftrightarrow> (wl_ctxDone s \<longrightarrow> wl_closed s) \<and> wl_current s = (if wl_next s = 0 then None else Some (wl_next s - 1)) \<and>
     (\<forall>n. wl_conn s = Some n \<longrightarrow> Suc n = wl_next s) \<and> (\<forall>k \<in> set (wl_canceled s). Suc k < wl_next s) \<and>
     (\<forall>n \<ge> wl_next s. wl_reader s n = Ended \<and> wl_beat s n = Ended)"

text \<open>An open connection is watched by both loops.\<close>

definition inv_watch :: "wsLife \<Rightarrow> bool" where
  "inv_watch s \<longleftrightarrow> (\<forall>n. wl_conn s = Some n \<and> \<not> wl_closed s \<longrightarrow> wl_reader s n \<in> {Watching, Lost} \<and> wl_beat s n \<in> {Watching, Lost})"

text \<open>
  A client that was connected once and has no connection is about to reconnect, or has missed to.
\<close>

fun settled :: "attemptPhase \<Rightarrow> bool" where
  "settled (Attempting (Replaying n)) = True"
| "settled (Attempting (Connected n)) = True"
| "settled Leaving = True"
| "settled _ = False"

definition inv_recover :: "wsLife \<Rightarrow> bool" where
  "inv_recover s \<longleftrightarrow> wl_auto s \<and> \<not> wl_closed s \<and> wl_conn s = None \<longrightarrow>
     (0 < wl_next s \<longrightarrow> wl_reconnecting s \<or> pending s \<or> wl_missed s) \<and> (\<forall>a \<in> set (wl_attempts s). settled a \<longrightarrow> pending s \<or> wl_missed s)"

lemma filter_update:
  assumes "i < length xs"
  shows "length (filter P (xs[i := x])) + (if P (xs ! i) then 1 else 0) = length (filter P xs) + (if P x then 1 else 0)"
proof -
  have "filter P xs = filter P (take i xs @ xs ! i # drop (Suc i) xs)" using id_take_nth_drop [OF assms] by simp
  then show ?thesis by (simp add: upd_conv_take_nth_drop [OF assms] del: append_take_drop_id)
qed

subsection \<open>The shared steps\<close>

lemma watch_step_frame:
  "watch_step n s w w' s' \<Longrightarrow> wl_auto s' = wl_auto s \<and> wl_closed s' = wl_closed s \<and> wl_ctxDone s' = wl_ctxDone s \<and> wl_next s' = wl_next s \<and> wl_current s' = wl_current s \<and>
    wl_canceled s' = wl_canceled s \<and> wl_reader s' = wl_reader s \<and> wl_beat s' = wl_beat s \<and> wl_calls s' = wl_calls s \<and> (wl_missed s \<longrightarrow> wl_missed s') \<and>
    (wl_conn s' = wl_conn s \<or> wl_conn s = Some n \<and> w' = Marked \<and> wl_conn s' = None) \<and>
    (wl_attempts s' = wl_attempts s \<and> wl_reconnecting s' = wl_reconnecting s \<or>
      \<not> wl_reconnecting s \<and> wl_reconnecting s' \<and> wl_attempts s' = wl_attempts s @ [AttemptStart])"
  by (erule watch_step.cases) (simp_all add: markLost_def scheduleReconnect_def)

lemma connect_step_frame:
  "connect_step s ph ph' s' \<Longrightarrow> wl_auto s' = wl_auto s \<and> wl_closed s' = wl_closed s \<and> wl_ctxDone s' = wl_ctxDone s \<and> wl_calls s' = wl_calls s \<and>
    wl_attempts s' = wl_attempts s \<and> wl_reconnecting s' = wl_reconnecting s \<and> wl_missed s' = wl_missed s"
  by (erule connect_step.cases) (auto simp: installConn_def Let_def split: if_splits)

lemma inv_count_step:
  assumes "life_step s s'" "inv_count s"
  shows "inv_count s'"
  using assms(1)
proof cases
  case (reader n w t)
  then show ?thesis using assms(2) watch_step_frame [OF reader(2)] by (auto simp: inv_count_def)
next
  case (beat n w t)
  then show ?thesis using assms(2) watch_step_frame [OF beat(2)] by (auto simp: inv_count_def)
next
  case (called i ph t)
  then show ?thesis using assms(2) connect_step_frame [OF called(3)] by (auto simp: inv_count_def)
next
  case (attempt i ph t)
  note u = filter_update [OF attempt(2), of "\<lambda>a. a \<noteq> Gone"]
  from attempt(3) show ?thesis
  proof cases
    case leave
    then show ?thesis using u [of Gone] assms(2) attempt(1) by (auto simp: inv_count_def split: if_splits)
  qed (use u [of ph] assms(2) attempt(1) connect_step_frame in \<open>auto simp: inv_count_def\<close>)
qed (use assms(2) in \<open>auto simp: inv_count_def\<close>)

lemma connect_step_cases:
  assumes "connect_step s ph ph' s'"
  shows "s' = s \<and> (ph' = Replaying n \<longrightarrow> ph = Replaying n) \<and> (ph' = Connected n \<longrightarrow> ph = Replaying n) \<or>
    installConn s = Some (wl_next s, s') \<and> ph' = Replaying (wl_next s)"
  using assms by (auto elim: connect_step.cases simp: installConn_def Let_def split: if_splits)

lemma installConn_ids:
  assumes "installConn s = Some (n, s')" "inv_ids s"
  shows "inv_ids s' \<and> inv_watch s' \<and> wl_conn s' = Some n"
proof -
  have "\<forall>k \<in> set (wl_canceled s). k < wl_next s" using assms(2) Suc_lessD unfolding inv_ids_def by blast
  then show ?thesis using assms by (auto simp: installConn_def Let_def inv_ids_def inv_watch_def split: if_splits)
qed

text \<open>A loop of the open connection that has not marked it goes on.\<close>

lemma watch_step_keeps:
  assumes "watch_step n s w w' t" "inv_ids s" "\<not> wl_closed s" "wl_conn t = Some n" "w \<in> {Watching, Lost}"
  shows "w' \<in> {Watching, Lost}"
  using assms(1)
proof cases
  case canceled
  then show ?thesis using assms(2-4) by (auto simp: loopCtxDone_def inv_ids_def)
next
  case mark
  then show ?thesis using assms(4) by (auto simp: markLost_def split: if_splits)
qed (use assms(5) in auto)

lemma inv_watch_frame:
  assumes "inv_watch s" "wl_closed s' = wl_closed s" "wl_conn s' = wl_conn s \<or> wl_conn s' = None"
    "\<And>m. wl_conn s' = Some m \<Longrightarrow> \<not> wl_closed s \<Longrightarrow> wl_reader s m \<in> {Watching, Lost} \<Longrightarrow> wl_reader s' m \<in> {Watching, Lost}"
    "\<And>m. wl_conn s' = Some m \<Longrightarrow> \<not> wl_closed s \<Longrightarrow> wl_beat s m \<in> {Watching, Lost} \<Longrightarrow> wl_beat s' m \<in> {Watching, Lost}"
  shows "inv_watch s'"
  unfolding inv_watch_def
proof (intro allI impI)
  fix m
  assume m: "wl_conn s' = Some m \<and> \<not> wl_closed s'"
  then have "wl_conn s = Some m" "\<not> wl_closed s" using assms(2,3) by auto
  then have "wl_reader s m \<in> {Watching, Lost}" "wl_beat s m \<in> {Watching, Lost}" using assms(1) unfolding inv_watch_def by blast+
  then show "wl_reader s' m \<in> {Watching, Lost} \<and> wl_beat s' m \<in> {Watching, Lost}" using assms(4,5) m \<open>\<not> wl_closed s\<close> by blast
qed

lemma inv_ids_frame:
  assumes "inv_ids s" "wl_closed s' = wl_closed s" "wl_ctxDone s' = wl_ctxDone s" "wl_next s' = wl_next s" "wl_current s' = wl_current s" "wl_canceled s' = wl_canceled s"
    "wl_conn s' = wl_conn s \<or> wl_conn s' = None" "\<And>n. wl_next s \<le> n \<Longrightarrow> wl_reader s' n = wl_reader s n \<and> wl_beat s' n = wl_beat s n"
  shows "inv_ids s'"
proof -
  have "\<forall>n \<ge> wl_next s. wl_reader s' n = Ended \<and> wl_beat s' n = Ended" using assms(1,8) unfolding inv_ids_def by simp
  with assms(7) show ?thesis by (elim disjE) (use assms(1) in \<open>simp_all add: inv_ids_def assms(2-6)\<close>)
qed

lemma inv_ids_watch_step:
  assumes "life_step s s'" "inv_ids s" "inv_watch s"
  shows "inv_ids s' \<and> inv_watch s'"
  using assms(1)
proof cases
  case (reader n w t)
  note F = watch_step_frame [OF reader(2)]
  have "wl_reader s n \<noteq> Ended" using reader(2) by cases auto
  then have n: "n < wl_next s" using assms(2) unfolding inv_ids_def by (meson not_le)
  have c: "wl_conn s' = wl_conn s \<or> wl_conn s' = None" using F reader(1) by auto
  have "inv_ids s'" by (rule inv_ids_frame [OF assms(2)]) (use F reader(1) n c in simp_all)
  moreover have "wl_reader s' m \<in> {Watching, Lost}" if "wl_conn s' = Some m" "\<not> wl_closed s" "wl_reader s m \<in> {Watching, Lost}" for m
    using that watch_step_keeps [OF reader(2) assms(2)] F reader(1) by (cases "m = n") simp_all
  then have "inv_watch s'" by (rule inv_watch_frame [OF assms(3) _ c, rotated 1]) (use F reader(1) in simp_all)
  ultimately show ?thesis ..
next
  case (beat n w t)
  note F = watch_step_frame [OF beat(2)]
  have "wl_beat s n \<noteq> Ended" using beat(2) by cases auto
  then have n: "n < wl_next s" using assms(2) unfolding inv_ids_def by (meson not_le)
  have c: "wl_conn s' = wl_conn s \<or> wl_conn s' = None" using F beat(1) by auto
  have "inv_ids s'" by (rule inv_ids_frame [OF assms(2)]) (use F beat(1) n c in simp_all)
  moreover have "wl_beat s' m \<in> {Watching, Lost}" if "wl_conn s' = Some m" "\<not> wl_closed s" "wl_beat s m \<in> {Watching, Lost}" for m
    using that watch_step_keeps [OF beat(2) assms(2)] F beat(1) by (cases "m = n") simp_all
  then have "inv_watch s'" by (rule inv_watch_frame [OF assms(3) _ c, rotated 2]) (use F beat(1) in simp_all)
  ultimately show ?thesis ..
next
  case (called i ph t)
  have "inv_ids t \<and> inv_watch t" using connect_step_cases [OF called(3)] installConn_ids assms(2,3) by blast
  then show ?thesis using called(1) by (simp add: inv_ids_def inv_watch_def)
next
  case (attempt i ph t)
  have "inv_ids t \<and> inv_watch t"
    using attempt(3)
  proof cases
    case (connecting cp cp')
    then show ?thesis using connect_step_cases [OF connecting(3)] installConn_ids assms(2,3) by blast
  qed (use assms(2,3) in \<open>auto simp: inv_ids_def inv_watch_def\<close>)
  then show ?thesis using attempt(1) by (simp add: inv_ids_def inv_watch_def)
qed (use assms(2,3) in \<open>auto simp: inv_ids_def inv_watch_def\<close>)

subsection \<open>Recovery\<close>

lemma settled_reconnecting: "inv_count s \<Longrightarrow> a \<in> set (wl_attempts s) \<Longrightarrow> settled a \<Longrightarrow> wl_reconnecting s"
proof (rule ccontr)
  assume a: "inv_count s" "a \<in> set (wl_attempts s)" "settled a" "\<not> wl_reconnecting s"
  then have "filter (\<lambda>a. a \<noteq> Gone) (wl_attempts s) = []" by (simp add: inv_count_def)
  then show False using a(2,3) by (auto simp: filter_empty_conv)
qed

text \<open>What a step of a loop leaves of the promise to recover, unless it marks the connection as lost.\<close>

lemma watch_step_recovers:
  assumes "watch_step n s w w' t" "inv_recover s" "inv_count s" "wl_auto s" "\<not> wl_closed s" "wl_conn t = None" "w' \<noteq> Marked"
  shows "(0 < wl_next t \<longrightarrow> wl_reconnecting t \<or> pending s \<and> w \<noteq> Marked \<or> wl_missed t) \<and>
    (\<forall>a \<in> set (wl_attempts t). settled a \<longrightarrow> pending s \<and> w \<noteq> Marked \<or> wl_missed t)"
  using assms(1)
proof cases
  case schedule
  show ?thesis
  proof (cases "wl_reconnecting s")
    case True
    then show ?thesis using schedule assms(4,5) by (simp add: scheduleReconnect_def)
  next
    case False
    then have "\<not> settled a" if "a \<in> set (wl_attempts s)" for a using settled_reconnecting [OF assms(3) that] by blast
    then show ?thesis using False schedule assms(4,5) by (auto simp: scheduleReconnect_def)
  qed
qed (use assms in \<open>auto simp: inv_recover_def\<close>)

lemma watch_recovers_after:
  assumes "watch_step n s w w' t" "inv_recover s" "inv_count s" "w' = Marked \<Longrightarrow> pending s'" "pending s \<Longrightarrow> w \<noteq> Marked \<Longrightarrow> pending s'"
    "wl_auto s' = wl_auto t" "wl_closed s' = wl_closed t" "wl_conn s' = wl_conn t" "wl_next s' = wl_next t" "wl_reconnecting s' = wl_reconnecting t"
    "wl_missed s' = wl_missed t" "wl_attempts s' = wl_attempts t"
  shows "inv_recover s'"
  unfolding inv_recover_def
proof
  assume "wl_auto s' \<and> \<not> wl_closed s' \<and> wl_conn s' = None"
  then have c: "wl_auto s" "\<not> wl_closed s" "wl_conn t = None" using watch_step_frame [OF assms(1)] assms(6-8) by simp_all
  show "(0 < wl_next s' \<longrightarrow> wl_reconnecting s' \<or> pending s' \<or> wl_missed s') \<and> (\<forall>a \<in> set (wl_attempts s'). settled a \<longrightarrow> pending s' \<or> wl_missed s')"
  proof (cases "w' = Marked")
    case False
    from watch_step_recovers [OF assms(1-3) c False] show ?thesis using assms(5) unfolding assms(9-12) by blast
  qed (use assms(4) in simp)
qed

lemma connect_step_recovers:
  assumes "connect_step s ph ph' t" "wl_conn t = None"
  shows "t = s \<and> (settled (Attempting ph') \<longrightarrow> settled (Attempting ph))"
  using assms by (auto elim!: connect_step.cases simp: installConn_def Let_def split: if_splits)

lemma inv_recover_step:
  assumes "life_step s s'" "inv_recover s" "inv_count s" "inv_ids s"
  shows "inv_recover s'"
  using assms(1)
proof cases
  case (reader n w t)
  note F = watch_step_frame [OF reader(2)]
  show ?thesis
  proof (rule watch_recovers_after [OF reader(2) assms(2,3)])
    show "pending s'" if "w = Marked" using that reader(1) unfolding pending_def by auto
    show "pending s'" if p: "pending s" and m: "wl_reader s n \<noteq> Marked"
    proof -
      obtain k where k: "wl_reader s k = Marked \<or> wl_beat s k = Marked" using p unfolding pending_def by blast
      then have "wl_reader s' k = Marked \<or> wl_beat s' k = Marked" using m F reader(1) by (cases "k = n") auto
      then show ?thesis unfolding pending_def by blast
    qed
  qed (use reader(1) in simp_all)
next
  case (beat n w t)
  note F = watch_step_frame [OF beat(2)]
  show ?thesis
  proof (rule watch_recovers_after [OF beat(2) assms(2,3)])
    show "pending s'" if "w = Marked" using that beat(1) unfolding pending_def by auto
    show "pending s'" if p: "pending s" and m: "wl_beat s n \<noteq> Marked"
    proof -
      obtain k where k: "wl_reader s k = Marked \<or> wl_beat s k = Marked" using p unfolding pending_def by blast
      then have "wl_reader s' k = Marked \<or> wl_beat s' k = Marked" using m F beat(1) by (cases "k = n") auto
      then show ?thesis unfolding pending_def by blast
    qed
  qed (use beat(1) in simp_all)
next
  case (called i ph t)
  show ?thesis
  proof (cases "wl_conn t = None")
    case True
    then show ?thesis using connect_step_recovers [OF called(3)] called(1) assms(2) by (auto simp: inv_recover_def pending_def)
  qed (use called(1) in \<open>auto simp: inv_recover_def\<close>)
next
  case (attempt i ph t)
  show ?thesis
  proof (cases "wl_auto s' \<and> \<not> wl_closed s' \<and> wl_conn s' = None")
    case True
    have a: "wl_attempts s ! i \<in> set (wl_attempts s)" using attempt(2) by simp
    have f: "wl_auto t = wl_auto s \<and> wl_closed t = wl_closed s \<and> wl_attempts t = wl_attempts s \<and> wl_missed t = wl_missed s \<and> wl_reader t = wl_reader s \<and> wl_beat t = wl_beat s \<and>
        wl_conn s = None \<and> wl_next t = wl_next s \<and> (wl_reconnecting t \<or> \<not> wl_reconnecting s \<or> wl_attempts s ! i = Leaving) \<and> (settled ph \<longrightarrow> settled (wl_attempts s ! i) \<or> wl_closed s \<or> wl_ctxDone s)"
      using attempt(3)
    proof cases
      case (connecting cp cp')
      then show ?thesis using connect_step_recovers [OF connecting(3)] True attempt(1) by auto
    qed (use True attempt(1) in auto)
    have p: "pending s' = pending s" "wl_missed s' = wl_missed s" using f attempt(1) by (simp_all add: pending_def)
    have h: "pending s \<or> wl_missed s" if "b \<in> set (wl_attempts s)" "settled b" for b using that assms(2) True f attempt(1) unfolding inv_recover_def by auto
    have "pending s' \<or> wl_missed s'" if "b \<in> set (wl_attempts s')" "settled b" for b
    proof -
      have "b = ph \<or> b \<in> set (wl_attempts s)" using that(1) attempt(1) f set_update_subset_insert [of "wl_attempts s" i ph] by auto
      moreover have "\<not> wl_ctxDone s" "\<not> wl_closed s" using assms(4) True f attempt(1) by (auto simp: inv_ids_def)
      ultimately show ?thesis using that(2) f h a p by blast
    qed
    moreover have "wl_reconnecting s' \<or> pending s' \<or> wl_missed s'" if "0 < wl_next s'"
      using that assms(2) True f attempt(1) p h [OF a] unfolding inv_recover_def by auto
    ultimately show ?thesis unfolding inv_recover_def by blast
  qed (use assms(2) in \<open>auto simp: inv_recover_def\<close>)
qed (use assms(2) in \<open>auto simp: inv_recover_def pending_def\<close>)

lemma life_step_auto: "life_step s s' \<Longrightarrow> wl_auto s' = wl_auto s"
  by (erule life_step.cases) (auto dest!: watch_step_frame connect_step_frame elim!: attempt_step.cases)

lemma life_reachable_inv:
  assumes "life_reachable auto s"
  shows "inv_count s \<and> inv_ids s \<and> inv_watch s \<and> inv_recover s \<and> wl_auto s = auto"
  using assms unfolding life_reachable_def
proof (induction rule: rtranclp_induct)
  case base
  then show ?case by (simp add: newLife_def inv_count_def inv_ids_def inv_watch_def inv_recover_def)
next
  case (step s t)
  then show ?case using inv_count_step inv_ids_watch_step inv_recover_step life_step_auto by metis
qed

section \<open>Reaching a connection\<close>

definition can_connect :: "wsLife \<Rightarrow> bool" where
  "can_connect s \<longleftrightarrow> (\<exists>s'. own_step\<^sup>*\<^sup>* s s' \<and> wl_conn s' \<noteq> None \<and> \<not> wl_closed s')"

definition offline :: "wsLife \<Rightarrow> bool" where
  "offline s \<longleftrightarrow> wl_conn s = None \<and> \<not> wl_closed s"

lemma can_connect_step: "own_step s t \<Longrightarrow> can_connect t \<Longrightarrow> can_connect s"
  unfolding can_connect_def by (meson converse_rtranclp_into_rtranclp)

text \<open>A step of the \<open>i\<close>-th reconnect loop that changes nothing else.\<close>

lemma attempt_move:
  assumes "i < length (wl_attempts s)" "attempt_step s (wl_attempts s ! i) ph s" "can_connect (s\<lparr>wl_attempts := (wl_attempts s)[i := ph]\<rparr>)"
  shows "can_connect s"
  using can_connect_step [OF own_step.attempt [OF assms(1,2)] assms(3)] .

lemma offline_attempts [simp]: "offline (s\<lparr>wl_attempts := as\<rparr>) = offline s"
  by (simp add: offline_def)

lemma can_Dialed:
  assumes "offline s" "i < length (wl_attempts s)" "wl_attempts s ! i = Attempting Dialed"
  shows "can_connect s"
proof -
  obtain t where t: "installConn s = Some (wl_next s, t)" "wl_conn t = Some (wl_next s)" "\<not> wl_closed t"
    using assms(1) by (simp add: installConn_def offline_def Let_def)
  have "attempt_step s (wl_attempts s ! i) (Attempting (Replaying (wl_next s))) t"
    unfolding assms(3) by (intro attempt_step.connecting connect_step.install t(1))
  from r_into_rtranclp [of own_step, OF own_step.attempt [OF assms(2) this]] show ?thesis
    unfolding can_connect_def
    by (intro exI [of _ "t\<lparr>wl_attempts := (wl_attempts t)[i := Attempting (Replaying (wl_next s))]\<rparr>"]) (use t(2,3) in simp)
qed

lemma can_Dialing:
  assumes "offline s" "i < length (wl_attempts s)" "wl_attempts s ! i = Attempting Dialing"
  shows "can_connect s"
proof (rule attempt_move [OF assms(2)])
  show "attempt_step s (wl_attempts s ! i) (Attempting Dialed) s" unfolding assms(3) by (intro attempt_step.connecting connect_step.dialed)
  show "can_connect (s\<lparr>wl_attempts := (wl_attempts s)[i := Attempting Dialed]\<rparr>)" by (rule can_Dialed [of _ i]) (use assms in simp_all)
qed

lemma can_Checking:
  assumes "offline s" "i < length (wl_attempts s)" "wl_attempts s ! i = Attempting Checking"
  shows "can_connect s"
proof (rule attempt_move [OF assms(2)])
  show "attempt_step s (wl_attempts s ! i) (Attempting Dialing) s"
    unfolding assms(3) using assms(1) by (intro attempt_step.connecting connect_step.dial) (simp add: offline_def)
  show "can_connect (s\<lparr>wl_attempts := (wl_attempts s)[i := Attempting Dialing]\<rparr>)" by (rule can_Dialing [of _ i]) (use assms in simp_all)
qed

lemma can_Start:
  assumes "offline s" "i < length (wl_attempts s)" "wl_attempts s ! i = AttemptStart"
  shows "can_connect s"
proof (rule attempt_move [OF assms(2)])
  show "attempt_step s (wl_attempts s ! i) (Attempting Checking) s"
    unfolding assms(3) using assms(1) by (intro attempt_step.retry) (simp add: offline_def)
  show "can_connect (s\<lparr>wl_attempts := (wl_attempts s)[i := Attempting Checking]\<rparr>)" by (rule can_Checking [of _ i]) (use assms in simp_all)
qed

lemma can_Waiting:
  assumes "offline s" "i < length (wl_attempts s)" "wl_attempts s ! i = Waiting"
  shows "can_connect s"
proof (rule attempt_move [OF assms(2)])
  show "attempt_step s (wl_attempts s ! i) AttemptStart s" unfolding assms(3) by (rule attempt_step.again)
  show "can_connect (s\<lparr>wl_attempts := (wl_attempts s)[i := AttemptStart]\<rparr>)" by (rule can_Start [of _ i]) (use assms in simp_all)
qed

lemma can_Refused:
  assumes "offline s" "i < length (wl_attempts s)" "wl_attempts s ! i = Attempting Refused"
  shows "can_connect s"
proof (rule attempt_move [OF assms(2)])
  show "attempt_step s (wl_attempts s ! i) Waiting s" unfolding assms(3) by (rule attempt_step.failure)
  show "can_connect (s\<lparr>wl_attempts := (wl_attempts s)[i := Waiting]\<rparr>)" by (rule can_Waiting [of _ i]) (use assms in simp_all)
qed

lemma can_attempt:
  assumes "offline s" "i < length (wl_attempts s)" "\<not> settled (wl_attempts s ! i)" "wl_attempts s ! i \<noteq> Gone"
  shows "can_connect s"
proof (cases "wl_attempts s ! i")
  case (Attempting ph)
  then show ?thesis using assms can_Checking can_Dialing can_Dialed can_Refused by (cases ph) auto
qed (use assms can_Start can_Waiting in auto)

text \<open>A loss that is marked and not yet reported starts a loop, if none is under way.\<close>

lemma can_pending:
  assumes "offline s" "wl_auto s" "pending s" "\<not> wl_reconnecting s"
  shows "can_connect s"
proof -
  have r: "offline (scheduleReconnect s)" "wl_attempts (scheduleReconnect s) = wl_attempts s @ [AttemptStart]"
    using assms by (simp_all add: scheduleReconnect_def offline_def)
  obtain n where "wl_reader s n = Marked \<or> wl_beat s n = Marked" using assms(3) by (auto simp: pending_def)
  then show ?thesis
  proof
    assume m: "wl_reader s n = Marked"
    have "can_connect (scheduleReconnect s\<lparr>wl_reader := (wl_reader (scheduleReconnect s))(n := Ended)\<rparr>)"
      by (rule can_Start [of _ "length (wl_attempts s)"]) (use r in \<open>simp_all add: offline_def\<close>)
    moreover have "watch_step n s (wl_reader s n) Ended (scheduleReconnect s)" unfolding m by (rule watch_step.schedule)
    ultimately show ?thesis using can_connect_step own_step.reader by blast
  next
    assume m: "wl_beat s n = Marked"
    have "can_connect (scheduleReconnect s\<lparr>wl_beat := (wl_beat (scheduleReconnect s))(n := Ended)\<rparr>)"
      by (rule can_Start [of _ "length (wl_attempts s)"]) (use r in \<open>simp_all add: offline_def\<close>)
    moreover have "watch_step n s (wl_beat s n) Ended (scheduleReconnect s)" unfolding m by (rule watch_step.schedule)
    ultimately show ?thesis using can_connect_step own_step.beat by blast
  qed
qed

text \<open>With a loss pending, a loop that has connected or is ending ends, and a new one can start.\<close>

lemma pending_attempts [simp]: "pending (s\<lparr>wl_attempts := as\<rparr>) = pending s" "pending (s\<lparr>wl_reconnecting := b\<rparr>) = pending s"
  by (simp_all add: pending_def)

lemma can_Leaving:
  assumes "offline s" "wl_auto s" "pending s" "i < length (wl_attempts s)" "wl_attempts s ! i = Leaving"
  shows "can_connect s"
proof (rule can_connect_step [OF own_step.attempt [OF assms(4)]])
  show "attempt_step s (wl_attempts s ! i) Gone (s\<lparr>wl_reconnecting := False\<rparr>)" unfolding assms(5) by (rule attempt_step.leave)
  show "can_connect (s\<lparr>wl_reconnecting := False\<rparr>\<lparr>wl_attempts := (wl_attempts (s\<lparr>wl_reconnecting := False\<rparr>))[i := Gone]\<rparr>)"
    by (rule can_pending) (use assms in \<open>simp_all add: offline_def\<close>)
qed

lemma can_Connected:
  assumes "offline s" "wl_auto s" "pending s" "i < length (wl_attempts s)" "wl_attempts s ! i = Attempting (Connected n)"
  shows "can_connect s"
proof (rule attempt_move [OF assms(4)])
  show "attempt_step s (wl_attempts s ! i) Leaving s" unfolding assms(5) by (rule attempt_step.success)
  show "can_connect (s\<lparr>wl_attempts := (wl_attempts s)[i := Leaving]\<rparr>)" by (rule can_Leaving [of _ i]) (use assms in simp_all)
qed

lemma can_Replaying:
  assumes "offline s" "wl_auto s" "pending s" "i < length (wl_attempts s)" "wl_attempts s ! i = Attempting (Replaying n)"
  shows "can_connect s"
proof (rule attempt_move [OF assms(4)])
  show "attempt_step s (wl_attempts s ! i) (Attempting (Connected n)) s" unfolding assms(5) by (intro attempt_step.connecting connect_step.replayed)
  show "can_connect (s\<lparr>wl_attempts := (wl_attempts s)[i := Attempting (Connected n)]\<rparr>)" by (rule can_Connected [of _ i n]) (use assms in simp_all)
qed

lemma can_settled:
  assumes "offline s" "wl_auto s" "pending s" "i < length (wl_attempts s)" "settled (wl_attempts s ! i)"
  shows "can_connect s"
  using assms can_Leaving can_Connected can_Replaying by (cases "wl_attempts s ! i" rule: settled.cases) auto

section \<open>Delays\<close>

text \<open>
  The delays of \<open>attemptReconnect\<close> in nanoseconds.  \<open>time.Duration(x)\<close> of a floating-point number drops its fraction; \<open>r\<close> is the result of \<open>rand.Float64\<close>.
\<close>

definition go_truncate :: "rat \<Rightarrow> int" where
  "go_truncate x = (if x < 0 then \<lceil>x\<rceil> else \<lfloor>x\<rfloor>)"

definition maxBackoff :: int where "maxBackoff = 60000000000"
definition firstBackoff :: int where "firstBackoff = 1000000000"

definition growBackoff :: "int \<Rightarrow> int" where
  "growBackoff backoff = (if backoff * 2 > maxBackoff then maxBackoff else backoff * 2)"

definition reconnectJitter :: "rat \<Rightarrow> int \<Rightarrow> int" where
  "reconnectJitter r backoff = go_truncate (r * (1 / 2) - 1 / 4) * backoff"

text \<open>
  What the timer is set to: first by \<open>NewTimer\<close>, then by \<open>Reset\<close> each time it has fired, with the doubled backoff and its jitter.  The random number of the \<open>k\<close>-th reset is \<open>r k\<close>.
\<close>

fun reconnectTimer :: "(nat \<Rightarrow> rat) \<Rightarrow> nat \<Rightarrow> int" where
  "reconnectTimer r 0 = firstBackoff"
| "reconnectTimer r (Suc k) = (let backoff = (growBackoff ^^ Suc k) firstBackoff in backoff + reconnectJitter (r k) backoff)"

text \<open>
  When the attempts start, if all fail and the \<open>k\<close>-th takes \<open>d k\<close>: the timer runs from the start of the attempt, and the next attempt starts when both the attempt has returned and the timer has fired.
\<close>

fun attemptStart :: "(nat \<Rightarrow> rat) \<Rightarrow> (nat \<Rightarrow> int) \<Rightarrow> nat \<Rightarrow> int" where
  "attemptStart r d 0 = 0"
| "attemptStart r d (Suc k) = max (attemptStart r d k + d k) (attemptStart r d k + reconnectTimer r k)"

lemma growBackoff_pow: "(growBackoff ^^ k) firstBackoff = 1000000000 * min 60 (2 ^ k)"
proof (induction k)
  case 0
  then show ?case by (simp add: firstBackoff_def)
next
  case (Suc k)
  then show ?case by (auto simp: growBackoff_def maxBackoff_def min_def)
qed

lemma go_truncate_small: "-1 < x \<Longrightarrow> x < 1 \<Longrightarrow> go_truncate x = 0"
  unfolding go_truncate_def by (auto simp: ceiling_eq_iff floor_eq_iff)

section \<open>Properties\<close>

text \<open>
  In every interleaving an open connection of a client that is not closed is watched by both of its loops, which have not given it up, and there is at most one loop that reconnects, for which
  the flag stands.
\<close>

theorem connection_watched:
  assumes "life_reachable auto s"
  shows "(\<forall>n. wl_conn s = Some n \<and> \<not> wl_closed s \<longrightarrow> wl_reader s n \<in> {Watching, Lost} \<and> wl_beat s n \<in> {Watching, Lost}) \<and>
    length (filter (\<lambda>a. a \<noteq> Gone) (wl_attempts s)) = (if wl_reconnecting s then 1 else 0)"
  using life_reachable_inv [OF assms] unfolding inv_watch_def inv_count_def by blast

text \<open>
  C32: after a connection is lost the client can connect again by itself, unless it is closed or a loss was reported while a reconnect was under way: from every such state that is reachable, some
  sequence of steps of its own goroutines, the two loops of each connection and the reconnect loop, leads to a new connection.  No call of \<open>Connect\<close>, neither a new one nor one under way, takes part.
\<close>

theorem lost_connection_recovers:
  assumes "life_reachable True s" "\<not> wl_closed s" "wl_conn s = None" "0 < wl_next s" "\<not> wl_missed s"
  shows "\<exists>s'. own_step\<^sup>*\<^sup>* s s' \<and> wl_conn s' \<noteq> None \<and> \<not> wl_closed s'"
proof -
  have inv: "inv_count s" "inv_recover s" "wl_auto s" using life_reachable_inv [OF assms(1)] by simp_all
  have o: "offline s" using assms(2,3) by (simp add: offline_def)
  have "can_connect s"
  proof (cases "wl_reconnecting s")
    case True
    then have "filter (\<lambda>a. a \<noteq> Gone) (wl_attempts s) \<noteq> []" using inv(1) by (auto simp: inv_count_def)
    then obtain i where i: "i < length (wl_attempts s)" "wl_attempts s ! i \<noteq> Gone" by (auto simp: filter_empty_conv in_set_conv_nth)
    show ?thesis
    proof (cases "settled (wl_attempts s ! i)")
      case True
      then have "pending s" using inv(2,3) assms(2,3,5) i(1) nth_mem unfolding inv_recover_def by blast
      then show ?thesis using can_settled [OF o inv(3)] i(1) True by blast
    qed (use can_attempt [OF o] i in blast)
  next
    case False
    then have "pending s" using inv(2,3) assms(2-5) unfolding inv_recover_def by blast
    then show ?thesis using can_pending [OF o inv(3)] False by blast
  qed
  then show ?thesis by (simp add: can_connect_def)
qed

text \<open>
  The timer between attempts to reconnect is set to exactly 1 second first and to 2, 4, 8, 16, 32 and then always 60 seconds after that, whatever random numbers are drawn: the jitter is
  converted to a whole number before it is multiplied, and is zero.  The timer runs during the attempt, so the next attempt starts exactly that long after the start of the last one, or
  when that one has returned, if it takes longer.
\<close>

theorem reconnect_delays_exact:
  assumes "\<And>k. 0 \<le> r k \<and> r k < 1"
  shows "reconnectTimer r k = 1000000000 * min 60 (2 ^ k) \<and> attemptStart r d (Suc k) - attemptStart r d k = max (d k) (1000000000 * min 60 (2 ^ k))"
proof -
  have "go_truncate (r k * (1 / 2) - 1 / 4) = 0" for k by (rule go_truncate_small) (use assms [of k] in linarith)+
  then have "reconnectTimer r k = 1000000000 * min 60 (2 ^ k)"
    using growBackoff_pow [of k] by (cases k) (simp_all only: reconnectTimer.simps reconnectJitter_def Let_def, simp_all add: firstBackoff_def)
  then show ?thesis by (simp add: max_def)
qed

section \<open>A client that stays disconnected\<close>

text \<open>A run by choices: the next step of a loop, of a call or of a reconnect loop, where dialing succeeds.\<close>

datatype choice = DoReader nat | DoBeat nat | DoCall | DoCalled nat | DoAttempt nat

definition watchNext :: "nat \<Rightarrow> wsLife \<Rightarrow> watcher \<Rightarrow> watcher \<times> wsLife" where
  "watchNext n s w = (case w of
       Watching \<Rightarrow> (if loopCtxDone s n then Ended else Lost, s)
     | Lost \<Rightarrow> (Marked, markLost n s)
     | Marked \<Rightarrow> (Ended, scheduleReconnect s)
     | Ended \<Rightarrow> (Ended, s))"

definition connectNext :: "wsLife \<Rightarrow> connectPhase \<Rightarrow> connectPhase \<times> wsLife" where
  "connectNext s ph = (case ph of
       Checking \<Rightarrow> (if wl_closed s then Refused else Dialing, s)
     | Dialing \<Rightarrow> (Dialed, s)
     | Dialed \<Rightarrow> (case installConn s of None \<Rightarrow> (Refused, s) | Some (n, s') \<Rightarrow> (Replaying n, s'))
     | Replaying n \<Rightarrow> (Connected n, s)
     | ph \<Rightarrow> (ph, s))"

definition attemptNext :: "wsLife \<Rightarrow> attemptPhase \<Rightarrow> attemptPhase \<times> wsLife" where
  "attemptNext s a = (case a of
       AttemptStart \<Rightarrow> (if wl_closed s then Leaving else Attempting Checking, s)
     | Attempting (Connected n) \<Rightarrow> (Leaving, s)
     | Attempting Refused \<Rightarrow> (Waiting, s)
     | Attempting ph \<Rightarrow> (case connectNext s ph of (ph', s') \<Rightarrow> (Attempting ph', s'))
     | Waiting \<Rightarrow> (AttemptStart, s)
     | Leaving \<Rightarrow> (Gone, s\<lparr>wl_reconnecting := False\<rparr>)
     | Gone \<Rightarrow> (Gone, s))"

fun takeChoice :: "choice \<Rightarrow> wsLife \<Rightarrow> wsLife" where
  "takeChoice (DoReader n) s = (case watchNext n s (wl_reader s n) of (w, s') \<Rightarrow> s'\<lparr>wl_reader := (wl_reader s')(n := w)\<rparr>)"
| "takeChoice (DoBeat n) s = (case watchNext n s (wl_beat s n) of (w, s') \<Rightarrow> s'\<lparr>wl_beat := (wl_beat s')(n := w)\<rparr>)"
| "takeChoice DoCall s = s\<lparr>wl_calls := wl_calls s @ [Checking]\<rparr>"
| "takeChoice (DoCalled i) s = (if i < length (wl_calls s) then case connectNext s (wl_calls s ! i) of (ph, s') \<Rightarrow> s'\<lparr>wl_calls := (wl_calls s')[i := ph]\<rparr> else s)"
| "takeChoice (DoAttempt i) s = (if i < length (wl_attempts s) then case attemptNext s (wl_attempts s ! i) of (ph, s') \<Rightarrow> s'\<lparr>wl_attempts := (wl_attempts s')[i := ph]\<rparr> else s)"

lemma watchNext_step: "watchNext n s w = (w', s') \<Longrightarrow> w = Ended \<and> w' = Ended \<and> s' = s \<or> watch_step n s w w' s'"
  by (cases w) (auto simp: watchNext_def intro: watch_step.intros)

lemma connectNext_step: "connectNext s ph = (ph', s') \<Longrightarrow> ph' = ph \<and> s' = s \<or> connect_step s ph ph' s'"
  by (cases ph) (auto simp: connectNext_def intro: connect_step.intros split: option.splits if_splits)

lemma attemptNext_step: "attemptNext s a = (a', s') \<Longrightarrow> a' = a \<and> s' = s \<or> attempt_step s a a' s'"
proof (cases a)
  case (Attempting ph)
  assume "attemptNext s a = (a', s')"
  then show ?thesis using Attempting connectNext_step [of s ph] by (cases ph) (auto simp: attemptNext_def intro: attempt_step.intros split: prod.splits)
qed (auto simp: attemptNext_def intro: attempt_step.intros split: if_splits)

lemma takeChoice_step: "takeChoice ch s = s \<or> life_step s (takeChoice ch s)"
proof (cases ch)
  case (DoReader n)
  obtain w t where w: "watchNext n s (wl_reader s n) = (w, t)" by fastforce
  from watchNext_step [OF w] show ?thesis
  proof
    assume e: "wl_reader s n = Ended \<and> w = Ended \<and> t = s"
    then have "(wl_reader s)(n := w) = wl_reader s" by auto
    then show ?thesis using DoReader w e by simp
  qed (use DoReader w life_step.reader in auto)
next
  case (DoBeat n)
  obtain w t where w: "watchNext n s (wl_beat s n) = (w, t)" by fastforce
  from watchNext_step [OF w] show ?thesis
  proof
    assume e: "wl_beat s n = Ended \<and> w = Ended \<and> t = s"
    then have "(wl_beat s)(n := w) = wl_beat s" by auto
    then show ?thesis using DoBeat w e by simp
  qed (use DoBeat w life_step.beat in auto)
next
  case (DoCalled i)
  obtain ph t where w: "connectNext s (wl_calls s ! i) = (ph, t)" by fastforce
  from connectNext_step [OF w] show ?thesis using DoCalled w life_step.called [of i s ph t] by auto
next
  case (DoAttempt i)
  obtain ph t where w: "attemptNext s (wl_attempts s ! i) = (ph, t)" by fastforce
  from attemptNext_step [OF w] show ?thesis using DoAttempt w life_step.attempt [of i s ph t] by auto
qed (auto intro: life_step.intros)

lemma choices_reachable: "life_reachable auto (fold takeChoice chs (newLife auto))"
proof -
  have "life_step\<^sup>*\<^sup>* s (fold takeChoice chs s)" for s
    by (induction chs arbitrary: s) (auto, metis takeChoice_step converse_rtranclp_into_rtranclp)
  then show ?thesis by (simp add: life_reachable_def)
qed

lemma no_own_step:
  assumes "\<forall>n. wl_reader s n = Ended \<and> wl_beat s n = Ended" "wl_attempts s = [Gone]"
  shows "\<not> own_step s s'"
proof
  assume "own_step s s'"
  then show False using assms by cases (auto elim: watch_stepE attempt_stepE)
qed

text \<open>The first connection is lost and reported; the reconnect loop opens the second one, both of whose loops fail while the loop is still replaying the subscriptions.\<close>

definition unlucky_run :: "choice list" where
  "unlucky_run = DoCall # replicate 4 (DoCalled 0) @ replicate 3 (DoReader 0) @ replicate 4 (DoAttempt 0) @ DoBeat 0 # replicate 3 (DoReader 1) @ replicate 3 (DoBeat 1) @
     replicate 3 (DoAttempt 0)"

text \<open>
  C33: a loss can be missed for good.  If both loops of a connection fail before the reconnect loop that opened it has returned, their reports are dropped, and the client is left without a
  connection, open, with automatic reconnects on, and with no loop that is left to reconnect: its own goroutines have no step left.
\<close>

theorem reconnect_can_be_missed:
  "\<exists>s. life_reachable True s \<and> \<not> wl_closed s \<and> wl_conn s = None \<and> 0 < wl_next s \<and> wl_auto s \<and> \<not> wl_reconnecting s \<and>
     wl_attempts s = [Gone] \<and> (\<forall>n. wl_reader s n = Ended \<and> wl_beat s n = Ended) \<and> wl_calls s = [Connected 0] \<and> \<not> (\<exists>s'. own_step s s')"
proof -
  let ?s = "fold takeChoice unlucky_run (newLife True)"
  have s: "\<not> wl_closed ?s \<and> wl_conn ?s = None \<and> 0 < wl_next ?s \<and> wl_auto ?s \<and> \<not> wl_reconnecting ?s \<and>
     wl_attempts ?s = [Gone] \<and> (\<forall>n. wl_reader ?s n = Ended \<and> wl_beat ?s n = Ended) \<and> wl_calls ?s = [Connected 0]"
    by (simp add: unlucky_run_def newLife_def numeral_eq_Suc watchNext_def connectNext_def attemptNext_def installConn_def loopCtxDone_def markLost_def scheduleReconnect_def)
  moreover from s have "\<not> (\<exists>s'. own_step ?s s')" using no_own_step [of ?s] by blast
  ultimately show ?thesis using choices_reachable by blast
qed

theorem connection_watched_witness:
  "\<exists>s. life_reachable True s \<and> wl_conn s = Some 0 \<and> wl_reader s 0 \<in> {Watching, Lost} \<and> wl_beat s 0 \<in> {Watching, Lost}"
proof -
  let ?s = "fold takeChoice (DoCall # replicate 4 (DoCalled 0)) (newLife True)"
  have r: "life_reachable True ?s" by (rule choices_reachable)
  have "wl_conn ?s = Some 0" "\<not> wl_closed ?s" by code_simp+
  then show ?thesis using r connection_watched [OF r] by blast
qed

theorem lost_connection_recovers_witness:
  "\<exists>s s'. life_reachable True s \<and> wl_conn s = None \<and> own_step\<^sup>*\<^sup>* s s' \<and> wl_conn s' \<noteq> None"
proof -
  let ?s = "fold takeChoice (DoCall # replicate 4 (DoCalled 0) @ replicate 3 (DoReader 0)) (newLife True)"
  have r: "life_reachable True ?s" by (rule choices_reachable)
  have "\<not> wl_closed ?s" "wl_conn ?s = None" "0 < wl_next ?s" "\<not> wl_missed ?s" by code_simp+
  then show ?thesis using r lost_connection_recovers [OF r] by blast
qed

theorem reconnect_delays_exact_witness:
  "reconnectTimer (\<lambda>k. 9 / 10) 3 = 8000000000 \<and> attemptStart (\<lambda>k. 9 / 10) (\<lambda>k. 10000000000) 4 - attemptStart (\<lambda>k. 9 / 10) (\<lambda>k. 10000000000) 3 = 10000000000"
  using reconnect_delays_exact [of "\<lambda>k. 9 / 10" 3 "\<lambda>k. 10000000000"] by simp

end
