(* ===== verification/Rtds.thy ===== *)
theory Rtds
  imports RestDecimal "HOL-Library.Multiset"
begin

text \<open>
  The client of the real-time data socket, \<open>clob/ws/rtds\<close>: the registrations of local interests (\<open>subscriptions.go\<close>), the requests to the service that are derived from
  them, the filtering of messages (\<open>client.go\<close>) and the values in them (\<open>types.go\<close>).  The life cycle of its connection is the subject of \<open>RtdsConnection\<close>.
\<close>

section \<open>Data\<close>

text \<open>
  JSON values.  The fields of an object stand in ascending order of their names, so that \<open>reflect.DeepEqual\<close> of two decoded values is equality; numbers keep their spelling.
\<close>

datatype jvalue = JNull | JBool bool | JNumber string | JString string | JArray "jvalue list" | JObject "(string \<times> jvalue) list"

definition ActionSubscribe :: string where "ActionSubscribe = ''subscribe''"
definition ActionUnsubscribe :: string where "ActionUnsubscribe = ''unsubscribe''"

record Credentials =
  ck_Key :: string
  ck_Secret :: string
  ck_Passphrase :: string

text \<open>The filters of a caller, of type \<open>any\<close>, are represented by the JSON value they encode to.\<close>

record Subscription =
  rs_Topic :: string
  rs_Type :: string
  rs_Filters :: "jvalue option"
  rs_CLOBAuth :: "Credentials option"

record SubscriptionRequest =
  rq_Action :: string
  rq_Subscriptions :: "Subscription list"

record RtdsMessage =
  rm_Topic :: string
  rm_Type :: string
  rm_Timestamp :: int
  rm_Payload :: string

record CryptoPrice =
  cp_Symbol :: string
  cp_Timestamp :: int
  cp_Value :: string

record ChainlinkPrice =
  lp_Symbol :: string
  lp_Timestamp :: int
  lp_Value :: string

record ChainlinkTWAPPrice =
  tw_Symbol :: string
  tw_Timestamp :: int
  tw_Value :: string
  tw_WindowSeconds :: int

record CommentProfile =
  cf_BaseAddress :: string
  cf_DisplayUsernamePublic :: bool
  cf_Name :: string
  cf_ProxyWallet :: "string option"
  cf_Pseudonym :: "string option"

record Comment =
  co_ID :: string
  co_Body :: string
  co_CreatedAt :: int
  co_ParentCommentID :: "string option"
  co_ParentEntityID :: int
  co_ParentEntityType :: string
  co_Profile :: CommentProfile
  co_ReactionCount :: int
  co_ReplyAddress :: "string option"
  co_ReportCount :: int
  co_UserAddress :: string

definition CommentCreated :: string where "CommentCreated = ''comment_created''"
definition CommentRemoved :: string where "CommentRemoved = ''comment_removed''"
definition ReactionCreated :: string where "ReactionCreated = ''reaction_created''"
definition ReactionRemoved :: string where "ReactionRemoved = ''reaction_removed''"

definition ChainlinkTWAP30Seconds :: int where "ChainlinkTWAP30Seconds = 30"
definition ChainlinkTWAP60Seconds :: int where "ChainlinkTWAP60Seconds = 60"

text \<open>
  The codec: the deterministic encoding of a subscription and its decoding, the fields of an object, strings, numbers, the structs of the wire, comments, and messages alone and in arrays.
\<close>

record rtdsCodec =
  rj_encode :: "Subscription \<Rightarrow> string result"
  rj_snapshot :: "string \<Rightarrow> Subscription result"
  rj_value :: "jvalue \<Rightarrow> string result"
  rj_payload :: "string \<Rightarrow> (string \<times> jvalue) list result"
  rj_string :: "string \<Rightarrow> string result"
  rj_number :: "string \<Rightarrow> string result"
  rj_price :: "string \<Rightarrow> (string \<times> int \<times> string) result"
  rj_twap :: "string \<Rightarrow> (string \<times> string \<times> string \<times> int \<times> int) result"
  rj_comment :: "string \<Rightarrow> Comment result"
  rj_message :: "string \<Rightarrow> RtdsMessage result"
  rj_messages :: "string \<Rightarrow> RtdsMessage option list result"

text \<open>What \<open>MarshalJSON\<close> encodes: the filters of Chainlink prices as a string.\<close>

definition MarshalJSON :: "rtdsCodec \<Rightarrow> Subscription \<Rightarrow> string result" where
  "MarshalJSON J s =
     (case rs_Filters s of
        Some v \<Rightarrow> (if rs_Topic s = ''crypto_prices_chainlink''
          then rbind (rj_value J v) (\<lambda>filtersJSON. rj_encode J (s\<lparr>rs_Filters := Some (JString filtersJSON)\<rparr>))
          else rj_encode J s)
      | None \<Rightarrow> rj_encode J s)"

section \<open>Registrations\<close>

text \<open>The closure \<open>matches\<close> of a registration is given by the variables it captures.\<close>

record registration =
  rg_sub :: Subscription
  rg_identity :: string
  rg_symbols :: "string list"
  rg_fields :: "(string \<times> jvalue) list"

fun symbolFilters :: "jvalue list \<Rightarrow> string list result" where
  "symbolFilters [] = Inr []"
| "symbolFilters (JString s # vs) = rbind (symbolFilters vs) (\<lambda>ss. Inr (s # ss))"
| "symbolFilters (_ # vs) = Inl (Msg ''rtds: symbol filters must contain only strings'')"

definition filterParts :: "jvalue option \<Rightarrow> (string list \<times> (string \<times> jvalue) list) result" where
  "filterParts filters = (case filters of
       None \<Rightarrow> Inr ([], [])
     | Some (JArray vs) \<Rightarrow> rbind (symbolFilters vs) (\<lambda>symbols. Inr (symbols, []))
     | Some (JObject object) \<Rightarrow> Inr ([], object)
     | Some _ \<Rightarrow> Inl (Msg ''rtds: filters must be a symbol array or payload-field object''))"

definition newRegistration :: "rtdsCodec \<Rightarrow> Subscription \<Rightarrow> registration result" where
  "newRegistration J sub =
     (if rs_Topic sub = [] \<or> rs_Type sub = [] then Inl (Msg ''rtds: topic and type are required (use * for all types)'')
      else rbind (wrap_err ''rtds: subscription'' (rj_encode J sub)) (\<lambda>data.
           rbind (wrap_err ''rtds: subscription'' (rj_snapshot J data)) (\<lambda>snapshot.
           rbind (filterParts (rs_Filters snapshot)) (\<lambda>(symbols, object).
             Inr \<lparr>rg_sub = snapshot, rg_identity = data, rg_symbols = symbols, rg_fields = object\<rparr>))))"

definition matches :: "rtdsCodec \<Rightarrow> registration \<Rightarrow> RtdsMessage \<Rightarrow> bool" where
  "matches J entry m =
     (let sub = rg_sub entry in
      if rm_Topic m \<noteq> rs_Topic sub \<or> (rs_Type sub \<noteq> ''*'' \<and> rm_Type m \<noteq> rs_Type sub) then False
      else if rg_symbols entry = [] \<and> rg_fields entry = [] then True
      else case rj_payload J (rm_Payload m) of
        Inl _ \<Rightarrow> False
      | Inr payload \<Rightarrow>
          if rg_symbols entry \<noteq> []
          then (case map_of payload ''symbol'' of Some (JString symbol) \<Rightarrow> symbol \<in> set (rg_symbols entry) | _ \<Rightarrow> False)
          else list_all (\<lambda>(key, want). map_of payload key = Some want) (rg_fields entry))"

definition sameCredentials :: "Credentials option \<Rightarrow> Credentials option \<Rightarrow> bool" where
  "sameCredentials a b = (case (a, b) of (Some x, Some y) \<Rightarrow> x = y | (None, None) \<Rightarrow> True | _ \<Rightarrow> False)"

definition sameInterest :: "Subscription \<Rightarrow> Subscription \<Rightarrow> bool" where
  "sameInterest a b \<longleftrightarrow> rs_Topic a = rs_Topic b \<and> rs_Type a = rs_Type b"

fun addServer :: "Subscription list \<Rightarrow> registration list \<Rightarrow> Subscription list" where
  "addServer subs [] = subs"
| "addServer subs (entry # entries) =
     (let sub = rg_sub entry
      in if list_ex (\<lambda>existing. sameInterest existing sub) subs then addServer subs entries
         else addServer (subs @ [sub\<lparr>rs_Filters := None\<rparr>]) entries)"

definition serverSubscriptions :: "registration list \<Rightarrow> Subscription list" where
  "serverSubscriptions entries = addServer [] entries"

definition serverDifference :: "Subscription list \<Rightarrow> Subscription list \<Rightarrow> Subscription list" where
  "serverDifference left right = filter (\<lambda>sub. \<not> list_ex (\<lambda>other. sameInterest other sub) right) left"

section \<open>The client\<close>

text \<open>
  Connections are numbered.  \<open>rt_sent\<close> records the requests that were written, with their connection, and \<open>rt_broken\<close> the connections whose socket was closed after a failed write.
\<close>

record rtdsClient =
  rt_creds :: "Credentials option"
  rt_conn :: "nat option"
  rt_closed :: bool
  rt_subs :: "registration list"
  rt_conns :: nat
  rt_ticks :: nat
  rt_sent :: "(nat \<times> SubscriptionRequest) list"
  rt_broken :: "nat list"

definition newRtds :: rtdsClient where
  "newRtds = \<lparr>rt_creds = None, rt_conn = None, rt_closed = False, rt_subs = [], rt_conns = 0, rt_ticks = 0, rt_sent = [], rt_broken = []\<rparr>"

text \<open>Outside: the error of the context of a call, whether a request can be encoded, and the error of a write, at the \<open>n\<close>-th interaction.\<close>

record rtdsEnv =
  re_ctx :: "nat \<Rightarrow> go_error option"
  re_marshal :: "SubscriptionRequest \<Rightarrow> go_error option"
  re_write :: "nat \<Rightarrow> SubscriptionRequest \<Rightarrow> go_error option"

definition WithCredentials :: "Credentials option \<Rightarrow> rtdsClient \<Rightarrow> rtdsClient" where
  "WithCredentials creds c = c\<lparr>rt_creds := creds\<rparr>"

definition IsConnected :: "rtdsClient \<Rightarrow> bool" where
  "IsConnected c \<longleftrightarrow> rt_conn c \<noteq> None \<and> \<not> rt_closed c"

definition SubscriptionCount :: "rtdsClient \<Rightarrow> nat" where
  "SubscriptionCount c = length (rt_subs c)"

definition ctxErr :: "rtdsEnv \<Rightarrow> (rtdsClient, unit) act" where
  "ctxErr E = (\<lambda>c. (case re_ctx E (rt_ticks c) of Some e \<Rightarrow> Inl e | None \<Rightarrow> Inr (), c\<lparr>rt_ticks := Suc (rt_ticks c)\<rparr>))"

definition sendJSON :: "rtdsEnv \<Rightarrow> SubscriptionRequest \<Rightarrow> (rtdsClient, unit) act" where
  "sendJSON E v = (\<lambda>c. case re_marshal E v of
       Some e \<Rightarrow> (Inl e, c)
     | None \<Rightarrow> (case rt_conn c of
           None \<Rightarrow> (Inl (Msg ''not connected''), c)
         | Some k \<Rightarrow>
             let n = rt_ticks c; c = c\<lparr>rt_ticks := Suc n\<rparr>
             in (case re_write E n v of
                   Some e \<Rightarrow> (Inl e, c\<lparr>rt_broken := k # rt_broken c\<rparr>)
                 | None \<Rightarrow> (Inr (), c\<lparr>rt_sent := rt_sent c @ [(k, v)]\<rparr>))))"

definition syncSubscriptions :: "rtdsEnv \<Rightarrow> string \<Rightarrow> Subscription list \<Rightarrow> (rtdsClient, unit) act" where
  "syncSubscriptions E action subs = (\<lambda>c.
     if subs = [] \<or> \<not> IsConnected c then (Inr (), c)
     else sendJSON E \<lparr>rq_Action = action, rq_Subscriptions = subs\<rparr> c)"

definition conflicts :: "registration \<Rightarrow> registration \<Rightarrow> bool" where
  "conflicts entry existing \<longleftrightarrow>
     sameInterest (rg_sub existing) (rg_sub entry) \<and> \<not> sameCredentials (rs_CLOBAuth (rg_sub existing)) (rs_CLOBAuth (rg_sub entry))"

definition Subscribe :: "rtdsEnv \<Rightarrow> rtdsCodec \<Rightarrow> Subscription \<Rightarrow> (rtdsClient, unit) act" where
  "Subscribe E J sub =
     bindE (ctxErr E) (\<lambda>_.
     bindE (lift (newRegistration J sub)) (\<lambda>entry.
     bindE (ctxErr E) (\<lambda>_ c.
       if rt_closed c then (Inl (Msg ''client closed''), c)
       else if list_ex (conflicts entry) (rt_subs c) then (Inl (Msg ''rtds: conflicting credentials for topic/type''), c)
       else let before = serverSubscriptions (rt_subs c);
                c = c\<lparr>rt_subs := rt_subs c @ [entry]\<rparr>
            in syncSubscriptions E ActionSubscribe (serverDifference (serverSubscriptions (rt_subs c)) before) c)))"

text \<open>The loop with \<open>slices.Delete\<close>: the first registration with an identity is removed.\<close>

fun deleteFirst :: "string \<Rightarrow> registration list \<Rightarrow> registration list" where
  "deleteFirst identity [] = []"
| "deleteFirst identity (existing # rest) =
     (if rg_identity existing = identity then rest else existing # deleteFirst identity rest)"

definition Unsubscribe :: "rtdsEnv \<Rightarrow> rtdsCodec \<Rightarrow> Subscription \<Rightarrow> (rtdsClient, unit) act" where
  "Unsubscribe E J sub =
     bindE (lift (newRegistration J sub)) (\<lambda>entry c.
       let before = serverSubscriptions (rt_subs c);
           c = c\<lparr>rt_subs := deleteFirst (rg_identity entry) (rt_subs c)\<rparr>
       in syncSubscriptions E ActionUnsubscribe (serverDifference before (serverSubscriptions (rt_subs c))) c)"

definition connect :: "rtdsEnv \<Rightarrow> go_error option \<Rightarrow> (rtdsClient, unit) act" where
  "connect E dial = (\<lambda>c.
     if rt_closed c then (Inl (Msg ''client closed''), c)
     else (case dial of
         Some e \<Rightarrow> (Inl (Wrap ''dial'' e), c)
       | None \<Rightarrow>
           if rt_conn c \<noteq> None then (Inl (Msg ''client already connected''), c)
           else let c = c\<lparr>rt_conn := Some (rt_conns c), rt_conns := Suc (rt_conns c)\<rparr>;
                    subs = serverSubscriptions (rt_subs c)
                in if subs \<noteq> [] then wrapE ''resubscribe'' (sendJSON E \<lparr>rq_Action = ActionSubscribe, rq_Subscriptions = subs\<rparr>) c
                   else (Inr (), c)))"

text \<open>The reader of a connection that fails gives the connection up.\<close>

definition loseConn :: "nat \<Rightarrow> rtdsClient \<Rightarrow> rtdsClient" where
  "loseConn k c = (if rt_conn c = Some k then c\<lparr>rt_conn := None\<rparr> else c)"

definition Close :: "rtdsClient \<Rightarrow> rtdsClient" where
  "Close c = (if rt_closed c then c else c\<lparr>rt_closed := True, rt_subs := []\<rparr>)"

section \<open>Topics\<close>

definition cryptoPricesSub :: "string list \<Rightarrow> Subscription" where
  "cryptoPricesSub symbols = \<lparr>rs_Topic = ''crypto_prices'', rs_Type = ''update'',
     rs_Filters = (if symbols \<noteq> [] then Some (JArray (map JString symbols)) else None), rs_CLOBAuth = None\<rparr>"

definition chainlinkPricesSub :: "string \<Rightarrow> Subscription" where
  "chainlinkPricesSub symbol = \<lparr>rs_Topic = ''crypto_prices_chainlink'', rs_Type = ''*'',
     rs_Filters = (if symbol \<noteq> [] then Some (JObject [(''symbol'', JString symbol)]) else None), rs_CLOBAuth = None\<rparr>"

definition chainlinkTWAPTopic :: "int \<Rightarrow> string result" where
  "chainlinkTWAPTopic window =
     (if window = ChainlinkTWAP30Seconds then Inr ''crypto_prices_twap_thirty''
      else if window = ChainlinkTWAP60Seconds then Inr ''crypto_prices_twap_sixty''
      else Inl (Msg ''rtds: Chainlink TWAP window must be 30 or 60 seconds''))"

definition commentsSub :: "string \<Rightarrow> Credentials option \<Rightarrow> rtdsClient \<Rightarrow> Subscription" where
  "commentsSub commentType auth c = \<lparr>rs_Topic = ''comments'', rs_Type = (if commentType = [] then ''*'' else commentType), rs_Filters = None,
     rs_CLOBAuth = (case auth of None \<Rightarrow> rt_creds c | Some a \<Rightarrow> Some a)\<rparr>"

definition twapSub :: "string \<Rightarrow> Subscription" where
  "twapSub topic = \<lparr>rs_Topic = topic, rs_Type = ''update'', rs_Filters = None, rs_CLOBAuth = None\<rparr>"

definition SubscribeCryptoPrices :: "rtdsEnv \<Rightarrow> rtdsCodec \<Rightarrow> string list \<Rightarrow> (rtdsClient, unit) act" where
  "SubscribeCryptoPrices E J symbols = Subscribe E J (cryptoPricesSub symbols)"
definition UnsubscribeCryptoPrices :: "rtdsEnv \<Rightarrow> rtdsCodec \<Rightarrow> string list \<Rightarrow> (rtdsClient, unit) act" where
  "UnsubscribeCryptoPrices E J symbols = Unsubscribe E J (cryptoPricesSub symbols)"
definition SubscribeChainlinkPrices :: "rtdsEnv \<Rightarrow> rtdsCodec \<Rightarrow> string \<Rightarrow> (rtdsClient, unit) act" where
  "SubscribeChainlinkPrices E J symbol = Subscribe E J (chainlinkPricesSub symbol)"
definition UnsubscribeChainlinkPrices :: "rtdsEnv \<Rightarrow> rtdsCodec \<Rightarrow> string \<Rightarrow> (rtdsClient, unit) act" where
  "UnsubscribeChainlinkPrices E J symbol = Unsubscribe E J (chainlinkPricesSub symbol)"
definition SubscribeChainlinkTWAP :: "rtdsEnv \<Rightarrow> rtdsCodec \<Rightarrow> int \<Rightarrow> (rtdsClient, unit) act" where
  "SubscribeChainlinkTWAP E J window = bindE (lift (chainlinkTWAPTopic window)) (\<lambda>topic. Subscribe E J (twapSub topic))"
definition UnsubscribeChainlinkTWAP :: "rtdsEnv \<Rightarrow> rtdsCodec \<Rightarrow> int \<Rightarrow> (rtdsClient, unit) act" where
  "UnsubscribeChainlinkTWAP E J window = bindE (lift (chainlinkTWAPTopic window)) (\<lambda>topic. Unsubscribe E J (twapSub topic))"
definition SubscribeChainlinkTWAP30Seconds :: "rtdsEnv \<Rightarrow> rtdsCodec \<Rightarrow> (rtdsClient, unit) act" where
  "SubscribeChainlinkTWAP30Seconds E J = SubscribeChainlinkTWAP E J ChainlinkTWAP30Seconds"
definition SubscribeChainlinkTWAP60Seconds :: "rtdsEnv \<Rightarrow> rtdsCodec \<Rightarrow> (rtdsClient, unit) act" where
  "SubscribeChainlinkTWAP60Seconds E J = SubscribeChainlinkTWAP E J ChainlinkTWAP60Seconds"
definition UnsubscribeChainlinkTWAP30Seconds :: "rtdsEnv \<Rightarrow> rtdsCodec \<Rightarrow> (rtdsClient, unit) act" where
  "UnsubscribeChainlinkTWAP30Seconds E J = UnsubscribeChainlinkTWAP E J ChainlinkTWAP30Seconds"
definition UnsubscribeChainlinkTWAP60Seconds :: "rtdsEnv \<Rightarrow> rtdsCodec \<Rightarrow> (rtdsClient, unit) act" where
  "UnsubscribeChainlinkTWAP60Seconds E J = UnsubscribeChainlinkTWAP E J ChainlinkTWAP60Seconds"
definition SubscribeComments :: "rtdsEnv \<Rightarrow> rtdsCodec \<Rightarrow> string \<Rightarrow> Credentials option \<Rightarrow> (rtdsClient, unit) act" where
  "SubscribeComments E J commentType auth = (\<lambda>c. Subscribe E J (commentsSub commentType auth c) c)"
definition UnsubscribeComments :: "rtdsEnv \<Rightarrow> rtdsCodec \<Rightarrow> string \<Rightarrow> Credentials option \<Rightarrow> (rtdsClient, unit) act" where
  "UnsubscribeComments E J commentType auth = (\<lambda>c. Unsubscribe E J (commentsSub commentType auth c) c)"

section \<open>Messages\<close>

text \<open>The two channels of the client, with their capacities; \<open>ended n\<close> says that the \<open>n\<close>-th send is given up because the context has ended.\<close>

record rtdsBox =
  bx_msgs :: "RtdsMessage list"
  bx_errs :: "go_error list"
  bx_ticks :: nat

definition msgsCapacity :: nat where "msgsCapacity = 1024"
definition errsCapacity :: nat where "errsCapacity = 100"

definition reportError :: "go_error \<Rightarrow> rtdsBox \<Rightarrow> rtdsBox" where
  "reportError e box = (if length (bx_errs box) < errsCapacity then box\<lparr>bx_errs := bx_errs box @ [e]\<rparr> else box)"

definition interested :: "rtdsCodec \<Rightarrow> rtdsClient \<Rightarrow> RtdsMessage \<Rightarrow> bool" where
  "interested J c m = list_ex (\<lambda>entry. matches J entry m) (rt_subs c)"

definition dispatch :: "rtdsCodec \<Rightarrow> (nat \<Rightarrow> bool) \<Rightarrow> rtdsClient \<Rightarrow> RtdsMessage option \<Rightarrow> rtdsBox \<Rightarrow> rtdsBox" where
  "dispatch J ended c msg box = (case msg of
       None \<Rightarrow> box
     | Some m \<Rightarrow>
         if \<not> interested J c m then box
         else let n = bx_ticks box; box = box\<lparr>bx_ticks := Suc n\<rparr>
              in if ended n then box
                 else if length (bx_msgs box) < msgsCapacity then box\<lparr>bx_msgs := bx_msgs box @ [m]\<rparr>
                 else reportError (Msg ''rtds: message dropped (channel full)'') box)"

definition handleData :: "rtdsCodec \<Rightarrow> (nat \<Rightarrow> bool) \<Rightarrow> rtdsClient \<Rightarrow> string \<Rightarrow> rtdsBox \<Rightarrow> rtdsBox" where
  "handleData J ended c raw box =
     (case trim_space raw of
        [] \<Rightarrow> box
      | ch # rest \<Rightarrow>
          if ch = CHR ''['' then (case rj_messages J (ch # rest) of
              Inl e \<Rightarrow> reportError (Wrap ''unmarshal msgs'' e) box
            | Inr msgs \<Rightarrow> fold (dispatch J ended c) msgs box)
          else (case rj_message J (ch # rest) of
              Inl e \<Rightarrow> reportError (Wrap ''unmarshal msg'' e) box
            | Inr m \<Rightarrow> dispatch J ended c (Some m) box))"

section \<open>Values\<close>

definition decodeDecimalValue :: "rtdsCodec \<Rightarrow> string \<Rightarrow> string result" where
  "decodeDecimalValue J raw =
     (if raw = [] then Inl (Msg ''missing value'')
      else case rj_string J raw of
        Inr value \<Rightarrow> Inr value
      | Inl _ \<Rightarrow> (case rj_number J raw of
            Inl e \<Rightarrow> Inl (Wrap ''expected decimal string or number'' e)
          | Inr number \<Rightarrow> if number = [] then Inl (Wrap ''expected decimal string or number'' (Msg ''empty number'')) else Inr number))"

definition unmarshalCryptoPrice :: "rtdsCodec \<Rightarrow> string \<Rightarrow> CryptoPrice result" where
  "unmarshalCryptoPrice J raw =
     rbind (rj_price J raw) (\<lambda>(symbol, timestamp, rawValue).
     rbind (wrap_err ''crypto price value'' (decodeDecimalValue J rawValue)) (\<lambda>val.
       Inr \<lparr>cp_Symbol = symbol, cp_Timestamp = timestamp, cp_Value = val\<rparr>))"

definition unmarshalChainlinkPrice :: "rtdsCodec \<Rightarrow> string \<Rightarrow> ChainlinkPrice result" where
  "unmarshalChainlinkPrice J raw =
     rbind (rj_price J raw) (\<lambda>(symbol, timestamp, rawValue).
     rbind (wrap_err ''chainlink price value'' (decodeDecimalValue J rawValue)) (\<lambda>val.
       Inr \<lparr>lp_Symbol = symbol, lp_Timestamp = timestamp, lp_Value = val\<rparr>))"

definition AsCryptoPrice :: "rtdsCodec \<Rightarrow> RtdsMessage \<Rightarrow> CryptoPrice result" where
  "AsCryptoPrice J m =
     (if rm_Topic m \<noteq> ''crypto_prices'' then Inl (Msg ''message topic is not crypto_prices'') else unmarshalCryptoPrice J (rm_Payload m))"

definition AsChainlinkPrice :: "rtdsCodec \<Rightarrow> RtdsMessage \<Rightarrow> ChainlinkPrice result" where
  "AsChainlinkPrice J m =
     (if rm_Topic m \<noteq> ''crypto_prices_chainlink'' then Inl (Msg ''message topic is not crypto_prices_chainlink'')
      else unmarshalChainlinkPrice J (rm_Payload m))"

definition AsComment :: "rtdsCodec \<Rightarrow> RtdsMessage \<Rightarrow> Comment result" where
  "AsComment J m = (if rm_Topic m \<noteq> ''comments'' then Inl (Msg ''message topic is not comments'') else rj_comment J (rm_Payload m))"

definition chainlinkTWAPMessageWindow :: "string \<Rightarrow> int result" where
  "chainlinkTWAPMessageWindow topic =
     (if topic = ''crypto_prices_twap_thirty'' then Inr ChainlinkTWAP30Seconds
      else if topic = ''crypto_prices_twap_sixty'' then Inr ChainlinkTWAP60Seconds
      else if topic = ''prices.crypto.chainlink.twap'' then Inl (Msg ''logical Chainlink TWAP topic requires a raw window topic'')
      else Inl (Msg ''message topic is not a Chainlink TWAP topic''))"

text \<open>Eighteen fraction digits are cut off the digits of an integer.\<close>

definition splitE18 :: "string \<Rightarrow> string \<times> string" where
  "splitE18 ds =
     (if length ds > 18 then (take (length ds - 18) ds, drop (length ds - 18) ds)
      else (''0'', replicate (18 - length ds) (CHR ''0'') @ ds))"

definition signedDigits :: "string \<Rightarrow> bool" where
  "signedDigits s \<longleftrightarrow> (case s of
       [] \<Rightarrow> False
     | c # t \<Rightarrow> if c = CHR ''-'' then t \<noteq> [] \<and> list_all is_digit t else is_digit c \<and> list_all is_digit t)"

definition chainlinkE18ToDecimalString :: "string \<Rightarrow> string result" where
  "chainlinkE18ToDecimalString s =
     (if \<not> signedDigits s then Inl (Msg ''expected signed integer string'')
      else case big_int_set_string s 10 of
        None \<Rightarrow> Inl (Msg ''expected signed integer string'')
      | Some n \<Rightarrow>
          let (whole, fraction) = splitE18 (show_nat (nat \<bar>n\<bar>));
              fraction = trim_right_zeros fraction;
              res = (if fraction \<noteq> [] then whole @ ''.'' @ fraction else whole)
          in Inr (if n < 0 \<and> res \<noteq> ''0'' then ''-'' @ res else res))"

definition AsChainlinkTWAPPrice :: "rtdsCodec \<Rightarrow> RtdsMessage \<Rightarrow> ChainlinkTWAPPrice result" where
  "AsChainlinkTWAPPrice J m =
     rbind (chainlinkTWAPMessageWindow (rm_Topic m)) (\<lambda>window.
       if rm_Type m \<noteq> ''update'' then Inl (Msg ''message type is not update'')
       else rbind (wrap_err ''decode Chainlink TWAP payload'' (rj_twap J (rm_Payload m))) (\<lambda>(symbol, rawValue, rawFull, timestamp, windowSeconds).
            rbind (wrap_err ''Chainlink TWAP display value'' (decodeDecimalValue J rawValue)) (\<lambda>displayValue.
              if displayValue = [] then Inl (Wrap ''Chainlink TWAP display value'' (Msg ''value is empty''))
              else if rawFull = [] then Inl (Msg ''Chainlink TWAP full_accuracy_value is required'')
              else rbind (wrap_err ''Chainlink TWAP full_accuracy_value: expected signed integer string'' (rj_string J rawFull)) (\<lambda>fullAccuracyValue.
                   rbind (wrap_err ''Chainlink TWAP full_accuracy_value'' (chainlinkE18ToDecimalString fullAccuracyValue)) (\<lambda>val.
                     if windowSeconds \<noteq> window then Inl (Msg ''Chainlink TWAP topic requires another window_s'')
                     else Inr \<lparr>tw_Symbol = symbol, tw_Timestamp = timestamp, tw_Value = val, tw_WindowSeconds = window\<rparr>)))))"

section \<open>Exact values\<close>

lemma digit_char_is_digit: "d < 10 \<Longrightarrow> is_digit (digit_char d)"
  by (simp add: is_digit_def digit_char_def of_char_char_of_small)

lemma show_nat_digits: "list_all is_digit (show_nat n)" "show_nat n \<noteq> []" "digits_value (show_nat n) = n"
proof -
  show d: "list_all is_digit (show_nat n)"
    using show_base_digits [of 10 n] digit_char_is_digit by (auto simp: show_nat_def list_all_iff)
  show ne: "show_nat n \<noteq> []" by (simp add: show_nat_def)
  have "read_base 10 (show_nat n) = Some n" by (simp add: show_nat_def)
  then show "digits_value (show_nat n) = n" using read_base_value [OF d ne] by simp
qed

lemma splitE18_parts:
  assumes "list_all is_digit ds" "ds \<noteq> []" "splitE18 ds = (whole, fraction)"
  shows "whole \<noteq> []" "list_all is_digit whole" "list_all is_digit fraction" "length fraction = 18"
    "digits_value (whole @ fraction) = digits_value ds"
proof -
  have len: "length ds > 18 \<Longrightarrow> length (drop (length ds - 18) ds) = 18" by simp
  show "whole \<noteq> []" "list_all is_digit whole" "list_all is_digit fraction" "length fraction = 18"
    using assms by (auto simp: splitE18_def list_all_iff split: if_splits dest: in_set_takeD in_set_dropD)
  show "digits_value (whole @ fraction) = digits_value ds"
  proof (cases "length ds > 18")
    case False
    then have "whole @ fraction = replicate (Suc (18 - length ds)) (CHR ''0'') @ ds" using assms(3) by (auto simp: splitE18_def)
    then show ?thesis by (simp only: digits_value_append digits_value_zeros mult_0 add_0)
  qed (use assms(3) in \<open>auto simp: splitE18_def\<close>)
qed

lemma unsigned_e18:
  assumes "list_all is_digit ds" "ds \<noteq> []" "splitE18 ds = (whole, fraction)" "f = trim_right_zeros fraction"
  shows "\<exists>k \<le> 18. \<exists>m. unsigned_numeral (if f \<noteq> [] then whole @ ''.'' @ f else whole) = Some (m, k) \<and> m * 10 ^ (18 - k) = digits_value ds"
proof -
  note p = splitE18_parts [OF assms(1-3)]
  note t = trim_right_zeros_value [of fraction, folded assms(4)] 
  have d: "list_all is_digit f" using trim_zeros_digits [OF p(3)] assms(4) by simp
  have v: "digits_value (whole @ f) * 10 ^ (18 - length f) = digits_value ds"
    unfolding p(5) [symmetric] digits_value_append t(1)
    using t(2) p(4) by (simp add: algebra_simps flip: power_add)
  show ?thesis
  proof (cases "f = []")
    case True
    then show ?thesis using unsigned_numeral_no_point [OF p(2,1)] v by auto
  next
    case False
    then show ?thesis using unsigned_numeral_point [OF p(2) d p(1) False] v t(2) p(4) by auto
  qed
qed

lemma e18_exact:
  assumes "chainlinkE18ToDecimalString s = Inr res"
  shows "\<exists>n. big_int_set_string s 10 = Some n \<and> (\<exists>k \<le> 18. decimal_numeral res = Some (of_int n / 10 ^ 18, k))"
proof -
  obtain n where n: "big_int_set_string s 10 = Some n"
    using assms by (auto simp: chainlinkE18ToDecimalString_def split: if_splits option.splits)
  obtain whole fraction where sp: "splitE18 (show_nat (nat \<bar>n\<bar>)) = (whole, fraction)" by fastforce
  define f where "f = trim_right_zeros fraction"
  define r where "r = (if f \<noteq> [] then whole @ ''.'' @ f else whole)"
  note d = show_nat_digits [of "nat \<bar>n\<bar>"]
  note w = splitE18_parts [OF d(1,2) sp]
  obtain k m where k: "k \<le> 18" "unsigned_numeral r = Some (m, k)" "m * 10 ^ (18 - k) = nat \<bar>n\<bar>"
    using unsigned_e18 [OF d(1,2) sp f_def] unfolding d(3) r_def by blast
  have res: "res = (if n < 0 \<and> r \<noteq> ''0'' then ''-'' @ r else r)"
    using assms n sp by (auto simp: chainlinkE18ToDecimalString_def r_def f_def Let_def split: if_splits)
  have hd: "\<exists>c t. r = c # t \<and> c \<noteq> CHR ''-''"
    using w(1,2) by (cases whole) (auto simp: r_def is_digit_def)
  have "of_nat m * 10 ^ (18 - k) = (of_int \<bar>n\<bar> :: rat)" using arg_cong [OF k(3), of "of_nat :: nat \<Rightarrow> rat"] by simp
  moreover have "(10::rat) ^ 18 = 10 ^ (18 - k) * 10 ^ k" using k(1) by (simp flip: power_add)
  ultimately have q: "of_nat m / 10 ^ k = (of_int \<bar>n\<bar> / 10 ^ 18 :: rat)" by (metis mult_divide_mult_cancel_left mult.commute power_not_zero zero_neq_numeral)
  have zero: "r \<noteq> ''0''" if "n < 0"
  proof
    assume "r = ''0''"
    then have "unsigned_numeral r = Some (0, 0)" using unsigned_numeral_no_point [of "''0''"] by (simp add: digits_value_def)
    then show False using k that by simp
  qed
  have "decimal_numeral res = Some (of_int n / 10 ^ 18, k)"
    using hd k(2) q zero unfolding res decimal_numeral_def by (auto simp: abs_if)
  then show ?thesis using n k(1) by blast
qed

lemma e18_accepts: "signedDigits s \<Longrightarrow> \<exists>res. chainlinkE18ToDecimalString s = Inr res"
  by (auto simp: chainlinkE18ToDecimalString_def signedDigits_def big_int_set_string_def read_base_value is_digit_def Let_def
      split: list.splits if_splits option.splits prod.splits)

section \<open>What the service is asked for\<close>

text \<open>The interests of some registrations, and of some subscriptions, with their credentials.\<close>

definition interest :: "Subscription \<Rightarrow> (string \<times> string) \<times> Credentials option" where
  "interest s = ((rs_Topic s, rs_Type s), rs_CLOBAuth s)"

definition wanted :: "registration list \<Rightarrow> string \<times> string \<Rightarrow> Credentials option option" where
  "wanted entries = map_of (map (\<lambda>e. interest (rg_sub e)) entries)"

definition agreeing :: "registration list \<Rightarrow> bool" where
  "agreeing entries \<longleftrightarrow> (\<forall>a \<in> set entries. \<forall>b \<in> set entries. sameInterest (rg_sub a) (rg_sub b) \<longrightarrow>
     rs_CLOBAuth (rg_sub a) = rs_CLOBAuth (rg_sub b))"

text \<open>The effect of a request on the subscriptions the service holds for a connection.\<close>

definition served :: "SubscriptionRequest \<Rightarrow> (string \<times> string \<Rightarrow> Credentials option option) \<Rightarrow> string \<times> string \<Rightarrow> Credentials option option" where
  "served v S =
     (if rq_Action v = ActionSubscribe then S ++ map_of (map interest (rq_Subscriptions v))
      else S |` (- fst ` interest ` set (rq_Subscriptions v)))"

definition wire :: "nat \<Rightarrow> rtdsClient \<Rightarrow> string \<times> string \<Rightarrow> Credentials option option" where
  "wire k c = fold (\<lambda>(j, v). if j = k then served v else id) (rt_sent c) Map.empty"

lemma interest_unfiltered [simp]: "interest (s\<lparr>rs_Filters := f\<rparr>) = interest s"
  by (simp add: interest_def)

lemma sameInterest_fst: "sameInterest a b \<longleftrightarrow> fst (interest a) = fst (interest b)"
  by (auto simp: sameInterest_def interest_def)

lemma sameCredentials_eq [simp]: "sameCredentials a b \<longleftrightarrow> a = b"
  by (auto simp: sameCredentials_def split: option.splits)

lemma list_ex_interest:
  "list_ex (\<lambda>x. sameInterest x s) subs \<longleftrightarrow> fst (interest s) \<in> dom (map_of (map interest subs))"
  by (auto simp: list_ex_iff sameInterest_fst dom_map_of_conv_image_fst image_iff) metis

lemma map_of_skip: "fst x \<in> dom (map_of xs) \<Longrightarrow> map_of (xs @ x # ys) = map_of (xs @ ys)"
  by (auto simp: map_add_def fun_eq_iff split: option.splits)

lemma addServer_interests: "map_of (map interest (addServer subs es)) = map_of (map interest subs @ map (\<lambda>e. interest (rg_sub e)) es)"
proof (induction es arbitrary: subs)
  case (Cons e es)
  show ?case
  proof (cases "list_ex (\<lambda>x. sameInterest x (rg_sub e)) subs")
    case True
    then have "fst (interest (rg_sub e)) \<in> dom (map_of (map interest subs))" by (simp add: list_ex_interest)
    from map_of_skip [OF this] show ?thesis using Cons True by simp
  next
    case False
    then show ?thesis using Cons by simp
  qed
qed simp

lemma server_interests: "map_of (map interest (serverSubscriptions es)) = wanted es"
  by (simp add: serverSubscriptions_def wanted_def addServer_interests)

lemma addServer_snoc:
  "addServer subs (es @ [e]) = (let s = addServer subs es
     in if list_ex (\<lambda>x. sameInterest x (rg_sub e)) s then s else s @ [(rg_sub e)\<lparr>rs_Filters := None\<rparr>])"
  by (induction es arbitrary: subs) (auto simp: Let_def)

lemma serverDifference_self: "serverDifference s s = []"
  by (auto simp: serverDifference_def filter_empty_conv list_ex_iff sameInterest_def)

lemma subscribe_delta:
  "serverDifference (serverSubscriptions (es @ [e])) (serverSubscriptions es) =
     (if fst (interest (rg_sub e)) \<in> dom (wanted es) then [] else [(rg_sub e)\<lparr>rs_Filters := None\<rparr>])"
proof (cases "fst (interest (rg_sub e)) \<in> dom (wanted es)")
  case True
  then show ?thesis using server_interests [of es] by (simp add: serverSubscriptions_def addServer_snoc list_ex_interest serverDifference_self)
next
  case False
  then have n: "\<not> list_ex (\<lambda>x. sameInterest x (rg_sub e)) (serverSubscriptions es)" by (simp add: list_ex_interest server_interests)
  then have "serverSubscriptions (es @ [e]) = serverSubscriptions es @ [(rg_sub e)\<lparr>rs_Filters := None\<rparr>]"
    by (simp add: serverSubscriptions_def addServer_snoc)
  then show ?thesis using n False serverDifference_self [of "serverSubscriptions es"]
    by (simp add: serverDifference_def list_ex_interest)
qed

lemma wanted_snoc:
  "wanted (es @ [e]) = (if fst (interest (rg_sub e)) \<in> dom (wanted es) then wanted es else (wanted es)(fst (interest (rg_sub e)) \<mapsto> snd (interest (rg_sub e))))"
  by (auto simp: wanted_def map_add_def fun_eq_iff split: option.splits)

lemma wanted_agreeing: "agreeing es \<Longrightarrow> wanted es k = Some a \<longleftrightarrow> (\<exists>e \<in> set es. interest (rg_sub e) = (k, a))"
proof (induction es)
  case (Cons e es)
  have a: "agreeing es" using Cons.prems by (auto simp: agreeing_def)
  have "snd (interest (rg_sub e)) = snd (interest (rg_sub x))" if "x \<in> set es" "fst (interest (rg_sub x)) = fst (interest (rg_sub e))" for x
  proof -
    have "sameInterest (rg_sub e) (rg_sub x)" using that(2) by (simp add: sameInterest_fst)
    then have "rs_CLOBAuth (rg_sub e) = rs_CLOBAuth (rg_sub x)" using Cons.prems that(1) unfolding agreeing_def by (meson list.set_intros)
    then show ?thesis by (simp add: interest_def)
  qed
  then have same: "a = snd (interest (rg_sub e))" if "x \<in> set es" "interest (rg_sub x) = (fst (interest (rg_sub e)), a)" for x a
    using that by (metis fst_conv snd_conv)
  have step: "wanted (e # es) k = (if k = fst (interest (rg_sub e)) then Some (snd (interest (rg_sub e))) else wanted es k)"
    by (cases "interest (rg_sub e)") (simp add: wanted_def)
  show ?case
  proof (cases "k = fst (interest (rg_sub e))")
    case True
    then show ?thesis using step same by (auto simp: prod_eq_iff)
  next
    case False
    then show ?thesis using step Cons.IH [OF a] by auto
  qed
qed (simp add: wanted_def)

lemma wanted_subset:
  assumes "agreeing es" "set es' \<subseteq> set es"
  shows "agreeing es'" "wanted es' = wanted es |` dom (wanted es')"
proof -
  show a: "agreeing es'" using assms by (auto simp: agreeing_def)
  have "wanted es k = Some x" if "wanted es' k = Some x" for k x
    using that assms(2) unfolding wanted_agreeing [OF assms(1)] wanted_agreeing [OF a] by blast
  then show "wanted es' = wanted es |` dom (wanted es')"
    by (auto simp: fun_eq_iff restrict_map_def dom_def)
qed

lemma difference_interests:
  "fst ` interest ` set (serverDifference (serverSubscriptions es) (serverSubscriptions es')) = dom (wanted es) - dom (wanted es')"
proof -
  have "dom (wanted es) = fst ` interest ` set (serverSubscriptions es)"
    using dom_map_of_conv_image_fst [of "map interest (serverSubscriptions es)"] by (simp add: server_interests)
  then show ?thesis unfolding serverDifference_def list_ex_interest server_interests by (auto simp: image_iff)
qed

lemma unsubscribe_served:
  assumes "agreeing es" "set es' \<subseteq> set es" "delta = serverDifference (serverSubscriptions es) (serverSubscriptions es')"
  shows "served \<lparr>rq_Action = ActionUnsubscribe, rq_Subscriptions = delta\<rparr> (wanted es) = wanted es'"
    and "delta = [] \<Longrightarrow> wanted es = wanted es'"
proof -
  note w = wanted_subset [OF assms(1,2)]
  have "wanted es |` (- (dom (wanted es) - dom (wanted es'))) = wanted es |` dom (wanted es')"
    by (auto simp: fun_eq_iff restrict_map_def dom_def)
  then show s: "served \<lparr>rq_Action = ActionUnsubscribe, rq_Subscriptions = delta\<rparr> (wanted es) = wanted es'"
    using w(2) by (simp add: served_def assms(3) difference_interests ActionSubscribe_def ActionUnsubscribe_def)
  show "wanted es = wanted es'" if "delta = []" using s unfolding that by (simp add: served_def ActionSubscribe_def ActionUnsubscribe_def restrict_map_def)
qed

section \<open>Invariant\<close>

definition numbered :: "rtdsClient \<Rightarrow> bool" where
  "numbered c \<longleftrightarrow> (\<forall>p \<in> set (rt_sent c). fst p < rt_conns c) \<and> (\<forall>k \<in> set (rt_broken c). k < rt_conns c) \<and>
     (\<forall>k. rt_conn c = Some k \<longrightarrow> k < rt_conns c)"

definition live :: "nat \<Rightarrow> rtdsClient \<Rightarrow> bool" where
  "live k c \<longleftrightarrow> rt_conn c = Some k \<and> \<not> rt_closed c \<and> k \<notin> set (rt_broken c)"

definition unfiltered :: "(nat \<times> SubscriptionRequest) list \<Rightarrow> bool" where
  "unfiltered = list_all (\<lambda>(k, v). list_all (\<lambda>s. rs_Filters s = None) (rq_Subscriptions v))"

definition local_ok :: "rtdsCodec \<Rightarrow> rtdsClient \<Rightarrow> bool" where
  "local_ok J c \<longleftrightarrow> (\<forall>e \<in> set (rt_subs c). \<exists>sub. newRegistration J sub = Inr e) \<and> agreeing (rt_subs c) \<and> numbered c \<and> unfiltered (rt_sent c)"

definition rtds_inv :: "rtdsCodec \<Rightarrow> rtdsClient \<Rightarrow> bool" where
  "rtds_inv J c \<longleftrightarrow> local_ok J c \<and> (\<forall>k. live k c \<longrightarrow> wire k c = wanted (rt_subs c))"

lemma server_unfiltered: "list_all (\<lambda>s. rs_Filters s = None) (serverSubscriptions es)"
proof -
  have "list_all (\<lambda>s. rs_Filters s = None) subs \<Longrightarrow> list_all (\<lambda>s. rs_Filters s = None) (addServer subs es)" for subs
    by (induction es arbitrary: subs) (auto simp: Let_def)
  then show ?thesis by (simp add: serverSubscriptions_def)
qed

lemma difference_unfiltered: "list_all (\<lambda>s. rs_Filters s = None) (serverDifference (serverSubscriptions es) subs)"
  using server_unfiltered [of es] by (auto simp: serverDifference_def list_all_iff)

text \<open>A request on a connection whose effect leads from the old interests to the new ones.\<close>

lemma send_inv:
  assumes "local_ok J c" "re_marshal E v = None" "rt_conn c \<noteq> None" "list_all (\<lambda>s. rs_Filters s = None) (rq_Subscriptions v)"
    and "\<And>k. live k c \<Longrightarrow> served v (wire k c) = wanted (rt_subs c)"
  shows "rtds_inv J (snd (sendJSON E v c))"
proof -
  obtain k where k: "rt_conn c = Some k" using assms(3) by auto
  show ?thesis
  proof (cases "re_write E (rt_ticks c) v")
    case None
    then have r: "snd (sendJSON E v c) = c\<lparr>rt_ticks := Suc (rt_ticks c), rt_sent := rt_sent c @ [(k, v)]\<rparr>"
      using assms(2) k by (simp add: sendJSON_def Let_def)
    have "wire k (c\<lparr>rt_ticks := Suc (rt_ticks c), rt_sent := rt_sent c @ [(k, v)]\<rparr>) = served v (wire k c)" by (simp add: wire_def)
    then show ?thesis using assms(1,4,5) k unfolding r
      by (auto simp: rtds_inv_def local_ok_def numbered_def live_def unfiltered_def)
  next
    case (Some e)
    then have r: "snd (sendJSON E v c) = c\<lparr>rt_ticks := Suc (rt_ticks c), rt_broken := k # rt_broken c\<rparr>"
      using assms(2) k by (simp add: sendJSON_def Let_def)
    show ?thesis using assms(1) k unfolding r by (auto simp: rtds_inv_def local_ok_def numbered_def live_def)
  qed
qed

lemma sync_inv:
  assumes "local_ok J c" "re_marshal E \<lparr>rq_Action = action, rq_Subscriptions = delta\<rparr> = None" "list_all (\<lambda>s. rs_Filters s = None) delta"
    and "\<And>k. live k c \<Longrightarrow> wire k c = M" "served \<lparr>rq_Action = action, rq_Subscriptions = delta\<rparr> M = wanted (rt_subs c)"
    and "delta = [] \<Longrightarrow> M = wanted (rt_subs c)"
  shows "rtds_inv J (snd (syncSubscriptions E action delta c))"
proof (cases "delta = [] \<or> \<not> IsConnected c")
  case True
  then have "\<And>k. live k c \<Longrightarrow> wire k c = wanted (rt_subs c)" using assms(4,6) by (auto simp: live_def IsConnected_def)
  then show ?thesis using True assms(1) by (auto simp: syncSubscriptions_def rtds_inv_def)
next
  case False
  then have "rtds_inv J (snd (sendJSON E \<lparr>rq_Action = action, rq_Subscriptions = delta\<rparr> c))"
    by (intro send_inv [OF assms(1,2)]) (simp_all add: IsConnected_def assms(3,4,5))
  then show ?thesis using False by (auto simp: syncSubscriptions_def)
qed

lemma rtds_inv_ticks [simp]: "rtds_inv J (c\<lparr>rt_ticks := n\<rparr>) = rtds_inv J c"
  by (simp add: rtds_inv_def local_ok_def numbered_def live_def wire_def)

lemma record_inv:
  assumes "rtds_inv J c" "newRegistration J sub = Inr e" "\<not> list_ex (conflicts e) (rt_subs c)" "\<And>v. re_marshal E v = None"
  shows "rtds_inv J (snd (syncSubscriptions E ActionSubscribe
           (serverDifference (serverSubscriptions (rt_subs c @ [e])) (serverSubscriptions (rt_subs c))) (c\<lparr>rt_subs := rt_subs c @ [e]\<rparr>)))"
proof (rule sync_inv [where M = "wanted (rt_subs c)"])
  let ?c = "c\<lparr>rt_subs := rt_subs c @ [e]\<rparr>"
  have n: "\<forall>x \<in> set (rt_subs c). sameInterest (rg_sub x) (rg_sub e) \<longrightarrow> rs_CLOBAuth (rg_sub x) = rs_CLOBAuth (rg_sub e)"
    using assms(3) by (simp add: conflicts_def list_ex_iff)
  moreover have "sameInterest a b = sameInterest b a" for a b by (auto simp: sameInterest_def)
  ultimately have "\<forall>x \<in> set (rt_subs c). sameInterest (rg_sub e) (rg_sub x) \<longrightarrow> rs_CLOBAuth (rg_sub e) = rs_CLOBAuth (rg_sub x)" by metis
  then have "agreeing (rt_subs c @ [e])" using n assms(1) by (simp add: rtds_inv_def local_ok_def agreeing_def)
  then show "local_ok J ?c" using assms(1,2) by (auto simp: rtds_inv_def local_ok_def numbered_def)
  show "wire k ?c = wanted (rt_subs c)" if "live k ?c" for k using that assms(1) by (simp add: rtds_inv_def live_def wire_def)
  let ?d = "serverDifference (serverSubscriptions (rt_subs c @ [e])) (serverSubscriptions (rt_subs c))"
  show "served \<lparr>rq_Action = ActionSubscribe, rq_Subscriptions = ?d\<rparr> (wanted (rt_subs c)) = wanted (rt_subs ?c)"
    unfolding subscribe_delta by (auto simp: served_def wanted_snoc split: prod.splits)
  show "wanted (rt_subs c) = wanted (rt_subs ?c)" if "?d = []"
    using that unfolding subscribe_delta by (simp add: wanted_snoc split: if_splits)
qed (simp_all add: assms(4) difference_unfiltered)

lemma deleteFirst_subset: "set (deleteFirst i es) \<subseteq> set es"
  by (induction es) auto

lemma release_inv:
  assumes "rtds_inv J c" "\<And>v. re_marshal E v = None" "es = deleteFirst i (rt_subs c)"
  shows "rtds_inv J (snd (syncSubscriptions E ActionUnsubscribe
           (serverDifference (serverSubscriptions (rt_subs c)) (serverSubscriptions es)) (c\<lparr>rt_subs := es\<rparr>)))"
proof (rule sync_inv [where M = "wanted (rt_subs c)"])
  have a: "agreeing (rt_subs c)" "set es \<subseteq> set (rt_subs c)" using assms(1,3) deleteFirst_subset by (auto simp: rtds_inv_def local_ok_def)
  then show "local_ok J (c\<lparr>rt_subs := es\<rparr>)" using assms(1) wanted_subset(1) [OF a] by (auto simp: rtds_inv_def local_ok_def numbered_def)
  show "wire k (c\<lparr>rt_subs := es\<rparr>) = wanted (rt_subs c)" if "live k (c\<lparr>rt_subs := es\<rparr>)" for k
    using that assms(1) by (simp add: rtds_inv_def live_def wire_def)
  note u = unsubscribe_served [OF a refl]
  show "served \<lparr>rq_Action = ActionUnsubscribe, rq_Subscriptions = serverDifference (serverSubscriptions (rt_subs c)) (serverSubscriptions es)\<rparr>
      (wanted (rt_subs c)) = wanted (rt_subs (c\<lparr>rt_subs := es\<rparr>))" using u(1) by simp
  show "wanted (rt_subs c) = wanted (rt_subs (c\<lparr>rt_subs := es\<rparr>))"
    if "serverDifference (serverSubscriptions (rt_subs c)) (serverSubscriptions es) = []" using u(2) [OF that] by simp
qed (simp_all add: assms(2) difference_unfiltered)

lemma rtds_connect_inv:
  assumes "rtds_inv J c" "\<And>v. re_marshal E v = None"
  shows "rtds_inv J (snd (connect E dial c))"
proof (cases "rt_closed c \<or> dial \<noteq> None \<or> rt_conn c \<noteq> None")
  case True
  then show ?thesis using assms by (auto simp: connect_def split: option.splits)
next
  case False
  let ?c = "c\<lparr>rt_conn := Some (rt_conns c), rt_conns := Suc (rt_conns c)\<rparr>"
  have l: "local_ok J c" using assms(1) by (simp add: rtds_inv_def)
  have "fold (\<lambda>(j, v). if j = rt_conns c then served v else id) xs S = S" if "\<forall>p \<in> set xs. fst p < rt_conns c" for S xs
    using that by (induction xs) auto
  then have w: "wire (rt_conns c) ?c = Map.empty" using l by (simp add: wire_def local_ok_def numbered_def)
  have l': "local_ok J ?c" using l by (auto simp: local_ok_def numbered_def)
  show ?thesis
  proof (cases "serverSubscriptions (rt_subs c) = []")
    case True
    then have "wanted (rt_subs c) = Map.empty" using server_interests [of "rt_subs c"] by simp
    then show ?thesis using False True l' w by (auto simp: connect_def rtds_inv_def live_def)
  next
    case ne: False
    have "rtds_inv J (snd (sendJSON E \<lparr>rq_Action = ActionSubscribe, rq_Subscriptions = serverSubscriptions (rt_subs c)\<rparr> ?c))"
      by (rule send_inv [OF l' assms(2)]) (auto simp: server_unfiltered served_def server_interests w live_def)
    then show ?thesis using False ne by (auto simp: connect_def wrapE_def split: prod.splits)
  qed
qed

section \<open>Sequences of calls\<close>

datatype rtdsCommand =
    DoSubscribe Subscription
  | DoUnsubscribe Subscription
  | DoConnect "go_error option"
  | DoLose nat
  | DoCredentials "Credentials option"
  | DoClose

fun rtds_exec :: "rtdsEnv \<Rightarrow> rtdsCodec \<Rightarrow> rtdsCommand \<Rightarrow> rtdsClient \<Rightarrow> rtdsClient" where
  "rtds_exec E J (DoSubscribe sub) c = snd (Subscribe E J sub c)"
| "rtds_exec E J (DoUnsubscribe sub) c = snd (Unsubscribe E J sub c)"
| "rtds_exec E J (DoConnect dial) c = snd (connect E dial c)"
| "rtds_exec E J (DoLose k) c = loseConn k c"
| "rtds_exec E J (DoCredentials creds) c = WithCredentials creds c"
| "rtds_exec E J DoClose c = Close c"

lemma Subscribe_inv:
  assumes "rtds_inv J c" "\<And>v. re_marshal E v = None"
  shows "rtds_inv J (snd (Subscribe E J sub c))"
proof (cases "newRegistration J sub")
  case (Inr e)
  have "rtds_inv J (c\<lparr>rt_ticks := Suc (Suc (rt_ticks c))\<rparr>)" using assms(1) by simp
  from record_inv [OF this Inr] show ?thesis using assms Inr
    by (auto simp: Subscribe_def bindE_def ctxErr_def lift_def Let_def split: option.splits)
qed (use assms in \<open>auto simp: Subscribe_def bindE_def ctxErr_def lift_def split: option.splits\<close>)

lemma Unsubscribe_inv:
  assumes "rtds_inv J c" "\<And>v. re_marshal E v = None"
  shows "rtds_inv J (snd (Unsubscribe E J sub c))"
  using release_inv [OF assms refl] assms(1) by (auto simp: Unsubscribe_def bindE_def lift_def Let_def split: sum.splits)

lemma rtds_exec_inv: "rtds_inv J c \<Longrightarrow> (\<And>v. re_marshal E v = None) \<Longrightarrow> rtds_inv J (rtds_exec E J cmd c)"
proof (cases cmd)
  case (DoLose k)
  assume "rtds_inv J c"
  then show ?thesis using DoLose by (auto simp: loseConn_def rtds_inv_def local_ok_def numbered_def live_def)
next
  case (DoCredentials creds)
  assume "rtds_inv J c"
  then show ?thesis using DoCredentials by (simp add: WithCredentials_def rtds_inv_def local_ok_def numbered_def live_def wire_def)
next
  case DoClose
  assume "rtds_inv J c"
  then show ?thesis using DoClose by (simp add: Close_def rtds_inv_def local_ok_def numbered_def live_def agreeing_def)
qed (simp_all add: Subscribe_inv Unsubscribe_inv rtds_connect_inv)

lemma rtds_run_inv: "(\<And>v. re_marshal E v = None) \<Longrightarrow> rtds_inv J (fold (rtds_exec E J) cmds newRtds)"
proof -
  assume m: "\<And>v. re_marshal E v = None"
  have "rtds_inv J c \<Longrightarrow> rtds_inv J (fold (rtds_exec E J) cmds c)" for c
    by (induction cmds arbitrary: c) (simp_all add: rtds_exec_inv m)
  moreover have "rtds_inv J newRtds" by (simp add: newRtds_def rtds_inv_def local_ok_def numbered_def agreeing_def live_def unfiltered_def)
  ultimately show ?thesis by blast
qed

section \<open>Registering and releasing\<close>

lemma registration_identity:
  assumes "newRegistration J a = Inr e" "newRegistration J b = Inr e'" "rg_identity e = rg_identity e'"
  shows "e = e'"
  using assms by (auto simp: newRegistration_def go_run split: if_splits)

lemma deleteFirst_mset:
  assumes "\<And>x. x \<in> set es \<Longrightarrow> rg_identity x = rg_identity e \<Longrightarrow> x = e" "e \<in> set es"
  shows "mset (deleteFirst (rg_identity e) es) = mset es - {#e#}"
  using assms
proof (induction es)
  case (Cons x es)
  show ?case
  proof (cases "rg_identity x = rg_identity e")
    case True
    then have "x = e" using Cons.prems(1) [of x] by simp
    then show ?thesis by simp
  next
    case False
    then have "x \<noteq> e" "e \<in> set es" using Cons.prems(2) by auto
    moreover have "mset (deleteFirst (rg_identity e) es) = mset es - {#e#}" by (rule Cons.IH) (use Cons.prems(1) \<open>e \<in> set es\<close> in simp_all)
    moreover have "mset (x # es) - {#e#} = add_mset x (mset es - {#e#})" using \<open>x \<noteq> e\<close> by (simp add: diff_add_mset_swap)
    ultimately show ?thesis using False by simp
  qed
qed simp

lemma sync_subs: "rt_subs (snd (syncSubscriptions E action subs c)) = rt_subs c"
  by (auto simp: syncSubscriptions_def sendJSON_def Let_def split: option.splits)

lemma Subscribe_subs:
  assumes "Subscribe E J sub c = (Inr (), c')"
  shows "\<exists>e. newRegistration J sub = Inr e \<and> rt_subs c' = rt_subs c @ [e]"
proof -
  obtain e where e: "newRegistration J sub = Inr e"
    using assms by (auto simp: Subscribe_def go_run)
  then obtain subs where "syncSubscriptions E ActionSubscribe subs (c\<lparr>rt_ticks := Suc (Suc (rt_ticks c)), rt_subs := rt_subs c @ [e]\<rparr>) = (Inr (), c')"
    using assms by (simp add: Subscribe_def bindE_def ctxErr_def lift_def Let_def split: option.splits if_splits)
  then have "rt_subs c' = rt_subs c @ [e]" using sync_subs [of E ActionSubscribe subs "c\<lparr>rt_ticks := Suc (Suc (rt_ticks c)), rt_subs := rt_subs c @ [e]\<rparr>"] by simp
  then show ?thesis using e by blast
qed

lemma Unsubscribe_subs:
  "newRegistration J sub = Inr e \<Longrightarrow> rt_subs (snd (Unsubscribe E J sub c)) = deleteFirst (rg_identity e) (rt_subs c)"
  by (simp add: Unsubscribe_def bindE_def lift_def Let_def sync_subs)

lemma interested_mset: "mset (rt_subs c) = mset (rt_subs c') \<Longrightarrow> interested J c m = interested J c' m"
  using mset_eq_setD [of "rt_subs c" "rt_subs c'"] by (simp add: interested_def list_ex_iff)

section \<open>Delivery\<close>

lemma dispatch_batch:
  fixes msgs :: "RtdsMessage option list"
  assumes "\<And>n. \<not> ended n" "length (bx_msgs box) \<le> msgsCapacity" "length (bx_errs box) \<le> errsCapacity"
    and "mine = filter (interested J c) (concat (map (\<lambda>m. case m of None \<Rightarrow> [] | Some m \<Rightarrow> [m]) msgs))"
  shows "bx_msgs (fold (dispatch J ended c) msgs box) = bx_msgs box @ take (msgsCapacity - length (bx_msgs box)) mine \<and>
    length (bx_errs (fold (dispatch J ended c) msgs box)) = min errsCapacity (length (bx_errs box) + (length mine - (msgsCapacity - length (bx_msgs box))))"
  using assms(2-4)
proof (induction msgs arbitrary: box mine)
  case (Cons msg msgs)
  show ?case
  proof (cases "\<exists>m. msg = Some m \<and> interested J c m")
    case False
    then have "dispatch J ended c msg box = box" by (auto simp: dispatch_def split: option.splits)
    moreover have "mine = filter (interested J c) (concat (map (\<lambda>m. case m of None \<Rightarrow> [] | Some m \<Rightarrow> [m]) msgs))"
      using False Cons.prems(3) by (auto split: option.splits)
    ultimately show ?thesis using Cons.IH [OF Cons.prems(1,2)] by simp
  next
    case True
    then obtain m where m: "msg = Some m" "interested J c m" by blast
    define rest where "rest = filter (interested J c) (concat (map (\<lambda>m. case m of None \<Rightarrow> [] | Some m \<Rightarrow> [m]) msgs))"
    have mine: "mine = m # rest" using m Cons.prems(3) by (simp add: rest_def)
    let ?b = "dispatch J ended c msg box"
    show ?thesis
    proof (cases "length (bx_msgs box) < msgsCapacity")
      case True
      then have b: "bx_msgs ?b = bx_msgs box @ [m]" "bx_errs ?b = bx_errs box" using m assms(1) by (simp_all add: dispatch_def Let_def)
      have "take (msgsCapacity - length (bx_msgs box)) (m # rest) = m # take (msgsCapacity - Suc (length (bx_msgs box))) rest"
        using True by (metis Suc_diff_Suc take_Suc_Cons)
      then show ?thesis using Cons.IH [of ?b rest] b mine True Cons.prems(2) rest_def by simp
    next
      case False
      then have "bx_msgs ?b = bx_msgs box" "length (bx_errs ?b) = min errsCapacity (length (bx_errs box) + 1)"
        using m assms(1) Cons.prems(2) by (auto simp: dispatch_def Let_def reportError_def)
      moreover have "length (bx_msgs box) = msgsCapacity" using False Cons.prems(1) by simp
      ultimately show ?thesis using Cons.IH [of ?b rest] mine rest_def by (simp add: min_def)
    qed
  qed
qed simp

section \<open>Properties\<close>

text \<open>
  C35: after any sequence of calls, lost connections and reconnects, with any failures of writes and dials, the requests written on a connection that is in use leave the service with exactly the
  topics and types that some registration asks for, with that registration's credentials, unless a write on it has failed, after which its socket is closed; registrations for the same topic and
  type have the same credentials, and no filter is ever sent.  Requests can be encoded.
\<close>

theorem rtds_service_matches:
  assumes "\<And>v. re_marshal E v = None" "c = fold (rtds_exec E J) cmds newRtds"
  shows "(\<forall>k. live k c \<longrightarrow> wire k c = wanted (rt_subs c)) \<and>
    (\<forall>key a. wanted (rt_subs c) key = Some a \<longleftrightarrow> (\<exists>e \<in> set (rt_subs c). interest (rg_sub e) = (key, a))) \<and>
    (\<forall>k v s. (k, v) \<in> set (rt_sent c) \<and> s \<in> set (rq_Subscriptions v) \<longrightarrow> rs_Filters s = None)"
proof -
  have i: "rtds_inv J c" using rtds_run_inv [OF assms(1)] assms(2) by simp
  then have a: "agreeing (rt_subs c)" "unfiltered (rt_sent c)" by (simp_all add: rtds_inv_def local_ok_def)
  show ?thesis using i a(2) wanted_agreeing [OF a(1)] by (auto simp: rtds_inv_def unfiltered_def list_all_iff)
qed

text \<open>
  C36: a registration is released by unsubscribing with the same arguments.  Whatever happened before, after \<open>Subscribe\<close> has succeeded, \<open>Unsubscribe\<close> with the same subscription leaves the
  registrations there were before, up to their order, even if its message cannot be written; the messages that are handed on are those that were handed on before.
\<close>

theorem unsubscribe_undoes_subscribe:
  assumes "\<And>v. re_marshal E v = None" "c = fold (rtds_exec E J) cmds newRtds"
    and "Subscribe E J sub c = (Inr (), c1)" "Unsubscribe E J sub c1 = (r, c2)"
  shows "mset (rt_subs c2) = mset (rt_subs c) \<and> SubscriptionCount c1 = Suc (SubscriptionCount c2) \<and> (\<forall>m. interested J c2 m = interested J c m)"
proof -
  obtain e where e: "newRegistration J sub = Inr e" "rt_subs c1 = rt_subs c @ [e]" using Subscribe_subs [OF assms(3)] by blast
  have "rtds_inv J c" using rtds_run_inv [OF assms(1)] assms(2) by simp
  then have "x = e" if "x \<in> set (rt_subs c1)" "rg_identity x = rg_identity e" for x
    using that e registration_identity [OF _ e(1)] by (auto simp: rtds_inv_def local_ok_def)
  then have "mset (deleteFirst (rg_identity e) (rt_subs c1)) = mset (rt_subs c1) - {#e#}" by (rule deleteFirst_mset) (simp_all add: e(2))
  then have "mset (rt_subs c2) = mset (rt_subs c)" using Unsubscribe_subs [OF e(1), of E c1] assms(4) e(2) by simp
  moreover from this have "length (rt_subs c2) = length (rt_subs c)" by (metis size_mset)
  ultimately show ?thesis using e(2) interested_mset [of c2 c J] by (simp add: SubscriptionCount_def)
qed

text \<open>
  The messages of a batch that some registration matches are handed on once each, in order, as long as the channel has room, and for each one that does not fit an error is reported, as
  long as the channel of errors has room.
\<close>

theorem rtds_batch_exact:
  assumes "\<And>n. \<not> ended n" "length (bx_msgs box) \<le> msgsCapacity" "length (bx_errs box) \<le> errsCapacity"
    and "trim_space raw = CHR ''['' # rest" "rj_messages J (trim_space raw) = Inr msgs"
    and "mine = filter (interested J c) (concat (map (\<lambda>m. case m of None \<Rightarrow> [] | Some m \<Rightarrow> [m]) msgs))"
  shows "bx_msgs (handleData J ended c raw box) = bx_msgs box @ take (msgsCapacity - length (bx_msgs box)) mine \<and>
    length (bx_errs (handleData J ended c raw box)) = min errsCapacity (length (bx_errs box) + (length mine - (msgsCapacity - length (bx_msgs box))))"
proof -
  have "handleData J ended c raw box = fold (dispatch J ended c) msgs box" using assms(4,5) by (simp add: handleData_def)
  then show ?thesis using dispatch_batch [OF assms(1-3,6)] by simp
qed

text \<open>
  C37: a decoded average price has the window its topic stands for, and its value is a plain decimal numeral with at most 18 fraction digits for exactly the signed integer of the wire divided
  by \<open>10^18\<close>; every integer of the wire that is an optional minus sign and digits is accepted.
\<close>

theorem twap_value_exact:
  assumes "AsChainlinkTWAPPrice J m = Inr price"
  shows "chainlinkTWAPTopic (tw_WindowSeconds price) = Inr (rm_Topic m) \<and>
    (\<exists>symbol rawValue rawFull full n k. rj_twap J (rm_Payload m) = Inr (symbol, rawValue, rawFull, tw_Timestamp price, tw_WindowSeconds price) \<and>
      rj_string J rawFull = Inr full \<and> big_int_set_string full 10 = Some n \<and> k \<le> 18 \<and> decimal_numeral (tw_Value price) = Some (of_int n / 10 ^ 18, k)) \<and>
    (\<forall>s. signedDigits s \<longrightarrow> (\<exists>res. chainlinkE18ToDecimalString s = Inr res))"
proof -
  obtain window symbol rawValue rawFull where w: "chainlinkTWAPMessageWindow (rm_Topic m) = Inr window" "tw_WindowSeconds price = window"
    "rj_twap J (rm_Payload m) = Inr (symbol, rawValue, rawFull, tw_Timestamp price, window)"
    and f: "\<exists>full. rj_string J rawFull = Inr full \<and> chainlinkE18ToDecimalString full = Inr (tw_Value price)"
    using assms by (auto simp: AsChainlinkTWAPPrice_def go_run split: if_splits)
  then obtain full where full: "rj_string J rawFull = Inr full" "chainlinkE18ToDecimalString full = Inr (tw_Value price)" by blast
  have "chainlinkTWAPTopic window = Inr (rm_Topic m)"
    using w(1) by (auto simp: chainlinkTWAPMessageWindow_def chainlinkTWAPTopic_def ChainlinkTWAP30Seconds_def ChainlinkTWAP60Seconds_def split: if_splits)
  then show ?thesis using w full(1) e18_exact [OF full(2)] e18_accepts by (intro conjI) (simp, blast, blast)
qed

section \<open>Examples\<close>

text \<open>A codec for subscriptions without filters, and a service on which every write succeeds.\<close>

definition demo_sub :: "string \<Rightarrow> Subscription" where
  "demo_sub topic = \<lparr>rs_Topic = topic, rs_Type = ''*'', rs_Filters = None, rs_CLOBAuth = None\<rparr>"

definition demo_msg :: "string \<Rightarrow> RtdsMessage" where
  "demo_msg topic = \<lparr>rm_Topic = topic, rm_Type = ''update'', rm_Timestamp = 7, rm_Payload = ''{}''\<rparr>"

definition demo_json :: rtdsCodec where
  "demo_json = \<lparr>rj_encode = (\<lambda>s. Inr (rs_Topic s)), rj_snapshot = (\<lambda>topic. Inr (demo_sub topic)), rj_value = (\<lambda>v. Inr []), rj_payload = (\<lambda>s. Inr []),
     rj_string = Inr, rj_number = Inr, rj_price = (\<lambda>s. Inl (Msg ''price'')),
     rj_twap = (\<lambda>s. Inr (''btc'', ''-1.5'', ''-1500000000000000000'', 9, 30)), rj_comment = (\<lambda>s. Inl (Msg ''comment'')),
     rj_message = (\<lambda>s. Inr (demo_msg ''comments'')), rj_messages = (\<lambda>s. Inr [Some (demo_msg ''comments''), None, Some (demo_msg ''other'')])\<rparr>"

definition demo_service :: rtdsEnv where
  "demo_service = \<lparr>re_ctx = (\<lambda>n. None), re_marshal = (\<lambda>v. None), re_write = (\<lambda>n v. None)\<rparr>"

definition demo_run :: "rtdsCommand list" where
  "demo_run = [DoConnect None, DoSubscribe (demo_sub ''comments''), DoLose 0, DoConnect None]"

theorem rtds_service_matches_witness:
  "\<exists>c. c = fold (rtds_exec demo_service demo_json) demo_run newRtds \<and> live 1 c \<and> wire 1 c (''comments'', ''*'') = Some None"
proof -
  define c where "c = fold (rtds_exec demo_service demo_json) demo_run newRtds"
  have l: "live 1 c" "wanted (rt_subs c) (''comments'', ''*'') = Some None" unfolding c_def by code_simp+
  have "re_marshal demo_service v = None" for v by (simp add: demo_service_def)
  from rtds_service_matches [OF this c_def] l have "wire 1 c (''comments'', ''*'') = Some None" by simp
  then show ?thesis using c_def l(1) by blast
qed

theorem unsubscribe_undoes_subscribe_witness:
  "\<exists>c c1 r c2. c = fold (rtds_exec demo_service demo_json) demo_run newRtds \<and> Subscribe demo_service demo_json (demo_sub ''prices'') c = (Inr (), c1) \<and>
     Unsubscribe demo_service demo_json (demo_sub ''prices'') c1 = (r, c2) \<and> SubscriptionCount c1 = 2 \<and> mset (rt_subs c2) = mset (rt_subs c)"
proof -
  define c where "c = fold (rtds_exec demo_service demo_json) demo_run newRtds"
  obtain r1 c1 where s: "Subscribe demo_service demo_json (demo_sub ''prices'') c = (r1, c1)" by fastforce
  obtain r c2 where u: "Unsubscribe demo_service demo_json (demo_sub ''prices'') c1 = (r, c2)" by fastforce
  have "(case fst (Subscribe demo_service demo_json (demo_sub ''prices'') c) of Inr _ \<Rightarrow> True | Inl _ \<Rightarrow> False) \<and>
      SubscriptionCount (snd (Subscribe demo_service demo_json (demo_sub ''prices'') c)) = 2"
    unfolding c_def by code_simp
  then have ok: "r1 = Inr ()" "SubscriptionCount c1 = 2" using s by (auto split: sum.splits)
  have "re_marshal demo_service v = None" for v by (simp add: demo_service_def)
  from unsubscribe_undoes_subscribe [OF this c_def s [unfolded ok(1)] u] show ?thesis using c_def s u ok by blast
qed

theorem rtds_batch_exact_witness:
  "\<exists>c. bx_msgs (handleData demo_json (\<lambda>n. False) c ''[]'' \<lparr>bx_msgs = [], bx_errs = [], bx_ticks = 0\<rparr>) = [demo_msg ''comments'']"
proof -
  define c where "c = fold (rtds_exec demo_service demo_json) demo_run newRtds"
  have r: "interested demo_json c (demo_msg ''comments'')" "\<not> interested demo_json c (demo_msg ''other'')" unfolding c_def by code_simp+
  have t: "trim_space ''[]'' = CHR ''['' # '']''" by code_simp
  have m: "rj_messages demo_json (trim_space ''[]'') = Inr [Some (demo_msg ''comments''), None, Some (demo_msg ''other'')]" by (simp add: demo_json_def)
  from rtds_batch_exact [OF _ _ _ t m refl, of "\<lambda>n. False" "\<lparr>bx_msgs = [], bx_errs = [], bx_ticks = 0\<rparr>" c] r show ?thesis
    by (intro exI [of _ c]) (simp add: msgsCapacity_def errsCapacity_def)
qed

theorem twap_value_exact_witness:
  "\<exists>price. AsChainlinkTWAPPrice demo_json (demo_msg ''crypto_prices_twap_thirty'') = Inr price \<and> tw_Value price = ''-1.5'' \<and>
     (\<exists>k. decimal_numeral (tw_Value price) = Some (- 3 / 2, k))"
proof -
  obtain price where p: "AsChainlinkTWAPPrice demo_json (demo_msg ''crypto_prices_twap_thirty'') = Inr price" "tw_Value price = ''-1.5''"
  proof -
    have "(case AsChainlinkTWAPPrice demo_json (demo_msg ''crypto_prices_twap_thirty'') of Inr price \<Rightarrow> tw_Value price = ''-1.5'' | Inl _ \<Rightarrow> False)" by code_simp
    then show thesis using that by (auto split: sum.splits)
  qed
  have "big_int_set_string ''-1500000000000000000'' 10 = Some (- 1500000000000000000)" by code_simp
  with twap_value_exact [OF p(1)] show ?thesis using p by (auto simp: demo_json_def)
qed

end
