(* ===== verification/RtdsConnection.thy ===== *)
theory RtdsConnection
  imports Prelude
begin

text \<open>
  The life of a connection of the real-time data socket, \<open>clob/ws/rtds/client.go\<close>, as steps that interleave freely: calls of \<open>connect\<close>, the reader of each connection, the loop that connects
  again after a loss, and \<open>Close\<close>.  The heartbeat loop changes no shared state: it closes the socket, after which a read fails.  What is registered is the subject of \<open>Rtds\<close>.
\<close>

section \<open>State\<close>

text \<open>The reader of a connection: reading, with a failed read, having given the connection up and about to call \<open>scheduleReconnect\<close>, and returned or not started.\<close>

datatype readerPhase = Reading | Failed | Reporting | Returned

datatype dialPhase = Checking | Dialing | Dialed | Replaying nat | Connected nat | Refused

text \<open>The reconnect loop; \<open>Retrying\<close> stands between its deferred critical section and the call of \<open>scheduleReconnect\<close> there.\<close>

datatype retryPhase = RetryStart | RetryDial dialPhase | RetryWait | RetryLeave | Retrying | RetryGone

text \<open>
  Connections are numbered.  \<open>rl_current\<close> is the one whose cancel function is in \<open>connCancel\<close>, \<open>rl_canceled\<close> are those whose context has been canceled by their successor, and \<open>rl_subsMu\<close> says that a
  call of \<open>connect\<close> holds the mutex of the registrations, from before it installs a connection until its replay is done.
\<close>

record rtdsLife =
  rl_auto :: bool
  rl_closed :: bool
  rl_ctxDone :: bool
  rl_conn :: "nat option"
  rl_current :: "nat option"
  rl_reconnecting :: bool
  rl_subsMu :: bool
  rl_next :: nat
  rl_canceled :: "nat list"
  rl_reader :: "nat \<Rightarrow> readerPhase"
  rl_calls :: "dialPhase list"
  rl_attempts :: "retryPhase list"

definition newRtdsLife :: "bool \<Rightarrow> rtdsLife" where
  "newRtdsLife auto = \<lparr>rl_auto = auto, rl_closed = False, rl_ctxDone = False, rl_conn = None, rl_current = None, rl_reconnecting = False, rl_subsMu = False, rl_next = 0,
     rl_canceled = [], rl_reader = (\<lambda>_. Returned), rl_calls = [], rl_attempts = []\<rparr>"

section \<open>Critical sections\<close>

text \<open>The section of \<open>connect\<close> that installs a connection, with the cancelation of the previous one and the start of the reader; it is entered with the mutex of the registrations.\<close>

definition installRtds :: "rtdsLife \<Rightarrow> (nat \<times> rtdsLife) option" where
  "installRtds s =
     (if rl_closed s \<or> rl_conn s \<noteq> None then None
      else let n = rl_next s
           in Some (n, s\<lparr>rl_conn := Some n, rl_current := Some n, rl_next := Suc n, rl_subsMu := True,
                rl_canceled := (case rl_current s of None \<Rightarrow> rl_canceled s | Some old \<Rightarrow> old # rl_canceled s),
                rl_reader := (rl_reader s)(n := Reading)\<rparr>))"

definition readerCtxDone :: "rtdsLife \<Rightarrow> nat \<Rightarrow> bool" where
  "readerCtxDone s n \<longleftrightarrow> rl_ctxDone s \<or> n \<in> set (rl_canceled s)"

definition scheduleRtds :: "rtdsLife \<Rightarrow> rtdsLife" where
  "scheduleRtds s =
     (if rl_closed s \<or> \<not> rl_auto s \<or> rl_reconnecting s then s
      else s\<lparr>rl_reconnecting := True, rl_attempts := rl_attempts s @ [RetryStart]\<rparr>)"

section \<open>Steps\<close>

inductive rtds_reader_step :: "nat \<Rightarrow> rtdsLife \<Rightarrow> readerPhase \<Rightarrow> readerPhase \<Rightarrow> rtdsLife \<Rightarrow> bool" for n s where
  canceled: "readerCtxDone s n \<Longrightarrow> rtds_reader_step n s Reading Returned s"
| failed: "\<not> readerCtxDone s n \<Longrightarrow> rtds_reader_step n s Reading Failed s"
| stale: "rl_conn s \<noteq> Some n \<Longrightarrow> rtds_reader_step n s Failed Returned s"
| lost: "rl_conn s = Some n \<Longrightarrow> rtds_reader_step n s Failed Reporting (s\<lparr>rl_conn := None\<rparr>)"
| report: "rtds_reader_step n s Reporting Returned (scheduleRtds s)"

inductive dial_step :: "rtdsLife \<Rightarrow> dialPhase \<Rightarrow> dialPhase \<Rightarrow> rtdsLife \<Rightarrow> bool" for s where
  closed: "rl_closed s \<Longrightarrow> dial_step s Checking Refused s"
| dial: "\<not> rl_closed s \<Longrightarrow> dial_step s Checking Dialing s"
| dial_failed: "dial_step s Dialing Refused s"
| dialed: "dial_step s Dialing Dialed s"
| refused: "\<not> rl_subsMu s \<Longrightarrow> installRtds s = None \<Longrightarrow> dial_step s Dialed Refused s"
| install: "\<not> rl_subsMu s \<Longrightarrow> installRtds s = Some (n, s') \<Longrightarrow> dial_step s Dialed (Replaying n) s'"
| replayed: "dial_step s (Replaying n) (Connected n) (s\<lparr>rl_subsMu := False\<rparr>)"
| replay_failed: "dial_step s (Replaying n) Refused (s\<lparr>rl_subsMu := False\<rparr>)"

inductive retry_step :: "rtdsLife \<Rightarrow> retryPhase \<Rightarrow> retryPhase \<Rightarrow> rtdsLife \<Rightarrow> bool" for s where
  stop: "rl_closed s \<Longrightarrow> retry_step s RetryStart RetryLeave s"
| start: "\<not> rl_closed s \<Longrightarrow> retry_step s RetryStart (RetryDial Checking) s"
| dialing: "dial_step s ph ph' s' \<Longrightarrow> retry_step s (RetryDial ph) (RetryDial ph') s'"
| success: "retry_step s (RetryDial (Connected n)) RetryLeave s"
| failure: "retry_step s (RetryDial Refused) RetryWait s"
| ended: "rl_ctxDone s \<Longrightarrow> retry_step s RetryWait RetryLeave s"
| again: "retry_step s RetryWait RetryStart s"
| leave: "retry_step s RetryLeave (if \<not> rl_closed s \<and> rl_conn s = None then Retrying else RetryGone) (s\<lparr>rl_reconnecting := False\<rparr>)"
| reschedule: "retry_step s Retrying RetryGone (scheduleRtds s)"

inductive rtds_step :: "rtdsLife \<Rightarrow> rtdsLife \<Rightarrow> bool" where
  reader: "rtds_reader_step n s (rl_reader s n) w s' \<Longrightarrow> rtds_step s (s'\<lparr>rl_reader := (rl_reader s')(n := w)\<rparr>)"
| call: "rtds_step s (s\<lparr>rl_calls := rl_calls s @ [Checking]\<rparr>)"
| called: "i < length (rl_calls s) \<Longrightarrow> dial_step s (rl_calls s ! i) ph s' \<Longrightarrow> rtds_step s (s'\<lparr>rl_calls := (rl_calls s')[i := ph]\<rparr>)"
| attempt: "i < length (rl_attempts s) \<Longrightarrow> retry_step s (rl_attempts s ! i) ph s' \<Longrightarrow> rtds_step s (s'\<lparr>rl_attempts := (rl_attempts s')[i := ph]\<rparr>)"
| close: "rtds_step s (s\<lparr>rl_closed := True\<rparr>)"
| cancel: "rl_closed s \<Longrightarrow> rtds_step s (s\<lparr>rl_ctxDone := True\<rparr>)"

text \<open>
  The steps of the client's own goroutines: the reader of each connection and the loops that reconnect.  A call of \<open>connect\<close> that has installed its connection may end its replay, which
  releases the mutex of the registrations; it opens no connection.
\<close>

inductive own_rtds_step :: "rtdsLife \<Rightarrow> rtdsLife \<Rightarrow> bool" where
  reader: "rtds_reader_step n s (rl_reader s n) w s' \<Longrightarrow> own_rtds_step s (s'\<lparr>rl_reader := (rl_reader s')(n := w)\<rparr>)"
| attempt: "i < length (rl_attempts s) \<Longrightarrow> retry_step s (rl_attempts s ! i) ph s' \<Longrightarrow> own_rtds_step s (s'\<lparr>rl_attempts := (rl_attempts s')[i := ph]\<rparr>)"
| replayed: "i < length (rl_calls s) \<Longrightarrow> rl_calls s ! i = Replaying n \<Longrightarrow> dial_step s (Replaying n) ph s' \<Longrightarrow> own_rtds_step s (s'\<lparr>rl_calls := (rl_calls s')[i := ph]\<rparr>)"

definition rtds_reachable :: "bool \<Rightarrow> rtdsLife \<Rightarrow> bool" where
  "rtds_reachable auto s \<longleftrightarrow> rtds_step\<^sup>*\<^sup>* (newRtdsLife auto) s"

inductive_cases reader_stepE: "rtds_reader_step n s w w' s'"
inductive_cases dial_stepE: "dial_step s ph ph' s'"
inductive_cases retry_stepE: "retry_step s ph ph' s'"
inductive_cases own_rtds_stepE: "own_rtds_step s s'"

lemma own_rtds_step_rtds: "own_rtds_step s s' \<Longrightarrow> rtds_step s s'"
  by (erule own_rtds_stepE) (auto intro: rtds_step.reader rtds_step.attempt rtds_step.called)

section \<open>Invariants\<close>

definition active :: "retryPhase \<Rightarrow> bool" where
  "active a \<longleftrightarrow> a \<noteq> RetryGone \<and> a \<noteq> Retrying"

definition rinv_count :: "rtdsLife \<Rightarrow> bool" where
  "rinv_count s \<longleftrightarrow> length (filter active (rl_attempts s)) = (if rl_reconnecting s then 1 else 0)"

definition rinv_ids :: "rtdsLife \<Rightarrow> bool" where
  "rinv_ids s \<longleftrightarrow> (rl_ctxDone s \<longrightarrow> rl_closed s) \<and> rl_current s = (if rl_next s = 0 then None else Some (rl_next s - 1)) \<and>
     (\<forall>n. rl_conn s = Some n \<longrightarrow> Suc n = rl_next s) \<and> (\<forall>k \<in> set (rl_canceled s). Suc k < rl_next s) \<and> (\<forall>n \<ge> rl_next s. rl_reader s n = Returned)"

definition rinv_watch :: "rtdsLife \<Rightarrow> bool" where
  "rinv_watch s \<longleftrightarrow> (\<forall>n. rl_conn s = Some n \<and> \<not> rl_closed s \<longrightarrow> rl_reader s n \<in> {Reading, Failed})"

definition reporting :: "rtdsLife \<Rightarrow> bool" where
  "reporting s \<longleftrightarrow> (\<exists>n. rl_reader s n = Reporting)"

definition rinv_recover :: "rtdsLife \<Rightarrow> bool" where
  "rinv_recover s \<longleftrightarrow> (rl_auto s \<and> \<not> rl_closed s \<and> rl_conn s = None \<and> 0 < rl_next s \<longrightarrow>
     rl_reconnecting s \<or> reporting s \<or> Retrying \<in> set (rl_attempts s))"

text \<open>The mutex is held by a call that replays.\<close>

definition holder :: "rtdsLife \<Rightarrow> bool" where
  "holder s \<longleftrightarrow> (\<exists>i n. i < length (rl_calls s) \<and> rl_calls s ! i = Replaying n) \<or>
     (\<exists>i n. i < length (rl_attempts s) \<and> rl_attempts s ! i = RetryDial (Replaying n))"

definition rinv_lock :: "rtdsLife \<Rightarrow> bool" where
  "rinv_lock s \<longleftrightarrow> (rl_subsMu s \<longrightarrow> holder s)"

lemma length_filter_update:
  assumes "i < length xs"
  shows "length (filter P (xs[i := x])) + (if P (xs ! i) then 1 else 0) = length (filter P xs) + (if P x then 1 else 0)"
proof -
  have "filter P xs = filter P (take i xs @ xs ! i # drop (Suc i) xs)" using id_take_nth_drop [OF assms] by simp
  then show ?thesis by (simp add: upd_conv_take_nth_drop [OF assms] del: append_take_drop_id)
qed

lemma rtds_reader_step_frame:
  "rtds_reader_step n s w w' s' \<Longrightarrow> rl_auto s' = rl_auto s \<and> rl_closed s' = rl_closed s \<and> rl_ctxDone s' = rl_ctxDone s \<and> rl_next s' = rl_next s \<and> rl_current s' = rl_current s \<and>
    rl_canceled s' = rl_canceled s \<and> rl_reader s' = rl_reader s \<and> rl_calls s' = rl_calls s \<and> rl_subsMu s' = rl_subsMu s \<and>
    (rl_conn s' = rl_conn s \<or> rl_conn s = Some n \<and> w' = Reporting \<and> rl_conn s' = None) \<and>
    (rl_attempts s' = rl_attempts s \<and> rl_reconnecting s' = rl_reconnecting s \<or>
      \<not> rl_reconnecting s \<and> rl_reconnecting s' \<and> rl_attempts s' = rl_attempts s @ [RetryStart])"
  by (erule rtds_reader_step.cases) (simp_all add: scheduleRtds_def)

lemma dial_step_frame:
  "dial_step s ph ph' s' \<Longrightarrow> rl_auto s' = rl_auto s \<and> rl_closed s' = rl_closed s \<and> rl_ctxDone s' = rl_ctxDone s \<and> rl_calls s' = rl_calls s \<and>
    rl_attempts s' = rl_attempts s \<and> rl_reconnecting s' = rl_reconnecting s"
  by (erule dial_step.cases) (auto simp: installRtds_def Let_def split: if_splits)

lemma scheduleRtds_frame:
  "rl_auto (scheduleRtds s) = rl_auto s" "rl_closed (scheduleRtds s) = rl_closed s" "rl_ctxDone (scheduleRtds s) = rl_ctxDone s" "rl_conn (scheduleRtds s) = rl_conn s"
  "rl_next (scheduleRtds s) = rl_next s" "rl_current (scheduleRtds s) = rl_current s" "rl_canceled (scheduleRtds s) = rl_canceled s"
  "rl_reader (scheduleRtds s) = rl_reader s" "rl_calls (scheduleRtds s) = rl_calls s" "rl_subsMu (scheduleRtds s) = rl_subsMu s"
  by (simp_all add: scheduleRtds_def)

lemma rinv_count_step:
  assumes "rtds_step s s'" "rinv_count s"
  shows "rinv_count s'"
  using assms(1)
proof cases
  case (reader n w t)
  then show ?thesis using assms(2) rtds_reader_step_frame [OF reader(2)] by (auto simp: rinv_count_def active_def)
next
  case (called i ph t)
  then show ?thesis using assms(2) dial_step_frame [OF called(3)] by (auto simp: rinv_count_def)
next
  case (attempt i ph t)
  note u = length_filter_update [OF attempt(2), of active]
  from attempt(3) show ?thesis
  proof cases
    case leave
    then have "active (rl_attempts s ! i)" "\<not> active ph" by (auto simp: active_def)
    then show ?thesis using leave u [of ph] assms(2) attempt(1) by (auto simp: rinv_count_def split: if_splits)
  next
    case reschedule
    have "(rl_attempts s @ [RetryStart])[i := RetryGone] = (rl_attempts s)[i := RetryGone] @ [RetryStart]" using attempt(2) by (simp add: list_update_append)
    then show ?thesis using reschedule u [of RetryGone] assms(2) attempt(1) by (auto simp: rinv_count_def scheduleRtds_def active_def)
  next
    case (dialing cp cp')
    then show ?thesis using u [of ph] assms(2) attempt(1) dial_step_frame [OF dialing(3)] by (auto simp: rinv_count_def active_def)
  qed (use u [of ph] assms(2) attempt(1) in \<open>auto simp: rinv_count_def active_def\<close>)
qed (use assms(2) in \<open>auto simp: rinv_count_def\<close>)

text \<open>Numbers of connections, and the reader of the one in use.\<close>

lemma installRtds_ids:
  assumes "installRtds s = Some (n, s')" "rinv_ids s"
  shows "rinv_ids s' \<and> rinv_watch s' \<and> rl_conn s' = Some n"
proof -
  have "\<forall>k \<in> set (rl_canceled s). k < rl_next s" using assms(2) Suc_lessD unfolding rinv_ids_def by blast
  then show ?thesis using assms by (auto simp: installRtds_def Let_def rinv_ids_def rinv_watch_def split: if_splits)
qed

lemma dial_step_ids:
  assumes "dial_step s ph ph' s'" "rinv_ids s" "rinv_watch s"
  shows "rinv_ids s' \<and> rinv_watch s'"
  using assms(1)
proof cases
  case (install n)
  then show ?thesis using installRtds_ids assms(2) by blast
qed (use assms(2,3) in \<open>simp_all add: rinv_ids_def rinv_watch_def\<close>)

lemma reader_keeps:
  assumes "rtds_reader_step n s w w' t" "rinv_ids s" "\<not> rl_closed s" "rl_conn t = Some n" "w \<in> {Reading, Failed}"
  shows "w' \<in> {Reading, Failed}"
  using assms(1)
proof cases
  case canceled
  then show ?thesis using assms(2-4) by (auto simp: readerCtxDone_def rinv_ids_def)
qed (use assms(4,5) in auto)

lemma rinv_ids_step:
  assumes "rtds_step s s'" "rinv_ids s" "rinv_watch s"
  shows "rinv_ids s' \<and> rinv_watch s'"
  using assms(1)
proof cases
  case (reader n w t)
  note F = rtds_reader_step_frame [OF reader(2)]
  have "rl_reader s n \<noteq> Returned" using reader(2) by cases auto
  then have n: "n < rl_next s" using assms(2) unfolding rinv_ids_def by (meson not_le)
  have c: "rl_conn s' = rl_conn s \<or> rl_conn s' = None" using F reader(1) by auto
  have "rinv_ids s'" using c by (elim disjE) (use F reader(1) n assms(2) in \<open>simp_all add: rinv_ids_def\<close>)
  moreover have "rinv_watch s'"
    unfolding rinv_watch_def
  proof (intro allI impI)
    fix m
    assume m: "rl_conn s' = Some m \<and> \<not> rl_closed s'"
    then have o: "rl_conn s = Some m" "\<not> rl_closed s" using c F reader(1) by auto
    then have r: "rl_reader s m \<in> {Reading, Failed}" using assms(3) unfolding rinv_watch_def by blast
    show "rl_reader s' m \<in> {Reading, Failed}"
    proof (cases "m = n")
      case True
      have "w \<in> {Reading, Failed}" by (rule reader_keeps [OF reader(2) assms(2) o(2)]) (use True m reader(1) r in simp_all)
      then show ?thesis using True reader(1) by simp
    next
      case False
      then show ?thesis using r F reader(1) by simp
    qed
  qed
  ultimately show ?thesis ..
next
  case (called i ph t)
  then show ?thesis using dial_step_ids [OF called(3) assms(2,3)] by (simp add: rinv_ids_def rinv_watch_def)
next
  case (attempt i ph t)
  have "rinv_ids t \<and> rinv_watch t"
    using attempt(3)
  proof cases
    case (dialing cp cp')
    then show ?thesis using dial_step_ids [OF dialing(3) assms(2,3)] by simp
  qed (use assms(2,3) in \<open>auto simp: rinv_ids_def rinv_watch_def scheduleRtds_frame\<close>)
  then show ?thesis using attempt(1) by (simp add: rinv_ids_def rinv_watch_def)
qed (use assms(2,3) in \<open>auto simp: rinv_ids_def rinv_watch_def\<close>)

text \<open>A client that has lost its connection is about to reconnect.\<close>

lemma dial_step_offline: "dial_step s ph ph' t \<Longrightarrow> rl_conn t = None \<Longrightarrow> rl_conn s = None \<and> rl_next t = rl_next s \<and> rl_reader t = rl_reader s"
  by (erule dial_step.cases) (auto simp: installRtds_def Let_def split: if_splits)

lemma schedule_recovers: "rl_auto s \<Longrightarrow> \<not> rl_closed s \<Longrightarrow> rl_reconnecting (scheduleRtds s)"
  by (simp add: scheduleRtds_def)

lemma reporting_other: "reporting s \<Longrightarrow> rl_reader s n \<noteq> Reporting \<Longrightarrow> rl_reader s' = (rl_reader s)(n := w) \<Longrightarrow> reporting s'"
  unfolding reporting_def by (metis fun_upd_other)

lemma retrying_other:
  assumes "Retrying \<in> set xs" "xs ! i \<noteq> Retrying"
  shows "Retrying \<in> set (xs[i := x])"
proof -
  obtain j where "j < length xs" "xs ! j = Retrying" using assms(1) by (auto simp: in_set_conv_nth)
  then have "xs[i := x] ! j = Retrying" "j < length (xs[i := x])" using assms(2) by (metis nth_list_update_neq, simp)
  then show ?thesis by (metis nth_mem)
qed

lemma rinv_recover_step:
  assumes "rtds_step s s'" "rinv_recover s"
  shows "rinv_recover s'"
  unfolding rinv_recover_def
proof
  assume off: "rl_auto s' \<and> \<not> rl_closed s' \<and> rl_conn s' = None \<and> 0 < rl_next s'"
  from assms(1) show "rl_reconnecting s' \<or> reporting s' \<or> Retrying \<in> set (rl_attempts s')"
  proof cases
    case (reader n w t)
    note F = rtds_reader_step_frame [OF reader(2)]
    have r: "rl_reader s' = (rl_reader s)(n := w)" using F reader(1) by simp
    from reader(2) show ?thesis
    proof cases
      case lost
      then show ?thesis using r by (auto simp: reporting_def)
    next
      case report
      then show ?thesis using off reader(1) schedule_recovers [of s] by (simp add: scheduleRtds_frame)
    qed (use reader(1) off assms(2) reporting_other [OF _ _ r] in \<open>auto simp: rinv_recover_def\<close>)
  next
    case (called i ph t)
    then show ?thesis using off assms(2) dial_step_offline [OF called(3)] dial_step_frame [OF called(3)] by (auto simp: rinv_recover_def reporting_def)
  next
    case (attempt i ph t)
    from attempt(3) show ?thesis
    proof cases
      case (dialing cp cp')
      have "Retrying \<in> set (rl_attempts s')" if "Retrying \<in> set (rl_attempts s)"
        using retrying_other [OF that, of i ph] dialing attempt(1) dial_step_frame [OF dialing(3)] by simp
      then show ?thesis using dialing off attempt(1) assms(2) dial_step_offline [OF dialing(3)] dial_step_frame [OF dialing(3)]
        by (auto simp: rinv_recover_def reporting_def)
    next
      case leave
      then have "Retrying \<in> set (rl_attempts s')" using off attempt(1,2) by (auto intro: set_update_memI)
      then show ?thesis by blast
    next
      case reschedule
      then show ?thesis using off attempt(1) schedule_recovers [of s] by (simp add: scheduleRtds_frame)
    qed (use off attempt(1) assms(2) retrying_other [of "rl_attempts s" i ph] in \<open>auto simp: rinv_recover_def reporting_def\<close>)
  qed (use off assms(2) in \<open>auto simp: rinv_recover_def reporting_def\<close>)
qed

text \<open>The mutex is held only by calls that are replaying.\<close>

lemma dial_step_lock: "dial_step s ph ph' t \<Longrightarrow> rl_subsMu t \<Longrightarrow> rl_subsMu s \<and> (\<forall>n. ph \<noteq> Replaying n) \<or> (\<exists>n. ph' = Replaying n)"
  by (erule dial_step.cases) (auto simp: installRtds_def Let_def split: if_splits)

lemma holder_calls:
  assumes "holder s" "i < length (rl_calls s)" "\<forall>n. rl_calls s ! i \<noteq> Replaying n" "rl_calls s' = (rl_calls s)[i := ph]" "rl_attempts s' = rl_attempts s"
  shows "holder s'"
  using assms(1) unfolding holder_def assms(4,5) length_list_update by (metis assms(3) nth_list_update_neq)

lemma holder_attempts:
  assumes "holder s" "i < length (rl_attempts s)" "\<forall>n. rl_attempts s ! i \<noteq> RetryDial (Replaying n)" "rl_attempts s' = (rl_attempts s)[i := ph]" "rl_calls s' = rl_calls s"
  shows "holder s'"
  using assms(1) unfolding holder_def assms(4,5) length_list_update by (metis assms(3) nth_list_update_neq)

lemma holder_append: "holder s \<Longrightarrow> rl_calls s' = rl_calls s @ xs \<Longrightarrow> rl_attempts s' = rl_attempts s @ ys \<Longrightarrow> holder s'"
  unfolding holder_def by (metis nth_append length_append trans_less_add1)

lemma rinv_lock_step:
  assumes "rtds_step s s'" "rinv_lock s"
  shows "rinv_lock s'"
  unfolding rinv_lock_def
proof
  assume l: "rl_subsMu s'"
  have old: "holder s" if "rl_subsMu s" using that assms(2) by (simp add: rinv_lock_def)
  from assms(1) show "holder s'"
  proof cases
    case (reader n w t)
    note F = rtds_reader_step_frame [OF reader(2)]
    have "holder s" using old l F reader(1) by simp
    then show ?thesis using F reader(1) by (intro holder_append [of s s' "[]" "if rl_attempts t = rl_attempts s then [] else [RetryStart]"]) auto
  next
    case call
    then show ?thesis using old l by (intro holder_append [of s s' "[Checking]" "[]"]) auto
  next
    case (called i ph t)
    note F = dial_step_frame [OF called(3)]
    from dial_step_lock [OF called(3)] l called(1)
    consider (other) "rl_subsMu s" "\<forall>n. rl_calls s ! i \<noteq> Replaying n" | (holds) n where "ph = Replaying n" by auto
    then show ?thesis
    proof cases
      case other
      then show ?thesis using holder_calls [OF old called(2), of s' ph] F called(1) by simp
    next
      case holds
      then have "i < length (rl_calls s')" "rl_calls s' ! i = Replaying n" using called(1,2) F by simp_all
      then show ?thesis unfolding holder_def by blast
    qed
  next
    case (attempt i ph t)
    from attempt(3) show ?thesis
    proof cases
      case (dialing cp cp')
      note F = dial_step_frame [OF dialing(3)]
      from dial_step_lock [OF dialing(3)] l attempt(1)
      consider (other) "rl_subsMu s" "\<forall>n. cp \<noteq> Replaying n" | (holds) n where "cp' = Replaying n" by auto
      then show ?thesis
      proof cases
        case other
        then show ?thesis using holder_attempts [OF old attempt(2), of s' ph] dialing(1,2) F attempt(1) by simp
      next
        case holds
        then have "i < length (rl_attempts s')" "rl_attempts s' ! i = RetryDial (Replaying n)" using dialing(2) attempt(1,2) F by simp_all
        then show ?thesis unfolding holder_def by blast
      qed
    next
      case reschedule
      have "holder s" using old l attempt(1) reschedule by (simp add: scheduleRtds_frame)
      then have "holder (scheduleRtds s)"
        by (rule holder_append [of s _ "[]" "if rl_attempts (scheduleRtds s) = rl_attempts s then [] else [RetryStart]"]) (auto simp: scheduleRtds_def)
      moreover have "i < length (rl_attempts (scheduleRtds s))" "rl_attempts (scheduleRtds s) ! i = Retrying"
        using attempt(2) reschedule by (auto simp: scheduleRtds_def nth_append)
      ultimately show ?thesis using holder_attempts [of "scheduleRtds s" i s' ph] reschedule attempt(1) by simp
    qed (use old l attempt(1) holder_attempts [OF _ attempt(2), of s' ph] in auto)
  qed (use old l in \<open>simp_all add: holder_def\<close>)
qed

lemma rtds_step_auto: "rtds_step s s' \<Longrightarrow> rl_auto s' = rl_auto s"
  by (erule rtds_step.cases) (auto dest!: rtds_reader_step_frame dial_step_frame elim!: retry_step.cases simp: scheduleRtds_frame)

lemma rtds_reachable_inv:
  assumes "rtds_reachable auto s"
  shows "rinv_count s \<and> rinv_ids s \<and> rinv_watch s \<and> rinv_recover s \<and> rinv_lock s \<and> rl_auto s = auto"
  using assms unfolding rtds_reachable_def
proof (induction rule: rtranclp_induct)
  case base
  then show ?case by (simp add: newRtdsLife_def rinv_count_def rinv_ids_def rinv_watch_def rinv_recover_def rinv_lock_def)
next
  case (step s t)
  then show ?case using rinv_count_step rinv_ids_step rinv_recover_step rinv_lock_step rtds_step_auto by metis
qed

section \<open>Reaching a connection\<close>

definition can_reach :: "rtdsLife \<Rightarrow> bool" where
  "can_reach s \<longleftrightarrow> (\<exists>s'. own_rtds_step\<^sup>*\<^sup>* s s' \<and> rl_conn s' \<noteq> None \<and> \<not> rl_closed s')"

text \<open>Without a connection, open, and with the mutex free.\<close>

definition idle :: "rtdsLife \<Rightarrow> bool" where
  "idle s \<longleftrightarrow> rl_conn s = None \<and> \<not> rl_closed s \<and> \<not> rl_subsMu s"

lemma can_reach_step: "own_rtds_step s t \<Longrightarrow> can_reach t \<Longrightarrow> can_reach s"
  unfolding can_reach_def by (meson converse_rtranclp_into_rtranclp)

lemma idle_attempts [simp]: "idle (s\<lparr>rl_attempts := as\<rparr>) = idle s" "idle (s\<lparr>rl_reconnecting := b\<rparr>) = idle s"
  by (simp_all add: idle_def)

lemma reach_move:
  assumes "i < length (rl_attempts s)" "retry_step s (rl_attempts s ! i) ph s" "can_reach (s\<lparr>rl_attempts := (rl_attempts s)[i := ph]\<rparr>)"
  shows "can_reach s"
  using can_reach_step [OF own_rtds_step.attempt [OF assms(1,2)] assms(3)] .

lemma reach_Dialed:
  assumes "idle s" "i < length (rl_attempts s)" "rl_attempts s ! i = RetryDial Dialed"
  shows "can_reach s"
proof -
  obtain t where t: "installRtds s = Some (rl_next s, t)" "rl_conn t = Some (rl_next s)" "\<not> rl_closed t"
    using assms(1) by (simp add: installRtds_def idle_def Let_def)
  have "retry_step s (rl_attempts s ! i) (RetryDial (Replaying (rl_next s))) t"
    unfolding assms(3) using assms(1) by (intro retry_step.dialing dial_step.install t(1)) (simp add: idle_def)
  from r_into_rtranclp [of own_rtds_step, OF own_rtds_step.attempt [OF assms(2) this]] show ?thesis
    unfolding can_reach_def
    by (intro exI [of _ "t\<lparr>rl_attempts := (rl_attempts t)[i := RetryDial (Replaying (rl_next s))]\<rparr>"]) (use t(2,3) in simp)
qed

text \<open>The phases of an attempt that lead to a dialed socket, one step each.\<close>

lemma reach_next:
  assumes "idle s" "i < length (rl_attempts s)" "retry_step s (rl_attempts s ! i) ph s"
    and "\<And>t. idle t \<Longrightarrow> i < length (rl_attempts t) \<Longrightarrow> rl_attempts t ! i = ph \<Longrightarrow> can_reach t"
  shows "can_reach s"
  by (rule reach_move [OF assms(2,3)], rule assms(4)) (use assms(1,2) in simp_all)

lemma reach_Start:
  assumes "idle s" "i < length (rl_attempts s)" "rl_attempts s ! i \<in> {RetryStart, RetryDial Checking, RetryDial Dialing, RetryDial Dialed}"
  shows "can_reach s"
proof -
  have dialing: "can_reach t" if "idle t" "i < length (rl_attempts t)" "rl_attempts t ! i = RetryDial Dialing" for t
    by (rule reach_next [OF that(1,2), of "RetryDial Dialed"])
      (use that in \<open>auto intro: retry_step.dialing dial_step.dialed reach_Dialed\<close>)
  have chk: "can_reach t" if "idle t" "i < length (rl_attempts t)" "rl_attempts t ! i = RetryDial Checking" for t
    by (rule reach_next [OF that(1,2), of "RetryDial Dialing"])
      (use that in \<open>auto simp: idle_def intro: retry_step.dialing dial_step.dial dialing\<close>)
  have "can_reach s" if "rl_attempts s ! i = RetryStart"
    by (rule reach_next [OF assms(1,2), of "RetryDial Checking"])
      (use that assms(1) in \<open>auto simp: idle_def intro: retry_step.start chk\<close>)
  then show ?thesis using assms dialing chk reach_Dialed by blast
qed

lemma reach_Wait:
  assumes "idle s" "i < length (rl_attempts s)" "rl_attempts s ! i \<in> {RetryWait, RetryDial Refused}"
  shows "can_reach s"
proof -
  have waits: "can_reach t" if "idle t" "i < length (rl_attempts t)" "rl_attempts t ! i = RetryWait" for t
    by (rule reach_next [OF that(1,2), of RetryStart]) (use that in \<open>auto intro: retry_step.again reach_Start\<close>)
  have "can_reach s" if "rl_attempts s ! i = RetryDial Refused"
    by (rule reach_next [OF assms(1,2), of RetryWait]) (use that in \<open>auto intro: retry_step.failure waits\<close>)
  then show ?thesis using assms waits by blast
qed

text \<open>A call of \<open>scheduleReconnect\<close> while none is under way starts an attempt.\<close>

lemma reach_scheduled:
  assumes "idle s" "rl_auto s" "\<not> rl_reconnecting s" "i < length (rl_attempts s)"
  shows "can_reach (scheduleRtds s\<lparr>rl_attempts := (rl_attempts (scheduleRtds s))[i := ph]\<rparr>)"
proof -
  have a: "rl_attempts (scheduleRtds s) = rl_attempts s @ [RetryStart]" "idle (scheduleRtds s)"
    using assms by (simp_all add: scheduleRtds_def idle_def)
  have "((rl_attempts s @ [RetryStart])[i := ph]) ! length (rl_attempts s) = RetryStart" using assms(4) by (simp add: list_update_append nth_append)
  then show ?thesis by (intro reach_Start [of _ "length (rl_attempts s)"]) (use a in simp_all)
qed

lemma reach_reporting:
  assumes "idle s" "rl_auto s" "\<not> rl_reconnecting s" "reporting s"
  shows "can_reach s"
proof -
  obtain n where n: "rl_reader s n = Reporting" using assms(4) by (auto simp: reporting_def)
  have "rtds_reader_step n s (rl_reader s n) Returned (scheduleRtds s)" unfolding n by (rule rtds_reader_step.report)
  moreover have "can_reach (scheduleRtds s\<lparr>rl_reader := (rl_reader (scheduleRtds s))(n := Returned)\<rparr>)"
    by (intro reach_Start [of _ "length (rl_attempts s)"]) (use assms in \<open>simp_all add: scheduleRtds_def idle_def\<close>)
  ultimately show ?thesis using can_reach_step own_rtds_step.reader by blast
qed

lemma reach_Retrying:
  assumes "idle s" "rl_auto s" "\<not> rl_reconnecting s" "i < length (rl_attempts s)" "rl_attempts s ! i = Retrying"
  shows "can_reach s"
proof (rule can_reach_step [OF own_rtds_step.attempt [OF assms(4)]])
  show "retry_step s (rl_attempts s ! i) RetryGone (scheduleRtds s)" unfolding assms(5) by (rule retry_step.reschedule)
qed (rule reach_scheduled [OF assms(1-4)])

lemma reach_Leave:
  assumes "idle s" "rl_auto s" "i < length (rl_attempts s)" "rl_attempts s ! i \<in> {RetryLeave, RetryDial (Connected n), RetryDial (Replaying n)}"
  shows "can_reach s"
proof -
  have leaves: "can_reach t" if t: "idle t" "rl_auto t" "i < length (rl_attempts t)" "rl_attempts t ! i = RetryLeave" for t
  proof (rule can_reach_step [OF own_rtds_step.attempt [OF t(3)]])
    show "retry_step t (rl_attempts t ! i) Retrying (t\<lparr>rl_reconnecting := False\<rparr>)"
      using retry_step.leave [of t] t(1,4) by (simp add: idle_def)
    show "can_reach (t\<lparr>rl_reconnecting := False\<rparr>\<lparr>rl_attempts := (rl_attempts (t\<lparr>rl_reconnecting := False\<rparr>))[i := Retrying]\<rparr>)"
      by (rule reach_Retrying [of _ i]) (use t in simp_all)
  qed
  have connects: "can_reach t" if t: "idle t" "rl_auto t" "i < length (rl_attempts t)" "rl_attempts t ! i = RetryDial (Connected n)" for t
    by (rule reach_move [OF t(3), of RetryLeave]) (use t in \<open>auto intro: retry_step.success leaves\<close>)
  have "can_reach s" if r: "rl_attempts s ! i = RetryDial (Replaying n)"
  proof (rule can_reach_step [OF own_rtds_step.attempt [OF assms(3)]])
    show "retry_step s (rl_attempts s ! i) (RetryDial (Connected n)) (s\<lparr>rl_subsMu := False\<rparr>)"
      unfolding r by (intro retry_step.dialing dial_step.replayed)
    show "can_reach (s\<lparr>rl_subsMu := False\<rparr>\<lparr>rl_attempts := (rl_attempts (s\<lparr>rl_subsMu := False\<rparr>))[i := RetryDial (Connected n)]\<rparr>)"
      by (rule connects) (use assms in \<open>simp_all add: idle_def\<close>)
  qed
  then show ?thesis using assms leaves connects by blast
qed

lemma reach_active:
  assumes "idle s" "rl_auto s" "i < length (rl_attempts s)" "active (rl_attempts s ! i)"
  shows "can_reach s"
proof (cases "rl_attempts s ! i")
  case (RetryDial ph)
  then show ?thesis using reach_Start [OF assms(1,3)] reach_Wait [OF assms(1,3)] reach_Leave [OF assms(1-3)] by (cases ph) auto
qed (use assms(4) reach_Start [OF assms(1,3)] reach_Wait [OF assms(1,3)] reach_Leave [OF assms(1-3)] in \<open>auto simp: active_def\<close>)

lemma reach_idle:
  assumes "rtds_reachable True s" "idle s" "0 < rl_next s"
  shows "can_reach s"
proof -
  note inv = rtds_reachable_inv [OF assms(1)]
  show ?thesis
  proof (cases "rl_reconnecting s")
    case True
    then have "filter active (rl_attempts s) \<noteq> []" using inv by (auto simp: rinv_count_def)
    then obtain i where "i < length (rl_attempts s)" "active (rl_attempts s ! i)" by (auto simp: filter_empty_conv in_set_conv_nth)
    then show ?thesis using reach_active [OF assms(2)] inv by simp
  next
    case False
    then have "reporting s \<or> Retrying \<in> set (rl_attempts s)" using inv assms(2,3) by (auto simp: rinv_recover_def idle_def)
    then show ?thesis using reach_reporting [OF assms(2) _ False] reach_Retrying [OF assms(2) _ False] inv by (auto simp: in_set_conv_nth)
  qed
qed

text \<open>A call that holds the mutex can finish its replay.\<close>

lemma reach_locked:
  assumes "rtds_reachable True s" "rl_conn s = None" "\<not> rl_closed s" "rl_subsMu s" "0 < rl_next s"
  shows "can_reach s"
proof -
  have "holder s" using rtds_reachable_inv [OF assms(1)] assms(4) by (simp add: rinv_lock_def)
  then have "\<exists>t. own_rtds_step s t \<and> rl_conn t = None \<and> \<not> rl_closed t \<and> \<not> rl_subsMu t \<and> rl_next t = rl_next s"
    unfolding holder_def
  proof (elim disjE exE conjE)
    fix i n
    assume i: "i < length (rl_calls s)" "rl_calls s ! i = Replaying n"
    have "dial_step s (rl_calls s ! i) (Connected n) (s\<lparr>rl_subsMu := False\<rparr>)" unfolding i(2) by (rule dial_step.replayed)
    then have "dial_step s (Replaying n) (Connected n) (s\<lparr>rl_subsMu := False\<rparr>)" unfolding i(2) .
    from own_rtds_step.replayed [OF i this] show ?thesis using assms by fastforce
  next
    fix i n
    assume i: "i < length (rl_attempts s)" "rl_attempts s ! i = RetryDial (Replaying n)"
    have "retry_step s (rl_attempts s ! i) (RetryDial (Connected n)) (s\<lparr>rl_subsMu := False\<rparr>)" unfolding i(2) by (intro retry_step.dialing dial_step.replayed)
    from own_rtds_step.attempt [OF i(1) this] show ?thesis using assms by fastforce
  qed
  then obtain t where t: "own_rtds_step s t" "idle t" "0 < rl_next t" using assms(5) by (auto simp: idle_def)
  have "rtds_reachable True t" using assms(1) own_rtds_step_rtds [OF t(1)] unfolding rtds_reachable_def by (rule rtranclp.rtrancl_into_rtrancl)
  then show ?thesis using can_reach_step [OF t(1)] reach_idle t(2,3) by blast
qed

section \<open>Delays\<close>

text \<open>The delay in nanoseconds that the timer is set to after the \<open>k\<close>-th failed attempt.\<close>

definition rtdsBackoff :: "nat \<Rightarrow> int" where
  "rtdsBackoff k = ((\<lambda>backoff. if backoff * 2 > 60000000000 then 60000000000 else backoff * 2) ^^ k) 1000000000"

lemma rtdsBackoff_exact: "rtdsBackoff k = 1000000000 * min 60 (2 ^ k)"
  unfolding rtdsBackoff_def by (induction k) (auto simp: min_def)

section \<open>Properties\<close>

text \<open>
  C38: the client never loses track of its connection.  In every interleaving in which it was connected once and is not closed, either the connection in use has a reader that has not given it
  up, so that a failure will be noticed, or steps of the client's own goroutines, its readers and the reconnect loop, can lead to a new connection; at most one reconnect loop is at work.  No call of
  \<open>Connect\<close> opens that connection; one that has installed an earlier connection may have to end its replay, as it holds the mutex of the registrations.
\<close>

theorem rtds_always_recovers:
  assumes "rtds_reachable True s" "\<not> rl_closed s" "0 < rl_next s"
  shows "(case rl_conn s of
      Some n \<Rightarrow> rl_reader s n \<in> {Reading, Failed}
    | None \<Rightarrow> (\<exists>s'. own_rtds_step\<^sup>*\<^sup>* s s' \<and> rl_conn s' \<noteq> None \<and> \<not> rl_closed s')) \<and> length (filter active (rl_attempts s)) \<le> 1"
proof -
  note inv = rtds_reachable_inv [OF assms(1)]
  have "can_reach s" if "rl_conn s = None"
    using that reach_locked [OF assms(1) that assms(2) _ assms(3)] reach_idle [OF assms(1) _ assms(3)] assms(2) by (auto simp: idle_def)
  then show ?thesis using inv assms(2) by (auto simp: can_reach_def rinv_watch_def rinv_count_def split: option.splits)
qed

section \<open>A run\<close>

text \<open>A call of \<open>Connect\<close> succeeds, the connection is lost, and the reconnect loop is started.\<close>

lemma rtds_step_into: "rtds_reachable auto s \<Longrightarrow> rtds_step s t \<Longrightarrow> rtds_reachable auto t"
  unfolding rtds_reachable_def by (rule rtranclp.rtrancl_into_rtrancl)

definition demo_connected :: rtdsLife where
  "demo_connected = (newRtdsLife True)\<lparr>rl_conn := Some 0, rl_current := Some 0, rl_next := 1, rl_reader := (\<lambda>_. Returned)(0 := Reading), rl_calls := [Connected 0]\<rparr>"

lemma called_into:
  "rtds_reachable auto s \<Longrightarrow> rl_calls s = [ph] \<Longrightarrow> dial_step s ph ph' t \<Longrightarrow> rtds_reachable auto (t\<lparr>rl_calls := [ph']\<rparr>)"
  using rtds_step.called [of 0 s ph' t] rtds_step_into dial_step_frame [of s ph ph' t] by auto

lemma demo_connected_reachable: "rtds_reachable True demo_connected"
proof -
  let ?s = "\<lambda>ph. (newRtdsLife True)\<lparr>rl_calls := [ph]\<rparr>"
  have "rtds_reachable True (newRtdsLife True)" by (simp add: rtds_reachable_def)
  from rtds_step_into [OF this rtds_step.call] have "rtds_reachable True (?s Checking)" by (simp add: newRtdsLife_def)
  from called_into [OF this _ dial_step.dial] have "rtds_reachable True (?s Dialing)" by (simp add: newRtdsLife_def)
  from called_into [OF this _ dial_step.dialed] have d: "rtds_reachable True (?s Dialed)" by (simp add: newRtdsLife_def)
  have i: "installRtds (?s Dialed) = Some (0, demo_connected\<lparr>rl_calls := [Dialed], rl_subsMu := True\<rparr>)"
    by (simp add: installRtds_def newRtdsLife_def demo_connected_def)
  from called_into [OF d _ dial_step.install [OF _ i]] have "rtds_reachable True (demo_connected\<lparr>rl_calls := [Replaying 0], rl_subsMu := True\<rparr>)"
    by (simp add: newRtdsLife_def demo_connected_def)
  from called_into [OF this _ dial_step.replayed] show ?thesis by (simp add: newRtdsLife_def demo_connected_def)
qed

definition demo_lost :: rtdsLife where
  "demo_lost = demo_connected\<lparr>rl_conn := None, rl_reader := (\<lambda>_. Returned)(0 := Reporting)\<rparr>"

lemma demo_lost_reachable: "rtds_reachable True demo_lost"
proof -
  have f: "rtds_reader_step 0 demo_connected (rl_reader demo_connected 0) Failed demo_connected"
    using rtds_reader_step.failed [of demo_connected 0] by (simp add: demo_connected_def newRtdsLife_def readerCtxDone_def)
  let ?f = "demo_connected\<lparr>rl_reader := (rl_reader demo_connected)(0 := Failed)\<rparr>"
  have "rtds_reachable True ?f" by (rule rtds_step_into [OF demo_connected_reachable rtds_step.reader [OF f]])
  moreover have "rtds_reader_step 0 ?f (rl_reader ?f 0) Reporting (?f\<lparr>rl_conn := None\<rparr>)"
    using rtds_reader_step.lost [of ?f 0] by (simp add: demo_connected_def newRtdsLife_def)
  ultimately have "rtds_reachable True (?f\<lparr>rl_conn := None\<rparr>\<lparr>rl_reader := (rl_reader (?f\<lparr>rl_conn := None\<rparr>))(0 := Reporting)\<rparr>)"
    using rtds_step_into rtds_step.reader by blast
  then show ?thesis by (simp add: demo_lost_def demo_connected_def)
qed

theorem rtds_always_recovers_witness:
  "rl_conn demo_lost = None \<and> (\<exists>s'. own_rtds_step\<^sup>*\<^sup>* demo_lost s' \<and> rl_conn s' \<noteq> None \<and> \<not> rl_closed s')"
proof -
  have c: "rl_conn demo_lost = None" "\<not> rl_closed demo_lost" "0 < rl_next demo_lost" by code_simp+
  show ?thesis using rtds_always_recovers [OF demo_lost_reachable c(2,3)] c(1) by simp
qed

end
