(* ===== verification/SessionKeys.thy ===== *)
theory SessionKeys
  imports Relay
begin

text \<open>
  Session keys of a deposit wallet, \<open>clob/session_keys.go\<close>: the owner signs a batch that authorizes or revokes a key, posts it with an idempotency key, waits for the chain and then for
  the registry of active keys.  The batch is built as in \<open>Relay\<close>; the registry and the service that takes the mutations are the record \<open>sessionEnv\<close>.
\<close>

unbundle bit_operations_syntax

section \<open>Data\<close>

definition SessionKeyScopeAll :: string where "SessionKeyScopeAll = ''ALL''"
definition SessionKeyScopeCLOB :: string where "SessionKeyScopeCLOB = ''CLOB''"
definition SessionKeyScopeCombosRFQ :: string where "SessionKeyScopeCombosRFQ = ''COMBOSRFQ''"

text \<open>In seconds.\<close>

definition sessionKeyLifetime :: int where "sessionKeyLifetime = 4315 * 3600"

definition ErrSessionKeyOwnerRequired :: go_error where "ErrSessionKeyOwnerRequired = Sentinel ''session keys require a Deposit Wallet owner''"
definition ErrSessionKeyBuilderRequired :: go_error where
  "ErrSessionKeyBuilderRequired = Sentinel ''session-key authorization requires builder API-key authentication''"
definition ErrInvalidSessionKey :: go_error where "ErrInvalidSessionKey = Sentinel ''invalid session key''"
definition ErrSessionKeyResponse :: go_error where "ErrSessionKeyResponse = Sentinel ''invalid session-key response''"

record SessionKey =
  sk_Address :: address
  sk_Scopes :: "string list"
  sk_ValidUntil :: int

text \<open>\<open>None\<close> is the nil slice of scopes.\<close>

record AuthorizeSessionKeyRequest =
  aq_Address :: address
  aq_Scopes :: "string list option"
  aq_IdempotencyKey :: string

record RevokeSessionKeyRequest =
  vq_Address :: address
  vq_IdempotencyKey :: string

record AuthorizeSessionKeyResult =
  az_SessionKey :: SessionKey
  az_Transaction :: TransactionOutcome

record registrySigner =
  sr_Address :: string
  sr_Scopes :: "string list"
  sr_ValidUntil :: "int option"

record sessionRegistry =
  sg_Wallet :: string
  sg_Signers :: "registrySigner list option"

record sessionKeyMutationPayload =
  mp_Deadline :: string
  mp_Nonce :: string
  mp_Scopes :: "string list"
  mp_SessionSignerAddress :: string
  mp_Signature :: string
  mp_ValidUntil :: string
  mp_WalletAddress :: string

record sessionKeyMutationResponse =
  mr_Status :: string
  mr_TransactionHash :: string
  mr_TransactionID :: string

text \<open>
  Outside: the relayer, the ABI encoder of the wallet's two calls, whether the context selects builder authentication, random bytes, the registry, the service that takes mutations, and
  the timer of the waits between them, whose context also ends after five minutes.  Each is numbered by the interaction.
\<close>

record sessionEnv =
  se_relay :: relayEnv
  se_packAuthorize :: "address \<Rightarrow> int \<Rightarrow> byte list result"
  se_packRevoke :: "address \<Rightarrow> byte list result"
  se_builderAuth :: bool
  se_random :: "nat \<Rightarrow> byte list result"
  se_registry :: "nat \<Rightarrow> sessionRegistry result"
  se_mutate :: "nat \<Rightarrow> string \<Rightarrow> string \<Rightarrow> sessionKeyMutationPayload \<Rightarrow> sessionKeyMutationResponse result"
  se_submitTimer :: "nat \<Rightarrow> int \<Rightarrow> go_error option"

text \<open>The state of a call: that of the relay, and the mutations that were posted, with path, idempotency key, body and answer.\<close>

record sessionState =
  st_relay :: relayState
  st_posts :: "(string \<times> string \<times> sessionKeyMutationPayload \<times> sessionKeyMutationResponse result) list"

definition relay :: "(relayState, 'a) act \<Rightarrow> (sessionState, 'a) act" where
  "relay m = (\<lambda>s. case m (st_relay s) of (r, t) \<Rightarrow> (r, s\<lparr>st_relay := t\<rparr>))"

section \<open>The registry\<close>

definition requireSessionKeyOwner :: "eth_ops \<Rightarrow> 'd client \<Rightarrow> unit result" where
  "requireSessionKeyOwner X c = rbind (isDepositWalletOwner X c) (\<lambda>owner. guardE owner ErrSessionKeyOwnerRequired)"

definition registryKey :: "eth_ops \<Rightarrow> registrySigner \<Rightarrow> SessionKey result" where
  "registryKey X signer = (case sr_ValidUntil signer of
       None \<Rightarrow> Inl (Wrap ''signer metadata'' ErrSessionKeyResponse)
     | Some validUntil \<Rightarrow>
         if \<not> eth_isHexAddress X (sr_Address signer) \<or> validUntil < 0 \<or> sr_Scopes signer = [] then Inl (Wrap ''signer metadata'' ErrSessionKeyResponse)
         else if [] \<in> set (sr_Scopes signer) then Inl (Wrap ''empty scope'' ErrSessionKeyResponse)
         else Inr \<lparr>sk_Address = eth_hexToAddress X (sr_Address signer), sk_Scopes = sr_Scopes signer, sk_ValidUntil = validUntil\<rparr>)"

definition registryKeys :: "eth_ops \<Rightarrow> 'd client \<Rightarrow> sessionRegistry \<Rightarrow> SessionKey list result" where
  "registryKeys X c response =
     (if \<not> eth_isHexAddress X (sg_Wallet response) \<or> eth_hexToAddress X (sg_Wallet response) \<noteq> WalletAddress X c
      then Inl (Wrap ''registry wallet or signers'' ErrSessionKeyResponse)
      else case sg_Signers response of
        None \<Rightarrow> Inl (Wrap ''registry wallet or signers'' ErrSessionKeyResponse)
      | Some signers \<Rightarrow> each (registryKey X) signers)"

definition FetchSessionKeys :: "sessionEnv \<Rightarrow> 'd client \<Rightarrow> (sessionState, SessionKey list) act" where
  "FetchSessionKeys E c =
     (let X = re_eth (se_relay E) in
      bindE (lift (requireSessionKeyOwner X c)) (\<lambda>_.
      bindE (relay (ask (se_registry E))) (\<lambda>response.
        lift (registryKeys X c response))))"

section \<open>Mutations\<close>

definition packSessionKeyCall :: "sessionEnv \<Rightarrow> address \<Rightarrow> int option \<Rightarrow> byte list result" where
  "packSessionKeyCall E addr expiry = (case expiry of
       None \<Rightarrow> se_packRevoke E addr
     | Some e \<Rightarrow> if e < 0 then Inl (Wrap ''expiry'' ErrInvalidSessionKey) else se_packAuthorize E addr e)"

definition tokenCall :: "address \<Rightarrow> byte list \<Rightarrow> TransactionCall" where
  "tokenCall to data = \<lparr>tc_To = to, tc_Data = data, tc_Value = Some 0\<rparr>"

text \<open>The envelope of an owner, a deposit wallet, always has its \<open>DepositWallet\<close> part.\<close>

definition signSessionKeyMutation ::
  "sessionEnv \<Rightarrow> (nat \<Rightarrow> address \<Rightarrow> address \<Rightarrow> byte list \<Rightarrow> 64 word result) \<Rightarrow> 'd client \<Rightarrow> relayTypedData signer_ops option \<Rightarrow> address \<Rightarrow> int option \<Rightarrow>
     (sessionState, sessionKeyMutationPayload) act" where
  "signSessionKeyMutation E gas c key addr expiry =
     (let R = se_relay E; X = re_eth R in
      bindE (lift (packSessionKeyCall E addr expiry)) (\<lambda>data.
      bindE (lift (gaslessConfig X gas c)) (\<lambda>cfg.
      bindE (relay (BuildGaslessSubmit R cfg key [tokenCall (WalletAddress X c) data] [])) (\<lambda>envelope.
        case sb_DepositWallet envelope of
          None \<Rightarrow> fail (Msg ''runtime error: invalid memory address or nil pointer dereference'')
        | Some dw \<Rightarrow> ret \<lparr>mp_Deadline = dw_Deadline dw, mp_Nonce = sb_Nonce envelope, mp_Scopes = [],
            mp_SessionSignerAddress = to_lower (eth_addressHex X addr), mp_Signature = sb_Signature envelope,
            mp_ValidUntil = (case expiry of None \<Rightarrow> [] | Some e \<Rightarrow> show_int e), mp_WalletAddress = eth_addressHex X (WalletAddress X c)\<rparr>))))"

text \<open>A random UUID: version 4, with the variant bits.\<close>

definition uuid :: "byte list \<Rightarrow> string" where
  "uuid bytes =
     (let id = bytes[6 := (bytes ! 6 AND 0x0f) OR 0x40, 8 := (bytes ! 8 AND 0x3f) OR 0x80]
      in hex_encode (take 4 id) @ ''-'' @ hex_encode (take 2 (drop 4 id)) @ ''-'' @ hex_encode (take 2 (drop 6 id)) @ ''-'' @
         hex_encode (take 2 (drop 8 id)) @ ''-'' @ hex_encode (drop 10 id))"

definition sessionKeyIdempotencyKey :: "sessionEnv \<Rightarrow> string \<Rightarrow> (sessionState, string) act" where
  "sessionKeyIdempotencyKey E key =
     (if key \<noteq> []
      then (if trim_space key = [] then fail (Wrap ''empty idempotency key'' ErrInvalidSessionKey) else ret (trim_space key))
      else bindE (relay (ask (se_random E))) (\<lambda>bytes. ret (uuid bytes)))"

definition validateSessionKeyStatus :: "eth_ops \<Rightarrow> sessionKeyMutationResponse \<Rightarrow> bool \<Rightarrow> unit result" where
  "validateSessionKeyStatus X response authorization =
     (let accepted = (if authorization then [''SUBMITTED'', ''REGISTRY_PENDING'', ''REGISTERED''] else [''PENDING'', ''FENCED'', ''SWEPT'', ''CHAIN_SUBMITTED'', ''CONFIRMED'']);
          failed = ''FAILED'' # (if authorization then [''SUPERSEDED'', ''REPAIR_REQUIRED''] else []);
          hash = mr_TransactionHash response
      in if mr_Status response \<in> set failed then Inl (Wrap ''session-key status'' ErrTransactionFailed)
         else if mr_Status response \<notin> set accepted \<or> mr_TransactionID response = [] then Inl (Wrap ''operation status or transaction ID'' ErrSessionKeyResponse)
         else if hash \<noteq> [] \<and> (length hash \<noteq> 66 \<or> \<not> has_prefix hash ''0x'' \<or> length (eth_fromHex X hash) \<noteq> 32)
         then Inl (Wrap ''transaction hash'' ErrSessionKeyResponse)
         else Inr ())"

definition retryWalletError :: "relayEnv \<Rightarrow> go_error \<Rightarrow> bool \<Rightarrow> bool" where
  "retryWalletError R err registry = (case apiErrorOf err of
       Some (status, _) \<Rightarrow> status = 429 \<or> 500 \<le> status \<or> registry \<and> status = 404
     | None \<Rightarrow> isNetError R err)"

definition walletSleep :: "(nat \<Rightarrow> int \<Rightarrow> go_error option) \<Rightarrow> int \<Rightarrow> (sessionState, unit) act" where
  "walletSleep timer d = relay (ask (\<lambda>n. case timer n d of Some e \<Rightarrow> Inl e | None \<Rightarrow> Inr ()))"

definition postMutation :: "sessionEnv \<Rightarrow> string \<Rightarrow> string \<Rightarrow> sessionKeyMutationPayload \<Rightarrow> (sessionState, sessionKeyMutationResponse) act" where
  "postMutation E path idempotency payload = (\<lambda>s.
     case relay (ask (\<lambda>n. se_mutate E n path idempotency payload)) s of
       (r, s') \<Rightarrow> (r, s'\<lparr>st_posts := st_posts s' @ [(path, idempotency, payload, r)]\<rparr>))"

text \<open>The loop of \<open>submitSessionKeyMutation\<close> with \<open>k\<close> attempts left after this one.\<close>

fun mutateLoop :: "sessionEnv \<Rightarrow> string \<Rightarrow> string \<Rightarrow> sessionKeyMutationPayload \<Rightarrow> nat \<Rightarrow> (sessionState, sessionKeyMutationResponse) act" where
  "mutateLoop E path idempotency payload k s = (case postMutation E path idempotency payload s of
       (Inr r, s') \<Rightarrow> (Inr r, s')
     | (Inl e, s') \<Rightarrow>
         (case k of
            0 \<Rightarrow> (Inl e, s')
          | Suc k' \<Rightarrow>
              if \<not> retryWalletError (se_relay E) e False then (Inl e, s')
              else bindE (walletSleep (se_submitTimer E) DefaultPollInterval) (\<lambda>_. mutateLoop E path idempotency payload k') s'))"

declare mutateLoop.simps [simp del]

definition submitSessionKeyMutation :: "sessionEnv \<Rightarrow> string \<Rightarrow> string \<Rightarrow> sessionKeyMutationPayload \<Rightarrow> (sessionState, sessionKeyMutationResponse) act" where
  "submitSessionKeyMutation E path idempotency payload = mutateLoop E path idempotency payload 2"

definition equalSessionScopes :: "string list \<Rightarrow> string list \<Rightarrow> bool" where
  "equalSessionScopes left right \<longleftrightarrow> list_all (\<lambda>scope. scope \<in> set right) left \<and> list_all (\<lambda>scope. scope \<in> set left) right"

text \<open>What a registry that was read decides, if anything.\<close>

definition registryAnswer :: "SessionKey \<Rightarrow> bool \<Rightarrow> SessionKey list \<Rightarrow> SessionKey option option" where
  "registryAnswer expected authorization keys =
     (case List.find (\<lambda>key. sk_Address key = sk_Address expected \<and> authorization \<and> sk_ValidUntil key = sk_ValidUntil expected \<and>
              equalSessionScopes (sk_Scopes key) (sk_Scopes expected)) keys of
        Some key \<Rightarrow> Some (Some key)
      | None \<Rightarrow> if \<not> authorization \<and> \<not> list_ex (\<lambda>key. sk_Address key = sk_Address expected) keys then Some None else None)"

fun registryLoop :: "sessionEnv \<Rightarrow> 'd client \<Rightarrow> SessionKey \<Rightarrow> bool \<Rightarrow> nat \<Rightarrow> (sessionState, SessionKey option) act" where
  "registryLoop E c expected authorization 0 s = (Inl (Wrap ''session key registry readiness'' ErrTransactionTimeout), s)"
| "registryLoop E c expected authorization (Suc k) s =
     (let again = bindE (if k = 0 then ret () else walletSleep (re_timer (se_relay E)) DefaultPollInterval) (\<lambda>_. registryLoop E c expected authorization k) in
      case FetchSessionKeys E c s of
        (Inl e, s') \<Rightarrow> if retryWalletError (se_relay E) e True then again s' else (Inl e, s')
      | (Inr keys, s') \<Rightarrow> (case registryAnswer expected authorization keys of Some answer \<Rightarrow> (Inr answer, s') | None \<Rightarrow> again s'))"

definition waitSessionKeyRegistry :: "sessionEnv \<Rightarrow> 'd client \<Rightarrow> SessionKey \<Rightarrow> bool \<Rightarrow> (sessionState, SessionKey option) act" where
  "waitSessionKeyRegistry E c expected authorization = registryLoop E c expected authorization (nat DefaultPollMaxAttempts)"

section \<open>Operations\<close>

definition authorizeScopes :: "string list option \<Rightarrow> string list result" where
  "authorizeScopes requested =
     (let scopes = (case requested of None \<Rightarrow> [SessionKeyScopeAll] | Some ss \<Rightarrow> ss)
      in if scopes = [] then Inl ErrInvalidSessionKey
         else if list_ex (\<lambda>scope. scope = [] \<or> scope \<noteq> SessionKeyScopeAll \<and> SessionKeyScopeAll \<in> set scopes) scopes then Inl (Wrap ''scopes'' ErrInvalidSessionKey)
         else Inr scopes)"

definition AuthorizeSessionKey ::
  "sessionEnv \<Rightarrow> (nat \<Rightarrow> address \<Rightarrow> address \<Rightarrow> byte list \<Rightarrow> 64 word result) \<Rightarrow> 'd client \<Rightarrow> relayTypedData signer_ops option \<Rightarrow> AuthorizeSessionKeyRequest \<Rightarrow>
     (sessionState, AuthorizeSessionKeyResult) act" where
  "AuthorizeSessionKey E gas c key req =
     (let R = se_relay E; X = re_eth R in
      bindE (lift (requireSessionKeyOwner X c)) (\<lambda>_.
      bindE (lift (guardE (se_builderAuth E) ErrSessionKeyBuilderRequired)) (\<lambda>_.
      bindE (lift (guardE (aq_Address req \<noteq> noAddress) ErrInvalidSessionKey)) (\<lambda>_.
      bindE (lift (authorizeScopes (aq_Scopes req))) (\<lambda>scopes.
      bindE (sessionKeyIdempotencyKey E (aq_IdempotencyKey req)) (\<lambda>idempotency.
      bindE (relay (ask (\<lambda>n. Inr (re_now R n + sessionKeyLifetime)))) (\<lambda>validUntil.
      bindE (signSessionKeyMutation E gas c key (aq_Address req) (Some validUntil)) (\<lambda>payload.
      bindE (submitSessionKeyMutation E ''/v1/session-signers/authorizations'' idempotency (payload\<lparr>mp_Scopes := scopes\<rparr>)) (\<lambda>response.
      bindE (lift (validateSessionKeyStatus X response True)) (\<lambda>_.
      bindE (relay (Wait R (NewHandle \<lparr>er_State = [], er_TransactionHash = mr_TransactionHash response, er_TransactionID = mr_TransactionID response\<rparr>))) (\<lambda>transaction.
      bindE (waitSessionKeyRegistry E c \<lparr>sk_Address = aq_Address req, sk_Scopes = scopes, sk_ValidUntil = validUntil\<rparr> True) (\<lambda>found.
        case found of
          None \<Rightarrow> fail (Msg ''runtime error: invalid memory address or nil pointer dereference'')
        | Some k \<Rightarrow> ret \<lparr>az_SessionKey = k, az_Transaction = transaction\<rparr>))))))))))))"

definition RevokeSessionKey ::
  "sessionEnv \<Rightarrow> (nat \<Rightarrow> address \<Rightarrow> address \<Rightarrow> byte list \<Rightarrow> 64 word result) \<Rightarrow> 'd client \<Rightarrow> relayTypedData signer_ops option \<Rightarrow> RevokeSessionKeyRequest \<Rightarrow>
     (sessionState, unit) act" where
  "RevokeSessionKey E gas c key req =
     (let X = re_eth (se_relay E) in
      bindE (lift (requireSessionKeyOwner X c)) (\<lambda>_.
      bindE (lift (guardE (vq_Address req \<noteq> noAddress) ErrInvalidSessionKey)) (\<lambda>_.
      bindE (sessionKeyIdempotencyKey E (vq_IdempotencyKey req)) (\<lambda>idempotency.
      bindE (signSessionKeyMutation E gas c key (vq_Address req) None) (\<lambda>payload.
      bindE (submitSessionKeyMutation E ''/v1/session-signers/revocations'' idempotency payload) (\<lambda>response.
      bindE (lift (validateSessionKeyStatus X response False)) (\<lambda>_.
      bindE (waitSessionKeyRegistry E c \<lparr>sk_Address = vq_Address req, sk_Scopes = [], sk_ValidUntil = 0\<rparr> False) (\<lambda>_. ret ()))))))))"

section \<open>What is posted and read\<close>

definition ticks_of :: "sessionState \<Rightarrow> nat" where
  "ticks_of s = rl_ticks (st_relay s)"

text \<open>Computations that post no mutation.\<close>

definition still :: "(sessionState, 'a) act \<Rightarrow> bool" where
  "still m \<longleftrightarrow> (\<forall>s r s'. m s = (r, s') \<longrightarrow> st_posts s' = st_posts s)"

named_theorems still_rules

lemma stillD: "still m \<Longrightarrow> m s = (r, s') \<Longrightarrow> st_posts s' = st_posts s"
  by (simp add: still_def)

lemma still_basic [still_rules]: "still (ret x)" "still (fail e)" "still (lift r)" "still (relay m)"
  by (auto simp: still_def relay_def split: prod.splits)

lemma still_bindE [still_rules]: "still m \<Longrightarrow> (\<And>x. still (f x)) \<Longrightarrow> still (bindE m f)"
  by (auto simp: still_def bindE_def split: prod.splits sum.splits)

lemma still_if [still_rules]: "(b \<Longrightarrow> still m) \<Longrightarrow> (\<not> b \<Longrightarrow> still m') \<Longrightarrow> still (if b then m else m')"
  by simp

lemma still_option [still_rules]: "still m \<Longrightarrow> (\<And>x. still (f x)) \<Longrightarrow> still (case v of None \<Rightarrow> m | Some x \<Rightarrow> f x)"
  by (cases v) simp_all

lemma still_session [still_rules]: "still (FetchSessionKeys E c)" "still (walletSleep timer d)" "still (sessionKeyIdempotencyKey E k)"
  "still (signSessionKeyMutation E gas c key addr expiry)"
  unfolding FetchSessionKeys_def walletSleep_def sessionKeyIdempotencyKey_def signSessionKeyMutation_def Let_def by (intro still_rules)+

text \<open>The same mutation is posted at most three times, again only after an answer that lets a retry help.\<close>

definition posted :: "sessionEnv \<Rightarrow> string \<Rightarrow> string \<Rightarrow> sessionKeyMutationPayload \<Rightarrow> nat \<Rightarrow> sessionState \<Rightarrow> sessionKeyMutationResponse result \<Rightarrow> sessionState \<Rightarrow> bool" where
  "posted E path idempotency payload k s r s' \<longleftrightarrow> (\<exists>answers. st_posts s' = st_posts s @ map (\<lambda>a. (path, idempotency, payload, a)) answers \<and>
     answers \<noteq> [] \<and> length answers \<le> k \<and> list_all (\<lambda>a. \<exists>e. a = Inl e \<and> retryWalletError (se_relay E) e False) (butlast answers) \<and>
     (\<forall>response. r = Inr response \<longrightarrow> last answers = Inr response \<and> (\<exists>n < ticks_of s'. se_mutate E n path idempotency payload = Inr response)))"

lemma postMutation_run:
  "postMutation E path idempotency payload s = (r, s') \<Longrightarrow> st_posts s' = st_posts s @ [(path, idempotency, payload, r)]"
  "postMutation E path idempotency payload s = (r, s') \<Longrightarrow> ticks_of s < ticks_of s' \<and> se_mutate E (ticks_of s) path idempotency payload = r"
  by (auto simp: postMutation_def relay_def ask_def ticks_of_def split: prod.splits)

lemma posted_more:
  assumes "posted E path idempotency payload k s1 r s'" "st_posts s1 = st_posts s @ [(path, idempotency, payload, Inl e)]" "retryWalletError (se_relay E) e False"
  shows "posted E path idempotency payload (Suc k) s r s'"
proof -
  obtain answers where a: "st_posts s' = st_posts s1 @ map (\<lambda>a. (path, idempotency, payload, a)) answers" "answers \<noteq> []" "length answers \<le> k"
    "list_all (\<lambda>a. \<exists>e. a = Inl e \<and> retryWalletError (se_relay E) e False) (butlast answers)" "\<forall>response. r = Inr response \<longrightarrow> last answers = Inr response \<and> (\<exists>n < ticks_of s'. se_mutate E n path idempotency payload = Inr response)"
    using assms(1) by (auto simp: posted_def)
  then show ?thesis unfolding posted_def by (intro exI [of _ "Inl e # answers"]) (use assms(2,3) in simp)
qed

lemma mutateLoop_run: "mutateLoop E path idempotency payload k s = (r, s') \<Longrightarrow> posted E path idempotency payload (Suc k) s r s'"
proof (induction k arbitrary: s)
  case 0
  obtain r1 s1 where p: "postMutation E path idempotency payload s = (r1, s1)" by fastforce
  then have "r1 = r" "s1 = s'" using 0 by (auto simp: mutateLoop.simps [of _ _ _ _ 0] split: sum.splits)
  then show ?case using postMutation_run [OF p] by (auto simp: posted_def intro!: exI [of _ "[r]"])
next
  case (Suc k)
  obtain r1 s1 where p: "postMutation E path idempotency payload s = (r1, s1)" by fastforce
  note q = postMutation_run [OF p]
  show ?case
  proof (cases "\<exists>e. r1 = Inl e \<and> retryWalletError (se_relay E) e False")
    case False
    then have "r1 = r" "s1 = s'" using Suc.prems p by (auto simp: mutateLoop.simps [of _ _ _ _ "Suc k"] split: sum.splits)
    then show ?thesis using q by (auto simp: posted_def intro!: exI [of _ "[r]"])
  next
    case True
    then obtain e where e: "r1 = Inl e" "retryWalletError (se_relay E) e False" by blast
    obtain w s2 where w: "walletSleep (se_submitTimer E) DefaultPollInterval s1 = (w, s2)" by fastforce
    have s2: "st_posts s2 = st_posts s @ [(path, idempotency, payload, Inl e)]" using stillD [OF still_session(2) w] q e(1) by simp
    show ?thesis
    proof (cases w)
      case (Inl e')
      then have "r = Inl e'" "s2 = s'" using Suc.prems p e w by (auto simp: mutateLoop.simps [of _ _ _ _ "Suc k"] bindE_def)
      then show ?thesis using s2 by (auto simp: posted_def intro!: exI [of _ "[Inl e]"])
    next
      case (Inr u)
      then have "mutateLoop E path idempotency payload k s2 = (r, s')" using Suc.prems p e w by (auto simp: mutateLoop.simps [of _ _ _ _ "Suc k"] bindE_def)
      from posted_more [OF Suc.IH [OF this] s2 e(2)] show ?thesis .
    qed
  qed
qed

text \<open>A registry that was read between two moments and decides.\<close>

definition registry_read :: "sessionEnv \<Rightarrow> 'd client \<Rightarrow> nat \<Rightarrow> nat \<Rightarrow> SessionKey list \<Rightarrow> bool" where
  "registry_read E c a b keys \<longleftrightarrow> (\<exists>n response. a \<le> n \<and> n < b \<and> se_registry E n = Inr response \<and> registryKeys (re_eth (se_relay E)) c response = Inr keys)"

lemma FetchSessionKeys_run:
  assumes "FetchSessionKeys E c s = (r, s')"
  shows "ticks_of s \<le> ticks_of s' \<and> (\<forall>keys. r = Inr keys \<longrightarrow> registry_read E c (ticks_of s) (ticks_of s') keys)"
  using assms by (auto simp: FetchSessionKeys_def bindE_def Let_def relay_def ask_def ticks_of_def registry_read_def split: prod.splits sum.splits)

lemma registryLoop_run:
  assumes "registryLoop E c expected authorization k s = (Inr answer, s')"
  shows "\<exists>keys. registry_read E c (ticks_of s) (ticks_of s') keys \<and> registryAnswer expected authorization keys = Some answer \<and> st_posts s' = st_posts s"
  using assms
proof (induction k arbitrary: s)
  case (Suc k)
  obtain r1 s1 where f: "FetchSessionKeys E c s = (r1, s1)" by fastforce
  note F = FetchSessionKeys_run [OF f] and P = stillD [OF still_session(1) f]
  let ?sleep = "if k = 0 then ret () else walletSleep (re_timer (se_relay E)) DefaultPollInterval"
  show ?case
  proof (cases "\<exists>keys. r1 = Inr keys \<and> registryAnswer expected authorization keys = Some answer \<and> s1 = s'")
    case True
    then show ?thesis using F P by auto
  next
    case False
    then have "bindE ?sleep (\<lambda>_. registryLoop E c expected authorization k) s1 = (Inr answer, s')"
      using Suc.prems f by (auto simp: Let_def split: sum.splits if_splits option.splits)
    then obtain u s2 where w: "?sleep s1 = (Inr u, s2)" "registryLoop E c expected authorization k s2 = (Inr answer, s')" by (auto simp: go_run)
    have "still ?sleep" by (intro still_rules)
    from stillD [OF this w(1)] have p: "st_posts s2 = st_posts s" using P by simp
    have "ticks_of s1 \<le> ticks_of s2" using w(1) by (auto simp: walletSleep_def relay_def ask_def ticks_of_def split: if_splits)
    then have "registry_read E c (ticks_of s) (ticks_of s') keys" if "registry_read E c (ticks_of s2) (ticks_of s') keys" for keys
      using that F unfolding registry_read_def by (meson le_trans)
    then show ?thesis using Suc.IH [OF w(2)] p by auto
  qed
qed simp

lemma registryAnswer_authorized:
  assumes "registryAnswer expected True keys = Some answer"
  shows "\<exists>k. answer = Some k \<and> k \<in> set keys \<and> sk_Address k = sk_Address expected \<and> sk_ValidUntil k = sk_ValidUntil expected \<and> set (sk_Scopes k) = set (sk_Scopes expected)"
  using assms unfolding registryAnswer_def by (auto simp: find_Some_iff equalSessionScopes_def list_all_iff split: option.splits)

lemma registryAnswer_revoked: "registryAnswer expected False keys = Some answer \<Longrightarrow> sk_Address expected \<notin> sk_Address ` set keys"
proof -
  have "List.find (\<lambda>key. False) keys = None" by (simp add: find_None_iff)
  moreover assume "registryAnswer expected False keys = Some answer"
  ultimately show ?thesis by (auto simp: registryAnswer_def list_ex_iff split: if_splits)
qed

lemma relay_Inr: "relay m s = (Inr x, s') \<longleftrightarrow> (\<exists>t. m (st_relay s) = (Inr x, t) \<and> s' = s\<lparr>st_relay := t\<rparr>)"
  by (auto simp: relay_def split: prod.splits)

text \<open>What an owner signs for a mutation.\<close>

definition mutation_signed :: "sessionEnv \<Rightarrow> 'd client \<Rightarrow> address \<Rightarrow> int option \<Rightarrow> sessionKeyMutationPayload \<Rightarrow> bool" where
  "mutation_signed E c addr expiry payload \<longleftrightarrow> (\<exists>gas cfg data envelope dw. packSessionKeyCall E addr expiry = Inr data \<and>
     gaslessConfig (re_eth (se_relay E)) gas c = Inr cfg \<and> \<not> gc_SessionSigner cfg \<and>
     depositSigned (se_relay E) cfg (chainID c) [tokenCall (WalletAddress (re_eth (se_relay E)) c) data] [] envelope \<and> sb_DepositWallet envelope = Some dw \<and>
     mp_Signature payload = sb_Signature envelope \<and> mp_Nonce payload = sb_Nonce envelope \<and> mp_Deadline payload = dw_Deadline dw \<and>
     mp_SessionSignerAddress payload = to_lower (eth_addressHex (re_eth (se_relay E)) addr) \<and> mp_ValidUntil payload = (case expiry of None \<Rightarrow> [] | Some e \<Rightarrow> show_int e))"

lemma owner_config:
  assumes "requireSessionKeyOwner X c = Inr ()" "gaslessConfig X gas c = Inr cfg"
  shows "gc_WalletType cfg = TransactionTypeWallet \<and> gc_ChainID cfg = Some (chainID c) \<and> \<not> gc_SessionSigner cfg"
proof -
  have o: "isDepositWalletOwner X c = Inr True" using assms(1) by (auto simp: requireSessionKeyOwner_def go_run)
  then have t: "signatureType c = SignatureTypePoly1271" by (auto simp: isDepositWalletOwner_def split: if_splits)
  then have "relayerWalletType (signatureType c) = Inr TransactionTypeWallet"
    by (simp add: relayerWalletType_def SignatureTypePoly1271_def SignatureTypePolyProxy_def SignatureTypePolyGnosisSafe_def)
  then show ?thesis using assms(2) o by (auto simp: gaslessConfig_def go_run split: if_splits)
qed

lemma signSessionKeyMutation_run:
  assumes "requireSessionKeyOwner (re_eth (se_relay E)) c = Inr ()" "signSessionKeyMutation E gas c key addr expiry s = (Inr payload, s')"
  shows "mutation_signed E c addr expiry payload"
proof -
  let ?R = "se_relay E" and ?X = "re_eth (se_relay E)"
  define fill where "fill dw envelope = \<lparr>mp_Deadline = dw_Deadline dw, mp_Nonce = sb_Nonce envelope, mp_Scopes = [], mp_SessionSignerAddress = to_lower (eth_addressHex ?X addr),
       mp_Signature = sb_Signature envelope, mp_ValidUntil = (case expiry of None \<Rightarrow> [] | Some e \<Rightarrow> show_int e), mp_WalletAddress = eth_addressHex ?X (WalletAddress ?X c)\<rparr>" for dw :: DepositWalletParams and envelope :: SubmitRequest
  obtain data cfg envelope t t' where q: "packSessionKeyCall E addr expiry = Inr data" "gaslessConfig ?X gas c = Inr cfg"
    "BuildGaslessSubmit ?R cfg key [tokenCall (WalletAddress ?X c) data] [] t = (Inr envelope, t')"
    "\<exists>u. (case sb_DepositWallet envelope of None \<Rightarrow> fail (Msg ''runtime error: invalid memory address or nil pointer dereference'') | Some dw \<Rightarrow> ret (fill dw envelope)) u = (Inr payload, s')"
    using assms(2) unfolding signSessionKeyMutation_def Let_def fill_def [symmetric]
    by (fastforce simp: go_run relay_Inr)
  then obtain dw where "sb_DepositWallet envelope = Some dw" "payload = fill dw envelope" by (auto split: option.splits)
  note r = q(1-3) this [unfolded fill_def]
  note o = owner_config [OF assms(1) r(2)]
  obtain W where "key = Some W" "gc_Signer cfg = sg_address W" "buildDepositSubmit ?R cfg (Some W) [tokenCall (WalletAddress ?X c) data] [] t = (Inr envelope, t')"
    using r(3) o by (auto simp: BuildGaslessSubmit_def submitGuards_def go_run split: option.splits if_splits)
  then have "depositSigned ?R cfg (chainID c) [tokenCall (WalletAddress ?X c) data] [] envelope" using buildDepositSubmit_run o by blast
  then show ?thesis unfolding mutation_signed_def using r o by (intro exI [of _ gas] exI [of _ cfg] exI [of _ data] exI [of _ envelope] exI [of _ dw]) simp
qed

lemma Wait_run:
  assumes "relay (Wait R (NewHandle resp)) s = (Inr out, s')"
  shows "\<exists>n tx. ticks_of s \<le> n \<and> n < ticks_of s' \<and> re_transaction R n (er_TransactionID resp) = Inr tx \<and> gt_State tx = StateConfirmed \<and> to_TransactionID out = gt_TransactionID tx"
proof -
  obtain t t' where t: "pollLoop R (er_TransactionID resp) (er_TransactionHash resp) DefaultPollInterval (Suc 99) t = (Inr out, t')" "st_relay s' = t'" "st_relay s = t"
    using assms by (auto simp: relay_def Wait_def PollUntilTerminal_def NewHandle_def DefaultPollMaxAttempts_def split: prod.splits)
  from pollLoop_run [OF t(1)] t(2,3) show ?thesis by (auto simp: poll_result_def ticks_of_def)
qed

section \<open>Properties\<close>

text \<open>
  C39: \<open>AuthorizeSessionKey\<close> succeeds only for an owner, and only after the relayer has reported the transaction as confirmed and a registry of this wallet, read after that, lists the key with
  the address that was asked for, exactly the expiry that was signed, and the same set of scopes.  One body, with one idempotency key and a signature of the owner over the authorization, was
  posted at most three times, again only after an answer with status 429 or a server or network error.
\<close>

theorem authorized_key_registered:
  assumes "AuthorizeSessionKey E gas c key req s = (Inr res, s')"
  shows "\<exists>scopes idempotency payload answers response validUntil p n m tx keys registry.
    isDepositWalletOwner (re_eth (se_relay E)) c = Inr True \<and> authorizeScopes (aq_Scopes req) = Inr scopes \<and>
    mutation_signed E c (aq_Address req) (Some validUntil) payload \<and> mp_Scopes payload = scopes \<and>
    st_posts s' = st_posts s @ map (\<lambda>a. (''/v1/session-signers/authorizations'', idempotency, payload, a)) answers \<and> answers \<noteq> [] \<and> length answers \<le> 3 \<and>
    list_all (\<lambda>a. \<exists>e. a = Inl e \<and> retryWalletError (se_relay E) e False) (butlast answers) \<and> last answers = Inr response \<and>
    se_mutate E p ''/v1/session-signers/authorizations'' idempotency payload = Inr response \<and> p < n \<and>
    re_transaction (se_relay E) n (mr_TransactionID response) = Inr tx \<and> gt_State tx = StateConfirmed \<and> n < m \<and>
    se_registry E m = Inr registry \<and> registryKeys (re_eth (se_relay E)) c registry = Inr keys \<and> az_SessionKey res \<in> set keys \<and>
    sk_Address (az_SessionKey res) = aq_Address req \<and> sk_ValidUntil (az_SessionKey res) = validUntil \<and> set (sk_Scopes (az_SessionKey res)) = set scopes"
proof -
  let ?R = "se_relay E" and ?X = "re_eth (se_relay E)"
  obtain scopes idempotency validUntil payload response transaction found s1 s2 s3 s4 s5 s6 where r:
    "requireSessionKeyOwner ?X c = Inr ()" "authorizeScopes (aq_Scopes req) = Inr scopes" "sessionKeyIdempotencyKey E (aq_IdempotencyKey req) s = (Inr idempotency, s1)"
    "relay (ask (\<lambda>n. Inr (re_now ?R n + sessionKeyLifetime))) s1 = (Inr validUntil, s2)"
    "signSessionKeyMutation E gas c key (aq_Address req) (Some validUntil) s2 = (Inr payload, s3)"
    "submitSessionKeyMutation E ''/v1/session-signers/authorizations'' idempotency (payload\<lparr>mp_Scopes := scopes\<rparr>) s3 = (Inr response, s4)"
    "relay (Wait ?R (NewHandle \<lparr>er_State = [], er_TransactionHash = mr_TransactionHash response, er_TransactionID = mr_TransactionID response\<rparr>)) s4 = (Inr transaction, s5)"
    "waitSessionKeyRegistry E c \<lparr>sk_Address = aq_Address req, sk_Scopes = scopes, sk_ValidUntil = validUntil\<rparr> True s5 = (Inr (Some found), s')"
    "res = \<lparr>az_SessionKey = found, az_Transaction = transaction\<rparr>"
    using assms by (auto simp: AuthorizeSessionKey_def go_run Let_def split: option.splits)
  have same: "st_posts s3 = st_posts s"
    using stillD [OF still_session(3) r(3)] stillD [OF still_basic(4) r(4)] stillD [OF still_session(4) r(5)] by simp
  obtain answers p where a: "st_posts s4 = st_posts s3 @ map (\<lambda>a. (''/v1/session-signers/authorizations'', idempotency, payload\<lparr>mp_Scopes := scopes\<rparr>, a)) answers"
    "answers \<noteq> []" "length answers \<le> 3" "list_all (\<lambda>a. \<exists>e. a = Inl e \<and> retryWalletError ?R e False) (butlast answers)" "last answers = Inr response"
    "p < ticks_of s4" "se_mutate E p ''/v1/session-signers/authorizations'' idempotency (payload\<lparr>mp_Scopes := scopes\<rparr>) = Inr response"
    using mutateLoop_run [OF r(6) [unfolded submitSessionKeyMutation_def]] by (auto simp: posted_def)
  obtain n tx where t: "ticks_of s4 \<le> n" "n < ticks_of s5" "re_transaction ?R n (mr_TransactionID response) = Inr tx" "gt_State tx = StateConfirmed" using Wait_run [OF r(7)] by auto
  obtain keys where k: "registry_read E c (ticks_of s5) (ticks_of s') keys" "st_posts s' = st_posts s5"
    "registryAnswer \<lparr>sk_Address = aq_Address req, sk_Scopes = scopes, sk_ValidUntil = validUntil\<rparr> True keys = Some (Some found)"
    using registryLoop_run [OF r(8) [unfolded waitSessionKeyRegistry_def]] by blast
  obtain m registry where m: "ticks_of s5 \<le> m" "se_registry E m = Inr registry" "registryKeys ?X c registry = Inr keys" using k(1) by (auto simp: registry_read_def)
  have f: "found \<in> set keys" "sk_Address found = aq_Address req" "sk_ValidUntil found = validUntil" "set (sk_Scopes found) = set scopes"
    using registryAnswer_authorized [OF k(3)] by auto
  have sig: "mutation_signed E c (aq_Address req) (Some validUntil) (payload\<lparr>mp_Scopes := scopes\<rparr>)"
    using signSessionKeyMutation_run [OF r(1,5)] by (auto simp: mutation_signed_def)
  have o: "isDepositWalletOwner ?X c = Inr True" using r(1) by (auto simp: requireSessionKeyOwner_def go_run)
  have posts: "st_posts s' = st_posts s @ map (\<lambda>a. (''/v1/session-signers/authorizations'', idempotency, payload\<lparr>mp_Scopes := scopes\<rparr>, a)) answers"
    using k(2) stillD [OF still_basic(4) r(7)] a(1) same by simp
  show ?thesis
    by (intro exI [of _ scopes] exI [of _ idempotency] exI [of _ "payload\<lparr>mp_Scopes := scopes\<rparr>"] exI [of _ answers] exI [of _ response] exI [of _ validUntil]
        exI [of _ p] exI [of _ n] exI [of _ m] exI [of _ tx] exI [of _ keys] exI [of _ registry])
      (use o r(2,9) sig posts a t m f in simp)
qed

text \<open>
  C40: \<open>RevokeSessionKey\<close> succeeds only when a registry of this wallet that was read, and accepted as well-formed, after the revocation was posted does not list the key: a failed or malformed
  read never counts as removal.  The revocation is signed by the owner and posted at most three times, the same body each time.
\<close>

theorem revoked_key_absent:
  assumes "RevokeSessionKey E gas c key req s = (Inr u, s')"
  shows "\<exists>idempotency payload answers response keys registry p m.
    isDepositWalletOwner (re_eth (se_relay E)) c = Inr True \<and> mutation_signed E c (vq_Address req) None payload \<and>
    st_posts s' = st_posts s @ map (\<lambda>a. (''/v1/session-signers/revocations'', idempotency, payload, a)) answers \<and> answers \<noteq> [] \<and> length answers \<le> 3 \<and>
    list_all (\<lambda>a. \<exists>e. a = Inl e \<and> retryWalletError (se_relay E) e False) (butlast answers) \<and> last answers = Inr response \<and>
    se_mutate E p ''/v1/session-signers/revocations'' idempotency payload = Inr response \<and> p < m \<and>
    se_registry E m = Inr registry \<and> registryKeys (re_eth (se_relay E)) c registry = Inr keys \<and> vq_Address req \<notin> sk_Address ` set keys"
proof -
  let ?X = "re_eth (se_relay E)"
  obtain idempotency payload response answer s1 s2 s3 where r: "requireSessionKeyOwner ?X c = Inr ()"
    "sessionKeyIdempotencyKey E (vq_IdempotencyKey req) s = (Inr idempotency, s1)" "signSessionKeyMutation E gas c key (vq_Address req) None s1 = (Inr payload, s2)"
    "submitSessionKeyMutation E ''/v1/session-signers/revocations'' idempotency payload s2 = (Inr response, s3)"
    "waitSessionKeyRegistry E c \<lparr>sk_Address = vq_Address req, sk_Scopes = [], sk_ValidUntil = 0\<rparr> False s3 = (Inr answer, s')"
    using assms by (auto simp: RevokeSessionKey_def go_run Let_def)
  obtain answers p where a: "st_posts s3 = st_posts s2 @ map (\<lambda>a. (''/v1/session-signers/revocations'', idempotency, payload, a)) answers"
    "answers \<noteq> []" "length answers \<le> 3" "list_all (\<lambda>a. \<exists>e. a = Inl e \<and> retryWalletError (se_relay E) e False) (butlast answers)" "last answers = Inr response"
    "p < ticks_of s3" "se_mutate E p ''/v1/session-signers/revocations'' idempotency payload = Inr response"
    using mutateLoop_run [OF r(4) [unfolded submitSessionKeyMutation_def]] by (auto simp: posted_def)
  obtain keys where k: "registry_read E c (ticks_of s3) (ticks_of s') keys" "st_posts s' = st_posts s3" "vq_Address req \<notin> sk_Address ` set keys"
    using registryLoop_run [OF r(5) [unfolded waitSessionKeyRegistry_def]] registryAnswer_revoked by fastforce
  have posts: "st_posts s' = st_posts s @ map (\<lambda>a. (''/v1/session-signers/revocations'', idempotency, payload, a)) answers"
    using k(2) a(1) stillD [OF still_session(3) r(2)] stillD [OF still_session(4) r(3)] by simp
  have o: "isDepositWalletOwner ?X c = Inr True" using r(1) by (auto simp: requireSessionKeyOwner_def go_run)
  show ?thesis using o signSessionKeyMutation_run [OF r(1,3)] posts a(2-7) k(1,3) unfolding registry_read_def by (meson less_le_trans)
qed

section \<open>An owner\<close>

definition owner_client :: "dec client" where
  "owner_client = demo_client\<lparr>signatureType := 3, signerAddress := eth_addressHex demo_eth demo_owner,
     funderAddress := (case DeriveUUPSDepositWallet relay_eth demo_owner 137 of Inr a \<Rightarrow> eth_addressHex demo_eth a | Inl _ \<Rightarrow> [])\<rparr>"

definition demo_key :: address where
  "demo_key = replicate 19 0 @ [5]"

text \<open>A service that accepts every mutation, and a registry with one key.\<close>

definition session_env :: sessionEnv where
  "session_env = \<lparr>se_relay = relay_env, se_packAuthorize = (\<lambda>a e. Inr [1]), se_packRevoke = (\<lambda>a. Inr [2]), se_builderAuth = True, se_random = (\<lambda>n. Inr (replicate 16 0)),
     se_registry = (\<lambda>n. Inr \<lparr>sg_Wallet = funderAddress owner_client,
       sg_Signers = Some [\<lparr>sr_Address = eth_addressHex demo_eth demo_key, sr_Scopes = [''ALL''], sr_ValidUntil = Some 15535000\<rparr>]\<rparr>),
     se_mutate = (\<lambda>n path key payload. Inr \<lparr>mr_Status = (if path = ''/v1/session-signers/revocations'' then ''CONFIRMED'' else ''REGISTERED''), mr_TransactionHash = [], mr_TransactionID = ''t1''\<rparr>),
     se_submitTimer = (\<lambda>n d. None)\<rparr>"

definition session_start :: sessionState where
  "session_start = \<lparr>st_relay = relay_start, st_posts = []\<rparr>"

definition demo_gas :: "nat \<Rightarrow> address \<Rightarrow> address \<Rightarrow> byte list \<Rightarrow> 64 word result" where
  "demo_gas n a b d = Inl (Msg ''gas'')"

lemma session_env_simps [simp]: "se_relay session_env = relay_env" "re_eth relay_env = relay_eth" "se_builderAuth session_env"
  by (simp_all add: session_env_def relay_env_def)

lemma demo_is_owner: "isDepositWalletOwner relay_eth owner_client = Inr True" "requireSessionKeyOwner relay_eth owner_client = Inr ()"
proof -
  show "isDepositWalletOwner relay_eth owner_client = Inr True" by code_simp
  then show "requireSessionKeyOwner relay_eth owner_client = Inr ()" by (simp add: requireSessionKeyOwner_def)
qed

lemma demo_sign_runs:
  "case signSessionKeyMutation session_env demo_gas owner_client (Some demo_signer) demo_key (Some 15535000) \<lparr>st_relay = \<lparr>rl_ticks = Suc 0, rl_log = []\<rparr>, st_posts = []\<rparr> of
     (Inr _, t) \<Rightarrow> 4 \<le> rl_ticks (st_relay t) \<and> st_posts t = [] | (Inl _, t) \<Rightarrow> False"
  "case signSessionKeyMutation session_env demo_gas owner_client (Some demo_signer) demo_owner None session_start of
     (Inr _, t) \<Rightarrow> 4 \<le> rl_ticks (st_relay t) \<and> st_posts t = [] | (Inl _, t) \<Rightarrow> False"
  by code_simp+

lemma demo_submit:
  "submitSessionKeyMutation session_env path key payload s =
     (Inr \<lparr>mr_Status = (if path = ''/v1/session-signers/revocations'' then ''CONFIRMED'' else ''REGISTERED''), mr_TransactionHash = [], mr_TransactionID = ''t1''\<rparr>,
      s\<lparr>st_relay := (st_relay s)\<lparr>rl_ticks := Suc (rl_ticks (st_relay s))\<rparr>,
        st_posts := st_posts s @ [(path, key, payload, Inr \<lparr>mr_Status = (if path = ''/v1/session-signers/revocations'' then ''CONFIRMED'' else ''REGISTERED''),
          mr_TransactionHash = [], mr_TransactionID = ''t1''\<rparr>)]\<rparr>)"
  by (simp add: submitSessionKeyMutation_def mutateLoop.simps postMutation_def relay_def ask_def session_env_def)

lemma demo_poll:
  assumes "3 \<le> rl_ticks t"
  shows "\<exists>out t'. pollLoop relay_env i h d (Suc k) t = (Inr out, t')"
  using assms by (simp add: bindE_def checkCtx_def ask_def relay_env_def terminalOutcome_def IsTerminal_def StateConfirmed_def)

lemma demo_wait:
  assumes "3 \<le> rl_ticks (st_relay s)"
  shows "\<exists>out t. relay (Wait relay_env (NewHandle \<lparr>er_State = [], er_TransactionHash = h, er_TransactionID = i\<rparr>)) s = (Inr out, s\<lparr>st_relay := t\<rparr>)"
proof -
  let ?H = "NewHandle \<lparr>er_State = [], er_TransactionHash = h, er_TransactionID = i\<rparr>"
  obtain k where "nat (max 1 (hd_maxPolls ?H)) = Suc k" by (cases "nat (max 1 (hd_maxPolls ?H))") auto
  then have "Wait relay_env ?H = pollLoop relay_env (hd_TransactionID ?H) (hd_TransactionHash ?H) (hd_pollDelay ?H) (Suc k)"
    by (simp only: Wait_def PollUntilTerminal_def)
  then obtain out t where "Wait relay_env ?H (st_relay s) = (Inr out, t)"
    using demo_poll [OF assms, of "hd_TransactionID ?H" "hd_TransactionHash ?H" "hd_pollDelay ?H" k] by auto
  then show ?thesis unfolding relay_def by auto
qed

lemma demo_registry:
  "registryKeys relay_eth owner_client \<lparr>sg_Wallet = funderAddress owner_client,
     sg_Signers = Some [\<lparr>sr_Address = eth_addressHex demo_eth demo_key, sr_Scopes = [''ALL''], sr_ValidUntil = Some 15535000\<rparr>]\<rparr> =
   Inr [\<lparr>sk_Address = demo_key, sk_Scopes = [''ALL''], sk_ValidUntil = 15535000\<rparr>]"
  by code_simp

lemma demo_registry_wait:
  assumes "registryAnswer expected auth [\<lparr>sk_Address = demo_key, sk_Scopes = [''ALL''], sk_ValidUntil = 15535000\<rparr>] = Some answer"
  shows "\<exists>t. waitSessionKeyRegistry session_env owner_client expected auth s = (Inr answer, t)"
proof -
  obtain k where k: "nat DefaultPollMaxAttempts = Suc k" by (cases "nat DefaultPollMaxAttempts") (auto simp: DefaultPollMaxAttempts_def)
  have "FetchSessionKeys session_env owner_client s =
      (Inr [\<lparr>sk_Address = demo_key, sk_Scopes = [''ALL''], sk_ValidUntil = 15535000\<rparr>], s\<lparr>st_relay := (st_relay s)\<lparr>rl_ticks := Suc (rl_ticks (st_relay s))\<rparr>\<rparr>)"
    using demo_registry by (simp add: FetchSessionKeys_def bindE_def demo_is_owner relay_def ask_def) (simp add: session_env_def)
  then show ?thesis using assms unfolding waitSessionKeyRegistry_def k by (simp add: Let_def)
qed

theorem authorized_key_registered_witness:
  "\<exists>res s'. AuthorizeSessionKey session_env demo_gas owner_client (Some demo_signer) \<lparr>aq_Address = demo_key, aq_Scopes = None, aq_IdempotencyKey = ''k''\<rparr> session_start = (Inr res, s') \<and>
     sk_Address (az_SessionKey res) = demo_key \<and> set (sk_Scopes (az_SessionKey res)) = {''ALL''}"
proof -
  let ?req = "\<lparr>aq_Address = demo_key, aq_Scopes = None, aq_IdempotencyKey = ''k''\<rparr>"
  obtain payload s3 where s3: "signSessionKeyMutation session_env demo_gas owner_client (Some demo_signer) demo_key (Some 15535000)
      \<lparr>st_relay = \<lparr>rl_ticks = Suc 0, rl_log = []\<rparr>, st_posts = []\<rparr> = (Inr payload, s3)" "4 \<le> rl_ticks (st_relay s3)"
    using demo_sign_runs(1) by (auto split: prod.splits sum.splits)
  define s4 where "s4 = snd (submitSessionKeyMutation session_env ''/v1/session-signers/authorizations'' ''k'' (payload\<lparr>mp_Scopes := [''ALL'']\<rparr>) s3)"
  have s4: "submitSessionKeyMutation session_env ''/v1/session-signers/authorizations'' ''k'' (payload\<lparr>mp_Scopes := [''ALL'']\<rparr>) s3 =
      (Inr \<lparr>mr_Status = ''REGISTERED'', mr_TransactionHash = [], mr_TransactionID = ''t1''\<rparr>, s4)" "3 \<le> rl_ticks (st_relay s4)"
    using s3(2) by (simp_all add: s4_def demo_submit)
  obtain out t where w: "relay (Wait relay_env (NewHandle \<lparr>er_State = [], er_TransactionHash = [], er_TransactionID = ''t1''\<rparr>)) s4 = (Inr out, s4\<lparr>st_relay := t\<rparr>)"
    using demo_wait [OF s4(2)] by blast
  let ?key = "\<lparr>sk_Address = demo_key, sk_Scopes = [''ALL''], sk_ValidUntil = 15535000\<rparr>"
  have "registryAnswer ?key True [?key] = Some (Some ?key)" by code_simp
  from demo_registry_wait [OF this] obtain s' where g: "waitSessionKeyRegistry session_env owner_client ?key True (s4\<lparr>st_relay := t\<rparr>) = (Inr (Some ?key), s')" by blast
  have small: "demo_key \<noteq> noAddress" "authorizeScopes None = Inr [''ALL'']" "sessionKeyIdempotencyKey session_env ''k'' session_start = (Inr ''k'', session_start)"
    "relay (ask (\<lambda>n. Inr (re_now relay_env n + sessionKeyLifetime))) session_start = (Inr 15535000, \<lparr>st_relay = \<lparr>rl_ticks = Suc 0, rl_log = []\<rparr>, st_posts = []\<rparr>)"
    "validateSessionKeyStatus relay_eth \<lparr>mr_Status = ''REGISTERED'', mr_TransactionHash = [], mr_TransactionID = ''t1''\<rparr> True = Inr ()"
    by code_simp+
  have run: "AuthorizeSessionKey session_env demo_gas owner_client (Some demo_signer) ?req session_start = (Inr \<lparr>az_SessionKey = ?key, az_Transaction = out\<rparr>, s')"
    by (simp add: AuthorizeSessionKey_def bindE_def demo_is_owner small s3(1) s4(1) w g)
  from authorized_key_registered [OF run] run show ?thesis by auto
qed

theorem revoked_key_absent_witness:
  "\<exists>s' keys. RevokeSessionKey session_env demo_gas owner_client (Some demo_signer) \<lparr>vq_Address = demo_owner, vq_IdempotencyKey = ''k''\<rparr> session_start = (Inr (), s') \<and>
     demo_owner \<notin> sk_Address ` set keys \<and> keys = [\<lparr>sk_Address = demo_key, sk_Scopes = [''ALL''], sk_ValidUntil = 15535000\<rparr>]"
proof -
  let ?req = "\<lparr>vq_Address = demo_owner, vq_IdempotencyKey = ''k''\<rparr>"
  obtain payload s2 where s2: "signSessionKeyMutation session_env demo_gas owner_client (Some demo_signer) demo_owner None session_start = (Inr payload, s2)"
    using demo_sign_runs(2) by (auto split: prod.splits sum.splits)
  define s3 where "s3 = snd (submitSessionKeyMutation session_env ''/v1/session-signers/revocations'' ''k'' payload s2)"
  have s3: "submitSessionKeyMutation session_env ''/v1/session-signers/revocations'' ''k'' payload s2 =
      (Inr \<lparr>mr_Status = ''CONFIRMED'', mr_TransactionHash = [], mr_TransactionID = ''t1''\<rparr>, s3)" by (simp add: s3_def demo_submit)
  let ?gone = "\<lparr>sk_Address = demo_owner, sk_Scopes = [], sk_ValidUntil = 0\<rparr>"
  have "registryAnswer ?gone False [\<lparr>sk_Address = demo_key, sk_Scopes = [''ALL''], sk_ValidUntil = 15535000\<rparr>] = Some None" by code_simp
  from demo_registry_wait [OF this] obtain s' where g: "waitSessionKeyRegistry session_env owner_client ?gone False s3 = (Inr None, s')" by blast
  have small: "demo_owner \<noteq> noAddress" "sessionKeyIdempotencyKey session_env ''k'' session_start = (Inr ''k'', session_start)"
    "validateSessionKeyStatus relay_eth \<lparr>mr_Status = ''CONFIRMED'', mr_TransactionHash = [], mr_TransactionID = ''t1''\<rparr> False = Inr ()"
    by code_simp+
  have run: "RevokeSessionKey session_env demo_gas owner_client (Some demo_signer) ?req session_start = (Inr (), s')"
    by (simp add: RevokeSessionKey_def bindE_def demo_is_owner small s2 s3 g)
  have "\<exists>keys m registry. se_registry session_env m = Inr registry \<and> registryKeys relay_eth owner_client registry = Inr keys \<and> demo_owner \<notin> sk_Address ` set keys"
    using revoked_key_absent [OF run] by auto
  then show ?thesis using run demo_registry by (auto simp: session_env_def)
qed

end
