(* ===== verification/WalletExec.thy ===== *)
theory WalletExec
  imports Relay
begin

text \<open>
  Execution of wallet transactions, \<open>clob/wallet_transactions.go\<close>, with the boundary to the wallet that sends, signs and waits (\<open>signing/sending.go\<close>, \<open>signing/waiting.go\<close>,
  \<open>signing/signer.go\<close>) and the wait for receipts (\<open>clob/ctf.go\<close>).  Smart wallets hand one batch to the relayer of \<open>Relay\<close>; an ordinary account sends its calls one after the
  other.  These functions return values beside their errors, so both are in the result.
\<close>

section \<open>Data\<close>

type_synonym hash = "byte list"

definition noHash :: hash where
  "noHash = replicate 32 0"

record TransactionRequest =
  tr_ChainID :: int
  tr_From :: address
  tr_To :: address
  tr_Value :: "int option"
  tr_Data :: "byte list"

text \<open>A transaction of go-ethereum, unsigned with an empty signature, and a receipt.\<close>

record Transaction =
  tx_Type :: nat
  tx_ChainId :: int
  tx_Nonce :: "64 word"
  tx_GasTipCap :: int
  tx_GasFeeCap :: int
  tx_Gas :: "64 word"
  tx_To :: "address option"
  tx_Value :: int
  tx_Data :: "byte list"
  tx_Signature :: "byte list"

record Receipt =
  rc_TxHash :: hash
  rc_BlockNumber :: "int option"
  rc_BlockHash :: hash
  rc_Status :: "64 word"

definition ReceiptStatusFailed :: "64 word" where "ReceiptStatusFailed = 0"
definition ReceiptStatusSuccessful :: "64 word" where "ReceiptStatusSuccessful = 1"

record WalletTransactionSubmission =
  ts_TransactionHash :: string
  ts_BroadcastUncertain :: bool
  ts_ConfirmedReceipt :: "Receipt option"

record walletTransactionAttempt =
  wa_call :: TransactionCall
  wa_submission :: WalletTransactionSubmission

text \<open>\<open>wh_signer\<close> says that the handle has a signer, as every handle that is returned has.\<close>

record WalletTransactionHandle =
  wh_TransactionID :: string
  wh_TransactionHash :: string
  wh_Submissions :: "WalletTransactionSubmission list"
  wh_RequestedCalls :: nat
  wh_relayer :: "Handle option"
  wh_signer :: bool
  wh_attempts :: "walletTransactionAttempt list"
  wh_requestedCalls :: nat

text \<open>Errors, with those that carry a submission, and joined ones.\<close>

datatype txError =
    Plain go_error
  | Context string txError
  | Joined txError txError
  | TransactionSendError hash txError
  | WalletTransactionError WalletTransactionSubmission txError

text \<open>\<open>errors.As\<close> for the two types that carry something, \<open>errors.Is\<close> and \<open>errors.Join\<close>.\<close>

fun asSubmission :: "txError \<Rightarrow> WalletTransactionSubmission option" where
  "asSubmission (Plain e) = None"
| "asSubmission (Context m e) = asSubmission e"
| "asSubmission (Joined a b) = (case asSubmission a of Some x \<Rightarrow> Some x | None \<Rightarrow> asSubmission b)"
| "asSubmission (TransactionSendError h e) = asSubmission e"
| "asSubmission (WalletTransactionError sub e) = Some sub"

fun asSendError :: "txError \<Rightarrow> hash option" where
  "asSendError (Plain e) = None"
| "asSendError (Context m e) = asSendError e"
| "asSendError (Joined a b) = (case asSendError a of Some x \<Rightarrow> Some x | None \<Rightarrow> asSendError b)"
| "asSendError (TransactionSendError h e) = Some h"
| "asSendError (WalletTransactionError sub e) = asSendError e"

fun txError_is :: "txError \<Rightarrow> go_error \<Rightarrow> bool" where
  "txError_is (Plain e) target = errors_is e target"
| "txError_is (Context m e) target = txError_is e target"
| "txError_is (Joined a b) target = (txError_is a target \<or> txError_is b target)"
| "txError_is (TransactionSendError h e) target = txError_is e target"
| "txError_is (WalletTransactionError sub e) target = txError_is e target"

fun joinErrors :: "txError option \<Rightarrow> txError option \<Rightarrow> txError option" where
  "joinErrors None b = b"
| "joinErrors a None = a"
| "joinErrors (Some a) (Some b) = Some (Joined a b)"

lemma joinErrors_None [simp]: "joinErrors a b = None \<longleftrightarrow> a = None \<and> b = None"
  by (cases a; cases b) simp_all

definition ErrTransactionSendingUnsupported :: go_error where "ErrTransactionSendingUnsupported = Sentinel ''signing: transaction sending unsupported''"
definition ErrInvalidTransactionHash :: go_error where "ErrInvalidTransactionHash = Sentinel ''signing: sender returned no transaction hash''"
definition ErrTransactionWaitingUnsupported :: go_error where "ErrTransactionWaitingUnsupported = Sentinel ''signing: transaction waiting unsupported''"
definition ErrInvalidTransactionCompletion :: go_error where "ErrInvalidTransactionCompletion = Sentinel ''signing: invalid transaction completion''"
definition ErrTransactionReverted :: go_error where "ErrTransactionReverted = Sentinel ''signing: transaction reverted''"
definition ErrTransactionSigningUnsupported :: go_error where "ErrTransactionSigningUnsupported = Sentinel ''signing: transaction signing unsupported''"
definition ErrWalletTransactionIncomplete :: go_error where "ErrWalletTransactionIncomplete = Sentinel ''wallet: not all requested calls were submitted''"
definition ErrWalletTransactionUnknownHash :: go_error where
  "ErrWalletTransactionUnknownHash = Sentinel ''wallet: external send hash unknown; reconcile with wallet before retrying''"
definition ErrInvalidTokenAmount :: go_error where "ErrInvalidTokenAmount = Sentinel ''invalid token amount''"
definition ErrTokenOperationRequiresEOA :: go_error where "ErrTokenOperationRequiresEOA = Sentinel ''token operation requires EOA''"
definition ErrInvalidPositionOperation :: go_error where "ErrInvalidPositionOperation = Sentinel ''invalid position operation''"

text \<open>go-ethereum's error for what a node does not have.\<close>

definition EthNotFound :: go_error where "EthNotFound = Sentinel ''not found''"

text \<open>
  Outside: the relayer; the wallet, with the capabilities it has (a sender that broadcasts itself, a waiter, a signer of transactions); the node; and go-ethereum's hashes and
  senders of transactions.  Interactions are numbered; a sender and a waiter may give a value beside an error.
\<close>

record walletEnv =
  wv_relay :: relayEnv
  wv_send :: "(nat \<Rightarrow> TransactionRequest \<Rightarrow> hash \<times> go_error option) option"
  wv_wait :: "(nat \<Rightarrow> TransactionRequest \<Rightarrow> hash \<Rightarrow> Transaction option \<times> Receipt option \<times> go_error option) option"
  wv_signTx :: "(nat \<Rightarrow> int \<Rightarrow> Transaction \<Rightarrow> Transaction option result) option"
  wv_dial :: "nat \<Rightarrow> unit result"
  wv_nonce :: "nat \<Rightarrow> address \<Rightarrow> 64 word result"
  wv_tip :: "nat \<Rightarrow> int result"
  wv_baseFee :: "nat \<Rightarrow> int option result"
  wv_gas :: "nat \<Rightarrow> address \<Rightarrow> TransactionCall \<Rightarrow> int \<Rightarrow> int \<Rightarrow> 64 word result"
  wv_broadcast :: "nat \<Rightarrow> Transaction \<Rightarrow> unit result"
  wv_receipt :: "nat \<Rightarrow> hash \<Rightarrow> Receipt result"
  wv_ticker :: "nat \<Rightarrow> go_error option"
  wv_txHash :: "Transaction \<Rightarrow> hash"
  wv_sigHash :: "int \<Rightarrow> Transaction \<Rightarrow> hash"
  wv_sender :: "int \<Rightarrow> Transaction \<Rightarrow> address result"

text \<open>What was handed over for broadcast: a request to a sender, with the hash it returned, or a signed transaction to the node.\<close>

datatype handover = ToSender TransactionRequest hash | ToNode Transaction

record walletState =
  wt_relay :: relayState
  wt_sent :: "handover list"

text \<open>Computations that may wait forever: \<open>None\<close> is a wait that has not ended within its fuel.\<close>

type_synonym 'a run = "walletState \<Rightarrow> ('a \<times> walletState) option"

definition give :: "'a \<Rightarrow> 'a run" where
  "give x = (\<lambda>s. Some (x, s))"

definition andThen :: "'a run \<Rightarrow> ('a \<Rightarrow> 'b run) \<Rightarrow> 'b run" where
  "andThen m f = (\<lambda>s. case m s of None \<Rightarrow> None | Some (x, s') \<Rightarrow> f x s')"

definition relayed :: "(relayState, 'a) act \<Rightarrow> 'a result run" where
  "relayed m = (\<lambda>s. case m (wt_relay s) of (r, t) \<Rightarrow> Some (r, s\<lparr>wt_relay := t\<rparr>))"

definition query :: "(nat \<Rightarrow> 'a) \<Rightarrow> 'a run" where
  "query f = (\<lambda>s. Some (f (rl_ticks (wt_relay s)), s\<lparr>wt_relay := (wt_relay s)\<lparr>rl_ticks := Suc (rl_ticks (wt_relay s))\<rparr>\<rparr>))"

definition record_sent :: "handover \<Rightarrow> unit run" where
  "record_sent h = (\<lambda>s. Some ((), s\<lparr>wt_sent := wt_sent s @ [h]\<rparr>))"

text \<open>The steps of a function that returns a value of type \<open>'v\<close> beside its error, \<open>z\<close> when it has none.\<close>

definition step :: "'v \<Rightarrow> (go_error \<Rightarrow> txError) \<Rightarrow> 'a result run \<Rightarrow> ('a \<Rightarrow> ('v \<times> txError option) run) \<Rightarrow> ('v \<times> txError option) run" where
  "step z wrap m f = andThen m (\<lambda>r. case r of Inl e \<Rightarrow> give (z, Some (wrap e)) | Inr x \<Rightarrow> f x)"

definition ctxErr :: "walletEnv \<Rightarrow> unit result run" where
  "ctxErr E = query (\<lambda>n. case re_ctx (wv_relay E) n of Some e \<Rightarrow> Inl e | None \<Rightarrow> Inr ())"

definition panic :: go_error where
  "panic = Msg ''runtime error: index out of range''"

section \<open>The wallet\<close>

definition transactionRequest :: "address \<Rightarrow> TransactionRequest \<Rightarrow> TransactionRequest result" where
  "transactionRequest w request = (case tr_Value request of
       None \<Rightarrow> Inl (Msg ''signing: invalid transaction request'')
     | Some v \<Rightarrow> if tr_ChainID request \<le> 0 \<or> v < 0 \<or> 2 ^ 256 \<le> v then Inl (Msg ''signing: invalid transaction request'')
         else Inr (request\<lparr>tr_From := w\<rparr>))"

definition SendTransaction :: "walletEnv \<Rightarrow> address \<Rightarrow> TransactionRequest \<Rightarrow> (hash \<times> txError option) run" where
  "SendTransaction E w request =
     step noHash Plain (ctxErr E) (\<lambda>_. case wv_send E of
       None \<Rightarrow> give (noHash, Some (Plain ErrTransactionSendingUnsupported))
     | Some send \<Rightarrow>
         step noHash Plain (give (transactionRequest w request)) (\<lambda>req.
         andThen (query (\<lambda>n. send n req)) (\<lambda>(hash, err).
         andThen (record_sent (ToSender req hash)) (\<lambda>_.
         andThen (ctxErr E) (\<lambda>c.
           let joined = joinErrors (map_option Plain err) (case c of Inl e \<Rightarrow> Some (Plain e) | Inr _ \<Rightarrow> None);
               final = (if hash = noHash \<and> joined = None then Some (Plain ErrInvalidTransactionHash) else joined)
           in give (hash, map_option (TransactionSendError hash) final))))))"

definition validReceipt :: "hash \<Rightarrow> Receipt \<Rightarrow> bool" where
  "validReceipt h receipt \<longleftrightarrow> rc_TxHash receipt = h \<and> (\<exists>b. rc_BlockNumber receipt = Some b \<and> 0 \<le> b) \<and> rc_BlockHash receipt \<noteq> noHash"

lemma validReceipt_code [code]:
  "validReceipt h receipt \<longleftrightarrow> rc_TxHash receipt = h \<and> (case rc_BlockNumber receipt of None \<Rightarrow> False | Some b \<Rightarrow> 0 \<le> b) \<and> rc_BlockHash receipt \<noteq> noHash"
  by (auto simp: validReceipt_def split: option.splits)

definition validStatus :: "Receipt \<Rightarrow> bool" where
  "validStatus receipt \<longleftrightarrow> rc_Status receipt = ReceiptStatusSuccessful \<or> rc_Status receipt = ReceiptStatusFailed"

definition sameIntent :: "TransactionRequest \<Rightarrow> Transaction \<Rightarrow> bool" where
  "sameIntent intent tx \<longleftrightarrow> tx_ChainId tx = tr_ChainID intent \<and> tx_To tx = Some (tr_To intent) \<and> Some (tx_Value tx) = tr_Value intent \<and> tx_Data tx = tr_Data intent"

definition completion :: "walletEnv \<Rightarrow> address \<Rightarrow> TransactionRequest \<Rightarrow> Transaction \<Rightarrow> Receipt \<Rightarrow> unit result" where
  "completion E w intent tx receipt =
     (if \<not> sameIntent intent tx then Inl (Wrap ''call intent or chain changed'' ErrInvalidTransactionCompletion)
      else if wv_sender E (tr_ChainID intent) tx \<noteq> Inr w then Inl (Wrap ''transaction sender'' ErrInvalidTransactionCompletion)
      else if \<not> validReceipt (wv_txHash E tx) receipt \<or> \<not> validStatus receipt then Inl (Wrap ''receipt identity, block or status'' ErrInvalidTransactionCompletion)
      else Inr ())"

definition completed ::
  "walletEnv \<Rightarrow> address \<Rightarrow> TransactionRequest \<Rightarrow> txError option \<Rightarrow> Transaction option \<Rightarrow> Receipt option \<Rightarrow> (Transaction \<times> Receipt) option \<times> txError option" where
  "completed E w intent err tx receipt = (case (tx, receipt) of
       (Some t, Some r) \<Rightarrow>
         (case completion E w intent t r of
            Inl e \<Rightarrow> (None, joinErrors err (Some (Plain e)))
          | Inr _ \<Rightarrow> (Some (t, r), if rc_Status r = ReceiptStatusFailed then joinErrors err (Some (Plain ErrTransactionReverted)) else err))
     | _ \<Rightarrow> (None, joinErrors err (Some (Plain ErrInvalidTransactionCompletion))))"

definition WaitTransaction :: "walletEnv \<Rightarrow> address \<Rightarrow> TransactionRequest \<Rightarrow> hash \<Rightarrow> ((Transaction \<times> Receipt) option \<times> txError option) run" where
  "WaitTransaction E w request original =
     step None Plain (ctxErr E) (\<lambda>_. case wv_wait E of
       None \<Rightarrow> give (None, Some (Plain ErrTransactionWaitingUnsupported))
     | Some wait \<Rightarrow>
         step None Plain (give (transactionRequest w request)) (\<lambda>intent.
         if original = noHash then give (None, Some (Plain ErrInvalidTransactionHash))
         else
         andThen (query (\<lambda>n. wait n intent original)) (\<lambda>(tx, receipt, err).
         andThen (ctxErr E) (\<lambda>c.
           give (completed E w intent (joinErrors (map_option Plain err) (case c of Inl e \<Rightarrow> Some (Plain e) | Inr _ \<Rightarrow> None)) tx receipt)))))"

definition SignTransaction :: "walletEnv \<Rightarrow> address \<Rightarrow> int \<Rightarrow> Transaction \<Rightarrow> Transaction result run" where
  "SignTransaction E w chain tx =
     andThen (ctxErr E) (\<lambda>c. case c of Inl e \<Rightarrow> give (Inl e) | Inr _ \<Rightarrow>
       (case wv_signTx E of
          None \<Rightarrow> give (Inl ErrTransactionSigningUnsupported)
        | Some sign \<Rightarrow>
            if chain \<le> 0 then give (Inl (Msg ''signing: invalid transaction or chain''))
            else andThen (query (\<lambda>n. sign n chain tx)) (\<lambda>r. case r of Inl e \<Rightarrow> give (Inl e) | Inr answer \<Rightarrow>
              andThen (ctxErr E) (\<lambda>c. case c of Inl e \<Rightarrow> give (Inl e) | Inr _ \<Rightarrow>
                give (case answer of
                   None \<Rightarrow> Inl (Wrap ''transaction payload or chain changed'' ErrInvalidSignature)
                 | Some t \<Rightarrow>
                     if tx_ChainId t \<noteq> chain \<or> tx_Type t \<noteq> tx_Type tx \<or> wv_sigHash E chain t \<noteq> wv_sigHash E chain tx
                     then Inl (Wrap ''transaction payload or chain changed'' ErrInvalidSignature)
                     else if wv_sender E chain t \<noteq> Inr w then Inl (Wrap ''transaction sender'' ErrInvalidSignature)
                     else Inr t)))))"

section \<open>Sending a call\<close>

text \<open>\<open>validateUint256\<close>, with the amount that it accepts.\<close>

definition uint256Amount :: "string \<Rightarrow> int option \<Rightarrow> int result" where
  "uint256Amount name v = (case v of
       None \<Rightarrow> Inl (Wrap name ErrInvalidTokenAmount)
     | Some n \<Rightarrow> if n < 0 \<or> 2 ^ 256 \<le> n then Inl (Wrap name ErrInvalidTokenAmount) else Inr n)"

definition requireEOATokenOperation :: "'d client \<Rightarrow> unit result" where
  "requireEOATokenOperation c = guardE (signatureType c = SignatureTypeEOA) (Wrap ''direct transaction requires EOA signature type'' ErrTokenOperationRequiresEOA)"

definition walletSubmissionError :: "eth_ops \<Rightarrow> hash \<Rightarrow> bool \<Rightarrow> txError \<Rightarrow> txError" where
  "walletSubmissionError X hash uncertain err =
     WalletTransactionError \<lparr>ts_TransactionHash = (if hash \<noteq> noHash then eth_encode X hash else []), ts_BroadcastUncertain = uncertain, ts_ConfirmedReceipt = None\<rparr> err"

definition callRequest :: "'d client \<Rightarrow> TransactionCall \<Rightarrow> TransactionRequest" where
  "callRequest c call = \<lparr>tr_ChainID = chainID c, tr_From = noAddress, tr_To = tc_To call, tr_Value = tc_Value call, tr_Data = tc_Data call\<rparr>"

definition feeTransaction :: "int \<Rightarrow> 64 word \<Rightarrow> int \<Rightarrow> int \<Rightarrow> 64 word \<Rightarrow> address \<Rightarrow> int \<Rightarrow> byte list \<Rightarrow> Transaction" where
  "feeTransaction chain nonce tip fee gas to v data =
     \<lparr>tx_Type = 2, tx_ChainId = chain, tx_Nonce = nonce, tx_GasTipCap = tip, tx_GasFeeCap = fee, tx_Gas = gas, tx_To = Some to, tx_Value = v, tx_Data = data, tx_Signature = []\<rparr>"

definition signAndBroadcast :: "walletEnv \<Rightarrow> address \<Rightarrow> int \<Rightarrow> Transaction \<Rightarrow> (hash \<times> txError option) run" where
  "signAndBroadcast E w chain tx =
     step noHash (Context ''wallet: sign'' \<circ> Plain) (SignTransaction E w chain tx) (\<lambda>signed.
     andThen (record_sent (ToNode signed)) (\<lambda>_.
     andThen (query (\<lambda>n. wv_broadcast E n signed)) (\<lambda>r. case r of
       Inl e \<Rightarrow> give (wv_txHash E signed, Some (walletSubmissionError (re_eth (wv_relay E)) (wv_txHash E signed) True (Context ''wallet: broadcast'' (Plain e))))
     | Inr _ \<Rightarrow> give (wv_txHash E signed, None))))"

definition broadcastWalletCall :: "walletEnv \<Rightarrow> 'd client \<Rightarrow> address \<Rightarrow> TransactionCall \<Rightarrow> (hash \<times> txError option) run" where
  "broadcastWalletCall E c w call =
     (let X = re_eth (wv_relay E) in
      step noHash Plain (ctxErr E) (\<lambda>_.
      step noHash Plain (give (requireEOATokenOperation c)) (\<lambda>_.
      step noHash Plain (give (uint256Amount ''call value'' (tc_Value call))) (\<lambda>v.
      if wv_send E \<noteq> None
      then andThen (SendTransaction E w (callRequest c call)) (\<lambda>(hash, err). case err of
             None \<Rightarrow> give (hash, None)
           | Some e \<Rightarrow> give (hash, Some (if asSendError e \<noteq> None then walletSubmissionError X hash True e else e)))
      else
      step noHash (Context ''wallet: dial rpc'' \<circ> Plain) (query (wv_dial E)) (\<lambda>_.
      step noHash (Context ''wallet: nonce'' \<circ> Plain) (query (\<lambda>n. wv_nonce E n w)) (\<lambda>nonce.
      step noHash (Context ''wallet: gas tip'' \<circ> Plain) (query (wv_tip E)) (\<lambda>tip.
      step noHash (Context ''wallet: latest header'' \<circ> Plain) (query (wv_baseFee E)) (\<lambda>baseFee. case baseFee of
        None \<Rightarrow> give (noHash, Some (Plain (Msg ''wallet: chain does not support EIP-1559'')))
      | Some base \<Rightarrow>
          let fee = tip + base * 2 in
          step noHash (Context ''wallet: estimate gas'' \<circ> Plain) (query (\<lambda>n. wv_gas E n w call fee tip)) (\<lambda>gas.
            signAndBroadcast E w (chainID c) (feeTransaction (chainID c) nonce tip fee gas (tc_To call) v (tc_Data call)))))))))))"

section \<open>Receipts\<close>

text \<open>Every 250 milliseconds; one unit of fuel is one round.\<close>

fun waitForReceipt :: "walletEnv \<Rightarrow> hash \<Rightarrow> nat \<Rightarrow> Receipt result run" where
  "waitForReceipt E h 0 = (\<lambda>s. None)"
| "waitForReceipt E h (Suc fuel) =
     andThen (query (wv_ticker E)) (\<lambda>t. case t of
       Some e \<Rightarrow> give (Inl (Wrap ''waiting for receipt'' e))
     | None \<Rightarrow> andThen (query (\<lambda>n. wv_receipt E n h)) (\<lambda>r. case r of
         Inr receipt \<Rightarrow> give (
           if \<not> validReceipt h receipt then Inl (Msg ''invalid receipt identity or mined block'')
           else if \<not> validStatus receipt then Inl (Msg ''invalid receipt status'')
           else Inr receipt)
       | Inl e \<Rightarrow> if \<not> errors_is e EthNotFound then give (Inl (Wrap ''get receipt'' e)) else waitForReceipt E h fuel))"

definition waitWalletTransactionReceipt :: "walletEnv \<Rightarrow> string \<Rightarrow> nat \<Rightarrow> (Receipt option \<times> txError option) run" where
  "waitWalletTransactionReceipt E hash fuel =
     (case unhex (trim_prefix hash ''0x'') of
        None \<Rightarrow> give (None, Some (Plain (Msg ''wallet: receipt requires a valid transaction hash'')))
      | Some decoded \<Rightarrow>
          if \<not> has_prefix hash ''0x'' \<or> length decoded \<noteq> 32 \<or> decoded = noHash
          then give (None, Some (Plain (Msg ''wallet: receipt requires a valid transaction hash'')))
          else
          step None Plain (query (wv_dial E)) (\<lambda>_.
          step None Plain (waitForReceipt E decoded fuel) (\<lambda>receipt.
            give (Some receipt, if rc_Status receipt = ReceiptStatusFailed then Some (Plain (Wrap hash ErrTransactionFailed)) else None))))"

definition waitWalletCallReceipt :: "walletEnv \<Rightarrow> 'd client \<Rightarrow> address \<Rightarrow> TransactionCall \<Rightarrow> string \<Rightarrow> nat \<Rightarrow> (Receipt option \<times> txError option) run" where
  "waitWalletCallReceipt E c w call hash fuel =
     (if wv_wait E = None then waitWalletTransactionReceipt E hash fuel
      else andThen (WaitTransaction E w (callRequest c call) (eth_hexToHash (re_eth (wv_relay E)) hash)) (\<lambda>(mined, err).
        give (map_option snd mined, map_option (\<lambda>e. if txError_is e ErrTransactionReverted then Joined (Plain ErrTransactionFailed) e else e) err)))"

definition sendContractTxAndWait :: "walletEnv \<Rightarrow> 'd client \<Rightarrow> address \<Rightarrow> address \<Rightarrow> byte list \<Rightarrow> string \<Rightarrow> nat \<Rightarrow> (Receipt option \<times> txError option) run" where
  "sendContractTxAndWait E c w to data label fuel =
     (let call = \<lparr>tc_To = to, tc_Data = data, tc_Value = Some 0\<rparr> in
      andThen (broadcastWalletCall E c w call) (\<lambda>(hash, err). case err of
        Some e \<Rightarrow> give (None, Some (Context label e))
      | None \<Rightarrow> andThen (waitWalletCallReceipt E c w call (eth_encode (re_eth (wv_relay E)) hash) fuel) (\<lambda>(receipt, err). case err of
          Some e \<Rightarrow> give (receipt, Some (Context label
            (WalletTransactionError \<lparr>ts_TransactionHash = (if hash \<noteq> noHash then eth_encode (re_eth (wv_relay E)) hash else []), ts_BroadcastUncertain = False,
               ts_ConfirmedReceipt = receipt\<rparr> e)))
        | None \<Rightarrow> give (receipt, None))))"

section \<open>Sequences of calls\<close>

definition confirmAttempt :: "nat \<Rightarrow> Receipt option \<Rightarrow> WalletTransactionHandle \<Rightarrow> WalletTransactionHandle" where
  "confirmAttempt i receipt h = h\<lparr>wh_attempts := (wh_attempts h)[i := (wh_attempts h ! i)\<lparr>wa_submission := (wa_submission (wh_attempts h ! i))\<lparr>ts_ConfirmedReceipt := receipt\<rparr>\<rparr>],
     wh_Submissions := (wh_Submissions h)[i := (wh_Submissions h ! i)\<lparr>ts_ConfirmedReceipt := receipt\<rparr>]\<rparr>"

definition addAttempt :: "eth_ops \<Rightarrow> TransactionCall \<Rightarrow> hash \<Rightarrow> txError option \<Rightarrow> WalletTransactionHandle \<Rightarrow> WalletTransactionHandle" where
  "addAttempt X call hash err h =
     (let submission = (case Option.bind err asSubmission of
            Some sub \<Rightarrow> Some sub
          | None \<Rightarrow> if hash \<noteq> noHash then Some \<lparr>ts_TransactionHash = eth_encode X hash, ts_BroadcastUncertain = False, ts_ConfirmedReceipt = None\<rparr> else None);
          h1 = (case submission of
            None \<Rightarrow> h
          | Some sub \<Rightarrow> h\<lparr>wh_attempts := wh_attempts h @ [\<lparr>wa_call = call, wa_submission = sub\<rparr>], wh_Submissions := wh_Submissions h @ [sub]\<rparr>)
      in if hash \<noteq> noHash then h1\<lparr>wh_TransactionHash := eth_encode X hash\<rparr> else h1)"

text \<open>The loop of \<open>ExecuteEOACalls\<close> from call \<open>i\<close> on.\<close>

fun eoaLoop :: "walletEnv \<Rightarrow> 'd client \<Rightarrow> address \<Rightarrow> nat \<Rightarrow> nat \<Rightarrow> TransactionCall list \<Rightarrow> WalletTransactionHandle \<Rightarrow> (WalletTransactionHandle option \<times> txError option) run" where
  "eoaLoop E c w fuel i [] h = give (Some h, None)"
| "eoaLoop E c w fuel i (call # rest) h =
     andThen (broadcastWalletCall E c w call) (\<lambda>(hash, err).
       let X = re_eth (wv_relay E); h1 = addAttempt X call hash err h in
       case err of
         Some e \<Rightarrow> give (if wh_Submissions h1 = [] then None else Some h1, Some (Context ''wallet: broadcast call'' e))
       | None \<Rightarrow>
           if rest = [] then eoaLoop E c w fuel (Suc i) rest h1
           else andThen (waitWalletCallReceipt E c w call (eth_encode X hash) fuel) (\<lambda>(receipt, err).
             if length (wh_attempts h1) \<le> i then give (None, Some (Plain panic))
             else case err of
               Some e \<Rightarrow> give (Some (confirmAttempt i receipt h1), Some (Context ''wallet: confirm call'' e))
             | None \<Rightarrow> eoaLoop E c w fuel (Suc i) rest (confirmAttempt i receipt h1)))"

definition emptyHandle :: "nat \<Rightarrow> WalletTransactionHandle" where
  "emptyHandle n = \<lparr>wh_TransactionID = [], wh_TransactionHash = [], wh_Submissions = [], wh_RequestedCalls = n, wh_relayer = None, wh_signer = True, wh_attempts = [],
     wh_requestedCalls = n\<rparr>"

definition checkValues :: "TransactionCall list \<Rightarrow> int list result" where
  "checkValues calls = each (\<lambda>call. uint256Amount ''call value'' (tc_Value call)) calls"

definition ExecuteEOACalls :: "walletEnv \<Rightarrow> 'd client \<Rightarrow> address \<Rightarrow> nat \<Rightarrow> TransactionCall list \<Rightarrow> (WalletTransactionHandle option \<times> txError option) run" where
  "ExecuteEOACalls E c w fuel calls =
     step None Plain (give (requireEOATokenOperation c)) (\<lambda>_.
     step None Plain (give (guardE (calls \<noteq> []) (Wrap ''no calls'' ErrInvalidPositionOperation))) (\<lambda>_.
     step None Plain (give (checkValues calls)) (\<lambda>_.
       eoaLoop E c w fuel 0 calls (emptyHandle (length calls)))))"

definition ExecuteWalletTransaction ::
  "walletEnv \<Rightarrow> (nat \<Rightarrow> address \<Rightarrow> address \<Rightarrow> byte list \<Rightarrow> 64 word result) \<Rightarrow> 'd client \<Rightarrow> relayTypedData signer_ops \<Rightarrow> nat \<Rightarrow> TransactionCall list \<Rightarrow> string \<Rightarrow>
     (WalletTransactionHandle option \<times> txError option) run" where
  "ExecuteWalletTransaction E gas c key fuel calls metadata =
     (if signatureType c = SignatureTypeEOA then ExecuteEOACalls E c (sg_address key) fuel calls
      else
      step None Plain (give (guardE (calls \<noteq> []) (Wrap ''no calls'' ErrInvalidPositionOperation))) (\<lambda>_.
      step None Plain (give (checkValues calls)) (\<lambda>_.
      step None Plain (relayed (PrepareGaslessTransaction (wv_relay E) gas c (Some key) calls metadata)) (\<lambda>h.
        give (Some ((emptyHandle (length calls))\<lparr>wh_TransactionID := hd_TransactionID h, wh_TransactionHash := hd_TransactionHash h, wh_relayer := Some h, wh_requestedCalls := 0\<rparr>), None)))))"

section \<open>Waiting for a handle\<close>

fun receiptLoop :: "walletEnv \<Rightarrow> 'd client \<Rightarrow> address \<Rightarrow> nat \<Rightarrow> nat \<Rightarrow> walletTransactionAttempt list \<Rightarrow> Receipt list \<Rightarrow> (Receipt list \<times> txError option) run" where
  "receiptLoop E c w fuel missing [] receipts = give (receipts, if missing \<noteq> 0 then Some (Plain ErrWalletTransactionIncomplete) else None)"
| "receiptLoop E c w fuel missing (attempt # rest) receipts =
     (let submission = wa_submission attempt in
      if ts_TransactionHash submission = [] then give (receipts, Some (WalletTransactionError submission (Plain ErrWalletTransactionUnknownHash)))
      else andThen (waitWalletCallReceipt E c w (wa_call attempt) (ts_TransactionHash submission) fuel) (\<lambda>(receipt, err).
        let kept = (if receipt = None \<and> err \<noteq> None then ts_ConfirmedReceipt submission else receipt);
            receipts1 = receipts @ (case kept of None \<Rightarrow> [] | Some r \<Rightarrow> [r])
        in case err of Some e \<Rightarrow> give (receipts1, Some e) | None \<Rightarrow> receiptLoop E c w fuel missing rest receipts1))"

definition noTransaction :: txError where
  "noTransaction = Plain (Msg ''wallet: no transaction to wait for'')"

definition WaitReceipts :: "walletEnv \<Rightarrow> 'd client \<Rightarrow> address \<Rightarrow> nat \<Rightarrow> WalletTransactionHandle option \<Rightarrow> (Receipt list \<times> txError option) run" where
  "WaitReceipts E c w fuel handle = (case handle of None \<Rightarrow> give ([], Some noTransaction) | Some h \<Rightarrow>
     if \<not> wh_signer h then give ([], Some noTransaction)
     else (case wh_relayer h of
        Some relayer \<Rightarrow>
          step [] Plain (relayed (Wait (wv_relay E) relayer)) (\<lambda>outcome.
          andThen (waitWalletTransactionReceipt E (to_TransactionHash outcome) fuel) (\<lambda>(receipt, err).
            give (case receipt of None \<Rightarrow> [] | Some r \<Rightarrow> [r], err)))
      | None \<Rightarrow>
          if wh_attempts h = [] \<or> wh_requestedCalls h < length (wh_attempts h)
          then give ([], Some (Plain (Msg ''wallet: no valid EOA submissions to wait for'')))
          else receiptLoop E c w fuel (wh_requestedCalls h - length (wh_attempts h)) (wh_attempts h) []))"

definition WaitReceipt :: "walletEnv \<Rightarrow> 'd client \<Rightarrow> address \<Rightarrow> nat \<Rightarrow> WalletTransactionHandle option \<Rightarrow> (Receipt option \<times> txError option) run" where
  "WaitReceipt E c w fuel handle = andThen (WaitReceipts E c w fuel handle) (\<lambda>(receipts, err). give (if receipts = [] then None else Some (last receipts), err))"

definition WaitHandle :: "walletEnv \<Rightarrow> 'd client \<Rightarrow> address \<Rightarrow> nat \<Rightarrow> WalletTransactionHandle option \<Rightarrow> (TransactionOutcome option \<times> txError option) run" where
  "WaitHandle E c w fuel handle = (case handle of None \<Rightarrow> give (None, Some noTransaction) | Some h \<Rightarrow>
     if \<not> wh_signer h then give (None, Some noTransaction)
     else (case wh_relayer h of
        Some relayer \<Rightarrow> step None Plain (relayed (Wait (wv_relay E) relayer)) (\<lambda>outcome. give (Some outcome, None))
      | None \<Rightarrow> andThen (WaitReceipt E c w fuel handle) (\<lambda>(receipt, err). case err of
          Some e \<Rightarrow> give (None, Some e)
        | None \<Rightarrow> (case receipt of
            None \<Rightarrow> give (None, Some (Plain (Msg ''runtime error: invalid memory address or nil pointer dereference'')))
          | Some r \<Rightarrow> give (Some \<lparr>to_TransactionHash = eth_encode (re_eth (wv_relay E)) (rc_TxHash r), to_TransactionID = []\<rparr>, None)))))"

section \<open>Runs\<close>

lemma uint256Amount_Inr: "uint256Amount name v = Inr n \<longleftrightarrow> v = Some n \<and> 0 \<le> n \<and> n < 2 ^ 256"
  by (auto simp: uint256Amount_def split: option.splits)

lemma andThen_Some [simp]: "andThen m f s = Some (r, s') \<longleftrightarrow> (\<exists>x s1. m s = Some (x, s1) \<and> f x s1 = Some (r, s'))"
  by (auto simp: andThen_def split: option.splits)

lemma give_Some [simp]: "give x s = Some (r, s') \<longleftrightarrow> r = x \<and> s' = s"
  by (auto simp: give_def)

lemma step_Some:
  "step z wrap m f s = Some (r, s') \<longleftrightarrow>
     (\<exists>e. m s = Some (Inl e, s') \<and> r = (z, Some (wrap e))) \<or> (\<exists>x s1. m s = Some (Inr x, s1) \<and> f x s1 = Some (r, s'))"
  by (auto simp: step_def split: sum.splits) (metis Inl_Inr_False sum.exhaust)+

lemma case_runs:
  "(case r of Inl e \<Rightarrow> f e | Inr x \<Rightarrow> g x) s = Some y \<longleftrightarrow> (\<exists>e. r = Inl e \<and> f e s = Some y) \<or> (\<exists>x. r = Inr x \<and> g x s = Some y)"
  "(case v of None \<Rightarrow> m | Some x \<Rightarrow> k x) s = Some y \<longleftrightarrow> (v = None \<and> m s = Some y) \<or> (\<exists>x. v = Some x \<and> k x s = Some y)"
  "(if b then m else m') s = Some y \<longleftrightarrow> (b \<and> m s = Some y) \<or> (\<not> b \<and> m' s = Some y)"
  by (auto split: sum.splits option.splits)

lemmas runs = step_Some case_runs Let_def

text \<open>Computations that hand nothing over.\<close>

definition unsent :: "'a run \<Rightarrow> bool" where
  "unsent m \<longleftrightarrow> (\<forall>s r s'. m s = Some (r, s') \<longrightarrow> wt_sent s' = wt_sent s)"

named_theorems unsent_rules

lemma unsentD: "unsent m \<Longrightarrow> m s = Some (r, s') \<Longrightarrow> wt_sent s' = wt_sent s"
  by (simp add: unsent_def)

lemma unsent_basic [unsent_rules]: "unsent (give x)" "unsent (query f)" "unsent (relayed m)" "unsent (ctxErr E)" "unsent (\<lambda>s. None)"
  by (auto simp: unsent_def query_def relayed_def ctxErr_def split: prod.splits)

lemma unsent_andThen [unsent_rules]: "unsent m \<Longrightarrow> (\<And>x. unsent (f x)) \<Longrightarrow> unsent (andThen m f)"
  unfolding unsent_def by (metis andThen_Some)

lemma unsent_step [unsent_rules]: "unsent m \<Longrightarrow> (\<And>x. unsent (f x)) \<Longrightarrow> unsent (step z wrap m f)"
  unfolding step_def by (intro unsent_rules) (auto intro: unsent_rules split: sum.splits)

lemma unsent_cases [unsent_rules]:
  "(b \<Longrightarrow> unsent m) \<Longrightarrow> (\<not> b \<Longrightarrow> unsent m') \<Longrightarrow> unsent (if b then m else m')"
  "unsent m \<Longrightarrow> (\<And>x. unsent (f x)) \<Longrightarrow> unsent (case v of None \<Rightarrow> m | Some x \<Rightarrow> f x)"
  "(\<And>e. unsent (g e)) \<Longrightarrow> (\<And>x. unsent (f' x)) \<Longrightarrow> unsent (case r of Inl e \<Rightarrow> g e | Inr x \<Rightarrow> f' x)"
  "(\<And>a b. unsent (k a b)) \<Longrightarrow> unsent (case p of (a, b) \<Rightarrow> k a b)"
  by (auto split: option.splits sum.splits prod.splits)

lemma unsent_waitForReceipt [unsent_rules]: "unsent (waitForReceipt E h fuel)"
  by (induction fuel) (simp_all, (intro unsent_rules | assumption)+)

lemma unsent_wallet [unsent_rules]: "unsent (SignTransaction E w chain tx)" "unsent (WaitTransaction E w request h)"
  "unsent (waitWalletTransactionReceipt E hash fuel)"
  unfolding SignTransaction_def WaitTransaction_def waitWalletTransactionReceipt_def Let_def by (intro unsent_rules)+

lemma unsent_callReceipt [unsent_rules]: "unsent (waitWalletCallReceipt E c w call hash fuel)"
  unfolding waitWalletCallReceipt_def by (intro unsent_rules)

section \<open>What is handed over\<close>

text \<open>A handover that carries the call of an attempt, whose submission has its hash.\<close>

definition signed_call :: "walletEnv \<Rightarrow> 'd client \<Rightarrow> address \<Rightarrow> TransactionCall \<Rightarrow> Transaction \<Rightarrow> bool" where
  "signed_call E c w call tx \<longleftrightarrow> wv_sender E (chainID c) tx = Inr w \<and> (\<exists>nonce tip fee gas v. tc_Value call = Some v \<and>
     wv_sigHash E (chainID c) tx = wv_sigHash E (chainID c) (feeTransaction (chainID c) nonce tip fee gas (tc_To call) v (tc_Data call)))"

definition carries_call :: "walletEnv \<Rightarrow> 'd client \<Rightarrow> address \<Rightarrow> TransactionCall \<Rightarrow> hash \<Rightarrow> handover \<Rightarrow> bool" where
  "carries_call E c w call hash h \<longleftrightarrow> (case h of
       ToSender request known \<Rightarrow> request = (callRequest c call)\<lparr>tr_From := w\<rparr> \<and> known = hash
     | ToNode tx \<Rightarrow> wv_txHash E tx = hash \<and> signed_call E c w call tx)"

definition carries :: "walletEnv \<Rightarrow> 'd client \<Rightarrow> address \<Rightarrow> walletTransactionAttempt \<Rightarrow> handover \<Rightarrow> bool" where
  "carries E c w a h \<longleftrightarrow> (\<exists>hash. carries_call E c w (wa_call a) hash h \<and>
     ts_TransactionHash (wa_submission a) = (if hash \<noteq> noHash then eth_encode (re_eth (wv_relay E)) hash else []))"

lemma signed_callI:
  "wv_sender E (chainID c) tx = Inr w \<Longrightarrow> tc_Value call = Some v \<Longrightarrow>
   wv_sigHash E (chainID c) tx = wv_sigHash E (chainID c) (feeTransaction (chainID c) nonce tip fee gas (tc_To call) v (tc_Data call)) \<Longrightarrow> signed_call E c w call tx"
  unfolding signed_call_def by blast

lemma transactionRequest_Inr: "transactionRequest w request = Inr req \<Longrightarrow> req = request\<lparr>tr_From := w\<rparr>"
  by (auto simp: transactionRequest_def split: option.splits if_splits)

lemma SendTransaction_run:
  assumes "SendTransaction E w request s = Some ((hash, err), s')"
  shows "(wt_sent s' = wt_sent s \<and> hash = noHash \<and> (\<exists>e. err = Some (Plain e))) \<or>
    (wt_sent s' = wt_sent s @ [ToSender (request\<lparr>tr_From := w\<rparr>) hash] \<and> (err = None \<and> hash \<noteq> noHash \<or> (\<exists>e. err = Some (TransactionSendError hash e))))"
  using assms
  by (auto simp: SendTransaction_def step_Some Let_def query_def ctxErr_def record_sent_def case_prod_unfold dest!: transactionRequest_Inr [OF sym] split: option.splits if_splits)

lemma SignTransaction_run:
  assumes "SignTransaction E w chain tx s = Some (Inr t, s')"
  shows "wv_sigHash E chain t = wv_sigHash E chain tx \<and> wv_sender E chain t = Inr w"
proof -
  obtain u answer where "u = Inr t" "u = (case answer of
      None \<Rightarrow> Inl (Wrap ''transaction payload or chain changed'' ErrInvalidSignature)
    | Some t \<Rightarrow>
        if tx_ChainId t \<noteq> chain \<or> tx_Type t \<noteq> tx_Type tx \<or> wv_sigHash E chain t \<noteq> wv_sigHash E chain tx
        then Inl (Wrap ''transaction payload or chain changed'' ErrInvalidSignature)
        else if wv_sender E chain t \<noteq> Inr w then Inl (Wrap ''transaction sender'' ErrInvalidSignature) else Inr t)"
    using assms unfolding SignTransaction_def by (auto simp: runs)
  then show ?thesis by (auto split: option.splits if_splits)
qed

text \<open>A call that was not handed over leaves no trace; one that was has a hash, or an error that records its submission.\<close>

definition untouched :: "hash \<Rightarrow> txError option \<Rightarrow> bool" where
  "untouched hash err \<longleftrightarrow> hash = noHash \<and> (\<exists>e. err = Some e \<and> asSubmission e = None)"

definition recorded :: "eth_ops \<Rightarrow> hash \<Rightarrow> txError option \<Rightarrow> bool" where
  "recorded X hash err \<longleftrightarrow> (case err of
       None \<Rightarrow> hash \<noteq> noHash
     | Some e \<Rightarrow> asSubmission e = Some \<lparr>ts_TransactionHash = (if hash \<noteq> noHash then eth_encode X hash else []), ts_BroadcastUncertain = True, ts_ConfirmedReceipt = None\<rparr>)"

lemma untouched_simps [simp]: "untouched noHash (Some (Plain e))" "untouched noHash (Some (Context m (Plain e)))"
  by (simp_all add: untouched_def)

lemma broadcast_node_run:
  assumes "signAndBroadcast E w chain tx s = Some ((hash, err), s')" "\<forall>tx. wv_txHash E tx \<noteq> noHash"
  shows "(wt_sent s' = wt_sent s \<and> untouched hash err) \<or> (\<exists>t. wt_sent s' = wt_sent s @ [ToNode t] \<and> wv_txHash E t = hash \<and>
    wv_sigHash E chain t = wv_sigHash E chain tx \<and> wv_sender E chain t = Inr w \<and> recorded (re_eth (wv_relay E)) hash err)"
proof -
  consider (no) e where "SignTransaction E w chain tx s = Some (Inl e, s')" "hash = noHash" "err = Some (Context ''wallet: sign'' (Plain e))"
    | (yes) t s1 where "SignTransaction E w chain tx s = Some (Inr t, s1)" "wt_sent s' = wt_sent s1 @ [ToNode t]" "hash = wv_txHash E t" "recorded (re_eth (wv_relay E)) hash err"
    using assms by (auto simp: signAndBroadcast_def runs record_sent_def query_def recorded_def walletSubmissionError_def)
  then show ?thesis
  proof cases
    case no
    then show ?thesis using unsentD [OF unsent_wallet(1)] by auto
  next
    case yes
    then show ?thesis using unsentD [OF unsent_wallet(1) yes(1)] SignTransaction_run [OF yes(1)] by auto
  qed
qed

lemma broadcast_run:
  assumes "broadcastWalletCall E c w call s = Some ((hash, err), s')" "\<forall>tx. wv_txHash E tx \<noteq> noHash"
  shows "(wt_sent s' = wt_sent s \<and> untouched hash err) \<or>
    (\<exists>h. wt_sent s' = wt_sent s @ [h] \<and> carries_call E c w call hash h \<and> recorded (re_eth (wv_relay E)) hash err)"
proof (cases "wv_send E")
  case (Some send)
  then show ?thesis using assms(1) unsentD [OF unsent_basic(4)]
    by (auto simp: broadcastWalletCall_def runs carries_call_def recorded_def walletSubmissionError_def dest!: SendTransaction_run)
next
  case None
  note still = unsentD [OF unsent_basic(4)] unsentD [OF unsent_basic(2)]
  show ?thesis using assms(1) None
    by (auto simp: broadcastWalletCall_def runs carries_call_def uint256Amount_Inr dest!: sym [of _ "uint256Amount _ _"] still broadcast_node_run [OF _ assms(2)] intro: signed_callI)
qed

section \<open>Mined calls\<close>

text \<open>A receipt that says that a call was executed: of the transaction with the hash that was submitted, or, with a waiter, of one that the account signed for the same call.\<close>

definition call_mined :: "walletEnv \<Rightarrow> 'd client \<Rightarrow> address \<Rightarrow> TransactionCall \<Rightarrow> string \<Rightarrow> Receipt \<Rightarrow> bool" where
  "call_mined E c w call hash r \<longleftrightarrow> rc_Status r = ReceiptStatusSuccessful \<and> (\<exists>h. validReceipt h r) \<and>
     (if wv_wait E = None then unhex (trim_prefix hash ''0x'') = Some (rc_TxHash r)
      else \<exists>tx. rc_TxHash r = wv_txHash E tx \<and> sameIntent (callRequest c call) tx \<and> wv_sender E (chainID c) tx = Inr w)"

lemma waitForReceipt_run:
  assumes "waitForReceipt E h fuel s = Some (Inr r, s')"
  shows "validReceipt h r \<and> validStatus r"
  using assms
proof (induction fuel arbitrary: s)
  case (Suc fuel)
  then show ?case by (auto simp: runs split: if_splits)
qed simp

lemma validStatus_cases: "validStatus r \<Longrightarrow> rc_Status r \<noteq> ReceiptStatusFailed \<Longrightarrow> rc_Status r = ReceiptStatusSuccessful"
  by (auto simp: validStatus_def)

lemma waitWalletTransactionReceipt_run:
  assumes "waitWalletTransactionReceipt E hash fuel s = Some ((receipt, None), s')"
  shows "\<exists>r. receipt = Some r \<and> rc_Status r = ReceiptStatusSuccessful \<and> validReceipt (rc_TxHash r) r \<and> unhex (trim_prefix hash ''0x'') = Some (rc_TxHash r)"
proof -
  obtain decoded s1 r s2 where d: "unhex (trim_prefix hash ''0x'') = Some decoded" "waitForReceipt E decoded fuel s1 = Some (Inr r, s2)" "receipt = Some r"
    "rc_Status r \<noteq> ReceiptStatusFailed"
    using assms by (auto simp: waitWalletTransactionReceipt_def runs split: if_splits)
  from waitForReceipt_run [OF d(2)] validStatus_cases [OF _ d(4)] have v: "validReceipt decoded r" "rc_Status r = ReceiptStatusSuccessful" by auto
  then have "decoded = rc_TxHash r" by (simp add: validReceipt_def)
  then show ?thesis using d v by simp
qed

lemma completion_Inr:
  "completion E w intent tx r = Inr u \<longleftrightarrow> sameIntent intent tx \<and> wv_sender E (tr_ChainID intent) tx = Inr w \<and> validReceipt (wv_txHash E tx) r \<and> validStatus r"
  by (auto simp: completion_def)

lemma completed_run:
  assumes "completed E w intent err tx receipt = (Some (t, r), None)"
  shows "sameIntent intent t \<and> wv_sender E (tr_ChainID intent) t = Inr w \<and> validReceipt (wv_txHash E t) r \<and> rc_Status r = ReceiptStatusSuccessful"
  using assms by (auto simp: completed_def completion_Inr intro: validStatus_cases split: option.splits sum.splits if_splits)

lemma completed_None: "completed E w intent err tx receipt = (mined, None) \<Longrightarrow> mined \<noteq> None"
  by (auto simp: completed_def split: option.splits sum.splits)

lemma WaitTransaction_run:
  assumes "WaitTransaction E w request h s = Some ((mined, None), s')"
  shows "\<exists>tx r. mined = Some (tx, r) \<and> sameIntent request tx \<and> wv_sender E (tr_ChainID request) tx = Inr w \<and> validReceipt (wv_txHash E tx) r \<and> rc_Status r = ReceiptStatusSuccessful"
proof -
  obtain intent err t receipt where "Inr intent = transactionRequest w request" "(mined, None) = completed E w intent err t receipt"
    using assms by (auto simp: WaitTransaction_def runs)
  note d = this [symmetric]
  then obtain tx r where t: "mined = Some (tx, r)" using completed_None by (cases mined) fastforce+
  from completed_run [OF d(2) [unfolded t]] transactionRequest_Inr [OF d(1)] t show ?thesis by (simp add: sameIntent_def)
qed

lemma waitWalletCallReceipt_run:
  assumes "waitWalletCallReceipt E c w call hash fuel s = Some ((receipt, None), s')"
  shows "\<exists>r. receipt = Some r \<and> call_mined E c w call hash r"
proof (cases "wv_wait E")
  case None
  then show ?thesis using assms by (auto simp: waitWalletCallReceipt_def call_mined_def dest!: waitWalletTransactionReceipt_run)
next
  case (Some wait)
  then obtain mined where "WaitTransaction E w (callRequest c call) (eth_hexToHash (re_eth (wv_relay E)) hash) s = Some ((mined, None), s')" "receipt = map_option snd mined"
    using assms by (auto simp: waitWalletCallReceipt_def runs)
  with WaitTransaction_run [OF this(1)] Some show ?thesis by (auto simp: call_mined_def callRequest_def validReceipt_def)
qed

section \<open>Sequences\<close>

definition confirmed :: "walletEnv \<Rightarrow> 'd client \<Rightarrow> address \<Rightarrow> walletTransactionAttempt \<Rightarrow> bool" where
  "confirmed E c w a \<longleftrightarrow> (\<exists>r. ts_ConfirmedReceipt (wa_submission a) = Some r \<and> call_mined E c w (wa_call a) (ts_TransactionHash (wa_submission a)) r)"

text \<open>What a loop hands over, and which attempts it adds to the handle.\<close>

definition accounted ::
  "walletEnv \<Rightarrow> 'd client \<Rightarrow> address \<Rightarrow> TransactionCall list \<Rightarrow> handover list \<Rightarrow> walletTransactionAttempt list \<Rightarrow> txError option \<Rightarrow> bool" where
  "accounted E c w calls sent attempts err \<longleftrightarrow> list_all2 (carries E c w) attempts sent \<and> map wa_call attempts = take (length sent) calls \<and>
     list_all (confirmed E c w) (butlast attempts) \<and> (err = None \<longrightarrow> length sent = length calls)"

definition in_step :: "WalletTransactionHandle \<Rightarrow> bool" where
  "in_step h \<longleftrightarrow> wh_Submissions h = map wa_submission (wh_attempts h)"

lemma accounted_nil: "accounted E c w [] [] [] None" "accounted E c w calls [] [] (Some e)"
  by (simp_all add: accounted_def)

lemma accounted_last: "carries E c w a h \<Longrightarrow> wa_call a = call \<Longrightarrow> err \<noteq> None \<or> calls = [] \<Longrightarrow> accounted E c w (call # calls) [h] [a] err"
  by (auto simp: accounted_def)

lemma accounted_Cons:
  "accounted E c w calls sent attempts err \<Longrightarrow> carries E c w a h \<Longrightarrow> wa_call a = call \<Longrightarrow> confirmed E c w a \<Longrightarrow>
   accounted E c w (call # calls) (h # sent) (a # attempts) err"
  by (auto simp: accounted_def)

lemma addAttempt_recorded:
  assumes "recorded X hash err" "in_step h"
  shows "\<exists>sub. wh_attempts (addAttempt X call hash err h) = wh_attempts h @ [\<lparr>wa_call = call, wa_submission = sub\<rparr>] \<and>
    ts_TransactionHash sub = (if hash \<noteq> noHash then eth_encode X hash else []) \<and> in_step (addAttempt X call hash err h) \<and>
    wh_requestedCalls (addAttempt X call hash err h) = wh_requestedCalls h \<and> wh_relayer (addAttempt X call hash err h) = wh_relayer h"
  using assms by (cases err) (auto simp: addAttempt_def recorded_def in_step_def Let_def)

lemma addAttempt_untouched: "untouched hash err \<Longrightarrow> addAttempt X call hash err h = h"
  by (auto simp: addAttempt_def untouched_def)

lemma confirmAttempt_last:
  assumes "wh_attempts h = as @ [a]" "in_step h" "length as = i"
  shows "wh_attempts (confirmAttempt i receipt h) = as @ [a\<lparr>wa_submission := (wa_submission a)\<lparr>ts_ConfirmedReceipt := receipt\<rparr>\<rparr>]" "in_step (confirmAttempt i receipt h)"
    "wh_requestedCalls (confirmAttempt i receipt h) = wh_requestedCalls h" "wh_relayer (confirmAttempt i receipt h) = wh_relayer h"
  using assms by (auto simp: confirmAttempt_def in_step_def nth_append list_update_append)

definition extends :: "WalletTransactionHandle \<Rightarrow> walletTransactionAttempt list \<Rightarrow> txError option \<Rightarrow> WalletTransactionHandle option \<Rightarrow> bool" where
  "extends h attempts err ho \<longleftrightarrow> (case ho of
       None \<Rightarrow> wh_attempts h = [] \<and> attempts = [] \<and> err \<noteq> None
     | Some h' \<Rightarrow> wh_attempts h' = wh_attempts h @ attempts \<and> in_step h' \<and> wh_requestedCalls h' = wh_requestedCalls h \<and> wh_relayer h' = wh_relayer h \<and>
         (err \<noteq> None \<longrightarrow> wh_attempts h' \<noteq> []))"

lemma extends_trans:
  "extends h1 attempts err ho \<Longrightarrow> wh_attempts h1 = wh_attempts h @ as \<Longrightarrow> as \<noteq> [] \<Longrightarrow> wh_requestedCalls h1 = wh_requestedCalls h \<Longrightarrow> wh_relayer h1 = wh_relayer h \<Longrightarrow>
   extends h (as @ attempts) err ho"
  by (auto simp: extends_def split: option.splits)

lemma eoaLoop_Cons:
  assumes "eoaLoop E c w fuel i (call # rest) h s = Some ((ho, err), s')" "broadcastWalletCall E c w call s = Some ((hash, err1), s1)"
  defines "X \<equiv> re_eth (wv_relay E)"
  defines "h1 \<equiv> addAttempt X call hash err1 h"
  obtains (failed) e where "err1 = Some e" "ho = (if wh_Submissions h1 = [] then None else Some h1)" "err \<noteq> None" "s' = s1"
    | (last) "err1 = None" "rest = []" "ho = Some h1" "err = None" "s' = s1"
    | (confirm) receipt err2 s2 where "err1 = None" "rest \<noteq> []" "waitWalletCallReceipt E c w call (eth_encode X hash) fuel s1 = Some ((receipt, err2), s2)"
        "i < length (wh_attempts h1) \<Longrightarrow> (if err2 = None then eoaLoop E c w fuel (Suc i) rest (confirmAttempt i receipt h1) s2 = Some ((ho, err), s')
          else ho = Some (confirmAttempt i receipt h1) \<and> err \<noteq> None \<and> s' = s2)"
  using assms(1) [simplified, unfolded assms(2) Let_def, simplified, folded X_def, folded h1_def]
  by (cases err1; cases "rest = []") (auto simp: case_runs split: if_splits)

lemma eoa_recorded:
  assumes "eoaLoop E c w fuel i (call # rest) h s = Some ((ho, err), s')" "broadcastWalletCall E c w call s = Some ((hash, err1), s1)"
    "wt_sent s1 = wt_sent s @ [sent1]" "carries_call E c w call hash sent1" "recorded (re_eth (wv_relay E)) hash err1" "in_step h" "length (wh_attempts h) = i"
    and IH: "\<And>h2 s2. eoaLoop E c w fuel (Suc i) rest h2 s2 = Some ((ho, err), s') \<Longrightarrow> in_step h2 \<Longrightarrow> length (wh_attempts h2) = Suc i \<Longrightarrow>
      \<exists>sent attempts. wt_sent s' = wt_sent s2 @ sent \<and> accounted E c w rest sent attempts err \<and> extends h2 attempts err ho"
  shows "\<exists>sent attempts. wt_sent s' = wt_sent s @ sent \<and> accounted E c w (call # rest) sent attempts err \<and> extends h attempts err ho"
proof -
  let ?X = "re_eth (wv_relay E)"
  define h1 where "h1 = addAttempt ?X call hash err1 h"
  obtain sub where sub: "wh_attempts h1 = wh_attempts h @ [\<lparr>wa_call = call, wa_submission = sub\<rparr>]" "ts_TransactionHash sub = (if hash \<noteq> noHash then eth_encode ?X hash else [])"
    "in_step h1" "wh_requestedCalls h1 = wh_requestedCalls h" "wh_relayer h1 = wh_relayer h"
    using addAttempt_recorded [OF assms(5,6)] unfolding h1_def by blast
  let ?a = "\<lambda>receipt. \<lparr>wa_call = call, wa_submission = sub\<lparr>ts_ConfirmedReceipt := receipt\<rparr>\<rparr>"
  have carries: "carries E c w (?a receipt) sent1" "carries E c w \<lparr>wa_call = call, wa_submission = sub\<rparr> sent1" for receipt
    using assms(4) sub(2) unfolding carries_def by auto
  have one: ?thesis if "ho = Some h1" "s' = s1" "err \<noteq> None \<or> rest = []"
    using that assms(3) sub by (intro exI [of _ "[sent1]"] exI [of _ "[\<lparr>wa_call = call, wa_submission = sub\<rparr>]"]) (auto simp: accounted_last carries extends_def)
  from assms(1,2) show ?thesis
  proof (cases rule: eoaLoop_Cons [case_names failed last confirm])
    case (confirm receipt err2 s2)
    define h2 where "h2 = confirmAttempt i receipt h1"
    note h2 = confirmAttempt_last [OF sub(1,3) assms(7), of receipt, folded h2_def]
    have s2: "wt_sent s2 = wt_sent s @ [sent1]" using unsentD [OF unsent_callReceipt confirm(3)] assms(3) by simp
    have run: "if err2 = None then eoaLoop E c w fuel (Suc i) rest h2 s2 = Some ((ho, err), s') else ho = Some h2 \<and> err \<noteq> None \<and> s' = s2"
      using confirm(4) sub(1) assms(7) by (simp add: h1_def h2_def)
    show ?thesis
    proof (cases err2)
      case (Some e)
      then show ?thesis using run s2 h2 sub(4,5) by (intro exI [of _ "[sent1]"] exI [of _ "[?a receipt]"]) (auto simp: accounted_last carries extends_def)
    next
      case None
      have conf: "confirmed E c w (?a receipt)"
        using waitWalletCallReceipt_run confirm(1,3) None sub(2) assms(5) by (fastforce simp: confirmed_def recorded_def)
      obtain sent as where r: "wt_sent s' = wt_sent s2 @ sent" "accounted E c w rest sent as err" "extends h2 as err ho"
        using IH [of h2 s2] run None h2(1,2) assms(7) by auto
      have "extends h (?a receipt # as) err ho" using extends_trans [OF r(3), of h "[?a receipt]"] h2 sub(4,5) by simp
      then show ?thesis using r(1,2) s2 carries(1) conf by (intro exI [of _ "sent1 # sent"] exI [of _ "?a receipt # as"]) (auto intro: accounted_Cons)
    qed
  qed (use one sub(1,3) in \<open>auto simp: h1_def in_step_def\<close>)
qed

lemma eoaLoop_run:
  assumes "eoaLoop E c w fuel i calls h s = Some ((ho, err), s')" "\<forall>tx. wv_txHash E tx \<noteq> noHash" "in_step h" "length (wh_attempts h) = i"
  shows "\<exists>sent attempts. wt_sent s' = wt_sent s @ sent \<and> accounted E c w calls sent attempts err \<and> extends h attempts err ho"
  using assms(1,3,4)
proof (induction calls arbitrary: i h s)
  case Nil
  then show ?case by (intro exI [of _ "[]"]) (simp add: accounted_nil extends_def)
next
  case (Cons call rest)
  obtain hash err1 s1 where b: "broadcastWalletCall E c w call s = Some ((hash, err1), s1)" using Cons.prems(1) by auto
  from broadcast_run [OF b assms(2)] show ?case
  proof (elim disjE conjE exE)
    assume u: "wt_sent s1 = wt_sent s" "untouched hash err1"
    then have "addAttempt (re_eth (wv_relay E)) call hash err1 h = h" by (simp add: addAttempt_untouched)
    then show ?thesis using u Cons.prems(2)
      by (intro exI [of _ "[]"]) (rule eoaLoop_Cons [OF Cons.prems(1) b]; auto simp: untouched_def accounted_nil extends_def in_step_def)
  qed (use eoa_recorded [OF Cons.prems(1) b _ _ _ Cons.prems(2,3)] Cons.IH in blast)
qed

lemma ExecuteEOACalls_run:
  assumes "ExecuteEOACalls E c w fuel calls s = Some ((handle, err), s')" "\<forall>tx. wv_txHash E tx \<noteq> noHash"
  shows "\<exists>sent attempts. wt_sent s' = wt_sent s @ sent \<and> accounted E c w calls sent attempts err \<and> extends (emptyHandle (length calls)) attempts err handle \<and>
    (err = None \<longrightarrow> calls \<noteq> [])"
proof -
  consider "s' = s" "handle = None" "err \<noteq> None" | "calls \<noteq> []" "eoaLoop E c w fuel 0 calls (emptyHandle (length calls)) s = Some ((handle, err), s')"
    using assms(1) by (cases "calls = []") (auto simp: ExecuteEOACalls_def runs)
  then show ?thesis
  proof cases
    case 1
    then show ?thesis by (intro exI [of _ "[]"]) (auto simp: accounted_def extends_def emptyHandle_def)
  next
    case 2
    from eoaLoop_run [OF this(2) assms(2)] this(1) show ?thesis by (simp add: in_step_def emptyHandle_def)
  qed
qed

lemma receiptLoop_run:
  assumes "receiptLoop E c w fuel missing attempts receipts s = Some ((rs, None), s')"
  shows "missing = 0 \<and> (\<exists>new. rs = receipts @ new \<and> list_all2 (\<lambda>a r. call_mined E c w (wa_call a) (ts_TransactionHash (wa_submission a)) r) attempts new)"
  using assms
proof (induction attempts arbitrary: receipts s)
  case (Cons a attempts)
  obtain receipt s1 where r: "waitWalletCallReceipt E c w (wa_call a) (ts_TransactionHash (wa_submission a)) fuel s = Some ((receipt, None), s1)"
    "receiptLoop E c w fuel missing attempts (receipts @ (case receipt of None \<Rightarrow> [] | Some r \<Rightarrow> [r])) s1 = Some ((rs, None), s')"
    using Cons.prems by (auto simp: runs)
  then show ?case using waitWalletCallReceipt_run [OF r(1)] Cons.IH [OF r(2)] by auto
qed (auto split: if_splits)

section \<open>Waits that end\<close>

definition ends :: "'a run \<Rightarrow> bool" where
  "ends m \<longleftrightarrow> (\<forall>s. m s \<noteq> None)"

named_theorems ends_rules

lemma ends_basic [ends_rules]: "ends (give x)" "ends (query f)" "ends (relayed m)" "ends (ctxErr E)" "ends (record_sent h)"
  by (auto simp: ends_def give_def query_def relayed_def ctxErr_def record_sent_def split: prod.splits)

lemma ends_andThen [ends_rules]: "ends m \<Longrightarrow> (\<And>x. ends (f x)) \<Longrightarrow> ends (andThen m f)"
  by (auto simp: ends_def andThen_def split: option.splits)

lemma ends_cases [ends_rules]:
  "(b \<Longrightarrow> ends m) \<Longrightarrow> (\<not> b \<Longrightarrow> ends m') \<Longrightarrow> ends (if b then m else m')"
  "ends m \<Longrightarrow> (\<And>x. ends (f x)) \<Longrightarrow> ends (case v of None \<Rightarrow> m | Some x \<Rightarrow> f x)"
  "(\<And>e. ends (g e)) \<Longrightarrow> (\<And>x. ends (f' x)) \<Longrightarrow> ends (case r of Inl e \<Rightarrow> g e | Inr x \<Rightarrow> f' x)"
  "(\<And>a b. ends (k a b)) \<Longrightarrow> ends (case p of (a, b) \<Rightarrow> k a b)"
  by (auto split: option.splits sum.splits prod.splits)

lemma ends_step [ends_rules]: "ends m \<Longrightarrow> (\<And>x. ends (f x)) \<Longrightarrow> ends (step z wrap m f)"
  unfolding step_def by (intro ends_rules)

lemma ends_wallet [ends_rules]: "ends (SignTransaction E w chain tx)" "ends (WaitTransaction E w request h)" "ends (SendTransaction E w request)"
  unfolding SignTransaction_def WaitTransaction_def SendTransaction_def Let_def by (intro ends_rules)+

lemma ends_broadcast [ends_rules]: "ends (broadcastWalletCall E c w call)"
  unfolding broadcastWalletCall_def signAndBroadcast_def Let_def by (intro ends_rules)

text \<open>From moment \<open>N\<close> on the context of the wait has ended.\<close>

lemma waitForReceipt_ends:
  assumes "\<forall>n \<ge> N. wv_ticker E n \<noteq> None" "0 < fuel" "N < rl_ticks (wt_relay s) + fuel"
  shows "waitForReceipt E h fuel s \<noteq> None"
  using assms(2,3)
proof (induction fuel arbitrary: s)
  case (Suc fuel)
  let ?n = "rl_ticks (wt_relay s)"
  show ?case
  proof (cases "wv_ticker E ?n")
    case None
    then have "?n < N" using assms(1) not_le by blast
    then show ?thesis using Suc.prems None Suc.IH
      by (auto simp: andThen_def query_def give_def split: sum.splits)
  qed (simp add: andThen_def query_def give_def)
qed simp

lemma ends_receipts:
  assumes "\<forall>n \<ge> N. wv_ticker E n \<noteq> None"
  shows "ends (waitWalletCallReceipt E c w call hash (Suc N))"
proof -
  have "ends (waitForReceipt E h (Suc N))" for h using waitForReceipt_ends [OF assms, of "Suc N"] by (auto simp: ends_def)
  then show ?thesis unfolding waitWalletCallReceipt_def waitWalletTransactionReceipt_def by (intro ends_rules)
qed

lemma ends_eoaLoop:
  assumes "\<forall>n \<ge> N. wv_ticker E n \<noteq> None"
  shows "ends (eoaLoop E c w (Suc N) i calls h)"
proof (induction calls arbitrary: i h)
  case (Cons call rest)
  then show ?case unfolding eoaLoop.simps Let_def by (intro ends_rules ends_receipts [OF assms])
qed (simp add: ends_rules)

section \<open>Properties\<close>

text \<open>
  C13: whatever fails, \<open>ExecuteEOACalls\<close> accounts for everything it handed over.  The calls that were handed to the wallet or the node are the first ones of the sequence, in order and unchanged;
  the handle has an attempt for each of them, with its hash where one is known, and is nil only when nothing was handed over; before a call is handed over, the one before
  it was mined successfully, by a receipt with the submitted hash or of a transaction the account signed for the same call.
\<close>

theorem eoa_calls_accounted:
  assumes "\<forall>tx. wv_txHash E tx \<noteq> noHash" "ExecuteEOACalls E c w fuel calls s = Some ((handle, err), s')"
  shows "\<exists>sent attempts. wt_sent s' = wt_sent s @ sent \<and> list_all2 (carries E c w) attempts sent \<and> map wa_call attempts = take (length sent) calls \<and>
    list_all (confirmed E c w) (butlast attempts) \<and> (err = None \<longrightarrow> length sent = length calls) \<and> (handle = None \<longleftrightarrow> sent = []) \<and>
    (\<forall>h. handle = Some h \<longrightarrow> wh_attempts h = attempts \<and> wh_Submissions h = map wa_submission attempts \<and> wh_requestedCalls h = length calls)"
proof -
  obtain sent attempts where r: "wt_sent s' = wt_sent s @ sent" "accounted E c w calls sent attempts err" "extends (emptyHandle (length calls)) attempts err handle"
    "err = None \<longrightarrow> calls \<noteq> []" using ExecuteEOACalls_run [OF assms(2,1)] by blast
  have "length attempts = length sent" using r(2) by (auto simp: accounted_def list_all2_lengthD)
  then have "handle = None \<longleftrightarrow> sent = []" using r(2-4) by (cases handle; cases err) (auto simp: extends_def accounted_def emptyHandle_def)
  then show ?thesis using r by (intro exI [of _ sent] exI [of _ attempts]) (auto simp: accounted_def extends_def emptyHandle_def in_step_def)
qed

text \<open>
  C34: waiting for the handle of a sequence succeeds only when all of its calls were executed: if \<open>WaitReceipts\<close> returns without an error, then its receipts are, in order, successful ones for
  every call that was asked for, even when the execution itself had failed.
\<close>

theorem eoa_wait_complete:
  assumes "\<forall>tx. wv_txHash E tx \<noteq> noHash" "ExecuteEOACalls E c w fuel calls s = Some ((handle, err), s1)"
    "WaitReceipts E c w fuel' handle s2 = Some ((receipts, None), s3)"
  shows "\<exists>h. handle = Some h \<and> map wa_call (wh_attempts h) = calls \<and>
    list_all2 (\<lambda>a r. call_mined E c w (wa_call a) (ts_TransactionHash (wa_submission a)) r) (wh_attempts h) receipts"
proof -
  obtain sent attempts where r: "accounted E c w calls sent attempts err" "extends (emptyHandle (length calls)) attempts err handle"
    using ExecuteEOACalls_run [OF assms(2,1)] by blast
  obtain h where h: "handle = Some h" using assms(3) by (cases handle) (auto simp: WaitReceipts_def)
  then have e: "wh_attempts h = attempts" "wh_relayer h = None" "wh_requestedCalls h = length calls" using r(2) by (auto simp: extends_def emptyHandle_def)
  have "length attempts \<le> length calls" "receiptLoop E c w fuel' (length calls - length attempts) attempts [] s2 = Some ((receipts, None), s3)"
    using assms(3) h e by (auto simp: WaitReceipts_def runs)
  with receiptLoop_run [OF this(2)] have m: "length attempts = length calls"
    "list_all2 (\<lambda>a r. call_mined E c w (wa_call a) (ts_TransactionHash (wa_submission a)) r) attempts receipts" by auto
  moreover have "length attempts = length sent" using r(1) by (auto simp: accounted_def list_all2_lengthD)
  ultimately show ?thesis using h e(1) r(1) by (auto simp: accounted_def)
qed

text \<open>
  Executing a sequence of calls ends once the context ends: if the waits for receipts are cancelled from some moment on, the execution returns, within that many rounds of
  polling for each receipt.
\<close>

theorem eoa_execution_ends:
  assumes "\<forall>n \<ge> N. wv_ticker E n \<noteq> None"
  shows "\<exists>result s'. ExecuteEOACalls E c w (Suc N) calls s = Some (result, s')"
proof -
  have "ends (ExecuteEOACalls E c w (Suc N) calls)" unfolding ExecuteEOACalls_def by (intro ends_rules ends_eoaLoop [OF assms])
  then show ?thesis unfolding ends_def by (metis not_None_eq prod.exhaust)
qed

section \<open>Two calls of an account\<close>

text \<open>A node that accepts every transaction and knows its receipt, until the context of the waits ends.\<close>

definition wallet_env :: walletEnv where
  "wallet_env = \<lparr>wv_relay = relay_env, wv_send = None, wv_wait = None,
     wv_signTx = Some (\<lambda>n chain tx. Inr (Some (tx\<lparr>tx_Signature := [1]\<rparr>))), wv_dial = (\<lambda>n. Inr ()), wv_nonce = (\<lambda>n a. Inr (of_nat n)), wv_tip = (\<lambda>n. Inr 3),
     wv_baseFee = (\<lambda>n. Inr (Some 20)), wv_gas = (\<lambda>n a call fee tip. Inr 21000), wv_broadcast = (\<lambda>n tx. Inr ()),
     wv_receipt = (\<lambda>n h. Inr \<lparr>rc_TxHash = h, rc_BlockNumber = Some 7, rc_BlockHash = replicate 32 9, rc_Status = ReceiptStatusSuccessful\<rparr>),
     wv_ticker = (\<lambda>n. if n < 100 then None else Some CtxCanceled), wv_txHash = (\<lambda>tx. replicate 31 1 @ [ucast (tx_Nonce tx)]), wv_sigHash = (\<lambda>chain tx. []),
     wv_sender = (\<lambda>chain tx. Inr demo_owner)\<rparr>"

definition demo_calls :: "TransactionCall list" where
  "demo_calls = [\<lparr>tc_To = demo_owner, tc_Data = [1], tc_Value = Some 0\<rparr>, \<lparr>tc_To = demo_owner, tc_Data = [2], tc_Value = Some 5\<rparr>]"

definition wallet_start :: walletState where
  "wallet_start = \<lparr>wt_relay = relay_start, wt_sent = []\<rparr>"

definition account_client :: "dec client" where
  "account_client = demo_client\<lparr>signatureType := 0\<rparr>"

definition later_state :: "nat \<Rightarrow> handover list \<Rightarrow> walletState" where
  "later_state n sent = \<lparr>wt_relay = \<lparr>rl_ticks = n, rl_log = []\<rparr>, wt_sent = sent\<rparr>"

lemma node_hash_valid: "\<forall>tx. wv_txHash wallet_env tx \<noteq> noHash" "length (wv_txHash wallet_env tx) = 32"
  by (simp_all add: noHash_def wallet_env_def numeral_eq_Suc)

lemma account_client_fields: "signatureType account_client = SignatureTypeEOA" "0 < chainID account_client"
  by code_simp+

lemma demo_broadcast:
  assumes "tc_Value call = Some v" "0 \<le> v" "v < 2 ^ 256"
  shows "\<exists>tx k. broadcastWalletCall wallet_env account_client demo_owner call (later_state n sent) = Some ((wv_txHash wallet_env tx, None), later_state (n + k) (sent @ [ToNode tx])) \<and> k < 20"
  using assms account_client_fields
  by (simp add: broadcastWalletCall_def signAndBroadcast_def SignTransaction_def step_def andThen_def give_def query_def ctxErr_def record_sent_def wallet_env_def relay_env_def
      requireEOATokenOperation_def uint256Amount_def later_state_def feeTransaction_def Let_def)

lemma demo_encode: "eth_encode (re_eth (wv_relay wallet_env)) h = ''0x'' @ hex_encode h"
  by (simp add: wallet_env_def relay_env_def relay_eth.encode)

lemma demo_wait_receipt:
  assumes "length h = 32" "h \<noteq> noHash" "n < 90"
  shows "\<exists>r. waitWalletCallReceipt wallet_env c w call (eth_encode (re_eth (wv_relay wallet_env)) h) (Suc k) (later_state n sent) = Some ((Some r, None), later_state (n + 3) sent)"
proof -
  have u: "unhex (trim_prefix (''0x'' @ hex_encode h) ''0x'') = Some h" by (simp add: trim_prefix_def has_prefix_def unhex_encode)
  have "has_prefix (''0x'' @ hex_encode h) ''0x''" by (simp add: has_prefix_def)
  moreover have "wv_wait wallet_env = None" "replicate 32 (9 :: byte) \<noteq> noHash" by (simp_all add: wallet_env_def noHash_def)
  ultimately show ?thesis using assms unfolding demo_encode
    by (simp add: waitWalletCallReceipt_def waitWalletTransactionReceipt_def u del: append.simps)
      (simp add: wallet_env_def step_def andThen_def give_def query_def later_state_def validReceipt_def validStatus_def ReceiptStatusSuccessful_def ReceiptStatusFailed_def)
qed

lemma demo_execute:
  "\<exists>h s' tx1 tx2. ExecuteEOACalls wallet_env account_client demo_owner 101 demo_calls (later_state 0 []) = Some ((Some h, None), s') \<and>
     wh_signer h \<and> wh_relayer h = None \<and> wh_requestedCalls h = 2 \<and>
     map (\<lambda>a. ts_TransactionHash (wa_submission a)) (wh_attempts h) = map (\<lambda>tx. eth_encode (re_eth (wv_relay wallet_env)) (wv_txHash wallet_env tx)) [tx1, tx2]"
proof -
  let ?E = wallet_env and ?c = account_client and ?w = demo_owner
  obtain c1 c2 where calls: "demo_calls = [c1, c2]" "tc_Value c1 = Some 0" "tc_Value c2 = Some 5" by (simp add: demo_calls_def)
  obtain tx1 k1 where b1: "broadcastWalletCall ?E ?c ?w c1 (later_state 0 []) = Some ((wv_txHash ?E tx1, None), later_state (0 + k1) ([] @ [ToNode tx1]))" "k1 < 20"
    using demo_broadcast [of c1 0 0 "[]"] by (auto simp: calls)
  obtain r1 where w1: "waitWalletCallReceipt ?E ?c ?w c1 (eth_encode (re_eth (wv_relay ?E)) (wv_txHash ?E tx1)) 101 (later_state (0 + k1) ([] @ [ToNode tx1])) =
      Some ((Some r1, None), later_state (0 + k1 + 3) ([] @ [ToNode tx1]))"
    using demo_wait_receipt [of "wv_txHash ?E tx1" "0 + k1" ?c ?w c1 100 "[] @ [ToNode tx1]"] node_hash_valid b1(2) by auto
  obtain tx2 k2 where b2: "broadcastWalletCall ?E ?c ?w c2 (later_state (0 + k1 + 3) ([] @ [ToNode tx1])) =
      Some ((wv_txHash ?E tx2, None), later_state (0 + k1 + 3 + k2) (([] @ [ToNode tx1]) @ [ToNode tx2]))" "k2 < 20"
    using demo_broadcast [of c2 5 "0 + k1 + 3" "[] @ [ToNode tx1]"] by (auto simp: calls)
  have "requireEOATokenOperation ?c = Inr ()" "checkValues [c1, c2] = Inr [0, 5]"
    using account_client_fields by (simp_all add: calls requireEOATokenOperation_def checkValues_def uint256Amount_def)
  moreover have "wv_txHash ?E tx1 \<noteq> noHash" "wv_txHash ?E tx2 \<noteq> noHash" using node_hash_valid(1) by blast+
  ultimately show ?thesis using b1 b2 w1 unfolding calls(1) by (simp add: ExecuteEOACalls_def step_def andThen_def give_def Let_def addAttempt_def emptyHandle_def later_state_def confirmAttempt_def) blast
qed

theorem eoa_calls_accounted_witness:
  "\<exists>h s'. ExecuteEOACalls wallet_env account_client demo_owner 101 demo_calls (later_state 0 []) = Some ((Some h, None), s') \<and> length (wt_sent s') = 2 \<and>
     map wa_call (wh_attempts h) = demo_calls \<and> confirmed wallet_env account_client demo_owner (wh_attempts h ! 0)"
proof -
  obtain h s' where r: "ExecuteEOACalls wallet_env account_client demo_owner 101 demo_calls (later_state 0 []) = Some ((Some h, None), s')" using demo_execute by blast
  have "length demo_calls = 2" by (simp add: demo_calls_def)
  with eoa_calls_accounted [OF node_hash_valid(1) r] obtain sent where s: "wt_sent s' = sent" "map wa_call (wh_attempts h) = demo_calls" "length sent = 2"
    "list_all (confirmed wallet_env account_client demo_owner) (butlast (wh_attempts h))" by (auto simp: later_state_def)
  then have "length (wh_attempts h) = 2" using \<open>length demo_calls = 2\<close> by (metis length_map)
  then obtain a b where "wh_attempts h = [a, b]" by (auto simp: numeral_2_eq_2 length_Suc_conv)
  then show ?thesis using r s by auto
qed

theorem eoa_wait_complete_witness:
  "\<exists>h s1 receipts s3. ExecuteEOACalls wallet_env account_client demo_owner 101 demo_calls (later_state 0 []) = Some ((Some h, None), s1) \<and>
     WaitReceipts wallet_env account_client demo_owner 101 (Some h) (later_state 0 []) = Some ((receipts, None), s3) \<and>
     list_all2 (\<lambda>a r. call_mined wallet_env account_client demo_owner (wa_call a) (ts_TransactionHash (wa_submission a)) r) (wh_attempts h) receipts"
proof -
  let ?E = wallet_env and ?c = account_client and ?w = demo_owner
  obtain h s1 tx1 tx2 where r: "ExecuteEOACalls ?E ?c ?w 101 demo_calls (later_state 0 []) = Some ((Some h, None), s1)" "wh_signer h" "wh_relayer h = None" "wh_requestedCalls h = 2"
    "map (\<lambda>a. ts_TransactionHash (wa_submission a)) (wh_attempts h) = map (\<lambda>tx. eth_encode (re_eth (wv_relay ?E)) (wv_txHash ?E tx)) [tx1, tx2]" using demo_execute by blast
  obtain a b where as: "wh_attempts h = [a, b]" "ts_TransactionHash (wa_submission a) = eth_encode (re_eth (wv_relay ?E)) (wv_txHash ?E tx1)"
    "ts_TransactionHash (wa_submission b) = eth_encode (re_eth (wv_relay ?E)) (wv_txHash ?E tx2)" using r(5) by (auto simp: map_eq_Cons_conv)
  have wait: "\<exists>r. waitWalletCallReceipt ?E ?c ?w call (eth_encode (re_eth (wv_relay ?E)) (wv_txHash ?E tx)) 101 (later_state n []) = Some ((Some r, None), later_state (n + 3) [])"
    if "n < 90" for call tx n using demo_wait_receipt [of "wv_txHash ?E tx" n ?c ?w call 100 "[]"] that node_hash_valid by simp
  have "eth_encode (re_eth (wv_relay ?E)) x \<noteq> []" for x by (simp add: demo_encode)
  then obtain receipts s3 where w: "WaitReceipts ?E ?c ?w 101 (Some h) (later_state 0 []) = Some ((receipts, None), s3)"
    using r(2-4) as wait [of 0 "wa_call a" tx1] wait [of 3 "wa_call b" tx2] by (auto simp: WaitReceipts_def andThen_def give_def Let_def)
  from eoa_wait_complete [OF node_hash_valid(1) r(1) w] r(1) w show ?thesis by blast
qed

theorem eoa_execution_ends_witness:
  "\<exists>result s'. ExecuteEOACalls wallet_env account_client demo_owner 101 demo_calls wallet_start = Some (result, s')"
proof -
  have "\<forall>n \<ge> 100. wv_ticker wallet_env n \<noteq> None" by (simp add: wallet_env_def)
  from eoa_execution_ends [OF this, of account_client demo_owner demo_calls wallet_start] show ?thesis by simp
qed

end
