(* ===== verification/Spec2Isabelle.thy ===== *)
theory Spec2Isabelle
  imports CoreProperties OrderPost Pagination Transport OrderBookHash Heartbeat ComboSession Relay WsEvents WsConnection Rtds RtdsConnection SessionKeys WalletExec
begin

text \<open>
  Verification of the order pipeline of \<open>go-clob-client\<close>, a Go client of the Polymarket central limit order book.

  \<^bold>\<open>The program.\<close>  A client (\<open>src/clob/client.go\<close>) holds caches of market data and a signer.  Placing an order goes through
  these parts: the arguments are checked (\<open>order_validation.go\<close>), the tick size, the neg-risk flag and the fees of the market are
  resolved from caches or from the service (\<open>order_context.go\<close>, \<open>order_metadata_cache.go\<close>, \<open>builder_fee_cache.go\<close>), the
  amounts are computed in exact decimals and rounded (\<open>order_math.go\<close>, \<open>order_fees.go\<close>, \<open>order_pricing.go\<close>, \<open>limit_order.go\<close>,
  \<open>market_order.go\<close>), the order is turned into EIP-712 typed data and signed (\<open>order_signing.go\<close>, \<open>legacy_order.go\<close>),
  posted (\<open>order_post.go\<close>, \<open>orders.go\<close>), and its fills are followed until they settle (\<open>order_resolution.go\<close>).  Beside the pipeline stand the
  parts it and the other operations share: the retry policy of requests (\<open>transport.go\<close>), the traversal of paged listings (\<open>pagination.go\<close>,
  \<open>iter.go\<close>), the hashes of order books (\<open>orderbook_hash.go\<close>), the heartbeat loop that keeps orders alive (\<open>heartbeat.go\<close>) and the smart-contract wallets
  that hold the funds (\<open>wallets.go\<close>, \<open>wallet_identity.go\<close>).  Positions over several markets, combos, are traded by request for quote:
  a requester asks a gateway for a quote, checks its echo, signs the acceptance and waits for the fill (\<open>combo_rfq.go\<close>, \<open>combo_rfq_response.go\<close>,
  \<open>combo_fill.go\<close>); a maker answers requests over a socket (\<open>combo_quoter_quote.go\<close>, \<open>combo_quoter_session.go\<close>, \<open>combo_quoter_events.go\<close>).
  Calls from a smart-contract wallet reach the chain through a relayer: they are bundled, signed in the scheme of the wallet, posted, and polled until
  they are confirmed or have failed (\<open>gasless.go\<close>, \<open>src/internal/polyrelay\<close>, \<open>src/signing/signer.go\<close>).  The owner of a deposit wallet authorizes and revokes
  session keys by such calls, and waits until the registry of active keys shows the change (\<open>session_keys.go\<close>).  An ordinary account sends its calls one after the other, by a wallet that
  broadcasts itself or by signing and a node, and keeps what it has sent in a handle that can be waited for (\<open>wallet_transactions.go\<close>, \<open>src/signing\<close>, \<open>ctf.go\<close>).
  A socket client streams market and user events: it counts the references to every asset and market, tells the service about the first and the last
  of them, sends everything again after a reconnect, and hands decoded events to a channel (\<open>ws/client.go\<close>, \<open>ws/types.go\<close>).  A second one streams prices and comments: it keeps a list of local interests, derives from it what
  the service is asked for, and filters the messages by them (\<open>ws/rtds\<close>).

  \<^bold>\<open>Theories.\<close>
  \<^item> \<open>Prelude\<close>: errors as the datatype \<open>go_error\<close>, results as sums, fallible computations over a state (\<open>act\<close>, \<open>bindE\<close>),
    Go's string functions on bytes, numerals in a base with their round trips, rounding to decimal places.
  \<^item> \<open>Decimals\<close>: the third-party decimal package \<open>udecimal\<close> as a record of operations and the locale \<open>udecimal\<close>, whose
    assumptions are the documented behaviour of the package: exact comparison and addition, truncation at 19 places,
    exact printing and parsing.  \<open>Dec19\<close> interprets it on an executable implementation with 19 places.
  \<^item> \<open>OrderTypes\<close>: the structs and constants of \<open>order_types.go\<close>, \<open>market_types.go\<close>, \<open>config.go\<close>, \<open>contracts.go\<close>.
  \<^item> \<open>OrderMath\<close>, \<open>RestDecimal\<close>: rounding grids, base units, the fee-adjusted amount, argument checks, decimal literals.
  \<^item> \<open>ClientState\<close>: the record \<open>client\<close> with every cache field of \<open>clientCacheState\<close> and the operations that read, fill and clear
    them; the record \<open>env\<close> of everything outside the process (clock, contexts, service, wallet), a parameter everywhere.
  \<^item> \<open>SingleFlight\<close>: the protocol the three metadata resolvers share, as a step relation over any number of goroutines, and the locale
    \<open>single_flight\<close> of the laws their critical sections obey.  \<open>OrderMetadata\<close> has the critical sections, the sequential resolvers and
    the three interpretations.
  \<^item> \<open>OrderContext\<close>, \<open>OrderSigning\<close>, \<open>LimitOrder\<close>, \<open>MarketOrder\<close>, \<open>Settlement\<close>, \<open>OrderPost\<close>: one theory per file or pair of
    files of the pipeline, each operation with all of its guards and error returns.
  \<^item> \<open>Transport\<close>: rate limit, retry loop and delays in 64-bit arithmetic.  \<open>Pagination\<close>: cursors and the sequence of pages, with a consumer
    that may stop; a listing that never ends is \<open>None\<close>.  \<open>OrderBookHash\<close>: the payloads and the two hashes over them.  \<open>Heartbeat\<close>: the
    critical sections of the heartbeat life cycle and a step relation over any number of loops, stops and closes.
  \<^item> \<open>Wallets\<close>: the derivation of proxy, Safe and deposit wallets, the funder of a client and the session signature envelope; go-ethereum is
    the record \<open>eth_ops\<close> with the laws of the locale \<open>ethereum\<close>.  \<open>ComboRfq\<close>: the requester's side of combos; the gateway is
    the record \<open>comboEnv\<close>.  \<open>ComboQuoter\<close>: the maker's quote and its signed order.  \<open>ComboSession\<close>: the maker's session as a step relation over concurrent commands, the reader
    and the consumer, an abstract request/reply service, and the interpretation of the locale \<open>forward_simulation\<close> that the one refines the other.
  \<^item> \<open>RelaySign\<close>: the signing boundary, the three signature schemes, the bundling of calls and the bodies for the relayer.  \<open>Relay\<close>: posting them, the refusals
    after which they are posted again, the correction of a stale nonce, and polling; the relayer is the record \<open>relayEnv\<close>.
    \<open>SessionKeys\<close>: authorizing and revoking session keys; the registry and the service for mutations are the record \<open>sessionEnv\<close>.
    \<open>WalletExec\<close>: the calls of an ordinary account and the batch of a smart wallet, with their handles and receipts; the wallet and the node are the record \<open>walletEnv\<close>.
  \<^item> \<open>WsSubscriptions\<close>: the subscriptions of the socket client, their reference counts, the messages of the subscribe and unsubscribe methods and the replay on a
    new connection, in sequence and with calls that interleave; the writes of the socket are the record \<open>wsEnv\<close>.  \<open>WsEvents\<close>: the events with their decoders, the scan for the type of a message, and the
    dispatch into the event channel.  \<open>WsConnection\<close>: the life cycle of the connection as a step relation over the read and heartbeat loops, callers of
    \<open>connect\<close> and reconnect goroutines.
  \<^item> \<open>Rtds\<close>: the registrations of the real-time data socket, the requests derived from them, the filters and the decoding of prices; the codec is the record
    \<open>rtdsCodec\<close>.  \<open>RtdsConnection\<close>: the life cycle of its connection.
  \<^item> \<open>Fixtures\<close>: a concrete client and environment on which the theorems with hypotheses are applied.
  \<^item> \<open>CoreProperties\<close>: the properties of the arithmetic, the literals and the caches.

  \<^bold>\<open>What is shown.\<close>  A limit order is signed for exactly the price and size asked for, at a price on the tick grid; price protection
  holds for the amounts that are signed, and a spending cap holds for the collateral that is signed with the platform fee and the builder fee of the run, when the fee rate is not negative; the signature covers the order that is returned and is made for the
  exchange of the server's protocol version; in every interleaving the metadata caches are loaded once per key and never hold a
  value older than the last clear; waiting for settlement ends, succeeds only when the fate of every fill is known, and fails only for the
  reasons listed; an order is posted a second time only after a version mismatch.  Writes are sent at most once and reads are
  repeated only as the policy says; a listing has an end whenever its cursors advance; at most one heartbeat loop runs, it uses the ID the
  service reported last, and after a close none runs again.  Wallet addresses are those of the factories' CREATE2 derivation, in both of its
  implementations.  A combo quote that is handed out belongs to the request, the acceptance that is posted carries the signed order with the amounts that were quoted, and the waits end; a maker's order is,
  with the side it is signed for, never worse for the requester than the quote; the maker's session refines a service with numbered requests: no command gets another one's
  acknowledgement, the session cannot block itself, and an ambiguous command ends it.  Every batch that reaches the relayer carries a signature that was verified
  against it, a bundle of calls is read back by the multiSend contract as these calls, nothing is posted again unless it was refused, and
  polling ends with what the relayer reported.  A session key counts as authorized or revoked only when a registry that was read after the service took the mutation says so, with the expiry
  and the scopes that were signed.  The calls of an ordinary account are handed over in order, each after the one before it was mined; the handle accounts for all that
  were handed over, and waiting for it succeeds only with a receipt for every call.  After every sequence of calls the service has been asked for exactly the names the socket client holds subscriptions for, whatever
  writes fail and however often it reconnects, unless a failed replay was offered to the error channel; when calls interleave no name is counted more often than it is asked for; the scan returns the type that the message carries; a live connection is watched by both of its
  loops, from a lost one its own loops can reach a new one unless a loss was reported while a reconnect was under way, and the timer between attempts is set to 1 second and then to
  exactly the doubled values.  From every loss of the real-time data socket its own loops can reach a new connection; that they do so needs a dial that succeeds and is not claimed.  There a registration is released by unsubscribing with the same arguments, messages are
  handed on once and in order, and average prices are the exact integers of the wire.

  \<^bold>\<open>Modelling choices.\<close>  Each interaction with the environment is numbered, so that two requests may get different answers; the counter
  \<open>ticks\<close> is part of the client.  Mutexes are modelled by the atomicity of the critical sections.  Error values keep their sentinel and
  their wrapping, the texts are shortened.  A Go function that returns a partial value beside an error is modelled by the error, except in \<open>WalletExec\<close>, where both are in the result.  64-bit and
  32-bit fields are words; \<open>big.Int\<close> and times are integers.  The polling loops take fuel, one unit for a round; the
  termination theorems give the amount that is enough in terms of the interaction at which the clock passes the deadline.
  The codec of the socket client is the record \<open>wsJSON\<close> of decoders, over a type parameter for \<open>NewMarketEvent\<close>; installing a connection and starting its two loops is one step.

  \<^bold>\<open>Not modelled.\<close>  JSON encoding and decoding, the execution of single HTTP requests, authentication headers, the construction of the calls of position operations,
  and the separate clients for data, gamma, perps, rewards and notifications.
\<close>

end
